(* ===== verification/Prelude.thy ===== *)
theory Prelude
  imports Main "HOL-Library.Sublist"
begin

section \<open>Shared vocabulary of the development\<close>

text \<open>
  The prelude names the types of the Go program that have no structure of their own in
  HOL, and proves the facts about lists, options and strings that the component theories
  share.

  \<^item> \<open>string\<close> is Go's string: a list of bytes. The empty string is \<open>[]\<close>.
  \<^item> \<open>time\<close> is Go's \<open>time.Time\<close> as the number of nanoseconds since Go's zero time, so
    \<open>IsZero\<close> is equality with 0, and \<open>Before\<close>, \<open>After\<close> and \<open>Equal\<close> are the orders and
    equality of \<open>int\<close>.
  \<^item> \<open>duration\<close> is Go's \<open>time.Duration\<close>, an int64 number of nanoseconds. Products of
    durations wrap (\<open>wrap64\<close>), while \<open>Time.Sub\<close> saturates (\<open>time_sub\<close>), as the Go
    library documents.
  \<^item> A pointer whose only use is to tell an absent value from a present one is an option.
\<close>

type_synonym time = int
type_synonym duration = int

named_theorems go_simps \<open>unfolding equations of the models of Go's library operations\<close>
named_theorems inv_simps \<open>unfolding equations of the well-formedness predicates\<close>

subsection \<open>64-bit signed integers\<close>

text \<open>Two's complement wrap-around of Go's \<open>int\<close> and \<open>int64\<close> on 64-bit platforms.\<close>

definition wrap64 :: "int \<Rightarrow> int" where
  "wrap64 n = (n + 2 ^ 63) mod 2 ^ 64 - 2 ^ 63"

definition int64_min :: int where "int64_min = - (2 ^ 63)"
definition int64_max :: int where "int64_max = 2 ^ 63 - 1"

definition in_int64 :: "int \<Rightarrow> bool" where
  "in_int64 n \<longleftrightarrow> - (2 ^ 63) \<le> n \<and> n < 2 ^ 63"

lemma wrap64_id: "in_int64 n \<Longrightarrow> wrap64 n = n"
  by (simp add: wrap64_def in_int64_def)

lemma wrap64_in_int64: "in_int64 (wrap64 n)"
proof -
  define m where "m = (n + 2 ^ 63) mod 2 ^ 64"
  have "0 \<le> m" and "m < 2 ^ 64" unfolding m_def by simp_all
  then have "in_int64 (m - 2 ^ 63)" by (simp add: in_int64_def)
  then show ?thesis by (simp add: wrap64_def m_def)
qed

text \<open>Go's integer division truncates towards zero.\<close>

definition go_div :: "int \<Rightarrow> int \<Rightarrow> int" where
  "go_div a b = sgn a * sgn b * (\<bar>a\<bar> div \<bar>b\<bar>)"

definition go_rem :: "int \<Rightarrow> int \<Rightarrow> int" where
  "go_rem a b = a - b * go_div a b"

lemma go_div_nonneg: "0 \<le> a \<Longrightarrow> 0 < b \<Longrightarrow> go_div a b = a div b"
  by (cases "a = 0") (simp_all add: go_div_def)

lemma go_rem_nonneg: "0 \<le> a \<Longrightarrow> 0 < b \<Longrightarrow> go_rem a b = a mod b"
  by (simp add: go_rem_def go_div_nonneg minus_mult_div_eq_mod)

subsection \<open>Slices\<close>

text \<open>
  A read of a Go slice: \<open>None\<close> is the run-time panic of an index out of range. A function
  of the program that may panic returns an option, and a theorem shows when it does not.
\<close>

definition slice_at :: "'a list \<Rightarrow> int \<Rightarrow> 'a option" where
  "slice_at xs i = (if 0 \<le> i \<and> i < int (length xs) then Some (xs ! nat i) else None)"

lemma slice_at_Some: "0 \<le> i \<Longrightarrow> i < int (length xs) \<Longrightarrow> slice_at xs i = Some (xs ! nat i)"
  by (simp add: slice_at_def)

lemma those_map_Some: "(\<And>x. x \<in> set xs \<Longrightarrow> f x = Some (g x)) \<Longrightarrow> those (map f xs) = Some (map g xs)"
  by (induction xs) auto

subsection \<open>Times and durations\<close>

definition ns_per_ms :: int where "ns_per_ms = 1000000"
definition ns_per_sec :: int where "ns_per_sec = 1000000000"

text \<open>\<open>t.Sub(u)\<close>: the difference, saturated to the range of a Duration.\<close>

definition time_sub :: "time \<Rightarrow> time \<Rightarrow> duration" where
  "time_sub t u = (if t - u < int64_min then int64_min
     else if t - u > int64_max then int64_max else t - u)"

text \<open>\<open>time.Duration(n) * time.Second\<close>: an int64 product, which wraps.\<close>

definition seconds :: "int \<Rightarrow> duration" where
  "seconds n = wrap64 (n * ns_per_sec)"

text \<open>\<open>d.Milliseconds()\<close>.\<close>

definition milliseconds :: "duration \<Rightarrow> int" where
  "milliseconds d = go_div d ns_per_ms"

definition is_zero_time :: "time \<Rightarrow> bool" where
  "is_zero_time t \<longleftrightarrow> t = 0"

lemma seconds_exact: "0 \<le> n \<Longrightarrow> n \<le> 9223372036 \<Longrightarrow> seconds n = n * ns_per_sec"
  unfolding seconds_def by (rule wrap64_id) (simp add: in_int64_def ns_per_sec_def)

lemma time_sub_exact: "in_int64 (t - u) \<Longrightarrow> time_sub t u = t - u"
  by (simp add: time_sub_def in_int64_def int64_min_def int64_max_def)

lemma time_sub_mono: "t \<le> t' \<Longrightarrow> time_sub t u \<le> time_sub t' u"
  by (simp add: time_sub_def int64_min_def int64_max_def)

subsection \<open>Lists: the last elements, and removal of the first match\<close>

text \<open>\<open>take_last n xs\<close> is the slice \<open>xs[len(xs)-n:]\<close>, all of \<open>xs\<close> if it is shorter.\<close>

definition take_last :: "nat \<Rightarrow> 'a list \<Rightarrow> 'a list" where
  "take_last n xs = drop (length xs - n) xs"

lemma length_take_last [simp]: "length (take_last n xs) = min n (length xs)"
  by (simp add: take_last_def)

lemma take_last_all [simp]: "length xs \<le> n \<Longrightarrow> take_last n xs = xs"
  by (simp add: take_last_def)

lemma take_last_0 [simp]: "take_last 0 xs = []"
  by (simp add: take_last_def)

lemma set_take_last: "set (take_last n xs) \<subseteq> set xs"
  by (simp add: take_last_def set_drop_subset)

lemma nth_take_last: "i < n \<Longrightarrow> n \<le> length xs \<Longrightarrow> take_last n xs ! i = xs ! (length xs - n + i)"
  by (simp add: take_last_def)

lemma take_last_snoc: "0 < n \<Longrightarrow> take_last n (xs @ [x]) = take_last (n - 1) xs @ [x]"
  by (cases n) (simp_all add: take_last_def)

lemma take_last_take_last: "take_last m (take_last n xs) = take_last (min m n) xs"
proof -
  have "length xs - (length xs - n) - m + (length xs - n) = length xs - min m n"
    by linarith
  then show ?thesis by (simp add: take_last_def)
qed

lemma take_last_append_take_last: "take_last n (take_last n xs @ ys) = take_last n (xs @ ys)"
proof (cases "length xs \<le> n")
  case False
  then have "length (drop (length xs - n) xs @ ys) - n = length ys"
    "length (xs @ ys) - n = length ys + (length xs - n)" by simp_all
  then show ?thesis using False by (simp add: take_last_def)
qed simp

lemma take_last_snoc_cases:
  "length xs \<le> n \<Longrightarrow> 0 < n \<Longrightarrow>
   take_last n (xs @ [x]) = (if length xs < n then xs else tl xs) @ [x]"
  by (cases "length xs = n") (simp_all add: take_last_def drop_Suc)

text \<open>Remove the first element that satisfies \<open>p\<close>, as a loop with \<open>break\<close> does.\<close>

fun remove_first :: "('a \<Rightarrow> bool) \<Rightarrow> 'a list \<Rightarrow> 'a list" where
  "remove_first p [] = []"
| "remove_first p (x # xs) = (if p x then xs else x # remove_first p xs)"

lemma remove_first_none: "\<not> (\<exists>x \<in> set xs. p x) \<Longrightarrow> remove_first p xs = xs"
  by (induction xs) auto

lemma length_remove_first:
  "(\<exists>x \<in> set xs. p x) \<Longrightarrow> length (remove_first p xs) = length xs - 1"
proof (induction xs)
  case (Cons x xs)
  show ?case
  proof (cases "p x")
    case False
    with Cons.prems have "xs \<noteq> []" and "\<exists>x \<in> set xs. p x" by auto
    with Cons.IH False show ?thesis by simp
  qed simp
qed simp

lemma filter_remove_first_other:
  "(\<And>x. q x \<Longrightarrow> \<not> p x) \<Longrightarrow> filter q (remove_first p xs) = filter q xs"
  by (induction xs) auto

lemma filter_remove_first_same:
  "filter p (remove_first p xs) = tl (filter p xs)"
  by (induction xs) auto

lemma subseq_remove_first: "subseq (remove_first p xs) xs"
  by (induction xs) auto

subsection \<open>Optional values\<close>

definition is_some :: "'a option \<Rightarrow> bool" where
  "is_some x \<longleftrightarrow> x \<noteq> None"

lemma is_some_simps [simp]: "is_some (Some x)" "\<not> is_some None"
  by (simp_all add: is_some_def)

subsection \<open>Maps with a default, as Go reads them\<close>

text \<open>
  A read of an absent key yields the zero value of the element type: the empty slice,
  \<open>false\<close>, the zero time.
\<close>

definition map_get :: "'v \<Rightarrow> ('k \<rightharpoonup> 'v) \<Rightarrow> 'k \<Rightarrow> 'v" where
  "map_get z m k = (case m k of None \<Rightarrow> z | Some v \<Rightarrow> v)"

lemma map_get_upd [simp]: "map_get z (m(k \<mapsto> v)) k' = (if k' = k then v else map_get z m k')"
  by (simp add: map_get_def)

lemma map_get_empty [simp]: "map_get z Map.empty k = z"
  by (simp add: map_get_def)

lemma map_get_delete [simp]: "map_get z (m(k := None)) k' = (if k' = k then z else map_get z m k')"
  by (simp add: map_get_def)

subsection \<open>Strings\<close>

text \<open>\<open>strings.HasPrefix\<close>, \<open>strings.Contains\<close>, \<open>strings.TrimPrefix\<close>, \<open>strings.TrimSuffix\<close>.\<close>

definition has_prefix :: "string \<Rightarrow> string \<Rightarrow> bool" where
  "has_prefix s p \<longleftrightarrow> take (length p) s = p"

definition has_suffix :: "string \<Rightarrow> string \<Rightarrow> bool" where
  "has_suffix s p \<longleftrightarrow> length p \<le> length s \<and> drop (length s - length p) s = p"

definition trim_prefix :: "string \<Rightarrow> string \<Rightarrow> string" where
  "trim_prefix s p = (if has_prefix s p then drop (length p) s else s)"

definition trim_suffix :: "string \<Rightarrow> string \<Rightarrow> string" where
  "trim_suffix s p = (if has_suffix s p then take (length s - length p) s else s)"

lemma has_prefix_append [simp]: "has_prefix (p @ s) p"
  by (simp add: has_prefix_def)

lemma has_prefix_iff: "has_prefix s p \<longleftrightarrow> (\<exists>t. s = p @ t)"
  by (metis append_take_drop_id has_prefix_append has_prefix_def)

text \<open>\<open>strings.Contains\<close> as the search for an offset at which the needle starts.\<close>

fun str_contains :: "string \<Rightarrow> string \<Rightarrow> bool" where
  "str_contains [] t = (t = [])"
| "str_contains (c # s) t = (has_prefix (c # s) t \<or> str_contains s t)"

lemma str_contains_iff: "str_contains s t \<longleftrightarrow> (\<exists>u v. s = u @ t @ v)"
proof (induction s)
  case Nil
  then show ?case by auto
next
  case (Cons c s)
  show ?case
  proof
    assume "str_contains (c # s) t"
    then consider "has_prefix (c # s) t" | "str_contains s t" by auto
    then show "\<exists>u v. c # s = u @ t @ v"
    proof cases
      case 1
      then obtain v where "c # s = [] @ t @ v" by (auto simp: has_prefix_iff)
      then show ?thesis by blast
    next
      case 2
      then obtain u v where "s = u @ t @ v" using Cons.IH by blast
      then have "c # s = (c # u) @ t @ v" by simp
      then show ?thesis by blast
    qed
  next
    assume "\<exists>u v. c # s = u @ t @ v"
    then obtain u v where uv: "c # s = u @ t @ v" by blast
    show "str_contains (c # s) t"
    proof (cases u)
      case Nil
      with uv have "has_prefix (c # s) t" unfolding has_prefix_iff by auto
      then show ?thesis by simp
    next
      case (Cons d u')
      with uv have "s = u' @ t @ v" by simp
      then have "str_contains s t" using Cons.IH by blast
      then show ?thesis by simp
    qed
  qed
qed

text \<open>ASCII lower case of a byte, and of a string.\<close>

definition lower_char :: "char \<Rightarrow> char" where
  "lower_char c = (let n = of_char c :: nat in
     if 65 \<le> n \<and> n \<le> 90 then char_of (n + 32) else c)"

end
