(* ===== verification/Float64.thy ===== *)
theory Float64
  imports Complex_Main Prelude "HOL-Library.Log_Nat"
begin

section \<open>IEEE 754 binary64 arithmetic, as Go's \<open>float64\<close> computes it\<close>

text \<open>
  Latencies, medians and percentiles are \<open>float64\<close> values in the program. A value here is
  a NaN, an infinity, or a finite number given by its exact rational value. An operation
  computes the exact rational result and rounds it to binary64: to nearest, ties to even,
  with 53 bits of precision, gradual underflow at 2 to the power -1074, and overflow to an
  infinity. The sign of zero and NaN payloads are left out: no operation of the modelled
  code tells them apart.

  The theory proves the facts about rounding the components use: rounding is monotone
  (\<open>round64_mono\<close>), it leaves representable numbers alone (\<open>round64_idem\<close>), and the
  integers up to 2 to the power 53 are representable (\<open>round64_of_int\<close>).
\<close>

datatype f64 = NaN | NInf | Fin rat | PInf

subsection \<open>Rounding\<close>

text \<open>\<open>ilog2 q\<close> is the exponent of the binade of a positive \<open>q\<close>.\<close>

definition ilog2 :: "rat \<Rightarrow> int" where
  "ilog2 q = (let (n, d) = quotient_of q; e = bitlen n - bitlen d
     in if 2 powi e \<le> q then e else e - 1)"

definition round_half_even :: "rat \<Rightarrow> int" where
  "round_half_even q = (let f = \<lfloor>q\<rfloor>; r = q - of_int f
     in if r < 1 / 2 then f else if r > 1 / 2 then f + 1 else if even f then f else f + 1)"

text \<open>The exponent of the last place of the binade of \<open>q\<close>, and \<open>q\<close> rounded to it.\<close>

definition ulp_exp :: "rat \<Rightarrow> int" where
  "ulp_exp q = max (ilog2 q - 52) (-1074)"

definition round_mag :: "rat \<Rightarrow> rat" where
  "round_mag q = of_int (round_half_even (q / 2 powi ulp_exp q)) * 2 powi ulp_exp q"

definition round64 :: "rat \<Rightarrow> f64" where
  "round64 q = (if q = 0 then Fin 0
     else if 0 < q then (if 2 ^ 1024 \<le> round_mag q then PInf else Fin (round_mag q))
     else (if 2 ^ 1024 \<le> round_mag (- q) then NInf else Fin (- round_mag (- q))))"

subsection \<open>Operations\<close>

fun fneg :: "f64 \<Rightarrow> f64" where
  "fneg NaN = NaN"
| "fneg NInf = PInf"
| "fneg PInf = NInf"
| "fneg (Fin q) = Fin (- q)"

fun fadd :: "f64 \<Rightarrow> f64 \<Rightarrow> f64" where
  "fadd (Fin p) (Fin q) = round64 (p + q)"
| "fadd NaN y = NaN"
| "fadd x NaN = NaN"
| "fadd PInf NInf = NaN"
| "fadd NInf PInf = NaN"
| "fadd PInf y = PInf"
| "fadd NInf y = NInf"
| "fadd x PInf = PInf"
| "fadd x NInf = NInf"

definition fsub :: "f64 \<Rightarrow> f64 \<Rightarrow> f64" where
  "fsub x y = fadd x (fneg y)"

text \<open>The sign of a non-NaN value, for the infinite results of products and quotients.\<close>

fun fsgn :: "f64 \<Rightarrow> int" where
  "fsgn NaN = 0"
| "fsgn NInf = -1"
| "fsgn PInf = 1"
| "fsgn (Fin q) = (if q < 0 then -1 else if q = 0 then 0 else 1)"

definition finf :: "int \<Rightarrow> f64" where
  "finf s = (if s < 0 then NInf else if s = 0 then NaN else PInf)"

fun fmul :: "f64 \<Rightarrow> f64 \<Rightarrow> f64" where
  "fmul (Fin p) (Fin q) = round64 (p * q)"
| "fmul NaN y = NaN"
| "fmul x NaN = NaN"
| "fmul x y = finf (fsgn x * fsgn y)"

text \<open>
  Division. A division by zero is infinite with the sign of the dividend: the program only
  divides by positive constants and counts, so the sign of a zero divisor does not arise.
\<close>

fun fdiv :: "f64 \<Rightarrow> f64 \<Rightarrow> f64" where
  "fdiv (Fin p) (Fin q) = (if q = 0 then finf (fsgn (Fin p)) else round64 (p / q))"
| "fdiv NaN y = NaN"
| "fdiv x NaN = NaN"
| "fdiv (Fin p) y = Fin 0"
| "fdiv x (Fin q) = finf (fsgn x * (if q < 0 then -1 else 1))"
| "fdiv x y = NaN"

text \<open>The comparisons \<open><=\<close>, \<open><\<close> and \<open>==\<close> of Go: false when an operand is NaN.\<close>

fun fle :: "f64 \<Rightarrow> f64 \<Rightarrow> bool" where
  "fle NaN y = False"
| "fle x NaN = False"
| "fle NInf y = True"
| "fle x PInf = True"
| "fle (Fin p) (Fin q) = (p \<le> q)"
| "fle x y = False"

definition flt :: "f64 \<Rightarrow> f64 \<Rightarrow> bool" where
  "flt x y \<longleftrightarrow> x \<noteq> NaN \<and> y \<noteq> NaN \<and> \<not> fle y x"

abbreviation fge :: "f64 \<Rightarrow> f64 \<Rightarrow> bool" where "fge x y \<equiv> fle y x"
abbreviation fgt :: "f64 \<Rightarrow> f64 \<Rightarrow> bool" where "fgt x y \<equiv> flt y x"

definition is_nan :: "f64 \<Rightarrow> bool" where "is_nan x \<longleftrightarrow> x = NaN"
definition is_inf :: "f64 \<Rightarrow> bool" where "is_inf x \<longleftrightarrow> x = PInf \<or> x = NInf"

text \<open>\<open>float64(n)\<close> of an integer, and the truncating conversion \<open>int(x)\<close>.\<close>

definition f_of_int :: "int \<Rightarrow> f64" where
  "f_of_int n = round64 (of_int n)"

fun int_of_f :: "f64 \<Rightarrow> int" where
  "int_of_f (Fin q) = (let n = (if 0 \<le> q then \<lfloor>q\<rfloor> else \<lceil>q\<rceil>)
     in if in_int64 n then n else int64_min)"
| "int_of_f x = int64_min"

declare int_of_f.simps [simp del]

subsection \<open>The order of \<open>sort.Float64s\<close>\<close>

text \<open>
  \<open>sort.Float64s\<close> orders NaN before every other value. That order is total, so \<open>f64\<close>
  becomes a \<open>linorder\<close> with it and the library's \<open>sort\<close> is the sorted slice: values that
  compare equal are equal, so any sorting algorithm gives the same result.
\<close>

fun f64_rank :: "f64 \<Rightarrow> int" where
  "f64_rank NaN = 0"
| "f64_rank NInf = 1"
| "f64_rank (Fin q) = 2"
| "f64_rank PInf = 3"

fun f64_val :: "f64 \<Rightarrow> rat" where
  "f64_val (Fin q) = q"
| "f64_val x = 0"

instantiation f64 :: linorder
begin

definition less_eq_f64 :: "f64 \<Rightarrow> f64 \<Rightarrow> bool" where
  "less_eq_f64 x y \<longleftrightarrow> f64_rank x < f64_rank y \<or> (f64_rank x = f64_rank y \<and> f64_val x \<le> f64_val y)"

definition less_f64 :: "f64 \<Rightarrow> f64 \<Rightarrow> bool" where
  "less_f64 x y \<longleftrightarrow> x \<le> y \<and> \<not> y \<le> (x :: f64)"

instance
proof
  fix x y z :: f64
  show "x < y \<longleftrightarrow> x \<le> y \<and> \<not> y \<le> x" by (simp add: less_f64_def)
  show "x \<le> x" by (simp add: less_eq_f64_def)
  show "x \<le> y \<Longrightarrow> y \<le> z \<Longrightarrow> x \<le> z" by (auto simp: less_eq_f64_def)
  show "x \<le> y \<Longrightarrow> y \<le> x \<Longrightarrow> x = y"
    by (cases x; cases y) (auto simp: less_eq_f64_def)
  show "x \<le> y \<or> y \<le> x" by (auto simp: less_eq_f64_def)
qed

end

lemma fle_iff: "fle x y \<longleftrightarrow> x \<noteq> NaN \<and> y \<noteq> NaN \<and> x \<le> y"
  by (cases x; cases y) (auto simp: less_eq_f64_def)

lemma flt_iff: "flt x y \<longleftrightarrow> x \<noteq> NaN \<and> y \<noteq> NaN \<and> x < y"
  by (auto simp: flt_def fle_iff)

lemma Fin_le_iff [simp]: "Fin p \<le> Fin q \<longleftrightarrow> p \<le> q"
  by (simp add: less_eq_f64_def)

lemma Fin_less_iff [simp]: "Fin p < Fin q \<longleftrightarrow> p < q"
  by (auto simp: less_f64_def not_le)

lemma f64_bounds [simp]: "Fin p \<le> PInf" "NInf \<le> Fin p" "NaN \<le> x" "x \<le> PInf" "\<not> PInf \<le> Fin p"
  "\<not> Fin p \<le> NInf" "\<not> Fin p \<le> NaN" "NInf \<le> PInf" "\<not> PInf \<le> NInf"
  by (cases x; simp add: less_eq_f64_def)+

subsection \<open>Rounding to an integer\<close>

lemma round_half_even_of_int [simp]: "round_half_even (of_int n) = n"
  by (simp add: round_half_even_def)

lemma round_half_even_bounds:
  "\<lfloor>q\<rfloor> \<le> round_half_even q" "round_half_even q \<le> \<lfloor>q\<rfloor> + 1"
  by (auto simp: round_half_even_def Let_def)

lemma round_half_even_mono:
  assumes "p \<le> q" shows "round_half_even p \<le> round_half_even q"
proof (cases "\<lfloor>p\<rfloor> = \<lfloor>q\<rfloor>")
  case True
  with assms show ?thesis by (auto simp: round_half_even_def Let_def)
next
  case False
  with assms have "\<lfloor>p\<rfloor> + 1 \<le> \<lfloor>q\<rfloor>" using floor_mono[OF assms] by linarith
  then show ?thesis using round_half_even_bounds[of p] round_half_even_bounds[of q] by linarith
qed

lemma round_half_even_int_le: "of_int n \<le> q \<Longrightarrow> n \<le> round_half_even q"
  using round_half_even_mono[of "of_int n" q] by simp

lemma round_half_even_le_int: "q \<le> of_int n \<Longrightarrow> round_half_even q \<le> n"
  using round_half_even_mono[of q "of_int n"] by simp


subsection \<open>The binade of a number\<close>

lemma powi_pos [simp]: "0 < (2 :: rat) powi e"
  by simp

lemma powi_mono: "a \<le> b \<Longrightarrow> (2 :: rat) powi a \<le> 2 powi b"
  by (rule power_int_increasing) simp_all

lemma powi_strict: "a < b \<Longrightarrow> (2 :: rat) powi a < 2 powi b"
  by (rule power_int_strict_increasing) simp_all

lemma bitlen_bounds_rat:
  assumes "0 < n"
  shows "(2 :: rat) powi (bitlen n - 1) \<le> of_int n" "of_int n < (2 :: rat) powi bitlen n"
proof -
  have "1 \<le> bitlen n" using bitlen_ge_iff_power[of 1 n] assms by simp
  then have e: "(2 :: rat) powi (bitlen n - 1) = of_int (2 ^ nat (bitlen n - 1))"
    and e': "(2 :: rat) powi bitlen n = of_int (2 ^ nat (bitlen n))"
    by (simp_all add: power_int_def)
  show "(2 :: rat) powi (bitlen n - 1) \<le> of_int n"
    unfolding e of_int_le_iff using bitlen_bounds[OF assms] by blast
  show "of_int n < (2 :: rat) powi bitlen n"
    unfolding e' of_int_less_iff using bitlen_bounds[OF assms] by blast
qed

lemma ilog2_bounds:
  assumes "0 < q"
  shows "2 powi ilog2 q \<le> q" "q < 2 powi (ilog2 q + 1)"
proof -
  obtain n d where nd: "quotient_of q = (n, d)" by (cases "quotient_of q") auto
  have d: "0 < d" and q: "q = of_int n / of_int d"
    using quotient_of_denom_pos[OF nd] quotient_of_div[OF nd] by simp_all
  with assms have n: "0 < n" by (simp add: zero_less_divide_iff)
  define e where "e = bitlen n - bitlen d"
  have d0: "(0 :: rat) < of_int d" using d by simp
  have lo: "2 powi (e - 1) \<le> q"
  proof -
    have "2 powi (e - 1) * (of_int d :: rat) \<le> 2 powi (e - 1) * 2 powi bitlen d"
      using bitlen_bounds_rat(2)[OF d] by simp
    also have "\<dots> = 2 powi (bitlen n - 1)"
      by (simp add: e_def flip: power_int_add)
    also have "\<dots> \<le> of_int n" by (rule bitlen_bounds_rat(1)[OF n])
    finally show ?thesis using d0 by (simp add: q pos_le_divide_eq)
  qed
  have hi: "q < 2 powi (e + 1)"
  proof -
    have "(of_int n :: rat) < 2 powi bitlen n" by (rule bitlen_bounds_rat(2)[OF n])
    also have "\<dots> = 2 powi (e + 1) * 2 powi (bitlen d - 1)"
      by (simp add: e_def flip: power_int_add)
    also have "\<dots> \<le> 2 powi (e + 1) * of_int d"
      using bitlen_bounds_rat(1)[OF d] by simp
    finally show ?thesis using d0 by (simp add: q pos_divide_less_eq)
  qed
  have "ilog2 q = (if 2 powi e \<le> q then e else e - 1)"
    by (simp add: ilog2_def nd e_def Let_def)
  then show "2 powi ilog2 q \<le> q" "q < 2 powi (ilog2 q + 1)"
    using lo hi by (auto split: if_splits)
qed

lemma ilog2_mono:
  assumes "0 < p" "p \<le> q" shows "ilog2 p \<le> ilog2 q"
proof (rule ccontr)
  assume "\<not> ilog2 p \<le> ilog2 q"
  then have "2 powi (ilog2 q + 1) \<le> (2 :: rat) powi ilog2 p" by (intro powi_mono) simp
  with ilog2_bounds[of p] ilog2_bounds[of q] assms show False by simp
qed

lemma ulp_exp_mono: "0 < p \<Longrightarrow> p \<le> q \<Longrightarrow> ulp_exp p \<le> ulp_exp q"
  using ilog2_mono[of p q] by (simp add: ulp_exp_def)

lemma ulp_exp_ge: "-1074 \<le> ulp_exp q" "ilog2 q - 52 \<le> ulp_exp q"
  by (simp_all add: ulp_exp_def)

subsection \<open>Rounding of magnitudes\<close>

lemma round_mag_nonneg: "0 \<le> q \<Longrightarrow> 0 \<le> round_mag q"
  using round_half_even_int_le[of 0 "q / 2 powi ulp_exp q"] by (simp add: round_mag_def)

lemma round_mag_le_grid:
  assumes "q \<le> of_int n * 2 powi e" "ulp_exp q = e"
  shows "round_mag q \<le> of_int n * 2 powi e"
proof -
  have "q / 2 powi e \<le> of_int n" using assms(1) by (simp add: pos_divide_le_eq)
  then have "round_half_even (q / 2 powi e) \<le> n" by (rule round_half_even_le_int)
  then show ?thesis by (simp add: round_mag_def assms(2))
qed

lemma round_mag_ge_grid:
  assumes "of_int n * 2 powi e \<le> q" "ulp_exp q = e"
  shows "of_int n * 2 powi e \<le> round_mag q"
proof -
  have "of_int n \<le> q / 2 powi e" using assms(1) by (simp add: pos_le_divide_eq)
  then have "n \<le> round_half_even (q / 2 powi e)" by (rule round_half_even_int_le)
  then show ?thesis by (simp add: round_mag_def assms(2))
qed

lemma round_mag_mono:
  assumes "0 < p" "p \<le> q" shows "round_mag p \<le> round_mag q"
proof (cases "ulp_exp p = ulp_exp q")
  case True
  have "p / 2 powi ulp_exp q \<le> q / 2 powi ulp_exp q" using assms by (simp add: divide_right_mono)
  then show ?thesis using True round_half_even_mono by (simp add: round_mag_def)
next
  case False
  define e where "e = ulp_exp q"
  from False ulp_exp_mono[OF assms] have lt: "ulp_exp p < e" by (simp add: e_def)
  with ulp_exp_ge(1)[of p] have e: "e = ilog2 q - 52" by (auto simp: e_def ulp_exp_def)
  have pe: "ilog2 p + 1 \<le> ulp_exp p + 53" using ulp_exp_ge(2)[of p] by simp
  have "p \<le> 2 powi (ilog2 p + 1)" using ilog2_bounds(2)[of p] assms by simp
  also have "\<dots> \<le> 2 powi (ulp_exp p + 53)" using pe by (rule powi_mono)
  also have "\<dots> = of_int (2 ^ 53) * 2 powi ulp_exp p"
    by (simp add: power_int_add)
  finally have "round_mag p \<le> of_int (2 ^ 53) * 2 powi ulp_exp p"
    by (rule round_mag_le_grid) simp
  also have "\<dots> = 2 powi (ulp_exp p + 53)" by (simp add: power_int_add)
  also have "\<dots> \<le> 2 powi (e + 52)" using lt by (intro powi_mono) simp
  also have "\<dots> = of_int (2 ^ 52) * 2 powi e" by (simp add: power_int_add)
  also have "\<dots> \<le> round_mag q"
  proof (rule round_mag_ge_grid)
    have "of_int (2 ^ 52) * 2 powi e = (2 :: rat) powi ilog2 q"
      by (simp add: e power_int_diff)
    then show "of_int (2 ^ 52) * 2 powi e \<le> q"
      using ilog2_bounds(1)[of q] assms by simp
  qed (simp add: e_def)
  finally show ?thesis .
qed

text \<open>Numbers on the grid of binary64 are their own rounding.\<close>

lemma round_mag_fix:
  assumes "v = of_int k * 2 powi ulp_exp v" shows "round_mag v = v"
proof -
  define u where "u = (2 :: rat) powi ulp_exp v"
  have u: "u \<noteq> 0" by (simp add: u_def)
  have v: "v = of_int k * u" unfolding u_def by (rule assms)
  from u have "of_int k * u / u = of_int k" by simp
  then have "round_half_even (v / u) = k" unfolding v by (simp only: round_half_even_of_int)
  moreover have "round_mag v = of_int (round_half_even (v / u)) * u"
    by (simp only: round_mag_def u_def)
  ultimately show ?thesis using v by (simp only:)
qed

lemma round_mag_grid:
  assumes m: "0 < m" "m \<le> 2 ^ 53" and e: "-1074 \<le> e"
  shows "round_mag (of_int m * 2 powi e) = of_int m * 2 powi e"
proof -
  let ?v = "of_int m * 2 powi e :: rat"
  have v: "0 < ?v" using m by simp
  show ?thesis
  proof (cases "ulp_exp ?v \<le> e")
    case True
    define k where "k = m * 2 ^ nat (e - ulp_exp ?v)"
    have "?v = of_int m * 2 powi (e - ulp_exp ?v) * 2 powi ulp_exp ?v"
      by (simp flip: power_int_add)
    also have "(2 :: rat) powi (e - ulp_exp ?v) = of_int (2 ^ nat (e - ulp_exp ?v))"
      using True by (simp add: power_int_def)
    finally have k: "?v = of_int k * 2 powi ulp_exp ?v" by (simp add: k_def)
    then show ?thesis by (rule round_mag_fix)
  next
    case False
    then have lt: "e + 53 \<le> ilog2 ?v" using e by (auto simp: ulp_exp_def)
    have "of_int (2 ^ 53) * 2 powi e = (2 :: rat) powi (e + 53)" by (simp add: power_int_add)
    also have "\<dots> \<le> 2 powi ilog2 ?v" using lt by (rule powi_mono)
    also have "\<dots> \<le> ?v" by (rule ilog2_bounds(1)[OF v])
    finally have "(2 :: int) ^ 53 \<le> m" by simp
    with m have m': "m = 2 ^ 53" by simp
    then have v': "?v = 2 powi (e + 53)" by (simp add: power_int_add)
    have "ilog2 ?v < e + 54"
    proof (rule ccontr)
      assume "\<not> ilog2 ?v < e + 54"
      then have "2 powi (e + 53) < (2 :: rat) powi ilog2 ?v" by (intro powi_strict) simp
      with ilog2_bounds(1)[OF v] v' show False by simp
    qed
    with lt have "ulp_exp ?v = e + 1" using e by (simp add: ulp_exp_def)
    then have "?v = of_int (2 ^ 52) * 2 powi ulp_exp ?v" by (simp add: v' power_int_add)
    then show ?thesis by (rule round_mag_fix)
  qed
qed

lemma round_mag_on_grid:
  assumes "0 < q"
  obtains m e where "round_mag q = of_int m * 2 powi e" "0 \<le> m" "m \<le> 2 ^ 53" "-1074 \<le> e"
proof
  show "round_mag q = of_int (round_half_even (q / 2 powi ulp_exp q)) * 2 powi ulp_exp q"
    by (simp add: round_mag_def)
  show "0 \<le> round_half_even (q / 2 powi ulp_exp q)"
    using assms by (intro round_half_even_int_le) simp
  have "q \<le> 2 powi (ilog2 q + 1)" using ilog2_bounds(2)[OF assms] by simp
  also have "\<dots> \<le> 2 powi (53 + ulp_exp q)" using ulp_exp_ge(2)[of q] by (intro powi_mono) simp
  also have "\<dots> = of_int (2 ^ 53) * 2 powi ulp_exp q" by (simp add: power_int_add)
  finally show "round_half_even (q / 2 powi ulp_exp q) \<le> 2 ^ 53"
    by (intro round_half_even_le_int) (simp add: pos_divide_le_eq)
  show "-1074 \<le> ulp_exp q" by (rule ulp_exp_ge)
qed

subsection \<open>Rounding of signed numbers\<close>

lemma round64_0 [simp]: "round64 0 = Fin 0"
  by (simp add: round64_def)

lemma round64_neg: "round64 (- q) = fneg (round64 q)"
  by (auto simp: round64_def)

lemma round64_not_NaN [simp]: "round64 q \<noteq> NaN"
  by (simp add: round64_def)

lemma round64_mono:
  assumes "p \<le> q" shows "round64 p \<le> round64 q"
proof -
  consider "0 < p" | "p \<le> 0" "0 \<le> q" | "q < 0" by linarith
  then show ?thesis
  proof cases
    case 1
    then show ?thesis using round_mag_mono[OF 1 assms] assms by (auto simp: round64_def)
  next
    case 2
    then show ?thesis
      using round_mag_nonneg[of q] round_mag_nonneg[of "- p"] by (auto simp: round64_def)
  next
    case 3
    then have "0 < - q" "- q \<le> - p" using assms by simp_all
    from round_mag_mono[OF this] 3 assms show ?thesis by (auto simp: round64_def)
  qed
qed

definition representable :: "rat \<Rightarrow> bool" where
  "representable q \<longleftrightarrow> round64 q = Fin q"

lemma representable_0 [simp]: "representable 0"
  by (simp add: representable_def)

lemma representable_neg: "representable q \<Longrightarrow> representable (- q)"
  by (simp add: representable_def round64_neg)

lemma round64_idem:
  assumes "round64 q = Fin v" shows "representable v"
proof -
  have pos: "representable v" if "round64 q = Fin v" "0 < q" for q v
  proof -
    from that have v: "v = round_mag q" "round_mag q < 2 ^ 1024"
      by (auto simp: round64_def split: if_splits)
    obtain m e where g: "v = of_int m * 2 powi e" "0 \<le> m" "m \<le> 2 ^ 53" "-1074 \<le> e"
      using round_mag_on_grid[OF \<open>0 < q\<close>] v by metis
    show ?thesis
    proof (cases "m = 0")
      case True
      with g show ?thesis by simp
    next
      case False
      with g have "round_mag v = v" "0 < v" using round_mag_grid[of m e] by simp_all
      with v show ?thesis by (simp add: representable_def round64_def)
    qed
  qed
  show ?thesis
  proof (cases "q < 0")
    case True
    have "round64 (- q) = Fin (- v)" using assms by (simp add: round64_neg)
    from pos[OF this] True show ?thesis using representable_neg[of "- v"] by simp
  next
    case False
    then show ?thesis using assms pos by (cases "q = 0") auto
  qed
qed

lemma round64_of_int:
  assumes "\<bar>n\<bar> \<le> 2 ^ 53" shows "round64 (of_int n) = Fin (of_int n)"
proof -
  have pos: "round64 (of_int n) = Fin (of_int n)" if "0 < n" "n \<le> 2 ^ 53" for n :: int
  proof -
    have "round_mag (of_int n * 2 powi 0) = of_int n * 2 powi 0"
      by (rule round_mag_grid) (use that in simp_all)
    moreover have "(of_int n :: rat) < 2 ^ 1024"
    proof -
      have "(of_int n :: rat) \<le> of_int (2 ^ 53)" using that by (subst of_int_le_iff)
      then show ?thesis by simp
    qed
    ultimately show ?thesis using that by (simp add: round64_def)
  qed
  show ?thesis
  proof (cases "n < 0")
    case True
    with assms pos[of "- n"] have "round64 (- of_int n) = Fin (- of_int n)" by simp
    then show ?thesis using round64_neg[of "of_int n"] by (cases "round64 (of_int n)") auto
  next
    case False
    with assms pos[of n] show ?thesis by (cases "n = 0") simp_all
  qed
qed

subsection \<open>Evaluating roundings\<close>

text \<open>
  Closed instances evaluate through these facts: integers and dyadic fractions are
  representable, and \<open>ilog2_eqI\<close> finds the binade of any other number.
\<close>

lemma round64_numeral:
  "(numeral n :: int) \<le> 2 ^ 53 \<Longrightarrow> round64 (numeral n) = Fin (numeral n)"
  using round64_of_int[of "numeral n"] by simp

lemma round64_1 [simp]: "round64 1 = Fin 1"
  using round64_of_int[of 1] by simp

lemma representable_of_int: "\<bar>n\<bar> \<le> 2 ^ 53 \<Longrightarrow> representable (of_int n)"
  by (simp add: representable_def round64_of_int)

lemma f_of_int_exact: "\<bar>n\<bar> \<le> 2 ^ 53 \<Longrightarrow> f_of_int n = Fin (of_int n)"
  by (simp add: f_of_int_def round64_of_int)

lemma ilog2_eqI:
  assumes "2 powi e \<le> q" "q < 2 powi (e + 1)" shows "ilog2 q = e"
proof -
  have q: "0 < q" using assms(1) powi_pos[of e] by linarith
  have "ilog2 q < e + 1"
  proof (rule ccontr)
    assume "\<not> ilog2 q < e + 1"
    then have "2 powi (e + 1) \<le> (2 :: rat) powi ilog2 q" by (intro powi_mono) simp
    with ilog2_bounds(1)[OF q] assms(2) show False by simp
  qed
  moreover have "e < ilog2 q + 1"
  proof (rule ccontr)
    assume "\<not> e < ilog2 q + 1"
    then have "2 powi (ilog2 q + 1) \<le> (2 :: rat) powi e" by (intro powi_mono) simp
    with ilog2_bounds(2)[OF q] assms(1) show False by simp
  qed
  ultimately show ?thesis by simp
qed

text \<open>The numbers on the binary64 grid below the overflow threshold are representable.\<close>

lemma representable_grid:
  assumes "0 \<le> m" "m \<le> 2 ^ 53" "-1074 \<le> e" "of_int m * 2 powi e < (2 :: rat) ^ 1024"
  shows "representable (of_int m * 2 powi e)"
proof (cases "m = 0")
  case False
  with assms have "round_mag (of_int m * 2 powi e) = of_int m * 2 powi e"
    by (intro round_mag_grid) simp_all
  moreover have "0 < (of_int m * 2 powi e :: rat)" using assms False by simp
  ultimately show ?thesis using assms by (simp add: representable_def round64_def)
qed simp

lemma representable_gridE:
  assumes "representable q" "0 \<le> q"
  obtains m e where "q = of_int m * 2 powi e" "0 \<le> m" "m \<le> 2 ^ 53" "-1074 \<le> e" "q < 2 ^ 1024"
proof (cases "q = 0")
  case True
  then show ?thesis using that[of 0 0] by simp
next
  case False
  with assms have q: "0 < q" by simp
  with assms have "round_mag q = q" "q < 2 ^ 1024"
    by (auto simp: representable_def round64_def split: if_splits)
  with round_mag_on_grid[OF q] show ?thesis using that by metis
qed

lemma representable_double:
  assumes "representable q" "0 \<le> q" "2 * q < 2 ^ 1024" shows "representable (2 * q)"
proof -
  obtain m e where g: "q = of_int m * 2 powi e" "0 \<le> m" "m \<le> 2 ^ 53" "-1074 \<le> e"
    using assms(1,2) by (rule representable_gridE)
  have eq: "2 * q = of_int m * 2 powi (e + 1)" by (simp add: g power_int_add)
  from assms(3) have "of_int m * 2 powi (e + 1) < (2 :: rat) ^ 1024" unfolding eq .
  then show ?thesis unfolding eq using g by (intro representable_grid) simp_all
qed

lemma round64_ge: "representable p \<Longrightarrow> p \<le> q \<Longrightarrow> Fin p \<le> round64 q"
  using round64_mono[of p q] by (simp add: representable_def)

lemma round64_le: "representable p \<Longrightarrow> q \<le> p \<Longrightarrow> round64 q \<le> Fin p"
  using round64_mono[of q p] by (simp add: representable_def)

lemma round64_nonneg: "0 \<le> q \<Longrightarrow> Fin 0 \<le> round64 q"
  by (rule round64_ge) simp_all

text \<open>
  The mean of two representable numbers as the code computes it, \<open>(a + b) / 2\<close> with two
  roundings, lies between them, unless the sum overflows.
\<close>

lemma fhalf_sum_between:
  assumes rep: "representable a" "representable b" and le: "0 \<le> a" "a \<le> b"
    and fin: "fdiv (fadd (Fin a) (Fin b)) (Fin 2) = Fin r"
  shows "a \<le> r" "r \<le> b"
proof -
  obtain v where v: "round64 (a + b) = Fin v"
    using fin by (cases "round64 (a + b)") (auto simp: finf_def split: if_splits)
  with fin have r: "round64 (v / 2) = Fin r" by simp
  have v0: "v < 2 ^ 1024" "0 \<le> v"
    using v round64_nonneg[of "a + b"] le by (auto simp: round64_def split: if_splits)
  have "2 * a \<le> v"
  proof (rule ccontr)
    assume "\<not> 2 * a \<le> v"
    moreover have "2 * a < 2 ^ 1024 \<Longrightarrow> Fin (2 * a) \<le> Fin v"
      using round64_ge[of "2 * a" "a + b"] representable_double[OF rep(1) le(1)] le v by simp
    ultimately have big: "2 ^ 1024 \<le> 2 * a" using v0 by force
    obtain m e where g: "a = of_int m * 2 powi e" "0 \<le> m" "m \<le> 2 ^ 53" "-1074 \<le> e"
      using rep(1) le(1) by (rule representable_gridE)
    have eq: "2 * a = of_int m * 2 powi (e + 1)" by (simp add: g power_int_add)
    have "0 < m" using big g by (cases "m = 0") auto
    then have "round_mag (2 * a) = 2 * a"
      unfolding eq using g by (intro round_mag_grid) simp_all
    with big have "round64 (2 * a) = PInf" by (auto simp: round64_def)
    moreover have "round64 (2 * a) \<le> round64 (a + b)" using le by (intro round64_mono) simp
    ultimately show False using v by simp
  qed
  then have "Fin a \<le> round64 (v / 2)" using rep(1) by (intro round64_ge) simp_all
  with r show "a \<le> r" by simp
  have "v \<le> 2 * b"
  proof (cases "2 * b < 2 ^ 1024")
    case True
    then have "representable (2 * b)" using rep(2) le by (intro representable_double) simp_all
    from round64_le[OF this, of "a + b"] le v show ?thesis by simp
  qed (use v0 in simp)
  then have "round64 (v / 2) \<le> Fin b" using rep(2) by (intro round64_le) simp_all
  with r show "r \<le> b" by simp
qed

text \<open>The sum does not overflow when both numbers are at most half the largest magnitude.\<close>

lemma fhalf_sum_finite:
  assumes "0 \<le> a" "a \<le> 2 ^ 1022" "0 \<le> b" "b \<le> 2 ^ 1022"
  shows "\<exists>r. fdiv (fadd (Fin a) (Fin b)) (Fin 2) = Fin r \<and> 0 \<le> r"
proof -
  have rep: "representable (2 ^ 1023)"
  proof -
    have "(2 :: rat) ^ 1023 = of_int 1 * 2 powi 1023" by (simp add: power_int_def)
    then show ?thesis using representable_grid[of 1 1023] by simp
  qed
  have fin: "\<exists>v. round64 q = Fin v \<and> v \<le> 2 ^ 1023" if "0 \<le> q" "q \<le> 2 ^ 1023" for q
    using round64_le[OF rep that(2)] round64_nonneg[OF that(1)]
    by (cases "round64 q") simp_all
  have "a + b \<le> 2 ^ 1022 + 2 ^ 1022" using assms by (intro add_mono)
  also have "\<dots> = (2 :: rat) ^ 1023" by simp
  finally obtain v where v: "round64 (a + b) = Fin v" "v \<le> 2 ^ 1023"
    using fin[of "a + b"] assms by auto
  moreover have "0 \<le> v" using round64_nonneg[of "a + b"] v assms by simp
  ultimately obtain r where "round64 (v / 2) = Fin r" "0 \<le> r"
    using fin[of "v / 2"] round64_nonneg[of "v / 2"] by auto
  with v show ?thesis by simp
qed

subsection \<open>Durations in seconds\<close>

text \<open>\<open>d.Seconds()\<close>: the whole seconds plus the rest, each converted on its own.\<close>

definition go_seconds :: "duration \<Rightarrow> f64" where
  "go_seconds d = fadd (f_of_int (go_div d ns_per_sec)) (fdiv (f_of_int (go_rem d ns_per_sec)) (f_of_int ns_per_sec))"

end
