(* ===== verification/Latency_Domain.thy ===== *)
theory Latency_Domain
  imports Float64 "HOL-Library.Multiset"
begin

section \<open>The pure latency domain\<close>

text \<open>
  Models \<open>uvb76/internal/uvb76/domain\<close>: validated latencies and samples (\<open>latency.go\<close>),
  the analysis window with its median and percentiles (\<open>sample_window.go\<close>), the spike
  decision (\<open>spike.go\<close>), the capture decision (\<open>capture_decision.go\<close>) and the capture
  status vocabulary (\<open>capture_status.go\<close>). A Go pair \<open>(v, ok)\<close> is an option, with
  \<open>None\<close> for \<open>ok = false\<close>; where the code goes on to use the zero value of a failed
  pair, so does the model.
\<close>

subsection \<open>Latencies and samples\<close>

definition ProbeKindHTTP :: string where [simp]: "ProbeKindHTTP = ''http''"
definition ProbeKindICMP :: string where [simp]: "ProbeKindICMP = ''icmp''"

record latency_millis =
  lm_v :: f64

definition zero_latency :: latency_millis where
  "zero_latency = \<lparr>lm_v = Fin 0\<rparr>"

definition NewLatencyMillis :: "f64 \<Rightarrow> latency_millis option" where
  "NewLatencyMillis v = (if is_nan v \<or> is_inf v \<or> flt v (Fin 0) then None
     else Some \<lparr>lm_v = v\<rparr>)"

record sample =
  s_at :: time
  s_kind :: string
  s_latency :: latency_millis
  s_ok :: bool
  s_err :: string

definition SampleFromState :: "time \<Rightarrow> f64 \<Rightarrow> bool \<Rightarrow> string \<Rightarrow> sample option" where
  "SampleFromState ts latencyMs reachable probeKind =
     (if reachable then
        (case NewLatencyMillis latencyMs of
           None \<Rightarrow> None
         | Some lat \<Rightarrow> Some \<lparr>s_at = ts, s_kind = probeKind, s_latency = lat, s_ok = reachable, s_err = []\<rparr>)
      else Some \<lparr>s_at = ts, s_kind = probeKind, s_latency = zero_latency, s_ok = reachable, s_err = []\<rparr>)"

text \<open>What the type promises: a latency is finite and not negative.\<close>

definition valid_latency :: "latency_millis \<Rightarrow> bool" where
  "valid_latency l \<longleftrightarrow> (\<exists>q. lm_v l = Fin q \<and> 0 \<le> q)"

lemma NewLatencyMillis_Some:
  "NewLatencyMillis v = Some l \<longleftrightarrow> lm_v l = v \<and> (\<exists>q. v = Fin q \<and> 0 \<le> q)"
  by (cases v; cases l) (auto simp: NewLatencyMillis_def is_nan_def is_inf_def flt_iff)

lemma NewLatencyMillis_Fin [simp]: "0 \<le> q \<Longrightarrow> NewLatencyMillis (Fin q) = Some \<lparr>lm_v = Fin q\<rparr>"
  by (simp add: NewLatencyMillis_Some)

lemma NewLatencyMillis_valid: "NewLatencyMillis v = Some l \<Longrightarrow> valid_latency l"
  by (auto simp: NewLatencyMillis_Some valid_latency_def)

lemma valid_zero_latency [simp]: "valid_latency zero_latency"
  by (simp add: valid_latency_def zero_latency_def)

subsection \<open>The sample window\<close>

record sample_window =
  w_samples :: "sample list"

definition empty_window :: sample_window where
  "empty_window = \<lparr>w_samples = []\<rparr>"

definition NewSampleWindow :: "sample list \<Rightarrow> sample_window" where
  "NewSampleWindow ss = \<lparr>w_samples = filter s_ok ss\<rparr>"

definition Len :: "sample_window \<Rightarrow> nat" where
  "Len w = length (w_samples w)"

definition Samples :: "sample_window \<Rightarrow> sample list" where
  "Samples w = (if length (w_samples w) = 0 then [] else w_samples w)"

definition latencies :: "sample_window \<Rightarrow> f64 list" where
  "latencies w = map (\<lambda>s. lm_v (s_latency s)) (w_samples w)"

definition Median :: "sample_window \<Rightarrow> latency_millis option" where
  "Median w =
     (if length (w_samples w) = 0 then None
      else let values = sort (latencies w); mid = length values div 2
        in if length values mod 2 = 1 then NewLatencyMillis (values ! mid)
           else NewLatencyMillis (fdiv (fadd (values ! (mid - 1)) (values ! mid)) (Fin 2)))"

text \<open>
  Linear interpolation at rank \<open>p/100*(n-1) + 1\<close>. The slice reads are guarded by the
  comparisons with 0 and \<open>n\<close>, so no index is out of range.
\<close>

definition percentile_rank :: "f64 \<Rightarrow> nat \<Rightarrow> f64" where
  "percentile_rank p n = fadd (fmul (fdiv p (Fin 100)) (f_of_int (int n - 1))) (Fin 1)"

definition interpolate :: "f64 \<Rightarrow> f64 list \<Rightarrow> f64" where
  "interpolate p values =
     (let n = length values; rank = percentile_rank p n; k = int_of_f rank;
          d = fsub rank (f_of_int k)
      in if k \<le> 0 then values ! 0
         else if int n \<le> k then values ! (n - 1)
         else fadd (values ! nat (k - 1))
                (fmul d (fsub (values ! nat k) (values ! nat (k - 1)))))"

definition percentile :: "sample_window \<Rightarrow> f64 \<Rightarrow> latency_millis option" where
  "percentile w p =
     (if length (w_samples w) = 0 then None
      else NewLatencyMillis (interpolate p (sort (latencies w))))"

definition P50 :: "sample_window \<Rightarrow> latency_millis option" where "P50 w = Median w"
definition P90 :: "sample_window \<Rightarrow> latency_millis option" where "P90 w = percentile w (Fin 90)"
definition P95 :: "sample_window \<Rightarrow> latency_millis option" where "P95 w = percentile w (Fin 95)"
definition P99 :: "sample_window \<Rightarrow> latency_millis option" where "P99 w = percentile w (Fin 99)"

subsection \<open>Spike decisions\<close>

definition SpikeDecisionNone :: string where [simp]: "SpikeDecisionNone = ''none''"
definition SpikeDecisionWarning :: string where [simp]: "SpikeDecisionWarning = ''warning''"
definition SpikeDecisionCritical :: string where [simp]: "SpikeDecisionCritical = ''critical''"

record spike_decision =
  sd_kind :: string
  sd_reason :: string
  sd_baseline :: latency_millis
  sd_observed :: latency_millis
  sd_previous_count :: nat

definition no_spike :: spike_decision where
  "no_spike = \<lparr>sd_kind = SpikeDecisionNone, sd_reason = [], sd_baseline = zero_latency,
     sd_observed = zero_latency, sd_previous_count = 0\<rparr>"

record dspike_config =
  dc_warning :: latency_millis
  dc_critical :: latency_millis
  dc_multiplier :: f64
  dc_min_samples :: int

definition NewSpikeConfig :: "f64 \<Rightarrow> f64 \<Rightarrow> f64 \<Rightarrow> int \<Rightarrow> dspike_config option" where
  "NewSpikeConfig warningMs criticalMs relativeMultiplier minSamples =
     (case NewLatencyMillis warningMs of
        None \<Rightarrow> None
      | Some warn \<Rightarrow>
          (case NewLatencyMillis criticalMs of
             None \<Rightarrow> None
           | Some crit \<Rightarrow>
               if flt (lm_v crit) (lm_v warn) then None
               else if is_nan relativeMultiplier \<or> is_inf relativeMultiplier
                       \<or> flt relativeMultiplier (Fin 0) then None
               else if minSamples < 0 then None
               else Some \<lparr>dc_warning = warn, dc_critical = crit,
                          dc_multiplier = relativeMultiplier, dc_min_samples = minSamples\<rparr>))"

definition DefaultSpikeConfigHTTP :: dspike_config where
  "DefaultSpikeConfigHTTP = \<lparr>dc_warning = \<lparr>lm_v = Fin 1000\<rparr>, dc_critical = \<lparr>lm_v = Fin 5000\<rparr>,
     dc_multiplier = Fin 10, dc_min_samples = 20\<rparr>"

definition DefaultSpikeConfigICMP :: dspike_config where
  "DefaultSpikeConfigICMP = \<lparr>dc_warning = \<lparr>lm_v = Fin 500\<rparr>, dc_critical = \<lparr>lm_v = Fin 2000\<rparr>,
     dc_multiplier = Fin 10, dc_min_samples = 20\<rparr>"

fun joinReasons :: "string list \<Rightarrow> string" where
  "joinReasons [] = []"
| "joinReasons [r] = r"
| "joinReasons (r # rs) = r @ '','' @ joinReasons rs"

text \<open>The reasons, in the order in which \<open>DecideSpike\<close> appends them.\<close>

definition spike_reasons :: "sample \<Rightarrow> sample_window \<Rightarrow> dspike_config \<Rightarrow> string list" where
  "spike_reasons current previous cfg =
     (if fge (lm_v (s_latency current)) (lm_v (dc_critical cfg)) then [''critical_absolute''] else []) @
     (if fge (lm_v (s_latency current)) (lm_v (dc_warning cfg)) then [''warning_absolute''] else []) @
     (case Median previous of
        None \<Rightarrow> []
      | Some baseline \<Rightarrow>
          if dc_min_samples cfg \<le> int (Len previous) \<and> fgt (dc_multiplier cfg) (Fin 0)
             \<and> fge (lm_v (s_latency current)) (fmul (lm_v baseline) (dc_multiplier cfg))
          then [''relative_threshold''] else [])"

definition DecideSpike :: "sample \<Rightarrow> sample_window \<Rightarrow> dspike_config \<Rightarrow> spike_decision" where
  "DecideSpike current previous cfg =
     (if \<not> s_ok current then no_spike
      else let reasons = spike_reasons current previous cfg
        in if length reasons = 0 then no_spike
           else \<lparr>sd_kind = (if ''critical_absolute'' \<in> set reasons then SpikeDecisionCritical
                            else SpikeDecisionWarning),
                 sd_reason = joinReasons reasons,
                 sd_baseline = (case Median previous of None \<Rightarrow> zero_latency | Some b \<Rightarrow> b),
                 sd_observed = s_latency current,
                 sd_previous_count = Len previous\<rparr>)"

subsection \<open>Capture decisions\<close>

definition CaptureDecisionRun :: string where [simp]: "CaptureDecisionRun = ''run''"
definition CaptureDecisionSkipCooldown :: string where [simp]: "CaptureDecisionSkipCooldown = ''skip_cooldown''"
definition CaptureDecisionDisabled :: string where [simp]: "CaptureDecisionDisabled = ''disabled''"
definition CaptureDecisionNotConfigured :: string where [simp]: "CaptureDecisionNotConfigured = ''not_configured''"

record capture_decision =
  cd_kind :: string
  cd_reason :: string

record diagnostic_capture_config =
  dcc_enabled :: bool
  dcc_configured :: bool
  dcc_cooldown :: duration

definition DecideCapture :: "time \<Rightarrow> time \<Rightarrow> diagnostic_capture_config \<Rightarrow> capture_decision" where
  "DecideCapture now lastSuccessful cfg =
     (if \<not> dcc_enabled cfg then
        \<lparr>cd_kind = CaptureDecisionDisabled, cd_reason = ''diagnostic_capture_disabled''\<rparr>
      else if \<not> dcc_configured cfg then
        \<lparr>cd_kind = CaptureDecisionNotConfigured, cd_reason = ''diagnostic_capture_not_configured''\<rparr>
      else if \<not> is_zero_time lastSuccessful \<and> 0 < dcc_cooldown cfg
              \<and> time_sub now lastSuccessful < dcc_cooldown cfg then
        \<lparr>cd_kind = CaptureDecisionSkipCooldown, cd_reason = ''capture_cooldown_active''\<rparr>
      else \<lparr>cd_kind = CaptureDecisionRun, cd_reason = []\<rparr>)"

subsection \<open>Capture status vocabulary\<close>

definition CaptureStatusCaptured :: string where [simp]: "CaptureStatusCaptured = ''captured''"
definition CaptureStatusSkippedCooldown :: string where [simp]: "CaptureStatusSkippedCooldown = ''skipped_cooldown''"
definition CaptureStatusFailed :: string where [simp]: "CaptureStatusFailed = ''failed''"
definition CaptureStatusDisabled :: string where [simp]: "CaptureStatusDisabled = ''disabled''"
definition CaptureStatusNotConfigured :: string where [simp]: "CaptureStatusNotConfigured = ''not_configured''"
definition CaptureStatusNotAttempted :: string where [simp]: "CaptureStatusNotAttempted = ''not_attempted''"
definition CaptureStatusInProgress :: string where [simp]: "CaptureStatusInProgress = ''in_progress''"
definition CaptureStatusNone :: string where [simp]: "CaptureStatusNone = ''none''"
definition CaptureStatusMissing :: string where [simp]: "CaptureStatusMissing = ''missing''"

definition ParseCaptureStatus :: "string \<Rightarrow> string option" where
  "ParseCaptureStatus raw =
     (if raw \<in> set [CaptureStatusCaptured, CaptureStatusSkippedCooldown, CaptureStatusFailed,
                    CaptureStatusDisabled, CaptureStatusNotConfigured, CaptureStatusNotAttempted,
                    CaptureStatusInProgress, CaptureStatusNone, CaptureStatusMissing]
      then Some raw else None)"

definition IsValid :: "string \<Rightarrow> bool" where
  "IsValid s = is_some (ParseCaptureStatus s)"

subsection \<open>Well-formed windows\<close>

text \<open>
  The invariant of windows: every sample is successful and its latency is a non-negative
  finite binary64 number. \<open>NewSampleWindow\<close> establishes it from samples with valid
  latencies.
\<close>

definition valid_sample :: "sample \<Rightarrow> bool" where
  "valid_sample s \<longleftrightarrow> (\<exists>q. lm_v (s_latency s) = Fin q \<and> 0 \<le> q \<and> representable q)"

definition valid_window :: "sample_window \<Rightarrow> bool" where
  "valid_window w \<longleftrightarrow> (\<forall>s \<in> set (w_samples w). s_ok s \<and> valid_sample s)"

lemma NewSampleWindow_valid:
  "(\<forall>s \<in> set ss. s_ok s \<longrightarrow> valid_sample s) \<Longrightarrow> valid_window (NewSampleWindow ss)"
  by (auto simp: valid_window_def NewSampleWindow_def)

lemma Samples_eq [simp]: "Samples w = w_samples w"
  by (simp add: Samples_def)

lemma length_latencies [simp]: "length (latencies w) = Len w"
  by (simp add: latencies_def Len_def)

lemma latencies_valid:
  "valid_window w \<Longrightarrow> x \<in> set (latencies w) \<Longrightarrow> \<exists>q. x = Fin q \<and> 0 \<le> q \<and> representable q"
  by (auto simp: valid_window_def valid_sample_def latencies_def)

lemma sort_nth_valid:
  assumes "valid_window w" "i < Len w"
  obtains q where "sort (latencies w) ! i = Fin q" "0 \<le> q" "representable q"
proof -
  have "sort (latencies w) ! i \<in> set (sort (latencies w))"
    using assms(2) by (intro nth_mem) simp
  then show ?thesis using latencies_valid[OF assms(1)] that by auto
qed

lemma sort_nth_between:
  assumes "i < Len w"
  shows "Min (set (latencies w)) \<le> sort (latencies w) ! i" "sort (latencies w) ! i \<le> Max (set (latencies w))"
proof -
  have "sort (latencies w) ! i \<in> set (latencies w)"
    using nth_mem[of i "sort (latencies w)"] assms by simp
  then show "Min (set (latencies w)) \<le> sort (latencies w) ! i"
    "sort (latencies w) ! i \<le> Max (set (latencies w))" by simp_all
qed

lemma sort_nth_mono:
  "i \<le> j \<Longrightarrow> j < length xs \<Longrightarrow> sort xs ! i \<le> sort (xs :: 'a :: linorder list) ! j"
  by (rule sorted_nth_mono) simp_all

subsection \<open>The median\<close>

lemma Median_None_iff_odd: "Len w mod 2 = 1 \<Longrightarrow> Median w = NewLatencyMillis (sort (latencies w) ! (Len w div 2))"
  by (auto simp: Median_def Len_def Let_def)

lemma Median_even:
  "Len w \<noteq> 0 \<Longrightarrow> Len w mod 2 = 0 \<Longrightarrow> Median w = NewLatencyMillis
     (fdiv (fadd (sort (latencies w) ! (Len w div 2 - 1)) (sort (latencies w) ! (Len w div 2))) (Fin 2))"
  by (auto simp: Median_def Len_def Let_def)

lemma Median_empty: "Len w = 0 \<Longrightarrow> Median w = None"
  by (simp add: Median_def Len_def)

lemma Median_middle:
  assumes w: "valid_window w" and m: "Median w = Some m"
  shows "\<exists>i j. i \<le> j \<and> j < Len w \<and> sort (latencies w) ! i \<le> lm_v m \<and> lm_v m \<le> sort (latencies w) ! j"
proof -
  let ?v = "sort (latencies w)" let ?mid = "Len w div 2"
  have n: "0 < Len w" using m by (cases "Len w = 0") (simp_all add: Median_empty)
  then have mid: "?mid < Len w" by simp
  show ?thesis
  proof (cases "Len w mod 2 = 1")
    case True
    then have "lm_v m = ?v ! ?mid" using m by (simp add: Median_None_iff_odd NewLatencyMillis_Some)
    with mid show ?thesis by (intro exI[of _ ?mid]) simp
  next
    case False
    obtain a where a: "?v ! (?mid - 1) = Fin a" "0 \<le> a" "representable a"
      using sort_nth_valid[OF w, of "?mid - 1"] mid n by (metis less_imp_diff_less)
    obtain b where b: "?v ! ?mid = Fin b" "0 \<le> b" "representable b"
      using sort_nth_valid[OF w mid] .
    have "Fin a \<le> Fin b" using a b sort_nth_mono[of "?mid - 1" ?mid "latencies w"] mid by simp
    then have le: "a \<le> b" by simp
    from m False n obtain r where r: "lm_v m = Fin r" "fdiv (fadd (Fin a) (Fin b)) (Fin 2) = Fin r"
      by (auto simp: Median_even NewLatencyMillis_Some a[simplified] b)
    have "a \<le> r" "r \<le> b" using fhalf_sum_between[OF a(3) b(3) a(2) le r(2)] by simp_all
    then show ?thesis using a b r mid by (intro exI[of _ "?mid - 1"] exI[of _ ?mid]) simp
  qed
qed

text \<open>
  C40. The median of a well-formed window lies between its smallest and its largest latency,
  in the rounded arithmetic the code uses.
\<close>

theorem median_between:
  assumes "valid_window w" and "Median w = Some m"
  shows "Min (set (latencies w)) \<le> lm_v m \<and> lm_v m \<le> Max (set (latencies w))"
proof -
  obtain i j where ij: "i \<le> j" "j < Len w" "sort (latencies w) ! i \<le> lm_v m"
    "lm_v m \<le> sort (latencies w) ! j"
    using Median_middle[OF assms] by blast
  then have "i < Len w" by simp
  from sort_nth_between(1)[OF this] sort_nth_between(2)[OF ij(2)] ij show ?thesis
    by (meson order_trans)
qed

lemma Median_total:
  assumes w: "valid_window w" and n: "Len w \<noteq> 0"
    and small: "\<forall>x \<in> set (latencies w). x \<le> Fin (2 ^ 1022)"
  shows "\<exists>m. Median w = Some m"
proof -
  let ?v = "sort (latencies w)" let ?mid = "Len w div 2"
  have mid: "?mid < Len w" using n by simp
  have val: "\<exists>q. ?v ! i = Fin q \<and> 0 \<le> q \<and> q \<le> 2 ^ 1022" if "i < Len w" for i
  proof -
    obtain q where q: "?v ! i = Fin q" "0 \<le> q" using sort_nth_valid[OF w \<open>i < Len w\<close>] .
    moreover have "?v ! i \<in> set (latencies w)" using nth_mem[of i ?v] that by simp
    then have "?v ! i \<le> Fin (2 ^ 1022)" using small by blast
    ultimately show ?thesis by simp
  qed
  obtain b where b: "?v ! ?mid = Fin b" "0 \<le> b" "b \<le> 2 ^ 1022" using val[OF mid] by blast
  show ?thesis
  proof (cases "Len w mod 2 = 1")
    case True
    with b show ?thesis by (simp add: Median_None_iff_odd)
  next
    case False
    obtain a where a: "?v ! (?mid - 1) = Fin a" "0 \<le> a" "a \<le> 2 ^ 1022"
      using val[of "?mid - 1"] mid by (metis less_imp_diff_less)
    obtain r where r: "fdiv (fadd (Fin a) (Fin b)) (Fin 2) = Fin r" "0 \<le> r"
      using fhalf_sum_finite a b by blast
    have "Median w = NewLatencyMillis (fdiv (fadd (Fin a) (Fin b)) (Fin 2))"
      using Median_even[OF n] False by (simp only: a b)
    then show ?thesis unfolding r(1) using r(2) by simp
  qed
qed

subsection \<open>Percentiles\<close>

lemma sort_mset_eq: "mset xs = mset ys \<Longrightarrow> sort xs = sort (ys :: 'a :: linorder list)"
  by (metis sorted_list_of_multiset_mset)

lemma latencies_mset:
  "mset (w_samples w) = mset (w_samples w') \<Longrightarrow> mset (latencies w) = mset (latencies w')"
  by (simp add: latencies_def flip: mset_map) (simp add: mset_map)

text \<open>
  Median and percentiles depend on which samples the window holds, not on the order in
  which they were recorded.
\<close>

theorem window_statistics_order_independent:
  assumes "mset (w_samples w) = mset (w_samples w')"
  shows "Median w = Median w' \<and> percentile w p = percentile w' p"
proof -
  have "length (w_samples w) = length (w_samples w')"
    using assms by (metis size_mset)
  moreover have "sort (latencies w) = sort (latencies w')"
    using assms by (intro sort_mset_eq latencies_mset)
  moreover from calculation have "length (latencies w) = length (latencies w')"
    by (simp add: Len_def)
  ultimately show ?thesis by (simp add: Median_def percentile_def Let_def)
qed

lemma percentile_rank_bounds:
  assumes p: "0 \<le> p" "p \<le> 100" and n: "1 \<le> n" "n \<le> 2 ^ 53"
  shows "\<exists>r. percentile_rank (Fin p) n = Fin r \<and> 1 \<le> r \<and> r \<le> of_nat n"
proof -
  have fin: "\<exists>v. round64 q = Fin v \<and> 0 \<le> v \<and> v \<le> of_int b"
    if "0 \<le> q" "q \<le> of_int b" "\<bar>b\<bar> \<le> 2 ^ 53" for q b
    using round64_le[OF representable_of_int[OF that(3)] that(2)] round64_nonneg[OF that(1)]
    by (cases "round64 q") simp_all
  obtain u where u: "round64 (p / 100) = Fin u" "0 \<le> u" "u \<le> 1"
    using fin[of "p / 100" 1] p by auto
  have m: "f_of_int (int n - 1) = Fin (of_nat n - 1)"
    using n by (subst f_of_int_exact) (auto simp flip: of_nat_diff)
  have n1: "(0 :: rat) \<le> of_nat n - 1" using n by simp
  then have "u * (of_nat n - 1) \<le> 1 * (of_nat n - 1)" using u by (intro mult_right_mono) simp_all
  then obtain t where t: "round64 (u * (of_nat n - 1)) = Fin t" "0 \<le> t" "t \<le> of_nat n - 1"
    using fin[of "u * (of_nat n - 1)" "int n - 1"] u n1 n by auto
  have "\<exists>r. round64 (t + 1) = Fin r \<and> 1 \<le> r \<and> r \<le> of_nat n"
  proof -
    obtain r where r: "round64 (t + 1) = Fin r" "r \<le> of_nat n"
      using fin[of "t + 1" "int n"] t n by auto
    moreover have "Fin 1 \<le> round64 (t + 1)"
      using t by (intro round64_ge) (simp_all add: representable_def)
    ultimately show ?thesis by simp
  qed
  then show ?thesis using t u m by (simp add: percentile_rank_def)
qed

text \<open>
  Windows whose latencies are whole milliseconds, as the HTTP prober records them
  (\<open>float64(elapsed.Milliseconds())\<close>).
\<close>

definition whole_ms_window :: "sample_window \<Rightarrow> bool" where
  "whole_ms_window w \<longleftrightarrow> Len w \<le> 2 ^ 53 \<and> (\<forall>s \<in> set (w_samples w). s_ok s \<and>
     (\<exists>n :: int. 0 \<le> n \<and> n \<le> 2 ^ 53 \<and> lm_v (s_latency s) = Fin (of_int n)))"

lemma whole_ms_nth:
  assumes "whole_ms_window w" "i < Len w"
  obtains n :: int where "sort (latencies w) ! i = Fin (of_int n)" "0 \<le> n" "n \<le> 2 ^ 53"
proof -
  have "sort (latencies w) ! i \<in> set (latencies w)"
    using nth_mem[of i "sort (latencies w)"] assms by simp
  then show ?thesis using assms(1) that by (auto simp: whole_ms_window_def latencies_def)
qed

lemma whole_ms_valid: "whole_ms_window w \<Longrightarrow> valid_window w"
  by (force simp: whole_ms_window_def valid_window_def valid_sample_def intro: representable_of_int)

lemma interpolate_step:
  assumes ab: "0 \<le> a" "a \<le> b" "b \<le> (2 ^ 53 :: int)" and d: "0 \<le> d" "d \<le> 1"
    and rd: "round64 d0 = Fin d"
  shows "\<exists>r. fadd (Fin (of_int a)) (fmul (round64 d0) (fsub (Fin (of_int b)) (Fin (of_int a)))) = Fin r
    \<and> of_int a \<le> r \<and> r \<le> of_int b"
proof -
  have diff: "fsub (Fin (of_int b)) (Fin (of_int a)) = Fin (of_int (b - a))"
    using ab round64_of_int[of "b - a"] by (simp add: fsub_def)
  have "d * of_int (b - a) \<le> 1 * of_int (b - a)" using d ab by (intro mult_right_mono) simp_all
  then have "round64 (d * of_int (b - a)) \<le> Fin (of_int (b - a))"
    using ab by (intro round64_le representable_of_int) simp_all
  moreover have "Fin 0 \<le> round64 (d * of_int (b - a))" using d ab by (intro round64_nonneg) simp
  ultimately obtain x where x: "round64 (d * of_int (b - a)) = Fin x" "0 \<le> x" "x \<le> of_int (b - a)"
    by (cases "round64 (d * of_int (b - a))") simp_all
  have "Fin (of_int a) \<le> round64 (of_int a + x)" "round64 (of_int a + x) \<le> Fin (of_int b)"
    using x ab by (auto intro!: round64_ge round64_le representable_of_int)
  then obtain r where "round64 (of_int a + x) = Fin r" "of_int a \<le> r" "r \<le> of_int b"
    by (cases "round64 (of_int a + x)") simp_all
  moreover have "fadd (Fin (of_int a)) (fmul (Fin d) (Fin (of_int (b - a)))) = round64 (of_int a + x)"
    using x(1) by (simp only: fmul.simps fadd.simps)
  ultimately show ?thesis by (simp only: diff rd) simp
qed

lemma interpolate_at:
  assumes "percentile_rank p (length v) = Fin r" "int_of_f (Fin r) = k" "1 \<le> k"
  shows "interpolate p v = (if int (length v) \<le> k then v ! (length v - 1)
     else fadd (v ! nat (k - 1)) (fmul (fsub (Fin r) (f_of_int k)) (fsub (v ! nat k) (v ! nat (k - 1)))))"
  using assms by (simp add: interpolate_def Let_def)

text \<open>
  On whole-millisecond windows a percentile between 0 and 100 always exists and lies
  between the smallest and the largest latency: the interpolation reads only neighbouring
  samples of the sorted window and its roundings never leave their interval.
\<close>

theorem percentile_between:
  assumes w: "whole_ms_window w" and n: "Len w \<noteq> 0" and p: "0 \<le> p" "p \<le> 100"
  shows "\<exists>m. percentile w (Fin p) = Some m \<and> Min (set (latencies w)) \<le> lm_v m
    \<and> lm_v m \<le> Max (set (latencies w))"
proof -
  let ?v = "sort (latencies w)"
  have len: "length ?v = Len w" by simp
  obtain r where r: "percentile_rank (Fin p) (Len w) = Fin r" "1 \<le> r" "r \<le> of_nat (Len w)"
    using percentile_rank_bounds[OF p, of "Len w"] w n by (auto simp: whole_ms_window_def)
  define k where "k = \<lfloor>r\<rfloor>"
  have k: "1 \<le> k" "k \<le> int (Len w)" using r by (auto simp: k_def le_floor_iff floor_le_iff)
  have k53: "\<bar>k\<bar> \<le> 2 ^ 53" using k w by (simp add: whole_ms_window_def)
  then have "in_int64 k" by (simp add: in_int64_def abs_le_iff)
  then have ik: "int_of_f (Fin r) = k" using r by (simp add: k_def int_of_f.simps Let_def)
  have fk: "f_of_int k = Fin (of_int k)" using k53 by (rule f_of_int_exact)
  have at: "percentile_rank (Fin p) (length ?v) = Fin r" using r(1) by simp
  note interp = interpolate_at[OF at ik k(1), unfolded len]
  have "\<exists>q i j. interpolate (Fin p) ?v = Fin q \<and> i < Len w \<and> j < Len w \<and> ?v ! i \<le> Fin q \<and> Fin q \<le> ?v ! j"
  proof (cases "int (Len w) \<le> k")
    case True
    obtain a where "?v ! (Len w - 1) = Fin (of_int a)" using whole_ms_nth[OF w, of "Len w - 1"] n by auto
    then have "interpolate (Fin p) ?v = Fin (of_int a)"
      using True by (simp add: interp)
    then show ?thesis using \<open>?v ! (Len w - 1) = Fin (of_int a)\<close> n
      by (intro exI[of _ "of_int a"] exI[of _ "Len w - 1"]) simp
  next
    case False
    then have i: "nat (k - 1) < Len w" "nat k < Len w" using k by linarith+
    obtain a where a: "?v ! nat (k - 1) = Fin (of_int a)" "0 \<le> a" using whole_ms_nth[OF w i(1)] .
    obtain b where b: "?v ! nat k = Fin (of_int b)" "b \<le> 2 ^ 53" using whole_ms_nth[OF w i(2)] .
    have "Fin (of_int a) \<le> Fin (of_int b)"
      using sort_nth_mono[of "nat (k - 1)" "nat k" "latencies w"] i by (simp add: a b)
    then have ab: "a \<le> b" by simp
    have rk: "0 \<le> r - of_int k" "r - of_int k \<le> 1" unfolding k_def by linarith+
    have "round64 (r - of_int k) \<le> Fin 1" using rk by (intro round64_le) (simp_all add: representable_def)
    then obtain d where d: "round64 (r - of_int k) = Fin d" "0 \<le> d" "d \<le> 1"
      using round64_nonneg[OF rk(1)] by (cases "round64 (r - of_int k)") simp_all
    obtain q where q: "fadd (Fin (of_int a)) (fmul (round64 (r - of_int k))
        (fsub (Fin (of_int b)) (Fin (of_int a)))) = Fin q" "of_int a \<le> q" "q \<le> of_int b"
      using interpolate_step[OF a(2) ab b(2) d(2,3,1)] by blast
    have "interpolate (Fin p) ?v = Fin q"
      using False q(1) by (simp add: interp fk a b) (simp add: fsub_def)
    then show ?thesis using q a b i by (intro exI[of _ q] exI[of _ "nat (k - 1)"] exI[of _ "nat k"]) simp
  qed
  then obtain q i j where q: "interpolate (Fin p) ?v = Fin q" "i < Len w" "j < Len w"
    "?v ! i \<le> Fin q" "Fin q \<le> ?v ! j" by blast
  obtain a where "?v ! i = Fin (of_int a)" "0 \<le> a" using whole_ms_nth[OF w q(2)] .
  with q(4) have "(0 :: rat) \<le> of_int a" "of_int a \<le> q" by simp_all
  then have "0 \<le> q" by linarith
  with q(1) n have "percentile w (Fin p) = Some \<lparr>lm_v = Fin q\<rparr>" by (simp add: percentile_def Len_def)
  moreover have "Min (set (latencies w)) \<le> Fin q" "Fin q \<le> Max (set (latencies w))"
    using sort_nth_between(1)[OF q(2)] sort_nth_between(2)[OF q(3)] q(4,5) by (meson order_trans)+
  ultimately show ?thesis by simp
qed

text \<open>A one-sample window, for the witnesses.\<close>

definition sample_of_ms :: "time \<Rightarrow> int \<Rightarrow> sample" where
  "sample_of_ms t n = \<lparr>s_at = t, s_kind = ProbeKindHTTP, s_latency = \<lparr>lm_v = Fin (of_int n)\<rparr>,
     s_ok = True, s_err = []\<rparr>"

lemma median_between_witness:
  "valid_window \<lparr>w_samples = [sample_of_ms 1 7]\<rparr> \<and>
   Min (set (latencies \<lparr>w_samples = [sample_of_ms 1 7]\<rparr>)) \<le> Fin 7"
proof -
  let ?w = "\<lparr>w_samples = [sample_of_ms 1 7]\<rparr>"
  have v: "valid_window ?w"
    using representable_of_int[of 7] by (simp add: valid_window_def valid_sample_def sample_of_ms_def)
  have m: "Median ?w = Some \<lparr>lm_v = Fin 7\<rparr>"
    by (simp add: Median_def latencies_def sample_of_ms_def)
  show ?thesis using v median_between[OF v m] by simp
qed

lemma window_statistics_order_independent_witness:
  "Median \<lparr>w_samples = [sample_of_ms 1 7, sample_of_ms 2 9]\<rparr>
    = Median \<lparr>w_samples = [sample_of_ms 2 9, sample_of_ms 1 7]\<rparr>"
  using window_statistics_order_independent
    [of "\<lparr>w_samples = [sample_of_ms 1 7, sample_of_ms 2 9]\<rparr>"
        "\<lparr>w_samples = [sample_of_ms 2 9, sample_of_ms 1 7]\<rparr>" "Fin 90"] by simp

lemma percentile_between_witness:
  "whole_ms_window \<lparr>w_samples = [sample_of_ms 1 7, sample_of_ms 2 9]\<rparr> \<and>
   (\<exists>m. P90 \<lparr>w_samples = [sample_of_ms 1 7, sample_of_ms 2 9]\<rparr> = Some m)"
proof -
  let ?w = "\<lparr>w_samples = [sample_of_ms 1 7, sample_of_ms 2 9]\<rparr>"
  have n: "\<exists>n :: int. 0 \<le> n \<and> n \<le> 2 ^ 53 \<and> 7 = (of_int n :: rat)"
    "\<exists>n :: int. 0 \<le> n \<and> n \<le> 2 ^ 53 \<and> 9 = (of_int n :: rat)"
    by (rule exI[of _ 7], simp) (rule exI[of _ 9], simp)
  have w: "whole_ms_window ?w" and l: "Len ?w \<noteq> 0"
    using n by (simp_all add: whole_ms_window_def sample_of_ms_def Len_def)
  have "(0 :: rat) \<le> 90" "(90 :: rat) \<le> 100" by simp_all
  from percentile_between[OF w l this] w show ?thesis by (auto simp: P90_def)
qed

subsection \<open>Spike decisions\<close>

text \<open>The relative criterion of \<open>DecideSpike\<close>.\<close>

definition relative_exceeded :: "sample \<Rightarrow> sample_window \<Rightarrow> dspike_config \<Rightarrow> bool" where
  "relative_exceeded current previous cfg \<longleftrightarrow> (\<exists>b. Median previous = Some b \<and>
     dc_min_samples cfg \<le> int (Len previous) \<and> fgt (dc_multiplier cfg) (Fin 0) \<and>
     fge (lm_v (s_latency current)) (fmul (lm_v b) (dc_multiplier cfg)))"

lemma spike_reasons_eq:
  "spike_reasons c p g =
     (if fge (lm_v (s_latency c)) (lm_v (dc_critical g)) then [''critical_absolute''] else []) @
     (if fge (lm_v (s_latency c)) (lm_v (dc_warning g)) then [''warning_absolute''] else []) @
     (if relative_exceeded c p g then [''relative_threshold''] else [])"
  by (simp add: spike_reasons_def relative_exceeded_def split: option.split)

lemma spike_reasons_Nil: "spike_reasons c p g = [] \<longleftrightarrow>
    \<not> fge (lm_v (s_latency c)) (lm_v (dc_critical g)) \<and>
    \<not> fge (lm_v (s_latency c)) (lm_v (dc_warning g)) \<and> \<not> relative_exceeded c p g"
  by (simp add: spike_reasons_eq)

lemma crit_in_reasons:
  "''critical_absolute'' \<in> set (spike_reasons c p g) \<longleftrightarrow> fge (lm_v (s_latency c)) (lm_v (dc_critical g))"
  by (simp add: spike_reasons_eq)

lemma DecideSpike_kind:
  "sd_kind (DecideSpike c p g) =
     (if s_ok c \<and> fge (lm_v (s_latency c)) (lm_v (dc_critical g)) then SpikeDecisionCritical
      else if s_ok c \<and> (fge (lm_v (s_latency c)) (lm_v (dc_warning g)) \<or> relative_exceeded c p g)
      then SpikeDecisionWarning else SpikeDecisionNone)"
proof (cases "s_ok c \<and> spike_reasons c p g \<noteq> []")
  case True
  then have "sd_kind (DecideSpike c p g) = (if fge (lm_v (s_latency c)) (lm_v (dc_critical g))
      then SpikeDecisionCritical else SpikeDecisionWarning)"
    by (simp add: DecideSpike_def Let_def crit_in_reasons)
  with True show ?thesis unfolding spike_reasons_Nil by (auto simp del: SpikeDecisionNone_def SpikeDecisionWarning_def SpikeDecisionCritical_def)
next
  case False
  then have "sd_kind (DecideSpike c p g) = SpikeDecisionNone"
    by (auto simp: DecideSpike_def Let_def no_spike_def)
  with False show ?thesis unfolding spike_reasons_Nil by (auto simp del: SpikeDecisionNone_def SpikeDecisionWarning_def SpikeDecisionCritical_def)
qed

lemma joinReasons_Nil: "[] \<notin> set rs \<Longrightarrow> joinReasons rs = [] \<longleftrightarrow> rs = []"
  by (cases rs rule: joinReasons.cases) auto

lemma DecideSpike_reason:
  "sd_kind (DecideSpike c p g) \<noteq> SpikeDecisionNone \<longleftrightarrow> sd_reason (DecideSpike c p g) \<noteq> []"
proof -
  have "[] \<notin> set (spike_reasons c p g)" by (simp add: spike_reasons_eq)
  then show ?thesis by (simp add: DecideSpike_def Let_def no_spike_def joinReasons_Nil)
qed

text \<open>
  The severity of a decision is fixed by the thresholds: critical exactly when a
  successful sample reaches the critical threshold, warning when it reaches only the warning
  or the relative threshold, and none for failed samples and for all others. A decision that
  reports a spike always reports a reason.
\<close>

theorem decide_spike_kind:
  "sd_kind (DecideSpike c p g) =
     (if s_ok c \<and> fge (lm_v (s_latency c)) (lm_v (dc_critical g)) then SpikeDecisionCritical
      else if s_ok c \<and> (fge (lm_v (s_latency c)) (lm_v (dc_warning g)) \<or> relative_exceeded c p g)
      then SpikeDecisionWarning else SpikeDecisionNone) \<and>
   (sd_kind (DecideSpike c p g) \<noteq> SpikeDecisionNone \<longleftrightarrow> sd_reason (DecideSpike c p g) \<noteq> [])"
  by (rule conjI[OF DecideSpike_kind DecideSpike_reason])

definition severity_rank :: "string \<Rightarrow> nat" where
  "severity_rank k = (if k = SpikeDecisionCritical then 2 else if k = SpikeDecisionWarning then 1 else 0)"

lemma fge_trans: "fle x y \<Longrightarrow> fge x t \<Longrightarrow> fge y t"
  by (auto simp: fle_iff)

text \<open>A slower successful sample is never judged less severe.\<close>

theorem decide_spike_monotone:
  assumes "s_ok c" and "fle (lm_v (s_latency c)) (lm_v l)"
  shows "severity_rank (sd_kind (DecideSpike c p g))
       \<le> severity_rank (sd_kind (DecideSpike (c\<lparr>s_latency := l\<rparr>) p g))"
proof -
  have "fge (lm_v (s_latency c)) t \<Longrightarrow> fge (lm_v l) t" for t
    using fge_trans[OF assms(2)] .
  then have "relative_exceeded c p g \<Longrightarrow> relative_exceeded (c\<lparr>s_latency := l\<rparr>) p g"
    and "fge (lm_v (s_latency c)) (lm_v (dc_critical g)) \<Longrightarrow> fge (lm_v l) (lm_v (dc_critical g))"
    and "fge (lm_v (s_latency c)) (lm_v (dc_warning g)) \<Longrightarrow> fge (lm_v l) (lm_v (dc_warning g))"
    by (auto simp: relative_exceeded_def)
  then show ?thesis
    using assms(1) by (simp add: severity_rank_def DecideSpike_kind)
qed

lemma decide_spike_monotone_witness:
  "severity_rank (sd_kind (DecideSpike (sample_of_ms 1 7) empty_window DefaultSpikeConfigHTTP))
    \<le> severity_rank (sd_kind (DecideSpike ((sample_of_ms 1 7)\<lparr>s_latency := \<lparr>lm_v = Fin 9\<rparr>\<rparr>)
        empty_window DefaultSpikeConfigHTTP))"
  by (rule decide_spike_monotone) (simp_all add: sample_of_ms_def)

text \<open>
  \<open>NewSpikeConfig\<close> accepts exactly the ordered, finite, non-negative thresholds with a
  finite non-negative multiplier and sample count, and both default configurations are among
  the accepted ones.
\<close>

theorem NewSpikeConfig_accepts:
  "(NewSpikeConfig w c r n \<noteq> None \<longleftrightarrow>
     (\<exists>w' c' r'. w = Fin w' \<and> c = Fin c' \<and> r = Fin r' \<and> 0 \<le> w' \<and> w' \<le> c' \<and> 0 \<le> r') \<and> 0 \<le> n)
   \<and> NewSpikeConfig (Fin 1000) (Fin 5000) (Fin 10) 20 = Some DefaultSpikeConfigHTTP
   \<and> NewSpikeConfig (Fin 500) (Fin 2000) (Fin 10) 20 = Some DefaultSpikeConfigICMP"
proof (intro conjI)
  show "NewSpikeConfig w c r n \<noteq> None \<longleftrightarrow>
     (\<exists>w' c' r'. w = Fin w' \<and> c = Fin c' \<and> r = Fin r' \<and> 0 \<le> w' \<and> w' \<le> c' \<and> 0 \<le> r') \<and> 0 \<le> n"
    by (cases w; cases c; cases r)
      (auto simp: NewSpikeConfig_def NewLatencyMillis_def is_nan_def is_inf_def flt_iff)
qed (simp_all add: NewSpikeConfig_def flt_iff is_nan_def is_inf_def
  DefaultSpikeConfigHTTP_def DefaultSpikeConfigICMP_def)

end
