(* ===== verification/Bounded_Log.thy ===== *)
theory Bounded_Log
  imports Prelude
begin

section \<open>The interface of a bounded log\<close>

text \<open>
  Several components keep the most recent entries of a stream: the latency ring
  buffer, the purgeable spikes of a tracker and the captures of an event; the manager keeps a
  family of such logs, one per target. The contract they share is stated once: pushing an
  entry appends it to the view and drops from the front whatever exceeds the capacity; \<open>valid\<close>
  restricts the entries for which this is promised. The lemmas, which the components use through their interpretations, describe a
  whole history of pushes.
\<close>

locale bounded_log =
  fixes push :: "'a \<Rightarrow> 's \<Rightarrow> 's"
    and entry :: "'a \<Rightarrow> 'b"
    and view :: "'s \<Rightarrow> 'b list"
    and cap :: "'s \<Rightarrow> nat"
    and ok :: "'s \<Rightarrow> bool"
    and valid :: "'a \<Rightarrow> bool"
  assumes push_ok: "ok s \<Longrightarrow> valid x \<Longrightarrow> ok (push x s)"
    and push_cap: "ok s \<Longrightarrow> valid x \<Longrightarrow> cap (push x s) = cap s"
    and push_view: "ok s \<Longrightarrow> valid x \<Longrightarrow> view (push x s) = take_last (cap s) (view s @ [entry x])"
    and view_bounded: "ok s \<Longrightarrow> length (view s) \<le> cap s"
begin

lemma pushes:
  "ok s \<Longrightarrow> \<forall>x \<in> set xs. valid x \<Longrightarrow> ok (fold push xs s) \<and> cap (fold push xs s) = cap s
     \<and> view (fold push xs s) = take_last (cap s) (view s @ map entry xs)"
proof (induction xs arbitrary: s)
  case (Cons x xs)
  then have IH: "ok (fold push xs (push x s)) \<and> cap (fold push xs (push x s)) = cap s
    \<and> view (fold push xs (push x s)) = take_last (cap s) (view (push x s) @ map entry xs)"
    by (simp add: push_ok push_cap)
  have "take_last (cap s) (take_last (cap s) (view s @ [entry x]) @ map entry xs)
      = take_last (cap s) ((view s @ [entry x]) @ map entry xs)"
    by (rule take_last_append_take_last)
  with IH Cons.prems show ?case by (simp add: push_view)
qed (simp add: view_bounded)

lemma pushes_length: "ok s \<Longrightarrow> \<forall>x \<in> set xs. valid x \<Longrightarrow> length (view (fold push xs s)) \<le> cap s"
  by (simp add: pushes)

lemma push_newest: "ok s \<Longrightarrow> valid x \<Longrightarrow> 0 < cap s \<Longrightarrow> view (push x s) \<noteq> [] \<and> last (view (push x s)) = entry x"
  by (simp add: push_view take_last_snoc)

text \<open>Only the capacity most recent entries matter.\<close>

lemma pushes_forget:
  "ok s \<Longrightarrow> \<forall>x \<in> set xs. valid x \<Longrightarrow> cap s \<le> length xs \<Longrightarrow> view (fold push xs s) = take_last (cap s) (map entry xs)"
  by (simp add: pushes take_last_def)

end

text \<open>
  A family of logs, one per key, each created by \<open>fresh\<close> when its key is first used. The state
  is the map from keys to logs. Recording under one key pushes to that log only.
\<close>

locale keyed_log = bounded_log push entry view cap ok valid
  for push :: "'a \<Rightarrow> 's \<Rightarrow> 's" and entry :: "'a \<Rightarrow> 'b" and view :: "'s \<Rightarrow> 'b list" and cap :: "'s \<Rightarrow> nat"
    and ok :: "'s \<Rightarrow> bool" and valid :: "'a \<Rightarrow> bool" +
  fixes fresh :: "'s option" and size_limit :: nat
  assumes fresh_defined: "fresh \<noteq> None"
    and fresh_empty: "fresh = Some s \<Longrightarrow> ok s \<and> view s = [] \<and> cap s = size_limit"
begin

definition get_log :: "('k \<rightharpoonup> 's) \<Rightarrow> 'k \<Rightarrow> 's option" where
  "get_log m k = (case m k of Some s \<Rightarrow> Some s | None \<Rightarrow> fresh)"

definition record_in :: "'k \<Rightarrow> 'a \<Rightarrow> ('k \<rightharpoonup> 's) \<Rightarrow> ('k \<rightharpoonup> 's) option" where
  "record_in k x m = map_option (\<lambda>s. m(k \<mapsto> push x s)) (get_log m k)"

definition keyed_view :: "('k \<rightharpoonup> 's) \<Rightarrow> 'k \<Rightarrow> 'b list" where
  "keyed_view m k = (case m k of None \<Rightarrow> [] | Some s \<Rightarrow> view s)"

definition all_ok :: "('k \<rightharpoonup> 's) \<Rightarrow> bool" where
  "all_ok m \<longleftrightarrow> (\<forall>k s. m k = Some s \<longrightarrow> ok s \<and> cap s = size_limit)"

lemma all_okD: "all_ok m \<Longrightarrow> m k = Some s \<Longrightarrow> ok s \<and> cap s = size_limit"
  by (simp add: all_ok_def)

lemma get_log_ok: "all_ok m \<Longrightarrow> \<exists>s. get_log m k = Some s \<and> ok s \<and> cap s = size_limit \<and> view s = keyed_view m k"
  using fresh_defined fresh_empty by (auto simp: get_log_def keyed_view_def all_ok_def split: option.splits)

lemma record_in_step:
  assumes "all_ok m" "valid x"
  shows "\<exists>m'. record_in k x m = Some m' \<and> all_ok m'
    \<and> keyed_view m' j = (if j = k then take_last size_limit (keyed_view m k @ [entry x]) else keyed_view m j)"
proof -
  obtain s where s: "get_log m k = Some s" "ok s" "cap s = size_limit" "view s = keyed_view m k"
    using get_log_ok[OF assms(1), of k] by blast
  have "all_ok (m(k \<mapsto> push x s))"
    using assms s push_ok[of s x] push_cap[of s x] by (auto simp: all_ok_def)
  then show ?thesis using s push_view[OF s(2) assms(2)] by (auto simp: record_in_def keyed_view_def)
qed

lemma keyed_view_bounded: "all_ok m \<Longrightarrow> length (keyed_view m k) \<le> size_limit"
  using view_bounded by (fastforce simp: keyed_view_def all_ok_def split: option.split)

lemma record_in_stream:
  assumes "all_ok m" "valid x"
  shows "\<exists>m'. record_in k x m = Some m' \<and> all_ok m'
    \<and> (\<forall>j. keyed_view m' j = take_last size_limit (keyed_view m j @ (if j = k then [entry x] else [])))"
proof -
  obtain m' where m': "record_in k x m = Some m'" "all_ok m'" using record_in_step[OF assms, of k] by blast
  have "keyed_view m' j = take_last size_limit (keyed_view m j @ (if j = k then [entry x] else []))" for j
    using record_in_step[OF assms, of k j] m' keyed_view_bounded[OF assms(1), of j] by simp
  with m' show ?thesis by blast
qed

end

end
