(* ===== verification/Latency_Tracker.thy ===== *)
theory Latency_Tracker
  imports Latency_Domain Bounded_Log
begin

section \<open>The latency tracker: a bounded ring buffer with running statistics\<close>

text \<open>
  Models \<open>uvb76/state/latency.go\<close> and \<open>latency_snapshot.go\<close>: the per-target tracker, the
  repair of its fields, recording, the bounded reads, the summary with histogram and
  percentiles, and the snapshot, together with \<open>CalculatePercentiles\<close> of \<open>state.go\<close>.
  Every method runs under the tracker's lock, so a method is one function on the tracker's
  record. The fields \<open>head\<close>, \<open>count\<close> and \<open>maxSamples\<close> are Go ints, negative values
  included, because the code checks for them. \<open>None\<close> is a run-time panic.

  The abstraction \<open>contents\<close> lists the stored samples, oldest first. The lemmas show that
  recording appends and keeps the last \<open>maxSamples\<close> samples, that the running error count
  and sum agree with the contents, and that every read is a function of the contents.
\<close>

record latency_sample =
  ls_ts :: time
  ls_ms :: f64
  ls_reach :: bool
  ls_err :: string

definition zero_sample :: latency_sample where
  "zero_sample = \<lparr>ls_ts = 0, ls_ms = Fin 0, ls_reach = False, ls_err = []\<rparr>"

record latency_tracker =
  lt_buckets :: "int list"
  lt_samples :: "latency_sample list"
  lt_max :: int
  lt_head :: int
  lt_count :: int
  lt_sum :: f64
  lt_errs :: int

subsection \<open>Construction\<close>

text \<open>The two nested loops that sort the bucket boundaries.\<close>

fun bubble :: "nat \<Rightarrow> int list \<Rightarrow> int list" where
  "bubble (Suc m) (x # y # zs) = (if x > y then y # bubble m (x # zs) else x # bubble m (y # zs))"
| "bubble m zs = zs"

definition bubble_sort :: "int list \<Rightarrow> int list" where
  "bubble_sort xs = fold (\<lambda>i. bubble (length xs - i)) [1..<length xs] xs"

definition NewLatencyTracker :: "int list \<Rightarrow> int \<Rightarrow> latency_tracker option" where
  "NewLatencyTracker buckets maxSamples =
     (if maxSamples \<le> 0 then None
      else if length buckets = 0 then None
      else Some \<lparr>lt_buckets = bubble_sort buckets, lt_samples = replicate (nat maxSamples) zero_sample,
                 lt_max = maxSamples, lt_head = 0, lt_count = 0, lt_sum = Fin 0, lt_errs = 0\<rparr>)"

subsection \<open>Repair and recording\<close>

definition repair_count :: "latency_tracker \<Rightarrow> latency_tracker" where
  "repair_count lt = (if lt_count lt < 0 \<or> lt_count lt > lt_max lt then lt\<lparr>lt_count := 0\<rparr> else lt)"

definition repair_head :: "latency_tracker \<Rightarrow> latency_tracker" where
  "repair_head lt = (if lt_head lt < 0 \<or> lt_head lt \<ge> lt_max lt then lt\<lparr>lt_head := 0\<rparr> else lt)"

definition repair_buffer :: "latency_tracker \<Rightarrow> latency_tracker" where
  "repair_buffer lt = (if int (length (lt_samples lt)) \<noteq> lt_max lt
     then lt\<lparr>lt_samples := replicate (nat (lt_max lt)) zero_sample, lt_head := 0, lt_count := 0,
             lt_sum := Fin 0, lt_errs := 0\<rparr> else lt)"

definition validateAndRepairLocked :: "latency_tracker \<Rightarrow> bool \<times> latency_tracker" where
  "validateAndRepairLocked lt =
     (if lt_max lt \<le> 0 then (False, lt)
      else (True, repair_buffer (repair_head (repair_count lt))))"

definition snapshotLimitLocked :: "latency_tracker \<Rightarrow> int \<Rightarrow> int" where
  "snapshotLimitLocked lt requested =
     (if requested \<le> 0 then 0
      else let capacity = int (length (lt_samples lt)); count = lt_count lt
        in if capacity = 0 then 0
           else if count \<le> 0 then 0
           else min (min requested count) capacity)"

text \<open>The bookkeeping for the new sample and for the one it overwrites.\<close>

definition count_new_error :: "bool \<Rightarrow> latency_tracker \<Rightarrow> latency_tracker" where
  "count_new_error reachable lt = (if \<not> reachable then lt\<lparr>lt_errs := lt_errs lt + 1\<rparr> else lt)"

definition evict_old :: "latency_tracker \<Rightarrow> latency_tracker" where
  "evict_old lt = (if lt_count lt = lt_max lt then
      let old = lt_samples lt ! nat (lt_head lt)
      in if ls_reach old then lt\<lparr>lt_sum := fsub (lt_sum lt) (ls_ms old)\<rparr>
         else lt\<lparr>lt_errs := lt_errs lt - 1\<rparr>
     else lt)"

definition store_sample :: "latency_sample \<Rightarrow> latency_tracker \<Rightarrow> latency_tracker" where
  "store_sample s lt = (if 0 \<le> lt_head lt \<and> lt_head lt < int (length (lt_samples lt)) then
      let lt1 = lt\<lparr>lt_samples := (lt_samples lt)[nat (lt_head lt) := s]\<rparr>;
          lt2 = lt1\<lparr>lt_head := go_rem (lt_head lt1 + 1) (lt_max lt1)\<rparr>;
          lt3 = (if lt_count lt2 < lt_max lt2 then lt2\<lparr>lt_count := lt_count lt2 + 1\<rparr> else lt2)
      in if ls_reach s then lt3\<lparr>lt_sum := fadd (lt_sum lt3) (ls_ms s)\<rparr> else lt3
     else lt)"

definition RecordAt :: "f64 \<Rightarrow> bool \<Rightarrow> time \<Rightarrow> latency_tracker \<Rightarrow> latency_tracker" where
  "RecordAt latencyMs reachable ts lt0 =
     (let (ok, lt) = validateAndRepairLocked lt0
      in if \<not> ok then lt
         else store_sample \<lparr>ls_ts = ts, ls_ms = latencyMs, ls_reach = reachable, ls_err = []\<rparr>
                (evict_old (count_new_error reachable lt)))"

definition Record :: "time \<Rightarrow> f64 \<Rightarrow> bool \<Rightarrow> latency_tracker \<Rightarrow> latency_tracker" where
  "Record now latencyMs reachable lt = RecordAt latencyMs reachable now lt"

subsection \<open>Bounded reads\<close>

definition GetRecentSamples :: "int \<Rightarrow> latency_tracker \<Rightarrow> latency_sample list" where
  "GetRecentSamples limit lt =
     (let capacity = int (length (lt_samples lt))
      in if limit \<le> 0 then []
         else if capacity = 0 \<or> lt_max lt \<le> 0 then []
         else if capacity \<noteq> lt_max lt then []
         else if lt_count lt \<le> 0 then []
         else if lt_count lt < 0 \<or> lt_count lt > lt_max lt then []
         else if lt_head lt < 0 \<or> lt_head lt \<ge> capacity then []
         else let count = snapshotLimitLocked lt limit; start = go_rem (lt_head lt - count + capacity) capacity
           in if count \<le> 0 then []
              else map (\<lambda>i. lt_samples lt ! nat (go_rem (start + int i) capacity)) [0..<nat count])"

text \<open>The index of the \<open>i\<close>-th stored sample; \<open>None\<close> is a division by zero.\<close>

definition ring_index :: "latency_tracker \<Rightarrow> int \<Rightarrow> int option" where
  "ring_index lt i = (if lt_max lt = 0 then None
     else Some (go_rem (lt_head lt - lt_count lt + i + lt_max lt) (lt_max lt)))"

definition ring_sample :: "latency_tracker \<Rightarrow> int \<Rightarrow> latency_sample option" where
  "ring_sample lt i = (case ring_index lt i of None \<Rightarrow> None | Some idx \<Rightarrow> slice_at (lt_samples lt) idx)"

definition GetSampleTimestamps :: "latency_tracker \<Rightarrow> (time option \<times> time option) option" where
  "GetSampleTimestamps lt =
     (if lt_count lt = 0 then Some (None, None)
      else case (ring_sample lt 0, ring_sample lt (lt_count lt - 1)) of
        (Some old, Some new) \<Rightarrow> Some (Some (ls_ts old), Some (ls_ts new))
      | _ \<Rightarrow> None)"

record latency_snapshot =
  sn_target :: string
  sn_samples :: "latency_sample list"
  sn_count :: int
  sn_capacity :: int
  sn_sum :: f64
  sn_errs :: int
  sn_oldest :: "time option"
  sn_newest :: "time option"
  sn_buckets :: "int list"

definition Snapshot :: "string \<Rightarrow> int \<Rightarrow> latency_tracker \<Rightarrow> latency_snapshot" where
  "Snapshot targetID limit lt =
     (let snap = \<lparr>sn_target = targetID, sn_samples = [], sn_count = 0, sn_capacity = lt_max lt,
                  sn_sum = lt_sum lt, sn_errs = lt_errs lt, sn_oldest = None, sn_newest = None,
                  sn_buckets = lt_buckets lt\<rparr>;
          mx = lt_max lt
      in if lt_count lt = 0 \<or> mx \<le> 0 \<or> int (length (lt_samples lt)) \<noteq> mx then snap
         else if lt_count lt < 0 \<or> lt_count lt > mx then snap
         else if lt_head lt < 0 \<or> lt_head lt \<ge> mx then snap
         else let l1 = (if limit \<le> 0 then lt_count lt else limit);
                  l2 = (if l1 > lt_count lt then lt_count lt else l1);
                  clamped = (if l2 > mx then mx else l2);
                  oldestIdx = go_rem (lt_head lt - lt_count lt + mx) mx;
                  newestIdx = go_rem (lt_head lt - 1 + mx) mx;
                  start = go_rem (lt_head lt - clamped + mx) mx
           in snap\<lparr>sn_count := clamped,
                   sn_oldest := Some (ls_ts (lt_samples lt ! nat oldestIdx)),
                   sn_newest := Some (ls_ts (lt_samples lt ! nat newestIdx)),
                   sn_samples := map (\<lambda>i. lt_samples lt ! nat (go_rem (start + int i) mx)) [0..<nat clamped]\<rparr>)"

subsection \<open>Percentiles and the summary\<close>

definition calc_percentile :: "f64 list \<Rightarrow> f64 \<Rightarrow> f64" where
  "calc_percentile sortedSamples p =
     (let n = length sortedSamples;
          rank = fadd (fmul (fdiv p (Fin 100)) (f_of_int (int n - 1))) (Fin 1);
          k = int_of_f rank; d = fsub rank (f_of_int k)
      in if k \<le> 0 then sortedSamples ! 0
         else if k \<ge> int n then sortedSamples ! (n - 1)
         else fadd (sortedSamples ! nat (k - 1))
                (fmul d (fsub (sortedSamples ! nat k) (sortedSamples ! nat (k - 1)))))"

definition CalculatePercentiles :: "f64 list \<Rightarrow> f64 list \<Rightarrow> (f64 \<rightharpoonup> f64 option)" where
  "CalculatePercentiles sortedSamples percentiles =
     (if length sortedSamples = 0
      then fold (\<lambda>p m. m(p \<mapsto> None)) percentiles Map.empty
      else fold (\<lambda>p m. m(p \<mapsto> Some (calc_percentile sortedSamples p))) percentiles Map.empty)"

record histogram =
  h_buckets :: "int list"
  h_counts :: "int list"

record latency_summary =
  su_target :: string
  su_count :: int
  su_errs :: int
  su_min :: f64
  su_max :: f64
  su_avg :: f64
  su_median :: f64
  su_p50 :: "f64 option"
  su_p90 :: "f64 option"
  su_p95 :: "f64 option"
  su_p99 :: "f64 option"
  su_hist :: histogram

definition empty_summary :: "string \<Rightarrow> histogram \<Rightarrow> latency_summary" where
  "empty_summary targetID h = \<lparr>su_target = targetID, su_count = 0, su_errs = 0, su_min = Fin 0,
     su_max = Fin 0, su_avg = Fin 0, su_median = Fin 0, su_p50 = None, su_p90 = None, su_p95 = None,
     su_p99 = None, su_hist = h\<rparr>"

text \<open>The bucket a value is counted in: the first that bounds it, else the last.\<close>

fun first_bucket :: "int list \<Rightarrow> f64 \<Rightarrow> nat option" where
  "first_bucket [] v = None"
| "first_bucket (b # bs) v = (if fle v (f_of_int b) then Some 0 else map_option Suc (first_bucket bs v))"

definition bucket_of :: "int list \<Rightarrow> f64 \<Rightarrow> nat" where
  "bucket_of bs v = (case first_bucket bs v of Some i \<Rightarrow> i | None \<Rightarrow> length bs - 1)"

definition count_value :: "int list \<Rightarrow> f64 \<Rightarrow> int list \<Rightarrow> int list" where
  "count_value bs v counts = counts[bucket_of bs v := counts ! bucket_of bs v + 1]"

definition histogram_counts :: "int list \<Rightarrow> f64 list \<Rightarrow> int list" where
  "histogram_counts bs vals = fold (count_value bs) vals (replicate (length bs) 0)"

text \<open>
  The loop that finds minimum and maximum and sorts by insertion. The prefix is kept
  reversed: a value moves left while its left neighbour is greater.
\<close>

fun insert_back :: "f64 \<Rightarrow> f64 list \<Rightarrow> f64 list" where
  "insert_back v [] = [v]"
| "insert_back v (u # us) = (if fgt u v then u # insert_back v us else v # u # us)"

definition insertion_sorted :: "f64 list \<Rightarrow> f64 list" where
  "insertion_sorted vals = rev (fold insert_back vals [])"

definition loop_min :: "f64 list \<Rightarrow> f64" where
  "loop_min vals = fold (\<lambda>v m. if flt v m then v else m) (tl vals) (hd vals)"

definition loop_max :: "f64 list \<Rightarrow> f64" where
  "loop_max vals = fold (\<lambda>v m. if fgt v m then v else m) (tl vals) (hd vals)"

definition mid_value :: "f64 list \<Rightarrow> f64" where
  "mid_value vals = (let mid = length vals div 2
     in if length vals mod 2 = 0 then fdiv (fadd (vals ! (mid - 1)) (vals ! mid)) (Fin 2)
        else vals ! mid)"

definition ring_samples :: "latency_tracker \<Rightarrow> latency_sample list option" where
  "ring_samples lt = those (map (\<lambda>i. ring_sample lt (int i)) [0..<nat (lt_count lt)])"

text \<open>The statistics of the samples read from the ring, all failed or not.\<close>

definition summarize :: "string \<Rightarrow> latency_tracker \<Rightarrow> latency_sample list \<Rightarrow> latency_summary" where
  "summarize targetID lt samples =
     (let ok = map ls_ms (filter ls_reach samples);
          vals = map ls_ms samples;
          base = (empty_summary targetID \<lparr>h_buckets = lt_buckets lt, h_counts = replicate (length (lt_buckets lt)) 0\<rparr>)
                   \<lparr>su_count := lt_count lt, su_errs := lt_errs lt\<rparr>
      in if length ok = 0
         then base\<lparr>su_hist := \<lparr>h_buckets = lt_buckets lt, h_counts = histogram_counts (lt_buckets lt) vals\<rparr>\<rparr>
         else let so = sort ok; ps = CalculatePercentiles so [Fin 50, Fin 90, Fin 95, Fin 99]
           in base\<lparr>su_min := loop_min vals, su_max := loop_max vals,
                   su_avg := fdiv (lt_sum lt) (f_of_int (int (length ok))),
                   su_median := mid_value so,
                   su_p50 := Option.bind (ps (Fin 50)) id, su_p90 := Option.bind (ps (Fin 90)) id,
                   su_p95 := Option.bind (ps (Fin 95)) id, su_p99 := Option.bind (ps (Fin 99)) id,
                   su_hist := \<lparr>h_buckets = lt_buckets lt,
                               h_counts = histogram_counts (lt_buckets lt) (insertion_sorted vals)\<rparr>\<rparr>)"

text \<open>
  \<open>None\<close> where the code panics: on a slice with a negative length or capacity, and on a
  read outside the buffer or the bucket counts.
\<close>

definition GetSummary :: "string \<Rightarrow> latency_tracker \<Rightarrow> latency_summary option" where
  "GetSummary targetID lt =
     (if lt_count lt = 0
      then Some (empty_summary targetID \<lparr>h_buckets = lt_buckets lt, h_counts = replicate (length (lt_buckets lt)) 0\<rparr>)
      else if lt_count lt < 0 \<or> lt_count lt - lt_errs lt < 0 \<or> length (lt_buckets lt) = 0 then None
      else map_option (summarize targetID lt) (ring_samples lt))"

subsection \<open>The ring invariant and the contents\<close>

definition ring_inv :: "latency_tracker \<Rightarrow> bool" where
  "ring_inv lt \<longleftrightarrow> 0 < lt_max lt \<and> int (length (lt_samples lt)) = lt_max lt \<and>
     0 \<le> lt_count lt \<and> lt_count lt \<le> lt_max lt \<and> 0 \<le> lt_head lt \<and> lt_head lt < lt_max lt"

definition slot :: "latency_tracker \<Rightarrow> int \<Rightarrow> int" where
  "slot lt i = (lt_head lt - lt_count lt + i) mod lt_max lt"

definition contents :: "latency_tracker \<Rightarrow> latency_sample list" where
  "contents lt = map (\<lambda>i. lt_samples lt ! nat (slot lt (int i))) [0..<nat (lt_count lt)]"

definition tracker_inv :: "latency_tracker \<Rightarrow> bool" where
  "tracker_inv lt \<longleftrightarrow> ring_inv lt \<and> lt_buckets lt \<noteq> [] \<and>
     lt_errs lt = int (length (filter (\<lambda>s. \<not> ls_reach s) (contents lt)))"

lemma length_contents [simp]: "length (contents lt) = nat (lt_count lt)"
  by (simp add: contents_def)

lemma slot_range: "ring_inv lt \<Longrightarrow> 0 \<le> slot lt i \<and> slot lt i < int (length (lt_samples lt))"
  by (simp add: slot_def ring_inv_def)

lemma ring_inv_int: "ring_inv lt \<Longrightarrow> int (nat (lt_count lt)) = lt_count lt"
  by (simp add: ring_inv_def)

text \<open>The code's index, with \<open>maxSamples\<close> added to keep it positive, is the slot.\<close>

lemma go_rem_slot:
  "ring_inv lt \<Longrightarrow> 0 \<le> i \<Longrightarrow> go_rem (lt_head lt - lt_count lt + i + lt_max lt) (lt_max lt) = slot lt i"
  by (simp add: go_rem_nonneg ring_inv_def slot_def)

lemma ring_sample_contents:
  assumes "ring_inv lt" "i < nat (lt_count lt)"
  shows "ring_sample lt (int i) = Some (contents lt ! i)"
proof -
  have "lt_max lt \<noteq> 0" using assms(1) by (simp add: ring_inv_def)
  then show ?thesis using assms slot_range[OF assms(1), of "int i"]
    by (simp add: ring_sample_def ring_index_def go_rem_slot slice_at_def contents_def)
qed

lemma ring_samples_contents: "ring_inv lt \<Longrightarrow> ring_samples lt = Some (contents lt)"
proof -
  assume i: "ring_inv lt"
  have "ring_samples lt = Some (map (\<lambda>i. contents lt ! i) [0..<nat (lt_count lt)])"
    unfolding ring_samples_def by (rule those_map_Some) (simp add: ring_sample_contents i)
  also have "map (\<lambda>i. contents lt ! i) [0..<nat (lt_count lt)] = contents lt"
    using map_nth[of "contents lt"] by simp
  finally show ?thesis .
qed

text \<open>Reading the newest \<open>m\<close> samples, as the bounded reads do.\<close>

lemma read_newest:
  assumes i: "ring_inv lt" and m: "0 < m" "m \<le> lt_count lt"
  shows "map (\<lambda>i. lt_samples lt ! nat (go_rem (go_rem (lt_head lt - m + lt_max lt) (lt_max lt) + int i) (lt_max lt)))
     [0..<nat m] = take_last (nat m) (contents lt)"
proof (rule nth_equalityI)
  show "length (map (\<lambda>i. lt_samples lt ! nat (go_rem (go_rem (lt_head lt - m + lt_max lt) (lt_max lt) + int i) (lt_max lt)))
     [0..<nat m]) = length (take_last (nat m) (contents lt))" using m by simp
next
  fix k assume "k < length (map (\<lambda>i. lt_samples lt ! nat (go_rem (go_rem (lt_head lt - m + lt_max lt) (lt_max lt) + int i) (lt_max lt)))
     [0..<nat m])"
  then have k: "k < nat m" by simp
  have pos: "0 \<le> lt_head lt - m + lt_max lt" "0 < lt_max lt" using i m by (auto simp: ring_inv_def)
  have "go_rem (go_rem (lt_head lt - m + lt_max lt) (lt_max lt) + int k) (lt_max lt)
      = ((lt_head lt - m + lt_max lt) mod lt_max lt + int k) mod lt_max lt"
    using pos by (simp add: go_rem_nonneg)
  also have "\<dots> = (lt_head lt - m + int k) mod lt_max lt"
    by (metis (no_types, opaque_lifting) add.commute mod_add_left_eq mod_add_self2)
  also have "\<dots> = slot lt (int (nat (lt_count lt) - nat m + k))"
    using m k by (simp add: slot_def of_nat_diff nat_le_eq_zle algebra_simps)
  finally show "map (\<lambda>i. lt_samples lt ! nat (go_rem (go_rem (lt_head lt - m + lt_max lt) (lt_max lt) + int i) (lt_max lt)))
     [0..<nat m] ! k = take_last (nat m) (contents lt) ! k"
    using k m by (simp add: nth_take_last contents_def)
qed

subsection \<open>Recording\<close>

lemma repair_ok: "ring_inv lt \<Longrightarrow> validateAndRepairLocked lt = (True, lt)"
  by (simp add: validateAndRepairLocked_def repair_count_def repair_head_def repair_buffer_def ring_inv_def)

lemma repair_establishes:
  "validateAndRepairLocked lt = (True, lt') \<Longrightarrow> ring_inv lt' \<and> lt_max lt' = lt_max lt"
  by (auto simp: validateAndRepairLocked_def repair_count_def repair_head_def repair_buffer_def
      ring_inv_def split: if_splits)

lemma evict_old_frame [simp]:
  "lt_samples (evict_old lt) = lt_samples lt" "lt_head (evict_old lt) = lt_head lt"
  "lt_count (evict_old lt) = lt_count lt" "lt_max (evict_old lt) = lt_max lt"
  "lt_buckets (evict_old lt) = lt_buckets lt"
  by (simp_all add: evict_old_def Let_def)

lemma count_new_error_frame [simp]:
  "lt_samples (count_new_error r lt) = lt_samples lt" "lt_head (count_new_error r lt) = lt_head lt"
  "lt_count (count_new_error r lt) = lt_count lt" "lt_max (count_new_error r lt) = lt_max lt"
  "lt_buckets (count_new_error r lt) = lt_buckets lt" "lt_sum (count_new_error r lt) = lt_sum lt"
  by (simp_all add: count_new_error_def)

lemma store_sample_fields:
  assumes "ring_inv lt"
  shows "lt_samples (store_sample s lt) = (lt_samples lt)[nat (lt_head lt) := s]"
    "lt_head (store_sample s lt) = (lt_head lt + 1) mod lt_max lt"
    "lt_count (store_sample s lt) = (if lt_count lt < lt_max lt then lt_count lt + 1 else lt_count lt)"
    "lt_max (store_sample s lt) = lt_max lt" "lt_buckets (store_sample s lt) = lt_buckets lt"
    "lt_errs (store_sample s lt) = lt_errs lt"
    "lt_sum (store_sample s lt) = (if ls_reach s then fadd (lt_sum lt) (ls_ms s) else lt_sum lt)"
  using assms by (simp_all add: store_sample_def ring_inv_def Let_def go_rem_nonneg)

lemma store_sample_inv: "ring_inv lt \<Longrightarrow> ring_inv (store_sample s lt)"
  by (auto simp: ring_inv_def store_sample_fields)

lemma slot_store:
  assumes "ring_inv lt"
  shows "slot (store_sample s lt) i = (if lt_count lt < lt_max lt then slot lt i else slot lt (i + 1))"
proof -
  have eq: "((lt_head lt + 1) mod lt_max lt - c + i) mod lt_max lt = (lt_head lt + 1 - c + i) mod lt_max lt" for c
    by (metis (no_types, opaque_lifting) diff_add_eq mod_diff_left_eq mod_add_left_eq)
  show ?thesis
  proof (cases "lt_count lt < lt_max lt")
    case True
    have a: "lt_head lt + 1 - (lt_count lt + 1) + i = lt_head lt - lt_count lt + i" by simp
    show ?thesis unfolding slot_def using True by (simp only: store_sample_fields[OF assms] if_True eq a)
  next
    case False
    have a: "lt_head lt + 1 - lt_count lt + i = lt_head lt - lt_count lt + (i + 1)" by simp
    show ?thesis unfolding slot_def using False by (simp only: store_sample_fields[OF assms] if_False eq a)
  qed
qed

lemma slot_not_head:
  assumes "ring_inv lt" "0 \<le> i" "i < lt_count lt" "lt_count lt < lt_max lt \<or> 0 < i"
  shows "slot lt i \<noteq> lt_head lt"
proof
  assume "slot lt i = lt_head lt"
  then have "(lt_head lt - lt_count lt + i) mod lt_max lt = lt_head lt mod lt_max lt"
    using assms(1) by (simp add: slot_def ring_inv_def)
  then have "lt_max lt dvd (lt_count lt - i)"
    by (metis (no_types, opaque_lifting) add_diff_cancel_left' diff_add_eq diff_diff_eq2 mod_eq_dvd_iff dvd_minus_iff minus_diff_eq add.commute diff_diff_add)
  moreover have "0 < lt_count lt - i" "lt_count lt - i < lt_max lt"
    using assms by (auto simp: ring_inv_def)
  ultimately show False using zdvd_not_zless by blast
qed

lemma slot_head: "ring_inv lt \<Longrightarrow> slot lt (lt_count lt) = lt_head lt"
  by (simp add: slot_def ring_inv_def)

lemma contents_store:
  assumes i: "ring_inv lt"
  shows "contents (store_sample s lt) = take_last (nat (lt_max lt)) (contents lt @ [s])"
proof (rule nth_equalityI)
  show len: "length (contents (store_sample s lt)) = length (take_last (nat (lt_max lt)) (contents lt @ [s]))"
    using i by (auto simp: store_sample_fields ring_inv_def)
  fix k assume "k < length (contents (store_sample s lt))"
  then have k: "k < nat (lt_count (store_sample s lt))" by simp
  have h: "nat (lt_head lt) < length (lt_samples lt)" using i by (auto simp: ring_inv_def)
  have lhs: "contents (store_sample s lt) ! k
      = (lt_samples lt)[nat (lt_head lt) := s] ! nat (slot (store_sample s lt) (int k))"
    using k by (simp add: contents_def store_sample_fields i)
  have at: "(lt_samples lt)[nat (lt_head lt) := s] ! nat (slot lt j) = (if j = lt_count lt then s else contents lt ! nat j)"
    if "0 \<le> j" "j \<le> lt_count lt" "lt_count lt < lt_max lt \<or> 0 < j" for j
  proof (cases "j = lt_count lt")
    case True
    with i h show ?thesis by (simp add: slot_head)
  next
    case False
    then have "slot lt j \<noteq> lt_head lt" using slot_not_head[OF i] that by simp
    then have "nat (slot lt j) \<noteq> nat (lt_head lt)"
      using slot_range[OF i, of j] i by (metis eq_nat_nat_iff ring_inv_def)
    then show ?thesis using False that by (simp add: contents_def)
  qed
  show "contents (store_sample s lt) ! k = take_last (nat (lt_max lt)) (contents lt @ [s]) ! k"
  proof (cases "lt_count lt < lt_max lt")
    case True
    then have "k \<le> nat (lt_count lt)" using k i by (simp add: store_sample_fields ring_inv_def)
    moreover have "Suc (nat (lt_count lt)) \<le> nat (lt_max lt)"
      using True i by (intro Suc_leI) (simp add: ring_inv_def)
    ultimately show ?thesis
      using True i at[of "int k"] by (auto simp: lhs slot_store nth_append ring_inv_def)
  next
    case False
    then have c: "lt_count lt = lt_max lt" using i by (simp add: ring_inv_def)
    then have k': "k < nat (lt_max lt)" using k i by (simp add: store_sample_fields)
    have "take_last (nat (lt_max lt)) (contents lt @ [s]) ! k = (contents lt @ [s]) ! Suc k"
      using k' c by (simp add: nth_take_last)
    also have "\<dots> = (if Suc k = nat (lt_max lt) then s else contents lt ! Suc k)"
      using k' c by (simp add: nth_append)
    finally show ?thesis
      using False i k' c at[of "int k + 1"] by (auto simp: lhs slot_store nat_add_distrib)
  qed
qed

subsection \<open>Recording refines appending to a bounded list\<close>

lemma contents_frame:
  "lt_samples lt = lt_samples lt' \<Longrightarrow> lt_head lt = lt_head lt' \<Longrightarrow> lt_count lt = lt_count lt'
   \<Longrightarrow> lt_max lt = lt_max lt' \<Longrightarrow> contents lt = contents lt'"
  by (simp add: contents_def slot_def)

lemma RecordAt_ring:
  fixes l r t
  assumes i: "ring_inv lt"
  defines "lt' \<equiv> RecordAt l r t lt"
  shows "ring_inv lt'" and "lt_max lt' = lt_max lt" and "lt_buckets lt' = lt_buckets lt"
    and "contents lt' = take_last (nat (lt_max lt)) (contents lt @ [\<lparr>ls_ts = t, ls_ms = l, ls_reach = r, ls_err = []\<rparr>])"
    and "lt_count lt' = (if lt_count lt < lt_max lt then lt_count lt + 1 else lt_count lt)"
    and "lt_errs lt' = lt_errs (evict_old (count_new_error r lt))"
    and "lt_sum lt' = (if r then fadd (lt_sum (evict_old (count_new_error r lt))) l
            else lt_sum (evict_old (count_new_error r lt)))"
proof -
  let ?e = "evict_old (count_new_error r lt)"
  let ?s = "\<lparr>ls_ts = t, ls_ms = l, ls_reach = r, ls_err = []\<rparr>"
  have e: "ring_inv ?e" using i by (simp add: ring_inv_def)
  have c: "contents ?e = contents lt" by (rule contents_frame) simp_all
  have eq: "lt' = store_sample ?s ?e" by (simp add: lt'_def RecordAt_def repair_ok i)
  show "ring_inv lt'" unfolding eq using e by (rule store_sample_inv)
  show "lt_max lt' = lt_max lt" "lt_buckets lt' = lt_buckets lt" "lt_errs lt' = lt_errs ?e"
    "lt_count lt' = (if lt_count lt < lt_max lt then lt_count lt + 1 else lt_count lt)"
    "lt_sum lt' = (if r then fadd (lt_sum ?e) l else lt_sum ?e)"
    unfolding eq by (simp_all add: store_sample_fields[OF e])
  show "contents lt' = take_last (nat (lt_max lt)) (contents lt @ [?s])"
    unfolding eq contents_store[OF e] c by simp
qed

lemma hd_contents:
  "ring_inv lt \<Longrightarrow> lt_count lt = lt_max lt \<Longrightarrow> hd (contents lt) = lt_samples lt ! nat (lt_head lt)"
  by (subst hd_conv_nth) (simp_all add: contents_def slot_def ring_inv_def)

text \<open>The overwritten sample is the oldest of the contents.\<close>

lemma evict_old_hd:
  assumes "ring_inv lt"
  shows "lt_errs (evict_old (count_new_error r lt)) = lt_errs lt + (if r then 0 else 1)
      - (if lt_count lt = lt_max lt \<and> \<not> ls_reach (hd (contents lt)) then 1 else 0)"
    and "lt_sum (evict_old (count_new_error r lt)) =
      (if lt_count lt = lt_max lt \<and> ls_reach (hd (contents lt))
       then fsub (lt_sum lt) (ls_ms (hd (contents lt))) else lt_sum lt)"
  using hd_contents[OF assms]
  by (simp_all add: evict_old_def Let_def count_new_error_def)

lemma contents_nonempty: "ring_inv lt \<Longrightarrow> lt_count lt = lt_max lt \<Longrightarrow> contents lt \<noteq> []"
  by (auto simp: ring_inv_def simp flip: length_greater_0_conv)

lemma RecordAt_contents:
  "ring_inv lt \<Longrightarrow> contents (RecordAt l r t lt)
     = (if lt_count lt < lt_max lt then contents lt else tl (contents lt))
       @ [\<lparr>ls_ts = t, ls_ms = l, ls_reach = r, ls_err = []\<rparr>]"
  by (subst RecordAt_ring(4), assumption, subst take_last_snoc_cases)
    (auto simp: ring_inv_def nat_less_eq_zless)

lemma RecordAt_errs:
  assumes i: "tracker_inv lt" shows "tracker_inv (RecordAt l r t lt)"
proof -
  have ri: "ring_inv lt" and e: "lt_errs lt = int (length (filter (\<lambda>s. \<not> ls_reach s) (contents lt)))"
    using i by (simp_all add: tracker_inv_def)
  show ?thesis
  proof (cases "lt_count lt = lt_max lt")
    case True
    then obtain c cs where "contents lt = c # cs" using contents_nonempty[OF ri] by (cases "contents lt") auto
    with True i show ?thesis using RecordAt_ring[OF ri, of l r t]
      by (simp add: tracker_inv_def RecordAt_contents ri evict_old_hd)
  next
    case False
    then have "lt_count lt < lt_max lt" using ri by (simp add: ring_inv_def)
    with False i show ?thesis using RecordAt_ring[OF ri, of l r t]
      by (simp add: tracker_inv_def RecordAt_contents ri evict_old_hd)
  qed
qed

text \<open>
  One probe result, recorded: the tracker is a bounded log of the results, read through
  its contents.
\<close>

definition record_result :: "f64 \<times> bool \<times> time \<Rightarrow> latency_tracker \<Rightarrow> latency_tracker" where
  "record_result p lt = (case p of (l, r, t) \<Rightarrow> RecordAt l r t lt)"

definition result_sample :: "f64 \<times> bool \<times> time \<Rightarrow> latency_sample" where
  "result_sample p = (case p of (l, r, t) \<Rightarrow> \<lparr>ls_ts = t, ls_ms = l, ls_reach = r, ls_err = []\<rparr>)"

interpretation ring: bounded_log record_result result_sample contents "\<lambda>lt. nat (lt_max lt)" tracker_inv "\<lambda>_. True"
proof
  fix p :: "f64 \<times> bool \<times> time" and lt
  assume i: "tracker_inv lt"
  obtain l r t where p: "p = (l, r, t)" by (cases p) auto
  have ri: "ring_inv lt" using i by (simp add: tracker_inv_def)
  show "tracker_inv (record_result p lt)" by (simp add: record_result_def p RecordAt_errs i)
  show "nat (lt_max (record_result p lt)) = nat (lt_max lt)"
    "contents (record_result p lt) = take_last (nat (lt_max lt)) (contents lt @ [result_sample p])"
    by (simp_all add: record_result_def result_sample_def p RecordAt_ring ri)
next
  fix lt assume "tracker_inv lt"
  then show "length (contents lt) \<le> nat (lt_max lt)"
    by (auto simp: tracker_inv_def ring_inv_def intro: nat_mono)
qed

subsection \<open>The constructor\<close>

lemma mset_bubble: "mset (bubble m xs) = mset xs"
  by (induction m xs rule: bubble.induct) auto

lemma length_bubble [simp]: "length (bubble m xs) = length xs"
  by (metis mset_bubble size_mset)

text \<open>
  After a pass over the first \<open>m + 1\<close> elements the largest of them is at position \<open>m\<close>; the
  rest of the list is untouched.
\<close>

lemma bubble_append: "m < length xs \<Longrightarrow> bubble m (xs @ ys) = bubble m xs @ ys"
  by (induction m xs rule: bubble.induct) auto

lemma last_bubble: "length xs = Suc m \<Longrightarrow> last (bubble m xs) = Max (set xs)"
proof (induction m xs rule: bubble.induct)
  case (1 m x y zs)
  have "bubble m (x # zs) \<noteq> []" "bubble m (y # zs) \<noteq> []"
    by (metis length_bubble list.size(3) length_Cons nat.distinct(1))+
  moreover have "Max (insert x (insert y (set zs))) = Max (insert (max x y) (set zs))"
    by (cases "zs = []") (simp_all add: max.assoc)
  ultimately show ?case using 1 by (auto simp: max_def)
qed (auto simp: length_Suc_conv)

text \<open>The invariant of the outer loop: the last \<open>i\<close> elements are sorted and not smaller than the others.\<close>

definition bubble_inv :: "nat \<Rightarrow> int list \<Rightarrow> bool" where
  "bubble_inv i xs \<longleftrightarrow> sorted (take_last i xs) \<and>
     (\<forall>x \<in> set (take (length xs - i) xs). \<forall>y \<in> set (take_last i xs). x \<le> y)"

lemma bubble_inv_step:
  assumes inv: "bubble_inv i xs" and i: "Suc i < length xs"
  shows "bubble_inv (Suc i) (bubble (length xs - Suc i) xs)"
proof -
  let ?m = "length xs - Suc i" let ?l = "take (length xs - i) xs" let ?r = "take_last i xs"
  have xs: "xs = ?l @ ?r" by (simp add: take_last_def)
  have len: "length ?l = Suc ?m" "length ?r = i" using i by auto
  have b: "bubble ?m xs = bubble ?m ?l @ ?r"
    using bubble_append[of ?m ?l ?r] xs len by simp
  have ne: "bubble ?m ?l \<noteq> []" using len by (metis length_bubble list.size(3) nat.distinct(1))
  let ?b = "butlast (bubble ?m ?l)" let ?x = "last (bubble ?m ?l)"
  have split: "bubble ?m xs = ?b @ ?x # ?r" using b ne by simp
  have mb: "mset ?b + {#?x#} = mset ?l" using mset_bubble[of ?m ?l] ne
    by (metis append_butlast_last_id mset.simps mset_append)
  then have sb: "set ?b \<subseteq> set ?l" "?x \<in> set ?l"
    by (metis mset_subset_eq_add_left set_mset_mono set_mset_mset,
        metis add_mset_add_single union_single_eq_member set_mset_mset)
  have mx: "?x = Max (set ?l)" using len by (intro last_bubble) simp
  have "take_last (Suc i) (bubble ?m xs) = ?x # ?r" "take (length (bubble ?m xs) - Suc i) (bubble ?m xs) = ?b"
    unfolding split using len by (simp_all add: take_last_def)
  moreover have "\<forall>y \<in> set ?r. ?x \<le> y" using inv sb by (auto simp: bubble_inv_def)
  moreover have "\<forall>x \<in> set ?b. x \<le> ?x" using sb mx by auto
  ultimately show ?thesis using inv sb by (fastforce simp: bubble_inv_def)
qed

lemma bubble_loop:
  "i \<le> length xs - 1 \<Longrightarrow> let ys = fold (\<lambda>i. bubble (length xs - i)) [1..<Suc i] xs
     in bubble_inv i ys \<and> mset ys = mset xs \<and> length ys = length xs"
proof (induction i)
  case 0
  then show ?case by (simp add: bubble_inv_def Let_def)
next
  case (Suc i)
  then have "bubble_inv (Suc i) (bubble (length xs - Suc i) (fold (\<lambda>i. bubble (length xs - i)) [1..<Suc i] xs))"
    using bubble_inv_step[of i "fold (\<lambda>i. bubble (length xs - i)) [1..<Suc i] xs"] by (simp add: Let_def)
  with Suc show ?case by (simp add: Let_def mset_bubble)
qed

lemma bubble_sort_sort: "bubble_sort xs = sort xs"
proof (cases "xs = []")
  case False
  define ys where "ys = bubble_sort xs"
  have ys: "bubble_inv (length xs - 1) ys" "mset ys = mset xs" "length ys = length xs"
    using bubble_loop[of "length xs - 1" xs] False by (simp_all add: Let_def ys_def bubble_sort_def)
  obtain x zs where c: "ys = x # zs" using ys(3) False by (cases ys) auto
  then have "take_last (length xs - 1) ys = zs" "take (length ys - (length xs - 1)) ys = [x]"
    using ys(3) by (simp_all add: take_last_def flip: ys(3))
  with ys(1) c have "sorted ys" by (simp add: bubble_inv_def)
  then show ?thesis using ys(2) unfolding ys_def by (metis properties_for_sort)
qed (simp add: bubble_sort_def)

lemma sort_Nil_iff [simp]: "sort xs = [] \<longleftrightarrow> xs = []"
  by (metis length_0_conv length_sort)

lemma NewLatencyTracker_inv:
  assumes "NewLatencyTracker buckets n = Some lt"
  shows "tracker_inv lt" "lt_max lt = n" "0 < n" "contents lt = []" "lt_sum lt = Fin 0"
    "lt_buckets lt = sort buckets"
proof -
  from assms have lt: "lt = \<lparr>lt_buckets = sort buckets, lt_samples = replicate (nat n) zero_sample,
       lt_max = n, lt_head = 0, lt_count = 0, lt_sum = Fin 0, lt_errs = 0\<rparr>" "0 < n" "buckets \<noteq> []"
    by (auto simp: NewLatencyTracker_def bubble_sort_sort split: if_splits)
  moreover from lt have "sort buckets \<noteq> []" by (metis length_0_conv length_sort)
  ultimately show "tracker_inv lt" "lt_max lt = n" "0 < n" "contents lt = []" "lt_sum lt = Fin 0" "lt_buckets lt = sort buckets"
    by (auto simp: tracker_inv_def ring_inv_def contents_def)
qed

subsection \<open>What the tracker promises\<close>

text \<open>
  C14. A new tracker that records any sequence of probe results holds exactly the last
  \<open>maxSamples\<close> of them, oldest first; its ring stays well formed and its running error
  count is the number of failed probes among those it holds.
\<close>

theorem tracker_history:
  fixes ps :: "(f64 \<times> bool \<times> time) list"
  assumes new: "NewLatencyTracker buckets n = Some lt0"
  defines "lt \<equiv> fold record_result ps lt0"
  shows "contents lt = take_last (nat n) (map result_sample ps)
    \<and> ring_inv lt \<and> lt_max lt = n \<and> lt_buckets lt = sort buckets
    \<and> lt_errs lt = int (length (filter (\<lambda>s. \<not> ls_reach s) (contents lt)))"
proof -
  note new0 = NewLatencyTracker_inv[OF new]
  note h = ring.pushes[OF new0(1), of ps, folded lt_def]
  have b: "lt_buckets (fold record_result qs l) = lt_buckets l \<and> lt_max (fold record_result qs l) = lt_max l"
    if "tracker_inv l" for qs l using that
  proof (induction qs arbitrary: l)
    case (Cons q qs)
    obtain v r t where q: "q = (v, r, t)" by (cases q) auto
    have "ring_inv l" using Cons.prems by (simp add: tracker_inv_def)
    then show ?case using Cons.IH[of "record_result q l"] ring.push_ok[OF Cons.prems TrueI, of q]
      by (simp add: record_result_def q RecordAt_ring)
  qed simp
  have "lt_buckets lt = sort buckets" "lt_max lt = n" using b[OF new0(1)] new0 by (simp_all add: lt_def)
  then show ?thesis using h new0 by (simp add: tracker_inv_def)
qed

lemma newest_reads:
  assumes i: "ring_inv lt"
  shows "GetRecentSamples limit lt = take_last (nat limit) (contents lt)"
    "contents lt \<noteq> [] \<Longrightarrow> sn_samples (Snapshot t limit lt) =
       (if limit \<le> 0 then contents lt else take_last (nat limit) (contents lt))"
proof -
  have cap: "int (length (lt_samples lt)) = lt_max lt" "0 < lt_max lt" "lt_count lt \<le> lt_max lt"
    "0 \<le> lt_head lt" "lt_head lt < lt_max lt" "0 \<le> lt_count lt" using i by (auto simp: ring_inv_def)
  show "GetRecentSamples limit lt = take_last (nat limit) (contents lt)"
  proof (cases "limit \<le> 0 \<or> lt_count lt = 0")
    case True
    then show ?thesis using cap by (auto simp: GetRecentSamples_def take_last_def Let_def contents_def)
  next
    case False
    then have m: "0 < min limit (lt_count lt)" "min limit (lt_count lt) \<le> lt_count lt"
      "snapshotLimitLocked lt limit = min limit (lt_count lt)"
      using cap by (auto simp: snapshotLimitLocked_def Let_def)
    have "take_last (nat (min limit (lt_count lt))) (contents lt) = take_last (nat limit) (contents lt)"
      by (cases "limit \<le> lt_count lt") (auto simp: min_def nat_le_iff)
    then show ?thesis using False cap m read_newest[OF i m(1,2)]
      by (simp add: GetRecentSamples_def Let_def)
  qed
  assume "contents lt \<noteq> []"
  then have c0: "lt_count lt \<noteq> 0" using cap by (auto simp: contents_def)
  define l where "l = (if limit \<le> 0 then lt_count lt else min limit (lt_count lt))"
  have l: "0 < l" "l \<le> lt_count lt" using cap c0 by (auto simp: l_def)
  have "sn_samples (Snapshot t limit lt) = take_last (nat l) (contents lt)"
  proof -
    consider "limit \<le> 0" "l = lt_count lt" | "0 < limit" "limit \<le> lt_count lt" "l = limit"
      | "lt_count lt < limit" "l = lt_count lt"
      using cap unfolding l_def by (cases "limit \<le> 0"; cases "limit \<le> lt_count lt") auto
    then show ?thesis using read_newest[OF i l] cap c0 l
      by cases (simp_all add: Snapshot_def Let_def)
  qed
  also have "\<dots> = (if limit \<le> 0 then contents lt else take_last (nat limit) (contents lt))"
    by (cases "limit \<le> lt_count lt") (auto simp: l_def min_def nat_le_iff)
  finally show "sn_samples (Snapshot t limit lt) = \<dots>" .
qed

lemma timestamps_contents:
  assumes i: "ring_inv lt"
  shows "GetSampleTimestamps lt = Some (if contents lt = [] then (None, None)
    else (Some (ls_ts (hd (contents lt))), Some (ls_ts (last (contents lt)))))"
proof (cases "contents lt = []")
  case True
  then have "lt_count lt = 0" using i by (auto simp: contents_def ring_inv_def)
  with True show ?thesis by (simp add: GetSampleTimestamps_def)
next
  case False
  then have c: "0 < nat (lt_count lt)" by (auto simp: contents_def)
  have "ring_sample lt (lt_count lt - 1) = Some (contents lt ! (nat (lt_count lt) - 1))"
    using ring_sample_contents[OF i, of "nat (lt_count lt) - 1"] c by (simp add: nat_diff_distrib)
  moreover have "ring_sample lt 0 = Some (contents lt ! 0)" using ring_sample_contents[OF i, of 0] c by simp
  ultimately show ?thesis using c False by (simp add: GetSampleTimestamps_def hd_conv_nth last_conv_nth)
qed

text \<open>
  The bounded read returns the newest \<open>limit\<close> samples in order, all of them when
  \<open>limit\<close> exceeds the count, none when it is not positive; the snapshot carries the same
  samples, and the timestamps of the oldest and the newest of all stored samples.
\<close>

theorem tracker_reads:
  assumes i: "ring_inv lt"
  shows "GetRecentSamples limit lt = take_last (nat limit) (contents lt)
    \<and> sn_samples (Snapshot t limit lt) =
        (if limit \<le> 0 then contents lt else take_last (nat limit) (contents lt))
    \<and> GetSampleTimestamps lt = Some (if contents lt = [] then (None, None)
        else (Some (ls_ts (hd (contents lt))), Some (ls_ts (last (contents lt)))))
    \<and> (sn_oldest (Snapshot t limit lt), sn_newest (Snapshot t limit lt)) = the (GetSampleTimestamps lt)"
proof -
  have cap: "int (length (lt_samples lt)) = lt_max lt" "0 < lt_max lt" "lt_count lt \<le> lt_max lt"
    "0 \<le> lt_head lt" "lt_head lt < lt_max lt" "0 \<le> lt_count lt" using i by (auto simp: ring_inv_def)
  show ?thesis
  proof (cases "contents lt = []")
    case True
    then have "lt_count lt = 0" using cap by (auto simp: contents_def)
    then show ?thesis using True by (simp add: newest_reads(1)[OF i] timestamps_contents[OF i] Snapshot_def)
  next
    case False
    then have c: "0 < nat (lt_count lt)" by (auto simp: contents_def)
    have o1: "hd (contents lt) = lt_samples lt ! nat (go_rem (lt_head lt - lt_count lt + lt_max lt) (lt_max lt))"
      using False c go_rem_slot[OF i, of 0] by (simp add: hd_conv_nth contents_def)
    have "last (contents lt) = lt_samples lt ! nat (slot lt (lt_count lt - 1))"
      using False c by (simp add: last_conv_nth) (simp add: contents_def nat_diff_distrib)
    then have o2: "last (contents lt) = lt_samples lt ! nat (go_rem (lt_head lt - 1 + lt_max lt) (lt_max lt))"
      using go_rem_slot[OF i, of "lt_count lt - 1"] c by (simp add: algebra_simps)
    have "sn_oldest (Snapshot t limit lt) = Some (ls_ts (hd (contents lt)))
       \<and> sn_newest (Snapshot t limit lt) = Some (ls_ts (last (contents lt)))"
      using cap c unfolding o1 o2 by (simp add: Snapshot_def Let_def)
    then show ?thesis using newest_reads[OF i] timestamps_contents[OF i] False by simp
  qed
qed

text \<open>
  Recording fails closed. On a tracker whose fields are corrupt in any way a recording
  leaves it alone when \<open>maxSamples\<close> is not positive, and otherwise ends with a
  well-formed ring that holds the new sample last.
\<close>

theorem RecordAt_fail_closed:
  "if lt_max lt \<le> 0 then RecordAt l r t lt = lt
   else ring_inv (RecordAt l r t lt) \<and> lt_max (RecordAt l r t lt) = lt_max lt
     \<and> GetRecentSamples 1 (RecordAt l r t lt) = [\<lparr>ls_ts = t, ls_ms = l, ls_reach = r, ls_err = []\<rparr>]"
proof (cases "lt_max lt \<le> 0")
  case True
  then show ?thesis by (simp add: RecordAt_def validateAndRepairLocked_def)
next
  case False
  obtain ok lt' where r: "validateAndRepairLocked lt = (ok, lt')" by fastforce
  then have ok: "ok" "ring_inv lt' \<and> lt_max lt' = lt_max lt"
    using False repair_establishes[of lt lt'] by (auto simp: validateAndRepairLocked_def)
  then have eq: "RecordAt l r t lt = RecordAt l r t lt'"
    using r by (simp add: RecordAt_def repair_ok)
  have ri: "ring_inv lt'" using ok by simp
  have "take_last (Suc 0) (contents (RecordAt l r t lt')) = [\<lparr>ls_ts = t, ls_ms = l, ls_reach = r, ls_err = []\<rparr>]"
    by (simp add: RecordAt_contents ri take_last_def)
  then show ?thesis using False ok RecordAt_ring[OF ri, of l r t]
    by (simp add: eq newest_reads(1))
qed

subsection \<open>The summary\<close>

lemma first_bucket_less: "first_bucket bs v = Some i \<Longrightarrow> i < length bs"
  by (induction bs arbitrary: i) (auto split: if_splits)

lemma sum_list_incr:
  "i < length xs \<Longrightarrow> sum_list (xs[i := xs ! i + 1]) = sum_list xs + (1 :: int)"
  by (induction xs arbitrary: i) (auto split: nat.splits)

lemma histogram_fold:
  "bs \<noteq> [] \<Longrightarrow> length counts = length bs \<Longrightarrow>
   length (fold (count_value bs) vals counts) = length bs
   \<and> sum_list (fold (count_value bs) vals counts) = sum_list counts + int (length vals)"
proof (induction vals arbitrary: counts)
  case (Cons v vals)
  have "bucket_of bs v < length counts" using Cons.prems first_bucket_less[of bs v]
    by (auto simp: bucket_of_def split: option.splits)
  then show ?case using Cons.IH[of "count_value bs v counts"] Cons.prems
    by (simp add: count_value_def sum_list_incr)
qed simp

lemma histogram_total:
  "bs \<noteq> [] \<Longrightarrow> length (histogram_counts bs vals) = length bs
     \<and> sum_list (histogram_counts bs vals) = int (length vals)"
  using histogram_fold[of bs "replicate (length bs) 0" vals]
  by (simp add: histogram_counts_def sum_list_replicate)

lemma length_insert_back [simp]: "length (insert_back v us) = Suc (length us)"
  by (induction us) auto

lemma length_insertion_sorted [simp]: "length (insertion_sorted vals) = length vals"
proof -
  have "length (fold insert_back vs us) = length vs + length us" for vs us
    by (induction vs arbitrary: us) simp_all
  then show ?thesis by (simp add: insertion_sorted_def)
qed

text \<open>The successful latencies of a tracker, and the window the domain package makes of them.\<close>

definition successes :: "latency_tracker \<Rightarrow> f64 list" where
  "successes lt = map ls_ms (filter ls_reach (contents lt))"

lemma filter_lengths: "length (filter P xs) + length (filter (\<lambda>x. \<not> P x) xs) = length xs"
  by (induction xs) auto

lemma success_count:
  assumes i: "tracker_inv lt"
  shows "lt_count lt - lt_errs lt = int (length (filter ls_reach (contents lt)))"
proof -
  have "length (filter ls_reach (contents lt)) + length (filter (\<lambda>s. \<not> ls_reach s) (contents lt))
      = nat (lt_count lt)" using filter_lengths[of ls_reach "contents lt"] by simp
  moreover have "int (nat (lt_count lt)) = lt_count lt" using i ring_inv_int by (simp add: tracker_inv_def)
  ultimately show ?thesis using i unfolding tracker_inv_def by linarith
qed

lemma GetSummary_contents:
  assumes i: "tracker_inv lt" and n: "contents lt \<noteq> []"
  shows "GetSummary t lt = Some (summarize t lt (contents lt))"
proof -
  have ri: "ring_inv lt" using i by (simp add: tracker_inv_def)
  have c: "lt_count lt > 0" using n by (simp add: contents_def)
  show ?thesis using c i ring_samples_contents[OF ri] success_count[OF i]
    by (simp add: GetSummary_def tracker_inv_def)
qed

text \<open>
  The summary never panics on a well-formed tracker: it counts every stored sample and
  every failure, each sample falls into exactly one histogram bucket, and the histogram has
  one count per bucket boundary.
\<close>

theorem GetSummary_counts:
  assumes i: "tracker_inv lt"
  shows "\<exists>su. GetSummary t lt = Some su \<and> su_count su = int (length (contents lt))
    \<and> su_count su - su_errs su = (if contents lt = [] then 0 else int (length (successes lt)))
    \<and> h_buckets (su_hist su) = lt_buckets lt
    \<and> length (h_counts (su_hist su)) = length (lt_buckets lt)
    \<and> sum_list (h_counts (su_hist su)) = su_count su"
proof (cases "contents lt = []")
  case True
  then have "lt_count lt = 0" using i by (auto simp: contents_def tracker_inv_def ring_inv_def)
  then show ?thesis using True by (simp add: GetSummary_def empty_summary_def sum_list_replicate)
next
  case False
  have ri: "ring_inv lt" and b: "lt_buckets lt \<noteq> []" using i by (simp_all add: tracker_inv_def)
  note d = success_count[OF i]
  have c: "int (nat (lt_count lt)) = lt_count lt" by (rule ring_inv_int[OF ri])
  show ?thesis using GetSummary_contents[OF i False, of t] d c False
    by (simp add: summarize_def Let_def empty_summary_def successes_def histogram_total[OF b])
qed

text \<open>Whole-millisecond probes: the running float sum is then exact.\<close>

definition ms_int :: "latency_sample \<Rightarrow> int" where
  "ms_int s = (case ls_ms s of Fin q \<Rightarrow> \<lfloor>q\<rfloor> | _ \<Rightarrow> 0)"

definition whole_ms :: "int \<Rightarrow> latency_sample \<Rightarrow> bool" where
  "whole_ms B s \<longleftrightarrow> ls_ms s = Fin (of_int (ms_int s)) \<and> 0 \<le> ms_int s \<and> ms_int s \<le> B"

definition ok_sum :: "latency_sample list \<Rightarrow> int" where
  "ok_sum cs = sum_list (map ms_int (filter ls_reach cs))"

definition sum_inv :: "int \<Rightarrow> latency_tracker \<Rightarrow> bool" where
  "sum_inv B lt \<longleftrightarrow> tracker_inv lt \<and> (\<forall>s \<in> set (contents lt). whole_ms B s)
     \<and> lt_sum lt = Fin (of_int (ok_sum (contents lt)))"

lemma ok_sum_bounds: "0 \<le> B \<Longrightarrow> \<forall>s \<in> set cs. whole_ms B s \<Longrightarrow> 0 \<le> ok_sum cs \<and> ok_sum cs \<le> int (length cs) * B"
  by (induction cs) (auto simp: ok_sum_def whole_ms_def algebra_simps intro: add_mono)

lemma fadd_int: "\<bar>a + b\<bar> \<le> 2 ^ 53 \<Longrightarrow> fadd (Fin (of_int a)) (Fin (of_int b)) = Fin (of_int (a + b))"
  using round64_of_int[of "a + b"] by simp

lemma fsub_int: "\<bar>a - b\<bar> \<le> 2 ^ 53 \<Longrightarrow> fsub (Fin (of_int a)) (Fin (of_int b)) = Fin (of_int (a - b))"
  using round64_of_int[of "a - b"] by (simp add: fsub_def)

lemma sum_inv_record:
  assumes inv: "sum_inv B lt" and B: "0 \<le> B" "lt_max lt * B \<le> 2 ^ 53" and w: "whole_ms B (result_sample p)"
  shows "sum_inv B (record_result p lt)"
proof -
  obtain l r t where p: "p = (l, r, t)" by (cases p) auto
  let ?s = "\<lparr>ls_ts = t, ls_ms = l, ls_reach = r, ls_err = []\<rparr>"
  have i: "tracker_inv lt" and all: "\<forall>s \<in> set (contents lt). whole_ms B s"
    and sum: "lt_sum lt = Fin (of_int (ok_sum (contents lt)))" using inv by (simp_all add: sum_inv_def)
  have ri: "ring_inv lt" using i by (simp add: tracker_inv_def)
  have ws: "whole_ms B ?s" using w by (simp add: p result_sample_def)
  let ?k = "if lt_count lt < lt_max lt then contents lt else tl (contents lt)"
  have k: "\<forall>s \<in> set ?k. whole_ms B s" using all by (cases "contents lt") auto
  have small: "0 \<le> ok_sum cs \<and> ok_sum cs \<le> 2 ^ 53"
    if "\<forall>s \<in> set cs. whole_ms B s" "int (length cs) \<le> lt_max lt" for cs
  proof -
    have "int (length cs) * B \<le> lt_max lt * B" using that(2) B by (intro mult_right_mono)
    with B ok_sum_bounds[OF B(1) that(1)] show ?thesis by simp
  qed
  have len: "int (length (contents lt)) \<le> lt_max lt" "int (length (?k @ [?s])) \<le> lt_max lt"
    using ri by (auto simp: ring_inv_def)
  have e: "lt_sum (evict_old (count_new_error r lt)) = Fin (of_int (ok_sum ?k))"
  proof (cases "lt_count lt < lt_max lt")
    case True
    then show ?thesis using sum by (simp add: evict_old_hd[OF ri])
  next
    case False
    then have f: "lt_count lt = lt_max lt" using ri by (simp add: ring_inv_def)
    then obtain c cs where c: "contents lt = c # cs" using contents_nonempty[OF ri] by (cases "contents lt") auto
    have "0 \<le> ok_sum cs" "ok_sum cs \<le> 2 ^ 53" using small[of cs] all len(1) by (simp_all add: c)
    then show ?thesis using f c sum all fsub_int[of "ok_sum (contents lt)" "ms_int c"]
      by (auto simp: evict_old_hd[OF ri] ok_sum_def whole_ms_def)
  qed
  have cont: "contents (record_result p lt) = ?k @ [?s]"
    by (simp add: record_result_def p RecordAt_contents ri)
  have "lt_sum (record_result p lt) = (if r then fadd (Fin (of_int (ok_sum ?k))) l else Fin (of_int (ok_sum ?k)))"
    using RecordAt_ring(7)[OF ri, of l r t] unfolding e by (simp add: record_result_def p)
  also have "\<dots> = Fin (of_int (ok_sum (?k @ [?s])))"
  proof (cases r)
    case True
    have "0 \<le> ok_sum (?k @ [?s])" "ok_sum (?k @ [?s]) \<le> 2 ^ 53"
      using small[of "?k @ [?s]"] k ws len(2) by auto
    moreover have "ok_sum (?k @ [?s]) = ok_sum ?k + ms_int ?s" using True by (simp add: ok_sum_def)
    moreover have "l = Fin (of_int (ms_int ?s))" using ws by (simp add: whole_ms_def)
    ultimately show ?thesis using True fadd_int[of "ok_sum ?k" "ms_int ?s"] by simp
  qed (simp add: ok_sum_def)
  finally show ?thesis using k ws ring.push_ok[OF i TrueI, of p]
    by (auto simp: sum_inv_def cont)
qed

lemma sum_inv_history:
  assumes "sum_inv B lt" "0 \<le> B" "lt_max lt * B \<le> 2 ^ 53" "\<forall>p \<in> set ps. whole_ms B (result_sample p)"
  shows "sum_inv B (fold record_result ps lt)"
  using assms
proof (induction ps arbitrary: lt)
  case (Cons p ps)
  have "ring_inv lt" using Cons.prems(1) by (simp add: sum_inv_def tracker_inv_def)
  then have "lt_max (record_result p lt) = lt_max lt"
    by (cases p) (simp add: record_result_def RecordAt_ring)
  with Cons show ?case by (simp add: sum_inv_record)
qed simp

text \<open>
  The reported average is exact. When every probe took a whole number of
  milliseconds, at most \<open>B\<close>, and \<open>maxSamples * B\<close> does not exceed 2^53, no rounding
  error accumulates in the running sum however many samples have been recorded and evicted:
  the average is the rounded quotient of the exact sum of the stored successes.
\<close>

theorem summary_average_exact:
  assumes new: "NewLatencyTracker buckets n = Some lt0" and B: "0 \<le> B" "n * B \<le> 2 ^ 53"
    and ps: "\<forall>p \<in> set ps. whole_ms B (result_sample p)"
    and ok: "successes (fold record_result ps lt0) \<noteq> []"
  shows "\<exists>su. GetSummary t (fold record_result ps lt0) = Some su \<and>
    su_avg su = fdiv (Fin (of_int (ok_sum (take_last (nat n) (map result_sample ps)))))
      (f_of_int (int (length (filter ls_reach (take_last (nat n) (map result_sample ps))))))"
proof -
  let ?lt = "fold record_result ps lt0"
  note new0 = NewLatencyTracker_inv[OF new]
  have "sum_inv B lt0" using new0 by (simp add: sum_inv_def ok_sum_def)
  then have inv: "sum_inv B ?lt" using sum_inv_history[of B lt0 ps] new0 B ps by simp
  then have i: "tracker_inv ?lt" by (simp add: sum_inv_def)
  have c: "contents ?lt = take_last (nat n) (map result_sample ps)" using ring.pushes[OF new0(1)] new0 by simp
  have ok': "contents ?lt \<noteq> []" "filter ls_reach (contents ?lt) \<noteq> []" using ok by (auto simp: successes_def)
  show ?thesis using GetSummary_contents[OF i ok'(1), of t] ok'(2) inv
    by (simp add: summarize_def Let_def empty_summary_def sum_inv_def flip: c)
qed

subsection \<open>The domain window of a tracker\<close>

text \<open>\<open>domain_integration.go\<close>: the conversion of stored samples, and the window of a tracker.\<close>

definition LatencySampleToDomainSample :: "latency_sample \<Rightarrow> sample" where
  "LatencySampleToDomainSample s =
     (if \<not> ls_reach s then \<lparr>s_at = ls_ts s, s_kind = [], s_latency = zero_latency, s_ok = False, s_err = ls_err s\<rparr>
      else case NewLatencyMillis (ls_ms s) of
        None \<Rightarrow> \<lparr>s_at = ls_ts s, s_kind = [], s_latency = zero_latency, s_ok = False, s_err = ''invalid latency value''\<rparr>
      | Some l \<Rightarrow> \<lparr>s_at = ls_ts s, s_kind = ProbeKindHTTP, s_latency = l, s_ok = True, s_err = []\<rparr>)"

definition LatencySampleToDomainSampleWithKind :: "latency_sample \<Rightarrow> string \<Rightarrow> sample" where
  "LatencySampleToDomainSampleWithKind s kind = (LatencySampleToDomainSample s)\<lparr>s_kind := kind\<rparr>"

definition GetSampleWindow :: "int \<Rightarrow> latency_tracker \<Rightarrow> sample_window" where
  "GetSampleWindow limit lt =
     (let samples = GetRecentSamples limit lt
      in if length samples = 0 then empty_window
         else NewSampleWindow (map LatencySampleToDomainSample samples))"

lemma latencies_window:
  "latencies (NewSampleWindow (map LatencySampleToDomainSample cs))
   = map ls_ms (filter (\<lambda>s. ls_reach s \<and> NewLatencyMillis (ls_ms s) \<noteq> None) cs)"
  by (induction cs)
    (auto simp: latencies_def NewSampleWindow_def LatencySampleToDomainSample_def NewLatencyMillis_Some
      split: option.splits)

lemma window_latencies:
  assumes "ring_inv lt" "lt_count lt \<le> limit" "\<forall>s \<in> set (contents lt). ls_reach s \<longrightarrow> NewLatencyMillis (ls_ms s) \<noteq> None"
  shows "latencies (GetSampleWindow limit lt) = successes lt"
proof -
  have r: "GetRecentSamples limit lt = contents lt"
    using assms by (simp add: newest_reads(1) nat_mono)
  have f: "filter (\<lambda>s. ls_reach s \<and> NewLatencyMillis (ls_ms s) \<noteq> None) (contents lt) = filter ls_reach (contents lt)"
    using assms(3) by (intro filter_cong) auto
  have "latencies (NewSampleWindow (map LatencySampleToDomainSample (contents lt))) = successes lt"
    by (simp only: latencies_window f successes_def)
  then show ?thesis
    by (auto simp: GetSampleWindow_def r Let_def) (simp add: latencies_def empty_window_def successes_def)
qed

lemma calc_percentile_interpolate: "calc_percentile v p = interpolate p v"
  by (simp add: calc_percentile_def interpolate_def percentile_rank_def Let_def)

text \<open>
  Two implementations agree. On the samples of a tracker, the median and the 90th,
  95th and 99th percentiles that the HTTP API reports (\<open>GetSummary\<close>) are the floats that
  the domain package computes from the tracker's sample window.
\<close>

theorem summary_agrees_with_window:
  assumes i: "tracker_inv lt" and c: "successes lt \<noteq> []" and l: "lt_count lt \<le> limit"
    and ok: "\<forall>s \<in> set (contents lt). ls_reach s \<longrightarrow> NewLatencyMillis (ls_ms s) \<noteq> None"
  shows "\<exists>su. GetSummary t lt = Some su
    \<and> Median (GetSampleWindow limit lt) = NewLatencyMillis (su_median su)
    \<and> P90 (GetSampleWindow limit lt) = Option.bind (su_p90 su) NewLatencyMillis
    \<and> P95 (GetSampleWindow limit lt) = Option.bind (su_p95 su) NewLatencyMillis
    \<and> P99 (GetSampleWindow limit lt) = Option.bind (su_p99 su) NewLatencyMillis"
proof -
  let ?w = "GetSampleWindow limit lt" let ?so = "sort (successes lt)"
  have ri: "ring_inv lt" using i by (simp add: tracker_inv_def)
  have w: "latencies ?w = successes lt" using window_latencies[OF ri l ok] .
  then have n: "length (w_samples ?w) = length (successes lt)" by (metis length_latencies Len_def)
  have len: "length (successes lt) \<noteq> 0" using c by simp
  have su: "GetSummary t lt = Some (summarize t lt (contents lt))"
    using c by (intro GetSummary_contents[OF i]) (auto simp: successes_def)
  let ?su = "summarize t lt (contents lt)"
  have s1: "su_median ?su = mid_value ?so" "su_p90 ?su = Some (calc_percentile ?so (Fin 90))"
    "su_p95 ?su = Some (calc_percentile ?so (Fin 95))" "su_p99 ?su = Some (calc_percentile ?so (Fin 99))"
  proof -
    have "length ?so \<noteq> 0" using len by simp
    then show "su_median ?su = mid_value ?so" "su_p90 ?su = Some (calc_percentile ?so (Fin 90))"
      "su_p95 ?su = Some (calc_percentile ?so (Fin 95))" "su_p99 ?su = Some (calc_percentile ?so (Fin 99))"
      by (simp_all add: summarize_def Let_def CalculatePercentiles_def empty_summary_def flip: successes_def)
  qed
  have "Median ?w = NewLatencyMillis (mid_value ?so)"
    using len by (simp add: Median_def n w mid_value_def Let_def)
  moreover have "percentile ?w (Fin p) = NewLatencyMillis (calc_percentile ?so (Fin p))" for p
    using len by (simp add: percentile_def n w calc_percentile_interpolate)
  ultimately show ?thesis using su by (simp add: s1 P90_def P95_def P99_def)
qed

subsection \<open>Concrete instances\<close>

lemma tracker_history_witness:
  "contents (fold record_result [(Fin 5, True, 1), (Fin 0, False, 2), (Fin 7, True, 3)]
      (the (NewLatencyTracker [50, 10] 2)))
   = [\<lparr>ls_ts = 2, ls_ms = Fin 0, ls_reach = False, ls_err = []\<rparr>, \<lparr>ls_ts = 3, ls_ms = Fin 7, ls_reach = True, ls_err = []\<rparr>]"
proof -
  obtain lt0 where n: "NewLatencyTracker [50, 10] 2 = Some lt0" by (simp add: NewLatencyTracker_def)
  show ?thesis using tracker_history[OF n, of "[(Fin 5, True, 1), (Fin 0, False, 2), (Fin 7, True, 3)]"]
    by (simp add: n result_sample_def take_last_def)
qed

text \<open>A tracker of capacity 2 that holds a failed and a successful probe.\<close>

definition tracker_example :: latency_tracker where
  "tracker_example = \<lparr>lt_buckets = [10, 50],
     lt_samples = [\<lparr>ls_ts = 3, ls_ms = Fin 7, ls_reach = True, ls_err = []\<rparr>,
                   \<lparr>ls_ts = 2, ls_ms = Fin 0, ls_reach = False, ls_err = []\<rparr>],
     lt_max = 2, lt_head = 1, lt_count = 2, lt_sum = Fin 7, lt_errs = 1\<rparr>"

lemma contents_example:
  "contents tracker_example = [\<lparr>ls_ts = 2, ls_ms = Fin 0, ls_reach = False, ls_err = []\<rparr>,
     \<lparr>ls_ts = 3, ls_ms = Fin 7, ls_reach = True, ls_err = []\<rparr>]"
  by (simp add: contents_def tracker_example_def slot_def upt_rec numeral_2_eq_2)

lemma tracker_example_inv: "tracker_inv tracker_example"
  using contents_example by (simp add: tracker_inv_def ring_inv_def) (simp add: tracker_example_def)

lemma tracker_reads_witness:
  "GetRecentSamples 1 tracker_example = [\<lparr>ls_ts = 3, ls_ms = Fin 7, ls_reach = True, ls_err = []\<rparr>]
   \<and> GetSampleTimestamps tracker_example = Some (Some 2, Some 3)"
proof -
  have "ring_inv tracker_example" using tracker_example_inv by (simp add: tracker_inv_def)
  from tracker_reads[OF this, of 1] show ?thesis by (simp add: contents_example take_last_def)
qed

lemma GetSummary_counts_witness:
  "\<exists>su. GetSummary ''t'' tracker_example = Some su \<and> su_count su = 2 \<and> sum_list (h_counts (su_hist su)) = 2"
  using GetSummary_counts[OF tracker_example_inv, of "''t''"] by (auto simp: contents_example)

lemma summary_average_exact_witness:
  "\<exists>su. GetSummary ''t'' (fold record_result [(Fin 6, True, 1), (Fin 8, True, 2)] (the (NewLatencyTracker [50] 2))) = Some su
     \<and> su_avg su = fdiv (Fin 14) (f_of_int 2)"
proof -
  let ?ps = "[(Fin 6, True, 1), (Fin 8, True, 2)]"
  obtain lt0 where n: "NewLatencyTracker [50] 2 = Some lt0" by (simp add: NewLatencyTracker_def)
  have c: "contents (fold record_result ?ps lt0) = map result_sample ?ps"
    using ring.pushes[OF NewLatencyTracker_inv(1)[OF n], of ?ps] NewLatencyTracker_inv[OF n] by simp
  have h: "\<forall>p \<in> set ?ps. whole_ms 8 (result_sample p)"
    by (simp add: whole_ms_def ms_int_def result_sample_def)
  have ok: "successes (fold record_result ?ps lt0) \<noteq> []"
    unfolding successes_def c by (simp add: result_sample_def)
  from summary_average_exact[OF n, of 8 ?ps, OF _ _ h ok] show ?thesis
    by (simp add: n ok_sum_def ms_int_def result_sample_def)
qed

lemma summary_agrees_with_window_witness:
  "\<exists>su. GetSummary ''t'' tracker_example = Some su
     \<and> Median (GetSampleWindow 2 tracker_example) = NewLatencyMillis (su_median su)"
proof -
  have c: "successes tracker_example \<noteq> []" by (simp add: successes_def contents_example)
  have l: "lt_count tracker_example \<le> 2" by (simp add: tracker_example_def)
  have ok: "\<forall>s \<in> set (contents tracker_example). ls_reach s \<longrightarrow> NewLatencyMillis (ls_ms s) \<noteq> None"
    by (simp add: contents_example)
  show ?thesis using summary_agrees_with_window[OF tracker_example_inv c l ok, of "''t''"] by blast
qed

end
