(* ===== verification/Diag_Types.thy ===== *)
theory Diag_Types
  imports Float64
begin

section \<open>The data the components exchange\<close>

text \<open>
  The structs of \<open>uvb76/state\<close> that carry evidence and have no operations of their own:
  HTTP traces, TCP quality, probe routes, the network diagnosis a peer returns, and the
  diagnostic capture with its cooldown metadata. Each is a record with the fields of the
  Go struct in its order. A pointer field is an option, a \<open>time.Time\<close> a \<open>time\<close>, an
  integer an \<open>int\<close>.
\<close>

subsection \<open>\<open>http_trace.go\<close>, \<open>tcp_quality.go\<close>, \<open>probe_route.go\<close>\<close>

record http_trace =
  ht_kind :: string
  ht_url_host :: string
  ht_remote_addr :: string
  ht_dns_ms :: f64
  ht_tcp_connect_ms :: f64
  ht_tls_handshake_ms :: f64
  ht_got_conn_ms :: f64
  ht_ttfb_ms :: f64
  ht_body_read_ms :: f64
  ht_total_ms :: f64
  ht_reused :: bool
  ht_was_idle :: bool
  ht_http_status :: int
  ht_bytes_read :: int
  ht_body_truncated :: bool
  ht_error :: string

record tcp_quality =
  tq_kind :: string
  tq_lookup_target :: string
  tq_matched :: bool
  tq_source :: string
  tq_match_count :: "int option"
  tq_state :: string
  tq_local :: string
  tq_remote :: string
  tq_sendq :: "int option"
  tq_recvq :: "int option"
  tq_rtt_us :: "int option"
  tq_rttvar_us :: "int option"
  tq_retrans_current :: "int option"
  tq_retrans_total :: "int option"
  tq_unacked :: "int option"
  tq_lost :: "int option"
  tq_sacked :: "int option"
  tq_reordering :: "int option"
  tq_cwnd :: "int option"
  tq_ssthresh :: "int option"
  tq_delivery_bps :: "int option"
  tq_algorithm :: string
  tq_error_kind :: string
  tq_error :: string
  tq_collected_at :: string

definition TcpQualityErrorTargetUnresolved :: string where [simp]: "TcpQualityErrorTargetUnresolved = ''target_unresolved''"
definition TcpQualityErrorNoData :: string where [simp]: "TcpQualityErrorNoData = ''no_data''"
definition TcpQualityErrorNoMatchingSocket :: string where [simp]: "TcpQualityErrorNoMatchingSocket = ''no_matching_socket''"
definition TcpQualityErrorParseFailed :: string where [simp]: "TcpQualityErrorParseFailed = ''parse_failed''"

text \<open>The struct with every field that the code leaves out at its zero value.\<close>

definition tcp_quality_base :: "string \<Rightarrow> string \<Rightarrow> bool \<Rightarrow> string \<Rightarrow> tcp_quality" where
  "tcp_quality_base kind target matched stamp =
     \<lparr>tq_kind = kind, tq_lookup_target = target, tq_matched = matched, tq_source = ''ss-tcp-info'',
      tq_match_count = None, tq_state = [], tq_local = [], tq_remote = [], tq_sendq = None,
      tq_recvq = None, tq_rtt_us = None, tq_rttvar_us = None, tq_retrans_current = None,
      tq_retrans_total = None, tq_unacked = None, tq_lost = None, tq_sacked = None,
      tq_reordering = None, tq_cwnd = None, tq_ssthresh = None, tq_delivery_bps = None,
      tq_algorithm = [], tq_error_kind = [], tq_error = [], tq_collected_at = stamp\<rparr>"

text \<open>The constructors take the formatted current time, which the code reads from the clock.\<close>

definition NewTcpQualityUnavailable :: "string \<Rightarrow> string \<Rightarrow> string \<Rightarrow> string \<Rightarrow> string \<Rightarrow> tcp_quality" where
  "NewTcpQualityUnavailable stamp kind target errorKind errMsg =
     (tcp_quality_base kind target False stamp)\<lparr>tq_error_kind := errorKind, tq_error := errMsg\<rparr>"

definition NewTcpQualitySuccess :: "string \<Rightarrow> string \<Rightarrow> string \<Rightarrow> tcp_quality" where
  "NewTcpQualitySuccess stamp kind target = tcp_quality_base kind target True stamp"

record probe_route =
  pr_kind :: string
  pr_probe_host :: string
  pr_resolved_ip :: string
  pr_lookup_target :: string
  pr_ok :: bool
  pr_route_type :: string
  pr_interface :: string
  pr_source_ip :: string
  pr_gateway :: string
  pr_table :: string
  pr_mtu :: "int option"
  pr_uid :: "int option"
  pr_error :: string
  pr_error_kind :: string
  pr_collected_at :: string

subsection \<open>\<open>diag_capture_projection.go\<close>: the network diagnosis of a peer\<close>

record wg_peer_diag =
  wp_public_key :: string
  wp_endpoint :: string
  wp_allowed_ips :: string
  wp_latest_handshake_at :: "string option"
  wp_latest_handshake_age :: "int option"
  wp_rx_bytes :: int
  wp_tx_bytes :: int

record wg_interface_diag =
  wi_name :: string
  wi_status :: string
  wi_peers :: "wg_peer_diag list"

record wireguard_diag =
  wg_status :: string
  wg_interfaces :: "wg_interface_diag list"

record interface_diag =
  id_name :: string
  id_oper_state :: string
  id_carrier :: "bool option"
  id_rx_bytes :: int
  id_tx_bytes :: int
  id_rx_packets :: int
  id_tx_packets :: int
  id_rx_errors :: int
  id_tx_errors :: int
  id_rx_dropped :: int
  id_tx_dropped :: int

record route_diag =
  rd_target :: string
  rd_interface :: string
  rd_source :: string
  rd_gateway :: "string option"
  rd_status :: string

record tcp_socket_diag =
  ts_name :: string
  ts_state :: string
  ts_local :: string
  ts_remote :: string
  ts_rtt_ms :: "f64 option"
  ts_rttvar_ms :: "f64 option"
  ts_rto_ms :: "int option"
  ts_retransmits :: "int option"
  ts_unacked :: "int option"
  ts_cwnd :: "int option"
  ts_sendq :: "int option"
  ts_recvq :: "int option"
  ts_status :: string

record diag_event =
  de_timestamp :: string
  de_severity :: string
  de_source :: string
  de_message :: string
  de_fields :: "string option"

record network_diag =
  nd_started_at :: string
  nd_status :: string
  nd_wireguard :: "wireguard_diag option"
  nd_interfaces :: "interface_diag list"
  nd_routes :: "route_diag list"
  nd_underlay_tcp :: "tcp_socket_diag list"
  nd_events :: "diag_event list"

subsection \<open>\<open>diag_capture_status.go\<close>\<close>

definition DiagCaptureStatusOK :: string where [simp]: "DiagCaptureStatusOK = ''ok''"
definition DiagCaptureStatusUnavailable :: string where [simp]: "DiagCaptureStatusUnavailable = ''unavailable''"
definition DiagCaptureStatusTimeout :: string where [simp]: "DiagCaptureStatusTimeout = ''timeout''"
definition DiagCaptureStatusError :: string where [simp]: "DiagCaptureStatusError = ''error''"
definition DiagCaptureStatusDisabled :: string where [simp]: "DiagCaptureStatusDisabled = ''disabled''"
definition DiagCaptureStatusNoPeerMapping :: string where [simp]: "DiagCaptureStatusNoPeerMapping = ''no_peer_mapping''"

subsection \<open>\<open>cooldown.go\<close>, \<open>cooldown_summary.go\<close>, \<open>diag_capture.go\<close>\<close>

record anchor_event_summary =
  as_event_id :: string
  as_capture_id :: string
  as_probe_kind :: string
  as_severity :: string
  as_latency_ms :: f64
  as_sample_ts :: time
  as_capture_status :: string
  as_source :: string
  as_captured_at :: time

record cooldown_anchor =
  ca_event_id :: string
  ca_capture_id :: string
  ca_target_id :: string
  ca_probe_kind :: string
  ca_source :: string
  ca_updated_by :: string
  ca_created_at :: time
  ca_completed_at :: "time option"
  ca_created_from :: string
  ca_is_warmup :: bool
  ca_retained :: bool

record cooldown_info =
  ci_scope :: string
  ci_last_success :: "time option"
  ci_next_eligible :: "time option"
  ci_source_spike_id :: string
  ci_source_retained :: bool
  ci_source_target_id :: string
  ci_cooldown_seconds :: int
  ci_remaining_ms :: "int option"
  ci_skipped_updates :: bool
  ci_capture_key :: string
  ci_decision_now :: "time option"
  ci_anchor_visible :: bool
  ci_artifact_visible :: bool
  ci_timeline_visible :: bool
  ci_visibility_reason :: string
  ci_anchor_capture_id :: string
  ci_anchor_target_id :: string
  ci_anchor_probe_kind :: string
  ci_anchor_source :: string
  ci_suppressed_kind :: string
  ci_cross_probe :: bool
  ci_anchor_created_at :: "time option"
  ci_updated_by :: string
  ci_created_from :: string
  ci_is_warmup :: bool
  ci_summary :: "anchor_event_summary option"
  ci_degraded :: bool
  ci_degraded_reason :: string

record tcp_absence_event =
  ta_reason_code :: string
  ta_source :: string
  ta_expected_peer :: string
  ta_expected_port :: "int option"
  ta_probe_kind :: string
  ta_command_tool :: string
  ta_raw_match_count :: "int option"
  ta_namespace :: string
  ta_detail :: string

record diag_capture =
  cp_source :: string
  cp_base_url :: string
  cp_started_at :: time
  cp_finished_at :: "time option"
  cp_duration_ms :: "int option"
  cp_status :: string
  cp_error :: "string option"
  cp_network_diag :: "network_diag option"
  cp_suppressed :: bool
  cp_referenced_id :: string
  cp_requested_path :: "string option"
  cp_effective_url :: string
  cp_http_status :: "int option"
  cp_capture_status :: string
  cp_cooldown_info :: "cooldown_info option"
  cp_absence_events :: "tcp_absence_event list"
  cp_probe_route :: "probe_route option"
  cp_tcp_quality :: "tcp_quality option"

end
