(* ===== verification/Spike_Detector.thy ===== *)
theory Spike_Detector
  imports Latency_Tracker Diag_Types Bounded_Log
begin

section \<open>Spike detection and capture-aware retention\<close>

text \<open>
  Models \<open>uvb76/state\<close>: \<open>spike.go\<close>, \<open>spike_tracker.go\<close>, \<open>spike_tcp_quality.go\<close>,
  \<open>spike_window.go\<close>, \<open>spike_window_helpers.go\<close> and \<open>recovery.go\<close>. The detector keeps one
  bounded list of events per target and probe kind. A sample is judged in one of two ways:
  against raw latency samples, or against a domain window through \<open>DecideSpike\<close>.

  The identifier and the collection time of an event come from the clock and the random
  source, so they are arguments. The function that says which events are protected is a
  field of the detector, as in the code; a recording calls it while it runs, and the model
  takes its answers to be those of one moment. \<open>None\<close> as the outer result is a run-time
  panic: a slice with a negative capacity or bound.
\<close>

record spike_sample =
  ss_ts :: time
  ss_latency :: f64
  ss_ok :: bool

record spike_thresholds =
  th_warning :: f64
  th_critical :: f64
  th_multiplier :: f64

record spike_event =
  ev_id :: string
  ev_target :: string
  ev_kind :: string
  ev_severity :: string
  ev_ts :: time
  ev_latency :: f64
  ev_median :: f64
  ev_reasons :: "string list"
  ev_thresholds :: spike_thresholds
  ev_previous :: "spike_sample list"
  ev_delay :: "f64 option"
  ev_http_status :: "int option"
  ev_error :: "string option"
  ev_trace :: "http_trace option"
  ev_tcp :: "tcp_quality option"
  ev_collected_at :: time

record spike_config =
  sc_icmp_warning :: f64
  sc_icmp_critical :: f64
  sc_http_warning :: f64
  sc_http_critical :: f64
  sc_multiplier :: f64
  sc_min_samples :: int
  sc_max_previous :: int
  sc_max_events :: int

definition DefaultSpikeConfig :: spike_config where
  "DefaultSpikeConfig = \<lparr>sc_icmp_warning = Fin 500, sc_icmp_critical = Fin 2000, sc_http_warning = Fin 1000,
     sc_http_critical = Fin 5000, sc_multiplier = Fin 10, sc_min_samples = 20, sc_max_previous = 30,
     sc_max_events = 100\<rparr>"

subsection \<open>The tracker of one target and kind\<close>

record spike_tracker =
  st_events :: "spike_event list"
  st_max :: int
  st_config :: spike_config
  st_kind :: string

type_synonym protection = "string \<Rightarrow> bool \<times> bool"

definition newSpikeTracker :: "string \<Rightarrow> spike_config \<Rightarrow> spike_tracker option" where
  "newSpikeTracker kind cfg =
     (if sc_max_events cfg < 0 then None
      else Some \<lparr>st_events = [], st_max = sc_max_events cfg, st_config = cfg, st_kind = kind\<rparr>)"

definition purgeable :: "protection \<Rightarrow> spike_event \<Rightarrow> bool" where
  "purgeable prot ev = (\<not> fst (prot (ev_id ev)))"

definition recordSpike :: "spike_event \<Rightarrow> protection \<Rightarrow> spike_tracker \<Rightarrow> spike_tracker" where
  "recordSpike event prot st =
     (let purgeableCount = length (filter (purgeable prot) (st_events st));
          kept = (if int purgeableCount \<ge> sc_max_events (st_config st)
                  then remove_first (purgeable prot) (st_events st) else st_events st)
      in st\<lparr>st_events := kept @ [event]\<rparr>)"

definition getEvents :: "int \<Rightarrow> spike_tracker \<Rightarrow> spike_event list" where
  "getEvents limit0 st =
     (let n = int (length (st_events st));
          limit = (if limit0 \<le> 0 \<or> limit0 > n then n else limit0)
      in map (\<lambda>i. st_events st ! (length (st_events st) - 1 - i)) [0..<nat limit])"

definition event_count :: "spike_tracker \<Rightarrow> int" where
  "event_count st = int (length (st_events st))"

subsection \<open>The detector\<close>

record spike_detector =
  det_config :: spike_config
  det_trackers :: "string \<rightharpoonup> spike_tracker"
  det_protect :: "protection option"

definition NewSpikeDetector :: spike_detector where
  "NewSpikeDetector = \<lparr>det_config = DefaultSpikeConfig, det_trackers = Map.empty, det_protect = None\<rparr>"

definition NewSpikeDetectorWithConfig :: "spike_config \<Rightarrow> spike_detector" where
  "NewSpikeDetectorWithConfig cfg = \<lparr>det_config = cfg, det_trackers = Map.empty, det_protect = None\<rparr>"

definition SetCaptureInfoFunc :: "protection \<Rightarrow> spike_detector \<Rightarrow> spike_detector" where
  "SetCaptureInfoFunc f sd = sd\<lparr>det_protect := Some f\<rparr>"

definition tracker_key :: "string \<Rightarrow> string \<Rightarrow> string" where
  "tracker_key targetID kind = targetID @ '':'' @ kind"

definition getTracker :: "string \<Rightarrow> string \<Rightarrow> spike_detector \<Rightarrow> (spike_tracker \<times> spike_detector) option" where
  "getTracker targetID kind sd =
     (let key = tracker_key targetID kind
      in case det_trackers sd key of
           Some tracker \<Rightarrow> Some (tracker, sd)
         | None \<Rightarrow>
             (case newSpikeTracker kind (det_config sd) of
                None \<Rightarrow> None
              | Some tracker \<Rightarrow> Some (tracker, sd\<lparr>det_trackers := (det_trackers sd)(key \<mapsto> tracker)\<rparr>)))"

definition GetSpikes :: "string \<Rightarrow> string \<Rightarrow> int \<Rightarrow> spike_detector \<Rightarrow> (spike_event list \<times> spike_detector) option" where
  "GetSpikes targetID kind limit sd =
     map_option (\<lambda>(tracker, sd'). (getEvents limit tracker, sd')) (getTracker targetID kind sd)"

definition GetAllSpikeCounts :: "spike_detector \<Rightarrow> string \<rightharpoonup> int" where
  "GetAllSpikeCounts sd = (\<lambda>key. map_option event_count (det_trackers sd key))"

text \<open>
  The tail that every recording shares: fetch the tracker, record the event with the
  detector's protection function or with one that protects nothing, store the tracker. The
  tracker in the map is the one that \<open>getTracker\<close> returned, a shared pointer in the code.
\<close>

definition no_protection :: protection where
  "no_protection = (\<lambda>_. (False, False))"

definition protection_of :: "spike_detector \<Rightarrow> protection" where
  "protection_of sd = (case det_protect sd of Some f \<Rightarrow> f | None \<Rightarrow> no_protection)"

definition record_event :: "spike_event \<Rightarrow> spike_detector \<Rightarrow> spike_detector option" where
  "record_event event sd =
     (case getTracker (ev_target event) (ev_kind event) sd of
        None \<Rightarrow> None
      | Some (tracker, sd') \<Rightarrow>
          Some (sd'\<lparr>det_trackers := (det_trackers sd')
                  (tracker_key (ev_target event) (ev_kind event) \<mapsto> recordSpike event (protection_of sd') tracker)\<rparr>))"

subsection \<open>Helpers on raw samples\<close>

text \<open>
  The code's checks of a slice header whose length exceeds its capacity cannot succeed for a
  Go slice and are left out.
\<close>

definition calculateMedian :: "latency_sample list \<Rightarrow> f64" where
  "calculateMedian samples =
     (if length samples = 0 then Fin 0
      else let ls = map ls_ms (filter (\<lambda>s. ls_reach s \<and> \<not> is_nan (ls_ms s) \<and> \<not> is_inf (ls_ms s)) samples)
        in if length ls = 0 then Fin 0 else mid_value (sort ls))"

definition boundPreviousSamples :: "latency_sample list \<Rightarrow> spike_detector \<Rightarrow> latency_sample list option" where
  "boundPreviousSamples samples sd =
     (let mx = sc_max_previous (det_config sd)
      in if int (length samples) \<le> mx then Some samples
         else if mx < 0 then None
         else Some (drop (length samples - nat mx) samples))"

definition spike_sample_of :: "latency_sample \<Rightarrow> spike_sample" where
  "spike_sample_of s = \<lparr>ss_ts = ls_ts s, ss_latency = ls_ms s, ss_ok = ls_reach s\<rparr>"

definition shouldIncludeRelativeReason :: "spike_config \<Rightarrow> latency_sample list \<Rightarrow> f64 \<Rightarrow> f64 \<Rightarrow> bool" where
  "shouldIncludeRelativeReason cfg samples medianMs latencyMs =
     (if int (length samples) < sc_min_samples cfg \<or> fle medianMs (Fin 0) then False
      else fge latencyMs (fmul medianMs (sc_multiplier cfg)))"

definition lower :: "string \<Rightarrow> string" where
  "lower s = map lower_char s"

definition contains :: "string \<Rightarrow> string \<Rightarrow> bool" where
  "contains s substr =
     (if length substr = 0 then True
      else if length s < length substr then False
      else list_ex (\<lambda>i. take (length substr) (drop i s) = substr) [0..<length s - length substr + 1])"

text \<open>The reason recorded for a failed HTTP probe, most specific first.\<close>

definition classify_error :: "string \<Rightarrow> string" where
  "classify_error e =
     (if contains e ''http_probe_503'' then ''http_probe_503''
      else if contains e ''http_probe_502'' then ''http_probe_502''
      else if contains e ''http_probe_504'' then ''http_probe_504''
      else if contains e ''http_probe_5xx'' then ''http_probe_5xx''
      else if contains e ''http_probe_timeout'' then ''http_probe_timeout''
      else if contains e ''timeout'' \<or> contains e ''deadline'' then ''http_probe_timeout''
      else if contains e ''connection refused'' then ''http_probe_connection_refused''
      else if contains e ''no such host'' \<or> contains e ''lookup'' \<or> contains e ''dial'' then ''http_probe_dns_failure''
      else if contains e ''connection reset'' then ''http_probe_connection_reset''
      else if contains e ''http_probe_404'' then ''http_probe_404''
      else if contains e ''http_probe_4xx'' then ''http_probe_4xx''
      else ''http_probe_failure'')"

definition failure_reason :: "string option \<Rightarrow> string" where
  "failure_reason probeError =
     (case probeError of
        Some e \<Rightarrow> if length e > 0 then classify_error (lower e) else ''http_probe_failure''
      | None \<Rightarrow> ''http_probe_failure'')"

definition kind_thresholds :: "string \<Rightarrow> spike_config \<Rightarrow> (f64 \<times> f64) option" where
  "kind_thresholds kind cfg =
     (if kind = ''icmp'' then Some (sc_icmp_warning cfg, sc_icmp_critical cfg)
      else if kind = ''http'' then Some (sc_http_warning cfg, sc_http_critical cfg)
      else None)"

subsection \<open>Detection on raw samples\<close>

definition relative_reason :: "bool \<Rightarrow> string list" where
  "relative_reason b = (if b then [''relative_10x_median_threshold''] else [])"

definition judge_raw :: "string \<Rightarrow> f64 \<Rightarrow> f64 \<Rightarrow> bool \<Rightarrow> f64 \<Rightarrow> bool \<Rightarrow> string option \<Rightarrow> string \<times> string list" where
  "judge_raw kind warningMs criticalMs reached latencyMs relative probeError =
     (if \<not> reached \<and> kind = ''http'' then (''critical'', failure_reason probeError # relative_reason relative)
      else if fge latencyMs criticalMs
        then (''critical'', (kind @ ''_critical_absolute_threshold'') # relative_reason relative)
      else if fge latencyMs warningMs
        then (''warning'', (kind @ ''_warning_absolute_threshold'') # relative_reason relative)
      else if relative then (''warning'', relative_reason relative)
      else ([], []))"

text \<open>The probe that is judged, as the calls pass it along.\<close>

record probe_obs =
  po_target :: string
  po_kind :: string
  po_latency :: f64
  po_ts :: time
  po_reached :: bool
  po_delay :: "f64 option"
  po_status :: "int option"
  po_error :: "string option"
  po_trace :: "http_trace option"
  po_tcp :: "tcp_quality option"

definition build_event ::
  "string \<Rightarrow> time \<Rightarrow> probe_obs \<Rightarrow> string \<Rightarrow> f64 \<Rightarrow> string list \<Rightarrow> spike_thresholds \<Rightarrow> spike_sample list \<Rightarrow> spike_event" where
  "build_event eid now p severity medianMs reasons th prev =
     \<lparr>ev_id = eid, ev_target = po_target p, ev_kind = po_kind p, ev_severity = severity, ev_ts = po_ts p,
      ev_latency = po_latency p, ev_median = medianMs, ev_reasons = reasons, ev_thresholds = th,
      ev_previous = prev, ev_delay = po_delay p, ev_http_status = po_status p, ev_error = po_error p,
      ev_trace = po_trace p, ev_tcp = po_tcp p, ev_collected_at = now\<rparr>"

definition record_and_return :: "spike_event \<Rightarrow> spike_detector \<Rightarrow> (spike_event option \<times> spike_detector) option" where
  "record_and_return ev sd = map_option (\<lambda>sd'. (Some ev, sd')) (record_event ev sd)"

definition DetectAndRecordWithTcpQuality ::
  "string \<Rightarrow> time \<Rightarrow> probe_obs \<Rightarrow> latency_sample list \<Rightarrow> spike_detector \<Rightarrow> (spike_event option \<times> spike_detector) option" where
  "DetectAndRecordWithTcpQuality eid now p previousSamples sd =
     (case kind_thresholds (po_kind p) (det_config sd) of
        None \<Rightarrow> Some (None, sd)
      | Some (warningMs, criticalMs) \<Rightarrow>
          let medianMs = calculateMedian previousSamples;
              relative = shouldIncludeRelativeReason (det_config sd) previousSamples medianMs (po_latency p);
              (severity, reasons) = judge_raw (po_kind p) warningMs criticalMs (po_reached p) (po_latency p) relative (po_error p)
          in if length reasons = 0 then Some (None, sd)
             else case boundPreviousSamples previousSamples sd of
                    None \<Rightarrow> None
                  | Some prev \<Rightarrow>
                      record_and_return
                        (build_event eid now p severity medianMs reasons
                           \<lparr>th_warning = warningMs, th_critical = criticalMs, th_multiplier = sc_multiplier (det_config sd)\<rparr>
                           (map spike_sample_of prev)) sd)"

definition DetectAndRecord ::
  "string \<Rightarrow> time \<Rightarrow> probe_obs \<Rightarrow> latency_sample list \<Rightarrow> spike_detector \<Rightarrow> (spike_event option \<times> spike_detector) option" where
  "DetectAndRecord eid now p previousSamples sd =
     DetectAndRecordWithTcpQuality eid now (p\<lparr>po_tcp := None\<rparr>) previousSamples sd"

text \<open>A recovery carries no delay, error or TCP evidence.\<close>

definition recovery_obs :: "probe_obs \<Rightarrow> probe_obs" where
  "recovery_obs p = p\<lparr>po_delay := None, po_error := None, po_tcp := None\<rparr>"

definition RecordRecoveryEvent ::
  "string \<Rightarrow> time \<Rightarrow> probe_obs \<Rightarrow> latency_sample list \<Rightarrow> spike_detector \<Rightarrow> (spike_event option \<times> spike_detector) option" where
  "RecordRecoveryEvent eid now p previousSamples sd =
     (if po_kind p \<noteq> ''http'' then Some (None, sd)
      else case boundPreviousSamples previousSamples sd of
             None \<Rightarrow> None
           | Some prev \<Rightarrow>
               record_and_return
                 (build_event eid now (recovery_obs p) ''warning'' (calculateMedian previousSamples) [''http_probe_recovery'']
                    \<lparr>th_warning = sc_http_warning (det_config sd), th_critical = sc_http_critical (det_config sd),
                     th_multiplier = sc_multiplier (det_config sd)\<rparr>
                    (map spike_sample_of prev)) sd)"

subsection \<open>Detection on domain windows\<close>

definition domainSpikeConfigForState :: "string \<Rightarrow> spike_config \<Rightarrow> dspike_config option" where
  "domainSpikeConfigForState kind cfg =
     (if kind = ''http'' then NewSpikeConfig (sc_http_warning cfg) (sc_http_critical cfg) (sc_multiplier cfg) (sc_min_samples cfg)
      else if kind = ''icmp'' then NewSpikeConfig (sc_icmp_warning cfg) (sc_icmp_critical cfg) (sc_multiplier cfg) (sc_min_samples cfg)
      else None)"

definition currentDomainSample :: "string \<Rightarrow> f64 \<Rightarrow> time \<Rightarrow> bool \<Rightarrow> string option \<Rightarrow> sample option" where
  "currentDomainSample kind latencyMs sampleTs reached probeError =
     (if kind \<noteq> ''http'' \<and> kind \<noteq> ''icmp'' then None
      else if \<not> reached
        then Some \<lparr>s_at = sampleTs, s_kind = kind, s_latency = zero_latency, s_ok = False,
                   s_err = (case probeError of None \<Rightarrow> [] | Some e \<Rightarrow> e)\<rparr>
      else case NewLatencyMillis latencyMs of
             None \<Rightarrow> Some \<lparr>s_at = sampleTs, s_kind = kind, s_latency = zero_latency, s_ok = False, s_err = ''invalid latency value''\<rparr>
           | Some l \<Rightarrow> Some \<lparr>s_at = sampleTs, s_kind = kind, s_latency = l, s_ok = True, s_err = []\<rparr>)"

definition severityFromDomainDecision :: "string \<Rightarrow> string" where
  "severityFromDomainDecision kind =
     (if kind = SpikeDecisionCritical then ''critical'' else if kind = SpikeDecisionWarning then ''warning'' else [])"

text \<open>\<open>strings.Split(s, ",")\<close>.\<close>

fun split_commas :: "string \<Rightarrow> string list" where
  "split_commas [] = [[]]"
| "split_commas (c # s) = (if c = CHR '','' then [] # split_commas s
     else case split_commas s of [] \<Rightarrow> [[c]] | w # ws \<Rightarrow> (c # w) # ws)"

definition state_reason :: "string \<Rightarrow> string \<Rightarrow> string list" where
  "state_reason kind reason =
     (if reason = ''critical_absolute'' then [kind @ ''_critical_absolute_threshold'']
      else if reason = ''warning_absolute'' then [kind @ ''_warning_absolute_threshold'']
      else if reason = ''relative_threshold'' then [''relative_10x_median_threshold'']
      else [])"

definition stateReasonsFromDomainDecision :: "string \<Rightarrow> spike_decision \<Rightarrow> string list" where
  "stateReasonsFromDomainDecision kind decision =
     (if sd_kind decision = SpikeDecisionNone then []
      else concat (map (state_reason kind) (split_commas (sd_reason decision))))"

definition spikeSamplesFromWindow :: "sample_window \<Rightarrow> int \<Rightarrow> spike_sample list option" where
  "spikeSamplesFromWindow previousWindow maxPrev =
     (let ds = Samples previousWindow;
          bounded = (if int (length ds) > maxPrev then (if maxPrev < 0 then None else Some (drop (length ds - nat maxPrev) ds))
                     else Some ds)
      in map_option (map (\<lambda>s. \<lparr>ss_ts = s_at s, ss_latency = lm_v (s_latency s), ss_ok = s_ok s\<rparr>)) bounded)"

definition record_windowed ::
  "string \<Rightarrow> time \<Rightarrow> probe_obs \<Rightarrow> string \<Rightarrow> f64 \<Rightarrow> string list \<Rightarrow> f64 \<Rightarrow> f64 \<Rightarrow> sample_window \<Rightarrow> spike_detector
   \<Rightarrow> (spike_event option \<times> spike_detector) option" where
  "record_windowed eid now p severity medianMs reasons warningMs criticalMs previousWindow sd =
     (case spikeSamplesFromWindow previousWindow (sc_max_previous (det_config sd)) of
        None \<Rightarrow> None
      | Some prev \<Rightarrow>
          record_and_return
            (build_event eid now p severity medianMs reasons
               \<lparr>th_warning = warningMs, th_critical = criticalMs, th_multiplier = sc_multiplier (det_config sd)\<rparr> prev) sd)"

definition window_median :: "sample_window \<Rightarrow> f64" where
  "window_median w = (case Median w of None \<Rightarrow> Fin 0 | Some b \<Rightarrow> lm_v b)"

definition recordHTTPFailureEvent ::
  "string \<Rightarrow> time \<Rightarrow> probe_obs \<Rightarrow> f64 \<Rightarrow> f64 \<Rightarrow> sample_window \<Rightarrow> spike_detector \<Rightarrow> (spike_event option \<times> spike_detector) option" where
  "recordHTTPFailureEvent eid now p warningMs criticalMs previousWindow sd =
     (let cfg = det_config sd;
          relative = (case Median previousWindow of
            None \<Rightarrow> False
          | Some baseline \<Rightarrow> int (Len previousWindow) \<ge> sc_min_samples cfg \<and> fgt (sc_multiplier cfg) (Fin 0)
              \<and> fge (po_latency p) (fmul (lm_v baseline) (sc_multiplier cfg)))
      in record_windowed eid now p ''critical'' (window_median previousWindow)
           (failure_reason (po_error p) # relative_reason relative) warningMs criticalMs previousWindow sd)"

definition DetectAndRecordWithWindowAndTcpQuality ::
  "string \<Rightarrow> time \<Rightarrow> probe_obs \<Rightarrow> sample_window \<Rightarrow> spike_detector \<Rightarrow> (spike_event option \<times> spike_detector) option" where
  "DetectAndRecordWithWindowAndTcpQuality eid now p previousWindow sd =
     (case kind_thresholds (po_kind p) (det_config sd) of
        None \<Rightarrow> Some (None, sd)
      | Some (warningMs, criticalMs) \<Rightarrow>
          if \<not> po_reached p \<and> po_kind p = ''http''
          then recordHTTPFailureEvent eid now p warningMs criticalMs previousWindow sd
          else case domainSpikeConfigForState (po_kind p) (det_config sd) of
                 None \<Rightarrow> Some (None, sd)
               | Some domainCfg \<Rightarrow>
                   (case currentDomainSample (po_kind p) (po_latency p) (po_ts p) (po_reached p) (po_error p) of
                      None \<Rightarrow> Some (None, sd)
                    | Some current \<Rightarrow>
                        let decision = DecideSpike current previousWindow domainCfg
                        in if sd_kind decision = SpikeDecisionNone then Some (None, sd)
                           else record_windowed eid now p (severityFromDomainDecision (sd_kind decision))
                                  (if sd_previous_count decision > 0 then lm_v (sd_baseline decision) else Fin 0)
                                  (stateReasonsFromDomainDecision (po_kind p) decision)
                                  warningMs criticalMs previousWindow sd))"

definition DetectAndRecordWithWindow ::
  "string \<Rightarrow> time \<Rightarrow> probe_obs \<Rightarrow> sample_window \<Rightarrow> spike_detector \<Rightarrow> (spike_event option \<times> spike_detector) option" where
  "DetectAndRecordWithWindow eid now p previousWindow sd =
     DetectAndRecordWithWindowAndTcpQuality eid now (p\<lparr>po_tcp := None\<rparr>) previousWindow sd"

definition RecordRecoveryEventWithWindow ::
  "string \<Rightarrow> time \<Rightarrow> probe_obs \<Rightarrow> sample_window \<Rightarrow> spike_detector \<Rightarrow> (spike_event option \<times> spike_detector) option" where
  "RecordRecoveryEventWithWindow eid now p previousWindow sd =
     (case kind_thresholds (po_kind p) (det_config sd) of
        None \<Rightarrow> Some (None, sd)
      | Some (warningMs, criticalMs) \<Rightarrow>
          record_windowed eid now (recovery_obs p) ''recovery'' (window_median previousWindow) [''http_probe_recovery'']
            warningMs criticalMs previousWindow sd)"

subsection \<open>Retention\<close>

text \<open>
  On a fixed protection function the purgeable events of a tracker are a bounded log whose
  capacity is the configured cap, or one if that is smaller: a recording evicts before it
  appends.
\<close>

definition purge_cap :: "spike_tracker \<Rightarrow> nat" where
  "purge_cap st = nat (max (sc_max_events (st_config st)) 1)"

definition purge_ok :: "protection \<Rightarrow> spike_tracker \<Rightarrow> bool" where
  "purge_ok prot st \<longleftrightarrow> length (filter (purgeable prot) (st_events st)) \<le> purge_cap st"

lemma recordSpike_config [simp]: "st_config (recordSpike ev prot st) = st_config st"
  by (simp add: recordSpike_def Let_def)

lemma recordSpike_purgeable:
  "filter (purgeable prot) (st_events (recordSpike ev prot st)) =
     (if int (length (filter (purgeable prot) (st_events st))) \<ge> sc_max_events (st_config st)
      then tl (filter (purgeable prot) (st_events st)) else filter (purgeable prot) (st_events st))
     @ (if purgeable prot ev then [ev] else [])"
  by (simp add: recordSpike_def Let_def filter_remove_first_same)

lemma recordSpike_protected:
  "filter (\<lambda>e. \<not> purgeable prot e) (st_events (recordSpike ev prot st))
   = filter (\<lambda>e. \<not> purgeable prot e) (st_events st @ [ev])"
  by (simp add: recordSpike_def Let_def filter_remove_first_other)

interpretation purge: bounded_log "\<lambda>ev. recordSpike ev prot" id "\<lambda>st. filter (purgeable prot) (st_events st)"
  purge_cap "purge_ok prot" "purgeable prot" for prot :: protection
proof
  fix st :: spike_tracker and ev
  assume ok: "purge_ok prot st" and v: "purgeable prot ev"
  let ?p = "filter (purgeable prot) (st_events st)"
  show c: "purge_cap (recordSpike ev prot st) = purge_cap st" by (simp add: purge_cap_def)
  show view: "filter (purgeable prot) (st_events (recordSpike ev prot st)) = take_last (purge_cap st) (?p @ [id ev])"
  proof (cases "int (length ?p) \<ge> sc_max_events (st_config st)")
    case True
    then have "length ?p = purge_cap st \<or> (?p = [] \<and> purge_cap st = 1)" using ok
      by (cases ?p) (auto simp: purge_ok_def purge_cap_def max_def split: if_splits)
    moreover have "1 \<le> purge_cap st" by (simp add: purge_cap_def)
    ultimately show ?thesis using True v by (auto simp: recordSpike_purgeable take_last_def drop_Suc)
  next
    case False
    then have "length ?p < purge_cap st" unfolding purge_cap_def zless_nat_eq_int_zless by simp
    with False v show ?thesis by (simp add: recordSpike_purgeable)
  qed
  show "purge_ok prot (recordSpike ev prot st)" unfolding purge_ok_def c view by simp
next
  fix st show "purge_ok prot st \<Longrightarrow> length (filter (purgeable prot) (st_events st)) \<le> purge_cap st"
    by (simp add: purge_ok_def)
qed

text \<open>
  C32. Retention. Recording a spike never evicts a protected one, keeps the order of those it
  keeps, puts the new event last, evicts at most the oldest purgeable event, and does so
  exactly when the purgeable ones have reached the cap; so their number never grows above the
  cap (one, for a cap below one) unless it already was above it.
\<close>

theorem recordSpike_retention:
  "filter (\<lambda>e. \<not> purgeable prot e) (st_events (recordSpike ev prot st))
     = filter (\<lambda>e. \<not> purgeable prot e) (st_events st @ [ev])
   \<and> filter (purgeable prot) (st_events (recordSpike ev prot st))
     = (if int (length (filter (purgeable prot) (st_events st))) \<ge> sc_max_events (st_config st)
        then tl (filter (purgeable prot) (st_events st)) else filter (purgeable prot) (st_events st))
       @ (if purgeable prot ev then [ev] else [])
   \<and> subseq (st_events (recordSpike ev prot st)) (st_events st @ [ev])
   \<and> last (st_events (recordSpike ev prot st)) = ev
   \<and> int (length (filter (purgeable prot) (st_events (recordSpike ev prot st))))
     \<le> max (max (sc_max_events (st_config st)) 1) (int (length (filter (purgeable prot) (st_events st))))"
proof -
  have "subseq (st_events (recordSpike ev prot st)) (st_events st @ [ev])"
    by (auto simp: recordSpike_def Let_def subseq_remove_first intro: list_emb_append_mono)
  moreover have "last (st_events (recordSpike ev prot st)) = ev" by (simp add: recordSpike_def Let_def)
  moreover have "int (length (filter (purgeable prot) (st_events (recordSpike ev prot st))))
     \<le> max (max (sc_max_events (st_config st)) 1) (int (length (filter (purgeable prot) (st_events st))))"
    unfolding recordSpike_purgeable by (cases "filter (purgeable prot) (st_events st)") auto
  ultimately show ?thesis using recordSpike_protected recordSpike_purgeable by blast
qed

lemma recordSpike_keeps:
  assumes "e \<in> set (st_events st)" "\<not> purgeable prot e"
  shows "e \<in> set (st_events (recordSpike ev prot st))"
proof -
  have "e \<in> set (filter (\<lambda>e. \<not> purgeable prot e) (st_events st @ [ev]))" using assms by simp
  then show ?thesis unfolding recordSpike_protected[symmetric] by simp
qed

text \<open>
  The interface to the capture store: a client may attach something to an event, which
  protects it and no other. A client of the locale then never loses the event.
\<close>

locale protection_provider =
  fixes protects :: "'s \<Rightarrow> protection"
    and attach :: "string \<Rightarrow> 's \<Rightarrow> 's"
    and good :: "'s \<Rightarrow> bool"
  assumes attach_protects: "good s \<Longrightarrow> fst (protects (attach i s) i)"
    and attach_other: "good s \<Longrightarrow> j \<noteq> i \<Longrightarrow> protects (attach i s) j = protects s j"
    and attach_good: "good s \<Longrightarrow> good (attach i s)"
begin

lemma attach_monotone: "good s \<Longrightarrow> fst (protects s j) \<Longrightarrow> fst (protects (attach i s) j)"
  by (cases "j = i") (simp_all add: attach_protects attach_other)

lemma attaches_monotone:
  "good s \<Longrightarrow> fst (protects s j) \<Longrightarrow> good (fold attach is s) \<and> fst (protects (fold attach is s) j)"
  by (induction "is" arbitrary: s) (simp_all add: attach_good attach_monotone)

text \<open>
  An event whose capture has been attached survives any interleaving of further recordings
  with further attachments.
\<close>

lemma attached_survives:
  assumes "good s" "e \<in> set (st_events st)" "fst (protects s (ev_id e))"
  shows "e \<in> set (st_events (snd (fold (\<lambda>(ev, ids) (s, st). let s' = fold attach ids s
           in (s', recordSpike ev (protects s') st)) steps (s, st))))"
  using assms
proof (induction steps arbitrary: s st)
  case (Cons step steps)
  obtain ev ids where step: "step = (ev, ids)" by (cases step) auto
  let ?s = "fold attach ids s"
  have "good ?s" "fst (protects ?s (ev_id e))" using attaches_monotone[OF Cons.prems(1,3)] by simp_all
  moreover have "e \<in> set (st_events (recordSpike ev (protects ?s) st))"
    using Cons.prems calculation by (intro recordSpike_keeps) (simp_all add: purgeable_def)
  ultimately show ?case using Cons.IH[of ?s "recordSpike ev (protects ?s) st"] by (simp add: step Let_def)
qed simp

end

subsection \<open>Reading events back\<close>

lemma getEvents_rev: "getEvents limit st = (if limit \<le> 0 then rev (st_events st) else take (nat limit) (rev (st_events st)))"
proof -
  have m: "map (\<lambda>i. xs ! (length xs - Suc i)) [0..<k] = take k (rev xs)" if "k \<le> length xs" for xs :: "spike_event list" and k
    using that by (intro nth_equalityI) (simp_all add: rev_nth)
  show ?thesis
  proof (cases "limit \<le> 0 \<or> int (length (st_events st)) < limit")
    case True
    then show ?thesis by (auto simp: getEvents_def Let_def m)
  next
    case False
    then have "nat limit \<le> length (st_events st)" by (simp add: nat_le_iff)
    with False show ?thesis by (simp add: getEvents_def Let_def m)
  qed
qed

lemma tracker_key_inject:
  "CHR '':'' \<notin> set k \<Longrightarrow> CHR '':'' \<notin> set k' \<Longrightarrow> tracker_key t k = tracker_key t' k' \<longleftrightarrow> t = t' \<and> k = k'"
proof
  assume c: "CHR '':'' \<notin> set k" "CHR '':'' \<notin> set k'" and eq: "tracker_key t k = tracker_key t' k'"
  have *: "takeWhile (\<lambda>c. c \<noteq> CHR '':'') (rev (tracker_key s j)) = rev j" if "CHR '':'' \<notin> set j" for s j
  proof -
    have "rev (tracker_key s j) = rev j @ CHR '':'' # rev s" by (simp add: tracker_key_def)
    moreover have "takeWhile (\<lambda>c. c \<noteq> CHR '':'') (rev j @ CHR '':'' # rev s) = rev j"
      using that by (subst takeWhile_append2) auto
    ultimately show ?thesis by simp
  qed
  have "rev k = rev k'" using *[OF c(1), of t] *[OF c(2), of t'] eq by simp
  with eq show "t = t' \<and> k = k'" by (simp add: tracker_key_def)
qed simp

lemma kind_no_colon: "kind_thresholds k cfg \<noteq> None \<Longrightarrow> CHR '':'' \<notin> set k"
  by (auto simp: kind_thresholds_def split: if_splits)

definition det_events :: "spike_detector \<Rightarrow> string \<Rightarrow> string \<Rightarrow> spike_event list" where
  "det_events sd target kind = (case det_trackers sd (tracker_key target kind) of None \<Rightarrow> [] | Some st \<Rightarrow> st_events st)"

text \<open>The detector's trackers have the detector's cap.\<close>

definition det_ok :: "spike_detector \<Rightarrow> bool" where
  "det_ok sd \<longleftrightarrow> 0 \<le> sc_max_events (det_config sd) \<and> 0 \<le> sc_max_previous (det_config sd)"

lemma record_event_Some:
  assumes "det_ok sd"
  shows "\<exists>sd'. record_event ev sd = Some sd' \<and> det_config sd' = det_config sd \<and> det_protect sd' = det_protect sd
    \<and> (\<exists>st. det_events sd (ev_target ev) (ev_kind ev) = st_events st
          \<and> det_events sd' (ev_target ev) (ev_kind ev) = st_events (recordSpike ev (protection_of sd) st))
    \<and> (\<forall>key. key \<noteq> tracker_key (ev_target ev) (ev_kind ev) \<longrightarrow> det_trackers sd' key = det_trackers sd key)"
proof -
  let ?key = "tracker_key (ev_target ev) (ev_kind ev)"
  obtain st sd1 where g: "getTracker (ev_target ev) (ev_kind ev) sd = Some (st, sd1)"
    "det_events sd (ev_target ev) (ev_kind ev) = st_events st" "det_config sd1 = det_config sd"
    "det_protect sd1 = det_protect sd" "\<forall>key. key \<noteq> ?key \<longrightarrow> det_trackers sd1 key = det_trackers sd key"
    using assms by (cases "det_trackers sd ?key")
      (simp_all add: getTracker_def newSpikeTracker_def det_ok_def det_events_def)
  let ?sd' = "sd1\<lparr>det_trackers := (det_trackers sd1)(?key \<mapsto> recordSpike ev (protection_of sd1) st)\<rparr>"
  have "protection_of sd1 = protection_of sd" by (simp add: protection_of_def g)
  then have "det_events ?sd' (ev_target ev) (ev_kind ev) = st_events (recordSpike ev (protection_of sd) st)"
    by (simp add: det_events_def)
  moreover have "record_event ev sd = Some ?sd'" by (simp add: record_event_def g)
  ultimately show ?thesis using g by (intro exI[of _ ?sd']) auto
qed

lemma record_event_newest:
  assumes "det_ok sd" "record_event ev sd = Some sd'"
  shows "last (det_events sd' (ev_target ev) (ev_kind ev)) = ev" "det_events sd' (ev_target ev) (ev_kind ev) \<noteq> []"
proof -
  obtain st where "det_events sd' (ev_target ev) (ev_kind ev) = st_events (recordSpike ev (protection_of sd) st)"
    using record_event_Some[OF assms(1), of ev] assms(2) by auto
  then show "last (det_events sd' (ev_target ev) (ev_kind ev)) = ev" "det_events sd' (ev_target ev) (ev_kind ev) \<noteq> []"
    by (simp_all add: recordSpike_def Let_def)
qed

lemma GetSpikes_events:
  assumes "det_events sd target kind \<noteq> []"
  shows "\<exists>sd'. GetSpikes target kind 1 sd = Some ([last (det_events sd target kind)], sd')"
  using assms by (auto simp: GetSpikes_def getTracker_def det_events_def getEvents_rev Let_def take_Suc hd_rev
      split: option.splits)

lemma bound_total: "det_ok sd \<Longrightarrow> \<exists>prev. boundPreviousSamples ss sd = Some prev \<and> int (length prev) \<le> sc_max_previous (det_config sd)"
  by (auto simp: boundPreviousSamples_def Let_def det_ok_def)

lemma window_bound_total:
  "0 \<le> m \<Longrightarrow> \<exists>prev. spikeSamplesFromWindow w m = Some prev \<and> int (length prev) \<le> m"
  by (auto simp: spikeSamplesFromWindow_def Let_def)

lemma raw_detect:
  fixes ss :: "latency_sample list"
  assumes "det_ok sd" "kind_thresholds (po_kind p) (det_config sd) = Some (w, c)"
  defines "r \<equiv> judge_raw (po_kind p) w c (po_reached p) (po_latency p)
     (shouldIncludeRelativeReason (det_config sd) ss (calculateMedian ss) (po_latency p)) (po_error p)"
  shows "if snd r = [] then DetectAndRecordWithTcpQuality eid now p ss sd = Some (None, sd)
    else \<exists>ev sd'. DetectAndRecordWithTcpQuality eid now p ss sd = Some (Some ev, sd') \<and> record_event ev sd = Some sd'
      \<and> ev_severity ev = fst r \<and> ev_reasons ev = snd r \<and> ev_target ev = po_target p \<and> ev_kind ev = po_kind p
      \<and> ev_median ev = calculateMedian ss \<and> ev_latency ev = po_latency p
      \<and> int (length (ev_previous ev)) \<le> sc_max_previous (det_config sd)"
proof -
  obtain sev rs where r: "r = (sev, rs)" by (cases r) auto
  obtain prev where prev: "boundPreviousSamples ss sd = Some prev" "int (length prev) \<le> sc_max_previous (det_config sd)"
    using bound_total[OF assms(1)] by blast
  define ev where "ev = build_event eid now p sev (calculateMedian ss) rs
     \<lparr>th_warning = w, th_critical = c, th_multiplier = sc_multiplier (det_config sd)\<rparr> (map spike_sample_of prev)"
  obtain sd' where sd': "record_event ev sd = Some sd'" using record_event_Some[OF assms(1), of ev] by auto
  have "DetectAndRecordWithTcpQuality eid now p ss sd = (if rs = [] then Some (None, sd) else Some (Some ev, sd'))"
    using r sd' by (simp add: DetectAndRecordWithTcpQuality_def assms(2) Let_def prev(1) record_and_return_def
        flip: r_def ev_def)
  then show ?thesis using sd' prev(2) by (auto simp: r ev_def build_event_def)
qed

lemma window_record:
  assumes ok: "det_ok sd"
  shows "\<exists>ev sd'. record_windowed eid now p sev m rs w c win sd = Some (Some ev, sd') \<and> record_event ev sd = Some sd'
      \<and> ev_severity ev = sev \<and> ev_reasons ev = rs \<and> ev_target ev = po_target p \<and> ev_kind ev = po_kind p
      \<and> ev_median ev = m \<and> ev_latency ev = po_latency p \<and> ev_id ev = eid
      \<and> int (length (ev_previous ev)) \<le> sc_max_previous (det_config sd)"
proof -
  obtain prev where prev: "spikeSamplesFromWindow win (sc_max_previous (det_config sd)) = Some prev"
      "int (length prev) \<le> sc_max_previous (det_config sd)"
    using window_bound_total[of "sc_max_previous (det_config sd)" win] ok by (auto simp: det_ok_def)
  define ev where "ev = build_event eid now p sev m rs
     \<lparr>th_warning = w, th_critical = c, th_multiplier = sc_multiplier (det_config sd)\<rparr> prev"
  obtain sd' where sd': "record_event ev sd = Some sd'" using record_event_Some[OF ok, of ev] by auto
  have "record_windowed eid now p sev m rs w c win sd = Some (Some ev, sd')"
    using sd' by (simp add: record_windowed_def prev(1) record_and_return_def flip: ev_def)
  then show ?thesis using sd' prev(2) by (auto simp: ev_def build_event_def)
qed

text \<open>
  A failed HTTP probe is never missed. Whatever the latency, the samples, the tracker's
  state and the protected events are, both detection paths record one critical event, whose
  first reason is the classification of the error, and the event is then the newest that
  \<open>GetSpikes\<close> returns.
\<close>

theorem http_failure_recorded:
  assumes ok: "det_ok sd" and p: "po_kind p = ''http''" "\<not> po_reached p"
    and r: "r = DetectAndRecordWithTcpQuality eid now p ss sd \<or> r = DetectAndRecordWithWindowAndTcpQuality eid now p w sd"
  shows "\<exists>ev sd' sd''. r = Some (Some ev, sd') \<and> ev_severity ev = ''critical''
    \<and> ev_reasons ev \<noteq> [] \<and> hd (ev_reasons ev) = failure_reason (po_error p)
    \<and> GetSpikes (po_target p) ''http'' 1 sd' = Some ([ev], sd'')"
proof -
  have th: "kind_thresholds (po_kind p) (det_config sd) = Some (sc_http_warning (det_config sd), sc_http_critical (det_config sd))"
    by (simp add: p kind_thresholds_def)
  have "\<exists>ev sd'. r = Some (Some ev, sd') \<and> record_event ev sd = Some sd' \<and> ev_severity ev = ''critical''
    \<and> ev_reasons ev \<noteq> [] \<and> hd (ev_reasons ev) = failure_reason (po_error p)
    \<and> ev_target ev = po_target p \<and> ev_kind ev = ''http''"
    using r
  proof
    assume "r = DetectAndRecordWithTcpQuality eid now p ss sd"
    then show ?thesis using raw_detect[OF ok th, of ss eid now] p by (auto simp: judge_raw_def)
  next
    assume e: "r = DetectAndRecordWithWindowAndTcpQuality eid now p w sd"
    obtain rel where "r = record_windowed eid now p ''critical'' (window_median w)
       (failure_reason (po_error p) # relative_reason rel) (sc_http_warning (det_config sd)) (sc_http_critical (det_config sd)) w sd"
      unfolding e DetectAndRecordWithWindowAndTcpQuality_def th recordHTTPFailureEvent_def Let_def
      using p by (simp add: Let_def)
    with window_record[OF ok] p show ?thesis by (metis list.sel(1) list.distinct(1))
  qed
  then obtain ev sd' where ev: "r = Some (Some ev, sd')" "record_event ev sd = Some sd'" "ev_severity ev = ''critical''"
    "ev_reasons ev \<noteq> []" "hd (ev_reasons ev) = failure_reason (po_error p)" "ev_target ev = po_target p" "ev_kind ev = ''http''"
    by blast
  note n = record_event_newest[OF ok ev(2), unfolded ev(6,7)]
  obtain sd'' where "GetSpikes (po_target p) ''http'' 1 sd' = Some ([ev], sd'')"
    using GetSpikes_events[OF n(2)] n(1) by auto
  with ev show ?thesis by blast
qed

subsection \<open>Reasons survive the comma-separated string\<close>

lemma split_commas_word: "CHR '','' \<notin> set w \<Longrightarrow> split_commas w = [w]"
  by (induction w) auto

lemma split_commas_append: "CHR '','' \<notin> set w \<Longrightarrow> split_commas (w @ CHR '','' # s) = w # split_commas s"
  by (induction w) auto

lemma split_join: "rs \<noteq> [] \<Longrightarrow> \<forall>r \<in> set rs. CHR '','' \<notin> set r \<Longrightarrow> split_commas (joinReasons rs) = rs"
  by (induction rs rule: joinReasons.induct) (auto simp: split_commas_word split_commas_append)

text \<open>
  No reason is lost between the packages. The domain decision joins its reasons with
  commas; splitting them again and translating gives one state reason for each of them, in
  their order, so an event that is recorded always has a reason.
\<close>

theorem domain_reasons_roundtrip:
  "stateReasonsFromDomainDecision kind (DecideSpike cur w g) =
     (if s_ok cur then concat (map (state_reason kind) (spike_reasons cur w g)) else [])
   \<and> (sd_kind (DecideSpike cur w g) = SpikeDecisionNone
        \<longleftrightarrow> stateReasonsFromDomainDecision kind (DecideSpike cur w g) = [])"
proof -
  let ?rs = "spike_reasons cur w g"
  have "list_all (\<lambda>r. CHR '','' \<notin> set r) ?rs" "list_all (\<lambda>r. state_reason kind r \<noteq> []) ?rs"
    by (simp_all add: spike_reasons_eq state_reason_def)
  then have words: "\<forall>r \<in> set ?rs. CHR '','' \<notin> set r" "\<forall>r \<in> set ?rs. state_reason kind r \<noteq> []"
    by (simp_all add: list_all_iff)
  show ?thesis
  proof (cases "s_ok cur \<and> ?rs \<noteq> []")
    case True
    then have "split_commas (sd_reason (DecideSpike cur w g)) = ?rs"
      using split_join[OF _ words(1)] by (simp add: DecideSpike_def Let_def)
    moreover have "sd_kind (DecideSpike cur w g) \<noteq> SpikeDecisionNone"
      using True by (simp add: DecideSpike_def Let_def)
    moreover have "concat (map (state_reason kind) ?rs) \<noteq> []" using True words(2) by (cases ?rs) auto
    ultimately show ?thesis using True by (simp add: stateReasonsFromDomainDecision_def)
  next
    case False
    then have "sd_kind (DecideSpike cur w g) = SpikeDecisionNone"
      by (auto simp: DecideSpike_def Let_def no_spike_def)
    with False show ?thesis by (auto simp: stateReasonsFromDomainDecision_def)
  qed
qed

subsection \<open>The two detection paths agree\<close>

text \<open>Samples as a healthy probe leaves them: reachable, with a finite latency of at least 0.\<close>

definition healthy :: "latency_sample list \<Rightarrow> bool" where
  "healthy ss \<longleftrightarrow> (\<forall>s \<in> set ss. ls_reach s \<and> is_some (NewLatencyMillis (ls_ms s)))"

definition window_of :: "latency_sample list \<Rightarrow> sample_window" where
  "window_of ss = NewSampleWindow (map LatencySampleToDomainSample ss)"

lemma healthy_window:
  assumes "healthy ss"
  shows "latencies (window_of ss) = map ls_ms ss" "Len (window_of ss) = length ss"
proof -
  have "filter (\<lambda>s. ls_reach s \<and> NewLatencyMillis (ls_ms s) \<noteq> None) ss = ss"
    using assms by (intro filter_True) (auto simp: healthy_def is_some_def)
  then show l: "latencies (window_of ss) = map ls_ms ss" by (simp only: window_of_def latencies_window)
  show "Len (window_of ss) = length ss" using arg_cong[OF l, of length] by simp
qed

lemma healthy_median:
  assumes h: "healthy ss" and m: "Median (window_of ss) = Some b"
  shows "calculateMedian ss = lm_v b"
proof -
  have f: "filter (\<lambda>s. ls_reach s \<and> \<not> is_nan (ls_ms s) \<and> \<not> is_inf (ls_ms s)) ss = ss"
    using h by (intro filter_True) (auto simp: healthy_def is_some_def NewLatencyMillis_Some is_nan_def is_inf_def)
  have n: "length (w_samples (window_of ss)) = length ss" using healthy_window(2)[OF h] by (simp add: Len_def)
  then have ne: "ss \<noteq> []" using m by (auto simp: Median_def)
  then have "NewLatencyMillis (mid_value (sort (map ls_ms ss))) = Some b"
    using m by (simp add: Median_def n healthy_window(1)[OF h] mid_value_def Let_def split: if_splits)
  then show ?thesis using ne by (simp add: calculateMedian_def f NewLatencyMillis_Some)
qed

lemma state_config_thresholds:
  assumes "domainSpikeConfigForState kind cfg = Some g"
  shows "kind_thresholds kind cfg = Some (lm_v (dc_warning g), lm_v (dc_critical g))" "kind = ''http'' \<or> kind = ''icmp''"
  using assms by (auto simp: domainSpikeConfigForState_def kind_thresholds_def NewSpikeConfig_def NewLatencyMillis_Some
      split: if_splits option.splits)

definition verdict :: "(spike_event option \<times> spike_detector) option \<Rightarrow> (string \<times> f64) option option" where
  "verdict r = map_option (\<lambda>(ev, _). map_option (\<lambda>e. (ev_severity e, ev_median e)) ev) r"

lemma latency_Fin: "NewLatencyMillis x = Some l \<Longrightarrow> \<exists>r. lm_v l = Fin r \<and> x = Fin r \<and> 0 \<le> r"
  by (cases x) (auto simp: NewLatencyMillis_def is_nan_def is_inf_def flt_iff split: if_splits)

lemma median_Fin: "Median w = Some b \<Longrightarrow> \<exists>r. lm_v b = Fin r \<and> 0 \<le> r"
  by (auto simp: Median_def Let_def split: if_splits dest!: latency_Fin)

lemma config_multiplier:
  assumes "domainSpikeConfigForState kind cfg = Some g"
  shows "dc_min_samples g = sc_min_samples cfg" "dc_multiplier g = sc_multiplier cfg" "\<exists>q. sc_multiplier cfg = Fin q \<and> 0 \<le> q"
    "\<exists>w c. lm_v (dc_warning g) = Fin w \<and> lm_v (dc_critical g) = Fin c \<and> w \<le> c"
proof -
  show "dc_min_samples g = sc_min_samples cfg" "dc_multiplier g = sc_multiplier cfg"
    using assms by (auto simp: domainSpikeConfigForState_def NewSpikeConfig_def split: if_splits option.splits)
  have "\<exists>x y. NewLatencyMillis x = Some (dc_warning g) \<and> NewLatencyMillis y = Some (dc_critical g) \<and> \<not> flt (lm_v (dc_critical g)) (lm_v (dc_warning g))"
    using assms by (auto simp: domainSpikeConfigForState_def NewSpikeConfig_def split: if_splits option.splits)
  then show "\<exists>w c. lm_v (dc_warning g) = Fin w \<and> lm_v (dc_critical g) = Fin c \<and> w \<le> c"
    by (auto dest!: latency_Fin simp: flt_iff not_less)
  have "\<not> is_nan (sc_multiplier cfg) \<and> \<not> is_inf (sc_multiplier cfg) \<and> \<not> flt (sc_multiplier cfg) (Fin 0)"
    using assms by (auto simp: domainSpikeConfigForState_def NewSpikeConfig_def split: if_splits option.splits)
  then show "\<exists>q. sc_multiplier cfg = Fin q \<and> 0 \<le> q"
    by (cases "sc_multiplier cfg") (auto simp: is_nan_def is_inf_def flt_iff)
qed

text \<open>
  The relative rule of the two paths. One asks for a positive median and the other for a positive multiplier; where both
  are positive or neither is, they agree, and otherwise the product is 0, which every latency reaches.
\<close>

lemma relative_rules:
  assumes h: "healthy ss" and m: "Median (window_of ss) = Some b"
    and g: "domainSpikeConfigForState kind cfg = Some g" and lat: "lm_v (s_latency cur) = Fin x" "0 \<le> x"
  defines "enough \<equiv> sc_min_samples cfg \<le> int (length ss)" and "zero_median \<equiv> lm_v b = Fin 0" and "zero_multiplier \<equiv> sc_multiplier cfg = Fin 0"
  shows "shouldIncludeRelativeReason cfg ss (lm_v b) (Fin x) \<longleftrightarrow>
      enough \<and> \<not> zero_median \<and> (zero_multiplier \<or> fge (Fin x) (fmul (lm_v b) (sc_multiplier cfg)))"
    "relative_exceeded cur (window_of ss) g \<longleftrightarrow>
      enough \<and> \<not> zero_multiplier \<and> (zero_median \<or> fge (Fin x) (fmul (lm_v b) (sc_multiplier cfg)))"
proof -
  obtain r where r: "lm_v b = Fin r" "0 \<le> r" using median_Fin[OF m] by blast
  obtain q where q: "sc_multiplier cfg = Fin q" "0 \<le> q" using config_multiplier(3)[OF g] by blast
  show "shouldIncludeRelativeReason cfg ss (lm_v b) (Fin x) \<longleftrightarrow>
      enough \<and> \<not> zero_median \<and> (zero_multiplier \<or> fge (Fin x) (fmul (lm_v b) (sc_multiplier cfg)))"
    using r q lat(2) by (auto simp: shouldIncludeRelativeReason_def enough_def zero_median_def zero_multiplier_def fle_iff round64_0)
  show "relative_exceeded cur (window_of ss) g \<longleftrightarrow>
      enough \<and> \<not> zero_multiplier \<and> (zero_median \<or> fge (Fin x) (fmul (lm_v b) (sc_multiplier cfg)))"
    using r q lat m by (auto simp: relative_exceeded_def config_multiplier(1,2)[OF g] healthy_window(2)[OF h] enough_def zero_median_def
        zero_multiplier_def fle_iff flt_iff round64_0)
qed

text \<open>What each path reports, from its own relative rule.\<close>

definition path_verdict :: "f64 \<Rightarrow> f64 \<Rightarrow> f64 \<Rightarrow> bool \<Rightarrow> f64 \<Rightarrow> (string \<times> f64) option" where
  "path_verdict warning critical latency relative median =
     (if fge latency critical then Some (''critical'', median)
      else if fge latency warning \<or> relative then Some (''warning'', median) else None)"

lemma raw_path:
  assumes ok: "det_ok sd" and g: "domainSpikeConfigForState (po_kind p) (det_config sd) = Some g" and p: "po_reached p"
  shows "verdict (DetectAndRecordWithTcpQuality eid now p ss sd) = Some (path_verdict (lm_v (dc_warning g)) (lm_v (dc_critical g)) (po_latency p)
      (shouldIncludeRelativeReason (det_config sd) ss (calculateMedian ss) (po_latency p)) (calculateMedian ss))"
  using raw_detect[OF ok state_config_thresholds(1)[OF g], of ss eid now] p
  by (auto simp: verdict_def path_verdict_def judge_raw_def relative_reason_def split: if_splits)

lemma window_path:
  assumes ok: "det_ok sd" and g: "domainSpikeConfigForState (po_kind p) (det_config sd) = Some g"
    and p: "po_reached p" "NewLatencyMillis (po_latency p) = Some l" and m: "Median w = Some b"
  defines "cur \<equiv> \<lparr>s_at = po_ts p, s_kind = po_kind p, s_latency = l, s_ok = True, s_err = []\<rparr>"
  shows "verdict (DetectAndRecordWithWindowAndTcpQuality eid now p w sd) = Some (path_verdict (lm_v (dc_warning g)) (lm_v (dc_critical g)) (po_latency p)
      (relative_exceeded cur w g) (lm_v b))"
proof -
  note th = state_config_thresholds[OF g]
  define d where "d = DecideSpike cur w g"
  have l: "lm_v l = po_latency p" using p by (auto simp: NewLatencyMillis_Some)
  have cur: "currentDomainSample (po_kind p) (po_latency p) (po_ts p) (po_reached p) (po_error p) = Some cur"
    using p th(2) by (auto simp: currentDomainSample_def cur_def)
  have kind: "sd_kind d = (if fge (po_latency p) (lm_v (dc_critical g)) then SpikeDecisionCritical
      else if fge (po_latency p) (lm_v (dc_warning g)) \<or> relative_exceeded cur w g then SpikeDecisionWarning else SpikeDecisionNone)"
    unfolding d_def DecideSpike_kind by (simp add: cur_def l)
  have med: "sd_previous_count d > 0 \<and> lm_v (sd_baseline d) = lm_v b" if "sd_kind d \<noteq> SpikeDecisionNone"
  proof -
    have "Len w > 0" using m by (cases "Len w") (auto simp: Median_empty)
    then show ?thesis using that m by (auto simp: d_def DecideSpike_def Let_def no_spike_def split: if_splits)
  qed
  have win: "DetectAndRecordWithWindowAndTcpQuality eid now p w sd =
     (if sd_kind d = SpikeDecisionNone then Some (None, sd)
      else record_windowed eid now p (severityFromDomainDecision (sd_kind d))
             (if sd_previous_count d > 0 then lm_v (sd_baseline d) else Fin 0)
             (stateReasonsFromDomainDecision (po_kind p) d) (lm_v (dc_warning g)) (lm_v (dc_critical g)) w sd)"
    unfolding DetectAndRecordWithWindowAndTcpQuality_def th(1) g
    using p(1) cur by (simp add: Let_def flip: d_def)
  have pv: "path_verdict (lm_v (dc_warning g)) (lm_v (dc_critical g)) (po_latency p) (relative_exceeded cur w g) (lm_v b) =
      (if sd_kind d = SpikeDecisionNone then None else Some (severityFromDomainDecision (sd_kind d), lm_v b))"
    unfolding kind path_verdict_def
    by (cases "fge (po_latency p) (lm_v (dc_critical g))"; cases "fge (po_latency p) (lm_v (dc_warning g)) \<or> relative_exceeded cur w g")
      (simp_all add: severityFromDomainDecision_def)
  show ?thesis
  proof (cases "sd_kind d = SpikeDecisionNone")
    case True
    then show ?thesis unfolding win pv by (simp add: verdict_def)
  next
    case False
    obtain ev sd' where "record_windowed eid now p (severityFromDomainDecision (sd_kind d)) (lm_v b)
        (stateReasonsFromDomainDecision (po_kind p) d) (lm_v (dc_warning g)) (lm_v (dc_critical g)) w sd = Some (Some ev, sd')"
      "ev_severity ev = severityFromDomainDecision (sd_kind d)" "ev_median ev = lm_v b"
      using window_record[OF ok, of eid now p "severityFromDomainDecision (sd_kind d)" "lm_v b"
          "stateReasonsFromDomainDecision (po_kind p) d" "lm_v (dc_warning g)" "lm_v (dc_critical g)" w] by auto
    then show ?thesis unfolding win pv using False med[OF False] by (simp add: verdict_def)
  qed
qed

text \<open>
  C36. The old detection path on raw samples and the new one on the domain window, on a successful probe after healthy
  samples that have a rolling median. They judge alike (no spike, or a spike of the same severity and the same median) if the
  latency reaches the warning threshold, if there are too few samples for the relative rule, or if the median and the
  configured multiplier are both positive or both 0. Otherwise they differ: with a median of 0 only the window path
  reports a warning, and with a multiplier of 0, which is documented to switch the relative rule off, only the raw path does.
\<close>

theorem detection_paths_agree:
  fixes eid :: string and now :: time
  assumes ok: "det_ok sd" and g: "domainSpikeConfigForState (po_kind p) (det_config sd) = Some g"
    and p: "po_reached p" "NewLatencyMillis (po_latency p) = Some l"
    and h: "healthy ss" and m: "Median (window_of ss) = Some b"
  defines "raw \<equiv> verdict (DetectAndRecordWithTcpQuality eid now p ss sd)"
    and "windowed \<equiv> verdict (DetectAndRecordWithWindowAndTcpQuality eid now p (window_of ss) sd)"
  shows "if fge (po_latency p) (lm_v (dc_warning g)) \<or> int (length ss) < sc_min_samples (det_config sd)
       \<or> (lm_v b = Fin 0 \<longleftrightarrow> sc_multiplier (det_config sd) = Fin 0)
     then raw = windowed
     else if lm_v b = Fin 0 then raw = Some None \<and> windowed = Some (Some (''warning'', Fin 0))
     else raw = Some (Some (''warning'', lm_v b)) \<and> windowed = Some None"
proof -
  obtain x where x: "lm_v l = Fin x" "po_latency p = Fin x" "0 \<le> x" using latency_Fin[OF p(2)] by blast
  let ?cur = "\<lparr>s_at = po_ts p, s_kind = po_kind p, s_latency = l, s_ok = True, s_err = []\<rparr>"
  have low: "\<not> fge (Fin x) (lm_v (dc_critical g))" if "\<not> fge (Fin x) (lm_v (dc_warning g))"
    using that config_multiplier(4)[OF g] by (auto simp: fle_iff)
  have lat: "lm_v (s_latency ?cur) = Fin x" by (simp add: x(1))
  note rules = relative_rules[OF h m g lat x(3)]
  show ?thesis
    unfolding raw_def windowed_def raw_path[OF ok g p(1)] window_path[OF ok g p m] x(2) healthy_median[OF h m] rules path_verdict_def
    by (cases "fge (Fin x) (lm_v (dc_warning g))"; cases "sc_min_samples (det_config sd) \<le> int (length ss)"; cases "lm_v b = Fin 0";
        cases "sc_multiplier (det_config sd) = Fin 0") (simp_all add: low not_le not_less)
qed

text \<open>
  They differ on failed ICMP probes. The window path treats a failed probe as no sample
  and never reports it, whereas the raw path judges the latency the probe came with and
  reports a critical spike when it reaches the threshold.
\<close>

lemma failed_icmp_paths_differ:
  assumes ok: "det_ok sd" and g: "domainSpikeConfigForState ''icmp'' (det_config sd) = Some g"
    and p: "po_kind p = ''icmp''" "\<not> po_reached p" "fge (po_latency p) (sc_icmp_critical (det_config sd))"
  shows "DetectAndRecordWithWindowAndTcpQuality eid now p w sd = Some (None, sd)
    \<and> (\<exists>m. verdict (DetectAndRecordWithTcpQuality eid now p ss sd) = Some (Some (''critical'', m)))"
proof
  have "s_ok cur = False \<Longrightarrow> sd_kind (DecideSpike cur w g) = SpikeDecisionNone" for cur
    by (simp add: DecideSpike_def no_spike_def)
  then show "DetectAndRecordWithWindowAndTcpQuality eid now p w sd = Some (None, sd)"
    using g p by (simp add: DetectAndRecordWithWindowAndTcpQuality_def kind_thresholds_def currentDomainSample_def Let_def)
next
  have th: "kind_thresholds (po_kind p) (det_config sd) = Some (sc_icmp_warning (det_config sd), sc_icmp_critical (det_config sd))"
    by (simp add: p kind_thresholds_def)
  from raw_detect[OF ok th, of ss eid now] p
  show "\<exists>m. verdict (DetectAndRecordWithTcpQuality eid now p ss sd) = Some (Some (''critical'', m))"
    by (auto simp: judge_raw_def verdict_def)
qed

subsection \<open>Concrete instances\<close>

definition probe_example :: "string \<Rightarrow> f64 \<Rightarrow> bool \<Rightarrow> probe_obs" where
  "probe_example kind lat reached = \<lparr>po_target = ''t'', po_kind = kind, po_latency = lat, po_ts = 5, po_reached = reached,
     po_delay = None, po_status = None, po_error = Some ''dial tcp: i/o Timeout'', po_trace = None, po_tcp = None\<rparr>"

lemma det_example_ok: "det_ok NewSpikeDetector"
  by (simp add: det_ok_def NewSpikeDetector_def DefaultSpikeConfig_def)

lemma http_failure_recorded_witness:
  "\<exists>ev sd' sd''. DetectAndRecordWithTcpQuality ''e1'' 9 (probe_example ''http'' (Fin 3) False) [] NewSpikeDetector = Some (Some ev, sd')
     \<and> ev_severity ev = ''critical'' \<and> hd (ev_reasons ev) = ''http_probe_timeout''
     \<and> GetSpikes ''t'' ''http'' 1 sd' = Some ([ev], sd'')"
proof -
  have "failure_reason (Some ''dial tcp: i/o Timeout'') = ''http_probe_timeout''" by code_simp
  then show ?thesis
    using http_failure_recorded[OF det_example_ok _ _ disjI1[OF refl], of "probe_example ''http'' (Fin 3) False" "''e1''" 9 "[]"]
    by (auto simp: probe_example_def)
qed

lemma icmp_config_example: "\<exists>g. domainSpikeConfigForState ''icmp'' (det_config NewSpikeDetector) = Some g"
  by (simp add: domainSpikeConfigForState_def NewSpikeDetector_def DefaultSpikeConfig_def NewSpikeConfig_def flt_iff is_nan_def is_inf_def)

lemma failed_icmp_paths_differ_witness:
  "DetectAndRecordWithWindowAndTcpQuality ''e1'' 9 (probe_example ''icmp'' (Fin 3000) False) empty_window NewSpikeDetector
     = Some (None, NewSpikeDetector)"
proof -
  obtain g where g: "domainSpikeConfigForState ''icmp'' (det_config NewSpikeDetector) = Some g" using icmp_config_example by blast
  show ?thesis
    using failed_icmp_paths_differ[OF det_example_ok g, of "probe_example ''icmp'' (Fin 3000) False"]
    by (simp add: probe_example_def NewSpikeDetector_def DefaultSpikeConfig_def fle_iff)
qed

definition idle_example :: "latency_sample list" where
  "idle_example = replicate 20 \<lparr>ls_ts = 1, ls_ms = Fin 0, ls_reach = True, ls_err = []\<rparr>"

lemma detection_paths_agree_witness:
  "verdict (DetectAndRecordWithTcpQuality ''e1'' 9 (probe_example ''icmp'' (Fin 3000) True)
      [\<lparr>ls_ts = 1, ls_ms = Fin 8, ls_reach = True, ls_err = []\<rparr>] NewSpikeDetector)
   = verdict (DetectAndRecordWithWindowAndTcpQuality ''e1'' 9 (probe_example ''icmp'' (Fin 3000) True)
      (window_of [\<lparr>ls_ts = 1, ls_ms = Fin 8, ls_reach = True, ls_err = []\<rparr>]) NewSpikeDetector)
   \<and> verdict (DetectAndRecordWithTcpQuality ''e1'' 9 (probe_example ''icmp'' (Fin 3) True) idle_example NewSpikeDetector) = Some None
   \<and> verdict (DetectAndRecordWithWindowAndTcpQuality ''e1'' 9 (probe_example ''icmp'' (Fin 3) True) (window_of idle_example) NewSpikeDetector)
     = Some (Some (''warning'', Fin 0))"
proof -
  let ?p = "probe_example ''icmp'' (Fin 3000) True" and ?s = "[\<lparr>ls_ts = 1, ls_ms = Fin 8, ls_reach = True, ls_err = []\<rparr>]"
    and ?q = "probe_example ''icmp'' (Fin 3) True"
  have k: "po_kind ?p = ''icmp''" "po_reached ?p" "NewLatencyMillis (po_latency ?p) = Some \<lparr>lm_v = Fin 3000\<rparr>"
    "po_kind ?q = ''icmp''" "po_reached ?q" "NewLatencyMillis (po_latency ?q) = Some \<lparr>lm_v = Fin 3\<rparr>"
    by (simp_all add: probe_example_def)
  obtain g where g: "domainSpikeConfigForState ''icmp'' (det_config NewSpikeDetector) = Some g" using icmp_config_example by blast
  have g': "domainSpikeConfigForState (po_kind ?p) (det_config NewSpikeDetector) = Some g"
    "domainSpikeConfigForState (po_kind ?q) (det_config NewSpikeDetector) = Some g" unfolding k by (rule g)+
  have w: "lm_v (dc_warning g) = Fin 500" using state_config_thresholds(1)[OF g]
    by (simp add: kind_thresholds_def NewSpikeDetector_def DefaultSpikeConfig_def)
  have m1: "Median (window_of ?s) = Some \<lparr>lm_v = Fin 8\<rparr>"
    by (simp add: window_of_def LatencySampleToDomainSample_def NewSampleWindow_def Median_def latencies_def)
  have m2: "Median (window_of idle_example) = Some \<lparr>lm_v = Fin 0\<rparr>" by code_simp
  have h: "healthy ?s" "healthy idle_example" by (simp_all add: healthy_def idle_example_def)
  show ?thesis
    using detection_paths_agree[OF det_example_ok g'(1) k(2,3) h(1) m1, of "''e1''" 9]
      detection_paths_agree[OF det_example_ok g'(2) k(5,6) h(2) m2, of "''e1''" 9]
    by (simp add: w probe_example_def fle_iff NewSpikeDetector_def DefaultSpikeConfig_def idle_example_def)
qed
end
