(* ===== verification/Capture_Store.thy ===== *)
theory Capture_Store
  imports Spike_Detector
begin

section \<open>The capture store: captures, cooldown anchors, in-flight reservations\<close>

text \<open>
  Models \<open>uvb76/state\<close>: \<open>diag_capture_retention.go\<close>, \<open>diag_capture_status.go\<close>,
  \<open>cooldown.go\<close> and \<open>cooldown_anchor_validation.go\<close>. The store keeps the captures of each
  spike event, and for each peer the time and the provenance of the last successful capture,
  on which the cooldown rests, and whether a capture is in flight. Every method takes the
  store's lock once and is one function on the store's record. The anchor validation is the exception: it takes a
  snapshot under the lock, validates without it, and takes it again to delete. Its models
  take two stores, the one at the snapshot and the one when the lock is taken again, which
  are equal when nothing happens in between.

  The current time, which the code reads from the clock, is an argument.
\<close>

record capture_store =
  cs_captures :: "string \<rightharpoonup> diag_capture list"
  cs_last :: "string \<rightharpoonup> time"
  cs_anchor :: "string \<rightharpoonup> cooldown_anchor"
  cs_max :: int
  cs_inflight :: "string \<rightharpoonup> bool"

definition NewCaptureStore :: capture_store where
  "NewCaptureStore = \<lparr>cs_captures = Map.empty, cs_last = Map.empty, cs_anchor = Map.empty, cs_max = 10,
     cs_inflight = Map.empty\<rparr>"

definition NewCaptureStoreWithMax :: "int \<Rightarrow> capture_store" where
  "NewCaptureStoreWithMax maxCaptures = \<lparr>cs_captures = Map.empty, cs_last = Map.empty, cs_anchor = Map.empty,
     cs_max = (if maxCaptures \<le> 0 then 10 else maxCaptures), cs_inflight = Map.empty\<rparr>"

definition CanonicalCaptureStatusFromDiagStatus :: "string \<Rightarrow> bool \<Rightarrow> string" where
  "CanonicalCaptureStatusFromDiagStatus status hasNetworkDiag =
     (if status = DiagCaptureStatusOK then (if hasNetworkDiag then CaptureStatusCaptured else CaptureStatusFailed)
      else if status = DiagCaptureStatusError then CaptureStatusFailed
      else if status = DiagCaptureStatusTimeout then CaptureStatusFailed
      else if status = DiagCaptureStatusUnavailable then CaptureStatusNotAttempted
      else if status = DiagCaptureStatusDisabled then CaptureStatusDisabled
      else if status = DiagCaptureStatusNoPeerMapping then CaptureStatusNotConfigured
      else CaptureStatusFailed)"

subsection \<open>Captures and anchors\<close>

definition isSuccessfulCooldownAnchorCapture :: "diag_capture \<Rightarrow> bool" where
  "isSuccessfulCooldownAnchorCapture c =
     (if cp_source c = [] then False
      else if cp_suppressed c then False
      else if cp_status c \<noteq> DiagCaptureStatusOK then False
      else if cp_capture_status c = [] then False
      else cp_capture_status c = CaptureStatusCaptured)"

definition store_capture :: "string \<Rightarrow> diag_capture \<Rightarrow> capture_store \<Rightarrow> capture_store" where
  "store_capture eventID c cs =
     (let captures = map_get [] (cs_captures cs) eventID;
          kept = (if int (length captures) \<ge> cs_max cs then tl captures else captures)
      in cs\<lparr>cs_captures := (cs_captures cs)(eventID \<mapsto> kept @ [c])\<rparr>)"

definition capture_anchor :: "string \<Rightarrow> diag_capture \<Rightarrow> string \<Rightarrow> string \<Rightarrow> cooldown_anchor" where
  "capture_anchor eventID c anchorTargetID anchorProbeKind =
     \<lparr>ca_event_id = [], ca_capture_id = eventID, ca_target_id = anchorTargetID, ca_probe_kind = anchorProbeKind,
      ca_source = cp_source c, ca_updated_by = cp_capture_status c, ca_created_at = cp_started_at c,
      ca_completed_at = cp_finished_at c, ca_created_from = ''diag_capture_success'', ca_is_warmup = False,
      ca_retained = False\<rparr>"

definition AddCaptureWithProvenance :: "string \<Rightarrow> diag_capture \<Rightarrow> string \<Rightarrow> string \<Rightarrow> capture_store \<Rightarrow> capture_store" where
  "AddCaptureWithProvenance eventID c anchorTargetID anchorProbeKind cs0 =
     (let cs = store_capture eventID c cs0
      in if isSuccessfulCooldownAnchorCapture c
         then cs\<lparr>cs_last := (cs_last cs)(cp_source c \<mapsto> cp_started_at c),
                 cs_anchor := (cs_anchor cs)(cp_source c \<mapsto> capture_anchor eventID c anchorTargetID anchorProbeKind)\<rparr>
         else cs)"

definition AddCapture :: "string \<Rightarrow> diag_capture \<Rightarrow> capture_store \<Rightarrow> capture_store" where
  "AddCapture eventID c cs0 =
     (let cs = store_capture eventID c cs0
      in if isSuccessfulCooldownAnchorCapture c
         then cs\<lparr>cs_last := (cs_last cs)(cp_source c \<mapsto> cp_started_at c),
                 cs_anchor := (cs_anchor cs)(cp_source c \<mapsto> capture_anchor eventID c [] [])\<rparr>
         else cs)"

definition GetCaptures :: "string \<Rightarrow> capture_store \<Rightarrow> diag_capture list" where
  "GetCaptures eventID cs = map_get [] (cs_captures cs) eventID"

definition GetLastCaptureTime :: "string \<Rightarrow> capture_store \<Rightarrow> time" where
  "GetLastCaptureTime peerName cs = map_get 0 (cs_last cs) peerName"

definition zero_anchor :: cooldown_anchor where
  "zero_anchor = \<lparr>ca_event_id = [], ca_capture_id = [], ca_target_id = [], ca_probe_kind = [], ca_source = [],
     ca_updated_by = [], ca_created_at = 0, ca_completed_at = None, ca_created_from = [], ca_is_warmup = False,
     ca_retained = False\<rparr>"

definition GetLastCaptureAnchor :: "string \<Rightarrow> capture_store \<Rightarrow> cooldown_anchor" where
  "GetLastCaptureAnchor peerName cs = map_get zero_anchor (cs_anchor cs) peerName"

definition GetAllLastCaptureAnchors :: "capture_store \<Rightarrow> string \<rightharpoonup> cooldown_anchor" where
  "GetAllLastCaptureAnchors cs = cs_anchor cs"

definition Clear :: "capture_store \<Rightarrow> capture_store" where
  "Clear cs = cs\<lparr>cs_captures := Map.empty, cs_last := Map.empty, cs_anchor := Map.empty, cs_inflight := Map.empty\<rparr>"

definition capture_count :: "capture_store \<Rightarrow> nat" where
  "capture_count cs = card (dom (cs_captures cs))"

definition SetLastCapture :: "string \<Rightarrow> time \<Rightarrow> capture_store \<Rightarrow> capture_store" where
  "SetLastCapture peerName t cs = cs\<lparr>cs_last := (cs_last cs)(peerName \<mapsto> t)\<rparr>"

definition SetLastCaptureAnchor :: "string \<Rightarrow> cooldown_anchor \<Rightarrow> capture_store \<Rightarrow> capture_store" where
  "SetLastCaptureAnchor peerName anchor cs =
     cs\<lparr>cs_last := (cs_last cs)(peerName \<mapsto> ca_created_at anchor), cs_anchor := (cs_anchor cs)(peerName \<mapsto> anchor)\<rparr>"

subsection \<open>Reservations\<close>

definition IsInFlight :: "string \<Rightarrow> capture_store \<Rightarrow> bool" where
  "IsInFlight peerName cs = map_get False (cs_inflight cs) peerName"

definition ReserveInFlight :: "string \<Rightarrow> capture_store \<Rightarrow> bool \<times> capture_store" where
  "ReserveInFlight peerName cs =
     (if map_get False (cs_inflight cs) peerName then (False, cs)
      else (True, cs\<lparr>cs_inflight := (cs_inflight cs)(peerName \<mapsto> True)\<rparr>))"

definition ReleaseInFlight :: "string \<Rightarrow> capture_store \<Rightarrow> capture_store" where
  "ReleaseInFlight peerName cs = cs\<lparr>cs_inflight := (cs_inflight cs)(peerName \<mapsto> False)\<rparr>"

subsection \<open>Cooldown\<close>

text \<open>\<open>time.Since(t)\<close> at time \<open>now\<close>, and \<open>d.Seconds()\<close>.\<close>

definition IsInCooldown :: "time \<Rightarrow> string \<Rightarrow> int \<Rightarrow> capture_store \<Rightarrow> bool" where
  "IsInCooldown now peerName cooldownSeconds cs =
     (case cs_last cs peerName of
        None \<Rightarrow> False
      | Some lastTime \<Rightarrow> time_sub now lastTime < seconds cooldownSeconds)"

definition duration_seconds :: "duration \<Rightarrow> f64" where
  "duration_seconds d =
     fadd (f_of_int (go_div d ns_per_sec)) (fdiv (f_of_int (go_rem d ns_per_sec)) (Fin 1000000000))"

definition CooldownRemaining :: "time \<Rightarrow> string \<Rightarrow> int \<Rightarrow> capture_store \<Rightarrow> int" where
  "CooldownRemaining now peerName cooldownSeconds cs =
     (case cs_last cs peerName of
        None \<Rightarrow> 0
      | Some lastTime \<Rightarrow>
          let remaining = wrap64 (seconds cooldownSeconds - time_sub now lastTime)
          in if remaining \<le> 0 then 0 else int_of_f (duration_seconds remaining))"

record cooldown_decision =
  cd_in_cooldown :: bool
  cd_key :: string
  cd_now :: time
  cd_last_success :: time
  cd_next_eligible :: time
  cd_remaining_ms :: int
  cd_seconds :: int
  cd_skipped_updates :: bool
  cd_anchor :: "cooldown_anchor option"

definition no_cooldown :: "string \<Rightarrow> time \<Rightarrow> int \<Rightarrow> cooldown_decision" where
  "no_cooldown peerName now cooldownSeconds =
     \<lparr>cd_in_cooldown = False, cd_key = peerName, cd_now = now, cd_last_success = 0, cd_next_eligible = 0,
      cd_remaining_ms = 0, cd_seconds = cooldownSeconds, cd_skipped_updates = False, cd_anchor = None\<rparr>"

text \<open>The computation once a last success is known, shared by the two evaluations.\<close>

definition cooldown_since :: "string \<Rightarrow> time \<Rightarrow> int \<Rightarrow> time \<Rightarrow> cooldown_anchor option \<Rightarrow> cooldown_decision" where
  "cooldown_since peerName now cooldownSeconds lastTime anchor =
     (let d = (no_cooldown peerName now cooldownSeconds)
                \<lparr>cd_last_success := lastTime, cd_next_eligible := lastTime + seconds cooldownSeconds\<rparr>;
          elapsed = time_sub now lastTime;
          cooldownDuration = seconds cooldownSeconds
      in if elapsed \<ge> cooldownDuration then d
         else d\<lparr>cd_in_cooldown := True, cd_remaining_ms := milliseconds (wrap64 (cooldownDuration - elapsed)),
                cd_anchor := anchor\<rparr>)"

definition EvaluateCooldown :: "time \<Rightarrow> string \<Rightarrow> int \<Rightarrow> capture_store \<Rightarrow> cooldown_decision" where
  "EvaluateCooldown now peerName cooldownSeconds cs =
     (case cs_last cs peerName of
        None \<Rightarrow> no_cooldown peerName now cooldownSeconds
      | Some lastTime \<Rightarrow>
          if is_zero_time lastTime then no_cooldown peerName now cooldownSeconds
          else cooldown_since peerName now cooldownSeconds lastTime (cs_anchor cs peerName))"

definition AnchorVisibilityReasonRetained :: string where [simp]: "AnchorVisibilityReasonRetained = ''retained_visible''"

definition zero_cooldown_info :: cooldown_info where
  "zero_cooldown_info = \<lparr>ci_scope = [], ci_last_success = None, ci_next_eligible = None, ci_source_spike_id = [],
     ci_source_retained = False, ci_source_target_id = [], ci_cooldown_seconds = 0, ci_remaining_ms = None,
     ci_skipped_updates = False, ci_capture_key = [], ci_decision_now = None, ci_anchor_visible = False,
     ci_artifact_visible = False, ci_timeline_visible = False, ci_visibility_reason = [], ci_anchor_capture_id = [],
     ci_anchor_target_id = [], ci_anchor_probe_kind = [], ci_anchor_source = [], ci_suppressed_kind = [],
     ci_cross_probe = False, ci_anchor_created_at = None, ci_updated_by = [], ci_created_from = [],
     ci_is_warmup = False, ci_summary = None, ci_degraded = False, ci_degraded_reason = []\<rparr>"

definition BuildCooldownInfoFromDecision :: "cooldown_decision \<Rightarrow> string \<Rightarrow> cooldown_info option" where
  "BuildCooldownInfoFromDecision d source =
     (if \<not> cd_in_cooldown d then None
      else let info = zero_cooldown_info\<lparr>ci_scope := ''per_diagnostic_peer'', ci_last_success := Some (cd_last_success d),
                 ci_next_eligible := Some (cd_next_eligible d), ci_cooldown_seconds := cd_seconds d,
                 ci_remaining_ms := Some (cd_remaining_ms d), ci_skipped_updates := cd_skipped_updates d,
                 ci_capture_key := cd_key d, ci_decision_now := Some (cd_now d),
                 ci_anchor_visible := \<not> is_zero_time (cd_last_success d),
                 ci_visibility_reason := AnchorVisibilityReasonRetained\<rparr>
        in case cd_anchor d of
             None \<Rightarrow> Some info
           | Some a \<Rightarrow>
               Some (info\<lparr>ci_anchor_capture_id := ca_capture_id a, ci_anchor_target_id := ca_target_id a,
                 ci_anchor_probe_kind := ca_probe_kind a, ci_anchor_source := ca_source a,
                 ci_anchor_created_at := (if is_zero_time (ca_created_at a) then None else Some (ca_created_at a)),
                 ci_updated_by := ca_updated_by a, ci_created_from := ca_created_from a, ci_is_warmup := ca_is_warmup a\<rparr>))"

definition GetCooldownInfoForSkippedCapture :: "time \<Rightarrow> string \<Rightarrow> int \<Rightarrow> capture_store \<Rightarrow> cooldown_info option" where
  "GetCooldownInfoForSkippedCapture now peerName cooldownSeconds cs =
     BuildCooldownInfoFromDecision (EvaluateCooldown now peerName cooldownSeconds cs) peerName"

subsection \<open>Protection\<close>

record spike_capture_info =
  sci_status :: string
  sci_exists :: bool
  sci_protected :: bool
  sci_cooldown :: "cooldown_info option"

definition GetCaptureInfo :: "string \<Rightarrow> bool \<Rightarrow> capture_store \<Rightarrow> spike_capture_info" where
  "GetCaptureInfo eventID isInFlight cs =
     (let info = (\<lambda>status ex prot. \<lparr>sci_status = status, sci_exists = ex, sci_protected = prot, sci_cooldown = None\<rparr>)
      in if isInFlight then info CaptureStatusInProgress False True
         else let captures = GetCaptures eventID cs
           in if length captures = 0 then info CaptureStatusNone False False
              else let c = last captures; diag = is_some (cp_network_diag c)
                in if cp_suppressed c
                   then \<lparr>sci_status = CaptureStatusSkippedCooldown, sci_exists = False, sci_protected = False,
                         sci_cooldown = cp_cooldown_info c\<rparr>
                   else if cp_status c = DiagCaptureStatusOK then info CaptureStatusCaptured diag True
                   else if cp_status c = DiagCaptureStatusTimeout then info CaptureStatusFailed diag diag
                   else if cp_status c = DiagCaptureStatusError then info CaptureStatusFailed diag diag
                   else if cp_status c = DiagCaptureStatusDisabled then info CaptureStatusDisabled False False
                   else if cp_status c = DiagCaptureStatusNoPeerMapping then info CaptureStatusNotConfigured False False
                   else info CaptureStatusNotAttempted False False)"

definition GetProtectionInfo :: "capture_store \<Rightarrow> protection" where
  "GetProtectionInfo cs eventID =
     (if map_get False (cs_inflight cs) eventID then (True, False)
      else let captures = map_get [] (cs_captures cs) eventID
        in if length captures = 0 then (False, False)
           else let c = last captures; diag = is_some (cp_network_diag c)
             in if cp_suppressed c then (False, False)
                else if cp_status c = DiagCaptureStatusOK then (True, diag)
                else if cp_status c = DiagCaptureStatusTimeout then (diag, diag)
                else if cp_status c = DiagCaptureStatusError then (diag, diag)
                else (False, diag))"

subsection \<open>Anchor validation\<close>

record anchor_validation =
  av_valid :: bool
  av_reason :: string
  av_retained :: bool
  av_captured :: bool

type_synonym anchor_validator = "cooldown_anchor \<Rightarrow> anchor_validation"

definition invalid_anchor :: "string \<Rightarrow> anchor_validation" where
  "invalid_anchor reason = \<lparr>av_valid = False, av_reason = reason, av_retained = False, av_captured = False\<rparr>"

definition spike_matches :: "cooldown_anchor \<Rightarrow> spike_event \<Rightarrow> bool" where
  "spike_matches a spike = (ev_id spike = ca_capture_id a \<or> ev_id spike = ca_event_id a)"

definition ValidateAnchorWithCaptureStatus ::
  "(string \<Rightarrow> string \<Rightarrow> spike_event list) \<Rightarrow> (string \<Rightarrow> diag_capture list) \<Rightarrow> anchor_validator" where
  "ValidateAnchorWithCaptureStatus spikeStoreGetter captureStoreGetter a =
     (if ca_capture_id a = [] then invalid_anchor ''missing_anchor_capture_id''
      else if ca_target_id a = [] then invalid_anchor ''missing_anchor_target_id''
      else if \<not> list_ex (spike_matches a) (spikeStoreGetter (ca_target_id a) (ca_probe_kind a))
        then invalid_anchor ''anchor_spike_evicted''
      else if \<not> list_ex (\<lambda>c. cp_status c = DiagCaptureStatusOK \<and> \<not> cp_suppressed c) (captureStoreGetter (ca_capture_id a))
        then \<lparr>av_valid = False, av_reason = ''anchor_spike_retained_capture_not_ok'', av_retained = True, av_captured = False\<rparr>
      else \<lparr>av_valid = True, av_reason = ''anchor_spike_retained_capture_ok'', av_retained = True, av_captured = True\<rparr>)"

definition ValidateAnchorAgainstTimeline :: "(string \<Rightarrow> string \<Rightarrow> spike_event list) \<Rightarrow> anchor_validator" where
  "ValidateAnchorAgainstTimeline spikeStoreGetter a =
     (if ca_capture_id a = [] then invalid_anchor ''missing_anchor_capture_id''
      else if ca_target_id a = [] then invalid_anchor ''missing_anchor_target_id''
      else if list_ex (spike_matches a) (spikeStoreGetter (ca_target_id a) (ca_probe_kind a))
        then \<lparr>av_valid = True, av_reason = ''anchor_spike_retained'', av_retained = True, av_captured = True\<rparr>
      else invalid_anchor ''anchor_spike_evicted'')"

definition clearCooldownIfSame :: "string \<Rightarrow> time \<Rightarrow> string \<Rightarrow> capture_store \<Rightarrow> bool \<times> capture_store" where
  "clearCooldownIfSame peerName expectedTime expectedAnchorID cs =
     (case cs_last cs peerName of
        None \<Rightarrow> (False, cs)
      | Some currentTime \<Rightarrow>
          if currentTime \<noteq> expectedTime then (False, cs)
          else if expectedAnchorID \<noteq> [] \<and>
                  (case cs_anchor cs peerName of None \<Rightarrow> True | Some a \<Rightarrow> ca_capture_id a \<noteq> expectedAnchorID)
          then (False, cs)
          else (True, cs\<lparr>cs_last := (cs_last cs)(peerName := None), cs_anchor := (cs_anchor cs)(peerName := None)\<rparr>))"

definition EvaluateCooldownWithAnchorValidation ::
  "time \<Rightarrow> string \<Rightarrow> int \<Rightarrow> anchor_validator option \<Rightarrow> capture_store \<Rightarrow> capture_store \<Rightarrow> cooldown_decision \<times> capture_store" where
  "EvaluateCooldownWithAnchorValidation now peerName cooldownSeconds validator cs later =
     (let nothing = no_cooldown peerName now cooldownSeconds
      in case cs_last cs peerName of
           None \<Rightarrow> (nothing, later)
         | Some lastTime \<Rightarrow>
             if is_zero_time lastTime then (nothing, later)
             else (case cs_anchor cs peerName of
                     None \<Rightarrow> (nothing, snd (clearCooldownIfSame peerName lastTime [] later))
                   | Some anchor \<Rightarrow>
                       (case validator of
                          None \<Rightarrow> (cooldown_since peerName now cooldownSeconds lastTime (Some anchor), later)
                        | Some v \<Rightarrow>
                            if \<not> av_valid (v anchor)
                            then (nothing, snd (clearCooldownIfSame peerName lastTime (ca_capture_id anchor) later))
                            else (cooldown_since peerName now cooldownSeconds lastTime
                                    (Some (anchor\<lparr>ca_retained := av_retained (v anchor)\<rparr>)), later))))"

definition ClearStaleCooldownForPeer ::
  "string \<Rightarrow> anchor_validator option \<Rightarrow> capture_store \<Rightarrow> capture_store \<Rightarrow> bool \<times> capture_store" where
  "ClearStaleCooldownForPeer peerName validator cs later =
     (case (cs_anchor cs peerName, cs_last cs peerName, validator) of
        (Some anchor, Some lastTime, Some v) \<Rightarrow>
          if \<not> av_valid (v anchor)
          then (True, snd (clearCooldownIfSame peerName lastTime (ca_capture_id anchor) later))
          else (False, later)
      | _ \<Rightarrow> (False, later))"

text \<open>The order in which \<open>range\<close> visits the map is the argument \<open>peers\<close>.\<close>

definition stale_peers :: "string list \<Rightarrow> anchor_validator \<Rightarrow> capture_store \<Rightarrow> (string \<times> time \<times> string) list" where
  "stale_peers peers v cs =
     concat (map (\<lambda>peer. case (cs_anchor cs peer, cs_last cs peer) of
         (Some anchor, Some lastTime) \<Rightarrow> if \<not> av_valid (v anchor) then [(peer, lastTime, ca_capture_id anchor)] else []
       | _ \<Rightarrow> []) peers)"

definition ClearAllStaleCooldowns ::
  "string list \<Rightarrow> anchor_validator option \<Rightarrow> capture_store \<Rightarrow> capture_store \<Rightarrow> int \<times> capture_store" where
  "ClearAllStaleCooldowns peers validator cs later =
     (case validator of
        None \<Rightarrow> (0, later)
      | Some v \<Rightarrow>
          fold (\<lambda>(peer, t, i) (cleared, s). let (ok, s') = clearCooldownIfSame peer t i s
                  in (if ok then cleared + 1 else cleared, s'))
            (stale_peers peers v cs) (0, later))"

record anchor_proof =
  ap_spike_id :: string
  ap_retained :: bool
  ap_reason :: string
  ap_captured_at :: time

definition BuildCooldownInfoWithAnchorProof :: "cooldown_decision \<Rightarrow> string \<Rightarrow> anchor_proof option \<Rightarrow> cooldown_info option" where
  "BuildCooldownInfoWithAnchorProof d source prf =
     (case (BuildCooldownInfoFromDecision d source, prf) of
        (Some info, Some p) \<Rightarrow> Some (info\<lparr>ci_source_spike_id := ap_spike_id p, ci_source_retained := ap_retained p\<rparr>)
      | (info, _) \<Rightarrow> info)"

subsection \<open>The store invariant\<close>

text \<open>
  Per event at most \<open>cs_max\<close> captures, and an anchor for a peer only beside the time it
  records, under its own peer.
\<close>

definition store_ok :: "capture_store \<Rightarrow> bool" where
  "store_ok cs \<longleftrightarrow> 0 < cs_max cs \<and> (\<forall>e. int (length (GetCaptures e cs)) \<le> cs_max cs)
     \<and> (\<forall>peer a. cs_anchor cs peer = Some a \<longrightarrow>
          cs_last cs peer = Some (ca_created_at a) \<and> ca_source a = peer \<and> ca_updated_by a = CaptureStatusCaptured)"

lemma store_capture_fields [simp]:
  "cs_last (store_capture e c cs) = cs_last cs" "cs_anchor (store_capture e c cs) = cs_anchor cs"
  "cs_max (store_capture e c cs) = cs_max cs" "cs_inflight (store_capture e c cs) = cs_inflight cs"
  by (simp_all add: store_capture_def Let_def)

lemma GetCaptures_store:
  assumes "store_ok cs"
  shows "GetCaptures e' (store_capture e c cs) =
     (if e' = e then take_last (nat (cs_max cs)) (GetCaptures e cs @ [c]) else GetCaptures e' cs)"
proof -
  have len: "length (GetCaptures e cs) \<le> nat (cs_max cs)" "0 < nat (cs_max cs)"
    using assms by (auto simp: store_ok_def nat_le_iff le_nat_iff)
  have "take_last (nat (cs_max cs)) (GetCaptures e cs @ [c])
      = (if length (GetCaptures e cs) < nat (cs_max cs) then GetCaptures e cs else tl (GetCaptures e cs)) @ [c]"
    using len by (rule take_last_snoc_cases)
  then show ?thesis using len
    by (auto simp: store_capture_def Let_def GetCaptures_def)
qed

definition add_any :: "bool \<Rightarrow> string \<Rightarrow> string \<Rightarrow> string \<Rightarrow> diag_capture \<Rightarrow> capture_store \<Rightarrow> capture_store" where
  "add_any prov target kind e c cs = (if prov then AddCaptureWithProvenance e c target kind cs else AddCapture e c cs)"

lemma add_any_fields:
  "cs_max (add_any prov t k e c cs) = cs_max cs" "cs_inflight (add_any prov t k e c cs) = cs_inflight cs"
  "GetCaptures e' (add_any prov t k e c cs) = GetCaptures e' (store_capture e c cs)"
  "cs_last (add_any prov t k e c cs) = (if isSuccessfulCooldownAnchorCapture c then (cs_last cs)(cp_source c \<mapsto> cp_started_at c) else cs_last cs)"
  "cs_anchor (add_any prov t k e c cs) = (if isSuccessfulCooldownAnchorCapture c
     then (cs_anchor cs)(cp_source c \<mapsto> capture_anchor e c (if prov then t else []) (if prov then k else [])) else cs_anchor cs)"
  by (simp_all add: add_any_def AddCapture_def AddCaptureWithProvenance_def Let_def GetCaptures_def)

lemma success_fields:
  "isSuccessfulCooldownAnchorCapture c \<longleftrightarrow> cp_source c \<noteq> [] \<and> \<not> cp_suppressed c \<and> cp_status c = DiagCaptureStatusOK
     \<and> cp_capture_status c = CaptureStatusCaptured"
  by (auto simp: isSuccessfulCooldownAnchorCapture_def)

lemma add_any_ok: "store_ok cs \<Longrightarrow> store_ok (add_any prov t k e c cs)"
proof -
  assume ok: "store_ok cs"
  have "int (length (GetCaptures e' (add_any prov t k e c cs))) \<le> cs_max cs" for e'
    using ok by (auto simp: add_any_fields GetCaptures_store store_ok_def)
  moreover have "cs_anchor (add_any prov t k e c cs) peer = Some a \<Longrightarrow>
      cs_last (add_any prov t k e c cs) peer = Some (ca_created_at a) \<and> ca_source a = peer \<and> ca_updated_by a = CaptureStatusCaptured" for peer a
    using ok by (cases "isSuccessfulCooldownAnchorCapture c"; cases "peer = cp_source c")
      (auto simp: add_any_fields store_ok_def capture_anchor_def success_fields)
  ultimately show ?thesis using ok by (simp add: store_ok_def add_any_fields)
qed

lemma clear_same_ok: "store_ok cs \<Longrightarrow> store_ok (snd (clearCooldownIfSame p t i cs))"
  by (auto simp: clearCooldownIfSame_def store_ok_def GetCaptures_def split: option.splits)

interpretation captures: bounded_log "AddCapture e" id "GetCaptures e" "\<lambda>cs. nat (cs_max cs)" store_ok "\<lambda>_. True" for e
proof
  fix cs :: capture_store and c
  assume ok: "store_ok cs"
  have eq: "AddCapture e c cs = add_any False [] [] e c cs" by (simp add: add_any_def)
  show "store_ok (AddCapture e c cs)" using add_any_ok[OF ok] by (simp add: eq)
  show "nat (cs_max (AddCapture e c cs)) = nat (cs_max cs)" by (simp add: eq add_any_fields)
  show "GetCaptures e (AddCapture e c cs) = take_last (nat (cs_max cs)) (GetCaptures e cs @ [id c])"
    by (simp add: eq add_any_fields GetCaptures_store[OF ok])
next
  fix cs assume "store_ok cs"
  then show "length (GetCaptures e cs) \<le> nat (cs_max cs)" by (auto simp: store_ok_def nat_le_iff le_nat_iff)
qed

lemma store_ops_ok:
  "store_ok s \<Longrightarrow> store_ok (AddCapture e c s)" "store_ok s \<Longrightarrow> store_ok (AddCaptureWithProvenance e c t k s)"
  "store_ok s \<Longrightarrow> store_ok (snd (ReserveInFlight p s))" "store_ok s \<Longrightarrow> store_ok (ReleaseInFlight p s)"
proof -
  assume ok: "store_ok s"
  show "store_ok (AddCapture e c s)" by (rule captures.push_ok[OF ok TrueI])
  show "store_ok (AddCaptureWithProvenance e c t k s)" using add_any_ok[OF ok, of True t k e c] unfolding add_any_def by simp
  show "store_ok (snd (ReserveInFlight p s))" "store_ok (ReleaseInFlight p s)"
    using ok unfolding store_ok_def by (simp_all add: ReserveInFlight_def ReleaseInFlight_def GetCaptures_def)
qed

text \<open>
  C37. The eight operations through which the program changes the store preserve its invariant: no event has more than the
  maximum of captures, and every anchor belongs to the recorded time of the last success of
  its own peer. The helpers of its tests, \<open>SetLastCapture\<close> among them, are none of these operations; that one can separate
  an anchor from the time of its success.
\<close>

theorem store_invariant:
  assumes ok: "store_ok cs"
  shows "store_ok (AddCapture e c cs) \<and> store_ok (AddCaptureWithProvenance e c t k cs)
    \<and> store_ok (snd (ReserveInFlight p cs)) \<and> store_ok (ReleaseInFlight p cs) \<and> store_ok (Clear cs)
    \<and> store_ok (snd (EvaluateCooldownWithAnchorValidation now p n v cs' cs))
    \<and> store_ok (snd (ClearStaleCooldownForPeer p v cs' cs))
    \<and> store_ok (snd (ClearAllStaleCooldowns ps v cs' cs))"
proof -
  have "store_ok (AddCapture e c cs)" using captures.push_ok[OF ok] by simp
  moreover have "store_ok (AddCaptureWithProvenance e c t k cs)" using add_any_ok[OF ok, of True] by (simp add: add_any_def)
  moreover have "store_ok (snd (ReserveInFlight p cs))" "store_ok (ReleaseInFlight p cs)" "store_ok (Clear cs)"
    using ok by (simp_all add: store_ok_def ReserveInFlight_def ReleaseInFlight_def Clear_def GetCaptures_def)
  moreover have "store_ok (snd (EvaluateCooldownWithAnchorValidation now p n v cs' cs))"
    "store_ok (snd (ClearStaleCooldownForPeer p v cs' cs))"
    using ok by (auto simp: EvaluateCooldownWithAnchorValidation_def ClearStaleCooldownForPeer_def Let_def clear_same_ok
        split: option.splits)
  moreover have "store_ok (snd (fold (\<lambda>(peer, t, i) (cleared, s). let (ok, s') = clearCooldownIfSame peer t i s
       in (if ok then cleared + 1 else cleared, s')) xs (m, s)))" if "store_ok s" for xs s and m :: int
    using that
  proof (induction xs arbitrary: s m)
    case (Cons x xs)
    obtain p t i where "x = (p, t, i)" by (cases x) auto
    with Cons show ?case using clear_same_ok[of s p t i] by (auto simp: Let_def split_beta)
  qed simp
  ultimately show ?thesis using ok by (auto simp: ClearAllStaleCooldowns_def split: option.split)
qed

text \<open>
  Only a successful capture moves a cooldown. Adding a capture that was skipped, failed,
  suppressed or has no source leaves the cooldown state of every peer as it was; adding a
  successful one sets that of its own peer to its start time, with the event as provenance,
  and of no other.
\<close>

theorem anchors_only_by_success:
  "(cs_last (AddCaptureWithProvenance e c t k cs), cs_anchor (AddCaptureWithProvenance e c t k cs)) =
     (if cp_source c \<noteq> [] \<and> \<not> cp_suppressed c \<and> cp_status c = DiagCaptureStatusOK \<and> cp_capture_status c = CaptureStatusCaptured
      then ((cs_last cs)(cp_source c \<mapsto> cp_started_at c), (cs_anchor cs)(cp_source c \<mapsto> capture_anchor e c t k))
      else (cs_last cs, cs_anchor cs))
   \<and> cs_last (AddCapture e c cs) = cs_last (AddCaptureWithProvenance e c t k cs)
   \<and> dom (cs_anchor (AddCapture e c cs)) = dom (cs_anchor (AddCaptureWithProvenance e c t k cs))"
  using add_any_fields(4,5)[of False t k e c cs] add_any_fields(4,5)[of True t k e c cs]
  by (auto simp: add_any_def success_fields)

subsection \<open>Cooldown\<close>

lemma cooldown_since_in:
  "cd_in_cooldown (cooldown_since p now n l a) \<longleftrightarrow> time_sub now l < seconds n"
  by (auto simp: cooldown_since_def Let_def no_cooldown_def)

text \<open>Seconds within a century, and instants within the range in which \<open>Sub\<close> is exact.\<close>

lemma time_sub_bounds: "in_int64 (time_sub t u)"
  by (simp add: time_sub_def in_int64_def int64_min_def int64_max_def)

text \<open>
  The decision is exact and its metadata consistent. A peer is in cooldown exactly while
  less than the cooldown has passed since its last success; then the remaining time is
  positive up to rounding, is the time until the reported next eligible instant, and from
  that instant on the peer is no longer in cooldown.
\<close>

theorem EvaluateCooldown_exact:
  assumes l: "cs_last cs p = Some l" "l \<noteq> 0" and n: "0 \<le> n" "n \<le> 9223372036"
    and now: "in_int64 (now - l)" "l \<le> now"
  defines "d \<equiv> EvaluateCooldown now p n cs"
  shows "(cd_in_cooldown d \<longleftrightarrow> now < cd_next_eligible d) \<and> cd_next_eligible d = l + n * ns_per_sec
    \<and> cd_remaining_ms d = (if now < cd_next_eligible d then (cd_next_eligible d - now) div ns_per_ms else 0)
    \<and> 0 \<le> cd_remaining_ms d \<and> cd_remaining_ms d \<le> n * 1000
    \<and> \<not> cd_skipped_updates d"
proof -
  have s: "seconds n = n * ns_per_sec" by (rule seconds_exact[OF n])
  have t: "time_sub now l = now - l" by (rule time_sub_exact[OF now(1)])
  have d: "d = cooldown_since p now n l (cs_anchor cs p)"
    using l by (simp add: d_def EvaluateCooldown_def is_zero_time_def)
  have next_: "cd_next_eligible d = l + n * ns_per_sec" by (simp add: d cooldown_since_def Let_def s)
  have inn: "cd_in_cooldown d \<longleftrightarrow> now < l + n * ns_per_sec" unfolding d cooldown_since_in s t by linarith
  have rem: "cd_remaining_ms d = (if now < l + n * ns_per_sec then (l + n * ns_per_sec - now) div ns_per_ms else 0)"
  proof (cases "now < l + n * ns_per_sec")
    case True
    have w: "wrap64 (n * ns_per_sec - (now - l)) = n * ns_per_sec - (now - l)"
      by (rule wrap64_id) (use True now n in \<open>simp add: in_int64_def ns_per_sec_def\<close>)
    have "milliseconds (n * ns_per_sec - (now - l)) = (l + n * ns_per_sec - now) div ns_per_ms"
      using True by (simp add: milliseconds_def go_div_nonneg ns_per_ms_def algebra_simps)
    then show ?thesis using True by (simp add: d cooldown_since_def Let_def s t w)
  qed (simp add: d cooldown_since_def Let_def s t no_cooldown_def)
  moreover have "(l + n * ns_per_sec - now) div ns_per_ms \<le> n * 1000"
  proof -
    have "(l + n * ns_per_sec - now) div ns_per_ms \<le> (n * ns_per_sec) div ns_per_ms"
      using now by (intro zdiv_mono1) (simp_all add: ns_per_ms_def)
    then show ?thesis by (simp add: ns_per_ms_def ns_per_sec_def)
  qed
  moreover have "0 \<le> (l + n * ns_per_sec - now) div ns_per_ms" if "now < l + n * ns_per_sec"
    using that by (intro div_int_pos_iff[THEN iffD2]) (simp add: ns_per_ms_def)
  ultimately show ?thesis using next_ inn n
    by (auto simp: d cooldown_since_def Let_def no_cooldown_def)
qed

text \<open>
  The store and the domain package decide alike: for a positive cooldown a peer is in
  cooldown exactly when \<open>DecideCapture\<close>, enabled and configured, skips for the
  recorded last success.
\<close>

theorem cooldown_agrees_with_domain:
  assumes "0 < seconds n"
  shows "cd_in_cooldown (EvaluateCooldown now p n cs) \<longleftrightarrow>
     cd_kind (DecideCapture now (GetLastCaptureTime p cs)
       \<lparr>dcc_enabled = True, dcc_configured = True, dcc_cooldown = seconds n\<rparr>) = CaptureDecisionSkipCooldown"
  using assms
  by (auto simp: EvaluateCooldown_def DecideCapture_def GetLastCaptureTime_def map_get_def is_zero_time_def
      cooldown_since_in no_cooldown_def split: option.split)

subsection \<open>No suppression without evidence\<close>

text \<open>
  C13. No ghost suppression. With the production validator a peer is held in cooldown only
  if the store has an anchor for it, the anchor's spike is still in the timeline that the
  validator reads, and some capture of it succeeded without being suppressed; the decision
  then carries that anchor, marked as retained.
\<close>

theorem no_ghost_suppression:
  assumes "cd_in_cooldown (fst (EvaluateCooldownWithAnchorValidation now p n
      (Some (ValidateAnchorWithCaptureStatus spikes caps)) cs later))"
  shows "\<exists>a. cs_anchor cs p = Some a
    \<and> cd_anchor (fst (EvaluateCooldownWithAnchorValidation now p n
        (Some (ValidateAnchorWithCaptureStatus spikes caps)) cs later)) = Some (a\<lparr>ca_retained := True\<rparr>)
    \<and> (\<exists>s \<in> set (spikes (ca_target_id a) (ca_probe_kind a)). spike_matches a s)
    \<and> (\<exists>c \<in> set (caps (ca_capture_id a)). cp_status c = DiagCaptureStatusOK \<and> \<not> cp_suppressed c)"
proof -
  from assms obtain l a where la: "cs_last cs p = Some l" "\<not> is_zero_time l" "cs_anchor cs p = Some a"
    "av_valid (ValidateAnchorWithCaptureStatus spikes caps a)"
    by (auto simp: EvaluateCooldownWithAnchorValidation_def Let_def no_cooldown_def split: option.splits if_splits)
  have v: "\<exists>s \<in> set (spikes (ca_target_id a) (ca_probe_kind a)). spike_matches a s"
    "\<exists>c \<in> set (caps (ca_capture_id a)). cp_status c = DiagCaptureStatusOK \<and> \<not> cp_suppressed c"
    "av_retained (ValidateAnchorWithCaptureStatus spikes caps a)"
    using la(4) by (simp_all add: ValidateAnchorWithCaptureStatus_def invalid_anchor_def list_ex_iff split: if_splits)
  have eq: "fst (EvaluateCooldownWithAnchorValidation now p n (Some (ValidateAnchorWithCaptureStatus spikes caps)) cs later)
     = cooldown_since p now n l (Some (a\<lparr>ca_retained := True\<rparr>))"
    using la v(3) by (simp add: EvaluateCooldownWithAnchorValidation_def Let_def)
  have "cd_anchor (cooldown_since p now n l (Some (a\<lparr>ca_retained := True\<rparr>))) = Some (a\<lparr>ca_retained := True\<rparr>)"
    using assms unfolding eq by (auto simp: cooldown_since_def Let_def no_cooldown_def)
  then show ?thesis using la(3) v(1,2) unfolding eq by blast
qed

lemma clear_same_newer:
  "cs_last later p \<noteq> Some t \<Longrightarrow> clearCooldownIfSame p t i later = (False, later)"
  by (auto simp: clearCooldownIfSame_def split: option.split)

lemma clear_same_other: "q \<noteq> p \<Longrightarrow> cs_last (snd (clearCooldownIfSame p t i s)) q = cs_last s q
    \<and> cs_anchor (snd (clearCooldownIfSame p t i s)) q = cs_anchor s q"
  by (auto simp: clearCooldownIfSame_def split: option.split)

text \<open>
  The validation is safe against races. It runs without the lock; if a newer capture of
  the peer succeeded meanwhile, nothing is deleted, and the state of the other peers is
  never touched. If nothing happened meanwhile and the anchor is invalid, the cooldown is
  gone, and the next evaluation of the peer starts cold.
\<close>

theorem anchor_validation_race_safe:
  fixes now :: time and p :: string and n :: int and v :: anchor_validator
  defines "result \<equiv> \<lambda>cs later. EvaluateCooldownWithAnchorValidation now p n (Some v) cs later"
  shows "(cs_last later p \<noteq> cs_last cs p \<longrightarrow> snd (result cs later) = later)
    \<and> (\<forall>q. q \<noteq> p \<longrightarrow> cs_last (snd (result cs later)) q = cs_last later q \<and> cs_anchor (snd (result cs later)) q = cs_anchor later q)
    \<and> (\<forall>a. cs_anchor cs p = Some a \<and> \<not> av_valid (v a) \<longrightarrow>
         \<not> cd_in_cooldown (fst (result cs later))
         \<and> \<not> cd_in_cooldown (EvaluateCooldown now' p n (snd (result cs cs))))"
proof (intro conjI)
  show "cs_last later p \<noteq> cs_last cs p \<longrightarrow> snd (result cs later) = later"
    by (auto simp: result_def EvaluateCooldownWithAnchorValidation_def Let_def clear_same_newer split: option.split)
  show "\<forall>q. q \<noteq> p \<longrightarrow> cs_last (snd (result cs later)) q = cs_last later q \<and> cs_anchor (snd (result cs later)) q = cs_anchor later q"
    by (auto simp: result_def EvaluateCooldownWithAnchorValidation_def Let_def clear_same_other split: option.split)
  show "\<forall>a. cs_anchor cs p = Some a \<and> \<not> av_valid (v a) \<longrightarrow>
         \<not> cd_in_cooldown (fst (result cs later))
         \<and> \<not> cd_in_cooldown (EvaluateCooldown now' p n (snd (result cs cs)))"
    by (auto simp: result_def EvaluateCooldownWithAnchorValidation_def Let_def clearCooldownIfSame_def
        EvaluateCooldown_def no_cooldown_def split: option.split)
qed

subsection \<open>Protection\<close>

text \<open>
  The two protection queries agree: the spike detector's \<open>GetProtectionInfo\<close> protects
  an event exactly when \<open>GetCaptureInfo\<close>, told whether the event is in flight, reports it
  as protected.
\<close>

lemma protection_queries_agree:
  "fst (GetProtectionInfo cs e) = sci_protected (GetCaptureInfo e (IsInFlight e cs) cs)"
  by (simp add: GetProtectionInfo_def GetCaptureInfo_def GetCaptures_def IsInFlight_def Let_def)

definition successful :: "diag_capture \<Rightarrow> diag_capture" where
  "successful c = c\<lparr>cp_status := DiagCaptureStatusOK, cp_suppressed := False\<rparr>"

lemma AddCapture_protection:
  assumes "store_ok cs"
  shows "GetProtectionInfo (AddCapture i c cs) j =
    (if j = i \<and> \<not> IsInFlight i cs
     then (if cp_suppressed c then (False, False)
           else if cp_status c = DiagCaptureStatusOK then (True, is_some (cp_network_diag c))
           else if cp_status c = DiagCaptureStatusTimeout \<or> cp_status c = DiagCaptureStatusError
             then (is_some (cp_network_diag c), is_some (cp_network_diag c))
           else (False, is_some (cp_network_diag c)))
     else GetProtectionInfo cs j)"
proof -
  have g: "map_get [] (cs_captures s) e = GetCaptures e s" for s e by (simp add: GetCaptures_def)
  have eq: "AddCapture i c cs = add_any False [] [] i c cs" by (simp add: add_any_def)
  have l: "GetCaptures j (AddCapture i c cs) = (if j = i then take_last (nat (cs_max cs)) (GetCaptures i cs @ [c]) else GetCaptures j cs)"
    unfolding eq add_any_fields using GetCaptures_store[OF assms] by simp
  have m: "0 < nat (cs_max cs)" using assms by (simp add: store_ok_def)
  have f: "cs_inflight (AddCapture i c cs) = cs_inflight cs" unfolding eq by (rule add_any_fields)
  show ?thesis unfolding GetProtectionInfo_def g l f Let_def IsInFlight_def
    by (cases "j = i") (simp_all add: take_last_snoc[OF m])
qed

interpretation capture_protection: protection_provider GetProtectionInfo
  "\<lambda>i. AddCapture i (successful c)" store_ok for c
proof
  fix cs :: capture_store and i j
  assume ok: "store_ok cs"
  show "store_ok (AddCapture i (successful c) cs)" using captures.push_ok[OF ok] by simp
  show "fst (GetProtectionInfo (AddCapture i (successful c) cs) i)"
    using AddCapture_protection[OF ok, of i "successful c" i] by (auto simp: successful_def GetProtectionInfo_def IsInFlight_def)
  show "j \<noteq> i \<Longrightarrow> GetProtectionInfo (AddCapture i (successful c) cs) j = GetProtectionInfo cs j"
    using AddCapture_protection[OF ok, of i "successful c" j] by simp
qed

text \<open>
  A captured spike is never evicted. Once a successful capture has been stored for an
  event of a tracker, the event survives any number of further spikes of the target, however
  many captures are stored for other events or for itself in between.
\<close>

theorem captured_spike_survives:
  assumes ok: "store_ok cs" and e: "e \<in> set (st_events st)"
  shows "e \<in> set (st_events (snd (fold (\<lambda>(ev, ids) (s, st).
      let s' = fold (\<lambda>i. AddCapture i (successful c)) ids s in (s', recordSpike ev (GetProtectionInfo s') st))
      steps (AddCapture (ev_id e) (successful c) cs, st))))"
  using capture_protection.attached_survives[OF capture_protection.attach_good[OF ok] e
      capture_protection.attach_protects[OF ok]] .

text \<open>
  Reservations are kept under the peer's name, protection is asked for under the event's
  identifier: reserving a peer protects no event whose identifier is not that name, so the
  spike of a capture that is in progress can be evicted.
\<close>

lemma inflight_capture_unprotected:
  assumes "e \<noteq> peer"
  shows "fst (ReserveInFlight peer cs) = (\<not> IsInFlight peer cs)
    \<and> IsInFlight peer (snd (ReserveInFlight peer cs))
    \<and> GetProtectionInfo (snd (ReserveInFlight peer cs)) e = GetProtectionInfo cs e"
  using assms by (simp add: ReserveInFlight_def IsInFlight_def GetProtectionInfo_def)

subsection \<open>Concrete instances\<close>

definition capture_example :: diag_capture where
  "capture_example = \<lparr>cp_source = ''peer'', cp_base_url = [], cp_started_at = 1000000000, cp_finished_at = None,
     cp_duration_ms = None, cp_status = ''ok'', cp_error = None, cp_network_diag = None, cp_suppressed = False,
     cp_referenced_id = [], cp_requested_path = None, cp_effective_url = [], cp_http_status = None,
     cp_capture_status = ''captured'', cp_cooldown_info = None, cp_absence_events = [], cp_probe_route = None,
     cp_tcp_quality = None\<rparr>"

definition spike_example :: "string \<Rightarrow> spike_event" where
  "spike_example i = build_event i 9 (probe_example ''http'' (Fin 3) True) ''warning'' (Fin 0) []
     \<lparr>th_warning = Fin 0, th_critical = Fin 0, th_multiplier = Fin 0\<rparr> []"

definition store_example :: capture_store where
  "store_example = AddCaptureWithProvenance ''e1'' capture_example ''t'' ''http'' NewCaptureStore"

lemma NewCaptureStore_ok: "store_ok NewCaptureStore"
  by (simp add: store_ok_def NewCaptureStore_def GetCaptures_def)

lemma store_example_ok: "store_ok store_example"
  using add_any_ok[OF NewCaptureStore_ok, of True "''t''" "''http''" "''e1''" capture_example]
  by (simp add: store_example_def add_any_def)

lemma store_example_last: "cs_last store_example ''peer'' = Some 1000000000"
  by (simp add: store_example_def AddCaptureWithProvenance_def Let_def isSuccessfulCooldownAnchorCapture_def capture_example_def)

lemma store_invariant_witness:
  "store_ok (AddCapture ''e2'' capture_example store_example) \<and> store_ok (ReleaseInFlight ''peer'' store_example)"
  using store_invariant[OF store_example_ok] by blast

lemma EvaluateCooldown_exact_witness:
  "cd_in_cooldown (EvaluateCooldown 31000000000 ''peer'' 60 store_example)
   \<and> cd_remaining_ms (EvaluateCooldown 31000000000 ''peer'' 60 store_example) = 30000"
  using EvaluateCooldown_exact[OF store_example_last, of 60 31000000000]
  by (simp add: in_int64_def ns_per_sec_def ns_per_ms_def)

lemma cooldown_agrees_with_domain_witness:
  "cd_in_cooldown (EvaluateCooldown 31000000000 ''peer'' 60 store_example) \<longleftrightarrow>
     cd_kind (DecideCapture 31000000000 (GetLastCaptureTime ''peer'' store_example)
       \<lparr>dcc_enabled = True, dcc_configured = True, dcc_cooldown = seconds 60\<rparr>) = CaptureDecisionSkipCooldown"
proof -
  have s: "0 < seconds 60" using seconds_exact[of 60] by (simp add: ns_per_sec_def)
  show ?thesis by (rule cooldown_agrees_with_domain[OF s])
qed

lemma no_ghost_suppression_witness:
  "\<exists>a. cs_anchor store_example ''peer'' = Some a \<and> ca_capture_id a = ''e1''
    \<and> (\<exists>c \<in> set (GetCaptures ''e1'' store_example). cp_status c = DiagCaptureStatusOK)"
proof -
  let ?sp = "\<lambda>t k. [spike_example ''e1'']" and ?cp = "\<lambda>e. GetCaptures e store_example"
  have a: "cs_anchor store_example ''peer'' = Some (capture_anchor ''e1'' capture_example ''t'' ''http'')"
    by (simp add: store_example_def AddCaptureWithProvenance_def Let_def isSuccessfulCooldownAnchorCapture_def capture_example_def)
  have c: "GetCaptures ''e1'' store_example = [capture_example]"
    by (simp add: store_example_def AddCaptureWithProvenance_def Let_def GetCaptures_def store_capture_def NewCaptureStore_def)
  have s60: "seconds 60 = 60000000000" using seconds_exact[of 60] by (simp add: ns_per_sec_def)
  have "cd_in_cooldown (fst (EvaluateCooldownWithAnchorValidation 31000000000 ''peer'' 60
      (Some (ValidateAnchorWithCaptureStatus ?sp ?cp)) store_example store_example))"
    by (simp add: EvaluateCooldownWithAnchorValidation_def store_example_last is_zero_time_def a Let_def
        ValidateAnchorWithCaptureStatus_def capture_anchor_def c spike_matches_def spike_example_def build_event_def
        cooldown_since_in s60 time_sub_def int64_min_def int64_max_def)
      (simp add: capture_example_def)
  from no_ghost_suppression[OF this] show ?thesis using a c by (auto simp: capture_anchor_def)
qed

lemma anchor_validation_race_safe_witness:
  "snd (EvaluateCooldownWithAnchorValidation 5 ''peer'' 60 (Some (\<lambda>a. invalid_anchor [])) store_example
      (SetLastCapture ''peer'' 3 store_example)) = SetLastCapture ''peer'' 3 store_example"
proof -
  have "cs_last (SetLastCapture ''peer'' 3 store_example) ''peer'' \<noteq> cs_last store_example ''peer''"
    by (simp add: SetLastCapture_def store_example_last)
  then show ?thesis using anchor_validation_race_safe[where p = "''peer''"] by blast
qed

lemma captured_spike_survives_witness:
  "spike_example ''e1'' \<in> set (st_events (snd (fold (\<lambda>(ev, ids) (s, st).
      let s' = fold (\<lambda>i. AddCapture i (successful capture_example)) ids s in (s', recordSpike ev (GetProtectionInfo s') st))
      [(spike_example ''e2'', []), (spike_example ''e3'', [''e2''])]
      (AddCapture ''e1'' (successful capture_example) NewCaptureStore,
       \<lparr>st_events = [spike_example ''e1''], st_max = 1, st_config = DefaultSpikeConfig\<lparr>sc_max_events := 1\<rparr>, st_kind = ''http''\<rparr>))))"
proof -
  have i: "ev_id (spike_example ''e1'') = ''e1''" by (simp add: spike_example_def build_event_def)
  show ?thesis
    by (rule captured_spike_survives[OF NewCaptureStore_ok, of "spike_example ''e1''", unfolded i]) simp
qed

lemma inflight_capture_unprotected_witness:
  "GetProtectionInfo (snd (ReserveInFlight ''peer'' NewCaptureStore)) ''e1'' = (False, False)"
  using inflight_capture_unprotected[of "''e1''" "''peer''" NewCaptureStore]
  by (simp add: GetProtectionInfo_def NewCaptureStore_def)

end
