(* ===== verification/Uvb_Config.thy ===== *)
theory Uvb_Config
  imports Prelude "HOL-Library.Char_ord"
begin

section \<open>Configuration: defaults, validation, password hashes\<close>

unbundle bit_operations_syntax

text \<open>
  Models \<open>uvb76/config\<close>: \<open>config.go\<close>, \<open>latency.go\<close>, \<open>diagnostics.go\<close>, \<open>pprof.go\<close> and
  \<open>password.go\<close>. Every struct is a record; a method with a pointer receiver returns the
  changed record. Errors are values of \<open>config_error\<close>: one constructor per sentinel error of
  the code and one per wrapping context. Products and sums of configured numbers wrap at 64
  bits, as Go's \<open>int\<close> does.

  The standard library functions \<open>url.Parse\<close> and \<open>sha256\<close> are arguments: the
  statements hold for whatever they return. Reading the file and decoding its JSON is not
  modelled.
\<close>

subsection \<open>Password hashes\<close>

datatype config_error =
    ErrEmptyListenAddr | ErrEmptyTLSCert | ErrEmptyTLSKey | ErrEmptyUsername | ErrEmptyPasswordSHA256
  | ErrEmptyPasswordFormat | ErrInvalidPasswordFormat | ErrInvalidSaltLength | ErrInvalidHashLength
  | ErrInvalidSaltHex | ErrInvalidHashHex | ErrInvalidInterval | ErrInvalidTimeout
  | ErrEmptyTargetID nat | ErrEmptyTargetName nat | ErrEmptyTargetBaseURL nat
  | ErrInvalidTargetBaseURLScheme nat string | ErrDuplicateTargetID string
  | ErrOddLength | ErrInvalidHex | ErrEmptyPassword | ErrSaltLength
  | ErrMessage string | ErrPeer nat string config_error | ErrPProf config_error | ErrDiagnostics config_error

definition char_code :: "char \<Rightarrow> int" where
  "char_code c = of_char c"

definition hexChar :: "char \<Rightarrow> int" where
  "hexChar c =
     (if char_code c \<ge> char_code (CHR ''0'') \<and> char_code c \<le> char_code (CHR ''9'') then char_code c - char_code (CHR ''0'')
      else if char_code c \<ge> char_code (CHR ''a'') \<and> char_code c \<le> char_code (CHR ''f'') then char_code c - char_code (CHR ''a'') + 10
      else if char_code c \<ge> char_code (CHR ''A'') \<and> char_code c \<le> char_code (CHR ''F'') then char_code c - char_code (CHR ''A'') + 10
      else -1)"

definition hex_byte :: "int \<Rightarrow> int \<Rightarrow> char" where
  "hex_byte hi lo = char_of (nat ((push_bit 4 hi mod 256) OR lo))"

fun hex_pairs :: "string \<Rightarrow> string option" where
  "hex_pairs (c # d # s) =
     (if hexChar c < 0 \<or> hexChar d < 0 then None
      else map_option (\<lambda>t. hex_byte (hexChar c) (hexChar d) # t) (hex_pairs s))"
| "hex_pairs _ = Some []"

definition hexDecode :: "string \<Rightarrow> config_error + string" where
  "hexDecode s =
     (if length s mod 2 \<noteq> 0 then Inl ErrOddLength
      else case hex_pairs s of None \<Rightarrow> Inl ErrInvalidHex | Some bs \<Rightarrow> Inr bs)"

text \<open>
  \<open>hex.EncodeToString\<close> and \<open>hex.DecodeString\<close> of the standard library. The decoder reports
  an invalid digit before an odd length; its callers only ask whether it succeeded.
\<close>

definition hex_digit :: "nat \<Rightarrow> char" where
  "hex_digit n = ''0123456789abcdef'' ! n"

fun hex_encode :: "string \<Rightarrow> string" where
  "hex_encode [] = []"
| "hex_encode (c # s) = (let n = of_char c in hex_digit (n div 16) # hex_digit (n mod 16) # hex_encode s)"

definition hex_decode :: "string \<Rightarrow> string option" where
  "hex_decode s = (if length s mod 2 \<noteq> 0 then None else hex_pairs s)"

text \<open>\<open>strings.SplitN(s, ":", n)\<close>: at most \<open>n\<close> parts, the last one unsplit.\<close>

fun split_colon :: "nat \<Rightarrow> string \<Rightarrow> string list" where
  "split_colon 0 s = []"
| "split_colon (Suc 0) s = [s]"
| "split_colon (Suc (Suc n)) s =
     (if CHR '':'' \<in> set s
      then takeWhile (\<lambda>c. c \<noteq> CHR '':'') s # split_colon (Suc n) (tl (dropWhile (\<lambda>c. c \<noteq> CHR '':'') s))
      else [s])"

definition ValidatePasswordHashFormat :: "string \<Rightarrow> config_error option" where
  "ValidatePasswordHashFormat hash =
     (if hash = [] then Some ErrEmptyPasswordFormat
      else let prefix = ''sha256:''
        in if length hash < length prefix + 3 then Some ErrInvalidPasswordFormat
           else if take (length prefix) hash \<noteq> prefix then Some ErrInvalidPasswordFormat
           else let parts = split_colon 2 (drop (length prefix) hash)
             in if length parts \<noteq> 2 then Some ErrInvalidPasswordFormat
                else if length (parts ! 0) \<noteq> 32 then Some ErrInvalidSaltLength
                else if length (parts ! 1) \<noteq> 64 then Some ErrInvalidHashLength
                else case hexDecode (parts ! 0) of
                       Inl _ \<Rightarrow> Some ErrInvalidSaltHex
                     | Inr _ \<Rightarrow> (case hexDecode (parts ! 1) of Inl _ \<Rightarrow> Some ErrInvalidHashHex | Inr _ \<Rightarrow> None))"

definition HashPassword :: "(string \<Rightarrow> string) \<Rightarrow> string \<Rightarrow> string \<Rightarrow> config_error + string" where
  "HashPassword sha256 password salt =
     (if password = [] then Inl ErrEmptyPassword
      else if length salt \<noteq> 16 then Inl ErrSaltLength
      else Inr (''sha256:'' @ hex_encode salt @ '':'' @ hex_encode (sha256 (salt @ password))))"

definition VerifyPassword :: "(string \<Rightarrow> string) \<Rightarrow> string \<Rightarrow> string \<Rightarrow> config_error + bool" where
  "VerifyPassword sha256 password storedHash =
     (if password = [] then Inl ErrEmptyPassword
      else if storedHash = [] then Inl ErrEmptyPasswordFormat
      else let parts = split_colon 4 storedHash
        in if length parts \<noteq> 3 \<or> parts ! 0 \<noteq> ''sha256'' then Inl ErrInvalidPasswordFormat
           else case (hex_decode (parts ! 1), hex_decode (parts ! 2)) of
                  (Some salt, Some storedHashBytes) \<Rightarrow> Inr (sha256 (salt @ password) = storedHashBytes)
                | _ \<Rightarrow> Inl ErrInvalidPasswordFormat)"

subsection \<open>Latency configuration\<close>

record http_probe_config =
  hp_enabled :: "bool option"
  hp_interval :: int
  hp_timeout_ms :: int
  hp_buckets :: "int list"
  hp_recent_max :: int
  hp_window :: int
  hp_retained :: int

record icmp_probe_config =
  ip_enabled :: "bool option"
  ip_interval :: int
  ip_timeout :: int
  ip_max_ping :: int
  ip_backend :: string
  ip_buckets :: "int list"
  ip_recent_max :: int
  ip_window :: int
  ip_retained :: int

record latency_config =
  lc_http :: http_probe_config
  lc_icmp :: icmp_probe_config

definition DefaultHistogramBuckets :: "int list" where
  "DefaultHistogramBuckets = [5, 10, 25, 50, 100, 250, 500, 1000, 2500, 5000]"

text \<open>
  An unset or non-positive number takes its default. An unset pointer and the empty slice are
  what the code tests for.
\<close>

definition or_default :: "int \<Rightarrow> int \<Rightarrow> int" where
  "or_default d n = (if n \<le> 0 then d else n)"

text \<open>The samples needed to cover the retained range, with Go's wrapping arithmetic.\<close>

definition min_samples_for_retention :: "int \<Rightarrow> int \<Rightarrow> int" where
  "min_samples_for_retention retained interval = go_div (wrap64 (wrap64 (retained + interval) - 1)) interval"

definition http_ApplyDefaults :: "http_probe_config \<Rightarrow> http_probe_config" where
  "http_ApplyDefaults c =
     (let c1 = c\<lparr>hp_enabled := (case hp_enabled c of None \<Rightarrow> Some True | b \<Rightarrow> b),
                 hp_buckets := (if hp_buckets c = [] then DefaultHistogramBuckets else hp_buckets c),
                 hp_recent_max := or_default 0 (hp_recent_max c),
                 hp_interval := or_default 15 (hp_interval c),
                 hp_timeout_ms := or_default 10000 (hp_timeout_ms c),
                 hp_window := or_default 300 (hp_window c),
                 hp_retained := or_default 14400 (hp_retained c)\<rparr>;
          c2 = (if hp_retained c1 < hp_window c1 then c1\<lparr>hp_retained := hp_window c1\<rparr> else c1);
          m = min_samples_for_retention (hp_retained c2) (hp_interval c2)
      in if hp_recent_max c2 < m then c2\<lparr>hp_recent_max := m\<rparr> else c2)"

definition icmp_ApplyDefaults :: "icmp_probe_config \<Rightarrow> icmp_probe_config" where
  "icmp_ApplyDefaults c =
     (let c1 = c\<lparr>ip_enabled := (case ip_enabled c of None \<Rightarrow> Some True | b \<Rightarrow> b),
                 ip_buckets := (if ip_buckets c = [] then DefaultHistogramBuckets else ip_buckets c),
                 ip_recent_max := or_default 0 (ip_recent_max c),
                 ip_interval := or_default 1 (ip_interval c),
                 ip_timeout := or_default 3 (ip_timeout c),
                 ip_max_ping := or_default 1 (ip_max_ping c),
                 ip_window := or_default 60 (ip_window c),
                 ip_retained := or_default 3600 (ip_retained c)\<rparr>;
          c2 = (if ip_retained c1 < ip_window c1 then c1\<lparr>ip_retained := ip_window c1\<rparr> else c1);
          m = min_samples_for_retention (ip_retained c2) (ip_interval c2)
      in if ip_recent_max c2 < m then c2\<lparr>ip_recent_max := m\<rparr> else c2)"

definition latency_ApplyDefaults :: "latency_config \<Rightarrow> latency_config" where
  "latency_ApplyDefaults c = c\<lparr>lc_http := http_ApplyDefaults (lc_http c), lc_icmp := icmp_ApplyDefaults (lc_icmp c)\<rparr>"

definition http_IsEnabled :: "http_probe_config \<Rightarrow> bool" where
  "http_IsEnabled c = (case hp_enabled c of None \<Rightarrow> True | Some b \<Rightarrow> b)"

definition icmp_IsEnabled :: "icmp_probe_config \<Rightarrow> bool" where
  "icmp_IsEnabled c = (case ip_enabled c of None \<Rightarrow> True | Some b \<Rightarrow> b)"

definition latency_IsEnabled :: "latency_config \<Rightarrow> bool" where
  "latency_IsEnabled c = (http_IsEnabled (lc_http c) \<or> icmp_IsEnabled (lc_icmp c))"

definition ICMPBackendNative :: string where [simp]: "ICMPBackendNative = ''native''"
definition ICMPBackendOSPing :: string where [simp]: "ICMPBackendOSPing = ''os_ping''"

definition BackendType :: "icmp_probe_config \<Rightarrow> string" where
  "BackendType c = (if ip_backend c = [] then ICMPBackendNative else ip_backend c)"

definition ValidateBackend :: "string \<Rightarrow> config_error option" where
  "ValidateBackend backend =
     (if backend = [] \<or> backend = ICMPBackendNative \<or> backend = ICMPBackendOSPing then None
      else Some (ErrMessage ''latency.icmp.backend''))"

definition ValidateHTTPProbeConfig :: "http_probe_config \<Rightarrow> config_error option" where
  "ValidateHTTPProbeConfig c =
     (if hp_recent_max c \<le> 0 then Some (ErrMessage ''latency.http.recent_samples_max must be > 0'')
      else if hp_buckets c = [] then Some (ErrMessage ''latency.http.histogram_buckets_ms cannot be empty'')
      else if list_ex (\<lambda>b. b \<le> 0) (hp_buckets c) then Some (ErrMessage ''latency.http.histogram_buckets_ms values must be > 0'')
      else if hp_interval c \<le> 0 then Some (ErrMessage ''latency.http.interval_seconds must be > 0'')
      else if hp_timeout_ms c \<le> 0 then Some (ErrMessage ''latency.http.timeout_milliseconds must be > 0'')
      else if hp_window c \<le> 0 then Some (ErrMessage ''latency.http.window_seconds must be > 0'')
      else if hp_retained c < hp_window c then Some (ErrMessage ''latency.http.retained_range_seconds must be >= window_seconds'')
      else if wrap64 (hp_recent_max c * hp_interval c) < hp_retained c
        then Some (ErrMessage ''latency.http.recent_samples_max * interval_seconds must be >= retained_range_seconds'')
      else None)"

definition ValidateICMPProbeConfig :: "icmp_probe_config \<Rightarrow> config_error option" where
  "ValidateICMPProbeConfig c =
     (if ip_recent_max c \<le> 0 then Some (ErrMessage ''latency.icmp.recent_samples_max must be > 0'')
      else if ip_buckets c = [] then Some (ErrMessage ''latency.icmp.histogram_buckets_ms cannot be empty'')
      else if list_ex (\<lambda>b. b \<le> 0) (ip_buckets c) then Some (ErrMessage ''latency.icmp.histogram_buckets_ms values must be > 0'')
      else if ip_interval c \<le> 0 then Some (ErrMessage ''latency.icmp.interval_seconds must be > 0'')
      else if ip_timeout c \<le> 0 then Some (ErrMessage ''latency.icmp.timeout_seconds must be > 0'')
      else if ip_window c \<le> 0 then Some (ErrMessage ''latency.icmp.window_seconds must be > 0'')
      else if ip_retained c < ip_window c then Some (ErrMessage ''latency.icmp.retained_range_seconds must be >= window_seconds'')
      else if wrap64 (ip_recent_max c * ip_interval c) < ip_retained c
        then Some (ErrMessage ''latency.icmp.recent_samples_max * interval_seconds must be >= retained_range_seconds'')
      else ValidateBackend (ip_backend c))"

definition ValidateLatencyConfig :: "latency_config \<Rightarrow> config_error option" where
  "ValidateLatencyConfig c =
     (case ValidateHTTPProbeConfig (lc_http c) of
        Some e \<Rightarrow> Some e
      | None \<Rightarrow> ValidateICMPProbeConfig (lc_icmp c))"

subsection \<open>Diagnostics configuration\<close>

record pprof_config =
  pp_enabled :: bool
  pp_listen :: string
  pp_rate :: int

record diag_peer =
  dp_name :: string
  dp_base_url :: string
  dp_targets :: "string list"
  dp_effective_url :: string

record diagnostics_config =
  dg_enabled :: bool
  dg_capture_on_spike :: bool
  dg_timeout_ms :: int
  dg_cooldown_seconds :: int
  dg_max_uncaptured :: int
  dg_peers :: "diag_peer list"
  dg_pprof :: pprof_config

definition pprof_ApplyDefaults :: "pprof_config \<Rightarrow> pprof_config" where
  "pprof_ApplyDefaults p = p\<lparr>pp_listen := (if pp_listen p = [] then ''127.0.0.1:6060'' else pp_listen p),
     pp_rate := (if pp_rate p = 0 then 65536 else pp_rate p)\<rparr>"

definition pprof_Validate :: "pprof_config \<Rightarrow> config_error option" where
  "pprof_Validate p =
     (if \<not> pp_enabled p then None
      else if pp_listen p = [] then Some (ErrMessage ''pprof.listen is required when pprof is enabled'')
      else None)"

text \<open>The profile rate after \<open>ApplyPProfRuntimeConfig\<close>, from the rate before it.\<close>

definition ApplyPProfRuntimeConfig :: "pprof_config \<Rightarrow> int \<Rightarrow> int" where
  "ApplyPProfRuntimeConfig cfg rate = (if \<not> pp_enabled cfg \<or> pp_rate cfg \<le> 0 then rate else pp_rate cfg)"

definition diag_ApplyDefaults :: "diagnostics_config \<Rightarrow> diagnostics_config" where
  "diag_ApplyDefaults d = d\<lparr>dg_timeout_ms := or_default 1500 (dg_timeout_ms d),
     dg_cooldown_seconds := or_default 90 (dg_cooldown_seconds d),
     dg_max_uncaptured := or_default 200 (dg_max_uncaptured d),
     dg_pprof := pprof_ApplyDefaults (dg_pprof d)\<rparr>"

text \<open>What the code reads of a parsed URL.\<close>

record parsed_url =
  u_scheme :: string
  u_host :: string
  u_hostname :: string
  u_has_user :: bool
  u_path :: string
  u_raw_query :: string
  u_fragment :: string

type_synonym url_parser = "string \<Rightarrow> parsed_url option"

definition ValidateDiagPeerBaseURL :: "url_parser \<Rightarrow> string \<Rightarrow> config_error option" where
  "ValidateDiagPeerBaseURL parse baseURL =
     (if baseURL = [] then Some (ErrMessage ''base_url is required'')
      else case parse baseURL of
             None \<Rightarrow> Some (ErrMessage ''invalid URL'')
           | Some u \<Rightarrow>
               if u_scheme u = [] then Some (ErrMessage ''scheme is required (http or https)'')
               else if u_scheme u \<noteq> ''http'' \<and> u_scheme u \<noteq> ''https'' then Some (ErrMessage ''scheme must be http or https'')
               else if u_host u = [] then Some (ErrMessage ''host is required'')
               else if u_has_user u then Some (ErrMessage ''userinfo (username/password) is not allowed'')
               else if u_raw_query u \<noteq> [] then Some (ErrMessage ''query string is not allowed in base_url'')
               else if u_fragment u \<noteq> [] then Some (ErrMessage ''fragment is not allowed in base_url'')
               else None)"

definition validate_peer :: "url_parser \<Rightarrow> nat \<Rightarrow> diag_peer \<Rightarrow> config_error option" where
  "validate_peer parse i peer =
     (case ValidateDiagPeerBaseURL parse (dp_base_url peer) of
        Some e \<Rightarrow> Some (ErrPeer i (dp_name peer) e)
      | None \<Rightarrow>
          if dp_name peer = [] then Some (ErrPeer i [] (ErrMessage ''name is required''))
          else if dp_targets peer = [] then Some (ErrPeer i (dp_name peer) (ErrMessage ''at least one target is required''))
          else None)"

fun first_error :: "(nat \<Rightarrow> 'a \<Rightarrow> config_error option) \<Rightarrow> nat \<Rightarrow> 'a list \<Rightarrow> config_error option" where
  "first_error f i [] = None"
| "first_error f i (x # xs) = (case f i x of Some e \<Rightarrow> Some e | None \<Rightarrow> first_error f (Suc i) xs)"

definition diag_Validate :: "url_parser \<Rightarrow> diagnostics_config \<Rightarrow> config_error option" where
  "diag_Validate parse d =
     (if \<not> dg_enabled d then None
      else case pprof_Validate (dg_pprof d) of
             Some e \<Rightarrow> Some (ErrPProf e)
           | None \<Rightarrow>
               if dg_peers d = [] then Some (ErrMessage ''diagnostics enabled but no peers configured'')
               else first_error (validate_peer parse) 0 (dg_peers d))"

text \<open>
  \<open>DiagPeerStatusURL\<close>: the parser, and the serialisation of the parsed URL with its path and
  query replaced, are the standard library's.
\<close>

definition DiagPeerStatusURL :: "url_parser \<Rightarrow> (parsed_url \<Rightarrow> string) \<Rightarrow> string \<Rightarrow> string" where
  "DiagPeerStatusURL parse render baseURL =
     (case parse baseURL of
        None \<Rightarrow> trim_suffix baseURL ''/'' @ ''/status.json'' @ ''?include='' @ ''network_diag''
      | Some u \<Rightarrow> render (u\<lparr>u_path := trim_suffix (u_path u) ''/'' @ ''/status.json'', u_raw_query := ''include=network_diag''\<rparr>))"

definition PrecomputeCaptureURLs :: "url_parser \<Rightarrow> (parsed_url \<Rightarrow> string) \<Rightarrow> diagnostics_config \<Rightarrow> diagnostics_config" where
  "PrecomputeCaptureURLs parse render d =
     (if \<not> dg_enabled d then d
      else d\<lparr>dg_peers := map (\<lambda>p. p\<lparr>dp_effective_url := DiagPeerStatusURL parse render (dp_base_url p)\<rparr>) (dg_peers d)\<rparr>)"

text \<open>The map of pointers into the peer slice, read as the peers themselves.\<close>

definition TargetToDiagPeers :: "diagnostics_config \<Rightarrow> string \<rightharpoonup> diag_peer" where
  "TargetToDiagPeers d = fold (\<lambda>peer m. fold (\<lambda>target m. m(target \<mapsto> peer)) (dp_targets peer) m) (dg_peers d) Map.empty"

subsection \<open>The whole configuration\<close>

record listen_config =
  ln_addr :: string
  ln_cert :: string
  ln_key :: string

record auth_config =
  ac_username :: string
  ac_password :: string

record scrape_config =
  sp_interval :: int
  sp_timeout_ms :: int

record target_config =
  tg_id :: string
  tg_name :: string
  tg_base_url :: string
  tg_probe_url :: string
  tg_enabled :: bool

record config =
  cf_listen :: listen_config
  cf_auth :: auth_config
  cf_scrape :: scrape_config
  cf_latency :: latency_config
  cf_targets :: "target_config list"
  cf_diagnostics :: diagnostics_config

text \<open>\<open>strings.TrimRight(s, "/")\<close>.\<close>

definition TargetStatusURL :: "string \<Rightarrow> string" where
  "TargetStatusURL baseURL = rev (dropWhile (\<lambda>c. c = CHR ''/'') (rev baseURL)) @ ''/status''"

definition TargetProbeURL :: "target_config \<Rightarrow> string" where
  "TargetProbeURL t = (if tg_probe_url t \<noteq> [] then tg_probe_url t else TargetStatusURL (tg_base_url t))"

text \<open>
  \<open>strings.Index(s, t)\<close>. The scheme is lowered byte by byte: \<open>strings.ToLower\<close> also maps
  letters outside ASCII, none of which becomes a letter of \<open>http\<close> or \<open>https\<close>.
\<close>

fun index_of :: "string \<Rightarrow> string \<Rightarrow> nat option" where
  "index_of [] t = (if t = [] then Some 0 else None)"
| "index_of (c # s) t = (if has_prefix (c # s) t then Some 0 else map_option Suc (index_of s t))"

definition ValidateTargetBaseURLScheme :: "string \<Rightarrow> string option" where
  "ValidateTargetBaseURLScheme baseURL =
     (if baseURL = [] then Some ''base_url is empty''
      else case index_of baseURL ''://'' of
             None \<Rightarrow> Some ''missing scheme (must include ://)''
           | Some schemeEnd \<Rightarrow>
               let scheme = map lower_char (take schemeEnd baseURL)
               in if scheme \<noteq> ''http'' \<and> scheme \<noteq> ''https'' then Some ''unsupported scheme'' else None)"

text \<open>The loop over the targets, with the set of identifiers seen so far.\<close>

fun validate_targets :: "nat \<Rightarrow> string set \<Rightarrow> target_config list \<Rightarrow> config_error option" where
  "validate_targets i seen [] = None"
| "validate_targets i seen (t # ts) =
     (if tg_id t = [] then Some (ErrEmptyTargetID i)
      else if tg_name t = [] then Some (ErrEmptyTargetName i)
      else if tg_base_url t = [] then Some (ErrEmptyTargetBaseURL i)
      else case ValidateTargetBaseURLScheme (tg_base_url t) of
             Some e \<Rightarrow> Some (ErrInvalidTargetBaseURLScheme i e)
           | None \<Rightarrow>
               if tg_id t \<in> seen then Some (ErrDuplicateTargetID (tg_id t))
               else validate_targets (Suc i) (insert (tg_id t) seen) ts)"

text \<open>
  The error and the configuration afterwards: the diagnostics section gets its defaults on
  the way, and its precomputed URLs when everything is valid.
\<close>

definition config_Validate ::
  "url_parser \<Rightarrow> (parsed_url \<Rightarrow> string) \<Rightarrow> bool \<Rightarrow> config \<Rightarrow> config_error option \<times> config" where
  "config_Validate parse render allowMissingTLS c =
     (if ln_addr (cf_listen c) = [] then (Some ErrEmptyListenAddr, c)
      else if \<not> allowMissingTLS \<and> ln_cert (cf_listen c) = [] then (Some ErrEmptyTLSCert, c)
      else if \<not> allowMissingTLS \<and> ln_key (cf_listen c) = [] then (Some ErrEmptyTLSKey, c)
      else if ac_username (cf_auth c) = [] then (Some ErrEmptyUsername, c)
      else if ac_password (cf_auth c) = [] then (Some ErrEmptyPasswordSHA256, c)
      else case ValidatePasswordHashFormat (ac_password (cf_auth c)) of
             Some e \<Rightarrow> (Some e, c)
           | None \<Rightarrow>
               if sp_interval (cf_scrape c) \<le> 0 then (Some ErrInvalidInterval, c)
               else if sp_timeout_ms (cf_scrape c) \<le> 0 then (Some ErrInvalidTimeout, c)
               else case validate_targets 0 {} (cf_targets c) of
                      Some e \<Rightarrow> (Some e, c)
                    | None \<Rightarrow>
                        let c1 = c\<lparr>cf_diagnostics := diag_ApplyDefaults (cf_diagnostics c)\<rparr>
                        in case diag_Validate parse (cf_diagnostics c1) of
                             Some e \<Rightarrow> (Some (ErrDiagnostics e), c1)
                           | None \<Rightarrow> (None, c1\<lparr>cf_diagnostics := PrecomputeCaptureURLs parse render (cf_diagnostics c1)\<rparr>))"

subsection \<open>Hexadecimal round trip\<close>

lemma hex_digits: "n < 16 \<Longrightarrow> hexChar (hex_digit n) = int n \<and> hex_digit n \<noteq> CHR '':''"
proof -
  have "list_all (\<lambda>n. hexChar (hex_digit n) = int n \<and> hex_digit n \<noteq> CHR '':'') [0..<16]" by code_simp
  then show "n < 16 \<Longrightarrow> hexChar (hex_digit n) = int n \<and> hex_digit n \<noteq> CHR '':''" by (simp add: list_all_iff)
qed

lemma hex_byte_digits:
  assumes "h < 16" "l < 16" shows "hex_byte (int h) (int l) = char_of (16 * h + l)"
proof -
  have l: "take_bit 4 (int l) = int l" by (rule take_bit_int_eq_self) (use assms(2) in simp_all)
  have "\<not> bit (int l) n" if "4 \<le> n" for n
    using that bit_take_bit_iff[of 4 "int l" n] l by (metis not_le)
  then have "push_bit 4 (int h) AND int l = 0"
    by (intro bit_eqI) (auto simp only: bit_and_iff bit_push_bit_iff bit_0_eq bot_fun_def bot_bool_def)
  then have "push_bit 4 (int h) OR int l = push_bit 4 (int h) + int l" by (rule disjunctive_add_eq_or[symmetric])
  moreover have "push_bit 4 (int h) mod 256 = push_bit 4 (int h)" using assms by (simp add: push_bit_eq_mult)
  ultimately have "push_bit 4 (int h) mod 256 OR int l = int (16 * h + l)" by (simp add: push_bit_eq_mult)
  then show ?thesis by (simp only: hex_byte_def nat_int)
qed

lemma length_hex_encode [simp]: "length (hex_encode s) = 2 * length s"
  by (induction s) (simp_all add: Let_def)

lemma of_char_less: "(of_char c :: nat) < 256"
  by (simp add: of_char_def)

lemma hex_encode_no_colon: "CHR '':'' \<notin> set (hex_encode s)"
proof (induction s)
  case (Cons c s)
  have "(of_char c :: nat) div 16 < 16" using of_char_less[of c] by (simp add: less_mult_imp_div_less)
  then show ?case using Cons hex_digits[of "of_char c div 16"] hex_digits[of "of_char c mod 16"]
    by (auto simp: Let_def)
qed simp

lemma hex_pairs_encode: "hex_pairs (hex_encode s) = Some s"
proof (induction s)
  case (Cons c s)
  have n: "(of_char c :: nat) div 16 < 16" "(of_char c :: nat) mod 16 < 16"
    using of_char_less[of c] by (simp_all add: less_mult_imp_div_less)
  have "char_of (16 * (of_char c div 16) + of_char c mod 16 :: nat) = c" by simp
  then show ?case using Cons hex_digits[OF n(1)] hex_digits[OF n(2)] hex_byte_digits[OF n]
    by (simp add: Let_def)
qed simp

lemma hex_decode_encode: "hex_decode (hex_encode s) = Some s" "hexDecode (hex_encode s) = Inr s"
  by (simp_all add: hex_decode_def hexDecode_def hex_pairs_encode)

lemma hexChar_colon: "hexChar (CHR '':'') < 0"
  by code_simp

lemma hex_pairs_no_colon: "hex_pairs s = Some b \<Longrightarrow> length s mod 2 = 0 \<Longrightarrow> CHR '':'' \<notin> set s"
  by (induction s arbitrary: b rule: hex_pairs.induct) (auto simp: hexChar_colon split: if_splits)

lemma hexDecode_no_colon: "hexDecode s = Inr b \<Longrightarrow> CHR '':'' \<notin> set s \<and> hex_decode s = Some b"
  using hex_pairs_no_colon by (auto simp: hexDecode_def hex_decode_def split: if_splits option.splits)

lemma split_colon_parts:
  "CHR '':'' \<notin> set a \<Longrightarrow> split_colon (Suc (Suc n)) (a @ CHR '':'' # s) = a # split_colon (Suc n) s"
proof -
  assume "CHR '':'' \<notin> set a"
  then have "\<forall>c \<in> set a. c \<noteq> CHR '':''" by blast
  then show ?thesis by (simp add: takeWhile_append dropWhile_append)
qed

lemma split_colon_last: "CHR '':'' \<notin> set a \<Longrightarrow> split_colon (Suc n) a = [a]"
  by (cases n) simp_all

text \<open>The parts of a hash in the stored format.\<close>

definition stored_hash :: "string \<Rightarrow> string \<Rightarrow> string" where
  "stored_hash saltHex hashHex = ''sha256:'' @ saltHex @ '':'' @ hashHex"

lemma split_stored:
  assumes "CHR '':'' \<notin> set a" "CHR '':'' \<notin> set b"
  shows "split_colon 4 (stored_hash a b) = [''sha256'', a, b]" "split_colon 2 (a @ '':'' @ b) = [a, b]"
proof -
  have "split_colon (Suc (Suc (Suc (Suc 0)))) (''sha256'' @ CHR '':'' # a @ CHR '':'' # b) = [''sha256'', a, b]"
    by (subst split_colon_parts, simp, subst split_colon_parts[OF assms(1)], subst split_colon_last[OF assms(2)]) (rule refl)
  then show "split_colon 4 (stored_hash a b) = [''sha256'', a, b]" by (simp add: stored_hash_def eval_nat_numeral)
  show "split_colon 2 (a @ '':'' @ b) = [a, b]"
    using split_colon_parts[OF assms(1), of 0 b] by (simp add: numeral_2_eq_2)
qed

lemma format_ok_iff:
  "ValidatePasswordHashFormat h = None \<longleftrightarrow>
     (\<exists>a b s t. h = stored_hash a b \<and> length a = 32 \<and> length b = 64 \<and> hexDecode a = Inr s \<and> hexDecode b = Inr t)"
  (is "?l = ?r")
proof
  assume ?l
  have k: "Suc (Suc (Suc (Suc (Suc (Suc (Suc 0)))))) = 7" by simp
  from \<open>?l\<close> have pre: "take 7 h = ''sha256:''" and sp: "length (split_colon 2 (drop 7 h)) = 2"
    "length (split_colon 2 (drop 7 h) ! 0) = 32" "length (split_colon 2 (drop 7 h) ! 1) = 64"
    and dec: "\<exists>s t. hexDecode (split_colon 2 (drop 7 h) ! 0) = Inr s \<and> hexDecode (split_colon 2 (drop 7 h) ! 1) = Inr t"
    by (auto simp: ValidatePasswordHashFormat_def Let_def k split: if_splits sum.splits)
  let ?rest = "drop 7 h" let ?a = "takeWhile (\<lambda>c. c \<noteq> CHR '':'') ?rest" let ?d = "dropWhile (\<lambda>c. c \<noteq> CHR '':'') ?rest"
  have c: "CHR '':'' \<in> set ?rest" using sp(1) by (auto simp: numeral_2_eq_2 split: if_splits)
  then have parts: "split_colon 2 ?rest = [?a, tl ?d]" by (simp add: numeral_2_eq_2)
  have "?d \<noteq> []" "hd ?d = CHR '':''" using c hd_dropWhile[of "\<lambda>c. c \<noteq> CHR '':''" ?rest] by (auto simp: dropWhile_eq_Nil_conv)
  then have "?rest = ?a @ CHR '':'' # tl ?d" by (metis list.collapse takeWhile_dropWhile_id)
  then have "h = stored_hash ?a (tl ?d)" using pre append_take_drop_id[of 7 h] by (simp add: stored_hash_def)
  moreover have "length ?a = 32" "length (tl ?d) = 64" "\<exists>s t. hexDecode ?a = Inr s \<and> hexDecode (tl ?d) = Inr t"
    using sp dec unfolding parts by simp_all
  ultimately show ?r by blast
next
  assume ?r
  then obtain a b s t where h: "h = stored_hash a b" "length a = 32" "length b = 64" "hexDecode a = Inr s" "hexDecode b = Inr t" by blast
  have "split_colon 2 (a @ '':'' @ b) = [a, b]" using hexDecode_no_colon[OF h(4)] hexDecode_no_colon[OF h(5)] split_stored(2) by blast
  then show ?l using h by (simp add: ValidatePasswordHashFormat_def stored_hash_def Let_def)
qed

text \<open>
  Password round trip. Hashing a non-empty password with a 16-byte salt succeeds; the
  result has the format that the configuration accepts, for any hash function with 32-byte
  results; and verifying a non-empty password against it succeeds exactly when both hash to
  the same value under that salt, so in particular for the password itself.
\<close>

theorem password_roundtrip:
  assumes p: "password \<noteq> []" and salt: "length salt = 16" and sha: "\<And>x. length (sha256 x) = 32"
  shows "\<exists>h. HashPassword sha256 password salt = Inr h
    \<and> ValidatePasswordHashFormat h = None
    \<and> (\<forall>q. q \<noteq> [] \<longrightarrow> VerifyPassword sha256 q h = Inr (sha256 (salt @ q) = sha256 (salt @ password)))"
proof -
  let ?h = "stored_hash (hex_encode salt) (hex_encode (sha256 (salt @ password)))"
  have "HashPassword sha256 password salt = Inr ?h" using p salt by (simp add: HashPassword_def stored_hash_def)
  moreover have "ValidatePasswordHashFormat ?h = None"
    unfolding format_ok_iff using salt sha hex_decode_encode(2) by (intro exI conjI) (rule refl | simp)+
  moreover have "VerifyPassword sha256 q ?h = Inr (sha256 (salt @ q) = sha256 (salt @ password))" if "q \<noteq> []" for q
  proof -
    have "?h \<noteq> []" by (simp add: stored_hash_def)
    then show ?thesis using that
      by (simp add: VerifyPassword_def Let_def split_stored(1)[OF hex_encode_no_colon hex_encode_no_colon] hex_decode_encode)
  qed
  ultimately show ?thesis by blast
qed

text \<open>
  A hash that the configuration accepts never fails at login: verifying any non-empty
  password against it gives an answer, not an error, and only one whose digest equals the
  stored bytes is accepted.
\<close>

theorem accepted_hash_verifies:
  assumes "ValidatePasswordHashFormat h = None" "q \<noteq> []"
  shows "\<exists>salt digest. length salt = 16 \<and> length digest = 32 \<and> VerifyPassword sha256 q h = Inr (sha256 (salt @ q) = digest)"
proof -
  obtain a b s t where h: "h = stored_hash a b" "length a = 32" "length b = 64" "hexDecode a = Inr s" "hexDecode b = Inr t"
    using assms(1) unfolding format_ok_iff by blast
  have len: "hex_pairs x = Some y \<Longrightarrow> length y = length x div 2" for x y
    by (induction x arbitrary: y rule: hex_pairs.induct) (auto split: if_splits)
  have l: "length s = 16" "length t = 32" using h len[of a s] len[of b t]
    by (auto simp: hexDecode_def split: if_splits option.splits)
  note nc = hexDecode_no_colon[OF h(4)] hexDecode_no_colon[OF h(5)]
  have "VerifyPassword sha256 q h = Inr (sha256 (s @ q) = t)"
    using assms(2) nc split_stored(1)[of a b] by (simp add: VerifyPassword_def h(1) Let_def) (simp add: stored_hash_def)
  with l show ?thesis by blast
qed

subsection \<open>Defaults and validation of the latency section\<close>

text \<open>Numbers small enough that no product or sum wraps: below 2^30 each, more than 34 years in seconds.\<close>

definition http_small :: "http_probe_config \<Rightarrow> bool" where
  "http_small c \<longleftrightarrow> hp_interval c < 2 ^ 30 \<and> hp_recent_max c < 2 ^ 30 \<and> hp_window c < 2 ^ 30 \<and> hp_retained c < 2 ^ 30
     \<and> list_all (\<lambda>b. 0 < b) (hp_buckets c)"

definition icmp_small :: "icmp_probe_config \<Rightarrow> bool" where
  "icmp_small c \<longleftrightarrow> ip_interval c < 2 ^ 30 \<and> ip_recent_max c < 2 ^ 30 \<and> ip_window c < 2 ^ 30 \<and> ip_retained c < 2 ^ 30
     \<and> list_all (\<lambda>b. 0 < b) (ip_buckets c) \<and> ip_backend c \<in> {[], ICMPBackendNative, ICMPBackendOSPing}"

lemma min_samples_covers:
  assumes "0 < r" "r < 2 ^ 30" "0 < i" "i < 2 ^ 30"
  shows "0 < min_samples_for_retention r i" "min_samples_for_retention r i \<le> 2 ^ 30" "r \<le> min_samples_for_retention r i * i"
proof -
  have "wrap64 (wrap64 (r + i) - 1) = r + i - 1"
    using assms by (subst (1 2) wrap64_id) (simp_all add: in_int64_def)
  then have m: "min_samples_for_retention r i = (r + i - 1) div i"
    using assms by (simp add: min_samples_for_retention_def go_div_nonneg)
  have d: "(r + i - 1) div i * i = r + i - 1 - (r + i - 1) mod i" by (simp add: minus_mod_eq_div_mult [symmetric])
  have b: "(r + i - 1) mod i < i" "0 \<le> (r + i - 1) mod i" using assms by simp_all
  then show le: "r \<le> min_samples_for_retention r i * i" unfolding m d by linarith
  have "i div i \<le> (r + i - 1) div i" using assms by (intro zdiv_mono1) simp_all
  then show "0 < min_samples_for_retention r i" unfolding m using assms by simp
  have "(r + i - 1) div i \<le> r"
  proof -
    have "\<not> r + 1 \<le> (r + i - 1) div i"
    proof
      assume "r + 1 \<le> (r + i - 1) div i"
      then have "(r + 1) * i \<le> (r + i - 1) div i * i" using assms by (intro mult_right_mono) simp_all
      moreover have "r * 1 \<le> r * i" using assms by (intro mult_left_mono) simp_all
      ultimately show False unfolding d using b by (simp add: algebra_simps)
    qed
    then show ?thesis by simp
  qed
  then show "min_samples_for_retention r i \<le> 2 ^ 30" unfolding m using assms by simp
qed

lemma recent_product:
  assumes "0 < (r :: int)" "r < 2 ^ 30" "0 < i" "i < 2 ^ 30" "m < 2 ^ 30"
  defines "n \<equiv> max m (min_samples_for_retention r i)"
  shows "0 < n" "r \<le> wrap64 (n * i)"
proof -
  note c = min_samples_covers[OF assms(1-4)]
  show n: "0 < n" using c(1) by (simp add: n_def)
  have "n \<le> 2 ^ 30" using c(2) assms(5) by (simp add: n_def)
  then have "n * i \<le> 2 ^ 30 * 2 ^ 30" using assms n by (intro mult_mono) simp_all
  then have "in_int64 (n * i)" using n assms by (simp add: in_int64_def) (smt (verit) mult_nonneg_nonneg)
  moreover have "min_samples_for_retention r i * i \<le> n * i" using assms by (intro mult_right_mono) (simp_all add: n_def)
  ultimately show "r \<le> wrap64 (n * i)" using c(3) by (simp add: wrap64_id)
qed

lemma http_defaults_fields:
  "hp_interval (http_ApplyDefaults c) = or_default 15 (hp_interval c)"
  "hp_timeout_ms (http_ApplyDefaults c) = or_default 10000 (hp_timeout_ms c)"
  "hp_window (http_ApplyDefaults c) = or_default 300 (hp_window c)"
  "hp_retained (http_ApplyDefaults c) = max (or_default 14400 (hp_retained c)) (or_default 300 (hp_window c))"
  "hp_buckets (http_ApplyDefaults c) = (if hp_buckets c = [] then DefaultHistogramBuckets else hp_buckets c)"
  "hp_enabled (http_ApplyDefaults c) = Some (http_IsEnabled c)"
  "hp_recent_max (http_ApplyDefaults c) = max (or_default 0 (hp_recent_max c))
     (min_samples_for_retention (max (or_default 14400 (hp_retained c)) (or_default 300 (hp_window c))) (or_default 15 (hp_interval c)))"
  by (auto simp: http_ApplyDefaults_def Let_def http_IsEnabled_def max_def split: option.split)

lemma icmp_defaults_fields:
  "ip_interval (icmp_ApplyDefaults c) = or_default 1 (ip_interval c)"
  "ip_timeout (icmp_ApplyDefaults c) = or_default 3 (ip_timeout c)"
  "ip_max_ping (icmp_ApplyDefaults c) = or_default 1 (ip_max_ping c)"
  "ip_window (icmp_ApplyDefaults c) = or_default 60 (ip_window c)"
  "ip_retained (icmp_ApplyDefaults c) = max (or_default 3600 (ip_retained c)) (or_default 60 (ip_window c))"
  "ip_buckets (icmp_ApplyDefaults c) = (if ip_buckets c = [] then DefaultHistogramBuckets else ip_buckets c)"
  "ip_enabled (icmp_ApplyDefaults c) = Some (icmp_IsEnabled c)" "ip_backend (icmp_ApplyDefaults c) = ip_backend c"
  "ip_recent_max (icmp_ApplyDefaults c) = max (or_default 0 (ip_recent_max c))
     (min_samples_for_retention (max (or_default 3600 (ip_retained c)) (or_default 60 (ip_window c))) (or_default 1 (ip_interval c)))"
  by (auto simp: icmp_ApplyDefaults_def Let_def icmp_IsEnabled_def max_def split: option.split)

lemma http_valid_iff:
  "ValidateHTTPProbeConfig c = None \<longleftrightarrow> 0 < hp_recent_max c \<and> hp_buckets c \<noteq> [] \<and> \<not> list_ex (\<lambda>b. b \<le> 0) (hp_buckets c)
     \<and> 0 < hp_interval c \<and> 0 < hp_timeout_ms c \<and> 0 < hp_window c \<and> hp_window c \<le> hp_retained c
     \<and> hp_retained c \<le> wrap64 (hp_recent_max c * hp_interval c)"
  by (auto simp: ValidateHTTPProbeConfig_def)

lemma icmp_valid_iff:
  "ValidateICMPProbeConfig c = None \<longleftrightarrow> 0 < ip_recent_max c \<and> ip_buckets c \<noteq> [] \<and> \<not> list_ex (\<lambda>b. b \<le> 0) (ip_buckets c)
     \<and> 0 < ip_interval c \<and> 0 < ip_timeout c \<and> 0 < ip_window c \<and> ip_window c \<le> ip_retained c
     \<and> ip_retained c \<le> wrap64 (ip_recent_max c * ip_interval c) \<and> ValidateBackend (ip_backend c) = None"
  by (auto simp: ValidateICMPProbeConfig_def)

lemma buckets_ok: "list_all (\<lambda>b. 0 < b) bs \<Longrightarrow>
   \<not> list_ex (\<lambda>b. b \<le> (0 :: int)) (if bs = [] then DefaultHistogramBuckets else bs) \<and> (if bs = [] then DefaultHistogramBuckets else bs) \<noteq> []"
  by (auto simp: list_all_iff list_ex_iff DefaultHistogramBuckets_def)

text \<open>
  Defaults make the latency section valid. For numbers below 2^30, positive buckets if
  any are given, and a known ICMP backend, the section passes validation after its defaults
  are applied, whatever was missing; and the retained range is then really covered: as many
  samples as are kept, taken at the interval, span at least the retained range.
\<close>

theorem defaults_validate:
  assumes "http_small (lc_http c)" "icmp_small (lc_icmp c)"
  shows "ValidateLatencyConfig (latency_ApplyDefaults c) = None
    \<and> http_IsEnabled (lc_http (latency_ApplyDefaults c)) = http_IsEnabled (lc_http c)
    \<and> icmp_IsEnabled (lc_icmp (latency_ApplyDefaults c)) = icmp_IsEnabled (lc_icmp c)"
proof -
  let ?h = "lc_http c" and ?i = "lc_icmp c"
  have h: "0 < or_default 15 (hp_interval ?h)" "or_default 15 (hp_interval ?h) < 2 ^ 30" "or_default 0 (hp_recent_max ?h) < 2 ^ 30"
    "0 < or_default 300 (hp_window ?h)" "or_default 300 (hp_window ?h) < 2 ^ 30" "or_default 14400 (hp_retained ?h) < 2 ^ 30"
    "0 < or_default 10000 (hp_timeout_ms ?h)" "list_all (\<lambda>b. 0 < b) (hp_buckets ?h)"
    using assms(1) by (simp_all add: http_small_def or_default_def)
  have i: "0 < or_default 1 (ip_interval ?i)" "or_default 1 (ip_interval ?i) < 2 ^ 30" "or_default 0 (ip_recent_max ?i) < 2 ^ 30"
    "0 < or_default 60 (ip_window ?i)" "or_default 60 (ip_window ?i) < 2 ^ 30" "or_default 3600 (ip_retained ?i) < 2 ^ 30"
    "0 < or_default 3 (ip_timeout ?i)" "list_all (\<lambda>b. 0 < b) (ip_buckets ?i)"
    "ip_backend ?i \<in> {[], ICMPBackendNative, ICMPBackendOSPing}"
    using assms(2) by (simp_all add: icmp_small_def or_default_def)
  have hr: "0 < max (or_default 14400 (hp_retained ?h)) (or_default 300 (hp_window ?h))"
    "max (or_default 14400 (hp_retained ?h)) (or_default 300 (hp_window ?h)) < 2 ^ 30" using h by simp_all
  have ir: "0 < max (or_default 3600 (ip_retained ?i)) (or_default 60 (ip_window ?i))"
    "max (or_default 3600 (ip_retained ?i)) (or_default 60 (ip_window ?i)) < 2 ^ 30" using i by simp_all
  have "ValidateHTTPProbeConfig (http_ApplyDefaults ?h) = None"
    unfolding http_valid_iff http_defaults_fields
    using h(1,4,7) recent_product[OF hr h(1,2,3)] buckets_ok[OF h(8)] by (intro conjI) (assumption | blast | rule max.cobounded2)+
  moreover have "ValidateICMPProbeConfig (icmp_ApplyDefaults ?i) = None"
  proof -
    have "ValidateBackend (ip_backend ?i) = None" using i(9) by (auto simp: ValidateBackend_def)
    then show ?thesis unfolding icmp_valid_iff icmp_defaults_fields
      using i(1,4,7) recent_product[OF ir i(1,2,3)] buckets_ok[OF i(8)] by (intro conjI) (assumption | blast | rule max.cobounded2)+
  qed
  ultimately show ?thesis
    by (simp add: ValidateLatencyConfig_def latency_ApplyDefaults_def http_IsEnabled_def icmp_IsEnabled_def
        http_defaults_fields icmp_defaults_fields)
qed

subsection \<open>What an accepted configuration guarantees\<close>

lemma validate_targets_None:
  "validate_targets i seen ts = None \<Longrightarrow>
     distinct (map tg_id ts) \<and> set (map tg_id ts) \<inter> seen = {} \<and>
     (\<forall>t \<in> set ts. tg_id t \<noteq> [] \<and> tg_name t \<noteq> [] \<and> ValidateTargetBaseURLScheme (tg_base_url t) = None)"
  by (induction i seen ts rule: validate_targets.induct) (auto split: if_splits option.splits)

lemma index_of_Some: "index_of s t = Some n \<Longrightarrow> has_prefix (drop n s) t"
  by (induction s t arbitrary: n rule: index_of.induct) (auto split: if_splits simp: has_prefix_def)

lemma scheme_ok:
  assumes "ValidateTargetBaseURLScheme u = None"
  shows "\<exists>scheme rest. u = scheme @ ''://'' @ rest \<and> map lower_char scheme \<in> {''http'', ''https''}"
proof -
  obtain n where n: "index_of u ''://'' = Some n" "map lower_char (take n u) \<in> {''http'', ''https''}"
    using assms by (auto simp: ValidateTargetBaseURLScheme_def Let_def split: if_splits option.splits)
  then obtain rest where "drop n u = ''://'' @ rest" using index_of_Some has_prefix_iff by blast
  then have "u = take n u @ ''://'' @ rest" by (metis append_take_drop_id)
  with n(2) show ?thesis by (intro exI conjI)
qed

lemma first_error_None: "first_error f i xs = None \<Longrightarrow> \<forall>x \<in> set xs. \<exists>j. f j x = None"
  by (induction f i xs rule: first_error.induct) (auto split: option.splits)

lemma target_fold:
  "fold (\<lambda>target m. m(target \<mapsto> p)) ts m t = (if t \<in> set ts then Some p else m t)"
  by (induction ts arbitrary: m) auto

lemma find_append: "find P (xs @ ys) = (case find P xs of Some x \<Rightarrow> Some x | None \<Rightarrow> find P ys)"
  by (induction xs) auto

lemma TargetToDiagPeers_last:
  "fold (\<lambda>peer m. fold (\<lambda>target m. m(target \<mapsto> peer)) (dp_targets peer) m) ps m t =
     (case find (\<lambda>p. t \<in> set (dp_targets p)) (rev ps) of Some p \<Rightarrow> Some p | None \<Rightarrow> m t)"
proof (induction ps arbitrary: m)
  case (Cons p ps)
  show ?case unfolding fold.simps comp_def Cons
    by (auto simp: find_append target_fold split: option.split)
next
  case Nil then show ?case by simp
qed

text \<open>
  What an accepted configuration guarantees. Target identifiers are distinct and not
  empty, every base URL has scheme \<open>http\<close> or \<open>https\<close>, the intervals are positive and the
  password hash is well formed. The diagnostics section has its positive defaults, and if it is
  enabled, every peer has a name, a target and the precomputed URL of its base URL, and a
  target is mapped to the last peer that lists it.
\<close>

theorem config_accepted:
  assumes ok: "config_Validate parse render tls c = (None, c')"
  shows "distinct (map tg_id (cf_targets c')) \<and> cf_targets c' = cf_targets c
    \<and> (\<forall>t \<in> set (cf_targets c'). tg_id t \<noteq> [] \<and> (\<exists>scheme rest. tg_base_url t = scheme @ ''://'' @ rest
          \<and> map lower_char scheme \<in> {''http'', ''https''}))
    \<and> 0 < sp_interval (cf_scrape c') \<and> 0 < sp_timeout_ms (cf_scrape c')
    \<and> ValidatePasswordHashFormat (ac_password (cf_auth c')) = None
    \<and> 0 < dg_timeout_ms (cf_diagnostics c') \<and> 0 < dg_cooldown_seconds (cf_diagnostics c') \<and> 0 < dg_max_uncaptured (cf_diagnostics c')
    \<and> (if dg_enabled (cf_diagnostics c') then dg_peers (cf_diagnostics c') \<noteq> []
          \<and> (\<forall>p \<in> set (dg_peers (cf_diagnostics c')). dp_name p \<noteq> [] \<and> dp_targets p \<noteq> []
               \<and> dp_effective_url p = DiagPeerStatusURL parse render (dp_base_url p)) else True)
    \<and> (\<forall>t. TargetToDiagPeers (cf_diagnostics c') t
           = find (\<lambda>p. t \<in> set (dp_targets p)) (rev (dg_peers (cf_diagnostics c'))))"
proof -
  let ?d = "diag_ApplyDefaults (cf_diagnostics c)"
  have hash: "ValidatePasswordHashFormat (ac_password (cf_auth c)) = None"
    and sp: "0 < sp_interval (cf_scrape c)" "0 < sp_timeout_ms (cf_scrape c)"
    and t: "validate_targets 0 {} (cf_targets c) = None" and d: "diag_Validate parse ?d = None"
    and c': "c' = c\<lparr>cf_diagnostics := PrecomputeCaptureURLs parse render ?d\<rparr>"
    using ok by (auto simp: config_Validate_def Let_def split: if_splits option.splits)
  note tt = validate_targets_None[OF t]
  have urls: "\<forall>x \<in> set (cf_targets c). \<exists>scheme rest. tg_base_url x = scheme @ ''://'' @ rest
      \<and> map lower_char scheme \<in> {''http'', ''https''}" using tt scheme_ok by blast
  have pos: "0 < dg_timeout_ms ?d" "0 < dg_cooldown_seconds ?d" "0 < dg_max_uncaptured ?d"
    by (simp_all add: diag_ApplyDefaults_def or_default_def)
  have peers: "dg_peers ?d \<noteq> [] \<and> (\<forall>p \<in> set (dg_peers ?d). dp_name p \<noteq> [] \<and> dp_targets p \<noteq> [])" if "dg_enabled ?d"
  proof -
    have "first_error (validate_peer parse) 0 (dg_peers ?d) = None" "dg_peers ?d \<noteq> []"
      using d that by (auto simp: diag_Validate_def split: option.splits if_splits)
    then show ?thesis using first_error_None[of "validate_peer parse" 0 "dg_peers ?d"]
      by (fastforce simp: validate_peer_def split: option.splits if_splits)
  qed
  have pre: "dg_timeout_ms (PrecomputeCaptureURLs parse render ?d) = dg_timeout_ms ?d"
    "dg_cooldown_seconds (PrecomputeCaptureURLs parse render ?d) = dg_cooldown_seconds ?d"
    "dg_max_uncaptured (PrecomputeCaptureURLs parse render ?d) = dg_max_uncaptured ?d"
    "dg_enabled (PrecomputeCaptureURLs parse render ?d) = dg_enabled ?d"
    "dg_enabled ?d \<Longrightarrow> dg_peers (PrecomputeCaptureURLs parse render ?d)
       = map (\<lambda>p. p\<lparr>dp_effective_url := DiagPeerStatusURL parse render (dp_base_url p)\<rparr>) (dg_peers ?d)"
    by (simp_all add: PrecomputeCaptureURLs_def)
  have map_: "TargetToDiagPeers x t = find (\<lambda>p. t \<in> set (dp_targets p)) (rev (dg_peers x))" for x t
    unfolding TargetToDiagPeers_def TargetToDiagPeers_last by (simp split: option.split)
  show ?thesis unfolding c'
    using tt urls hash sp pos peers by (simp add: pre map_)
qed

subsection \<open>Concrete instances\<close>

definition sha_example :: "string \<Rightarrow> string" where
  "sha_example s = take 32 (rev s @ replicate 32 CHR ''x'')"

lemma sha_example_length: "length (sha_example x) = 32"
  by (simp add: sha_example_def)

lemma password_roundtrip_witness:
  "\<exists>h. HashPassword sha_example ''pw'' (replicate 16 CHR ''s'') = Inr h \<and> ValidatePasswordHashFormat h = None
     \<and> VerifyPassword sha_example ''pw'' h = Inr True \<and> VerifyPassword sha_example ''pq'' h = Inr False"
proof -
  have "sha_example (replicate 16 CHR ''s'' @ ''pq'') \<noteq> sha_example (replicate 16 CHR ''s'' @ ''pw'')"
    by (simp add: sha_example_def)
  then show ?thesis
    using password_roundtrip[of "''pw''" "replicate 16 CHR ''s''" sha_example] sha_example_length by fastforce
qed

lemma accepted_hash_verifies_witness:
  "\<exists>b. VerifyPassword sha_example ''pw'' (stored_hash (replicate 32 CHR ''0'') (replicate 64 CHR ''a'')) = Inr b"
proof -
  have "ValidatePasswordHashFormat (stored_hash (replicate 32 CHR ''0'') (replicate 64 CHR ''a'')) = None" by code_simp
  from accepted_hash_verifies[OF this, of "''pw''" sha_example] show ?thesis by auto
qed

definition latency_config_example :: latency_config where
  "latency_config_example = \<lparr>lc_http = \<lparr>hp_enabled = None, hp_interval = 0, hp_timeout_ms = 0, hp_buckets = [], hp_recent_max = 5,
       hp_window = 100, hp_retained = 20\<rparr>,
     lc_icmp = \<lparr>ip_enabled = Some False, ip_interval = 7, ip_timeout = 0, ip_max_ping = 0, ip_backend = [], ip_buckets = [3, 4],
       ip_recent_max = 0, ip_window = 0, ip_retained = 0\<rparr>\<rparr>"

lemma defaults_validate_witness:
  "ValidateLatencyConfig (latency_ApplyDefaults latency_config_example) = None
    \<and> \<not> icmp_IsEnabled (lc_icmp (latency_ApplyDefaults latency_config_example))"
proof -
  have "http_small (lc_http latency_config_example)" "icmp_small (lc_icmp latency_config_example)"
    by (simp_all add: http_small_def icmp_small_def latency_config_example_def)
  from defaults_validate[OF this] show ?thesis by (simp add: icmp_IsEnabled_def latency_config_example_def)
qed

definition config_example :: config where
  "config_example = \<lparr>cf_listen = \<lparr>ln_addr = '':8443'', ln_cert = [], ln_key = []\<rparr>,
     cf_auth = \<lparr>ac_username = ''admin'', ac_password = stored_hash (replicate 32 CHR ''0'') (replicate 64 CHR ''a'')\<rparr>,
     cf_scrape = \<lparr>sp_interval = 5, sp_timeout_ms = 100\<rparr>, cf_latency = latency_config_example,
     cf_targets = [\<lparr>tg_id = ''a'', tg_name = ''A'', tg_base_url = ''http://h'', tg_probe_url = [], tg_enabled = True\<rparr>],
     cf_diagnostics = \<lparr>dg_enabled = True, dg_capture_on_spike = True, dg_timeout_ms = 0, dg_cooldown_seconds = 0,
       dg_max_uncaptured = 0, dg_peers = [\<lparr>dp_name = ''p'', dp_base_url = ''http://h'', dp_targets = [''a''], dp_effective_url = []\<rparr>],
       dg_pprof = \<lparr>pp_enabled = False, pp_listen = [], pp_rate = 0\<rparr>\<rparr>\<rparr>"

definition parse_example :: url_parser where
  "parse_example s = Some \<lparr>u_scheme = ''http'', u_host = ''h'', u_hostname = ''h'', u_has_user = False, u_path = [],
     u_raw_query = [], u_fragment = []\<rparr>"

lemma config_accepted_witness:
  "\<exists>c'. config_Validate parse_example u_path True config_example = (None, c')
     \<and> dg_peers (cf_diagnostics c') = [\<lparr>dp_name = ''p'', dp_base_url = ''http://h'', dp_targets = [''a''], dp_effective_url = ''/status.json''\<rparr>]
     \<and> TargetToDiagPeers (cf_diagnostics c') ''a'' \<noteq> None"
proof -
  have "ValidatePasswordHashFormat (stored_hash (replicate 32 CHR ''0'') (replicate 64 CHR ''a'')) = None" by code_simp
  moreover have "ValidateTargetBaseURLScheme ''http://h'' = None" by code_simp
  ultimately obtain c' where c': "config_Validate parse_example u_path True config_example = (None, c')"
    "dg_peers (cf_diagnostics c') = [\<lparr>dp_name = ''p'', dp_base_url = ''http://h'', dp_targets = [''a''], dp_effective_url = ''/status.json''\<rparr>]"
    by (simp add: config_Validate_def config_example_def diag_ApplyDefaults_def diag_Validate_def pprof_Validate_def
        pprof_ApplyDefaults_def validate_peer_def ValidateDiagPeerBaseURL_def parse_example_def PrecomputeCaptureURLs_def
        DiagPeerStatusURL_def trim_suffix_def has_suffix_def stored_hash_def Let_def)
  have "\<forall>t. TargetToDiagPeers (cf_diagnostics c') t = find (\<lambda>p. t \<in> set (dp_targets p)) (rev (dg_peers (cf_diagnostics c')))"
    using config_accepted[OF c'(1)] by blast
  then show ?thesis using c' by simp
qed

end
