(* ===== verification/Decimal.thy ===== *)
theory Decimal
  imports Prelude "HOL-Library.Char_ord"
begin

section \<open>Decimal numerals\<close>

text \<open>
  The decimal text of a number, as \<open>%d\<close>, \<open>strconv.Itoa\<close> and \<open>strconv.Atoi\<close> of the
  standard library write and read it, with the facts that its users share.
\<close>

fun show_nat :: "nat \<Rightarrow> string" where
  "show_nat n = (if n < 10 then [char_of (48 + n)] else show_nat (n div 10) @ [char_of (48 + n mod 10)])"

definition show_int :: "int \<Rightarrow> string" where
  "show_int i = (if i < 0 then ''-'' @ show_nat (nat (- i)) else show_nat (nat i))"

definition is_digit :: "char \<Rightarrow> bool" where
  "is_digit c = (CHR ''0'' \<le> c \<and> c \<le> CHR ''9'')"

definition digits_value :: "string \<Rightarrow> nat" where
  "digits_value s = foldl (\<lambda>v c. v * 10 + (of_char c - 48)) 0 s"

text \<open>\<open>strconv.Atoi\<close>: an optional sign and at least one digit, in the range of an int64.\<close>

definition Atoi :: "string \<Rightarrow> int option" where
  "Atoi s =
     (let (negative, d) = (case s of [] \<Rightarrow> (False, s)
            | c # t \<Rightarrow> if c = CHR ''-'' then (True, t) else if c = CHR ''+'' then (False, t) else (False, s));
          v = (if negative then - int (digits_value d) else int (digits_value d))
      in if d = [] \<or> \<not> list_all is_digit d then None else if in_int64 v then Some v else None)"

definition digit_string :: "string \<Rightarrow> bool" where
  "digit_string s \<longleftrightarrow> (\<forall>c \<in> set s. 48 \<le> (of_char c :: nat) \<and> (of_char c :: nat) \<le> 57)"

lemma show_nat_digits: "digit_string (show_nat n)"
proof (induction n rule: show_nat.induct)
  case (1 n)
  have d: "48 \<le> (of_char (char_of (48 + k :: nat)) :: nat) \<and> (of_char (char_of (48 + k :: nat)) :: nat) \<le> 57" if "k < 10" for k
    using that by (simp add: of_char_of take_bit_eq_mod)
  show ?case
  proof (cases "n < 10")
    case True
    then show ?thesis using d[of n] by (simp add: digit_string_def)
  next
    case False
    then have "show_nat n = show_nat (n div 10) @ [char_of (48 + n mod 10)]" by simp
    then show ?thesis using 1 False d[of "n mod 10"] by (auto simp: digit_string_def simp del: show_nat.simps)
  qed
qed

declare show_nat.simps [simp del]

lemma digit_iff: "is_digit c \<longleftrightarrow> 48 \<le> (of_char c :: nat) \<and> (of_char c :: nat) \<le> 57"
  by (simp add: is_digit_def less_eq_char_def)

lemma digit_string_is_digit: "digit_string s \<longleftrightarrow> list_all is_digit s"
  by (simp add: digit_string_def list_all_iff digit_iff)

lemma digits_value_snoc: "digits_value (s @ [c]) = digits_value s * 10 + (of_char c - 48)"
  by (simp add: digits_value_def)

lemma digits_value_show: "digits_value (show_nat n) = n"
proof (induction n rule: show_nat.induct)
  case (1 n)
  have d: "(of_char (char_of (48 + k :: nat)) :: nat) = 48 + k" if "k < 10" for k
    using that by (simp add: of_char_of take_bit_eq_mod)
  show ?case
  proof (cases "n < 10")
    case True
    then show ?thesis using d[of n] by (simp add: digits_value_def show_nat.simps[of n])
  next
    case False
    then have "show_nat n = show_nat (n div 10) @ [char_of (48 + n mod 10)]" by (simp add: show_nat.simps[of n])
    then show ?thesis using 1 False d[of "n mod 10"] by (simp add: digits_value_snoc)
  qed
qed

lemma show_nat_nonempty: "show_nat n \<noteq> []"
  by (subst show_nat.simps) simp

lemma Atoi_show: "n < 2 ^ 63 \<Longrightarrow> Atoi (show_nat n) = Some (int n)"
proof -
  assume n: "n < 2 ^ 63"
  have d: "list_all is_digit (show_nat n)" using show_nat_digits by (simp add: digit_string_is_digit)
  obtain c t where ct: "show_nat n = c # t" using show_nat_nonempty[of n] by (cases "show_nat n") auto
  have "is_digit c" using d by (simp add: ct)
  then have "c \<noteq> CHR ''-''" "c \<noteq> CHR ''+''" by (auto simp: is_digit_def)
  then have "Atoi (show_nat n) = (if in_int64 (int (digits_value (show_nat n))) then Some (int (digits_value (show_nat n))) else None)"
    using d by (simp add: Atoi_def ct)
  then show ?thesis using n by (simp add: digits_value_show in_int64_def)
qed

declare show_nat.simps [simp]

end
