(* ===== verification/Capture_Service.thy ===== *)
theory Capture_Service
  imports Capture_Store Uvb_Config Decimal
begin

section \<open>The capture service: from a spike to a stored capture\<close>

text \<open>
  Models \<open>uvb76/diag/capture.go\<close>. \<open>TriggerCapture\<close> runs in the probe goroutines, any number
  of them at a time, and performs the capture itself in a goroutine of its own. A call is
  therefore a sequence of atomic steps on the capture store, between which the other calls
  run; \<open>service_step\<close> is the relation of these steps. The synchronous part is also
  given as one function, for a call that nothing interrupts.

  What a capture gets from outside is an argument: the clock, the response of the
  peer (\<open>http_outcome\<close>), the route and TCP collectors, the URL and JSON parsers.
\<close>

subsection \<open>Capture records\<close>

text \<open>\<open>strings.ReplaceAll\<close> with a one-byte pattern.\<close>

definition replace_char :: "char \<Rightarrow> string \<Rightarrow> string \<Rightarrow> string" where
  "replace_char c r s = concat (map (\<lambda>d. if d = c then r else [d]) s)"

definition newline :: char where "newline = char_of (10 :: nat)"
definition carriage_return :: char where "carriage_return = char_of (13 :: nat)"

definition SafeErrorMessage :: "string \<Rightarrow> string" where
  "SafeErrorMessage raw =
     (let safe = (if length raw > 200 then take 200 raw else raw)
      in replace_char carriage_return [] (replace_char newline '' '' safe))"

definition zero_capture :: diag_capture where
  "zero_capture = \<lparr>cp_source = [], cp_base_url = [], cp_started_at = 0, cp_finished_at = None,
     cp_duration_ms = None, cp_status = [], cp_error = None, cp_network_diag = None, cp_suppressed = False,
     cp_referenced_id = [], cp_requested_path = None, cp_effective_url = [], cp_http_status = None,
     cp_capture_status = [], cp_cooldown_info = None, cp_absence_events = [], cp_probe_route = None,
     cp_tcp_quality = None\<rparr>"

definition finishCapture :: "time \<Rightarrow> diag_capture \<Rightarrow> diag_capture" where
  "finishCapture now c = c\<lparr>cp_finished_at := Some now, cp_duration_ms := Some (milliseconds (time_sub now (cp_started_at c)))\<rparr>"

definition disabled_capture :: "time \<Rightarrow> time \<Rightarrow> diag_capture" where
  "disabled_capture now fin = finishCapture fin (zero_capture\<lparr>cp_started_at := now, cp_status := DiagCaptureStatusDisabled,
     cp_capture_status := CanonicalCaptureStatusFromDiagStatus DiagCaptureStatusDisabled False\<rparr>)"

definition no_peer_capture :: "time \<Rightarrow> time \<Rightarrow> diag_capture" where
  "no_peer_capture now fin = finishCapture fin (zero_capture\<lparr>cp_started_at := now, cp_status := DiagCaptureStatusNoPeerMapping,
     cp_capture_status := CanonicalCaptureStatusFromDiagStatus DiagCaptureStatusNoPeerMapping False\<rparr>)"

definition in_flight_capture :: "diag_peer \<Rightarrow> time \<Rightarrow> time \<Rightarrow> diag_capture" where
  "in_flight_capture peer now fin = finishCapture fin (zero_capture\<lparr>cp_source := dp_name peer, cp_base_url := dp_base_url peer,
     cp_started_at := now, cp_status := DiagCaptureStatusUnavailable, cp_capture_status := CaptureStatusNotAttempted\<rparr>)"

definition cooldown_capture :: "diag_peer \<Rightarrow> time \<Rightarrow> time \<Rightarrow> cooldown_decision \<Rightarrow> string \<Rightarrow> diag_capture" where
  "cooldown_capture peer now fin decision probeKind =
     (let info = map_option (\<lambda>i. i\<lparr>ci_suppressed_kind := probeKind,
            ci_cross_probe := (ci_cross_probe i \<or> (ci_anchor_probe_kind i \<noteq> [] \<and> probeKind \<noteq> [] \<and> ci_anchor_probe_kind i \<noteq> probeKind))\<rparr>)
          (BuildCooldownInfoFromDecision decision (dp_name peer))
      in finishCapture fin (zero_capture\<lparr>cp_source := dp_name peer, cp_base_url := dp_base_url peer, cp_started_at := now,
           cp_status := DiagCaptureStatusOK, cp_suppressed := True, cp_capture_status := CaptureStatusSkippedCooldown,
           cp_cooldown_info := info\<rparr>))"

subsection \<open>Absence events\<close>

record absence_fields =
  af_reason :: string
  af_detail :: string
  af_expected_peer :: string
  af_expected_port :: "int option"
  af_probe_kind :: string
  af_command_tool :: string
  af_raw_match_count :: "int option"
  af_namespace :: string
  af_exit_code :: "int option"

type_synonym fields_decoder = "string \<Rightarrow> absence_fields option"

definition or_keep :: "'a list \<Rightarrow> 'a list \<Rightarrow> 'a list" where
  "or_keep old new = (if new \<noteq> [] then new else old)"

definition parseEventFields :: "fields_decoder \<Rightarrow> diag_event \<Rightarrow> diag_peer \<Rightarrow> tcp_absence_event" where
  "parseEventFields decode event peer =
     (let a = \<lparr>ta_reason_code = [], ta_source = de_source event, ta_expected_peer = dp_name peer, ta_expected_port = None,
               ta_probe_kind = [], ta_command_tool = [], ta_raw_match_count = None, ta_namespace = [], ta_detail = de_message event\<rparr>
      in case de_fields event of
           None \<Rightarrow> a\<lparr>ta_reason_code := ''no_matching_socket''\<rparr>
         | Some text \<Rightarrow>
             if text = [] then a\<lparr>ta_reason_code := ''no_matching_socket''\<rparr>
             else case decode text of
                    None \<Rightarrow> a\<lparr>ta_reason_code := ''parse_failed'',
                              ta_detail := (if ta_detail a = [] then ''failed to parse underlay_tcp event fields'' else ta_detail a)\<rparr>
                  | Some f \<Rightarrow> a\<lparr>ta_reason_code := or_keep (ta_reason_code a) (af_reason f),
                      ta_detail := or_keep (ta_detail a) (af_detail f),
                      ta_expected_peer := or_keep (ta_expected_peer a) (af_expected_peer f),
                      ta_expected_port := (if af_expected_port f \<noteq> None then af_expected_port f else ta_expected_port a),
                      ta_probe_kind := or_keep (ta_probe_kind a) (af_probe_kind f),
                      ta_namespace := or_keep (ta_namespace a) (af_namespace f),
                      ta_raw_match_count := (if af_raw_match_count f \<noteq> None then af_raw_match_count f else ta_raw_match_count a),
                      ta_command_tool := (if af_command_tool f \<noteq> [] then af_command_tool f
                        else case af_exit_code f of Some x \<Rightarrow> ''ss (exit='' @ show_int x @ '')'' | None \<Rightarrow> ta_command_tool a)\<rparr>)"

definition buildTcpAbsenceEvents :: "fields_decoder \<Rightarrow> diag_event list \<Rightarrow> diag_peer \<Rightarrow> tcp_absence_event list" where
  "buildTcpAbsenceEvents decode events peer =
     map (\<lambda>e. parseEventFields decode e peer) (filter (\<lambda>e. de_source e = ''underlay_tcp'') events)"

subsection \<open>Performing a capture\<close>

text \<open>
  What the HTTP request came to: it could not be built; it failed, after the deadline or
  otherwise; or a response with its status code and its body, decoded or not.
\<close>

datatype http_outcome =
    RequestInvalid string
  | RequestFailed bool string
  | Responded int "string + network_diag option"

record capture_env =
  ce_parse :: url_parser
  ce_render :: "parsed_url \<Rightarrow> string"
  ce_decode :: fields_decoder
  ce_started :: time
  ce_finished :: time
  ce_stamp :: string
  ce_route :: "string \<Rightarrow> string \<Rightarrow> probe_route"
  ce_tcp :: "string \<Rightarrow> string \<Rightarrow> tcp_quality"
  ce_outcome :: http_outcome

definition probeKindToRouteKind :: "string \<Rightarrow> string" where
  "probeKindToRouteKind probeKind = (if map lower_char probeKind = ''icmp'' then ''icmp'' else ''http'')"

definition extractHostFromURL :: "url_parser \<Rightarrow> string \<Rightarrow> string" where
  "extractHostFromURL parse baseURL = (case parse baseURL of None \<Rightarrow> [] | Some u \<Rightarrow> u_hostname u)"

definition collectProbeRoute :: "capture_env \<Rightarrow> diag_peer \<Rightarrow> string \<Rightarrow> probe_route" where
  "collectProbeRoute env peer routeKind =
     (let host = extractHostFromURL (ce_parse env) (dp_base_url peer)
      in if host = []
         then \<lparr>pr_kind = routeKind, pr_probe_host = [], pr_resolved_ip = [], pr_lookup_target = [], pr_ok = False,
               pr_route_type = [], pr_interface = [], pr_source_ip = [], pr_gateway = [], pr_table = [], pr_mtu = None,
               pr_uid = None, pr_error = ''cannot extract host from peer base_url'', pr_error_kind = ''unavailable'',
               pr_collected_at = ce_stamp env\<rparr>
         else ce_route env routeKind host)"

definition sanitized_path :: "url_parser \<Rightarrow> string \<Rightarrow> string" where
  "sanitized_path parse url =
     (case parse url of
        None \<Rightarrow> []
      | Some u \<Rightarrow> u_path u @ (if u_raw_query u \<noteq> [] then ''?'' @ u_raw_query u else []))"

definition failed_capture :: "capture_env \<Rightarrow> string \<Rightarrow> string \<Rightarrow> string \<Rightarrow> diag_capture \<Rightarrow> diag_capture" where
  "failed_capture env status msg path c =
     finishCapture (ce_finished env)
       (c\<lparr>cp_status := status, cp_capture_status := CanonicalCaptureStatusFromDiagStatus status False,
          cp_error := Some (SafeErrorMessage msg), cp_requested_path := Some path\<rparr>)"

definition performCapture :: "capture_env \<Rightarrow> diag_peer \<Rightarrow> string \<Rightarrow> diag_capture" where
  "performCapture env peer probeKind =
     (let url = DiagPeerStatusURL (ce_parse env) (ce_render env) (dp_base_url peer);
          path = sanitized_path (ce_parse env) url;
          c = zero_capture\<lparr>cp_source := dp_name peer, cp_base_url := dp_base_url peer, cp_started_at := ce_started env,
                cp_status := DiagCaptureStatusOK, cp_effective_url := url,
                cp_probe_route := Some (collectProbeRoute env peer (probeKindToRouteKind probeKind)),
                cp_tcp_quality := Some (ce_tcp env probeKind (extractHostFromURL (ce_parse env) (dp_base_url peer)))\<rparr>
      in case ce_outcome env of
           RequestInvalid e \<Rightarrow> failed_capture env DiagCaptureStatusError (''request creation failed: '' @ e) path c
         | RequestFailed deadline e \<Rightarrow>
             failed_capture env (if deadline then DiagCaptureStatusTimeout else DiagCaptureStatusError) (''request failed: '' @ e) path c
         | Responded code body \<Rightarrow>
             let c1 = c\<lparr>cp_http_status := Some code\<rparr>
             in if code \<noteq> 200
                then failed_capture env DiagCaptureStatusError
                       (if code = 404 then ''Capture request returned HTTP 404 (check base_url is origin-only, not full path)''
                        else ''Capture request returned HTTP '' @ show_int code) path c1
                else case body of
                       Inl e \<Rightarrow> failed_capture env DiagCaptureStatusError (''parse failed: '' @ e) path c1
                     | Inr None \<Rightarrow> finishCapture (ce_finished env) c1
                     | Inr (Some nd) \<Rightarrow>
                         finishCapture (ce_finished env)
                           (c1\<lparr>cp_network_diag := Some nd, cp_capture_status := CanonicalCaptureStatusFromDiagStatus (cp_status c1) True,
                               cp_absence_events := (if length (nd_underlay_tcp nd) = 0 \<and> length (nd_events nd) > 0
                                 then buildTcpAbsenceEvents (ce_decode env) (nd_events nd) peer else [])\<rparr>))"

subsection \<open>Triggering\<close>

record diag_service =
  sv_cfg :: diagnostics_config
  sv_validator :: "anchor_validator option"

definition service_peers :: "diag_service \<Rightarrow> string \<rightharpoonup> diag_peer" where
  "service_peers sv = TargetToDiagPeers (sv_cfg sv)"

definition service_enabled :: "diag_service \<Rightarrow> bool" where
  "service_enabled sv \<longleftrightarrow> dg_enabled (sv_cfg sv) \<and> dg_capture_on_spike (sv_cfg sv)"

text \<open>The decision, on the store at the snapshot and the store when the lock is taken again.\<close>

definition service_decision :: "diag_service \<Rightarrow> time \<Rightarrow> diag_peer \<Rightarrow> capture_store \<Rightarrow> capture_store \<Rightarrow> cooldown_decision \<times> capture_store" where
  "service_decision sv now peer cs later =
     (case sv_validator sv of
        Some v \<Rightarrow> EvaluateCooldownWithAnchorValidation now (dp_name peer) (dg_cooldown_seconds (sv_cfg sv)) (Some v) cs later
      | None \<Rightarrow> (EvaluateCooldown now (dp_name peer) (dg_cooldown_seconds (sv_cfg sv)) cs, later))"

datatype trigger_result = Recorded | Started diag_peer

definition TriggerCapture ::
  "diag_service \<Rightarrow> time \<Rightarrow> time \<Rightarrow> string \<Rightarrow> string \<Rightarrow> string \<Rightarrow> capture_store \<Rightarrow> trigger_result \<times> capture_store" where
  "TriggerCapture sv now fin eventID targetID probeKind cs =
     (if \<not> dg_enabled (sv_cfg sv) \<or> \<not> dg_capture_on_spike (sv_cfg sv)
      then (Recorded, AddCapture eventID (disabled_capture now fin) cs)
      else case service_peers sv targetID of
             None \<Rightarrow> (Recorded, AddCapture eventID (no_peer_capture now fin) cs)
           | Some peer \<Rightarrow>
               let (reserved, cs1) = ReserveInFlight (dp_name peer) cs
               in if \<not> reserved then (Recorded, AddCapture eventID (in_flight_capture peer now fin) cs1)
                  else let (decision, cs2) = service_decision sv now peer cs1 cs1
                    in if cd_in_cooldown decision
                       then (Recorded, AddCapture eventID (cooldown_capture peer now fin decision probeKind)
                                         (ReleaseInFlight (dp_name peer) cs2))
                       else (Started peer, cs2))"

text \<open>The goroutine of a started capture.\<close>

definition capture_goroutine :: "capture_env \<Rightarrow> diag_peer \<Rightarrow> string \<Rightarrow> string \<Rightarrow> string \<Rightarrow> capture_store \<Rightarrow> capture_store" where
  "capture_goroutine env peer eventID targetID probeKind cs =
     ReleaseInFlight (dp_name peer)
       (AddCaptureWithProvenance eventID (performCapture env peer probeKind) targetID probeKind cs)"

subsection \<open>The steps of concurrent calls\<close>

text \<open>
  The validator reads the live spike and capture stores, so a decision may use any validator,
  if the service has one. Where a call stands after its reservation: it holds the peer until it releases it, after
  a cooldown or after storing the capture. A rejected or skipped call only has to leave its record.
\<close>

datatype call_phase =
    Rejected
  | Reserved
  | Validating capture_store
  | Cooling cooldown_decision
  | Skipped cooldown_decision
  | Running
  | Stored

record capture_call =
  cl_event :: string
  cl_target :: string
  cl_kind :: string
  cl_peer :: diag_peer
  cl_now :: time
  cl_phase :: call_phase

fun holding :: "call_phase \<Rightarrow> bool" where
  "holding Rejected = False"
| "holding (Skipped d) = False"
| "holding _ = True"

type_synonym service_state = "capture_store \<times> capture_call list"

inductive service_step :: "diag_service \<Rightarrow> service_state \<Rightarrow> service_state \<Rightarrow> bool" for sv where
  disabled: "\<not> service_enabled sv \<Longrightarrow> service_step sv (s, cs) (AddCapture e (disabled_capture now fin) s, cs)"
| no_peer: "service_enabled sv \<Longrightarrow> service_peers sv t = None \<Longrightarrow>
    service_step sv (s, cs) (AddCapture e (no_peer_capture now fin) s, cs)"
| reserve: "service_enabled sv \<Longrightarrow> service_peers sv t = Some peer \<Longrightarrow> ReserveInFlight (dp_name peer) s = (ok, s') \<Longrightarrow>
    service_step sv (s, cs) (s', \<lparr>cl_event = e, cl_target = t, cl_kind = k, cl_peer = peer, cl_now = now,
      cl_phase = (if ok then Reserved else Rejected)\<rparr> # cs)"
| reject: "cl_phase c = Rejected \<Longrightarrow>
    service_step sv (s, xs @ c # ys) (AddCapture (cl_event c) (in_flight_capture (cl_peer c) (cl_now c) fin) s, xs @ ys)"
| snapshot: "cl_phase c = Reserved \<Longrightarrow> service_step sv (s, xs @ c # ys) (s, xs @ c\<lparr>cl_phase := Validating s\<rparr> # ys)"
| decide: "cl_phase c = Validating s0 \<Longrightarrow> is_some v = is_some (sv_validator sv) \<Longrightarrow>
    service_decision (sv\<lparr>sv_validator := v\<rparr>) (cl_now c) (cl_peer c) s0 s = (d, s') \<Longrightarrow>
    service_step sv (s, xs @ c # ys) (s', xs @ c\<lparr>cl_phase := (if cd_in_cooldown d then Cooling d else Running)\<rparr> # ys)"
| cool: "cl_phase c = Cooling d \<Longrightarrow>
    service_step sv (s, xs @ c # ys) (ReleaseInFlight (dp_name (cl_peer c)) s, xs @ c\<lparr>cl_phase := Skipped d\<rparr> # ys)"
| skip: "cl_phase c = Skipped d \<Longrightarrow>
    service_step sv (s, xs @ c # ys)
      (AddCapture (cl_event c) (cooldown_capture (cl_peer c) (cl_now c) fin d (cl_kind c)) s, xs @ ys)"
| store: "cl_phase c = Running \<Longrightarrow>
    service_step sv (s, xs @ c # ys)
      (AddCaptureWithProvenance (cl_event c) (performCapture env (cl_peer c) (cl_kind c)) (cl_target c) (cl_kind c) s,
       xs @ c\<lparr>cl_phase := Stored\<rparr> # ys)"
| release: "cl_phase c = Stored \<Longrightarrow>
    service_step sv (s, xs @ c # ys) (ReleaseInFlight (dp_name (cl_peer c)) s, xs @ ys)"

inductive_cases service_stepE: "service_step sv st st'"

subsection \<open>The interface of a reservation\<close>

text \<open>
  The store's in-flight map is used as a set of locks that are tried and released. The contract is
  stated once; its lemmas keep the count of owners in step with the map.
\<close>

locale reservation =
  fixes reserve :: "'k \<Rightarrow> 's \<Rightarrow> bool \<times> 's"
    and release :: "'k \<Rightarrow> 's \<Rightarrow> 's"
    and held :: "'k \<Rightarrow> 's \<Rightarrow> bool"
  assumes reserve_succeeds: "fst (reserve k s) \<longleftrightarrow> \<not> held k s"
    and reserve_held: "held j (snd (reserve k s)) \<longleftrightarrow> j = k \<or> held j s"
    and release_held: "held j (release k s) \<longleftrightarrow> j \<noteq> k \<and> held j s"
begin

lemma reserve_twice: "\<not> fst (reserve k (snd (reserve k s)))"
  by (simp add: reserve_succeeds reserve_held)

lemma reserve_after_release: "fst (reserve k (release k s))"
  by (simp add: reserve_succeeds release_held)

definition owners_match :: "('k \<Rightarrow> nat) \<Rightarrow> 's \<Rightarrow> bool" where
  "owners_match owners s \<longleftrightarrow> (\<forall>k. owners k = (if held k s then 1 else 0))"

lemma reserve_owners:
  "owners_match owners s \<Longrightarrow>
   owners_match (\<lambda>j. owners j + (if fst (reserve k s) \<and> j = k then 1 else 0)) (snd (reserve k s))"
  by (auto simp: owners_match_def reserve_succeeds reserve_held)

lemma release_owners:
  "owners_match owners s \<Longrightarrow> owners_match (\<lambda>j. if j = k then 0 else owners j) (release k s)"
  by (auto simp: owners_match_def release_held)

lemma owner_unique: "owners_match owners s \<Longrightarrow> 0 < owners k \<Longrightarrow> owners k = 1 \<and> held k s"
  by (auto simp: owners_match_def split: if_splits)

end

interpretation inflight: reservation ReserveInFlight ReleaseInFlight IsInFlight
  by unfold_locales (auto simp: ReserveInFlight_def ReleaseInFlight_def IsInFlight_def)

subsection \<open>One capture per peer\<close>

definition holders :: "capture_call list \<Rightarrow> string \<Rightarrow> nat" where
  "holders cs n = length (filter (\<lambda>c. holding (cl_phase c) \<and> dp_name (cl_peer c) = n) cs)"

lemma holders_simps [simp]:
  "holders [] n = 0"
  "holders (c # cs) n = (if holding (cl_phase c) \<and> dp_name (cl_peer c) = n then 1 else 0) + holders cs n"
  "holders (xs @ ys) n = holders xs n + holders ys n"
  by (simp_all add: holders_def)

definition service_inv :: "service_state \<Rightarrow> bool" where
  "service_inv st \<longleftrightarrow> store_ok (fst st) \<and> inflight.owners_match (holders (snd st)) (fst st)"

lemma inflight_cong: "cs_inflight s = cs_inflight s' \<Longrightarrow> inflight.owners_match f s = inflight.owners_match f s'"
  by (simp add: inflight.owners_match_def IsInFlight_def)

lemma AddCapture_inflight [simp]:
  "cs_inflight (AddCapture e c s) = cs_inflight s" "cs_inflight (AddCaptureWithProvenance e c t k s) = cs_inflight s"
  by (simp_all add: AddCapture_def AddCaptureWithProvenance_def Let_def)

lemma clear_same_inflight [simp]: "cs_inflight (snd (clearCooldownIfSame p t i s)) = cs_inflight s"
  by (simp add: clearCooldownIfSame_def split: option.split)

lemma service_decision_frame:
  "cs_inflight (snd (service_decision sv now peer s0 s)) = cs_inflight s"
  "store_ok s \<Longrightarrow> store_ok (snd (service_decision sv now peer s0 s))"
  by (auto simp: service_decision_def EvaluateCooldownWithAnchorValidation_def Let_def clear_same_ok split: option.split)

lemma release_holders:
  assumes "inflight.owners_match (holders (xs @ c # ys)) s" "holding (cl_phase c)" "\<not> holding (cl_phase c')" "dp_name (cl_peer c) = n"
  shows "inflight.owners_match (holders (xs @ ys)) (ReleaseInFlight n s)"
proof -
  have "holders (xs @ c # ys) n = 1" using inflight.owner_unique[OF assms(1), of n] assms by simp
  then have "holders (xs @ ys) = (\<lambda>j. if j = n then 0 else holders (xs @ c # ys) j)" using assms by auto
  then show ?thesis using inflight.release_owners[OF assms(1), of n] by simp
qed

lemma service_step_inv: "service_step sv st st' \<Longrightarrow> service_inv st \<Longrightarrow> service_inv st'"
proof (induction rule: service_step.induct)
  case (reserve t peer s ok s' cs e k now)
  have "store_ok s'" using store_ops_ok(3)[of s "dp_name peer"] reserve by (simp add: service_inv_def)
  moreover have "inflight.owners_match (\<lambda>j. holders cs j + (if ok \<and> j = dp_name peer then 1 else 0)) s'"
    using inflight.reserve_owners[of "holders cs" s "dp_name peer"] reserve by (simp add: service_inv_def)
  moreover have "holders (\<lparr>cl_event = e, cl_target = t, cl_kind = k, cl_peer = peer, cl_now = now,
      cl_phase = (if ok then Reserved else Rejected)\<rparr> # cs) = (\<lambda>j. holders cs j + (if ok \<and> j = dp_name peer then 1 else 0))"
    by auto
  ultimately show ?case by (simp only: service_inv_def fst_conv snd_conv simp_thms)
next
  case (decide c s0 v s d s' xs ys)
  have "cs_inflight s' = cs_inflight s" "store_ok s'"
    using service_decision_frame(1)[of "sv\<lparr>sv_validator := v\<rparr>" "cl_now c" "cl_peer c" s0 s]
      service_decision_frame(2)[of s "sv\<lparr>sv_validator := v\<rparr>" "cl_now c" "cl_peer c" s0] decide
    by (simp_all add: service_inv_def)
  moreover have "holders (xs @ c\<lparr>cl_phase := if cd_in_cooldown d then Cooling d else Running\<rparr> # ys) = holders (xs @ c # ys)"
    using decide(1) by auto
  ultimately show ?case using decide by (simp add: service_inv_def inflight_cong[of s' s])
next
  case (cool c d s xs ys)
  have "inflight.owners_match (holders (xs @ ys)) (ReleaseInFlight (dp_name (cl_peer c)) s)"
    using cool release_holders[of xs c ys s "c\<lparr>cl_phase := Rejected\<rparr>"] by (simp add: service_inv_def)
  moreover have "holders (xs @ c\<lparr>cl_phase := Skipped d\<rparr> # ys) = holders (xs @ ys)" by auto
  ultimately show ?case using cool by (simp add: service_inv_def store_ops_ok)
next
  case (release c s xs ys)
  then show ?case using release_holders[of xs c ys s "c\<lparr>cl_phase := Rejected\<rparr>"]
    by (simp add: service_inv_def store_ops_ok)
next
  case (reject c s xs ys fin)
  have "holders (xs @ c # ys) = holders (xs @ ys)" using reject(1) by auto
  then show ?case using reject
    by (simp add: service_inv_def store_ops_ok inflight_cong[of "AddCapture (cl_event c) (in_flight_capture (cl_peer c) (cl_now c) fin) s" s])
next
  case (skip c d s xs ys fin)
  have "holders (xs @ c # ys) = holders (xs @ ys)" using skip(1) by auto
  then show ?case using skip
    by (simp add: service_inv_def store_ops_ok
        inflight_cong[of "AddCapture (cl_event c) (cooldown_capture (cl_peer c) (cl_now c) fin d (cl_kind c)) s" s])
next
  case (store c s xs ys env)
  have "holders (xs @ c\<lparr>cl_phase := Stored\<rparr> # ys) = holders (xs @ c # ys)" using store(1) by auto
  then show ?case using store
    by (simp add: service_inv_def store_ops_ok inflight_cong[of "AddCaptureWithProvenance (cl_event c)
          (performCapture env (cl_peer c) (cl_kind c)) (cl_target c) (cl_kind c) s" s])
next
  case (snapshot c s xs ys)
  have "holders (xs @ c\<lparr>cl_phase := Validating s\<rparr> # ys) = holders (xs @ c # ys)" using snapshot(1) by auto
  then show ?case using snapshot by (simp add: service_inv_def)
next
  case (disabled s cs e now fin)
  then show ?case by (simp add: service_inv_def store_ops_ok inflight_cong[of "AddCapture e (disabled_capture now fin) s" s])
next
  case (no_peer t s cs e now fin)
  then show ?case by (simp add: service_inv_def store_ops_ok inflight_cong[of "AddCapture e (no_peer_capture now fin) s" s])
qed

text \<open>
  C2. However the calls interleave, at most one of them holds a peer, between its reservation
  and its release, and the in-flight flag of a peer is set exactly while some call holds it.
  So no capture of a peer starts while another runs, and when all calls have returned no
  reservation is left behind.
\<close>

theorem single_capture_per_peer:
  assumes run: "(service_step sv)\<^sup>*\<^sup>* (NewCaptureStore, []) (s, cs)"
  shows "holders cs n \<le> 1 \<and> (IsInFlight n s \<longleftrightarrow> holders cs n = 1) \<and> (cs = [] \<longrightarrow> \<not> IsInFlight n s) \<and> store_ok s"
proof -
  have "service_inv (NewCaptureStore, [])"
    using NewCaptureStore_ok by (simp add: service_inv_def inflight.owners_match_def IsInFlight_def NewCaptureStore_def)
  with run have "service_inv (s, cs)"
    by (induction "(s, cs)" arbitrary: s cs rule: rtranclp_induct) (auto intro: service_step_inv)
  then have own: "\<forall>k. holders cs k = (if IsInFlight k s then 1 else 0)" and ok: "store_ok s"
    by (simp_all add: service_inv_def inflight.owners_match_def)
  from own have "holders cs n = (if IsInFlight n s then 1 else 0)" ..
  then show ?thesis using ok by (cases "IsInFlight n s") auto
qed

subsection \<open>What a trigger does\<close>

lemma replace_char_set:
  "c \<notin> set r \<Longrightarrow> c \<notin> set (replace_char c r s)" "d \<notin> set r \<Longrightarrow> d \<notin> set s \<Longrightarrow> d \<notin> set (replace_char c r s)"
  by (auto simp: replace_char_def split: if_splits)

lemma replace_char_length: "length r \<le> 1 \<Longrightarrow> length (replace_char c r s) \<le> length s"
  unfolding replace_char_def by (induction s) simp_all

lemma SafeErrorMessage_safe:
  "length (SafeErrorMessage m) \<le> 200 \<and> newline \<notin> set (SafeErrorMessage m) \<and> carriage_return \<notin> set (SafeErrorMessage m)"
proof -
  let ?t = "if length m > 200 then take 200 m else m"
  have "length ?t \<le> 200" by simp
  moreover have "length (replace_char newline '' '' ?t) \<le> length ?t" by (rule replace_char_length) simp
  moreover have "length (SafeErrorMessage m) \<le> length (replace_char newline '' '' ?t)"
    unfolding SafeErrorMessage_def Let_def by (rule replace_char_length) simp
  moreover have "newline \<notin> set (SafeErrorMessage m)"
    unfolding SafeErrorMessage_def Let_def
    by (intro replace_char_set) (simp_all add: newline_def char_of_def)
  moreover have "carriage_return \<notin> set (SafeErrorMessage m)"
    unfolding SafeErrorMessage_def Let_def by (rule replace_char_set) simp
  ultimately show ?thesis by linarith
qed

text \<open>The outcome that makes a capture a captured one.\<close>

definition outcome_status :: "http_outcome \<Rightarrow> string" where
  "outcome_status out = (case out of
     Responded code (Inr (Some nd)) \<Rightarrow> if code = 200 then CaptureStatusCaptured else CaptureStatusFailed
   | Responded code (Inr None) \<Rightarrow> if code = 200 then [] else CaptureStatusFailed
   | _ \<Rightarrow> CaptureStatusFailed)"

lemma performCapture_success:
  "cp_source (performCapture env peer kind) = dp_name peer" "cp_started_at (performCapture env peer kind) = ce_started env"
  "outcome_status (ce_outcome env) = CaptureStatusCaptured \<Longrightarrow>
     isSuccessfulCooldownAnchorCapture (performCapture env peer kind) \<longleftrightarrow> dp_name peer \<noteq> []"
  by (auto simp: performCapture_def Let_def failed_capture_def finishCapture_def outcome_status_def zero_capture_def
      CanonicalCaptureStatusFromDiagStatus_def isSuccessfulCooldownAnchorCapture_def split: http_outcome.splits sum.splits option.splits if_splits)

text \<open>
  The status of a performed capture. It is \<open>captured\<close> exactly when the peer answered 200
  with a diagnosis, and then it counts for the cooldown; every failure is \<open>failed\<close>, with an error
  text of at most 200 bytes without line breaks. A 200 without a diagnosis leaves the
  capture status empty, although the status mapping would call it \<open>failed\<close>.
\<close>

theorem performCapture_status:
  "cp_capture_status (performCapture env peer kind) = outcome_status (ce_outcome env)
   \<and> cp_source (performCapture env peer kind) = dp_name peer
   \<and> cp_started_at (performCapture env peer kind) = ce_started env
   \<and> \<not> cp_suppressed (performCapture env peer kind)
   \<and> (isSuccessfulCooldownAnchorCapture (performCapture env peer kind)
        \<longleftrightarrow> dp_name peer \<noteq> [] \<and> outcome_status (ce_outcome env) = CaptureStatusCaptured)
   \<and> (case cp_error (performCapture env peer kind) of
        None \<Rightarrow> outcome_status (ce_outcome env) \<noteq> CaptureStatusFailed
      | Some e \<Rightarrow> outcome_status (ce_outcome env) = CaptureStatusFailed
          \<and> length e \<le> 200 \<and> newline \<notin> set e \<and> carriage_return \<notin> set e)"
proof -
  note defs = performCapture_def Let_def failed_capture_def finishCapture_def outcome_status_def zero_capture_def
    CanonicalCaptureStatusFromDiagStatus_def isSuccessfulCooldownAnchorCapture_def SafeErrorMessage_safe
  show ?thesis
  proof (cases "ce_outcome env")
    case (RequestInvalid e)
    then show ?thesis by (simp add: defs)
  next
    case (RequestFailed d e)
    then show ?thesis by (cases d) (simp_all add: defs)
  next
    case (Responded code body)
    show ?thesis
    proof (cases "code = 200")
      case False
      then show ?thesis using Responded by (auto simp: defs split: sum.split option.split)
    next
      case True
      then show ?thesis
        using Responded by (cases body) (auto simp: defs split: option.split)
    qed
  qed
qed

lemma GetCaptures_release [simp]: "GetCaptures e (ReleaseInFlight p s) = GetCaptures e s"
  by (simp add: GetCaptures_def ReleaseInFlight_def)

lemma decision_captures: "cs_captures (snd (service_decision sv now peer s0 s)) = cs_captures s"
  by (simp add: service_decision_def EvaluateCooldownWithAnchorValidation_def Let_def clearCooldownIfSame_def split: option.split)

lemma decision_last: "cs_last (snd (service_decision sv now peer s0 s)) \<subseteq>\<^sub>m cs_last s"
  by (auto simp: service_decision_def EvaluateCooldownWithAnchorValidation_def Let_def clearCooldownIfSame_def map_le_def
      split: option.split)

lemma last_AddCapture:
  assumes "store_ok s" shows "last (GetCaptures e (AddCapture e c s)) = c \<and> GetCaptures e (AddCapture e c s) \<noteq> []"
  using captures.push_newest[OF assms TrueI, of e c] assms by (simp add: store_ok_def)

lemma AddCapture_skipped_last: "\<not> isSuccessfulCooldownAnchorCapture c \<Longrightarrow> cs_last (AddCapture e c s) = cs_last s"
  by (simp add: AddCapture_def Let_def)

lemma record_not_success:
  "\<not> isSuccessfulCooldownAnchorCapture (disabled_capture now fin)" "\<not> isSuccessfulCooldownAnchorCapture (no_peer_capture now fin)"
  "\<not> isSuccessfulCooldownAnchorCapture (in_flight_capture peer now fin)"
  "\<not> isSuccessfulCooldownAnchorCapture (cooldown_capture peer now fin d k)"
  by (simp_all add: isSuccessfulCooldownAnchorCapture_def disabled_capture_def no_peer_capture_def in_flight_capture_def
      cooldown_capture_def finishCapture_def zero_capture_def Let_def)

definition skip_status :: "diag_service \<Rightarrow> string \<Rightarrow> capture_store \<Rightarrow> string" where
  "skip_status sv target s =
     (if \<not> service_enabled sv then CaptureStatusDisabled
      else case service_peers sv target of
             None \<Rightarrow> CaptureStatusNotConfigured
           | Some peer \<Rightarrow> if IsInFlight (dp_name peer) s then CaptureStatusNotAttempted else CaptureStatusSkippedCooldown)"

lemma trigger_effect:
  assumes ok: "store_ok s"
  shows "case TriggerCapture sv now fin e target kind s of
      (Recorded, s') \<Rightarrow> store_ok s' \<and> GetCaptures e s' \<noteq> [] \<and> cp_capture_status (last (GetCaptures e s')) = skip_status sv target s
         \<and> cs_last s' \<subseteq>\<^sub>m cs_last s \<and> (\<forall>n. IsInFlight n s' = IsInFlight n s)
    | (Started peer, s') \<Rightarrow> store_ok s' \<and> service_enabled sv \<and> service_peers sv target = Some peer
         \<and> \<not> IsInFlight (dp_name peer) s \<and> IsInFlight (dp_name peer) s' \<and> cs_captures s' = cs_captures s"
proof (cases "service_enabled sv")
  case False
  then have "TriggerCapture sv now fin e target kind s = (Recorded, AddCapture e (disabled_capture now fin) s)"
    by (auto simp: TriggerCapture_def service_enabled_def)
  then show ?thesis using False last_AddCapture[OF ok, of e "disabled_capture now fin"]
    by (simp add: skip_status_def AddCapture_skipped_last record_not_success IsInFlight_def store_ops_ok(1)[OF ok])
      (simp add: disabled_capture_def finishCapture_def CanonicalCaptureStatusFromDiagStatus_def)
next
  case True
  then have en: "dg_enabled (sv_cfg sv)" "dg_capture_on_spike (sv_cfg sv)" by (simp_all add: service_enabled_def)
  show ?thesis
  proof (cases "service_peers sv target")
    case None
    then have "TriggerCapture sv now fin e target kind s = (Recorded, AddCapture e (no_peer_capture now fin) s)"
      using en by (simp add: TriggerCapture_def)
    then show ?thesis using True None last_AddCapture[OF ok, of e "no_peer_capture now fin"]
      by (simp add: skip_status_def AddCapture_skipped_last record_not_success IsInFlight_def store_ops_ok(1)[OF ok])
        (simp add: no_peer_capture_def finishCapture_def CanonicalCaptureStatusFromDiagStatus_def)
  next
    case (Some peer)
    let ?n = "dp_name peer"
    show ?thesis
    proof (cases "IsInFlight ?n s")
      case held: True
      then have "TriggerCapture sv now fin e target kind s = (Recorded, AddCapture e (in_flight_capture peer now fin) s)"
        using en Some by (simp add: TriggerCapture_def ReserveInFlight_def IsInFlight_def)
      then show ?thesis using True Some held last_AddCapture[OF ok, of e "in_flight_capture peer now fin"]
        by (simp add: skip_status_def AddCapture_skipped_last record_not_success store_ops_ok(1)[OF ok]) (simp add: IsInFlight_def in_flight_capture_def finishCapture_def)
    next
      case free: False
      define s1 where "s1 = snd (ReserveInFlight ?n s)"
      obtain d s2 where d: "service_decision sv now peer s1 s1 = (d, s2)" by fastforce
      have s1: "ReserveInFlight ?n s = (True, s1)" "cs_last s1 = cs_last s" "cs_captures s1 = cs_captures s"
        using free by (simp_all add: s1_def ReserveInFlight_def IsInFlight_def)
      have h1: "IsInFlight n s1 \<longleftrightarrow> n = ?n \<or> IsInFlight n s" for n unfolding s1_def by (rule inflight.reserve_held)
      have s2_eq: "s2 = snd (service_decision sv now peer s1 s1)" by (simp only: d snd_conv)
      have ok1: "store_ok s1" using store_ops_ok(3)[OF ok, of ?n] by (simp only: s1(1) snd_conv)
      have s2: "cs_inflight s2 = cs_inflight s1" "cs_captures s2 = cs_captures s" "cs_last s2 \<subseteq>\<^sub>m cs_last s" "store_ok s2"
        unfolding s2_eq service_decision_frame(1) decision_captures s1(3)
        using decision_last[of sv now peer s1 s1] service_decision_frame(2)[OF ok1] by (simp_all only: s1(2))
      have h2: "IsInFlight n s2 = IsInFlight n s1" for n by (simp add: IsInFlight_def s2)
      show ?thesis
      proof (cases "cd_in_cooldown d")
        case cool: True
        let ?r = "ReleaseInFlight ?n s2" let ?c = "cooldown_capture peer now fin d kind"
        have t: "TriggerCapture sv now fin e target kind s = (Recorded, AddCapture e ?c ?r)"
          using en Some s1(1) d cool by (simp add: TriggerCapture_def)
        have "IsInFlight n (AddCapture e ?c ?r) = IsInFlight n s" for n
        proof -
          have "IsInFlight n (AddCapture e ?c ?r) = IsInFlight n ?r" by (simp add: IsInFlight_def)
          then show ?thesis using inflight.release_held[of n ?n s2] h1 h2 free by auto
        qed
        moreover have "cs_last (AddCapture e ?c ?r) \<subseteq>\<^sub>m cs_last s"
          using s2(3) by (simp add: AddCapture_skipped_last record_not_success ReleaseInFlight_def)
        moreover have "cp_capture_status ?c = CaptureStatusSkippedCooldown"
          by (simp add: cooldown_capture_def finishCapture_def Let_def)
        ultimately show ?thesis using t last_AddCapture[OF store_ops_ok(4)[OF s2(4), of ?n], of e ?c] store_ops_ok(1)[OF store_ops_ok(4)[OF s2(4), of ?n], of e ?c] True Some free
          by (simp add: skip_status_def)
      next
        case False
        then have "TriggerCapture sv now fin e target kind s = (Started peer, s2)"
          using en Some s1(1) d by (simp add: TriggerCapture_def)
        then show ?thesis using True Some free s2 h1 h2 by simp
      qed
    qed
  qed
qed

text \<open>
  A trigger always leaves a trace. Undisturbed, it either stores exactly one capture for the
  event, whose status names the reason for not capturing (disabled, no peer, in flight, or
  cooldown, in this order), sets no cooldown and leaves the reservations as they were; or it
  starts a capture, for the mapped peer, which was not in flight before and now is.
\<close>

theorem trigger_outcome:
  assumes ok: "store_ok s"
  shows "case TriggerCapture sv now fin e target kind s of
      (Recorded, s') \<Rightarrow> GetCaptures e s' \<noteq> [] \<and> cp_capture_status (last (GetCaptures e s')) = skip_status sv target s
         \<and> cs_last s' \<subseteq>\<^sub>m cs_last s \<and> (\<forall>n. IsInFlight n s' = IsInFlight n s)
    | (Started peer, s') \<Rightarrow> service_enabled sv \<and> service_peers sv target = Some peer
         \<and> \<not> IsInFlight (dp_name peer) s \<and> IsInFlight (dp_name peer) s' \<and> cs_captures s' = cs_captures s"
  using trigger_effect[OF ok, where sv = sv and now = now and fin = fin and e = e and target = target and kind = kind]
  by (cases "TriggerCapture sv now fin e target kind s"; cases "fst (TriggerCapture sv now fin e target kind s)") simp_all

text \<open>What a finished capture leaves in the store.\<close>

lemma goroutine_effect:
  fixes e t k :: string
  assumes ok: "store_ok s" and n: "dp_name peer \<noteq> []" and out: "outcome_status (ce_outcome env) = CaptureStatusCaptured"
  defines "s' \<equiv> capture_goroutine env peer e t k s"
  shows "store_ok s'" "\<not> IsInFlight (dp_name peer) s'" "cs_last s' (dp_name peer) = Some (ce_started env)"
    "cs_anchor s' (dp_name peer) = Some (capture_anchor e (performCapture env peer k) t k)"
proof -
  let ?c = "performCapture env peer k"
  have c: "isSuccessfulCooldownAnchorCapture ?c" "cp_source ?c = dp_name peer" "cp_started_at ?c = ce_started env"
    using performCapture_success[of env peer k] n out by simp_all
  show "store_ok s'" unfolding s'_def capture_goroutine_def by (intro store_ops_ok ok)
  show "\<not> IsInFlight (dp_name peer) s'" unfolding s'_def capture_goroutine_def by (simp add: inflight.release_held)
  show "cs_last s' (dp_name peer) = Some (ce_started env)"
    "cs_anchor s' (dp_name peer) = Some (capture_anchor e ?c t k)"
    unfolding s'_def capture_goroutine_def using add_any_fields(4,5)[of True t k e ?c s] c
    by (simp_all add: ReleaseInFlight_def add_any_def)
qed

text \<open>
  Whether the service lets an anchor suppress: any anchor without a validator, and otherwise one that the validator accepts.
  The production validator asks for the spike of the anchor in the timeline and for a successful capture of it in the store.
\<close>

definition anchor_accepted :: "diag_service \<Rightarrow> cooldown_anchor \<Rightarrow> bool" where
  "anchor_accepted sv a \<longleftrightarrow> (case sv_validator sv of None \<Rightarrow> True | Some v \<Rightarrow> av_valid (v a))"

text \<open>The service's decision after a reservation that succeeded, with the anchor of the last capture.\<close>

lemma decision_after:
  assumes "cs_last s p = Some l" "l \<noteq> 0" "cs_anchor s p = Some a" "dp_name peer = p"
  shows "anchor_accepted sv a \<Longrightarrow>
      \<exists>r. service_decision sv now peer s s = (cooldown_since p now (dg_cooldown_seconds (sv_cfg sv)) l (Some (a\<lparr>ca_retained := r\<rparr>)), s)"
    and "\<not> anchor_accepted sv a \<Longrightarrow> \<exists>s'. service_decision sv now peer s s = (no_cooldown p now (dg_cooldown_seconds (sv_cfg sv)), s')"
proof -
  assume ok: "anchor_accepted sv a"
  show "\<exists>r. service_decision sv now peer s s = (cooldown_since p now (dg_cooldown_seconds (sv_cfg sv)) l (Some (a\<lparr>ca_retained := r\<rparr>)), s)"
  proof (cases "sv_validator sv")
    case None
    have "a\<lparr>ca_retained := ca_retained a\<rparr> = a" by simp
    then show ?thesis using assms None by (intro exI[of _ "ca_retained a"]) (simp add: service_decision_def EvaluateCooldown_def is_zero_time_def)
  next
    case (Some v)
    then show ?thesis using assms ok
      by (intro exI[of _ "av_retained (v a)"])
        (simp add: service_decision_def EvaluateCooldownWithAnchorValidation_def is_zero_time_def anchor_accepted_def)
  qed
next
  assume "\<not> anchor_accepted sv a"
  then obtain v where "sv_validator sv = Some v" "\<not> av_valid (v a)" by (auto simp: anchor_accepted_def split: option.splits)
  then show "\<exists>s'. service_decision sv now peer s s = (no_cooldown p now (dg_cooldown_seconds (sv_cfg sv)), s')"
    using assms by (simp add: service_decision_def EvaluateCooldownWithAnchorValidation_def is_zero_time_def Let_def)
qed

text \<open>The production validator on the anchor of a capture that has just been stored: only the timeline matters.\<close>

lemma fresh_anchor_accepted:
  fixes e t k :: string
  assumes ok: "store_ok s" and n: "dp_name peer \<noteq> []" and out: "outcome_status (ce_outcome env) = CaptureStatusCaptured"
    and ids: "e \<noteq> []" "t \<noteq> []"
    and v: "sv_validator sv = Some (ValidateAnchorWithCaptureStatus spikes (\<lambda>i. GetCaptures i (capture_goroutine env peer e t k s)))"
  shows "anchor_accepted sv (capture_anchor e (performCapture env peer k) t k) \<longleftrightarrow>
    (\<exists>spike \<in> set (spikes t k). spike_matches (capture_anchor e (performCapture env peer k) t k) spike)"
proof -
  let ?c = "performCapture env peer k"
  have c: "isSuccessfulCooldownAnchorCapture ?c" using performCapture_success[of env peer k] n out by simp
  have "GetCaptures e (capture_goroutine env peer e t k s) = GetCaptures e (AddCapture e ?c s)"
    using add_any_fields(3)[of e True t k e ?c s] add_any_fields(3)[of e False t k e ?c s] by (simp add: capture_goroutine_def add_any_def)
  then have "?c \<in> set (GetCaptures e (capture_goroutine env peer e t k s))" using last_AddCapture[OF ok, of e ?c] last_in_set by metis
  then have "list_ex (\<lambda>c. cp_status c = DiagCaptureStatusOK \<and> \<not> cp_suppressed c) (GetCaptures e (capture_goroutine env peer e t k s))"
    using c unfolding list_ex_iff success_fields by blast
  then show ?thesis using ids
    by (simp add: anchor_accepted_def v ValidateAnchorWithCaptureStatus_def capture_anchor_def invalid_anchor_def list_ex_iff)
qed

text \<open>The record of a trigger in the cooldown of an anchor.\<close>

lemma recorded_or_started:
  fixes e2 k2 :: string and now fin :: time and peer :: diag_peer
  assumes ok: "store_ok s" and d: "d = cooldown_since p now n l (Some (capture_anchor e c t k\<lparr>ca_retained := rt\<rparr>))"
  defines "s' \<equiv> AddCapture e2 (cooldown_capture peer now fin d k2) (ReleaseInFlight (dp_name peer) s)"
  shows "if cd_in_cooldown d then time_sub now l < seconds n
       \<and> cp_capture_status (last (GetCaptures e2 s')) = CaptureStatusSkippedCooldown
       \<and> (\<exists>i. cp_cooldown_info (last (GetCaptures e2 s')) = Some i \<and> ci_last_success i = Some l
            \<and> ci_anchor_capture_id i = e \<and> ci_anchor_target_id i = t \<and> ci_anchor_probe_kind i = k
            \<and> ci_suppressed_kind i = k2 \<and> (ci_cross_probe i \<longleftrightarrow> k \<noteq> [] \<and> k2 \<noteq> [] \<and> k \<noteq> k2))
     else seconds n \<le> time_sub now l"
proof -
  let ?c = "cooldown_capture peer now fin d k2"
  have last_: "last (GetCaptures e2 s') = ?c"
    using last_AddCapture[OF store_ops_ok(4)[OF ok, of "dp_name peer"], of e2 ?c] by (simp add: s'_def)
  have in_: "cd_in_cooldown d \<longleftrightarrow> time_sub now l < seconds n" by (simp add: d cooldown_since_in)
  show ?thesis
  proof (cases "cd_in_cooldown d")
    case True
    have "cp_capture_status ?c = CaptureStatusSkippedCooldown" by (simp add: cooldown_capture_def finishCapture_def Let_def)
    moreover have "\<exists>i. cp_cooldown_info ?c = Some i \<and> ci_last_success i = Some l
             \<and> ci_anchor_capture_id i = e \<and> ci_anchor_target_id i = t \<and> ci_anchor_probe_kind i = k
             \<and> ci_suppressed_kind i = k2 \<and> (ci_cross_probe i \<longleftrightarrow> k \<noteq> [] \<and> k2 \<noteq> [] \<and> k \<noteq> k2)"
      using True in_ by (simp add: cooldown_capture_def finishCapture_def Let_def BuildCooldownInfoFromDecision_def d cooldown_since_def
          capture_anchor_def no_cooldown_def zero_cooldown_info_def zero_capture_def)
    ultimately show ?thesis using in_ True last_ by simp
  qed (use in_ in simp)
qed

text \<open>
  C9. A whole cycle, for any validator. After a capture of a peer succeeded, a trigger of any target of the same peer,
  by either probe, records a skipped capture exactly if the cooldown lasts and the validator accepts the anchor of that capture;
  the record then names the capture, the target and the probe that caused it and whether another probe is suppressed. In
  all other cases a capture starts: after the cooldown, and also inside it if the validator rejects the anchor. The
  validator of production accepts it exactly if a spike of the anchor is still in the timeline it reads.
\<close>

theorem capture_then_cooldown:
  fixes e t k :: string
  assumes ok: "store_ok s" and sv: "service_enabled sv" "service_peers sv t2 = Some peer" "dp_name peer \<noteq> []"
    and out: "outcome_status (ce_outcome env) = CaptureStatusCaptured" and z: "ce_started env \<noteq> 0"
  defines "after \<equiv> capture_goroutine env peer e t k s" and "anchor \<equiv> capture_anchor e (performCapture env peer k) t k"
  shows "(case TriggerCapture sv now fin e2 t2 k2 after of
      (Started peer', s') \<Rightarrow> peer' = peer
        \<and> (seconds (dg_cooldown_seconds (sv_cfg sv)) \<le> time_sub now (ce_started env) \<or> \<not> anchor_accepted sv anchor)
    | (Recorded, s') \<Rightarrow> time_sub now (ce_started env) < seconds (dg_cooldown_seconds (sv_cfg sv)) \<and> anchor_accepted sv anchor
        \<and> cp_capture_status (last (GetCaptures e2 s')) = CaptureStatusSkippedCooldown
        \<and> (\<exists>i. cp_cooldown_info (last (GetCaptures e2 s')) = Some i \<and> ci_last_success i = Some (ce_started env)
             \<and> ci_anchor_capture_id i = e \<and> ci_anchor_target_id i = t \<and> ci_anchor_probe_kind i = k
             \<and> ci_suppressed_kind i = k2 \<and> (ci_cross_probe i \<longleftrightarrow> k \<noteq> [] \<and> k2 \<noteq> [] \<and> k \<noteq> k2)))
    \<and> (\<forall>spikes. e \<noteq> [] \<and> t \<noteq> [] \<and> sv_validator sv = Some (ValidateAnchorWithCaptureStatus spikes (\<lambda>i. GetCaptures i after))
         \<longrightarrow> (anchor_accepted sv anchor \<longleftrightarrow> (\<exists>spike \<in> set (spikes t k). spike_matches anchor spike)))"
proof -
  let ?n = "dp_name peer"
  define s2 where "s2 = snd (ReserveInFlight ?n after)"
  note eff = goroutine_effect[OF ok sv(3) out, where e = e and t = t and k = k, folded after_def anchor_def]
  have r: "ReserveInFlight ?n after = (True, s2)" "cs_last s2 = cs_last after" "cs_anchor s2 = cs_anchor after"
    using eff(2) by (simp_all add: s2_def ReserveInFlight_def IsInFlight_def)
  have ok2: "store_ok s2" unfolding s2_def by (rule store_ops_ok(3)[OF eff(1)])
  note dec = decision_after[of s2 ?n "ce_started env" anchor peer sv now]
  obtain d s3 where d: "service_decision sv now peer s2 s2 = (d, s3)" by fastforce
  have trig: "TriggerCapture sv now fin e2 t2 k2 after =
      (if cd_in_cooldown d then (Recorded, AddCapture e2 (cooldown_capture peer now fin d k2) (ReleaseInFlight ?n s3)) else (Started peer, s3))"
    using sv r(1) d by (simp add: TriggerCapture_def service_enabled_def)
  have cycle: "case TriggerCapture sv now fin e2 t2 k2 after of
      (Started peer', s') \<Rightarrow> peer' = peer
        \<and> (seconds (dg_cooldown_seconds (sv_cfg sv)) \<le> time_sub now (ce_started env) \<or> \<not> anchor_accepted sv anchor)
    | (Recorded, s') \<Rightarrow> time_sub now (ce_started env) < seconds (dg_cooldown_seconds (sv_cfg sv)) \<and> anchor_accepted sv anchor
        \<and> cp_capture_status (last (GetCaptures e2 s')) = CaptureStatusSkippedCooldown
        \<and> (\<exists>i. cp_cooldown_info (last (GetCaptures e2 s')) = Some i \<and> ci_last_success i = Some (ce_started env)
             \<and> ci_anchor_capture_id i = e \<and> ci_anchor_target_id i = t \<and> ci_anchor_probe_kind i = k
             \<and> ci_suppressed_kind i = k2 \<and> (ci_cross_probe i \<longleftrightarrow> k \<noteq> [] \<and> k2 \<noteq> [] \<and> k \<noteq> k2))"
  proof (cases "anchor_accepted sv anchor")
    case False
    then have "d = no_cooldown ?n now (dg_cooldown_seconds (sv_cfg sv))" using dec(2) eff r z d by auto
    then show ?thesis using False trig by (simp add: no_cooldown_def)
  next
    case True
    then obtain rt where d': "d = cooldown_since ?n now (dg_cooldown_seconds (sv_cfg sv)) (ce_started env) (Some (anchor\<lparr>ca_retained := rt\<rparr>))" "s3 = s2"
      using dec(1) eff r z d by auto
    show ?thesis
      using recorded_or_started[OF ok2 d'(1)[unfolded anchor_def], where ?e2.0 = e2 and ?k2.0 = k2 and fin = fin and peer = peer] True trig
      unfolding d'(2) by (simp split: if_splits)
  qed
  then show ?thesis using fresh_anchor_accepted[OF ok sv(3) out] unfolding after_def anchor_def by blast
qed

text \<open>Concrete runs of the properties, on the sample configuration.\<close>

definition service_example :: diag_service where
  "service_example = \<lparr>sv_cfg = (cf_diagnostics config_example)\<lparr>dg_cooldown_seconds := 60\<rparr>, sv_validator = None\<rparr>"

lemma service_example_simps:
  "service_enabled service_example" "dg_cooldown_seconds (sv_cfg service_example) = 60"
  "service_peers service_example ''a'' = Some \<lparr>dp_name = ''p'', dp_base_url = ''http://h'', dp_targets = [''a''], dp_effective_url = []\<rparr>"
  by (simp_all add: service_example_def service_enabled_def service_peers_def config_example_def TargetToDiagPeers_def)

lemma single_capture_per_peer_witness:
  "\<exists>s cs. (service_step service_example)\<^sup>*\<^sup>* (NewCaptureStore, []) (s, cs) \<and> IsInFlight ''p'' s \<and> holders cs ''p'' = 1"
proof -
  let ?s = "snd (ReserveInFlight ''p'' NewCaptureStore)"
  let ?c = "\<lparr>cl_event = ''e'', cl_target = ''a'', cl_kind = ''http'',
    cl_peer = \<lparr>dp_name = ''p'', dp_base_url = ''http://h'', dp_targets = [''a''], dp_effective_url = []\<rparr>, cl_now = 0, cl_phase = Reserved\<rparr>"
  have r: "ReserveInFlight ''p'' NewCaptureStore = (True, ?s)" by (simp add: ReserveInFlight_def NewCaptureStore_def)
  have "service_step service_example (NewCaptureStore, []) (?s, [?c])"
    using service_step.reserve[OF service_example_simps(1,3), of NewCaptureStore True ?s "[]" "''e''" "''http''" 0] r by simp
  then have run: "(service_step service_example)\<^sup>*\<^sup>* (NewCaptureStore, []) (?s, [?c])" by (rule r_into_rtranclp)
  moreover have "IsInFlight ''p'' ?s" by (rule inflight.reserve_held[THEN iffD2]) simp
  ultimately show ?thesis using single_capture_per_peer[OF run, of "''p''"] by blast
qed

lemma trigger_outcome_witness:
  "\<exists>s' peer. TriggerCapture service_example 100 101 ''e'' ''a'' ''http'' NewCaptureStore = (Started peer, s') \<and> IsInFlight (dp_name peer) s'"
proof -
  obtain r s' where t: "TriggerCapture service_example 100 101 ''e'' ''a'' ''http'' NewCaptureStore = (r, s')" by fastforce
  have "r \<noteq> Recorded"
    using t service_example_simps
    by (auto simp: TriggerCapture_def service_enabled_def service_decision_def EvaluateCooldown_def NewCaptureStore_def ReserveInFlight_def
        service_example_def no_cooldown_def)
  then obtain peer where "r = Started peer" by (cases r) auto
  then show ?thesis
    using trigger_outcome[OF NewCaptureStore_ok, where sv = service_example and now = 100 and fin = 101 and e = "''e''" and target = "''a''"
        and kind = "''http''"] t by auto
qed

definition env_example :: capture_env where
  "env_example = \<lparr>ce_parse = parse_example, ce_render = u_path, ce_decode = (\<lambda>s. None), ce_started = 1000, ce_finished = 2000, ce_stamp = [],
     ce_route = (\<lambda>k h. \<lparr>pr_kind = k, pr_probe_host = h, pr_resolved_ip = [], pr_lookup_target = h, pr_ok = True, pr_route_type = [],
       pr_interface = ''wg0'', pr_source_ip = [], pr_gateway = [], pr_table = [], pr_mtu = None, pr_uid = None, pr_error = [],
       pr_error_kind = [], pr_collected_at = []\<rparr>), ce_tcp = (\<lambda>k h. NewTcpQualityUnavailable [] k h TcpQualityErrorNoData []),
     ce_outcome = Responded 200 (Inr (Some \<lparr>nd_started_at = [], nd_status = ''ok'', nd_wireguard = None, nd_interfaces = [],
       nd_routes = [], nd_underlay_tcp = [], nd_events = []\<rparr>))\<rparr>"

abbreviation "peer_example \<equiv> \<lparr>dp_name = ''p'', dp_base_url = ''http://h'', dp_targets = [''a''], dp_effective_url = []\<rparr>"

definition after_example :: capture_store where
  "after_example = capture_goroutine env_example peer_example ''e1'' ''a'' ''http'' NewCaptureStore"

text \<open>A service with the validator of production, on a timeline of the given spikes.\<close>

definition guarded_example :: "spike_event list \<Rightarrow> diag_service" where
  "guarded_example evs = service_example\<lparr>sv_validator :=
     Some (ValidateAnchorWithCaptureStatus (\<lambda>t k. evs) (\<lambda>i. GetCaptures i after_example))\<rparr>"

lemma capture_then_cooldown_witness:
  "(\<exists>s'. TriggerCapture (guarded_example [spike_example ''e1'']) 5000 5001 ''e2'' ''a'' ''icmp'' after_example = (Recorded, s')
      \<and> (\<exists>i. cp_cooldown_info (last (GetCaptures ''e2'' s')) = Some i \<and> ci_cross_probe i))
   \<and> (\<exists>s'. TriggerCapture (guarded_example []) 5000 5001 ''e2'' ''a'' ''icmp'' after_example = (Started peer_example, s'))"
proof -
  have out: "outcome_status (ce_outcome env_example) = CaptureStatusCaptured" by (simp add: outcome_status_def env_example_def)
  have z: "ce_started env_example \<noteq> 0" by (simp add: env_example_def)
  have sv: "service_enabled (guarded_example evs)" "service_peers (guarded_example evs) ''a'' = Some peer_example"
    "dg_cooldown_seconds (sv_cfg (guarded_example evs)) = 60" for evs
    using service_example_simps by (simp_all add: guarded_example_def service_enabled_def service_peers_def)
  have soon: "time_sub 5000 (ce_started env_example) < seconds 60" by (simp add: env_example_def) code_simp
  let ?a = "capture_anchor ''e1'' (performCapture env_example peer_example ''http'') ''a'' ''http''"
  have v: "sv_validator (guarded_example evs) = Some (ValidateAnchorWithCaptureStatus (\<lambda>t k. evs) (\<lambda>i. GetCaptures i after_example))" for evs
    by (simp add: guarded_example_def)
  have m: "spike_matches ?a (spike_example ''e1'')" by (simp add: spike_matches_def capture_anchor_def spike_example_def build_event_def)
  note cycle = capture_then_cooldown[OF NewCaptureStore_ok sv(1,2) _ out z, where now = 5000 and fin = 5001
      and ?e2.0 = "''e2''" and ?k2.0 = "''icmp''" and e = "''e1''" and t = "''a''" and k = "''http''", folded after_example_def]
  have kept: "anchor_accepted (guarded_example [spike_example ''e1'']) ?a" "\<not> anchor_accepted (guarded_example []) ?a"
    using cycle[of "[spike_example ''e1'']"] cycle[of "[]"] v m by auto
  obtain r s' where t: "TriggerCapture (guarded_example [spike_example ''e1'']) 5000 5001 ''e2'' ''a'' ''icmp'' after_example = (r, s')" by fastforce
  obtain r2 s2 where t2: "TriggerCapture (guarded_example []) 5000 5001 ''e2'' ''a'' ''icmp'' after_example = (r2, s2)" by fastforce
  have "r = Recorded \<and> (\<exists>i. cp_cooldown_info (last (GetCaptures ''e2'' s')) = Some i \<and> ci_cross_probe i)"
    using cycle[of "[spike_example ''e1'']"] soon kept(1) unfolding t sv(3) by (cases r) auto
  moreover have "r2 = Started peer_example" using cycle[of "[]"] kept(2) unfolding t2 by (cases r2) auto
  ultimately show ?thesis using t t2 by simp
qed

end
