(* ===== verification/State_Manager.thy ===== *)
theory State_Manager
  imports Capture_Store
begin

section \<open>The state manager\<close>

text \<open>
  Models \<open>uvb76/state/state.go\<close>, \<open>spike_wiring.go\<close>, \<open>spike_retention.go\<close>,
  \<open>manager_snapshot.go\<close>, \<open>latency_series_snapshot.go\<close> and the manager's methods of
  \<open>domain_integration.go\<close> and \<open>spike_window.go\<close>: one object that owns the latency trackers of
  all targets, one map per probe kind, the spike detector and the capture store. Every method
  holds the manager's lock or that of the component it delegates to, so a program run is a
  sequence of these operations.

  The detector keeps the method value \<open>m.captureStore.GetProtectionInfo\<close>, which reads the
  store at the time of the call. The protection function in the modelled detector is
  therefore only a mark that the method was set; \<open>current_detector\<close> refreshes it from the store
  before every use. The value \<open>None\<close> of an operation is a panic.
\<close>

subsection \<open>Data\<close>

record check_result =
  cr_name :: string
  cr_status :: string
  cr_detail :: string

record target_snapshot =
  ts_target :: string
  ts_scraped_at :: time
  ts_reachable :: bool
  ts_status :: string
  ts_peer_version :: string
  ts_node_id :: string
  ts_checks :: "check_result list"
  ts_error :: string
  ts_raw :: string

text \<open>A stored snapshot is a pointer, which may be \<open>nil\<close>.\<close>

record manager =
  mg_snapshots :: "string \<rightharpoonup> target_snapshot option"
  mg_http :: "string \<rightharpoonup> latency_tracker"
  mg_icmp :: "string \<rightharpoonup> latency_tracker"
  mg_buckets :: "int list"
  mg_max :: int
  mg_icmp_buckets :: "int list"
  mg_icmp_max :: int
  mg_detector :: spike_detector
  mg_captures :: capture_store

definition default_buckets :: "int list" where
  "default_buckets = [5, 10, 25, 50, 100, 250, 500, 1000, 2500, 5000]"

definition NewManager :: manager where
  "NewManager = \<lparr>mg_snapshots = Map.empty, mg_http = Map.empty, mg_icmp = Map.empty,
     mg_buckets = default_buckets, mg_max = 100, mg_icmp_buckets = default_buckets, mg_icmp_max = 100,
     mg_detector = NewSpikeDetector, mg_captures = NewCaptureStore\<rparr>"

definition NewManagerWithConfig :: "int list \<Rightarrow> int \<Rightarrow> manager" where
  "NewManagerWithConfig buckets0 maxSamples0 =
     (let maxSamples = (if maxSamples0 \<le> 0 then 100 else maxSamples0);
          buckets = (if length buckets0 = 0 then default_buckets else buckets0)
      in NewManager\<lparr>mg_buckets := buckets, mg_max := maxSamples, mg_icmp_buckets := buckets, mg_icmp_max := maxSamples\<rparr>)"

definition ConfigureICMP :: "int list \<Rightarrow> int \<Rightarrow> manager \<Rightarrow> manager" where
  "ConfigureICMP buckets maxSamples m =
     m\<lparr>mg_icmp_buckets := (if length buckets = 0 then mg_buckets m else buckets),
       mg_icmp_max := (if maxSamples \<le> 0 then mg_max m else maxSamples)\<rparr>"

subsection \<open>Snapshots of the targets\<close>

definition UpdateSnapshot :: "string \<Rightarrow> target_snapshot option \<Rightarrow> manager \<Rightarrow> manager" where
  "UpdateSnapshot targetID snap m = m\<lparr>mg_snapshots := (mg_snapshots m)(targetID \<mapsto> snap)\<rparr>"

definition GetSnapshot :: "string \<Rightarrow> manager \<Rightarrow> target_snapshot option" where
  "GetSnapshot targetID m = map_get None (mg_snapshots m) targetID"

definition GetAllSnapshots :: "manager \<Rightarrow> string \<rightharpoonup> target_snapshot option" where
  "GetAllSnapshots m = mg_snapshots m"

definition GetSnapshotCount :: "manager \<Rightarrow> nat" where
  "GetSnapshotCount m = card (dom (mg_snapshots m))"

subsection \<open>Latency\<close>

text \<open>The tracker of a target, created on its first use.\<close>

definition tracker_for :: "(string \<rightharpoonup> latency_tracker) \<Rightarrow> int list \<Rightarrow> int \<Rightarrow> string \<Rightarrow> latency_tracker option" where
  "tracker_for trackers buckets maxSamples targetID =
     (case trackers targetID of Some tracker \<Rightarrow> Some tracker | None \<Rightarrow> NewLatencyTracker buckets maxSamples)"

definition RecordLatency :: "time \<Rightarrow> string \<Rightarrow> f64 \<Rightarrow> bool \<Rightarrow> manager \<Rightarrow> manager option" where
  "RecordLatency now targetID latencyMs reachable m =
     map_option (\<lambda>tracker. m\<lparr>mg_http := (mg_http m)(targetID \<mapsto> Record now latencyMs reachable tracker)\<rparr>)
       (tracker_for (mg_http m) (mg_buckets m) (mg_max m) targetID)"

definition RecordICMPLatencyAt :: "string \<Rightarrow> f64 \<Rightarrow> bool \<Rightarrow> time \<Rightarrow> manager \<Rightarrow> manager option" where
  "RecordICMPLatencyAt targetID latencyMs reachable timestamp m =
     map_option (\<lambda>tracker. m\<lparr>mg_icmp := (mg_icmp m)(targetID \<mapsto> RecordAt latencyMs reachable timestamp tracker)\<rparr>)
       (tracker_for (mg_icmp m) (mg_icmp_buckets m) (mg_icmp_max m) targetID)"

definition RecordICMPLatency :: "time \<Rightarrow> string \<Rightarrow> f64 \<Rightarrow> bool \<Rightarrow> manager \<Rightarrow> manager option" where
  "RecordICMPLatency now targetID latencyMs reachable m =
     map_option (\<lambda>tracker. m\<lparr>mg_icmp := (mg_icmp m)(targetID \<mapsto> Record now latencyMs reachable tracker)\<rparr>)
       (tracker_for (mg_icmp m) (mg_icmp_buckets m) (mg_icmp_max m) targetID)"

definition GetLatencySummary :: "string \<Rightarrow> manager \<Rightarrow> latency_summary option" where
  "GetLatencySummary targetID m =
     (case mg_http m targetID of
        None \<Rightarrow> Some (empty_summary targetID \<lparr>h_buckets = mg_buckets m, h_counts = []\<rparr>)
      | Some tracker \<Rightarrow> GetSummary targetID tracker)"

definition GetICMPLatencySummary :: "string \<Rightarrow> manager \<Rightarrow> latency_summary option" where
  "GetICMPLatencySummary targetID m =
     (case mg_icmp m targetID of
        None \<Rightarrow> Some (empty_summary targetID \<lparr>h_buckets = mg_icmp_buckets m, h_counts = []\<rparr>)
      | Some tracker \<Rightarrow> GetSummary targetID tracker)"

definition clamp_limit :: "int \<Rightarrow> int \<Rightarrow> int" where
  "clamp_limit limit mx = (if limit \<le> 0 then mx else if limit > mx then mx else limit)"

definition GetRecentLatencySamples :: "string \<Rightarrow> int \<Rightarrow> manager \<Rightarrow> latency_sample list" where
  "GetRecentLatencySamples targetID limit m =
     (case mg_http m targetID of None \<Rightarrow> [] | Some tracker \<Rightarrow> GetRecentSamples (clamp_limit limit (mg_max m)) tracker)"

definition GetRecentICMPLatencySamples :: "string \<Rightarrow> int \<Rightarrow> manager \<Rightarrow> latency_sample list" where
  "GetRecentICMPLatencySamples targetID limit m =
     (case mg_icmp m targetID of None \<Rightarrow> [] | Some tracker \<Rightarrow> GetRecentSamples (clamp_limit limit (mg_icmp_max m)) tracker)"

text \<open>The result maps; an inner \<open>None\<close> is a panic of the call.\<close>

definition GetAllLatencySummaries :: "manager \<Rightarrow> string \<rightharpoonup> latency_summary option" where
  "GetAllLatencySummaries m = (\<lambda>targetID. map_option (GetSummary targetID) (mg_http m targetID))"

definition GetAllICMPLatencySummaries :: "manager \<Rightarrow> string \<rightharpoonup> latency_summary option" where
  "GetAllICMPLatencySummaries m = (\<lambda>targetID. map_option (GetSummary targetID) (mg_icmp m targetID))"

definition GetAllTargetSummaries :: "string list \<Rightarrow> manager \<Rightarrow> string \<rightharpoonup> latency_summary option" where
  "GetAllTargetSummaries targetIDs m =
     fold (\<lambda>targetID result. result(targetID \<mapsto>
         (case mg_http m targetID of
            Some tracker \<Rightarrow> GetSummary targetID tracker
          | None \<Rightarrow> Some (empty_summary targetID \<lparr>h_buckets = mg_buckets m, h_counts = replicate (length (mg_buckets m)) 0\<rparr>))))
       targetIDs Map.empty"

definition GetLatencySampleTimestamps :: "string \<Rightarrow> manager \<Rightarrow> (time option \<times> time option) option" where
  "GetLatencySampleTimestamps targetID m =
     (case mg_http m targetID of None \<Rightarrow> Some (None, None) | Some tracker \<Rightarrow> GetSampleTimestamps tracker)"

definition GetICMPLatencySampleTimestamps :: "string \<Rightarrow> manager \<Rightarrow> (time option \<times> time option) option" where
  "GetICMPLatencySampleTimestamps targetID m =
     (case mg_icmp m targetID of None \<Rightarrow> Some (None, None) | Some tracker \<Rightarrow> GetSampleTimestamps tracker)"

definition GetHTTPSampleWindow :: "string \<Rightarrow> int \<Rightarrow> manager \<Rightarrow> sample_window" where
  "GetHTTPSampleWindow targetID limit m =
     (case mg_http m targetID of None \<Rightarrow> empty_window | Some tracker \<Rightarrow> GetSampleWindow limit tracker)"

definition GetICMPSampleWindow :: "string \<Rightarrow> int \<Rightarrow> manager \<Rightarrow> sample_window" where
  "GetICMPSampleWindow targetID limit m =
     (case mg_icmp m targetID of None \<Rightarrow> empty_window | Some tracker \<Rightarrow> GetSampleWindow limit tracker)"

definition nil_snapshot :: "string \<Rightarrow> int list \<Rightarrow> latency_snapshot" where
  "nil_snapshot targetID buckets = \<lparr>sn_target = targetID, sn_samples = [], sn_count = 0, sn_capacity = 0,
     sn_sum = Fin 0, sn_errs = 0, sn_oldest = None, sn_newest = None, sn_buckets = buckets\<rparr>"

definition GetHTTPSnapshot :: "string \<Rightarrow> int \<Rightarrow> manager \<Rightarrow> latency_snapshot" where
  "GetHTTPSnapshot targetID limit m =
     (case mg_http m targetID of
        None \<Rightarrow> nil_snapshot targetID (mg_buckets m)
      | Some tracker \<Rightarrow> Snapshot targetID (clamp_limit limit (mg_max m)) tracker)"

definition GetICMPSnapshot :: "string \<Rightarrow> int \<Rightarrow> manager \<Rightarrow> latency_snapshot" where
  "GetICMPSnapshot targetID limit m =
     (case mg_icmp m targetID of
        None \<Rightarrow> nil_snapshot targetID (mg_icmp_buckets m)
      | Some tracker \<Rightarrow> Snapshot targetID (clamp_limit limit (mg_icmp_max m)) tracker)"

subsection \<open>The series snapshot\<close>

record series_meta =
  sm_at :: time
  sm_ok :: bool

record series_snapshot =
  se_window :: sample_window
  se_samples :: "series_meta list"
  se_count :: int
  se_capacity :: int
  se_errs :: int
  se_oldest :: time
  se_newest :: time
  se_kind :: string

definition empty_series :: "string \<Rightarrow> series_snapshot" where
  "empty_series kind = \<lparr>se_window = empty_window, se_samples = [], se_count = 0, se_capacity = 0, se_errs = 0,
     se_oldest = 0, se_newest = 0, se_kind = kind\<rparr>"

text \<open>The loop over the samples: failures so far, and the oldest and newest time if any.\<close>

definition series_step :: "latency_sample \<Rightarrow> int \<times> time option \<times> time option \<Rightarrow> int \<times> time option \<times> time option" where
  "series_step s acc = (case acc of (errs, oldest, newest) \<Rightarrow>
     (if \<not> ls_reach s then errs + 1 else errs,
      case oldest of None \<Rightarrow> Some (ls_ts s) | Some t \<Rightarrow> if ls_ts s < t then Some (ls_ts s) else oldest,
      case newest of None \<Rightarrow> Some (ls_ts s) | Some t \<Rightarrow> if ls_ts s > t then Some (ls_ts s) else newest))"

definition buildSeriesSnapshot :: "latency_tracker \<Rightarrow> int \<Rightarrow> string \<Rightarrow> series_snapshot" where
  "buildSeriesSnapshot tracker limit kind =
     (let snap = Snapshot [] limit tracker;
          (errs, oldest, newest) = fold series_step (sn_samples snap) (0, None, None)
      in \<lparr>se_window = NewSampleWindow (map (\<lambda>s. LatencySampleToDomainSampleWithKind s kind) (sn_samples snap)),
          se_samples = map (\<lambda>s. \<lparr>sm_at = ls_ts s, sm_ok = ls_reach s\<rparr>) (sn_samples snap),
          se_count = sn_count snap, se_capacity = sn_capacity snap, se_errs = errs,
          se_oldest = (case oldest of Some t \<Rightarrow> t | None \<Rightarrow> 0),
          se_newest = (case newest of Some t \<Rightarrow> t | None \<Rightarrow> 0), se_kind = kind\<rparr>)"

definition GetHTTPSeriesSnapshot :: "string \<Rightarrow> int \<Rightarrow> manager \<Rightarrow> series_snapshot" where
  "GetHTTPSeriesSnapshot targetID limit m =
     (case mg_http m targetID of
        None \<Rightarrow> empty_series ProbeKindHTTP
      | Some tracker \<Rightarrow> buildSeriesSnapshot tracker limit ProbeKindHTTP)"

definition GetICMPSeriesSnapshot :: "string \<Rightarrow> int \<Rightarrow> manager \<Rightarrow> series_snapshot" where
  "GetICMPSeriesSnapshot targetID limit m =
     (case mg_icmp m targetID of
        None \<Rightarrow> empty_series ProbeKindICMP
      | Some tracker \<Rightarrow> buildSeriesSnapshot tracker limit ProbeKindICMP)"

definition GetSeriesSnapshot :: "string \<Rightarrow> string \<Rightarrow> int \<Rightarrow> manager \<Rightarrow> series_snapshot" where
  "GetSeriesSnapshot targetID probeKind limit m =
     (if probeKind = ProbeKindHTTP then GetHTTPSeriesSnapshot targetID limit m
      else if probeKind = ProbeKindICMP then GetICMPSeriesSnapshot targetID limit m
      else empty_series probeKind)"

subsection \<open>Spikes and retention\<close>

definition current_detector :: "manager \<Rightarrow> spike_detector" where
  "current_detector m =
     (case det_protect (mg_detector m) of
        None \<Rightarrow> mg_detector m
      | Some _ \<Rightarrow> SetCaptureInfoFunc (GetProtectionInfo (mg_captures m)) (mg_detector m))"

definition with_detector :: "(spike_detector \<Rightarrow> ('r \<times> spike_detector) option) \<Rightarrow> manager \<Rightarrow> ('r \<times> manager) option" where
  "with_detector f m = map_option (\<lambda>(r, sd). (r, m\<lparr>mg_detector := sd\<rparr>)) (f (current_detector m))"

definition GetManagerSpikes :: "string \<Rightarrow> string \<Rightarrow> int \<Rightarrow> manager \<Rightarrow> (spike_event list \<times> manager) option" where
  "GetManagerSpikes targetID kind limit m = with_detector (GetSpikes targetID kind limit) m"

definition DetectAndRecordSpike :: "string \<Rightarrow> time \<Rightarrow> probe_obs \<Rightarrow> latency_sample list \<Rightarrow> manager \<Rightarrow> (spike_event option \<times> manager) option" where
  "DetectAndRecordSpike eid now p previousSamples m = with_detector (DetectAndRecord eid now p previousSamples) m"

definition DetectAndRecordSpikeWithTcpQuality ::
  "string \<Rightarrow> time \<Rightarrow> probe_obs \<Rightarrow> latency_sample list \<Rightarrow> manager \<Rightarrow> (spike_event option \<times> manager) option" where
  "DetectAndRecordSpikeWithTcpQuality eid now p previousSamples m =
     with_detector (DetectAndRecordWithTcpQuality eid now p previousSamples) m"

definition RecordManagerRecovery :: "string \<Rightarrow> time \<Rightarrow> probe_obs \<Rightarrow> latency_sample list \<Rightarrow> manager \<Rightarrow> (spike_event option \<times> manager) option" where
  "RecordManagerRecovery eid now p previousSamples m = with_detector (RecordRecoveryEvent eid now p previousSamples) m"

definition DetectAndRecordSpikeWithWindow ::
  "string \<Rightarrow> time \<Rightarrow> probe_obs \<Rightarrow> sample_window \<Rightarrow> manager \<Rightarrow> (spike_event option \<times> manager) option" where
  "DetectAndRecordSpikeWithWindow eid now p previousWindow m = with_detector (DetectAndRecordWithWindow eid now p previousWindow) m"

definition DetectAndRecordSpikeWithWindowAndTcpQuality ::
  "string \<Rightarrow> time \<Rightarrow> probe_obs \<Rightarrow> sample_window \<Rightarrow> manager \<Rightarrow> (spike_event option \<times> manager) option" where
  "DetectAndRecordSpikeWithWindowAndTcpQuality eid now p previousWindow m =
     with_detector (DetectAndRecordWithWindowAndTcpQuality eid now p previousWindow) m"

definition RecordManagerRecoveryWithWindow ::
  "string \<Rightarrow> time \<Rightarrow> probe_obs \<Rightarrow> sample_window \<Rightarrow> manager \<Rightarrow> (spike_event option \<times> manager) option" where
  "RecordManagerRecoveryWithWindow eid now p previousWindow m =
     with_detector (RecordRecoveryEventWithWindow eid now p previousWindow) m"

definition EnableCaptureAwareSpikeRetention :: "manager \<Rightarrow> manager" where
  "EnableCaptureAwareSpikeRetention m =
     m\<lparr>mg_detector := SetCaptureInfoFunc (GetProtectionInfo (mg_captures m)) (mg_detector m)\<rparr>"

definition NewManagerWithDiagnosticsConfig :: "int \<Rightarrow> manager" where
  "NewManagerWithDiagnosticsConfig maxUncapturedSpikes =
     (let cap = (if maxUncapturedSpikes \<le> 0 then 200 else maxUncapturedSpikes)
      in EnableCaptureAwareSpikeRetention
           (NewManager\<lparr>mg_detector := NewSpikeDetectorWithConfig (DefaultSpikeConfig\<lparr>sc_max_events := cap\<rparr>)\<rparr>))"

definition EnableCaptureAwareSpikeRetentionWithCap :: "int \<Rightarrow> manager \<Rightarrow> manager" where
  "EnableCaptureAwareSpikeRetentionWithCap maxUncapturedSpikes m =
     (let f = GetProtectionInfo (mg_captures m);
          m1 = m\<lparr>mg_detector := SetCaptureInfoFunc f (mg_detector m)\<rparr>
      in if maxUncapturedSpikes > 0
         then m1\<lparr>mg_detector := SetCaptureInfoFunc f
                  (NewSpikeDetectorWithConfig (DefaultSpikeConfig\<lparr>sc_max_events := maxUncapturedSpikes\<rparr>))\<rparr>
         else m1)"

text \<open>The store is handed out as a pointer; its operations change the manager's store.\<close>

definition GetCaptureStore :: "manager \<Rightarrow> capture_store" where
  "GetCaptureStore m = mg_captures m"

definition on_store :: "(capture_store \<Rightarrow> capture_store) \<Rightarrow> manager \<Rightarrow> manager" where
  "on_store f m = m\<lparr>mg_captures := f (mg_captures m)\<rparr>"

subsection \<open>Sequences of operations\<close>

text \<open>The raw-sample and the windowed forms without TCP evidence are those with it, applied to a probe without it.\<close>

datatype manager_op =
    OpUpdateSnapshot string "target_snapshot option"
  | OpHTTP time string f64 bool
  | OpICMP time string f64 bool
  | OpICMPAt string f64 bool time
  | OpConfigureICMP "int list" int
  | OpSpikes string string int
  | OpDetect string time probe_obs "latency_sample list"
  | OpDetectWindow string time probe_obs sample_window
  | OpRecovery string time probe_obs "latency_sample list"
  | OpRecoveryWindow string time probe_obs sample_window
  | OpCapture string diag_capture
  | OpCaptureFrom string diag_capture string string
  | OpReserve string
  | OpRelease string
  | OpRetention
  | OpRetentionCap int

fun run_op :: "manager_op \<Rightarrow> manager \<Rightarrow> manager option" where
  "run_op (OpUpdateSnapshot t s) m = Some (UpdateSnapshot t s m)"
| "run_op (OpHTTP now t l r) m = RecordLatency now t l r m"
| "run_op (OpICMP now t l r) m = RecordICMPLatency now t l r m"
| "run_op (OpICMPAt t l r ts) m = RecordICMPLatencyAt t l r ts m"
| "run_op (OpConfigureICMP b n) m = Some (ConfigureICMP b n m)"
| "run_op (OpSpikes t k limit) m = map_option snd (GetManagerSpikes t k limit m)"
| "run_op (OpDetect eid now p ss) m = map_option snd (DetectAndRecordSpikeWithTcpQuality eid now p ss m)"
| "run_op (OpDetectWindow eid now p w) m = map_option snd (DetectAndRecordSpikeWithWindowAndTcpQuality eid now p w m)"
| "run_op (OpRecovery eid now p ss) m = map_option snd (RecordManagerRecovery eid now p ss m)"
| "run_op (OpRecoveryWindow eid now p w) m = map_option snd (RecordManagerRecoveryWithWindow eid now p w m)"
| "run_op (OpCapture e c) m = Some (on_store (AddCapture e c) m)"
| "run_op (OpCaptureFrom e c t k) m = Some (on_store (AddCaptureWithProvenance e c t k) m)"
| "run_op (OpReserve n) m = Some (on_store (\<lambda>s. snd (ReserveInFlight n s)) m)"
| "run_op (OpRelease n) m = Some (on_store (ReleaseInFlight n) m)"
| "run_op OpRetention m = Some (EnableCaptureAwareSpikeRetention m)"
| "run_op (OpRetentionCap n) m = Some (EnableCaptureAwareSpikeRetentionWithCap n m)"

fun run_ops :: "manager_op list \<Rightarrow> manager \<Rightarrow> manager option" where
  "run_ops [] m = Some m"
| "run_ops (x # xs) m = Option.bind (run_op x m) (run_ops xs)"

text \<open>The forms without TCP evidence are covered.\<close>

lemma detect_without_tcp:
  "DetectAndRecordSpike eid now p ss m = DetectAndRecordSpikeWithTcpQuality eid now (p\<lparr>po_tcp := None\<rparr>) ss m"
  "DetectAndRecordSpikeWithWindow eid now p w m = DetectAndRecordSpikeWithWindowAndTcpQuality eid now (p\<lparr>po_tcp := None\<rparr>) w m"
  by (simp_all add: DetectAndRecordSpike_def DetectAndRecordSpikeWithTcpQuality_def DetectAndRecordSpikeWithWindow_def
      DetectAndRecordSpikeWithWindowAndTcpQuality_def with_detector_def DetectAndRecord_def DetectAndRecordWithWindow_def)

subsection \<open>What the detector does to the events\<close>

text \<open>A detection changes no configuration and drops no event that its protection function protects.\<close>

definition evolves :: "spike_detector \<Rightarrow> spike_detector \<Rightarrow> bool" where
  "evolves sd sd' \<longleftrightarrow> det_config sd' = det_config sd \<and> det_protect sd' = det_protect sd
     \<and> (\<forall>t k e. e \<in> set (det_events sd t k) \<longrightarrow> fst (protection_of sd (ev_id e)) \<longrightarrow> e \<in> set (det_events sd' t k))"

lemma evolves_refl [simp]: "evolves sd sd"
  by (simp add: evolves_def)

lemma record_evolves: "det_ok sd \<Longrightarrow> \<exists>sd'. record_and_return ev sd = Some (Some ev, sd') \<and> evolves sd sd'"
proof -
  assume ok: "det_ok sd"
  let ?t = "ev_target ev" and ?k = "ev_kind ev"
  obtain sd' st where r: "record_event ev sd = Some sd'" "det_config sd' = det_config sd" "det_protect sd' = det_protect sd"
    "det_events sd ?t ?k = st_events st" "det_events sd' ?t ?k = st_events (recordSpike ev (protection_of sd) st)"
    "\<forall>key. key \<noteq> tracker_key ?t ?k \<longrightarrow> det_trackers sd' key = det_trackers sd key"
    using record_event_Some[OF ok, of ev] by blast
  have "e \<in> set (det_events sd' t k)" if "e \<in> set (det_events sd t k)" "fst (protection_of sd (ev_id e))" for t k e
  proof (cases "tracker_key t k = tracker_key ?t ?k")
    case True
    then have "det_events sd t k = st_events st" "det_events sd' t k = st_events (recordSpike ev (protection_of sd) st)"
      using r(4,5) by (simp_all add: det_events_def)
    then show ?thesis using that recordSpike_keeps[of e st "protection_of sd" ev] by (simp add: purgeable_def)
  next
    case False
    then show ?thesis using r(6) that(1) by (simp add: det_events_def)
  qed
  then show ?thesis using r by (simp add: record_and_return_def evolves_def)
qed

lemma detections_evolve:
  assumes ok: "det_ok sd"
  shows "\<exists>ev sd'. DetectAndRecordWithTcpQuality eid now p ss sd = Some (ev, sd') \<and> evolves sd sd'"
    "\<exists>ev sd'. RecordRecoveryEvent eid now p ss sd = Some (ev, sd') \<and> evolves sd sd'"
    "\<exists>ev sd'. DetectAndRecordWithWindowAndTcpQuality eid now p w sd = Some (ev, sd') \<and> evolves sd sd'"
    "\<exists>ev sd'. RecordRecoveryEventWithWindow eid now p w sd = Some (ev, sd') \<and> evolves sd sd'"
proof -
  have none: "\<exists>ev sd'. Some (None, sd) = Some (ev, sd') \<and> evolves sd sd'" by simp
  have rec: "\<exists>x sd'. record_and_return ev sd = Some (x, sd') \<and> evolves sd sd'" for ev
    using record_evolves[OF ok, of ev] by blast
  have win: "\<exists>x sd'. record_windowed eid now q sev md rs a b w sd = Some (x, sd') \<and> evolves sd sd'" for q sev md rs a b
  proof -
    obtain prev where "spikeSamplesFromWindow w (sc_max_previous (det_config sd)) = Some prev"
      using window_bound_total[of "sc_max_previous (det_config sd)" w] ok by (auto simp: det_ok_def)
    then show ?thesis using rec by (simp add: record_windowed_def)
  qed
  obtain prev where prev: "boundPreviousSamples ss sd = Some prev" using bound_total[OF ok, of ss] by blast
  show "\<exists>ev sd'. DetectAndRecordWithTcpQuality eid now p ss sd = Some (ev, sd') \<and> evolves sd sd'"
    unfolding DetectAndRecordWithTcpQuality_def Let_def prev
    by (split option.split, split prod.split)+ (simp add: none rec split: prod.split)
  show "\<exists>ev sd'. RecordRecoveryEvent eid now p ss sd = Some (ev, sd') \<and> evolves sd sd'"
    unfolding RecordRecoveryEvent_def prev by (simp add: none rec)
  show "\<exists>ev sd'. DetectAndRecordWithWindowAndTcpQuality eid now p w sd = Some (ev, sd') \<and> evolves sd sd'"
    unfolding DetectAndRecordWithWindowAndTcpQuality_def recordHTTPFailureEvent_def Let_def
    by (simp add: none win split: option.split prod.split)
  show "\<exists>ev sd'. RecordRecoveryEventWithWindow eid now p w sd = Some (ev, sd') \<and> evolves sd sd'"
    unfolding RecordRecoveryEventWithWindow_def by (simp add: none win split: option.split prod.split)
qed

lemma GetSpikes_evolves:
  assumes ok: "det_ok sd"
  shows "\<exists>sd'. GetSpikes t k limit sd = Some (if limit \<le> 0 then rev (det_events sd t k) else take (nat limit) (rev (det_events sd t k)), sd')
     \<and> evolves sd sd'"
proof (cases "det_trackers sd (tracker_key t k)")
  case (Some st)
  then show ?thesis by (simp add: GetSpikes_def getTracker_def getEvents_rev det_events_def)
next
  case None
  define st where "st = \<lparr>st_events = [], st_max = sc_max_events (det_config sd), st_config = det_config sd, st_kind = k\<rparr>"
  have "GetSpikes t k limit sd = Some (getEvents limit st, sd\<lparr>det_trackers := (det_trackers sd)(tracker_key t k \<mapsto> st)\<rparr>)"
    using ok None by (simp add: GetSpikes_def getTracker_def newSpikeTracker_def det_ok_def st_def)
  then show ?thesis using None by (auto simp: evolves_def det_events_def getEvents_rev st_def protection_of_def split: if_splits)
qed

subsection \<open>Invariant and streams\<close>

text \<open>The maps of trackers are families of bounded logs; the constructor's defaults make every new tracker valid.\<close>

lemma fresh_tracker:
  assumes "bs \<noteq> []" "0 < n"
  shows "NewLatencyTracker bs n \<noteq> None"
    "NewLatencyTracker bs n = Some lt \<Longrightarrow> tracker_inv lt \<and> contents lt = [] \<and> nat (lt_max lt) = nat n"
  using assms NewLatencyTracker_inv[of bs n lt] by (auto simp: NewLatencyTracker_def)

lemma config_pos:
  "mg_buckets (NewManagerWithConfig b n) \<noteq> []" "0 < mg_max (NewManagerWithConfig b n)"
  "mg_icmp_buckets (ConfigureICMP b' n' (NewManagerWithConfig b n)) \<noteq> []" "0 < mg_icmp_max (ConfigureICMP b' n' (NewManagerWithConfig b n))"
  by (simp_all add: NewManagerWithConfig_def ConfigureICMP_def default_buckets_def Let_def)

interpretation http_log: keyed_log record_result result_sample contents "\<lambda>lt. nat (lt_max lt)" tracker_inv "\<lambda>_. True"
  "NewLatencyTracker (mg_buckets (NewManagerWithConfig b n)) (mg_max (NewManagerWithConfig b n))"
  "nat (mg_max (NewManagerWithConfig b n))" for b n
  by unfold_locales (use fresh_tracker[OF config_pos(1,2)] in auto)

interpretation icmp_log: keyed_log record_result result_sample contents "\<lambda>lt. nat (lt_max lt)" tracker_inv "\<lambda>_. True"
  "NewLatencyTracker (mg_icmp_buckets (ConfigureICMP b' n' (NewManagerWithConfig b n)))
     (mg_icmp_max (ConfigureICMP b' n' (NewManagerWithConfig b n)))"
  "nat (mg_icmp_max (ConfigureICMP b' n' (NewManagerWithConfig b n)))" for b n b' n'
  by unfold_locales (use fresh_tracker[OF config_pos(3,4)] in auto)

definition trackers_ok :: "(string \<rightharpoonup> latency_tracker) \<Rightarrow> bool" where
  "trackers_ok f \<longleftrightarrow> (\<forall>t lt. f t = Some lt \<longrightarrow> tracker_inv lt)"

definition manager_ok :: "manager \<Rightarrow> bool" where
  "manager_ok m \<longleftrightarrow> trackers_ok (mg_http m) \<and> trackers_ok (mg_icmp m)
     \<and> mg_buckets m \<noteq> [] \<and> 0 < mg_max m \<and> mg_icmp_buckets m \<noteq> [] \<and> 0 < mg_icmp_max m
     \<and> det_ok (mg_detector m) \<and> store_ok (mg_captures m)"

lemma Record_result: "Record now l r lt = record_result (l, r, now) lt" "RecordAt l r now lt = record_result (l, r, now) lt"
  by (simp_all add: Record_def record_result_def)

lemma record_tracker:
  assumes "trackers_ok f" "bs \<noteq> []" "0 < n"
  shows "\<exists>lt. tracker_for f bs n t = Some lt \<and> tracker_inv lt \<and> trackers_ok (f(t \<mapsto> record_result x lt))"
proof -
  obtain lt where "tracker_for f bs n t = Some lt" "tracker_inv lt"
    using assms(1) fresh_tracker[OF assms(2,3)] by (cases "f t") (auto simp: tracker_for_def trackers_ok_def)
  then show ?thesis using assms(1) ring.push_ok[of lt x] by (auto simp: trackers_ok_def)
qed

lemma current_detector_fields:
  "det_config (current_detector m) = det_config (mg_detector m)" "det_trackers (current_detector m) = det_trackers (mg_detector m)"
  "det_ok (mg_detector m) \<Longrightarrow> det_ok (current_detector m)" "det_events (current_detector m) t k = det_events (mg_detector m) t k"
  by (simp_all add: current_detector_def SetCaptureInfoFunc_def det_ok_def det_events_def split: option.split)

text \<open>What every operation on the detector leaves as it was.\<close>

definition detector_step :: "manager \<Rightarrow> manager \<Rightarrow> bool" where
  "detector_step m m' \<longleftrightarrow> (\<exists>sd. m' = m\<lparr>mg_detector := sd\<rparr> \<and> evolves (current_detector m) sd)"

lemma with_detector_step:
  assumes "\<exists>x sd'. f (current_detector m) = Some (x, sd') \<and> evolves (current_detector m) sd'"
  shows "\<exists>m'. map_option snd (with_detector f m) = Some m' \<and> detector_step m m'"
  using assms by (auto simp: with_detector_def detector_step_def)

lemma run_detector_op:
  assumes "det_ok (mg_detector m)"
    and "op = OpSpikes t k limit \<or> op = OpDetect eid now p ss \<or> op = OpDetectWindow eid now p w
      \<or> op = OpRecovery eid now p ss \<or> op = OpRecoveryWindow eid now p w"
  shows "\<exists>m'. run_op op m = Some m' \<and> detector_step m m'"
proof -
  note d = current_detector_fields(3)[OF assms(1)]
  note steps = with_detector_step[where f = "DetectAndRecordWithTcpQuality eid now p ss", OF detections_evolve(1)[OF d]]
    with_detector_step[where f = "RecordRecoveryEvent eid now p ss", OF detections_evolve(2)[OF d]]
    with_detector_step[where f = "DetectAndRecordWithWindowAndTcpQuality eid now p w", OF detections_evolve(3)[OF d]]
    with_detector_step[where f = "RecordRecoveryEventWithWindow eid now p w", OF detections_evolve(4)[OF d]]
  have "\<exists>x sd'. GetSpikes t k limit (current_detector m) = Some (x, sd') \<and> evolves (current_detector m) sd'"
    using GetSpikes_evolves[OF d] by blast
  from with_detector_step[where f = "GetSpikes t k limit", OF this] steps assms(2) show ?thesis
    by (elim disjE) (simp_all add: GetManagerSpikes_def DetectAndRecordSpikeWithTcpQuality_def
        DetectAndRecordSpikeWithWindowAndTcpQuality_def RecordManagerRecovery_def RecordManagerRecoveryWithWindow_def)
qed

lemma detector_step_ok: "detector_step m m' \<Longrightarrow> manager_ok m \<Longrightarrow> manager_ok m'"
  by (auto simp: detector_step_def manager_ok_def evolves_def det_ok_def current_detector_fields)

lemma retention_det_ok:
  "det_ok sd \<Longrightarrow> det_ok (SetCaptureInfoFunc f sd)"
  "0 < n \<Longrightarrow> det_ok (SetCaptureInfoFunc f (NewSpikeDetectorWithConfig (DefaultSpikeConfig\<lparr>sc_max_events := n\<rparr>)))"
  by (simp_all add: det_ok_def SetCaptureInfoFunc_def NewSpikeDetectorWithConfig_def DefaultSpikeConfig_def)

lemma run_op_ok:
  assumes "manager_ok m"
  shows "\<exists>m'. run_op op m = Some m' \<and> manager_ok m'"
proof -
  have ok: "det_ok (mg_detector m)" "store_ok (mg_captures m)" "trackers_ok (mg_http m)" "trackers_ok (mg_icmp m)"
    "mg_buckets m \<noteq> []" "0 < mg_max m" "mg_icmp_buckets m \<noteq> []" "0 < mg_icmp_max m"
    using assms by (simp_all add: manager_ok_def)
  have det: "\<exists>m'. run_op op m = Some m' \<and> manager_ok m'"
    if "op = OpSpikes t k limit \<or> op = OpDetect eid now p ss \<or> op = OpDetectWindow eid now p w
      \<or> op = OpRecovery eid now p ss \<or> op = OpRecoveryWindow eid now p w" for t k limit eid now p ss w
    using run_detector_op[OF ok(1) that] detector_step_ok[OF _ assms] by blast
  have store: "manager_ok (on_store f m)" if "store_ok (f (mg_captures m))" for f
    using assms that by (simp add: manager_ok_def on_store_def)
  show ?thesis
  proof (cases op)
    case (OpHTTP now t l r)
    then show ?thesis using record_tracker[OF ok(3,5,6), of t "(l, r, now)"] assms
      by (auto simp: RecordLatency_def Record_result manager_ok_def)
  next
    case (OpICMP now t l r)
    then show ?thesis using record_tracker[OF ok(4,7,8), of t "(l, r, now)"] assms
      by (auto simp: RecordICMPLatency_def Record_result manager_ok_def)
  next
    case (OpICMPAt t l r now)
    then show ?thesis using record_tracker[OF ok(4,7,8), of t "(l, r, now)"] assms
      by (auto simp: RecordICMPLatencyAt_def Record_result manager_ok_def)
  next
    case (OpUpdateSnapshot t s)
    then show ?thesis using assms by (simp add: UpdateSnapshot_def manager_ok_def)
  next
    case (OpConfigureICMP b n)
    then show ?thesis using assms by (simp add: ConfigureICMP_def manager_ok_def)
  next
    case (OpCapture e c)
    then show ?thesis using store[where f = "AddCapture e c", OF store_ops_ok(1)[OF ok(2)]] by simp
  next
    case (OpCaptureFrom e c t k)
    then show ?thesis using store[where f = "AddCaptureWithProvenance e c t k", OF store_ops_ok(2)[OF ok(2)]] by simp
  next
    case (OpReserve n)
    then show ?thesis using store[where f = "\<lambda>s. snd (ReserveInFlight n s)", OF store_ops_ok(3)[OF ok(2)]] by simp
  next
    case (OpRelease n)
    then show ?thesis using store[where f = "ReleaseInFlight n", OF store_ops_ok(4)[OF ok(2)]] by simp
  next
    case OpRetention
    then show ?thesis using assms by (simp add: EnableCaptureAwareSpikeRetention_def manager_ok_def retention_det_ok)
  next
    case (OpRetentionCap n)
    then show ?thesis using assms
      by (simp add: EnableCaptureAwareSpikeRetentionWithCap_def manager_ok_def retention_det_ok Let_def)
  qed (use det in blast)+
qed

lemma run_ops_ok: "manager_ok m \<Longrightarrow> \<exists>m'. run_ops ops m = Some m' \<and> manager_ok m'"
proof (induction ops arbitrary: m)
  case (Cons x xs)
  obtain m1 where "run_op x m = Some m1" "manager_ok m1" using run_op_ok[OF Cons.prems] by blast
  then show ?case using Cons.IH[of m1] by simp
qed simp

lemma new_manager_ok: "manager_ok (NewManagerWithConfig b n)" "manager_ok (ConfigureICMP b' n' (NewManagerWithConfig b n))"
  by (simp_all add: manager_ok_def NewManagerWithConfig_def NewManager_def ConfigureICMP_def trackers_ok_def det_ok_def Let_def
      NewSpikeDetector_def DefaultSpikeConfig_def default_buckets_def NewCaptureStore_ok)

lemma summary_total: "tracker_inv lt \<Longrightarrow> GetSummary t lt \<noteq> None"
proof (cases "contents lt = []")
  case True
  assume "tracker_inv lt"
  with True have "lt_count lt = 0" by (auto simp: contents_def tracker_inv_def ring_inv_def)
  then show ?thesis by (simp add: GetSummary_def)
next
  case False
  assume "tracker_inv lt"
  then show ?thesis using GetSummary_contents[OF _ False] by simp
qed

text \<open>
  C31. The manager never panics. Whatever buckets and capacity it is configured with, any
  sequence of recordings, detections, captures, reservations and reconfigurations leads to
  a well-formed state, in which every tracker, the detector's configuration and the capture store keep
  their invariants and every summary and timestamp read of every target returns. A capacity too large
  for the memory is not a panic of the model: allocations succeed.
\<close>

theorem manager_never_panics:
  "\<exists>m. run_ops ops (NewManagerWithConfig b n) = Some m \<and> manager_ok m
     \<and> (\<forall>t. is_some (GetLatencySummary t m) \<and> is_some (GetICMPLatencySummary t m)
          \<and> is_some (GetLatencySampleTimestamps t m) \<and> is_some (GetICMPLatencySampleTimestamps t m))"
proof -
  obtain m where m: "run_ops ops (NewManagerWithConfig b n) = Some m" "manager_ok m"
    using run_ops_ok[OF new_manager_ok(1)] by blast
  have inv: "tracker_inv lt" "ring_inv lt" if "mg_http m t = Some lt \<or> mg_icmp m t = Some lt" for t lt
    using m(2) that by (auto simp: manager_ok_def trackers_ok_def tracker_inv_def)
  have "is_some (GetLatencySummary t m) \<and> is_some (GetICMPLatencySummary t m)
          \<and> is_some (GetLatencySampleTimestamps t m) \<and> is_some (GetICMPLatencySampleTimestamps t m)" for t
    using inv[of t] summary_total timestamps_contents
    by (auto simp: GetLatencySummary_def GetICMPLatencySummary_def GetLatencySampleTimestamps_def
        GetICMPLatencySampleTimestamps_def is_some_def split: option.split)
  with m show ?thesis by blast
qed

subsection \<open>The streams of the probes\<close>

text \<open>The results of the HTTP and of the ICMP probes of a target, as a sequence of operations records them.\<close>

fun http_result :: "string \<Rightarrow> manager_op \<Rightarrow> latency_sample list" where
  "http_result t (OpHTTP now u l r) = (if u = t then [result_sample (l, r, now)] else [])"
| "http_result t _ = []"

fun icmp_result :: "string \<Rightarrow> manager_op \<Rightarrow> latency_sample list" where
  "icmp_result t (OpICMP now u l r) = (if u = t then [result_sample (l, r, now)] else [])"
| "icmp_result t (OpICMPAt u l r now) = (if u = t then [result_sample (l, r, now)] else [])"
| "icmp_result t _ = []"

fun reconfigures :: "manager_op \<Rightarrow> bool" where
  "reconfigures (OpConfigureICMP b n) = True"
| "reconfigures _ = False"

text \<open>A state of a manager that was configured once, at the start.\<close>

definition streams_inv :: "manager \<Rightarrow> manager \<Rightarrow> bool" where
  "streams_inv m0 m \<longleftrightarrow> mg_buckets m = mg_buckets m0 \<and> mg_max m = mg_max m0
     \<and> mg_icmp_buckets m = mg_icmp_buckets m0 \<and> mg_icmp_max m = mg_icmp_max m0"

text \<open>One configured manager, its maps as keyed logs.\<close>

definition manager0 :: "int list \<Rightarrow> int \<Rightarrow> int list \<Rightarrow> int \<Rightarrow> manager" where
  "manager0 b n b' n' = ConfigureICMP b' n' (NewManagerWithConfig b n)"

lemma manager0_http: "mg_buckets (manager0 b n b' n') = mg_buckets (NewManagerWithConfig b n)"
  "mg_max (manager0 b n b' n') = mg_max (NewManagerWithConfig b n)"
  by (simp_all add: manager0_def ConfigureICMP_def)

definition logs_ok :: "int list \<Rightarrow> int \<Rightarrow> int list \<Rightarrow> int \<Rightarrow> manager \<Rightarrow> bool" where
  "logs_ok b n b' n' m \<longleftrightarrow> streams_inv (manager0 b n b' n') m
     \<and> http_log.all_ok b n (mg_http m) \<and> icmp_log.all_ok b' n' b n (mg_icmp m)"

lemma frame_op:
  assumes "\<not> reconfigures op" "http_result t op = []" "icmp_result t op = []" "run_op op m = Some m'" "manager_ok m"
    and "\<forall>now u l r. op \<noteq> OpHTTP now u l r \<and> op \<noteq> OpICMP now u l r \<and> op \<noteq> OpICMPAt u l r now"
  shows "mg_http m' = mg_http m \<and> mg_icmp m' = mg_icmp m \<and> mg_buckets m' = mg_buckets m \<and> mg_max m' = mg_max m
    \<and> mg_icmp_buckets m' = mg_icmp_buckets m \<and> mg_icmp_max m' = mg_icmp_max m"
  using assms
  by (cases op) (auto simp: UpdateSnapshot_def GetManagerSpikes_def DetectAndRecordSpikeWithTcpQuality_def
      DetectAndRecordSpikeWithWindowAndTcpQuality_def RecordManagerRecovery_def RecordManagerRecoveryWithWindow_def
      with_detector_def on_store_def EnableCaptureAwareSpikeRetention_def EnableCaptureAwareSpikeRetentionWithCap_def Let_def)

lemma log_of_map:
  "http_log.record_in b n t x f = map_option (\<lambda>lt. f(t \<mapsto> record_result x lt))
     (tracker_for f (mg_buckets (NewManagerWithConfig b n)) (mg_max (NewManagerWithConfig b n)) t)"
  "icmp_log.record_in b' n' b n t x f = map_option (\<lambda>lt. f(t \<mapsto> record_result x lt))
     (tracker_for f (mg_icmp_buckets (ConfigureICMP b' n' (NewManagerWithConfig b n)))
       (mg_icmp_max (ConfigureICMP b' n' (NewManagerWithConfig b n))) t)"
  by (simp_all add: http_log.record_in_def http_log.get_log_def icmp_log.record_in_def icmp_log.get_log_def tracker_for_def)

text \<open>The results the manager keeps for a target.\<close>

definition http_contents :: "string \<Rightarrow> manager \<Rightarrow> latency_sample list" where
  "http_contents t m = (case mg_http m t of None \<Rightarrow> [] | Some lt \<Rightarrow> contents lt)"

definition icmp_contents :: "string \<Rightarrow> manager \<Rightarrow> latency_sample list" where
  "icmp_contents t m = (case mg_icmp m t of None \<Rightarrow> [] | Some lt \<Rightarrow> contents lt)"

lemma contents_views: "keyed_log.keyed_view contents (mg_http m) t = http_contents t m"
  "keyed_log.keyed_view contents (mg_icmp m) t = icmp_contents t m"
  by (simp_all add: http_log.keyed_view_def http_contents_def icmp_contents_def)

lemma op_streams:
  assumes logs: "logs_ok b n b' n' m" and ok: "manager_ok m" and run: "run_op op m = Some m'" and c: "\<not> reconfigures op"
  shows "logs_ok b n b' n' m'
    \<and> http_contents t m' = take_last (nat (mg_max m)) (http_contents t m @ http_result t op)
    \<and> icmp_contents t m' = take_last (nat (mg_icmp_max m)) (icmp_contents t m @ icmp_result t op)"
proof -
  let ?m0 = "manager0 b n b' n'"
  have s: "mg_buckets m = mg_buckets (NewManagerWithConfig b n)" "mg_max m = mg_max (NewManagerWithConfig b n)"
    "mg_icmp_buckets m = mg_icmp_buckets ?m0" "mg_icmp_max m = mg_icmp_max ?m0"
    "http_log.all_ok b n (mg_http m)" "icmp_log.all_ok b' n' b n (mg_icmp m)"
    using logs by (simp_all add: logs_ok_def streams_inv_def manager0_http)
  have full: "length (http_contents t m) \<le> nat (mg_max m)" "length (icmp_contents t m) \<le> nat (mg_icmp_max m)" for t
    using http_log.keyed_view_bounded[OF s(5)] icmp_log.keyed_view_bounded[OF s(6)] s
    by (simp_all add: contents_views manager0_def)
  have http: ?thesis if "run_op op m = map_option (\<lambda>f. m\<lparr>mg_http := f\<rparr>) (http_log.record_in b n u x (mg_http m))"
    "\<And>t. http_result t op = (if t = u then [result_sample x] else [])" "\<And>t. icmp_result t op = []" for u x
  proof -
    obtain f where f: "http_log.record_in b n u x (mg_http m) = Some f" "http_log.all_ok b n f"
      "\<forall>j. keyed_log.keyed_view contents f j = take_last (nat (mg_max (NewManagerWithConfig b n)))
         (keyed_log.keyed_view contents (mg_http m) j @ (if j = u then [result_sample x] else []))"
      using http_log.record_in_stream[OF s(5) TrueI, of u x] by blast
    have m': "m' = m\<lparr>mg_http := f\<rparr>" using run that(1) f(1) by simp
    show ?thesis using f(2,3) logs that(2,3) full(2) contents_views(1)[of m'] contents_views(1)[of m]
      by (simp add: m' logs_ok_def streams_inv_def s(2) icmp_contents_def)
  qed
  have icmp: ?thesis if "run_op op m = map_option (\<lambda>f. m\<lparr>mg_icmp := f\<rparr>) (icmp_log.record_in b' n' b n u x (mg_icmp m))"
    "\<And>t. icmp_result t op = (if t = u then [result_sample x] else [])" "\<And>t. http_result t op = []" for u x
  proof -
    obtain f where f: "icmp_log.record_in b' n' b n u x (mg_icmp m) = Some f" "icmp_log.all_ok b' n' b n f"
      "\<forall>j. keyed_log.keyed_view contents f j = take_last (nat (mg_icmp_max (ConfigureICMP b' n' (NewManagerWithConfig b n))))
         (keyed_log.keyed_view contents (mg_icmp m) j @ (if j = u then [result_sample x] else []))"
      using icmp_log.record_in_stream[OF s(6) TrueI, of u x] by blast
    have m': "m' = m\<lparr>mg_icmp := f\<rparr>" using run that(1) f(1) by simp
    show ?thesis using f(2,3) logs that(2,3) full(1) contents_views(2)[of m'] contents_views(2)[of m]
      by (simp add: m' logs_ok_def streams_inv_def s(4) manager0_def http_contents_def)
  qed
  show ?thesis
  proof (cases op)
    case (OpHTTP now u l r)
    then show ?thesis by (intro http[of u "(l, r, now)"])
        (auto simp: RecordLatency_def log_of_map Record_result s option.map_comp comp_def)
  next
    case (OpICMP now u l r)
    then show ?thesis by (intro icmp[of u "(l, r, now)"])
        (auto simp: RecordICMPLatency_def log_of_map Record_result s option.map_comp comp_def manager0_def)
  next
    case (OpICMPAt u l r now)
    then show ?thesis by (intro icmp[of u "(l, r, now)"])
        (auto simp: RecordICMPLatencyAt_def log_of_map Record_result s option.map_comp comp_def manager0_def)
  qed (use frame_op[OF c _ _ run ok, of t] logs full[of t] in \<open>auto simp: logs_ok_def streams_inv_def http_contents_def icmp_contents_def\<close>)
qed

lemma ops_streams:
  assumes "logs_ok b n b' n' m" "manager_ok m" "run_ops ops m = Some m'" "\<forall>op \<in> set ops. \<not> reconfigures op"
  shows "logs_ok b n b' n' m'
    \<and> http_contents t m' = take_last (nat (mg_max m)) (http_contents t m @ concat (map (http_result t) ops))
    \<and> icmp_contents t m' = take_last (nat (mg_icmp_max m)) (icmp_contents t m @ concat (map (icmp_result t) ops))"
  using assms
proof (induction ops arbitrary: m)
  case Nil
  then have "length (http_contents t m) \<le> nat (mg_max m)" "length (icmp_contents t m) \<le> nat (mg_icmp_max m)"
    using http_log.keyed_view_bounded[of b n "mg_http m" t] icmp_log.keyed_view_bounded[of b' n' b n "mg_icmp m" t]
    by (simp_all add: contents_views logs_ok_def streams_inv_def manager0_http) (simp_all add: manager0_def)
  with Nil show ?case by simp
next
  case (Cons x xs)
  obtain m1 where m1: "run_op x m = Some m1" "run_ops xs m1 = Some m'" using Cons.prems(3) by (cases "run_op x m") auto
  have ok1: "manager_ok m1" using run_op_ok[OF Cons.prems(2), of x] m1 by simp
  note step = op_streams[OF Cons.prems(1,2) m1(1), of t]
  have same: "mg_max m1 = mg_max m" "mg_icmp_max m1 = mg_icmp_max m"
    using step Cons.prems by (simp_all add: logs_ok_def streams_inv_def)
  show ?case using step Cons.IH[OF _ ok1 m1(2)] Cons.prems(4) by (simp add: same take_last_append_take_last)
qed

text \<open>
  C5. The streams of the targets do not mix. After any sequence of operations on a configured
  manager, the recent HTTP samples of a target are the newest of exactly the HTTP results recorded
  for that target, in order, at most the configured number; likewise for ICMP, whose capacity
  is its own. Limits out of range are clamped.
\<close>

theorem manager_streams:
  assumes run: "run_ops ops (ConfigureICMP b' n' (NewManagerWithConfig b n)) = Some m"
    and once: "\<forall>op \<in> set ops. \<not> reconfigures op"
  shows "GetRecentLatencySamples t limit m
      = take_last (nat (clamp_limit limit (if n \<le> 0 then 100 else n))) (concat (map (http_result t) ops))
    \<and> GetRecentICMPLatencySamples t limit m
      = take_last (nat (clamp_limit limit (if n' \<le> 0 then if n \<le> 0 then 100 else n else n'))) (concat (map (icmp_result t) ops))"
proof -
  let ?m0 = "ConfigureICMP b' n' (NewManagerWithConfig b n)"
  have mx: "mg_max ?m0 = (if n \<le> 0 then 100 else n)" "mg_icmp_max ?m0 = (if n' \<le> 0 then if n \<le> 0 then 100 else n else n')"
    by (simp_all add: ConfigureICMP_def NewManagerWithConfig_def Let_def)
  have "logs_ok b n b' n' ?m0"
    by (simp add: logs_ok_def streams_inv_def manager0_def http_log.all_ok_def icmp_log.all_ok_def)
      (simp add: ConfigureICMP_def NewManagerWithConfig_def NewManager_def Let_def)
  note s = ops_streams[OF this new_manager_ok(2) run once, of t]
  have e: "http_contents t ?m0 = []" "icmp_contents t ?m0 = []"
    by (simp_all add: http_contents_def icmp_contents_def ConfigureICMP_def NewManagerWithConfig_def NewManager_def Let_def)
  have m: "manager_ok m" using run_ops_ok[OF new_manager_ok(2)] run by (metis option.inject)
  have caps: "mg_max m = mg_max ?m0" "mg_icmp_max m = mg_icmp_max ?m0"
    using s by (simp_all add: logs_ok_def streams_inv_def manager0_def)
  have read: "(case f t of None \<Rightarrow> [] | Some lt \<Rightarrow> GetRecentSamples l lt)
      = take_last (nat l) (case f t of None \<Rightarrow> [] | Some lt \<Rightarrow> contents lt)" if "trackers_ok f" for f l
    using that newest_reads(1) by (auto simp: trackers_ok_def tracker_inv_def split: option.split)
  have c: "min (nat (clamp_limit limit x)) (nat x) = nat (clamp_limit limit x)" for x
    by (auto simp: clamp_limit_def min_def intro: nat_mono)
  have "GetRecentLatencySamples t limit m = take_last (nat (clamp_limit limit (mg_max ?m0))) (http_contents t m)"
    "GetRecentICMPLatencySamples t limit m = take_last (nat (clamp_limit limit (mg_icmp_max ?m0))) (icmp_contents t m)"
    using m read by (simp_all add: GetRecentLatencySamples_def GetRecentICMPLatencySamples_def manager_ok_def http_contents_def
        icmp_contents_def caps)
  then show ?thesis using s by (simp only: e append_Nil take_last_take_last c mx simp_thms)
qed

subsection \<open>Captured spikes stay in the timeline\<close>

text \<open>
  The operations that may take the protection of an event away: a later capture of the same
  event that is not successful, a release of a reservation under its id, and a
  reconfiguration of the cap, which replaces the detector.
\<close>

fun keeps_protection :: "string \<Rightarrow> manager_op \<Rightarrow> bool" where
  "keeps_protection i (OpCapture j c) = (j \<noteq> i \<or> cp_status c = DiagCaptureStatusOK \<and> \<not> cp_suppressed c)"
| "keeps_protection i (OpCaptureFrom j c t k) = (j \<noteq> i \<or> cp_status c = DiagCaptureStatusOK \<and> \<not> cp_suppressed c)"
| "keeps_protection i (OpRelease n) = (n \<noteq> i)"
| "keeps_protection i (OpRetentionCap n) = (n \<le> 0)"
| "keeps_protection i _ = True"

lemma provenance_protection: "GetProtectionInfo (AddCaptureWithProvenance e c t k s) = GetProtectionInfo (AddCapture e c s)"
  by (rule ext) (simp add: GetProtectionInfo_def AddCaptureWithProvenance_def AddCapture_def Let_def)

lemma protection_kept:
  assumes "store_ok s" "fst (GetProtectionInfo s i)"
  shows "j \<noteq> i \<or> cp_status c = DiagCaptureStatusOK \<and> \<not> cp_suppressed c \<Longrightarrow> fst (GetProtectionInfo (AddCapture j c s) i)"
    "fst (GetProtectionInfo (snd (ReserveInFlight n s)) i)" "n \<noteq> i \<Longrightarrow> fst (GetProtectionInfo (ReleaseInFlight n s) i)"
  using assms AddCapture_protection[OF assms(1), of j c i]
  by (auto simp: GetProtectionInfo_def ReserveInFlight_def ReleaseInFlight_def map_get_def split: if_splits)

definition retained :: "spike_event \<Rightarrow> string \<Rightarrow> string \<Rightarrow> manager \<Rightarrow> bool" where
  "retained e t k m \<longleftrightarrow> manager_ok m \<and> is_some (det_protect (mg_detector m)) \<and> fst (GetProtectionInfo (mg_captures m) (ev_id e))
     \<and> e \<in> set (det_events (mg_detector m) t k)"

lemma retained_detector_step: "detector_step m m' \<Longrightarrow> retained e t k m \<Longrightarrow> retained e t k m'"
proof -
  assume s: "detector_step m m'" and r: "retained e t k m"
  then obtain sd where sd: "m' = m\<lparr>mg_detector := sd\<rparr>" "evolves (current_detector m) sd" by (auto simp: detector_step_def)
  have c: "current_detector m = SetCaptureInfoFunc (GetProtectionInfo (mg_captures m)) (mg_detector m)"
    using r by (auto simp: retained_def current_detector_def is_some_def)
  then have "protection_of (current_detector m) = GetProtectionInfo (mg_captures m)" "is_some (det_protect (current_detector m))"
    by (simp_all add: SetCaptureInfoFunc_def protection_of_def is_some_def)
  then show ?thesis using sd r detector_step_ok[OF s]
    by (auto simp: retained_def evolves_def current_detector_fields)
qed

lemma retained_step:
  assumes r: "retained e t k m" and run: "run_op op m = Some m'" and keep: "keeps_protection (ev_id e) op"
  shows "retained e t k m'"
proof -
  have ok: "manager_ok m" using r by (simp add: retained_def)
  then have ok': "manager_ok m'" using run_op_ok[OF ok, of op] run by simp
  have det: "det_ok (mg_detector m)" "store_ok (mg_captures m)" using ok by (simp_all add: manager_ok_def)
  have d: "retained e t k m'" if "op = OpSpikes u v limit \<or> op = OpDetect eid now p ss \<or> op = OpDetectWindow eid now p w
      \<or> op = OpRecovery eid now p ss \<or> op = OpRecoveryWindow eid now p w" for u v limit eid now p ss w
    using run_detector_op[OF det(1) that] run retained_detector_step[OF _ r] by auto
  have same: "retained e t k m'" if "mg_detector m' = mg_detector m" "fst (GetProtectionInfo (mg_captures m') (ev_id e))"
    using that r ok' by (simp add: retained_def)
  have p: "fst (GetProtectionInfo (mg_captures m) (ev_id e))" using r by (simp add: retained_def)
  note kept = protection_kept[OF det(2) p]
  show ?thesis
  proof (cases op)
    case (OpCapture j c)
    then show ?thesis using run keep kept(1)[of j c] by (intro same) (auto simp: on_store_def)
  next
    case (OpCaptureFrom j c u v)
    then show ?thesis using run keep kept(1)[of j c] by (intro same) (auto simp: on_store_def provenance_protection)
  next
    case (OpReserve n)
    then show ?thesis using run kept(2)[of n] by (intro same) (auto simp: on_store_def)
  next
    case (OpRelease n)
    then show ?thesis using run keep kept(3)[of n] by (intro same) (auto simp: on_store_def)
  next
    case OpRetention
    then show ?thesis using run r ok'
      by (auto simp: retained_def EnableCaptureAwareSpikeRetention_def SetCaptureInfoFunc_def is_some_def det_events_def)
  next
    case (OpRetentionCap n)
    then show ?thesis using run r ok' keep
      by (auto simp: retained_def EnableCaptureAwareSpikeRetentionWithCap_def SetCaptureInfoFunc_def is_some_def det_events_def Let_def)
  next
    case (OpUpdateSnapshot u s)
    then show ?thesis using run p by (intro same) (auto simp: UpdateSnapshot_def)
  next
    case (OpHTTP now u l b)
    then show ?thesis using run p by (intro same) (auto simp: RecordLatency_def)
  next
    case (OpICMP now u l b)
    then show ?thesis using run p by (intro same) (auto simp: RecordICMPLatency_def)
  next
    case (OpICMPAt u l b now)
    then show ?thesis using run p by (intro same) (auto simp: RecordICMPLatencyAt_def)
  next
    case (OpConfigureICMP b n)
    then show ?thesis using run p by (intro same) (auto simp: ConfigureICMP_def)
  qed (use d in blast)+
qed

lemma retained_ops:
  "retained e t k m \<Longrightarrow> run_ops ops m = Some m' \<Longrightarrow> \<forall>op \<in> set ops. keeps_protection (ev_id e) op \<Longrightarrow> retained e t k m'"
proof (induction ops arbitrary: m)
  case (Cons x xs)
  then obtain m1 where "run_op x m = Some m1" "run_ops xs m1 = Some m'" by (cases "run_op x m") auto
  with Cons show ?case using retained_step[of e t k m x m1] by simp
qed simp

text \<open>
  C10. A spike with a successful capture stays visible. In a manager with capture-aware
  retention, an event of a target's timeline whose capture protects it is still in the timeline
  that \<open>GetSpikes\<close> returns after any sequence of probe results, detections, recoveries,
  captures and reservations of any target, however many spikes they record, as long as the event's
  own capture is not replaced by a failed one and the detector is not reconfigured.
\<close>

theorem captured_spike_visible:
  assumes ok: "manager_ok m" and wired: "det_protect (mg_detector m) \<noteq> None"
    and e: "e \<in> set (det_events (mg_detector m) t k)" and prot: "fst (GetProtectionInfo (mg_captures m) (ev_id e))"
    and run: "run_ops ops m = Some m'" and keep: "\<forall>op \<in> set ops. keeps_protection (ev_id e) op"
  shows "\<exists>evs m''. GetManagerSpikes t k 0 m' = Some (evs, m'') \<and> e \<in> set evs \<and> retained e t k m'"
proof -
  have "retained e t k m" using ok wired e prot by (simp add: retained_def is_some_def)
  then have r: "retained e t k m'" using retained_ops run keep by blast
  then have "det_ok (current_detector m')" by (simp add: retained_def manager_ok_def current_detector_fields)
  then obtain sd' where "GetSpikes t k 0 (current_detector m') = Some (rev (det_events (current_detector m') t k), sd')"
    using GetSpikes_evolves[of "current_detector m'" t k 0] by auto
  then show ?thesis using r by (auto simp: GetManagerSpikes_def with_detector_def retained_def current_detector_fields)
qed

text \<open>A reconfiguration of the cap empties every timeline.\<close>

lemma retention_cap_discards:
  "0 < n \<Longrightarrow> det_events (mg_detector (EnableCaptureAwareSpikeRetentionWithCap n m)) t k = []"
  by (simp add: EnableCaptureAwareSpikeRetentionWithCap_def Let_def det_events_def SetCaptureInfoFunc_def NewSpikeDetectorWithConfig_def)

subsection \<open>The series snapshot\<close>

lemma series_fold:
  "fold series_step ss (errs, oldest, newest) =
    (errs + int (length (filter (\<lambda>s. \<not> ls_reach s) ss)),
     if ss = [] then oldest else Some (Min (ls_ts ` set ss \<union> set_option oldest)),
     if ss = [] then newest else Some (Max (ls_ts ` set ss \<union> set_option newest)))"
proof (induction ss arbitrary: errs oldest newest)
  case (Cons s ss)
  define o1 where "o1 = (case oldest of None \<Rightarrow> ls_ts s | Some t \<Rightarrow> min (ls_ts s) t)"
  define n1 where "n1 = (case newest of None \<Rightarrow> ls_ts s | Some t \<Rightarrow> max (ls_ts s) t)"
  have step: "series_step s (errs, oldest, newest) = ((if ls_reach s then errs else errs + 1), Some o1, Some n1)"
    by (auto simp: series_step_def o1_def n1_def min_def max_def split: option.split)
  have mins: "Min (insert o1 A) = Min (insert (ls_ts s) (A \<union> set_option oldest))" if "finite A" for A
    using that by (cases oldest; cases "A = {}") (auto simp: o1_def Min_insert2 min.assoc insert_commute)
  have maxs: "Max (insert n1 A) = Max (insert (ls_ts s) (A \<union> set_option newest))" if "finite A" for A
    using that by (cases newest; cases "A = {}") (auto simp: n1_def Max_insert2 max.assoc insert_commute)
  show ?case using Cons.IH[of "if ls_reach s then errs else errs + 1" "Some o1" "Some n1"] mins[of "ls_ts ` set ss"] maxs[of "ls_ts ` set ss"]
    by (cases "ss = []") (auto simp: step)
qed simp

lemma snapshot_samples:
  assumes i: "ring_inv lt"
  shows "sn_samples (Snapshot t limit lt) = (if limit \<le> 0 then contents lt else take_last (nat limit) (contents lt))"
    "sn_count (Snapshot t limit lt) = int (length (sn_samples (Snapshot t limit lt)))" "sn_capacity (Snapshot t limit lt) = lt_max lt"
proof -
  show "sn_samples (Snapshot t limit lt) = (if limit \<le> 0 then contents lt else take_last (nat limit) (contents lt))"
  proof (cases "contents lt = []")
    case True
    then have "lt_count lt = 0" using i by (auto simp: contents_def ring_inv_def)
    then show ?thesis using True by (simp add: Snapshot_def Let_def)
  qed (rule newest_reads(2)[OF i])
  show "sn_count (Snapshot t limit lt) = int (length (sn_samples (Snapshot t limit lt)))" "sn_capacity (Snapshot t limit lt) = lt_max lt"
    using i by (auto simp: Snapshot_def Let_def ring_inv_def)
qed

text \<open>
  The data of a latency chart add up. The series snapshot of a tracker lists the time and the
  outcome of exactly its newest samples; its count, error count and time bounds are those of the list;
  its window holds the latencies of the successful samples, of which only invalid ones are missing, so
  that successes and errors make up the retained samples.
\<close>

theorem series_snapshot_exact:
  fixes limit :: int and kind :: string
  assumes i: "ring_inv lt"
  defines "ss \<equiv> if limit \<le> 0 then contents lt else take_last (nat limit) (contents lt)"
  defines "sn \<equiv> buildSeriesSnapshot lt limit kind"
  shows "map (\<lambda>s. (sm_at s, sm_ok s)) (se_samples sn) = map (\<lambda>s. (ls_ts s, ls_reach s)) ss
    \<and> se_count sn = int (length ss) \<and> se_capacity sn = lt_max lt
    \<and> se_errs sn = int (length (filter (\<lambda>s. \<not> ls_reach s) ss))
    \<and> latencies (se_window sn) = map ls_ms (filter (\<lambda>s. ls_reach s \<and> NewLatencyMillis (ls_ms s) \<noteq> None) ss)
    \<and> (if ss = [] then se_oldest sn = 0 \<and> se_newest sn = 0
       else se_oldest sn = Min (ls_ts ` set ss) \<and> se_newest sn = Max (ls_ts ` set ss))
    \<and> int (Len (se_window sn)) + se_errs sn \<le> se_count sn"
proof -
  have s: "sn_samples (Snapshot [] limit lt) = ss" "sn_count (Snapshot [] limit lt) = int (length ss)"
    "sn_capacity (Snapshot [] limit lt) = lt_max lt" using snapshot_samples[OF i, of "[]" limit] by (simp_all add: ss_def)
  have e: "sn = \<lparr>se_window = NewSampleWindow (map (\<lambda>s. LatencySampleToDomainSampleWithKind s kind) ss),
      se_samples = map (\<lambda>s. \<lparr>sm_at = ls_ts s, sm_ok = ls_reach s\<rparr>) ss, se_count = int (length ss), se_capacity = lt_max lt,
      se_errs = int (length (filter (\<lambda>s. \<not> ls_reach s) ss)),
      se_oldest = (if ss = [] then 0 else Min (ls_ts ` set ss)), se_newest = (if ss = [] then 0 else Max (ls_ts ` set ss)),
      se_kind = kind\<rparr>"
    by (simp add: sn_def buildSeriesSnapshot_def Let_def s series_fold)
  let ?v = "\<lambda>s. ls_reach s \<and> NewLatencyMillis (ls_ms s) \<noteq> None"
  have w: "latencies (NewSampleWindow (map (\<lambda>s. LatencySampleToDomainSampleWithKind s kind) cs)) = map ls_ms (filter ?v cs)" for cs
    by (induction cs)
      (auto simp: latencies_def NewSampleWindow_def LatencySampleToDomainSampleWithKind_def LatencySampleToDomainSample_def
        NewLatencyMillis_Some split: option.splits)
  have "length (filter ?v ss) \<le> length (filter ls_reach ss)" by (induction ss) auto
  then have "Len (se_window sn) + length (filter (\<lambda>s. \<not> ls_reach s) ss) \<le> length ss"
    using arg_cong[OF w[of ss], of length] filter_lengths[of ls_reach ss] by (simp add: e Len_def latencies_def)
  then show ?thesis using w by (simp add: e comp_def) 
qed

subsection \<open>Concrete instances\<close>

lemma manager_streams_witness:
  "\<exists>m. run_ops [OpHTTP 1 ''a'' (Fin 5) True, OpICMP 2 ''a'' (Fin 6) True, OpHTTP 3 ''b'' (Fin 7) False, OpHTTP 4 ''a'' (Fin 8) True]
        (ConfigureICMP [10] 4 (NewManagerWithConfig [50, 10] 1)) = Some m
     \<and> GetRecentLatencySamples ''a'' 0 m = [\<lparr>ls_ts = 4, ls_ms = Fin 8, ls_reach = True, ls_err = []\<rparr>]
     \<and> GetRecentICMPLatencySamples ''a'' 9 m = [\<lparr>ls_ts = 2, ls_ms = Fin 6, ls_reach = True, ls_err = []\<rparr>]"
proof -
  let ?ops = "[OpHTTP 1 ''a'' (Fin 5) True, OpICMP 2 ''a'' (Fin 6) True, OpHTTP 3 ''b'' (Fin 7) False, OpHTTP 4 ''a'' (Fin 8) True]"
  obtain m where m: "run_ops ?ops (ConfigureICMP [10] 4 (NewManagerWithConfig [50, 10] 1)) = Some m"
    using run_ops_ok[OF new_manager_ok(2)] by blast
  show ?thesis using m manager_streams[OF m, of "''a''" 0] manager_streams[OF m, of "''a''" 9]
    by (simp add: take_last_def clamp_limit_def result_sample_def del: run_ops.simps)
qed

definition manager_example :: manager where
  "manager_example = EnableCaptureAwareSpikeRetention (NewManager\<lparr>
     mg_detector := \<lparr>det_config = DefaultSpikeConfig\<lparr>sc_max_events := 1\<rparr>,
       det_trackers = [tracker_key ''t'' ''http'' \<mapsto>
         \<lparr>st_events = [spike_example ''e1''], st_max = 1, st_config = DefaultSpikeConfig\<lparr>sc_max_events := 1\<rparr>, st_kind = ''http''\<rparr>],
       det_protect = None\<rparr>,
     mg_captures := AddCapture ''e1'' (successful capture_example) NewCaptureStore\<rparr>)"

lemma captured_spike_visible_witness:
  "\<exists>m' evs m''. run_ops [OpDetectWindow ''e2'' 10 (probe_example ''http'' (Fin 4) False) empty_window,
        OpDetectWindow ''e3'' 11 (probe_example ''http'' (Fin 4) False) empty_window] manager_example = Some m'
     \<and> GetManagerSpikes ''t'' ''http'' 0 m' = Some (evs, m'') \<and> spike_example ''e1'' \<in> set evs"
proof -
  let ?ops = "[OpDetectWindow ''e2'' 10 (probe_example ''http'' (Fin 4) False) empty_window,
        OpDetectWindow ''e3'' 11 (probe_example ''http'' (Fin 4) False) empty_window]"
  have store: "store_ok (AddCapture ''e1'' (successful capture_example) NewCaptureStore)"
    by (rule captures.push_ok[OF NewCaptureStore_ok TrueI])
  have ok: "manager_ok manager_example"
    using new_manager_ok(1)[of default_buckets 100] store
    by (simp add: manager_example_def manager_ok_def EnableCaptureAwareSpikeRetention_def SetCaptureInfoFunc_def det_ok_def
        DefaultSpikeConfig_def NewManagerWithConfig_def NewManager_def Let_def)
  have e: "spike_example ''e1'' \<in> set (det_events (mg_detector manager_example) ''t'' ''http'')"
    "det_protect (mg_detector manager_example) \<noteq> None"
    by (simp_all add: manager_example_def EnableCaptureAwareSpikeRetention_def SetCaptureInfoFunc_def det_events_def)
  have i: "ev_id (spike_example ''e1'') = ''e1''" by (simp add: spike_example_def build_event_def)
  have "fst (GetProtectionInfo (mg_captures manager_example) ''e1'')"
    using capture_protection.attach_protects[OF NewCaptureStore_ok]
    by (simp add: manager_example_def EnableCaptureAwareSpikeRetention_def)
  then have p: "fst (GetProtectionInfo (mg_captures manager_example) (ev_id (spike_example ''e1'')))" by (simp only: i)
  obtain m' where m': "run_ops ?ops manager_example = Some m'" using run_ops_ok[OF ok] by blast
  have k: "\<forall>op \<in> set ?ops. keeps_protection (ev_id (spike_example ''e1'')) op" by simp
  from captured_spike_visible[OF ok e(2,1) p m' k] m' show ?thesis by blast
qed

lemma series_snapshot_exact_witness:
  "se_errs (buildSeriesSnapshot tracker_example 0 ''http'') = 1 \<and> se_newest (buildSeriesSnapshot tracker_example 0 ''http'') = 3"
proof -
  have i: "ring_inv tracker_example" using tracker_example_inv by (simp add: tracker_inv_def)
  show ?thesis using series_snapshot_exact[OF i, of 0 "''http''"] by (simp add: contents_example)
qed

end
