(* ===== verification/Probe_Client.thy ===== *)
theory Probe_Client
  imports Capture_Service State_Manager
begin

section \<open>The probe clients\<close>

text \<open>
  Models the probes of \<open>uvb76/probe/probe.go\<close> and \<open>icmp.go\<close>, which tie the components together: a
  probe reads the window of earlier samples, records its own result, has the detector judge
  it and triggers a diagnostic capture for every event, with the capture service wired to the
  manager as \<open>main.go\<close> does it. One probe is one function here, as if nothing interrupted it; the
  interleaving of its manager operations with others is covered by the operation sequences of
  the manager and the steps of the capture service.

  The network is an argument: what the request or the ping came to, its latency, the trace
  and the TCP evidence, the clock and the generated event ids.
\<close>

subsection \<open>Classification of a status\<close>

text \<open>Whether the probe counts as successful, and the reason if not.\<close>

definition ClassifyHTTPProbeStatus :: "int \<Rightarrow> bool \<times> string" where
  "ClassifyHTTPProbeStatus statusCode =
     (if statusCode \<ge> 200 \<and> statusCode < 400 then (True, [])
      else if statusCode \<ge> 500
        then (False, if statusCode = 503 then ''http_probe_503''
                     else if statusCode = 502 then ''http_probe_502''
                     else if statusCode = 504 then ''http_probe_504''
                     else ''http_probe_5xx'')
      else if statusCode \<ge> 400
        then (False, if statusCode = 404 then ''http_probe_404'' else ''http_probe_4xx'')
      else (False, ''http_probe_unexpected_status_'' @ show_int statusCode))"

subsection \<open>The HTTP client\<close>

datatype reachability_state = StateUnknown | StateReachable | StateUnreachable

record http_client =
  hc_cfg :: http_probe_config
  hc_diag :: "diag_service option"
  hc_last :: "string \<rightharpoonup> reachability_state"

text \<open>
  What became of the request: it could not be built, it failed, or it was answered. The code builds it
  twice from the same arguments and treats a failure alike.
\<close>

datatype request_result =
    NotBuilt string
  | NoResponse string
  | Answered int

record probe_env =
  pe_result :: request_result
  pe_latency :: f64
  pe_recorded :: time
  pe_sampled :: time
  pe_collected :: time
  pe_triggered :: time
  pe_finished :: time
  pe_event :: string
  pe_recovery_event :: string
  pe_trace :: "http_trace option"
  pe_tcp :: "tcp_quality option"

text \<open>
  The validator of the wired service reads the manager's timelines and captures at the time of the
  decision, so the service is refreshed from the manager before each use.
\<close>

definition timeline :: "manager \<Rightarrow> string \<Rightarrow> string \<Rightarrow> spike_event list" where
  "timeline m targetID probeKind = (case GetManagerSpikes targetID probeKind 0 m of Some (evs, _) \<Rightarrow> evs | None \<Rightarrow> [])"

definition live_service :: "manager \<Rightarrow> diag_service \<Rightarrow> diag_service" where
  "live_service m sv = sv\<lparr>sv_validator := map_option
     (\<lambda>_. ValidateAnchorWithCaptureStatus (timeline m) (\<lambda>e. GetCaptures e (GetCaptureStore m))) (sv_validator sv)\<rparr>"

text \<open>The captures started so far, with the arguments of their goroutines.\<close>

type_synonym started = "(diag_peer \<times> string \<times> string \<times> string) list"

definition triggerDiagCapture ::
  "diag_service option \<Rightarrow> time \<Rightarrow> time \<Rightarrow> string \<Rightarrow> string \<Rightarrow> string \<Rightarrow> manager \<Rightarrow> started \<times> manager" where
  "triggerDiagCapture diag now fin eventID targetID probeKind m =
     (case diag of
        None \<Rightarrow> ([], m)
      | Some sv \<Rightarrow>
          (case TriggerCapture (live_service m sv) now fin eventID targetID probeKind (GetCaptureStore m) of
             (Recorded, store) \<Rightarrow> ([], on_store (\<lambda>_. store) m)
           | (Started peer, store) \<Rightarrow> ([(peer, eventID, targetID, probeKind)], on_store (\<lambda>_. store) m)))"

text \<open>Detection followed by the trigger for the event, if there is one.\<close>

definition trigger_for ::
  "diag_service option \<Rightarrow> probe_env \<Rightarrow> string \<Rightarrow> string \<Rightarrow> (spike_event option \<times> manager) option \<Rightarrow> (started \<times> manager) option" where
  "trigger_for diag env targetID probeKind r =
     map_option (\<lambda>(spike, m). case spike of
         None \<Rightarrow> ([], m)
       | Some ev \<Rightarrow> triggerDiagCapture diag (pe_triggered env) (pe_finished env) (ev_id ev) targetID probeKind m) r"

definition http_obs :: "probe_env \<Rightarrow> string \<Rightarrow> f64 \<Rightarrow> bool \<Rightarrow> int option \<Rightarrow> string option \<Rightarrow> probe_obs" where
  "http_obs env targetID latency reached status err =
     \<lparr>po_target = targetID, po_kind = ''http'', po_latency = latency, po_ts = pe_sampled env, po_reached = reached,
      po_delay = None, po_status = status, po_error = err, po_trace = pe_trace env, po_tcp = pe_tcp env\<rparr>"

definition bare_obs :: "probe_obs \<Rightarrow> probe_obs" where
  "bare_obs p = p\<lparr>po_trace := None, po_tcp := None\<rparr>"

definition set_last :: "string \<Rightarrow> bool \<Rightarrow> http_client \<Rightarrow> http_client" where
  "set_last targetID reached c = c\<lparr>hc_last := (hc_last c)(targetID \<mapsto> (if reached then StateReachable else StateUnreachable))\<rparr>"

definition probeTarget :: "target_config \<Rightarrow> probe_env \<Rightarrow> http_client \<Rightarrow> manager \<Rightarrow> (started \<times> http_client \<times> manager) option" where
  "probeTarget t env c m =
     (let maxSamples = (if hp_recent_max (hc_cfg c) < 30 then 30 else hp_recent_max (hc_cfg c));
          previousWindow = GetHTTPSampleWindow (tg_id t) maxSamples m;
          timeoutMs = f_of_int (hp_timeout_ms (hc_cfg c))
      in case pe_result env of
           NotBuilt e \<Rightarrow>
             Option.bind (RecordLatency (pe_recorded env) (tg_id t) timeoutMs False m) (\<lambda>m1.
               map_option (\<lambda>(started, m2). (started, c, m2))
                 (trigger_for (hc_diag c) env (tg_id t) ''http''
                    (DetectAndRecordSpikeWithWindow (pe_event env) (pe_collected env)
                       (bare_obs (http_obs env (tg_id t) timeoutMs False None (Some (''request creation failed: '' @ e)))) previousWindow m1)))
         | NoResponse e \<Rightarrow>
             Option.bind (RecordLatency (pe_recorded env) (tg_id t) (pe_latency env) False m) (\<lambda>m1.
               map_option (\<lambda>(started, m2). (started, set_last (tg_id t) False c, m2))
                 (trigger_for (hc_diag c) env (tg_id t) ''http''
                    (DetectAndRecordSpikeWithWindowAndTcpQuality (pe_event env) (pe_collected env)
                       (http_obs env (tg_id t) (pe_latency env) False None (Some (''request failed: '' @ e))) previousWindow m1)))
         | Answered httpStatus \<Rightarrow>
             (let (reachable, reason) = ClassifyHTTPProbeStatus httpStatus;
                  wasUnreachable = map_get StateUnknown (hc_last c) (tg_id t) = StateUnreachable;
                  c1 = set_last (tg_id t) reachable c
              in Option.bind (RecordLatency (pe_recorded env) (tg_id t) (pe_latency env) reachable m) (\<lambda>m1.
                   Option.bind
                     (trigger_for (hc_diag c) env (tg_id t) ''http''
                       (DetectAndRecordSpikeWithWindowAndTcpQuality (pe_event env) (pe_collected env)
                         (http_obs env (tg_id t) (pe_latency env) reachable (Some httpStatus)
                            (if reachable then None else Some (reason @ '': HTTP '' @ show_int httpStatus))) previousWindow m1))
                     (\<lambda>(started, m2).
                        if reachable \<and> wasUnreachable
                        then map_option (\<lambda>(started', m3). (started @ started', c1, m3))
                               (trigger_for (hc_diag c) env (tg_id t) ''http''
                                 (RecordManagerRecoveryWithWindow (pe_recovery_event env) (pe_collected env)
                                   (http_obs env (tg_id t) (pe_latency env) True (Some httpStatus) None) previousWindow m2))
                        else Some (started, c1, m2)))))"

subsection \<open>The ICMP client\<close>

text \<open>The ping's error, or none; the host is empty when it cannot be extracted from the base URL.\<close>

definition MaxICMPSpikeDetectionSamples :: int where "MaxICMPSpikeDetectionSamples = 120"

definition probeICMP ::
  "icmp_probe_config \<Rightarrow> diag_service option \<Rightarrow> target_config \<Rightarrow> string \<Rightarrow> string option \<Rightarrow> probe_env \<Rightarrow> manager \<Rightarrow> (started \<times> manager) option" where
  "probeICMP cfg diag t host pingError env m =
     (if \<not> tg_enabled t then Some ([], m)
      else let previousWindow = GetICMPSampleWindow (tg_id t) MaxICMPSpikeDetectionSamples m;
               timeoutMs = f_of_int (wrap64 (ip_timeout cfg * 1000));
               obs = (\<lambda>latency reached err. \<lparr>po_target = tg_id t, po_kind = ''icmp'', po_latency = latency, po_ts = pe_sampled env,
                  po_reached = reached, po_delay = None, po_status = None, po_error = err, po_trace = None, po_tcp = None\<rparr>);
               finish = (\<lambda>latency reached err. Option.bind (RecordICMPLatency (pe_recorded env) (tg_id t) latency reached m)
                  (\<lambda>m1. trigger_for diag env (tg_id t) ''icmp''
                     (DetectAndRecordSpikeWithWindow (pe_event env) (pe_collected env) (obs latency reached err) previousWindow m1)))
           in if host = [] then finish timeoutMs False (Some ''failed to extract host from base_url'')
              else case pingError of
                     Some e \<Rightarrow> finish (pe_latency env) False (Some (''ping failed: '' @ e))
                   | None \<Rightarrow> finish (pe_latency env) True None)"

subsection \<open>The reason of a status survives the error text\<close>

lemma contains_iff: "contains s t \<longleftrightarrow> str_contains s t"
proof (cases "t = []")
  case True
  moreover have "\<exists>u v. s = u @ v" by (rule exI[of _ "[]"]) simp
  ultimately show ?thesis by (simp add: contains_def str_contains_iff)
next
  case False
  have "contains s t \<longleftrightarrow> (\<exists>i. i + length t \<le> length s \<and> take (length t) (drop i s) = t)"
  proof -
    have "contains s t \<longleftrightarrow> length t \<le> length s \<and> (\<exists>i \<in> {0..<length s - length t + 1}. take (length t) (drop i s) = t)"
      using False by (simp add: contains_def list_ex_iff del: upt_Suc)
    also have "\<dots> \<longleftrightarrow> (\<exists>i. i + length t \<le> length s \<and> take (length t) (drop i s) = t)"
    proof -
      have "i < length s - length t + 1 \<longleftrightarrow> i + length t \<le> length s" if "length t \<le> length s" for i using that by linarith
      then show ?thesis by (metis add_leD2 atLeastLessThan_iff le0)
    qed
    finally show ?thesis .
  qed
  also have "\<dots> \<longleftrightarrow> (\<exists>u v. s = u @ t @ v)"
  proof
    assume "\<exists>i. i + length t \<le> length s \<and> take (length t) (drop i s) = t"
    then obtain i where "take (length t) (drop i s) = t" by blast
    then have "s = take i s @ t @ drop (length t) (drop i s)" by (metis append_take_drop_id)
    then show "\<exists>u v. s = u @ t @ v" by blast
  next
    assume "\<exists>u v. s = u @ t @ v"
    then obtain u v where "s = u @ t @ v" by blast
    then have "length u + length t \<le> length s \<and> take (length t) (drop (length u) s) = t" by simp
    then show "\<exists>i. i + length t \<le> length s \<and> take (length t) (drop i s) = t" by blast
  qed
  finally show ?thesis by (simp add: str_contains_iff)
qed

text \<open>A text ends in characters that the pattern cannot end with, or is cut by a character that it has not.\<close>

lemma str_contains_tail:
  assumes "t \<noteq> []" "last t \<notin> set v"
  shows "str_contains (u @ v) t \<longleftrightarrow> str_contains u t"
proof
  assume "str_contains (u @ v) t"
  then obtain a b where ab: "u @ v = a @ t @ b" unfolding str_contains_iff by blast
  show "str_contains u t"
  proof (cases "length (a @ t) \<le> length u")
    case True
    then have "u = (a @ t) @ take (length u - length (a @ t)) b"
      using arg_cong[OF ab, of "take (length u)"] by simp
    then show ?thesis unfolding str_contains_iff by (metis append_assoc)
  next
    case False
    let ?i = "length (a @ t) - 1"
    have i: "?i \<ge> length u" "?i - length u < length v" using False assms(1) arg_cong[OF ab, of length]
      by (cases t; simp)+
    have "last t = (u @ v) ! ?i"
      unfolding ab using assms(1) by (cases t rule: rev_cases) (simp_all add: nth_append)
    then have "last t = v ! (?i - length u)" using i by (simp add: nth_append)
    then show ?thesis using assms(2) nth_mem[OF i(2)] by simp
  qed
next
  assume "str_contains u t"
  then show "str_contains (u @ v) t" unfolding str_contains_iff by (metis append_assoc)
qed

lemma str_contains_cut:
  assumes "x \<notin> set t"
  shows "str_contains (u @ x # v) t \<longleftrightarrow> str_contains u t \<or> str_contains v t"
proof
  assume "str_contains (u @ x # v) t"
  then obtain a b where ab: "u @ x # v = a @ t @ b" unfolding str_contains_iff by blast
  show "str_contains u t \<or> str_contains v t"
  proof (cases "length (a @ t) \<le> length u")
    case True
    then have "u = (a @ t) @ take (length u - length (a @ t)) b"
      using arg_cong[OF ab, of "take (length u)"] by simp
    then show ?thesis unfolding str_contains_iff by (metis append_assoc)
  next
    case False
    show ?thesis
    proof (cases "length u < length a")
      case True
      then have "v = drop (length u + 1) a @ t @ b"
        using arg_cong[OF ab, of "drop (length u + 1)"] by simp
      then show ?thesis unfolding str_contains_iff by blast
    next
      case le: False
      have x: "x = (a @ t @ b) ! length u" using arg_cong[OF ab, of "\<lambda>l. l ! length u"] by simp
      have "length u - length a < length t" using le False by simp
      then have "(a @ t @ b) ! length u = t ! (length u - length a)" "length u - length a < length t"
        using le by (simp_all add: nth_append)
      then have "x \<in> set t" using x by simp
      then show ?thesis using assms by simp
    qed
  qed
next
  assume "str_contains u t \<or> str_contains v t"
  then show "str_contains (u @ x # v) t"
    unfolding str_contains_iff by (metis append_assoc append_Cons)
qed

lemma digit_lower: "digit_string s \<Longrightarrow> lower s = s"
  by (auto simp: digit_string_def lower_def lower_char_def Let_def intro!: map_idI)

lemma digit_not_contains: "digit_string v \<Longrightarrow> \<not> digit_string t \<Longrightarrow> \<not> str_contains v t"
  unfolding str_contains_iff by (auto simp: digit_string_def)

lemma digit_last: "digit_string v \<Longrightarrow> t \<noteq> [] \<Longrightarrow> \<not> digit_string [last t] \<Longrightarrow> last t \<notin> set v"
  by (auto simp: digit_string_def)

lemma text_contains:
  assumes "digit_string v"
  shows "\<not> digit_string [last t] \<Longrightarrow> t \<noteq> [] \<Longrightarrow> contains (u @ '' '' @ v) t \<longleftrightarrow> str_contains (u @ '' '') t"
    "\<not> digit_string t \<Longrightarrow> CHR '' '' \<notin> set t \<Longrightarrow> contains (u @ '' '' @ v) t \<longleftrightarrow> str_contains u t"
  using str_contains_tail[OF _ digit_last[OF assms], of t "u @ '' ''"] str_contains_cut[of "CHR '' ''" t u v]
    digit_not_contains[OF assms, of t]
  by (simp_all add: contains_iff)

lemma classify_status_text:
  assumes v: "digit_string v"
    and r: "list_all (\<lambda>x. \<not> str_contains (lower r @ '': http '') x) [''timeout'', ''deadline'', ''connection refused'', ''no such host'',
      ''lookup'', ''dial'', ''connection reset'', ''http_probe_timeout'']"
  shows "classify_error (lower (r @ '': HTTP '' @ v)) =
    (let c = str_contains (lower r @ '': http'') in
     if c ''http_probe_503'' then ''http_probe_503'' else if c ''http_probe_502'' then ''http_probe_502''
     else if c ''http_probe_504'' then ''http_probe_504'' else if c ''http_probe_5xx'' then ''http_probe_5xx''
     else if c ''http_probe_404'' then ''http_probe_404'' else if c ''http_probe_4xx'' then ''http_probe_4xx''
     else ''http_probe_failure'')"
proof -
  have l: "lower (r @ '': HTTP '' @ v) = (lower r @ '': http'') @ '' '' @ v"
  proof -
    have "lower '': HTTP '' = '': http ''" by code_simp
    then show ?thesis using digit_lower[OF v] by (simp add: lower_def)
  qed
  let ?e = "(lower r @ '': http'') @ '' '' @ v"
  have found: "contains ?e p = str_contains (lower r @ '': http'') p" if "list_ex (\<lambda>c. c = CHR ''h'') p" "CHR '' '' \<notin> set p" for p
    by (rule text_contains(2)[OF v]) (use that in \<open>auto simp: digit_string_def list_ex_iff intro!: bexI[of _ "CHR ''h''"]\<close>)
  have free: "\<not> contains ?e p" if "p \<noteq> []" "\<not> digit_string [last p]" "\<not> str_contains (lower r @ '': http '') p" for p
    using text_contains(1)[OF v that(2,1), of "lower r @ '': http''"] that(3) by simp
  have no: "\<not> contains ?e ''timeout''" "\<not> contains ?e ''deadline''" "\<not> contains ?e ''connection refused''"
    "\<not> contains ?e ''no such host''" "\<not> contains ?e ''lookup''" "\<not> contains ?e ''dial''"
    "\<not> contains ?e ''connection reset''" "\<not> contains ?e ''http_probe_timeout''"
    by (rule free, simp, simp add: digit_string_def, use r in \<open>simp only: list.pred_inject simp_thms\<close>)+
  have yes: "contains ?e ''http_probe_503'' = str_contains (lower r @ '': http'') ''http_probe_503''"
    "contains ?e ''http_probe_502'' = str_contains (lower r @ '': http'') ''http_probe_502''"
    "contains ?e ''http_probe_504'' = str_contains (lower r @ '': http'') ''http_probe_504''"
    "contains ?e ''http_probe_5xx'' = str_contains (lower r @ '': http'') ''http_probe_5xx''"
    "contains ?e ''http_probe_404'' = str_contains (lower r @ '': http'') ''http_probe_404''"
    "contains ?e ''http_probe_4xx'' = str_contains (lower r @ '': http'') ''http_probe_4xx''"
    by (rule found, simp, simp)+
  show ?thesis unfolding l classify_error_def Let_def by (simp only: no yes if_False simp_thms)
qed

lemma status_text_reason:
  assumes "digit_string v" "r \<in> set [''http_probe_503'', ''http_probe_502'', ''http_probe_504'', ''http_probe_5xx'', ''http_probe_404'', ''http_probe_4xx'']"
  shows "failure_reason (Some (r @ '': HTTP '' @ v)) = r"
proof -
  consider "r = ''http_probe_503''" | "r = ''http_probe_502''" | "r = ''http_probe_504''" | "r = ''http_probe_5xx''"
    | "r = ''http_probe_404''" | "r = ''http_probe_4xx''" using assms(2) by auto
  then have "classify_error (lower (r @ '': HTTP '' @ v)) = r"
  proof cases
    case 1
    show ?thesis unfolding 1 by (subst classify_status_text[OF assms(1)]; code_simp)
  next
    case 2
    show ?thesis unfolding 2 by (subst classify_status_text[OF assms(1)]; code_simp)
  next
    case 3
    show ?thesis unfolding 3 by (subst classify_status_text[OF assms(1)]; code_simp)
  next
    case 4
    show ?thesis unfolding 4 by (subst classify_status_text[OF assms(1)]; code_simp)
  next
    case 5
    show ?thesis unfolding 5 by (subst classify_status_text[OF assms(1)]; code_simp)
  next
    case 6
    show ?thesis unfolding 6 by (subst classify_status_text[OF assms(1)]; code_simp)
  qed
  then show ?thesis by (simp add: failure_reason_def)
qed

text \<open>
  The reason of an error status reaches the event unchanged. The probe puts its classification
  into a free text together with the status; the detector classifies that text again by
  searching it, and for every client and server error it finds exactly the reason the probe
  meant, although the reasons are searched in another order and among other patterns.
\<close>

theorem status_reason_kept:
  assumes "400 \<le> code"
  shows "\<not> fst (ClassifyHTTPProbeStatus code)
    \<and> failure_reason (Some (snd (ClassifyHTTPProbeStatus code) @ '': HTTP '' @ show_int code)) = snd (ClassifyHTTPProbeStatus code)"
proof -
  have "digit_string (show_int code)" using assms show_nat_digits by (simp add: show_int_def del: show_nat.simps)
  moreover have "snd (ClassifyHTTPProbeStatus code) \<in> set [''http_probe_503'', ''http_probe_502'', ''http_probe_504'', ''http_probe_5xx'',
      ''http_probe_404'', ''http_probe_4xx'']"
    using assms by (simp add: ClassifyHTTPProbeStatus_def)
  ultimately show ?thesis using status_text_reason[of "show_int code"] assms by (simp add: ClassifyHTTPProbeStatus_def)
qed

lemma status_reason_kept_witness:
  "failure_reason (Some (''http_probe_4xx: HTTP '' @ show_int 429)) = ''http_probe_4xx''"
  using status_reason_kept[of 429] by (simp add: ClassifyHTTPProbeStatus_def del: show_int_def)

text \<open>A status below 200 loses its reason on the way.\<close>

lemma unexpected_status_reason_lost:
  "ClassifyHTTPProbeStatus 101 = (False, ''http_probe_unexpected_status_101'')
   \<and> failure_reason (Some (''http_probe_unexpected_status_101: HTTP 101'')) = ''http_probe_failure''"
  by code_simp

end
