(* ===== verification/Probe_Evidence.thy ===== *)
theory Probe_Evidence
  imports Probe_Client
begin

section \<open>What probes leave behind\<close>

text \<open>
  Properties of the probes of \<open>Probe_Client\<close> that span the components: the sample in the manager's
  tracker, the event in the detector's timeline, the capture in the store or started by the
  service, and the recovery events.
\<close>

subsection \<open>A failed probe\<close>

definition probe_failed :: "request_result \<Rightarrow> bool" where
  "probe_failed r = (case r of Answered code \<Rightarrow> \<not> fst (ClassifyHTTPProbeStatus code) | _ \<Rightarrow> True)"

definition probe_latency :: "http_client \<Rightarrow> probe_env \<Rightarrow> f64" where
  "probe_latency c env = (case pe_result env of NotBuilt e \<Rightarrow> f_of_int (hp_timeout_ms (hc_cfg c)) | _ \<Rightarrow> pe_latency env)"

definition failure_text :: "request_result \<Rightarrow> string" where
  "failure_text r = (case r of
     NotBuilt e \<Rightarrow> ''request creation failed: '' @ e
   | NoResponse e \<Rightarrow> ''request failed: '' @ e
   | Answered code \<Rightarrow> snd (ClassifyHTTPProbeStatus code) @ '': HTTP '' @ show_int code)"

text \<open>The detector's part, on the manager.\<close>

lemma timeline_events: "det_ok (mg_detector m) \<Longrightarrow> timeline m t k = rev (det_events (mg_detector m) t k)"
  using GetSpikes_evolves[OF current_detector_fields(3), of m t k 0]
  by (auto simp: timeline_def GetManagerSpikes_def with_detector_def current_detector_fields)

lemma detect_failure:
  assumes ok: "manager_ok m" and p: "po_kind p = ''http''" "\<not> po_reached p"
  shows "\<exists>ev m'. DetectAndRecordSpikeWithWindowAndTcpQuality eid now p w m = Some (Some ev, m') \<and> detector_step m m'
    \<and> ev_id ev = eid \<and> ev_severity ev = ''critical'' \<and> ev_reasons ev \<noteq> [] \<and> hd (ev_reasons ev) = failure_reason (po_error p)
    \<and> ev_latency ev = po_latency p \<and> timeline m' (po_target p) ''http'' \<noteq> [] \<and> hd (timeline m' (po_target p) ''http'') = ev"
proof -
  let ?sd = "current_detector m"
  have det: "det_ok ?sd" using ok by (simp add: manager_ok_def current_detector_fields)
  have th: "kind_thresholds (po_kind p) (det_config ?sd) = Some (sc_http_warning (det_config ?sd), sc_http_critical (det_config ?sd))"
    by (simp add: p kind_thresholds_def)
  obtain rel where r: "DetectAndRecordWithWindowAndTcpQuality eid now p w ?sd = record_windowed eid now p ''critical'' (window_median w)
       (failure_reason (po_error p) # relative_reason rel) (sc_http_warning (det_config ?sd)) (sc_http_critical (det_config ?sd)) w ?sd"
    unfolding DetectAndRecordWithWindowAndTcpQuality_def th recordHTTPFailureEvent_def Let_def using p by (simp add: Let_def)
  obtain ev sd' where ev: "DetectAndRecordWithWindowAndTcpQuality eid now p w ?sd = Some (Some ev, sd')" "record_event ev ?sd = Some sd'"
    "ev_severity ev = ''critical''" "ev_reasons ev = failure_reason (po_error p) # relative_reason rel" "ev_target ev = po_target p"
    "ev_kind ev = ''http''" "ev_latency ev = po_latency p" "ev_id ev = eid"
    using window_record[OF det, where eid = eid and now = now and p = p and sev = "''critical''" and m = "window_median w"
        and rs = "failure_reason (po_error p) # relative_reason rel" and w = "sc_http_warning (det_config ?sd)"
        and c = "sc_http_critical (det_config ?sd)" and win = w] p unfolding r by (elim exE conjE) simp
  have step: "detector_step m (m\<lparr>mg_detector := sd'\<rparr>)"
    using detections_evolve(3)[OF det, of eid now p w] ev(1) by (auto simp: detector_step_def)
  have ok': "det_ok (mg_detector (m\<lparr>mg_detector := sd'\<rparr>))" using detector_step_ok[OF step ok] by (simp add: manager_ok_def)
  note n = record_event_newest[OF det ev(2), unfolded ev(5,6)]
  have "DetectAndRecordSpikeWithWindowAndTcpQuality eid now p w m = Some (Some ev, m\<lparr>mg_detector := sd'\<rparr>)"
    by (simp add: DetectAndRecordSpikeWithWindowAndTcpQuality_def with_detector_def ev(1))
  then show ?thesis using ev step n timeline_events[OF ok', of "po_target p" "''http''"] by (auto simp: hd_rev)
qed

lemma tracker_newest:
  assumes i: "tracker_inv lt"
  shows "GetRecentSamples 1 (record_result (l, r, now) lt) = [\<lparr>ls_ts = now, ls_ms = l, ls_reach = r, ls_err = []\<rparr>]"
proof -
  let ?lt = "record_result (l, r, now) lt"
  have ri: "ring_inv ?lt" using ring.push_ok[OF i] by (simp add: tracker_inv_def)
  have "0 < nat (lt_max lt)" using i by (simp add: tracker_inv_def ring_inv_def)
  from ring.push_newest[OF i TrueI this, of "(l, r, now)"]
  have "contents ?lt \<noteq> []" "last (contents ?lt) = \<lparr>ls_ts = now, ls_ms = l, ls_reach = r, ls_err = []\<rparr>"
    by (simp_all add: result_sample_def)
  then have "take_last 1 (contents ?lt) = [\<lparr>ls_ts = now, ls_ms = l, ls_reach = r, ls_err = []\<rparr>]"
    by (cases "contents ?lt" rule: rev_cases) (simp_all add: take_last_def)
  then show ?thesis using newest_reads(1)[OF ri, of 1] by simp
qed

lemma record_latency_newest:
  assumes ok: "manager_ok m"
  shows "\<exists>m'. RecordLatency now t l r m = Some m' \<and> manager_ok m'
    \<and> GetRecentLatencySamples t 1 m' = [\<lparr>ls_ts = now, ls_ms = l, ls_reach = r, ls_err = []\<rparr>]"
proof -
  obtain m' where m': "run_op (OpHTTP now t l r) m = Some m'" "manager_ok m'" using run_op_ok[OF ok] by blast
  obtain lt where lt: "tracker_for (mg_http m) (mg_buckets m) (mg_max m) t = Some lt" "tracker_inv lt"
    using record_tracker[of "mg_http m" "mg_buckets m" "mg_max m" t "(l, r, now)"] ok by (auto simp: manager_ok_def)
  have m: "m' = m\<lparr>mg_http := (mg_http m)(t \<mapsto> record_result (l, r, now) lt)\<rparr>"
    using m'(1) lt(1) by (simp add: RecordLatency_def Record_result)
  have "clamp_limit 1 (mg_max m) = 1" using ok by (simp add: clamp_limit_def manager_ok_def)
  then show ?thesis using m' tracker_newest[OF lt(2), of l r now] by (auto simp: GetRecentLatencySamples_def m)
qed

lemma latency_untouched:
  "detector_step m m' \<Longrightarrow> GetRecentLatencySamples t n m' = GetRecentLatencySamples t n m"
  "GetRecentLatencySamples t n (on_store f m) = GetRecentLatencySamples t n m"
  by (auto simp: detector_step_def on_store_def GetRecentLatencySamples_def split: option.split)

lemma timeline_untouched: "det_ok (mg_detector m) \<Longrightarrow> timeline (on_store f m) t k = timeline m t k"
  using timeline_events[of m t k] timeline_events[of "on_store f m" t k] by (simp add: on_store_def)

lemma triggered:
  assumes ok: "manager_ok m" and t: "triggerDiagCapture (Some sv) now fin e target kind m = (started, m')"
  shows "manager_ok m' \<and> (\<exists>f. m' = on_store f m)
    \<and> (started = [] \<and> GetCaptures e (mg_captures m') \<noteq> []
       \<or> (\<exists>peer. started = [(peer, e, target, kind)] \<and> service_enabled sv \<and> service_peers sv target = Some peer
            \<and> \<not> IsInFlight (dp_name peer) (mg_captures m) \<and> IsInFlight (dp_name peer) (mg_captures m')))"
proof -
  let ?sv = "live_service m sv"
  have sv: "service_enabled ?sv = service_enabled sv" "service_peers ?sv = service_peers sv"
    by (simp_all add: live_service_def service_enabled_def service_peers_def)
  obtain r s where r: "TriggerCapture ?sv now fin e target kind (mg_captures m) = (r, s)" by fastforce
  have "store_ok (mg_captures m)" using ok by (simp add: manager_ok_def)
  note eff = trigger_effect[OF this, where sv = ?sv and now = now and fin = fin and e = e and target = target and kind = kind, unfolded r]
  have m': "m' = on_store (\<lambda>_. s) m" using t r by (cases r) (simp_all add: triggerDiagCapture_def GetCaptureStore_def)
  show ?thesis using t r eff ok sv m' by (cases r)
      (auto simp: triggerDiagCapture_def GetCaptureStore_def manager_ok_def on_store_def)
qed

text \<open>The evidence a failed probe leaves.\<close>

definition evidence :: "http_client \<Rightarrow> string \<Rightarrow> probe_env \<Rightarrow> started \<Rightarrow> manager \<Rightarrow> manager \<Rightarrow> bool" where
  "evidence c t env started m m' \<longleftrightarrow>
     GetRecentLatencySamples t 1 m' = [\<lparr>ls_ts = pe_recorded env, ls_ms = probe_latency c env, ls_reach = False, ls_err = []\<rparr>]
     \<and> timeline m' t ''http'' \<noteq> []
     \<and> (let ev = hd (timeline m' t ''http'')
        in ev_id ev = pe_event env \<and> ev_severity ev = ''critical'' \<and> ev_latency ev = probe_latency c env
           \<and> ev_reasons ev \<noteq> [] \<and> hd (ev_reasons ev) = failure_reason (Some (failure_text (pe_result env))))
     \<and> (case hc_diag c of
          None \<Rightarrow> started = []
        | Some sv \<Rightarrow> started = [] \<and> GetCaptures (pe_event env) (mg_captures m') \<noteq> []
            \<or> (\<exists>peer. started = [(peer, pe_event env, t, ''http'')] \<and> service_peers sv t = Some peer
                 \<and> \<not> IsInFlight (dp_name peer) (mg_captures m) \<and> IsInFlight (dp_name peer) (mg_captures m')))"

lemma failure_core:
  assumes ok: "manager_ok m"
    and p: "po_target p = t" "po_kind p = ''http''" "\<not> po_reached p" "po_error p = Some (failure_text (pe_result env))" "po_latency p = probe_latency c env"
  shows "\<exists>m1 started m2. RecordLatency (pe_recorded env) t (probe_latency c env) False m = Some m1
    \<and> trigger_for (hc_diag c) env t ''http'' (DetectAndRecordSpikeWithWindowAndTcpQuality (pe_event env) (pe_collected env) p w m1)
        = Some (started, m2) \<and> manager_ok m2 \<and> evidence c t env started m m2"
proof -
  obtain m1 where m1: "RecordLatency (pe_recorded env) t (probe_latency c env) False m = Some m1" "manager_ok m1"
    "GetRecentLatencySamples t 1 m1 = [\<lparr>ls_ts = pe_recorded env, ls_ms = probe_latency c env, ls_reach = False, ls_err = []\<rparr>]"
    using record_latency_newest[OF ok] by blast
  have store1: "mg_captures m1 = mg_captures m" using m1(1) by (auto simp: RecordLatency_def)
  obtain ev m2 where ev: "DetectAndRecordSpikeWithWindowAndTcpQuality (pe_event env) (pe_collected env) p w m1 = Some (Some ev, m2)"
    "detector_step m1 m2" "ev_id ev = pe_event env" "ev_severity ev = ''critical''" "ev_reasons ev \<noteq> []"
    "hd (ev_reasons ev) = failure_reason (po_error p)" "ev_latency ev = po_latency p"
    "timeline m2 t ''http'' \<noteq> []" "hd (timeline m2 t ''http'') = ev"
    using detect_failure[OF m1(2) p(2,3), of "pe_event env" "pe_collected env" w] p(1) by blast
  have ok2: "manager_ok m2" using detector_step_ok[OF ev(2) m1(2)] .
  have store2: "mg_captures m2 = mg_captures m" using ev(2) store1 by (auto simp: detector_step_def)
  have lat2: "GetRecentLatencySamples t 1 m2 = GetRecentLatencySamples t 1 m1" by (rule latency_untouched(1)[OF ev(2)])
  have det2: "det_ok (mg_detector m2)" using ok2 by (simp add: manager_ok_def)
  show ?thesis
  proof (cases "hc_diag c")
    case None
    then show ?thesis using m1 ev ok2 lat2 p
      by (simp add: trigger_for_def triggerDiagCapture_def evidence_def Let_def)
  next
    case (Some sv)
    obtain started m3 where t: "triggerDiagCapture (Some sv) (pe_triggered env) (pe_finished env) (pe_event env) t ''http'' m2 = (started, m3)"
      by fastforce
    note tr = triggered[OF ok2 t]
    then obtain f where f: "m3 = on_store f m2" by blast
    have "timeline m3 t ''http'' = timeline m2 t ''http''" "GetRecentLatencySamples t 1 m3 = GetRecentLatencySamples t 1 m2"
      unfolding f by (rule timeline_untouched[OF det2], rule latency_untouched(2))
    then have "evidence c t env started m m3" using m1(3) ev p lat2 tr Some store2
      by (auto simp: evidence_def Let_def)
    then show ?thesis using m1 ev tr Some t by (simp add: trigger_for_def)
  qed
qed

text \<open>
  C1. A failed HTTP probe always leaves evidence. Whether the request could not be built, got no
  response or was answered with an unhealthy status, and whatever the state of the manager, the
  probe returns; the newest HTTP sample of the target is then its failure, the newest event
  of the timeline is a critical one with the probe's id and the reason classified from its
  error, and, with a capture service, either a capture is recorded for the event or one is
  started for the target's peer, which was not in flight before and now is.
\<close>

theorem failed_probe_leaves_evidence:
  assumes ok: "manager_ok m" and failed: "probe_failed (pe_result env)"
  shows "\<exists>started c' m'. probeTarget t env c m = Some (started, c', m') \<and> manager_ok m' \<and> evidence c (tg_id t) env started m m'"
proof -
  define w where "w = GetHTTPSampleWindow (tg_id t) (if hp_recent_max (hc_cfg c) < 30 then 30 else hp_recent_max (hc_cfg c)) m"
  show ?thesis
  proof (cases "pe_result env")
    case (NotBuilt e)
    have l: "probe_latency c env = f_of_int (hp_timeout_ms (hc_cfg c))" "failure_text (pe_result env) = ''request creation failed: '' @ e"
      by (simp_all add: probe_latency_def failure_text_def NotBuilt)
    define p where "p = bare_obs (http_obs env (tg_id t) (probe_latency c env) False None (Some (''request creation failed: '' @ e)))"
    have p: "po_target p = tg_id t" "po_kind p = ''http''" "\<not> po_reached p" "po_error p = Some (failure_text (pe_result env))"
      "po_latency p = probe_latency c env" "p\<lparr>po_tcp := None\<rparr> = p" by (simp_all add: p_def bare_obs_def http_obs_def l(2))
    obtain m1 st m2 where c: "RecordLatency (pe_recorded env) (tg_id t) (probe_latency c env) False m = Some m1"
      "trigger_for (hc_diag c) env (tg_id t) ''http'' (DetectAndRecordSpikeWithWindowAndTcpQuality (pe_event env) (pe_collected env) p w m1)
        = Some (st, m2)" "manager_ok m2" "evidence c (tg_id t) env st m m2"
      using failure_core[OF ok p(1-5), of w] by blast
    have "probeTarget t env c m = Some (st, c, m2)"
      unfolding probeTarget_def Let_def NotBuilt request_result.case l(1)[symmetric] p_def[symmetric] w_def[symmetric]
        detect_without_tcp(2) p(6) c(1) Option.bind.simps c(2) by simp
    then show ?thesis using c by blast
  next
    case (NoResponse e)
    have l: "probe_latency c env = pe_latency env" "failure_text (pe_result env) = ''request failed: '' @ e"
      by (simp_all add: probe_latency_def failure_text_def NoResponse)
    define p where "p = http_obs env (tg_id t) (probe_latency c env) False None (Some (''request failed: '' @ e))"
    have p: "po_target p = tg_id t" "po_kind p = ''http''" "\<not> po_reached p" "po_error p = Some (failure_text (pe_result env))"
      "po_latency p = probe_latency c env" by (simp_all add: p_def http_obs_def l(2))
    obtain m1 st m2 where c: "RecordLatency (pe_recorded env) (tg_id t) (probe_latency c env) False m = Some m1"
      "trigger_for (hc_diag c) env (tg_id t) ''http'' (DetectAndRecordSpikeWithWindowAndTcpQuality (pe_event env) (pe_collected env) p w m1)
        = Some (st, m2)" "manager_ok m2" "evidence c (tg_id t) env st m m2"
      using failure_core[OF ok p, of w] by blast
    have "probeTarget t env c m = Some (st, set_last (tg_id t) False c, m2)"
      unfolding probeTarget_def Let_def NoResponse request_result.case l(1)[symmetric] p_def[symmetric] w_def[symmetric]
        c(1) Option.bind.simps c(2) by simp
    then show ?thesis using c by blast
  next
    case (Answered code)
    then have un: "ClassifyHTTPProbeStatus code = (False, snd (ClassifyHTTPProbeStatus code))"
      using failed by (cases "ClassifyHTTPProbeStatus code") (simp add: probe_failed_def)
    have l: "probe_latency c env = pe_latency env"
      "failure_text (pe_result env) = snd (ClassifyHTTPProbeStatus code) @ '': HTTP '' @ show_int code"
      by (simp_all add: probe_latency_def failure_text_def Answered)
    define p where "p = http_obs env (tg_id t) (probe_latency c env) False (Some code) (Some (snd (ClassifyHTTPProbeStatus code) @ '': HTTP '' @ show_int code))"
    have p: "po_target p = tg_id t" "po_kind p = ''http''" "\<not> po_reached p" "po_error p = Some (failure_text (pe_result env))"
      "po_latency p = probe_latency c env" by (simp_all add: p_def http_obs_def l(2))
    obtain m1 st m2 where c: "RecordLatency (pe_recorded env) (tg_id t) (probe_latency c env) False m = Some m1"
      "trigger_for (hc_diag c) env (tg_id t) ''http'' (DetectAndRecordSpikeWithWindowAndTcpQuality (pe_event env) (pe_collected env) p w m1)
        = Some (st, m2)" "manager_ok m2" "evidence c (tg_id t) env st m m2"
      using failure_core[OF ok p, of w] by blast
    have "probeTarget t env c m = Some (st, set_last (tg_id t) False c, m2)"
      unfolding probeTarget_def Let_def Answered request_result.case
      by (subst un) (simp only: prod.case if_False l(1)[symmetric] p_def[symmetric] w_def[symmetric] c(1) Option.bind.simps c(2) simp_thms)
    then show ?thesis using c by blast
  qed
qed

subsection \<open>Recovery\<close>

text \<open>The events a detector step may add are those of the given id, for the given target and kind.\<close>

definition adds :: "string \<Rightarrow> spike_detector \<Rightarrow> spike_detector \<Rightarrow> bool" where
  "adds eid sd sd' \<longleftrightarrow> (\<forall>t k e. e \<in> set (det_events sd' t k) \<longrightarrow> e \<in> set (det_events sd t k) \<or> ev_id e = eid)"

lemma set_remove_first: "set (remove_first p xs) \<subseteq> set xs"
  by (induction xs) auto

lemma record_adds:
  assumes "det_ok sd" "record_event ev sd = Some sd'"
  shows "adds (ev_id ev) sd sd'"
proof -
  let ?t = "ev_target ev" and ?k = "ev_kind ev"
  obtain st where r: "det_events sd ?t ?k = st_events st" "det_events sd' ?t ?k = st_events (recordSpike ev (protection_of sd) st)"
    "\<forall>key. key \<noteq> tracker_key ?t ?k \<longrightarrow> det_trackers sd' key = det_trackers sd key"
    using record_event_Some[OF assms(1), of ev] assms(2) by auto
  have new: "set (st_events (recordSpike ev (protection_of sd) st)) \<subseteq> insert ev (set (st_events st))"
    using set_remove_first[of "purgeable (protection_of sd)" "st_events st"] by (auto simp: recordSpike_def Let_def)
  show ?thesis
  proof (unfold adds_def, intro allI impI)
    fix t k e assume e: "e \<in> set (det_events sd' t k)"
    show "e \<in> set (det_events sd t k) \<or> ev_id e = ev_id ev"
    proof (cases "tracker_key t k = tracker_key ?t ?k")
      case True
      then have "det_events sd t k = st_events st" "det_events sd' t k = st_events (recordSpike ev (protection_of sd) st)"
        using r(1,2) by (simp_all add: det_events_def)
      then show ?thesis using e new by auto
    next
      case False
      then show ?thesis using e r(3) by (simp add: det_events_def)
    qed
  qed
qed

lemma windowed_adds:
  assumes ok: "det_ok sd"
  shows "\<exists>x sd'. record_windowed eid now p sev md rs a b w sd = Some (x, sd') \<and> adds eid sd sd'"
proof -
  obtain ev sd' where "record_windowed eid now p sev md rs a b w sd = Some (Some ev, sd')" "record_event ev sd = Some sd'" "ev_id ev = eid"
    using window_record[OF ok, of eid now p sev md rs a b w] by blast
  then show ?thesis using record_adds[OF ok] by blast
qed

lemma detect_adds:
  assumes ok: "det_ok sd"
  shows "\<exists>x sd'. DetectAndRecordWithWindowAndTcpQuality eid now p w sd = Some (x, sd') \<and> adds eid sd sd'"
proof -
  have none: "adds eid sd sd" by (simp add: adds_def)
  show ?thesis
    unfolding DetectAndRecordWithWindowAndTcpQuality_def recordHTTPFailureEvent_def Let_def
    by (simp add: none windowed_adds[OF ok] split: option.split prod.split)
qed

text \<open>On the manager, for the probe's detection and for its recovery.\<close>

definition timeline_adds :: "string \<Rightarrow> manager \<Rightarrow> manager \<Rightarrow> bool" where
  "timeline_adds eid m m' \<longleftrightarrow> (\<forall>t k e. e \<in> set (timeline m' t k) \<longrightarrow> e \<in> set (timeline m t k) \<or> ev_id e = eid)"

lemma adds_timeline:
  assumes "manager_ok m" "manager_ok (m\<lparr>mg_detector := sd'\<rparr>)" "adds eid (current_detector m) sd'"
  shows "timeline_adds eid m (m\<lparr>mg_detector := sd'\<rparr>)"
proof -
  have "det_ok (mg_detector m)" "det_ok (mg_detector (m\<lparr>mg_detector := sd'\<rparr>))" using assms(1,2) by (simp_all add: manager_ok_def)
  from timeline_events[OF this(1)] timeline_events[OF this(2)] show ?thesis
    using assms(3) by (simp add: timeline_adds_def adds_def current_detector_fields)
qed

lemma manager_detects:
  assumes ok: "manager_ok m"
  shows "\<exists>x m'. DetectAndRecordSpikeWithWindowAndTcpQuality eid now p w m = Some (x, m') \<and> manager_ok m' \<and> timeline_adds eid m m'"
proof -
  have det: "det_ok (current_detector m)" using ok by (simp add: manager_ok_def current_detector_fields)
  obtain x sd' where r: "DetectAndRecordWithWindowAndTcpQuality eid now p w (current_detector m) = Some (x, sd')"
    "adds eid (current_detector m) sd'" using detect_adds[OF det] by blast
  have e: "DetectAndRecordSpikeWithWindowAndTcpQuality eid now p w m = Some (x, m\<lparr>mg_detector := sd'\<rparr>)"
    by (simp add: DetectAndRecordSpikeWithWindowAndTcpQuality_def with_detector_def r(1))
  moreover have "manager_ok (m\<lparr>mg_detector := sd'\<rparr>)"
    using run_op_ok[OF ok, of "OpDetectWindow eid now p w"] e by simp
  ultimately show ?thesis using adds_timeline[OF ok _ r(2)] by blast
qed

lemma manager_recovers:
  assumes ok: "manager_ok m" and p: "po_kind p = ''http''" "po_target p = t"
  shows "\<exists>ev m'. RecordManagerRecoveryWithWindow eid now p w m = Some (Some ev, m') \<and> manager_ok m' \<and> timeline_adds eid m m'
    \<and> timeline m' t ''http'' \<noteq> [] \<and> hd (timeline m' t ''http'') = ev \<and> ev_id ev = eid \<and> ev_severity ev = ''recovery''
    \<and> ev_reasons ev = [''http_probe_recovery'']"
proof -
  let ?sd = "current_detector m"
  have det: "det_ok ?sd" using ok by (simp add: manager_ok_def current_detector_fields)
  obtain ev sd' where ev: "RecordRecoveryEventWithWindow eid now p w ?sd = Some (Some ev, sd')" "record_event ev ?sd = Some sd'"
    "ev_severity ev = ''recovery''" "ev_reasons ev = [''http_probe_recovery'']" "ev_target ev = t" "ev_kind ev = ''http''" "ev_id ev = eid"
    using window_record[OF det, where eid = eid and now = now and p = "recovery_obs p" and sev = "''recovery''" and m = "window_median w"
        and rs = "[''http_probe_recovery'']" and w = "sc_http_warning (det_config ?sd)" and c = "sc_http_critical (det_config ?sd)" and win = w] p
    by (elim exE conjE) (simp add: RecordRecoveryEventWithWindow_def kind_thresholds_def recovery_obs_def)
  have e: "RecordManagerRecoveryWithWindow eid now p w m = Some (Some ev, m\<lparr>mg_detector := sd'\<rparr>)"
    by (simp add: RecordManagerRecoveryWithWindow_def with_detector_def ev(1))
  have ok': "manager_ok (m\<lparr>mg_detector := sd'\<rparr>)" using run_op_ok[OF ok, of "OpRecoveryWindow eid now p w"] e by simp
  then have det': "det_ok (mg_detector (m\<lparr>mg_detector := sd'\<rparr>))" by (simp add: manager_ok_def)
  note n = record_event_newest[OF det ev(2), unfolded ev(5,6)]
  have "adds eid ?sd sd'" using record_adds[OF det ev(2)] ev(7) by simp
  then show ?thesis using e ok' ev n adds_timeline[OF ok ok'] timeline_events[OF det', of t "''http''"] by (auto simp: hd_rev)
qed

lemma trigger_frame:
  assumes ok: "manager_ok m"
  shows "\<exists>started m'. trigger_for diag env t k (Some (x, m)) = Some (started, m') \<and> manager_ok m' \<and> (\<forall>u k. timeline m' u k = timeline m u k)"
proof (cases "x = None \<or> diag = None")
  case True
  then show ?thesis using ok by (cases x) (auto simp: trigger_for_def triggerDiagCapture_def)
next
  case False
  then obtain ev sv where x: "x = Some ev" "diag = Some sv" by auto
  obtain started m' where t: "triggerDiagCapture (Some sv) (pe_triggered env) (pe_finished env) (ev_id ev) t k m = (started, m')" by fastforce
  note tr = triggered[OF ok t]
  then obtain f where "m' = on_store f m" by blast
  moreover have "det_ok (mg_detector m)" using ok by (simp add: manager_ok_def)
  ultimately have "timeline m' u k = timeline m u k" for u k by (simp add: timeline_untouched)
  then show ?thesis using tr x t by (simp add: trigger_for_def)
qed

text \<open>Detection and trigger in one step.\<close>

lemma detect_and_trigger:
  assumes ok: "manager_ok m"
  shows "\<exists>started m'. trigger_for diag env t k (DetectAndRecordSpikeWithWindowAndTcpQuality eid now p w m) = Some (started, m')
    \<and> manager_ok m' \<and> timeline_adds eid m m'"
proof -
  obtain x m1 where "DetectAndRecordSpikeWithWindowAndTcpQuality eid now p w m = Some (x, m1)" "manager_ok m1" "timeline_adds eid m m1"
    using manager_detects[OF ok] by blast
  then show ?thesis using trigger_frame[of m1 diag env t k x] by (auto simp: timeline_adds_def)
qed

lemma recover_and_trigger:
  assumes ok: "manager_ok m" and p: "po_kind p = ''http''" "po_target p = t"
  shows "\<exists>started m'. trigger_for diag env t k (RecordManagerRecoveryWithWindow eid now p w m) = Some (started, m')
    \<and> manager_ok m' \<and> timeline_adds eid m m' \<and> timeline m' t ''http'' \<noteq> []
    \<and> ev_id (hd (timeline m' t ''http'')) = eid \<and> ev_severity (hd (timeline m' t ''http'')) = ''recovery''"
proof -
  obtain ev m1 where "RecordManagerRecoveryWithWindow eid now p w m = Some (Some ev, m1)" "manager_ok m1" "timeline_adds eid m m1"
    "timeline m1 t ''http'' \<noteq> []" "hd (timeline m1 t ''http'') = ev" "ev_id ev = eid" "ev_severity ev = ''recovery''"
    using manager_recovers[OF assms, of eid now w] by blast
  then show ?thesis using trigger_frame[of m1 diag env t k "Some ev"] by (auto simp: timeline_adds_def)
qed

lemma record_latency_frame:
  assumes ok: "manager_ok m"
  shows "\<exists>m'. RecordLatency now t l r m = Some m' \<and> manager_ok m' \<and> (\<forall>u k. timeline m' u k = timeline m u k)"
proof -
  obtain m' where m': "RecordLatency now t l r m = Some m'" "manager_ok m'" using record_latency_newest[OF ok] by blast
  then have "mg_detector m' = mg_detector m" by (auto simp: RecordLatency_def)
  moreover have "det_ok (mg_detector m)" using ok by (simp add: manager_ok_def)
  ultimately show ?thesis using m' by (auto simp: timeline_events)
qed

text \<open>The recording and the detection of a probe, for any observation.\<close>

lemma record_detect:
  assumes ok: "manager_ok m"
  shows "\<exists>m1 st m2. RecordLatency (pe_recorded env) t l r m = Some m1
      \<and> trigger_for d env t ''http'' (DetectAndRecordSpikeWithWindowAndTcpQuality (pe_event env) (pe_collected env) p w m1) = Some (st, m2)
      \<and> manager_ok m2 \<and> timeline_adds (pe_event env) m m2"
proof -
  obtain m1 where m1: "RecordLatency (pe_recorded env) t l r m = Some m1" "manager_ok m1" "\<forall>u k. timeline m1 u k = timeline m u k"
    using record_latency_frame[OF ok] by blast
  then show ?thesis using detect_and_trigger[OF m1(2), of d env t "''http''" "pe_event env" "pe_collected env" p w]
    by (auto simp: timeline_adds_def)
qed

definition recovers :: "http_client \<Rightarrow> string \<Rightarrow> request_result \<Rightarrow> bool" where
  "recovers c t r \<longleftrightarrow> \<not> probe_failed r \<and> map_get StateUnknown (hc_last c) t = StateUnreachable"

definition next_state :: "reachability_state option \<Rightarrow> request_result \<Rightarrow> reachability_state option" where
  "next_state s r = (case r of
     NotBuilt e \<Rightarrow> s
   | NoResponse e \<Rightarrow> Some StateUnreachable
   | Answered code \<Rightarrow> Some (if fst (ClassifyHTTPProbeStatus code) then StateReachable else StateUnreachable))"

text \<open>
  C30. Recoveries are reported exactly on the change from unreachable to reachable. Every
  probe returns and moves the remembered state of its own target alone: a response sets it by
  its status, a failed request to unreachable, and a request that could not be built leaves it. A
  recovery event is recorded, as the newest of the timeline, if and only if the state was
  unreachable and the answer is healthy; any other event that is new is the probe's own spike.
\<close>

theorem recovery_on_transition:
  assumes ok: "manager_ok m" and ids: "pe_event env \<noteq> pe_recovery_event env"
    and fresh: "\<forall>e \<in> set (timeline m (tg_id t) ''http''). ev_id e \<noteq> pe_recovery_event env"
  shows "\<exists>started c' m'. probeTarget t env c m = Some (started, c', m') \<and> manager_ok m'
    \<and> hc_last c' = (hc_last c)(tg_id t := next_state (hc_last c (tg_id t)) (pe_result env))
    \<and> (recovers c (tg_id t) (pe_result env) \<longleftrightarrow> (\<exists>e \<in> set (timeline m' (tg_id t) ''http''). ev_id e = pe_recovery_event env))
    \<and> (recovers c (tg_id t) (pe_result env) \<longrightarrow> ev_severity (hd (timeline m' (tg_id t) ''http'')) = ''recovery''
         \<and> ev_id (hd (timeline m' (tg_id t) ''http'')) = pe_recovery_event env)
    \<and> (\<forall>e \<in> set (timeline m' (tg_id t) ''http''). e \<in> set (timeline m (tg_id t) ''http'') \<or> ev_id e = pe_event env
         \<or> ev_id e = pe_recovery_event env)"
proof -
  let ?id = "tg_id t" and ?eid = "pe_event env"
  define w where "w = GetHTTPSampleWindow (tg_id t) (if hp_recent_max (hc_cfg c) < 30 then 30 else hp_recent_max (hc_cfg c)) m"
  note core = record_detect[OF ok, where t = ?id and d = "hc_diag c" and env = env and w = w]
  have quiet: ?thesis if "probeTarget t env c m = Some (st, c', m2)" "manager_ok m2" "timeline_adds ?eid m m2"
    "hc_last c' = (hc_last c)(?id := next_state (hc_last c ?id) (pe_result env))" "\<not> recovers c ?id (pe_result env)" for st c' m2
  proof -
    have new: "e \<in> set (timeline m ?id ''http'') \<or> ev_id e = ?eid" if "e \<in> set (timeline m2 ?id ''http'')" for e
      using that \<open>timeline_adds ?eid m m2\<close> by (simp add: timeline_adds_def)
    then have "\<not> (\<exists>e \<in> set (timeline m2 ?id ''http''). ev_id e = pe_recovery_event env)" using ids fresh by metis
    then show ?thesis using that new by blast
  qed
  show ?thesis
  proof (cases "pe_result env")
    case (NotBuilt e)
    define p where "p = bare_obs (http_obs env ?id (f_of_int (hp_timeout_ms (hc_cfg c))) False None (Some (''request creation failed: '' @ e)))"
    have p: "p\<lparr>po_tcp := None\<rparr> = p" by (simp add: p_def bare_obs_def)
    obtain m1 st m2 where c: "RecordLatency (pe_recorded env) ?id (f_of_int (hp_timeout_ms (hc_cfg c))) False m = Some m1"
      "trigger_for (hc_diag c) env ?id ''http'' (DetectAndRecordSpikeWithWindowAndTcpQuality ?eid (pe_collected env) p w m1) = Some (st, m2)"
      "manager_ok m2" "timeline_adds ?eid m m2" using core by blast
    have "probeTarget t env c m = Some (st, c, m2)"
      unfolding probeTarget_def Let_def NotBuilt request_result.case p_def[symmetric] w_def[symmetric] detect_without_tcp(2) p
        c(1) Option.bind.simps c(2) by simp
    moreover have "hc_last c = (hc_last c)(?id := next_state (hc_last c ?id) (pe_result env))" "\<not> recovers c ?id (pe_result env)"
      by (simp_all add: NotBuilt next_state_def recovers_def probe_failed_def)
    ultimately show ?thesis using quiet c(3,4) by blast
  next
    case (NoResponse e)
    define p where "p = http_obs env ?id (pe_latency env) False None (Some (''request failed: '' @ e))"
    obtain m1 st m2 where c: "RecordLatency (pe_recorded env) ?id (pe_latency env) False m = Some m1"
      "trigger_for (hc_diag c) env ?id ''http'' (DetectAndRecordSpikeWithWindowAndTcpQuality ?eid (pe_collected env) p w m1) = Some (st, m2)"
      "manager_ok m2" "timeline_adds ?eid m m2" using core by blast
    have "probeTarget t env c m = Some (st, set_last ?id False c, m2)"
      unfolding probeTarget_def Let_def NoResponse request_result.case p_def[symmetric] w_def[symmetric]
        c(1) Option.bind.simps c(2) by simp
    moreover have "hc_last (set_last ?id False c) = (hc_last c)(?id := next_state (hc_last c ?id) (pe_result env))"
      "\<not> recovers c ?id (pe_result env)"
      by (simp_all add: NoResponse next_state_def recovers_def probe_failed_def set_last_def)
    ultimately show ?thesis using quiet c(3,4) by blast
  next
    case (Answered code)
    obtain healthy reason where cl: "ClassifyHTTPProbeStatus code = (healthy, reason)" by fastforce
    define p where "p = http_obs env ?id (pe_latency env) healthy (Some code)
      (if healthy then None else Some (reason @ '': HTTP '' @ show_int code))"
    define q where "q = http_obs env ?id (pe_latency env) True (Some code) None"
    obtain m1 st m2 where c: "RecordLatency (pe_recorded env) ?id (pe_latency env) healthy m = Some m1"
      "trigger_for (hc_diag c) env ?id ''http'' (DetectAndRecordSpikeWithWindowAndTcpQuality ?eid (pe_collected env) p w m1) = Some (st, m2)"
      "manager_ok m2" "timeline_adds ?eid m m2" using core by blast
    have r: "recovers c ?id (pe_result env) \<longleftrightarrow> healthy \<and> map_get StateUnknown (hc_last c) ?id = StateUnreachable"
      by (simp add: recovers_def probe_failed_def Answered cl)
    have last_: "hc_last (set_last ?id healthy c) = (hc_last c)(?id := next_state (hc_last c ?id) (pe_result env))"
      by (simp add: set_last_def next_state_def Answered cl)
    have run: "probeTarget t env c m = (if recovers c ?id (pe_result env)
        then map_option (\<lambda>(started', m3). (st @ started', set_last ?id healthy c, m3))
          (trigger_for (hc_diag c) env ?id ''http'' (RecordManagerRecoveryWithWindow (pe_recovery_event env) (pe_collected env) q w m2))
        else Some (st, set_last ?id healthy c, m2))"
      unfolding probeTarget_def Let_def r[unfolded Answered] Answered request_result.case cl prod.case p_def[symmetric] q_def[symmetric] w_def[symmetric]
        c(1) Option.bind.simps c(2) prod.case ..
    show ?thesis
    proof (cases "recovers c ?id (pe_result env)")
      case False
      then have "probeTarget t env c m = Some (st, set_last ?id healthy c, m2)" using run by simp
      from quiet[OF this c(3,4) last_ False] show ?thesis .
    next
      case True
      have q: "po_kind q = ''http''" "po_target q = ?id" by (simp_all add: q_def http_obs_def)
      obtain st' m3 where m3: "trigger_for (hc_diag c) env ?id ''http''
          (RecordManagerRecoveryWithWindow (pe_recovery_event env) (pe_collected env) q w m2) = Some (st', m3)"
        "manager_ok m3" "timeline_adds (pe_recovery_event env) m2 m3" "timeline m3 ?id ''http'' \<noteq> []"
        "ev_id (hd (timeline m3 ?id ''http'')) = pe_recovery_event env" "ev_severity (hd (timeline m3 ?id ''http'')) = ''recovery''"
        using recover_and_trigger[OF c(3) q, of "hc_diag c" env "''http''" "pe_recovery_event env" "pe_collected env" w] by blast
      have "\<forall>e \<in> set (timeline m3 ?id ''http''). e \<in> set (timeline m ?id ''http'') \<or> ev_id e = ?eid \<or> ev_id e = pe_recovery_event env"
        using m3(3) c(4) unfolding timeline_adds_def by metis
      moreover have "hd (timeline m3 ?id ''http'') \<in> set (timeline m3 ?id ''http'')" using m3(4) by simp
      moreover have "probeTarget t env c m = Some (st @ st', set_last ?id healthy c, m3)" using run True m3(1) by simp
      ultimately show ?thesis using m3 last_ True by blast
    qed
  qed
qed

subsection \<open>Concrete instances\<close>

definition client_example :: http_client where
  "client_example = \<lparr>hc_cfg = lc_http (latency_ApplyDefaults latency_config_example), hc_diag = Some service_example,
     hc_last = [''a'' \<mapsto> StateUnreachable]\<rparr>"

definition target_example :: target_config where
  "target_example = \<lparr>tg_id = ''a'', tg_name = ''A'', tg_base_url = ''http://h'', tg_probe_url = [], tg_enabled = True\<rparr>"

definition probe_env_example :: "request_result \<Rightarrow> probe_env" where
  "probe_env_example r = \<lparr>pe_result = r, pe_latency = Fin 12, pe_recorded = 20, pe_sampled = 19, pe_collected = 21, pe_triggered = 22,
     pe_finished = 23, pe_event = ''e1'', pe_recovery_event = ''r1'', pe_trace = None, pe_tcp = None\<rparr>"

lemma failed_probe_leaves_evidence_witness:
  "\<exists>started c' m'. probeTarget target_example (probe_env_example (Answered 503)) client_example (NewManagerWithConfig [] 0) = Some (started, c', m')
     \<and> ev_id (hd (timeline m' ''a'' ''http'')) = ''e1''
     \<and> GetRecentLatencySamples ''a'' 1 m' = [\<lparr>ls_ts = 20, ls_ms = Fin 12, ls_reach = False, ls_err = []\<rparr>]
     \<and> (started \<noteq> [] \<or> GetCaptures ''e1'' (mg_captures m') \<noteq> [])"
proof -
  have f: "probe_failed (pe_result (probe_env_example (Answered 503)))"
    by (simp add: probe_failed_def probe_env_example_def ClassifyHTTPProbeStatus_def)
  show ?thesis
    using failed_probe_leaves_evidence[OF new_manager_ok(1) f, of target_example client_example "[]" 0]
    by (auto simp: evidence_def Let_def target_example_def probe_env_example_def client_example_def probe_latency_def)
qed

lemma recovery_on_transition_witness:
  "\<exists>started c' m'. probeTarget target_example (probe_env_example (Answered 204)) client_example (NewManagerWithConfig [] 0) = Some (started, c', m')
     \<and> hc_last c' ''a'' = Some StateReachable \<and> ev_id (hd (timeline m' ''a'' ''http'')) = ''r1''"
proof -
  have i: "pe_event (probe_env_example (Answered 204)) \<noteq> pe_recovery_event (probe_env_example (Answered 204))"
    by (simp add: probe_env_example_def)
  have "det_ok (mg_detector (NewManagerWithConfig [] 0))" using new_manager_ok(1) by (simp add: manager_ok_def)
  from timeline_events[OF this, of "''a''" "''http''"] have "timeline (NewManagerWithConfig [] 0) ''a'' ''http'' = []"
    by (simp add: NewManagerWithConfig_def NewManager_def NewSpikeDetector_def det_events_def Let_def)
  then have f: "\<forall>e \<in> set (timeline (NewManagerWithConfig [] 0) (tg_id target_example) ''http'').
      ev_id e \<noteq> pe_recovery_event (probe_env_example (Answered 204))" by (simp add: target_example_def)
  show ?thesis
    using recovery_on_transition[OF new_manager_ok(1) i f, of client_example]
    by (auto simp: target_example_def probe_env_example_def client_example_def recovers_def probe_failed_def next_state_def
        ClassifyHTTPProbeStatus_def map_get_def)
qed

subsection \<open>A failed ping\<close>

lemma detect_failed_ping:
  assumes p: "po_kind p = ''icmp''" "\<not> po_reached p"
  shows "DetectAndRecordWithWindowAndTcpQuality eid now p w sd = Some (None, sd)"
proof -
  have "s_ok cur = False \<Longrightarrow> sd_kind (DecideSpike cur w g) = SpikeDecisionNone" for cur g
    by (simp add: DecideSpike_def no_spike_def)
  then show ?thesis using p
    by (simp add: DetectAndRecordWithWindowAndTcpQuality_def kind_thresholds_def currentDomainSample_def Let_def split: option.split)
qed

lemma icmp_latency_newest:
  assumes ok: "manager_ok m"
  shows "\<exists>f. RecordICMPLatency now t l r m = Some (m\<lparr>mg_icmp := f\<rparr>) \<and> manager_ok (m\<lparr>mg_icmp := f\<rparr>)
    \<and> GetRecentICMPLatencySamples t 1 (m\<lparr>mg_icmp := f\<rparr>) = [\<lparr>ls_ts = now, ls_ms = l, ls_reach = r, ls_err = []\<rparr>]"
proof -
  obtain lt where lt: "tracker_for (mg_icmp m) (mg_icmp_buckets m) (mg_icmp_max m) t = Some lt" "tracker_inv lt"
    using record_tracker[of "mg_icmp m" "mg_icmp_buckets m" "mg_icmp_max m" t "(l, r, now)"] ok by (auto simp: manager_ok_def)
  let ?f = "(mg_icmp m)(t \<mapsto> record_result (l, r, now) lt)"
  have run: "RecordICMPLatency now t l r m = Some (m\<lparr>mg_icmp := ?f\<rparr>)" using lt(1) by (simp add: RecordICMPLatency_def Record_result)
  then have ok': "manager_ok (m\<lparr>mg_icmp := ?f\<rparr>)" using run_op_ok[OF ok, of "OpICMP now t l r"] by simp
  have "clamp_limit 1 (mg_icmp_max m) = 1" using ok by (simp add: clamp_limit_def manager_ok_def)
  then have "GetRecentICMPLatencySamples t 1 (m\<lparr>mg_icmp := ?f\<rparr>) = GetRecentSamples 1 (record_result (l, r, now) lt)"
    by (simp add: GetRecentICMPLatencySamples_def)
  then show ?thesis using run ok' tracker_newest[OF lt(2), of l r now] by (intro exI[of _ ?f]) (simp only: simp_thms)
qed

text \<open>
  A failed ping is recorded as a sample and as nothing else. Whatever the latency, the
  thresholds and the state, the probe stores the failure as the newest ICMP sample of its target, but
  records no spike event, starts no capture and leaves no capture record: the code that would
  trigger a capture for it is never reached.
\<close>

theorem failed_ping_unreported:
  assumes ok: "manager_ok m" and t: "tg_enabled t" and failed: "host = [] \<or> pingError \<noteq> None"
  shows "\<exists>m'. probeICMP cfg diag t host pingError env m = Some ([], m')
    \<and> mg_detector m' = current_detector m \<and> mg_captures m' = mg_captures m
    \<and> (\<exists>l. GetRecentICMPLatencySamples (tg_id t) 1 m' = [\<lparr>ls_ts = pe_recorded env, ls_ms = l, ls_reach = False, ls_err = []\<rparr>])"
proof -
  define w where "w = GetICMPSampleWindow (tg_id t) MaxICMPSpikeDetectionSamples m"
  define obs where "obs = (\<lambda>latency reached err. \<lparr>po_target = tg_id t, po_kind = ''icmp'', po_latency = latency, po_ts = pe_sampled env,
      po_reached = reached, po_delay = None, po_status = None, po_error = err, po_trace = None, po_tcp = None\<rparr>)"
  define finish where "finish = (\<lambda>latency reached err. Option.bind (RecordICMPLatency (pe_recorded env) (tg_id t) latency reached m)
      (\<lambda>m1. trigger_for diag env (tg_id t) ''icmp''
         (DetectAndRecordSpikeWithWindow (pe_event env) (pe_collected env) (obs latency reached err) w m1)))"
  have run: "probeICMP cfg diag t host pingError env m =
      (if host = [] then finish (f_of_int (wrap64 (ip_timeout cfg * 1000))) False (Some ''failed to extract host from base_url'')
       else case pingError of Some e \<Rightarrow> finish (pe_latency env) False (Some (''ping failed: '' @ e)) | None \<Rightarrow> finish (pe_latency env) True None)"
    using t by (simp add: probeICMP_def Let_def finish_def obs_def w_def split: option.split)
  have f: "\<exists>m'. finish l False err = Some ([], m') \<and> mg_detector m' = current_detector m \<and> mg_captures m' = mg_captures m
    \<and> GetRecentICMPLatencySamples (tg_id t) 1 m' = [\<lparr>ls_ts = pe_recorded env, ls_ms = l, ls_reach = False, ls_err = []\<rparr>]" for l err
  proof -
    obtain g where g: "RecordICMPLatency (pe_recorded env) (tg_id t) l False m = Some (m\<lparr>mg_icmp := g\<rparr>)"
      "GetRecentICMPLatencySamples (tg_id t) 1 (m\<lparr>mg_icmp := g\<rparr>) = [\<lparr>ls_ts = pe_recorded env, ls_ms = l, ls_reach = False, ls_err = []\<rparr>]"
      using icmp_latency_newest[OF ok] by blast
    have "current_detector (m\<lparr>mg_icmp := g\<rparr>) = current_detector m" by (simp add: current_detector_def split: option.split)
    then have "DetectAndRecordSpikeWithWindow eid now (obs l False err) w (m\<lparr>mg_icmp := g\<rparr>)
        = Some (None, m\<lparr>mg_icmp := g, mg_detector := current_detector m\<rparr>)" for eid now
      using detect_failed_ping[of "(obs l False err)\<lparr>po_tcp := None\<rparr>"]
      by (simp add: DetectAndRecordSpikeWithWindow_def with_detector_def DetectAndRecordWithWindow_def obs_def)
    moreover have "GetRecentICMPLatencySamples (tg_id t) 1 (m\<lparr>mg_icmp := g, mg_detector := current_detector m\<rparr>)
        = GetRecentICMPLatencySamples (tg_id t) 1 (m\<lparr>mg_icmp := g\<rparr>)"
      by (simp add: GetRecentICMPLatencySamples_def split: option.split)
    ultimately show ?thesis using g by (simp add: finish_def trigger_for_def)
  qed
  show ?thesis
  proof (cases "host = []")
    case True
    then show ?thesis using f run by simp blast
  next
    case False
    then obtain e where "pingError = Some e" using failed by blast
    then show ?thesis using f[of "pe_latency env" "Some (''ping failed: '' @ e)"] run False by auto
  qed
qed

lemma failed_ping_unreported_witness:
  "\<exists>m'. probeICMP (lc_icmp (latency_ApplyDefaults latency_config_example)) (Some service_example) target_example ''h'' (Some ''timeout'')
      (probe_env_example (Answered 200)) (NewManagerWithConfig [] 0) = Some ([], m') \<and> mg_captures m' = NewCaptureStore"
proof -
  have t: "tg_enabled target_example" by (simp add: target_example_def)
  have e: "''h'' = [] \<or> Some ''timeout'' \<noteq> None" by simp
  show ?thesis
    using failed_ping_unreported[OF new_manager_ok(1)[of "[]" 0] t e, where cfg = "lc_icmp (latency_ApplyDefaults latency_config_example)"
        and diag = "Some service_example" and env = "probe_env_example (Answered 200)"]
    by (auto simp: NewManagerWithConfig_def NewManager_def Let_def)
qed

end
