(* ===== verification/Reachability.thy ===== *)
theory Reachability
  imports Latency_Domain
begin

section \<open>Reachability: the matrix of HTTP and ICMP evidence\<close>

text \<open>
  Models \<open>uvb76/probe/reachability.go\<close>: the pure classification of the newest HTTP and
  ICMP evidence into target and service reachability, the label for the UI, and the
  vocabulary that verifiers check it against. The enumerations of the code are strings,
  as they are there, so that nothing but the code keeps a status to the vocabulary.
\<close>

subsection \<open>Vocabulary\<close>

record probe_evidence =
  pe_kind :: string
  pe_seen :: bool
  pe_success :: bool
  pe_degraded :: bool
  pe_timestamp :: time
  pe_error_kind :: string
  pe_error_text :: string

type_synonym reachability = string

definition ReachabilityTargetReachable :: reachability where "ReachabilityTargetReachable = ''target_reachable''"
definition ReachabilityServiceReachable :: reachability where "ReachabilityServiceReachable = ''service_reachable''"
definition ReachabilityPartiallyReachable :: reachability where "ReachabilityPartiallyReachable = ''partially_reachable''"
definition ReachabilityServiceUnreachable :: reachability where "ReachabilityServiceUnreachable = ''service_unreachable''"
definition ReachabilityNetworkUnreachable :: reachability where "ReachabilityNetworkUnreachable = ''network_unreachable''"
definition ReachabilityProbeFailed :: reachability where "ReachabilityProbeFailed = ''probe_failed''"
definition ReachabilityProbeDegraded :: reachability where "ReachabilityProbeDegraded = ''probe_degraded''"
definition ReachabilityProbeRecovered :: reachability where "ReachabilityProbeRecovered = ''probe_recovered''"
definition ReachabilityUnknown :: reachability where "ReachabilityUnknown = ''unknown''"

lemmas reachability_strings = ReachabilityTargetReachable_def ReachabilityServiceReachable_def ReachabilityPartiallyReachable_def
  ReachabilityServiceUnreachable_def ReachabilityNetworkUnreachable_def ReachabilityProbeFailed_def ReachabilityProbeDegraded_def
  ReachabilityProbeRecovered_def ReachabilityUnknown_def

type_synonym probe_status = string

definition ProbeStatusSuccess :: probe_status where "ProbeStatusSuccess = ''success''"
definition ProbeStatusFailed :: probe_status where "ProbeStatusFailed = ''failed''"
definition ProbeStatusDegraded :: probe_status where "ProbeStatusDegraded = ''degraded''"
definition ProbeStatusUnknown :: probe_status where "ProbeStatusUnknown = ''unknown''"

lemmas probe_status_strings = ProbeStatusSuccess_def ProbeStatusFailed_def ProbeStatusDegraded_def ProbeStatusUnknown_def

record seen =
  ob_timestamp :: "time option"
  ob_success :: bool
  ob_degraded :: bool
  ob_failed :: bool

record probe_evidence_summary =
  es_http :: seen
  es_icmp :: seen

record reachability_summary =
  rc_target :: reachability
  rc_service :: reachability
  rc_http :: probe_status
  rc_icmp :: probe_status
  rc_label :: string
  rc_reason :: string
  rc_evidence :: probe_evidence_summary

subsection \<open>Classification\<close>

definition computeProbeStatus :: "probe_evidence \<Rightarrow> probe_status" where
  "computeProbeStatus evidence =
     (if \<not> pe_seen evidence then ProbeStatusUnknown
      else if pe_degraded evidence then ProbeStatusDegraded
      else if pe_success evidence then ProbeStatusSuccess
      else ProbeStatusFailed)"

definition computeReachabilityStatus :: "probe_evidence \<Rightarrow> probe_evidence \<Rightarrow> reachability \<times> reachability \<times> string" where
  "computeReachabilityStatus http icmp =
     (let httpSeen = pe_seen http;
          icmpSeen = pe_seen icmp;
          httpSuccess = (pe_success http \<and> \<not> pe_degraded http);
          icmpSuccess = (pe_success icmp \<and> \<not> pe_degraded icmp);
          httpFailed = (httpSeen \<and> \<not> pe_success http);
          icmpFailed = (icmpSeen \<and> \<not> pe_success icmp)
      in if \<not> httpSeen \<and> \<not> icmpSeen then (ReachabilityUnknown, ReachabilityUnknown, ''no probe evidence available'')
         else if \<not> httpSeen \<and> icmpSeen then
           (if icmpSuccess then (ReachabilityTargetReachable, ReachabilityUnknown, ''ICMP reachable, HTTP status unknown'')
            else (ReachabilityUnknown, ReachabilityUnknown, ''ICMP failed, HTTP status unknown''))
         else if httpSeen \<and> \<not> icmpSeen then
           (if httpSuccess then (ReachabilityTargetReachable, ReachabilityServiceReachable, ''HTTP reachable, ICMP status unknown'')
            else (ReachabilityUnknown, ReachabilityServiceUnreachable, ''HTTP failed, ICMP status unknown''))
         else if httpSuccess \<and> icmpSuccess then
           (ReachabilityTargetReachable, ReachabilityServiceReachable, ''both HTTP and ICMP probes successful'')
         else if httpSuccess \<and> \<not> icmpSuccess then
           (ReachabilityPartiallyReachable, ReachabilityServiceReachable, ''HTTP reachable, ICMP failed'')
         else if httpFailed \<and> icmpSuccess then
           (ReachabilityPartiallyReachable, ReachabilityServiceUnreachable, ''HTTP failed, ICMP reachable'')
         else if httpFailed \<and> icmpFailed then
           (ReachabilityNetworkUnreachable, ReachabilityServiceUnreachable, ''both HTTP and ICMP probes failed'')
         else if pe_degraded http \<and> icmpSuccess then
           (ReachabilityPartiallyReachable, ReachabilityServiceReachable, ''HTTP degraded, ICMP reachable'')
         else if httpSuccess \<and> pe_degraded icmp then
           (ReachabilityPartiallyReachable, ReachabilityServiceReachable, ''HTTP reachable, ICMP degraded'')
         else if pe_degraded http \<and> pe_degraded icmp then
           (ReachabilityPartiallyReachable, ReachabilityServiceReachable, ''both HTTP and ICMP degraded'')
         else (ReachabilityUnknown, ReachabilityUnknown, ''insufficient probe evidence''))"

definition statusToLabel :: "probe_status \<Rightarrow> string" where
  "statusToLabel status =
     (if status = ProbeStatusSuccess then ''OK''
      else if status = ProbeStatusFailed then ''failing''
      else if status = ProbeStatusDegraded then ''degraded''
      else ''unknown'')"

text \<open>The separator is a middle dot, two bytes in UTF-8, between blanks.\<close>

definition generateLabel :: "probe_status \<Rightarrow> probe_status \<Rightarrow> string" where
  "generateLabel httpStatus icmpStatus =
     (let httpLabel = statusToLabel httpStatus; icmpLabel = statusToLabel icmpStatus
      in if httpStatus = ProbeStatusUnknown \<and> icmpStatus = ProbeStatusUnknown then ''No recent probe data''
         else httpLabel @ '' '' @ [CHR 0xC2, CHR 0xB7] @ '' '' @ icmpLabel)"

definition unseen :: seen where
  "unseen = \<lparr>ob_timestamp = None, ob_success = False, ob_degraded = False, ob_failed = False\<rparr>"

definition evidence_seen :: "probe_evidence \<Rightarrow> seen" where
  "evidence_seen e =
     (if pe_seen e
      then \<lparr>ob_timestamp = Some (pe_timestamp e), ob_success = pe_success e \<and> \<not> pe_degraded e,
            ob_degraded = pe_degraded e, ob_failed = \<not> pe_success e\<rparr>
      else unseen)"

definition buildEvidenceSummary :: "probe_evidence \<Rightarrow> probe_evidence \<Rightarrow> probe_evidence_summary" where
  "buildEvidenceSummary http icmp = \<lparr>es_http = evidence_seen http, es_icmp = evidence_seen icmp\<rparr>"

definition ClassifyReachability :: "probe_evidence \<Rightarrow> probe_evidence \<Rightarrow> reachability_summary" where
  "ClassifyReachability http icmp =
     (let httpStatus = computeProbeStatus http;
          icmpStatus = computeProbeStatus icmp;
          (targetStatus, serviceStatus, reason) = computeReachabilityStatus http icmp
      in \<lparr>rc_target = targetStatus, rc_service = serviceStatus, rc_http = httpStatus, rc_icmp = icmpStatus,
          rc_label = generateLabel httpStatus icmpStatus, rc_reason = reason,
          rc_evidence = buildEvidenceSummary http icmp\<rparr>)"

subsection \<open>The vocabulary that verifiers check\<close>


definition ForbiddenLabels :: "string list" where
  "ForbiddenLabels = [''unreachable'', ''reachable'']"


definition IsLabelForbidden :: "string \<Rightarrow> bool" where
  "IsLabelForbidden label = list_ex (\<lambda>forbidden. label = forbidden) ForbiddenLabels"

subsection \<open>The classification against its matrix\<close>


definition coherent :: "probe_evidence \<Rightarrow> bool" where
  "coherent e \<longleftrightarrow> (pe_degraded e \<longrightarrow> pe_success e)"

lemmas reachability_defs = ClassifyReachability_def computeReachabilityStatus_def computeProbeStatus_def coherent_def Let_def
  reachability_strings probe_status_strings



text \<open>
  Two rows that the matrix leaves out contradict the vocabulary: a degraded HTTP service whose
  ping fails is neither reachable nor unreachable, and a degraded HTTP service that was never
  pinged is reported as unreachable although its probe succeeded.
\<close>

lemma degraded_http_rows:
  assumes "pe_seen http" "pe_success http" "pe_degraded http"
  shows "pe_seen icmp \<Longrightarrow> \<not> pe_success icmp \<Longrightarrow> \<not> pe_degraded icmp \<Longrightarrow>
      rc_service (ClassifyReachability http icmp) = ReachabilityUnknown"
    and "\<not> pe_seen icmp \<Longrightarrow> rc_service (ClassifyReachability http icmp) = ReachabilityServiceUnreachable"
  using assms by (simp_all add: reachability_defs)

text \<open>The label is never one of the forbidden words.\<close>

lemma label_allowed: "\<not> IsLabelForbidden (rc_label (ClassifyReachability http icmp))"
proof -
  have "length (generateLabel h i) > length w" if "w \<in> set ForbiddenLabels" "h = ProbeStatusUnknown" "i = ProbeStatusUnknown" for h i w
    using that by (auto simp: generateLabel_def ForbiddenLabels_def)
  moreover have "CHR 0xC2 \<notin> set w" if "w \<in> set ForbiddenLabels" for w using that by (auto simp: ForbiddenLabels_def)
  moreover have "CHR 0xC2 \<in> set (generateLabel h i)" if "\<not> (h = ProbeStatusUnknown \<and> i = ProbeStatusUnknown)" for h i
    using that by (auto simp: generateLabel_def Let_def)
  ultimately have "generateLabel h i \<noteq> w" if "w \<in> set ForbiddenLabels" for h i w using that by (metis less_irrefl)
  then show ?thesis by (auto simp: IsLabelForbidden_def list_ex_iff ClassifyReachability_def Let_def split: prod.split)
qed



end
