(* ===== verification/Go_Text.thy ===== *)
theory Go_Text
  imports Decimal
begin

section \<open>White space, fields and addresses\<close>

text \<open>
  The operations of Go's standard library on texts that several components use: white space as \<open>unicode.IsSpace\<close> and the
  class \<open>\s\<close> of a pattern see it, \<open>strings.TrimSpace\<close>, \<open>strings.Fields\<close>, \<open>strings.Split\<close> on one byte,
  \<open>strings.Join\<close> and \<open>net.SplitHostPort\<close>.
\<close>

subsection \<open>White space\<close>

text \<open>The encodings of Unicode's white space in UTF-8.\<close>

definition white_spaces :: "string list" where
  "white_spaces = map (map char_of) ([[9], [10], [11], [12], [13], [32], [0xC2, 0x85], [0xC2, 0xA0], [0xE1, 0x9A, 0x80],
     [0xE2, 0x80, 0xA8], [0xE2, 0x80, 0xA9], [0xE2, 0x80, 0xAF], [0xE2, 0x81, 0x9F], [0xE3, 0x80, 0x80]]
     @ map (\<lambda>i. [0xE2, 0x80, 0x80 + i]) [0..<11] :: nat list list)"

fun trim_prefixes :: "nat \<Rightarrow> string list \<Rightarrow> string \<Rightarrow> string" where
  "trim_prefixes 0 ws s = s"
| "trim_prefixes (Suc n) ws s =
     (case find (\<lambda>w. prefix w s) ws of None \<Rightarrow> s | Some w \<Rightarrow> trim_prefixes n ws (drop (length w) s))"

definition TrimLeft :: "string \<Rightarrow> string" where
  "TrimLeft s = trim_prefixes (length s) white_spaces s"

definition TrimSpace :: "string \<Rightarrow> string" where
  "TrimSpace s = (let t = TrimLeft s in rev (trim_prefixes (length t) (map rev white_spaces) (rev t)))"

lemma trim_prefixes_length: "length (trim_prefixes n ws s) \<le> length s"
proof (induction n arbitrary: s)
  case (Suc n)
  have "length (trim_prefixes n ws (drop k s)) \<le> length s" for k using Suc[of "drop k s"] by simp
  then show ?case by (simp split: option.split)
qed simp

lemma TrimLeft_length: "length (TrimLeft s) \<le> length s"
  unfolding TrimLeft_def by (rule trim_prefixes_length)

lemma white_space_heads: "\<forall>w \<in> set (white_spaces @ map rev white_spaces). w \<noteq> [] \<and> ((of_char (hd w) :: nat) < 33 \<or> 126 < (of_char (hd w) :: nat))"
  by code_simp

lemma no_space_prefix:
  assumes "33 \<le> (of_char c :: nat)" "(of_char c :: nat) \<le> 126" "set ws \<subseteq> set (white_spaces @ map rev white_spaces)"
  shows "trim_prefixes n ws (c # r) = c # r"
proof (cases n)
  case (Suc m)
  have "\<not> prefix w (c # r)" if "w \<in> set ws" for w
  proof -
    have "w \<noteq> [] \<and> ((of_char (hd w) :: nat) < 33 \<or> 126 < (of_char (hd w) :: nat))"
      using white_space_heads assms(3) that by blast
    then show ?thesis using assms(1,2) by (cases w) auto
  qed
  then have "find (\<lambda>w. prefix w (c # r)) ws = None" unfolding find_None_iff by blast
  then show ?thesis by (simp add: Suc)
qed simp

lemma TrimLeft_id: "33 \<le> (of_char c :: nat) \<Longrightarrow> (of_char c :: nat) \<le> 126 \<Longrightarrow> TrimLeft (c # r) = c # r"
  unfolding TrimLeft_def by (rule no_space_prefix) auto

subsection \<open>Splitting and joining\<close>

fun split_on :: "char \<Rightarrow> string \<Rightarrow> string list" where
  "split_on d [] = [[]]"
| "split_on d (c # s) = (if c = d then [] # split_on d s
     else case split_on d s of [] \<Rightarrow> [[c]] | w # ws \<Rightarrow> (c # w) # ws)"

fun join_with :: "string \<Rightarrow> string list \<Rightarrow> string" where
  "join_with sep [] = []"
| "join_with sep [w] = w"
| "join_with sep (w # v # ws) = w @ sep @ join_with sep (v # ws)"

lemma split_on_word: "d \<notin> set w \<Longrightarrow> split_on d w = [w]"
  by (induction w) auto

lemma split_on_append: "d \<notin> set w \<Longrightarrow> split_on d (w @ d # s) = w # split_on d s"
  by (induction w) auto

lemma join_with_Cons: "join_with sep (w # ws) = (if ws = [] then w else w @ sep @ join_with sep ws)"
  by (cases ws) simp_all

lemma split_on_join: "ws \<noteq> [] \<Longrightarrow> \<forall>w \<in> set ws. d \<notin> set w \<Longrightarrow> split_on d (join_with [d] ws) = ws"
  by (induction ws) (auto simp: join_with_Cons split_on_word split_on_append)

lemma join_with_append: "ws \<noteq> [] \<Longrightarrow> vs \<noteq> [] \<Longrightarrow> join_with sep (ws @ vs) = join_with sep ws @ sep @ join_with sep vs"
  by (induction ws) (auto simp: join_with_Cons)

lemma split_on_not_Nil [simp]: "split_on d s \<noteq> []"
  by (induction s) (auto split: list.split)

lemma split_on_piece: "w \<in> set (split_on d s) \<Longrightarrow> \<exists>a b. s = a @ w @ b"
proof (induction s arbitrary: w)
  case (Cons c s)
  obtain v vs where v: "split_on d s = v # vs" using split_on_not_Nil[of d s] by (cases "split_on d s") auto
  have head: "\<exists>b. s = v @ b" using v
  proof (induction s arbitrary: v vs)
    case (Cons x s)
    then show ?case by (cases "split_on d s") (auto split: if_splits)
  qed simp
  show ?case
  proof (cases "w = c # v \<and> c \<noteq> d")
    case True
    with head show ?thesis by (metis append_Cons append_Nil)
  next
    case False
    with Cons.prems have "w = [] \<or> w \<in> set (split_on d s)" by (auto simp: v split: if_splits)
    then show ?thesis using Cons.IH by (metis append_Cons append_Nil)
  qed
qed simp

text \<open>\<open>strings.Fields\<close>, with the word read so far.\<close>

function fields_from :: "string \<Rightarrow> string \<Rightarrow> string list" where
  "fields_from w [] = (if w = [] then [] else [w])"
| "fields_from w (c # s) =
     (case find (\<lambda>p. prefix p (c # s)) white_spaces of
        None \<Rightarrow> fields_from (w @ [c]) s
      | Some p \<Rightarrow> (if w = [] then [] else [w]) @ fields_from [] (drop (length p) (c # s)))"
  by pat_completeness auto
termination
proof -
  have pos: "length p > 0" if "find (\<lambda>p. prefix p (c # s)) white_spaces = Some p" for c s p
    using that white_space_heads by (auto simp: find_Some_iff)
  have less: "length (drop (length p) (c # s)) < length (c # s)" if "find (\<lambda>p. prefix p (c # s)) white_spaces = Some p" for c s p
    using pos[OF that] by simp
  show ?thesis
    by (relation "measure (\<lambda>(w, s). length s)") (use less in simp_all)
qed

definition Fields :: "string \<Rightarrow> string list" where
  "Fields s = fields_from [] s"

text \<open>Bytes that no white space starts with.\<close>

definition ink :: "char \<Rightarrow> bool" where
  "ink c \<longleftrightarrow> 33 \<le> (of_char c :: nat) \<and> (of_char c :: nat) \<le> 126"

definition ink_word :: "string \<Rightarrow> bool" where
  "ink_word w \<longleftrightarrow> w \<noteq> [] \<and> list_all ink w"

lemma TrimSpace_inked:
  assumes "s \<noteq> []" "ink (hd s)" "ink (last s)"
  shows "TrimSpace s = s"
proof -
  obtain c r where s: "s = c # r" using assms(1) by (cases s) auto
  have l: "TrimLeft s = s" using assms(2) unfolding s by (intro TrimLeft_id) (simp_all add: ink_def)
  obtain d q where q: "rev s = d # q" "d = last s" using assms(1) by (metis hd_rev list.collapse rev_is_Nil_conv)
  have "trim_prefixes (length s) (map rev white_spaces) (rev s) = rev s"
    unfolding q(1) using assms(3) q(2) by (intro no_space_prefix) (auto simp: ink_def)
  then show ?thesis by (simp add: TrimSpace_def l)
qed

lemma TrimSpace_printable: "s \<noteq> [] \<Longrightarrow> \<forall>c \<in> set s. ink c \<Longrightarrow> TrimSpace s = s"
  by (rule TrimSpace_inked) simp_all

lemma no_space_at: "ink c \<Longrightarrow> find (\<lambda>p. prefix p (c # s)) white_spaces = None"
proof -
  assume c: "ink c"
  have "\<not> prefix p (c # s)" if "p \<in> set white_spaces" for p
  proof -
    have "p \<noteq> [] \<and> ((of_char (hd p) :: nat) < 33 \<or> 126 < (of_char (hd p) :: nat))" using white_space_heads that by auto
    then show ?thesis using c by (cases p) (auto simp: ink_def)
  qed
  then show ?thesis unfolding find_None_iff by blast
qed

lemma white_space_blank: "'' '' \<in> set white_spaces" "\<forall>w \<in> set white_spaces. hd w = CHR '' '' \<longrightarrow> w = '' ''"
  by code_simp+

lemma space_at: "find (\<lambda>p. prefix p (CHR '' '' # s)) white_spaces = Some '' ''"
proof (cases "find (\<lambda>p. prefix p (CHR '' '' # s)) white_spaces")
  case None
  then have "\<not> prefix '' '' (CHR '' '' # s)" using white_space_blank(1) unfolding find_None_iff by blast
  then show ?thesis by simp
next
  case (Some p)
  then have p: "p \<in> set white_spaces" "prefix p (CHR '' '' # s)" by (auto simp: find_Some_iff)
  then have "p \<noteq> []" using white_space_heads by auto
  then have "hd p = CHR '' ''" using p(2) by (cases p) auto
  then show ?thesis using Some p(1) white_space_blank(2) by auto
qed

lemma fields_from_word: "list_all ink v \<Longrightarrow> fields_from w (v @ s) = fields_from (w @ v) s"
  by (induction v arbitrary: w) (simp_all add: no_space_at)

lemma Fields_join: "list_all ink_word ws \<Longrightarrow> Fields (join_with '' '' ws) = ws"
proof (induction ws)
  case (Cons w ws)
  then have w: "list_all ink w" "w \<noteq> []" and ws: "Fields (join_with '' '' ws) = ws" by (simp_all add: ink_word_def)
  show ?case
  proof (cases "ws = []")
    case True
    then show ?thesis using w fields_from_word[of w "[]" "[]"] by (simp add: Fields_def)
  next
    case False
    have "fields_from [] (w @ '' '' @ join_with '' '' ws) = w # fields_from [] (join_with '' '' ws)"
      using w by (simp add: fields_from_word space_at)
    then show ?thesis using ws False by (simp add: Fields_def join_with_Cons)
  qed
qed (simp add: Fields_def)

subsection \<open>Addresses with a port\<close>

definition byte_index :: "char \<Rightarrow> string \<Rightarrow> nat option" where
  "byte_index c s = (if c \<in> set s then Some (length (takeWhile (\<lambda>d. d \<noteq> c) s)) else None)"

definition last_byte_index :: "char \<Rightarrow> string \<Rightarrow> nat option" where
  "last_byte_index c s = (if c \<in> set s then Some (length s - 1 - length (takeWhile (\<lambda>d. d \<noteq> c) (rev s))) else None)"

text \<open>\<open>net.SplitHostPort\<close>: the host and the port, or an error. The port follows the last colon.\<close>

definition host_port :: "string \<Rightarrow> nat \<Rightarrow> nat \<Rightarrow> nat \<Rightarrow> string \<Rightarrow> (string \<times> string) option" where
  "host_port host i j k s =
     (if CHR ''['' \<in> set (drop j s) \<or> CHR '']'' \<in> set (drop k s) then None else Some (host, drop (i + 1) s))"

definition SplitHostPort :: "string \<Rightarrow> (string \<times> string) option" where
  "SplitHostPort s =
     (case last_byte_index CHR '':'' s of
        None \<Rightarrow> None
      | Some i \<Rightarrow>
          if s ! 0 = CHR ''['' then
            (case byte_index CHR '']'' s of
               None \<Rightarrow> None
             | Some e \<Rightarrow> if e + 1 \<noteq> i then None else host_port (take (e - 1) (drop 1 s)) i 1 (e + 1) s)
          else if CHR '':'' \<in> set (take i s) then None
          else host_port (take i s) i 0 0 s)"

lemma last_byte_index_snoc: "c \<notin> set v \<Longrightarrow> last_byte_index c (u @ c # v) = Some (length u)"
  by (simp add: last_byte_index_def takeWhile_append)

lemma byte_index_append: "c \<notin> set u \<Longrightarrow> byte_index c (u @ c # v) = Some (length u)"
  by (simp add: byte_index_def takeWhile_append)

lemma SplitHostPort_plain:
  assumes "CHR '':'' \<notin> set h" "CHR ''['' \<notin> set (h @ p)" "CHR '']'' \<notin> set (h @ p)" "CHR '':'' \<notin> set p"
  shows "SplitHostPort (h @ '':'' @ p) = Some (h, p)"
proof -
  have f: "(h @ '':'' @ p) ! 0 \<noteq> CHR ''[''" using assms(2) by (cases h) auto
  have i: "last_byte_index CHR '':'' (h @ '':'' @ p) = Some (length h)" using last_byte_index_snoc[OF assms(4)] by simp
  show ?thesis unfolding SplitHostPort_def i using assms f by (simp add: host_port_def)
qed

lemma SplitHostPort_bracketed:
  assumes "CHR ''['' \<notin> set (h @ p)" "CHR '']'' \<notin> set (h @ p)" "CHR '':'' \<notin> set p"
  shows "SplitHostPort (''['' @ h @ '']:'' @ p) = Some (h, p)"
proof -
  have i: "last_byte_index CHR '':'' (''['' @ h @ '']:'' @ p) = Some (length h + 2)"
    using last_byte_index_snoc[OF assms(3), of "''['' @ h @ '']''"] by simp
  have e: "byte_index CHR '']'' (''['' @ h @ '']:'' @ p) = Some (length h + 1)"
    using byte_index_append[of "CHR '']''" "''['' @ h" "'':'' @ p"] assms(2) by simp
  show ?thesis unfolding SplitHostPort_def i e using assms by (simp add: host_port_def)
qed

subsection \<open>Patterns\<close>

text \<open>The class \<open>\s\<close>.\<close>

definition is_blank :: "char \<Rightarrow> bool" where
  "is_blank c = (c \<in> set [CHR 0x09, CHR 0x0A, CHR 0x0C, CHR 0x0D, CHR '' ''])"

end
