(* ===== verification/Icmp_Ping.thy ===== *)
theory Icmp_Ping
  imports Probe_Client Go_Text "HOL-Library.Word"
begin

section \<open>ICMP probing through the platform's ping command\<close>

text \<open>
  Models the OS-ping side of \<open>uvb76/probe\<close>: \<open>cmd_runner.go\<close> (bounded command execution),
  \<open>cmd_runner_semaphore.go\<close>, \<open>cmd_runner_telemetry.go\<close>, \<open>icmp_telemetry.go\<close>,
  \<open>icmp_parse.go\<close>, \<open>icmp_backend.go\<close>, and the scheduling and backend choice of \<open>icmp.go\<close>.

  A pipe is an endless sequence of results of \<open>Read\<close>, as an \<open>io.Reader\<close> may return. The
  loops that read one are \<open>partial_function (option)\<close>: \<open>None\<close> is a loop that does not return,
  and a theorem shows that they do return once the pipe ends. The counters are 64-bit words,
  as the atomics of the code are. The process itself (pipes, exit status, deadline) is an
  argument.
\<close>

subsection \<open>Bounded reads\<close>

datatype read_error = EndOfFile | ReadFailed

record read_result =
  rr_data :: string
  rr_err :: "read_error option"

type_synonym reader = "nat \<Rightarrow> read_result"

text \<open>The loop that drains a pipe after the limit; it yields the number of reads done.\<close>

partial_function (option) drain :: "reader \<Rightarrow> nat \<Rightarrow> nat option" where
  "drain r i = (case rr_err (r i) of Some e \<Rightarrow> Some (Suc i) | None \<Rightarrow> drain r (Suc i))"

text \<open>
  The loop into the bounded buffer. It yields the reads done, the buffer, the truncation flag,
  and whether it returned at the end of the file rather than left the loop by \<open>break\<close>.
\<close>

partial_function (option) read_loop :: "reader \<Rightarrow> nat \<Rightarrow> nat \<Rightarrow> string \<Rightarrow> bool \<Rightarrow> (nat \<times> string \<times> bool \<times> bool) option" where
  "read_loop r limit i buf truncated =
     (if \<not> length buf < limit then Some (i, buf, truncated, False)
      else let d = rr_data (r i);
               over = (d \<noteq> [] \<and> length buf + length d > limit);
               truncated' = (truncated \<or> over);
               buf' = (if over then buf @ take (limit - length buf) d else buf @ d)
           in if d \<noteq> [] \<and> length buf' \<ge> limit then Some (Suc i, buf', truncated', False)
              else case rr_err (r i) of
                     Some EndOfFile \<Rightarrow> Some (Suc i, buf', truncated', True)
                   | Some ReadFailed \<Rightarrow> Some (Suc i, buf', truncated', False)
                   | None \<Rightarrow> read_loop r limit (Suc i) buf' truncated')"

definition copyBoundedWithBuf :: "reader \<Rightarrow> nat \<Rightarrow> (string \<times> bool) option" where
  "copyBoundedWithBuf r limit =
     Option.bind (read_loop r limit 0 [] False) (\<lambda>(i, buf, truncated, eof).
       if eof then Some (buf, truncated)
       else if truncated \<or> length buf \<ge> limit then Option.bind (drain r i) (\<lambda>_. Some (buf, True))
       else Some (buf, truncated))"

definition copyBounded :: "reader \<Rightarrow> nat \<Rightarrow> (string \<times> bool) option" where
  "copyBounded r limit = copyBoundedWithBuf r limit"

subsection \<open>Running the command\<close>

datatype ping_error =
    ErrPingTimeout | ErrPingUnreachable | ErrPingParseError | ErrCommand string

fun ping_error_text :: "ping_error \<Rightarrow> string" where
  "ping_error_text ErrPingTimeout = ''ping timeout''"
| "ping_error_text ErrPingUnreachable = ''host unreachable''"
| "ping_error_text ErrPingParseError = ''failed to parse ping output''"
| "ping_error_text (ErrCommand e) = e"

record command_result =
  cr_stdout :: string
  cr_stderr :: string
  cr_exit_code :: int
  cr_timed_out :: bool
  cr_truncated :: bool
  cr_err :: "ping_error option"

record bounded_runner =
  br_max_stdout :: nat
  br_max_stderr :: nat

definition NewBoundedCommandRunner :: bounded_runner where
  "NewBoundedCommandRunner = \<lparr>br_max_stdout = 4096, br_max_stderr = 1024\<rparr>"

text \<open>What the operating system does with the command: errors before it runs, its pipes, its end.\<close>

record process_env =
  px_stdout_pipe :: "string option"
  px_stderr_pipe :: "string option"
  px_start :: "string option"
  px_stdout :: reader
  px_stderr :: reader
  px_wait :: "string option"
  px_exit :: "int option"
  px_deadline :: bool

definition failed_start :: "string \<Rightarrow> command_result" where
  "failed_start e = \<lparr>cr_stdout = [], cr_stderr = [], cr_exit_code = 0, cr_timed_out = False, cr_truncated = False,
     cr_err = Some (ErrCommand e)\<rparr>"

definition run_command :: "bounded_runner \<Rightarrow> process_env \<Rightarrow> command_result option" where
  "run_command br env =
     (case px_stdout_pipe env of Some e \<Rightarrow> Some (failed_start e) | None \<Rightarrow>
      (case px_stderr_pipe env of Some e \<Rightarrow> Some (failed_start e) | None \<Rightarrow>
       (case px_start env of Some e \<Rightarrow> Some (failed_start e) | None \<Rightarrow>
         Option.bind (copyBoundedWithBuf (px_stdout env) (br_max_stdout br)) (\<lambda>(out, outTruncated).
         Option.bind (copyBoundedWithBuf (px_stderr env) (br_max_stderr br)) (\<lambda>(err, errTruncated).
           Some \<lparr>cr_stdout = out, cr_stderr = err,
             cr_exit_code = (case px_wait env of None \<Rightarrow> 0 | Some _ \<Rightarrow> (case px_exit env of None \<Rightarrow> 0 | Some n \<Rightarrow> n)),
             cr_timed_out = px_deadline env, cr_truncated = outTruncated \<or> errTruncated,
             cr_err = (if px_deadline env then Some ErrPingTimeout else map_option ErrCommand (px_wait env))\<rparr>)))))"

subsection \<open>Parsing the output of ping\<close>

text \<open>
  The pattern \<open>time[=<]?\s*([0-9.]+)\s*ms\<close>: the class of the group shares no character with
  what may follow it, so a greedy match never backtracks; the search takes the first position.
\<close>

definition is_numeric :: "char \<Rightarrow> bool" where
  "is_numeric c = (is_digit c \<or> c = CHR ''.'')"

definition match_time :: "string \<Rightarrow> string option" where
  "match_time s =
     (if \<not> has_prefix s ''time'' then None
      else let r = drop 4 s;
               r1 = (if r \<noteq> [] \<and> (hd r = CHR ''='' \<or> hd r = CHR ''<'') then tl r else r);
               r2 = dropWhile is_blank r1;
               group = takeWhile is_numeric r2;
               r3 = dropWhile is_blank (dropWhile is_numeric r2)
           in if group \<noteq> [] \<and> has_prefix r3 ''ms'' then Some group else None)"

fun find_time :: "string \<Rightarrow> string option" where
  "find_time [] = None"
| "find_time (c # s) = (case match_time (c # s) of Some g \<Rightarrow> Some g | None \<Rightarrow> find_time s)"

text \<open>\<open>strconv.ParseFloat\<close> on digits and points: one point at most, a digit at least, correctly rounded, an error on overflow.\<close>

definition ParseFloat :: "string \<Rightarrow> f64 option" where
  "ParseFloat s =
     (let whole = takeWhile (\<lambda>c. c \<noteq> CHR ''.'') s;
          frac = (case dropWhile (\<lambda>c. c \<noteq> CHR ''.'') s of [] \<Rightarrow> [] | _ # t \<Rightarrow> t)
      in if whole @ frac = [] \<or> \<not> list_all is_digit (whole @ frac) then None
         else (case round64 (of_nat (digits_value (whole @ frac)) / 10 ^ length frac) of Fin q \<Rightarrow> Some (Fin q) | _ \<Rightarrow> None))"

definition ParsePingTime :: "string \<Rightarrow> ping_error + f64" where
  "ParsePingTime line =
     (case find_time line of
        None \<Rightarrow> Inl ErrPingParseError
      | Some timeStr \<Rightarrow> (case ParseFloat timeStr of None \<Rightarrow> Inl ErrPingParseError | Some ms \<Rightarrow> Inr ms))"

text \<open>
  \<open>bufio.Scanner\<close> over lines: a last line without a newline counts if it is not empty, a
  carriage return before the newline is dropped, and a line that fills the 64 KiB buffer ends
  the scan.
\<close>

fun raw_lines :: "string \<Rightarrow> string \<Rightarrow> string list" where
  "raw_lines acc [] = (if acc = [] then [] else [rev acc])"
| "raw_lines acc (c # s) = (if c = CHR 0x0A then rev acc # raw_lines [] s else raw_lines (c # acc) s)"

definition drop_cr :: "string \<Rightarrow> string" where
  "drop_cr l = (if l \<noteq> [] \<and> last l = CHR 0x0D then butlast l else l)"

definition scan_lines :: "string \<Rightarrow> string list" where
  "scan_lines s = map drop_cr (takeWhile (\<lambda>l. length l < 65536) (raw_lines [] s))"

fun first_ping_time :: "string list \<Rightarrow> ping_error + duration" where
  "first_ping_time [] = Inl ErrPingParseError"
| "first_ping_time (line # ls) =
     (case ParsePingTime line of
        Inr ms \<Rightarrow> Inr (int_of_f (fmul ms (f_of_int ns_per_ms)))
      | Inl _ \<Rightarrow> first_ping_time ls)"

definition parsePingOutput :: "string \<Rightarrow> ping_error + duration" where
  "parsePingOutput output = first_ping_time (scan_lines output)"

subsection \<open>Counters and telemetry\<close>

type_synonym counter = "64 word"

record ping_counters =
  pc_started :: counter
  pc_completed :: counter
  pc_timeout :: counter
  pc_truncated :: counter
  pc_error :: counter
  pc_inflight :: counter

record ping_telemetry =
  pt_enabled :: bool
  pt_attempts :: counter
  pt_successes :: counter
  pt_failures :: counter
  pt_max_concurrent :: int
  pt_last_error :: string

record ping_metrics =
  pm_counters :: ping_counters
  pm_telemetry :: "ping_telemetry option"

definition ResetICMPPingCounters :: ping_counters where
  "ResetICMPPingCounters = \<lparr>pc_started = 0, pc_completed = 0, pc_timeout = 0, pc_truncated = 0, pc_error = 0, pc_inflight = 0\<rparr>"

definition IncPingStarted :: "ping_counters \<Rightarrow> ping_counters" where
  "IncPingStarted c = c\<lparr>pc_started := pc_started c + 1, pc_inflight := pc_inflight c + 1\<rparr>"

definition IncPingCompleted :: "ping_counters \<Rightarrow> ping_counters" where
  "IncPingCompleted c = c\<lparr>pc_completed := pc_completed c + 1, pc_inflight := pc_inflight c - 1\<rparr>"

definition IncPingTimeout :: "ping_counters \<Rightarrow> ping_counters" where
  "IncPingTimeout c = c\<lparr>pc_timeout := pc_timeout c + 1\<rparr>"

definition IncPingTruncated :: "ping_counters \<Rightarrow> ping_counters" where
  "IncPingTruncated c = c\<lparr>pc_truncated := pc_truncated c + 1\<rparr>"

definition IncPingError :: "ping_counters \<Rightarrow> ping_counters" where
  "IncPingError c = c\<lparr>pc_error := pc_error c + 1\<rparr>"

definition MaxLastErrorLen :: nat where "MaxLastErrorLen = 256"

definition NewICMPPingTelemetry :: "bool \<Rightarrow> int \<Rightarrow> ping_telemetry" where
  "NewICMPPingTelemetry enabled maxConcurrent =
     \<lparr>pt_enabled = enabled, pt_attempts = 0, pt_successes = 0, pt_failures = 0, pt_max_concurrent = maxConcurrent,
      pt_last_error = []\<rparr>"

definition InitGlobalICMPTelemetry :: "bool \<Rightarrow> int \<Rightarrow> ping_telemetry option \<Rightarrow> ping_telemetry option" where
  "InitGlobalICMPTelemetry enabled maxConcurrent g =
     (case g of None \<Rightarrow> Some (NewICMPPingTelemetry enabled maxConcurrent) | Some t \<Rightarrow> Some t)"

definition ResetGlobalICMPTelemetry :: "ping_telemetry option \<Rightarrow> ping_telemetry option" where
  "ResetGlobalICMPTelemetry g =
     map_option (\<lambda>t. t\<lparr>pt_attempts := 0, pt_successes := 0, pt_failures := 0, pt_last_error := []\<rparr>) g"

definition RecordAttempt :: "ping_telemetry \<Rightarrow> ping_telemetry" where
  "RecordAttempt t = t\<lparr>pt_attempts := pt_attempts t + 1\<rparr>"

definition RecordSuccess :: "ping_telemetry \<Rightarrow> ping_telemetry" where
  "RecordSuccess t = t\<lparr>pt_successes := pt_successes t + 1\<rparr>"

definition RecordFailure :: "string \<Rightarrow> ping_telemetry \<Rightarrow> ping_telemetry" where
  "RecordFailure errMsg t =
     t\<lparr>pt_failures := pt_failures t + 1,
       pt_last_error := (if length errMsg > MaxLastErrorLen then take MaxLastErrorLen errMsg else errMsg)\<rparr>"

definition count :: "(ping_counters \<Rightarrow> ping_counters) \<Rightarrow> ping_metrics \<Rightarrow> ping_metrics" where
  "count f pm = pm\<lparr>pm_counters := f (pm_counters pm)\<rparr>"

definition tell :: "(ping_telemetry \<Rightarrow> ping_telemetry) \<Rightarrow> ping_metrics \<Rightarrow> ping_metrics" where
  "tell f pm = pm\<lparr>pm_telemetry := map_option f (pm_telemetry pm)\<rparr>"

subsection \<open>One ping\<close>

definition host_down_output :: "string \<Rightarrow> bool" where
  "host_down_output s \<longleftrightarrow> contains s ''Destination Host Unreachable'' \<or> contains s ''Request timeout'' \<or> contains s ''100% packet loss''"

text \<open>The seconds passed to \<open>ping -W\<close>: \<open>int(timeout.Seconds())\<close>, at least one.\<close>

definition ping_timeout_secs :: "duration \<Rightarrow> int" where
  "ping_timeout_secs timeout = (let s = int_of_f (go_seconds timeout) in if s < 1 then 1 else s)"

definition PingOSWithRunner :: "command_result \<Rightarrow> ping_metrics \<Rightarrow> (ping_error + duration) \<times> ping_metrics" where
  "PingOSWithRunner result pm0 =
     (let pm1 = tell RecordAttempt (count IncPingStarted pm0);
          (answer, pm2) =
            (if cr_timed_out result
             then (Inl ErrPingTimeout, tell (RecordFailure ''timeout'') (count IncPingTimeout pm1))
             else let pmt = (if cr_truncated result then count IncPingTruncated pm1 else pm1)
               in case cr_err result of
                    Some e \<Rightarrow>
                      (if host_down_output (cr_stdout result @ cr_stderr result)
                       then (Inl ErrPingUnreachable, tell (RecordFailure ''unreachable'') pmt)
                       else (Inl e, tell (RecordFailure (ping_error_text e)) (count IncPingError pmt)))
                  | None \<Rightarrow>
                      (case parsePingOutput (cr_stdout result) of
                         Inl e \<Rightarrow> (Inl e, tell (RecordFailure (ping_error_text e)) (count IncPingError pmt))
                       | Inr latency \<Rightarrow> (Inr latency, tell RecordSuccess pmt)))
      in (answer, count IncPingCompleted pm2))"

text \<open>The ping of \<open>OSPingBackend\<close> with the bounded runner: \<open>None\<close> is a command that never returns.\<close>

definition os_ping :: "process_env \<Rightarrow> ping_metrics \<Rightarrow> ((ping_error + duration) \<times> ping_metrics) option" where
  "os_ping env pm = map_option (\<lambda>result. PingOSWithRunner result pm) (run_command NewBoundedCommandRunner env)"

text \<open>\<open>PingOS\<close>, the variant without the bounded runner and without telemetry.\<close>

definition PingOS :: "string \<Rightarrow> string option \<Rightarrow> bool \<Rightarrow> ping_error + duration" where
  "PingOS output err deadline =
     (case err of
        Some e \<Rightarrow> if deadline then Inl ErrPingTimeout
                  else if host_down_output output then Inl ErrPingUnreachable else Inl (ErrCommand e)
      | None \<Rightarrow> parsePingOutput output)"

subsection \<open>The semaphore, and the guard of the probe loop\<close>

record exec_semaphore =
  es_capacity :: nat
  es_held :: nat
  es_started :: counter

definition NewOSExecSemaphore :: "int \<Rightarrow> exec_semaphore" where
  "NewOSExecSemaphore maxConcurrent =
     \<lparr>es_capacity = nat (if maxConcurrent \<le> 0 then 1 else maxConcurrent), es_held = 0, es_started = 0\<rparr>"

text \<open>
  \<open>Acquire\<close> counts the caller and then sends to the channel, which blocks while it is full;
  \<open>Release\<close> receives. A guard releases once, however often it is asked to.
\<close>

definition sem_announce :: "exec_semaphore \<Rightarrow> exec_semaphore" where
  "sem_announce s = s\<lparr>es_started := es_started s + 1\<rparr>"

definition sem_send :: "exec_semaphore \<Rightarrow> exec_semaphore option" where
  "sem_send s = (if es_held s < es_capacity s then Some (s\<lparr>es_held := es_held s + 1\<rparr>) else None)"

definition sem_release :: "exec_semaphore \<Rightarrow> exec_semaphore option" where
  "sem_release s = (if es_held s = 0 then None else Some (s\<lparr>es_held := es_held s - 1\<rparr>))"

definition guard_release :: "bool \<times> exec_semaphore \<Rightarrow> (bool \<times> exec_semaphore) option" where
  "guard_release g = (if fst g then map_option (Pair False) (sem_release (snd g)) else Some g)"

definition getSemaphore :: "exec_semaphore option \<Rightarrow> exec_semaphore" where
  "getSemaphore s = (case s of None \<Rightarrow> NewOSExecSemaphore 1 | Some s \<Rightarrow> s)"

text \<open>A call of \<open>OSPingBackend.Ping\<close> is waiting for its slot, running, or done.\<close>

datatype ping_call = Waiting | Running | Done

inductive ping_step :: "exec_semaphore \<times> ping_call list \<Rightarrow> exec_semaphore \<times> ping_call list \<Rightarrow> bool" where
  announce: "ping_step (s, calls) (sem_announce s, calls @ [Waiting])"
| acquire: "sem_send s = Some s' \<Longrightarrow> ping_step (s, xs @ Waiting # ys) (s', xs @ Running # ys)"
| release: "guard_release (True, s) = Some (False, s') \<Longrightarrow> ping_step (s, xs @ Running # ys) (s', xs @ Done # ys)"

subsection \<open>The ICMP client: choice of the backend, guard of the probes in flight\<close>

datatype backend_choice = NoBackend | NativeBackend | OSPing int | BackendError string

definition choose_backend :: "icmp_probe_config \<Rightarrow> string option \<Rightarrow> backend_choice" where
  "choose_backend cfg nativeError =
     (if \<not> icmp_IsEnabled cfg then NoBackend
      else if BackendType cfg = ICMPBackendNative then
        (case nativeError of
           Some e \<Rightarrow> BackendError (''native ICMP backend unavailable: '' @ e @ ''; set icmp.backend=os_ping to use legacy fallback explicitly'')
         | None \<Rightarrow> NativeBackend)
      else if BackendType cfg = ICMPBackendOSPing then OSPing (ip_max_ping cfg)
      else BackendError (''unknown ICMP backend type: '' @ BackendType cfg))"

type_synonym in_flight = "string \<Rightarrow> bool"

definition reserve_probe :: "string \<Rightarrow> in_flight \<Rightarrow> bool \<times> in_flight" where
  "reserve_probe t f = (if \<not> f t then (True, f(t := True)) else (False, f))"

definition finish_probe :: "string \<Rightarrow> in_flight \<Rightarrow> in_flight" where
  "finish_probe t f = f(t := False)"

fun probeAll :: "bool \<Rightarrow> target_config list \<Rightarrow> in_flight \<Rightarrow> string list \<times> in_flight" where
  "probeAll enabled [] f = ([], f)"
| "probeAll enabled (t # ts) f =
     (if \<not> enabled then ([], f)
      else if tg_enabled t \<and> fst (reserve_probe (tg_id t) f)
      then (let (started, f') = probeAll enabled ts (snd (reserve_probe (tg_id t) f)) in (tg_id t # started, f'))
      else probeAll enabled ts f)"

subsection \<open>The bounded reads return, with exactly the first bytes\<close>

text \<open>A pipe whose read number \<open>k\<close> is the first to report an error, and that keeps reporting one, as an ended pipe does.\<close>

definition pipe_ends :: "reader \<Rightarrow> nat \<Rightarrow> bool" where
  "pipe_ends r k \<longleftrightarrow> (\<forall>i<k. rr_err (r i) = None) \<and> (\<forall>i\<ge>k. rr_err (r i) \<noteq> None)"

definition pipe_output :: "reader \<Rightarrow> nat \<Rightarrow> nat \<Rightarrow> string" where
  "pipe_output r i k = concat (map (\<lambda>j. rr_data (r j)) [i..<Suc k])"

lemma pipe_output_step: "i \<le> k \<Longrightarrow> pipe_output r i k = rr_data (r i) @ pipe_output r (Suc i) k"
  by (simp add: pipe_output_def upt_conv_Cons del: upt_Suc)

lemma pipe_output_end: "pipe_output r (Suc k) k = []"
  by (simp add: pipe_output_def)

lemma drain_returns: "i \<le> n \<Longrightarrow> rr_err (r n) \<noteq> None \<Longrightarrow> \<exists>m. drain r i = Some m"
proof (induction "n - i" arbitrary: i)
  case 0
  then show ?case by (subst drain.simps) auto
next
  case (Suc d)
  then show ?case by (subst drain.simps) (auto split: option.splits)
qed

lemma read_loop_returns:
  assumes "pipe_ends r k" "i \<le> k" "length buf < limit"
  shows "\<exists>j t. j \<le> Suc k \<and> read_loop r limit i buf False = Some (j, take limit (buf @ pipe_output r i k), t,
      length (buf @ pipe_output r i k) < limit \<and> rr_err (r k) = Some EndOfFile)
    \<and> (length (buf @ pipe_output r i k) < limit \<longrightarrow> \<not> t)"
  using assms(2,3)
proof (induction "k - i" arbitrary: i buf)
  case 0
  then have i: "i = k" by simp
  have out: "pipe_output r k k = rr_data (r k)" by (simp add: pipe_output_step pipe_output_end)
  obtain e where e: "rr_err (r k) = Some e" using assms(1) by (auto simp: pipe_ends_def)
  show ?case
    by (subst read_loop.simps, cases e) (use 0 e in \<open>auto simp: out i Let_def\<close>)
next
  case (Suc d)
  then have lt: "i < k" by simp
  have n: "rr_err (r i) = None" using assms(1) lt by (simp add: pipe_ends_def)
  have out: "pipe_output r i k = rr_data (r i) @ pipe_output r (Suc i) k" using lt by (simp add: pipe_output_step)
  show ?case
  proof (cases "length (buf @ rr_data (r i)) < limit")
    case True
    then have step: "read_loop r limit i buf False = read_loop r limit (Suc i) (buf @ rr_data (r i)) False"
      using Suc.prems by (subst read_loop.simps) (simp add: n Let_def)
    show ?thesis
      using Suc.hyps(1)[of "Suc i" "buf @ rr_data (r i)"] Suc.hyps(2) lt True by (simp add: step out)
  next
    case False
    then have d: "rr_data (r i) \<noteq> []" using Suc.prems by auto
    show ?thesis using Suc.prems False d lt by (subst read_loop.simps) (auto simp: out Let_def)
  qed
qed

lemma copy_exact:
  assumes "pipe_ends r k"
  shows "copyBoundedWithBuf r limit = Some (take limit (pipe_output r 0 k), length (pipe_output r 0 k) \<ge> limit)"
proof (cases "limit = 0")
  case True
  then have "read_loop r limit 0 [] False = Some (0, [], False, False)" by (subst read_loop.simps) simp
  moreover obtain m where "drain r 0 = Some m" using drain_returns[of 0 k r] assms by (auto simp: pipe_ends_def)
  ultimately show ?thesis by (simp add: copyBoundedWithBuf_def True)
next
  case False
  obtain j t where *: "j \<le> Suc k"
    "read_loop r limit 0 [] False = Some (j, take limit (pipe_output r 0 k), t,
       length (pipe_output r 0 k) < limit \<and> rr_err (r k) = Some EndOfFile)"
    "length (pipe_output r 0 k) < limit \<longrightarrow> \<not> t"
    using read_loop_returns[OF assms, of 0 "[]" limit] False by auto
  moreover obtain m where "drain r j = Some m"
    using drain_returns[OF *(1), of r] assms by (auto simp: pipe_ends_def)
  ultimately show ?thesis by (auto simp: copyBoundedWithBuf_def not_less)
qed

text \<open>
  Capturing the output of a command ends and is exact. If the pipe ends, with whatever
  chunks and with the end of the file or an error, the bounded copy returns; what it returns
  are the first bytes of everything the command wrote, up to the limit, so no command can
  make the daemon hold more; and the flag is set exactly if the command wrote at least the
  limit.
\<close>

theorem copyBounded_exact:
  "pipe_ends r k \<Longrightarrow>
   copyBoundedWithBuf r limit = Some (take limit (pipe_output r 0 k), length (pipe_output r 0 k) \<ge> limit)"
  by (rule copy_exact)

text \<open>A whole ping through the bounded runner returns as soon as both pipes end.\<close>

lemma run_command_returns:
  assumes "pipe_ends (px_stdout env) k" "pipe_ends (px_stderr env) l"
  shows "\<exists>result. run_command br env = Some result \<and> length (cr_stdout result) \<le> br_max_stdout br
    \<and> length (cr_stderr result) \<le> br_max_stderr br"
  using copy_exact[OF assms(1)] copy_exact[OF assms(2)]
  by (simp add: run_command_def failed_start_def split: option.splits)

subsection \<open>Every ping is counted once\<close>

lemma PingOSWithRunner_telemetry:
  fixes result pm
  defines "answer \<equiv> fst (PingOSWithRunner result pm)" and "pm' \<equiv> snd (PingOSWithRunner result pm)"
  shows "pc_started (pm_counters pm') = pc_started (pm_counters pm) + 1"
    "pc_completed (pm_counters pm') = pc_completed (pm_counters pm) + 1"
    "pc_inflight (pm_counters pm') = pc_inflight (pm_counters pm)"
    "pm_telemetry pm' = map_option (\<lambda>t. case answer of
        Inr _ \<Rightarrow> RecordSuccess (RecordAttempt t)
      | Inl e \<Rightarrow> RecordFailure (if cr_timed_out result then ''timeout'' else if cr_err result \<noteq> None
            \<and> host_down_output (cr_stdout result @ cr_stderr result) then ''unreachable'' else ping_error_text e) (RecordAttempt t))
       (pm_telemetry pm)"
  unfolding answer_def pm'_def
  by (auto simp: PingOSWithRunner_def Let_def tell_def count_def IncPingStarted_def IncPingCompleted_def IncPingTimeout_def
      IncPingTruncated_def IncPingError_def option.map_comp comp_def
      split: option.splits sum.splits)

definition ping_answer :: "command_result \<Rightarrow> ping_error + duration" where
  "ping_answer result = fst (PingOSWithRunner result \<lparr>pm_counters = ResetICMPPingCounters, pm_telemetry = None\<rparr>)"

lemma ping_answer_indep: "fst (PingOSWithRunner result pm) = ping_answer result"
  by (simp add: ping_answer_def PingOSWithRunner_def Let_def split: option.split sum.split)

definition run_pings :: "command_result list \<Rightarrow> ping_metrics \<Rightarrow> ping_metrics" where
  "run_pings results pm = fold (\<lambda>result pm. snd (PingOSWithRunner result pm)) results pm"

definition answered :: "command_result \<Rightarrow> bool" where
  "answered result = (case ping_answer result of Inl _ \<Rightarrow> False | Inr _ \<Rightarrow> True)"

lemma run_pings_snoc: "run_pings (results @ [result]) pm = snd (PingOSWithRunner result (run_pings results pm))"
  by (simp add: run_pings_def)

text \<open>
  The books of the daemon balance. After any sequence of pings from a fresh telemetry, as
  many pings are completed as were started and none is left in flight; the telemetry counts
  every ping as one attempt, every answer as one success and everything else as one failure,
  modulo the 64 bits of the counters; and the stored error text never exceeds 256 bytes,
  whatever the command wrote.
\<close>

theorem ping_accounting:
  fixes results enabled slots
  defines "pm \<equiv> run_pings results \<lparr>pm_counters = ResetICMPPingCounters, pm_telemetry = Some (NewICMPPingTelemetry enabled slots)\<rparr>"
  shows "pc_started (pm_counters pm) = of_nat (length results) \<and> pc_completed (pm_counters pm) = of_nat (length results)
    \<and> pc_inflight (pm_counters pm) = 0
    \<and> (\<exists>t. pm_telemetry pm = Some t \<and> pt_attempts t = of_nat (length results)
        \<and> pt_successes t = of_nat (length (filter answered results))
        \<and> pt_failures t = of_nat (length (filter (\<lambda>r. \<not> answered r) results))
        \<and> pt_attempts t = pt_successes t + pt_failures t
        \<and> length (pt_last_error t) \<le> 256)"
  unfolding pm_def
proof (induction results rule: rev_induct)
  case Nil
  then show ?case by (simp add: run_pings_def ResetICMPPingCounters_def NewICMPPingTelemetry_def)
next
  case (snoc r rs)
  then show ?case
    by (cases "ping_answer r")
      (auto simp: run_pings_snoc PingOSWithRunner_telemetry ping_answer_indep answered_def RecordSuccess_def RecordAttempt_def
        RecordFailure_def MaxLastErrorLen_def)
qed

subsection \<open>The time that ping prints is the time that is stored\<close>

declare show_nat.simps [simp del]

lemma ParseFloat_show:
  assumes "n < 2 ^ 53"
  shows "ParseFloat (show_nat n) = Some (Fin (of_nat n))"
proof -
  have d: "list_all is_digit (show_nat n)" using show_nat_digits by (simp add: digit_string_is_digit)
  have cut: "takeWhile (\<lambda>c. c \<noteq> CHR ''.'') (show_nat n) = show_nat n" "dropWhile (\<lambda>c. c \<noteq> CHR ''.'') (show_nat n) = []"
    using d by (auto simp: list_all_iff is_digit_def)
  have "round64 (of_nat n) = Fin (of_nat n)"
    using round64_of_int[of "int n"] assms by simp
  then show ?thesis using d show_nat_nonempty[of n] by (simp add: ParseFloat_def Let_def digits_value_show cut)
qed

lemma match_time_prefix: "match_time s \<noteq> None \<Longrightarrow> has_prefix s ''time''"
  by (auto simp: match_time_def split: if_splits)

lemma find_time_skip:
  assumes "\<not> str_contains u ''time''"
  shows "find_time (u @ ''time'' @ v) = find_time (''time'' @ v)"
  using assms
proof (induction u)
  case (Cons c u)
  have "\<not> has_prefix (c # u @ ''time'' @ v) ''time''"
  proof
    assume p: "has_prefix (c # u @ ''time'' @ v) ''time''"
    have "\<not> has_prefix (c # u) ''time''" using Cons.prems by auto
    with p show False
      by (cases u; cases "tl u"; cases "tl (tl u)"; cases "tl (tl (tl u))") (auto simp: has_prefix_def)
  qed
  then have "match_time (c # u @ ''time'' @ v) = None" using match_time_prefix by blast
  then show ?case using Cons by simp
qed simp

lemma takeWhile_digits:
  assumes "digit_string w" "\<not> is_numeric c"
  shows "takeWhile is_numeric (w @ c # v) = w" "dropWhile is_numeric (w @ c # v) = c # v"
  using assms by (induction w) (auto simp: digit_string_is_digit is_numeric_def)

lemma match_time_digits:
  assumes "digit_string w" "w \<noteq> []"
  shows "match_time (''time='' @ w @ '' ms'' @ v) = Some w"
proof -
  have b: "\<not> is_numeric CHR '' ''" "is_blank CHR '' ''" "\<not> is_blank CHR ''m''" by code_simp+
  have "\<not> is_blank (hd w)" using assms by (cases w) (auto simp: digit_string_is_digit is_blank_def is_digit_def)
  then have d: "dropWhile is_blank (w @ x) = w @ x" for x using assms(2) by (cases w) simp_all
  show ?thesis
    using assms(2) takeWhile_digits[OF assms(1) b(1), of "''ms'' @ v"]
    by (simp add: match_time_def has_prefix_def Let_def d b)
qed

lemma ParsePingTime_digits:
  assumes "\<not> str_contains u ''time''" "n < 2 ^ 53"
  shows "ParsePingTime (u @ ''time='' @ show_nat n @ '' ms'' @ v) = Inr (Fin (of_nat n))"
proof -
  have "find_time (''time='' @ show_nat n @ '' ms'' @ v) = Some (show_nat n)"
    using match_time_digits[OF show_nat_digits show_nat_nonempty, of n v] by simp
  moreover have "find_time (u @ ''time='' @ show_nat n @ '' ms'' @ v) = find_time (''time='' @ show_nat n @ '' ms'' @ v)"
    using find_time_skip[OF assms(1), of "''='' @ show_nat n @ '' ms'' @ v"] by simp
  ultimately show ?thesis using ParseFloat_show[OF assms(2)] by (simp add: ParsePingTime_def)
qed

text \<open>Splitting an output into its lines.\<close>

definition line_ok :: "string \<Rightarrow> bool" where
  "line_ok l \<longleftrightarrow> CHR 0x0A \<notin> set l \<and> length l < 65536 \<and> (l \<noteq> [] \<longrightarrow> last l \<noteq> CHR 0x0D)"

lemma raw_lines_acc: "CHR 0x0A \<notin> set l \<Longrightarrow> raw_lines acc (l @ CHR 0x0A # s) = (rev acc @ l) # raw_lines [] s"
  by (induction l arbitrary: acc) auto

lemma scan_lines_cons: "line_ok l \<Longrightarrow> scan_lines (l @ CHR 0x0A # s) = l # scan_lines s"
  by (auto simp: scan_lines_def raw_lines_acc line_ok_def drop_cr_def)

lemma scan_lines_concat:
  "list_all line_ok ls \<Longrightarrow> scan_lines (concat (map (\<lambda>l. l @ [CHR 0x0A]) ls) @ s) = ls @ scan_lines s"
  by (induction ls) (simp_all add: scan_lines_cons)

lemma find_time_contains: "find_time s \<noteq> None \<Longrightarrow> str_contains s ''time''"
proof (induction s)
  case (Cons c s)
  then show ?case using match_time_prefix[of "c # s"] by (auto split: option.splits)
qed simp

lemma first_ping_time_skip:
  "list_all (\<lambda>l. \<not> str_contains l ''time'') ls \<Longrightarrow> first_ping_time (ls @ rest) = first_ping_time rest"
  by (induction ls) (auto simp: ParsePingTime_def split: option.splits dest: find_time_contains[OF option.discI] simp del: find_time.simps)

text \<open>
  The time that ping prints is the time that is measured. If the output has the reply
  line, with a time of n milliseconds, after lines that do not mention a time (the banner),
  and before anything else (the statistics, whose text also has the word time), the result is
  exactly n milliseconds in nanoseconds, for up to 24 days.
\<close>

theorem ping_output_measured:
  assumes "list_all line_ok banner" "list_all (\<lambda>l. \<not> str_contains l ''time'') banner"
    and "\<not> str_contains u ''time''" and "line_ok (u @ ''time='' @ show_nat n @ '' ms'')" and "n < 2 ^ 31"
  shows "parsePingOutput (concat (map (\<lambda>l. l @ [CHR 0x0A]) banner) @ u @ ''time='' @ show_nat n @ '' ms'' @ CHR 0x0A # rest)
    = Inr (int n * ns_per_ms)"
proof -
  let ?reply = "u @ ''time='' @ show_nat n @ '' ms''"
  have "ParsePingTime ?reply = Inr (Fin (of_nat n))" using ParsePingTime_digits[OF assms(3), of n "[]"] assms(5) by simp
  moreover have "int_of_f (fmul (Fin (of_nat n)) (f_of_int ns_per_ms)) = int n * ns_per_ms"
  proof -
    have b: "int n * 1000000 \<le> 2 ^ 53" using assms(5) by simp
    have m: "f_of_int ns_per_ms = Fin (of_int 1000000)" by (simp add: f_of_int_exact ns_per_ms_def)
    have "round64 (of_nat n * of_int 1000000) = round64 (of_int (int n * 1000000))" by simp
    also have "\<dots> = Fin (of_int (int n * 1000000))" using b by (intro round64_of_int) simp
    finally have r: "round64 (of_nat n * of_int 1000000) = Fin (of_int (int n * 1000000))" .
    have "in_int64 (int n * 1000000)" using b by (simp add: in_int64_def)
    then have "int_of_f (Fin (of_int (int n * 1000000))) = int n * 1000000"
      by (simp only: int_of_f.simps floor_of_int ceiling_of_int Let_def if_True if_cancel)
    then show ?thesis by (simp only: m fmul.simps r) (simp add: ns_per_ms_def)
  qed
  ultimately have "first_ping_time (?reply # ls) = Inr (int n * ns_per_ms)" for ls by simp
  moreover have "scan_lines (concat (map (\<lambda>l. l @ [CHR 0x0A]) banner) @ ?reply @ CHR 0x0A # rest) = banner @ ?reply # scan_lines rest"
    using scan_lines_concat[OF assms(1)] scan_lines_cons[OF assms(4)] by simp
  ultimately show ?thesis using first_ping_time_skip[OF assms(2)] by (simp add: parsePingOutput_def)
qed

subsection \<open>At most the configured number of pings runs\<close>

lemma ping_step_bounded:
  assumes "ping_step st st'"
    and "es_held (fst st) = length (filter (\<lambda>c. c = Running) (snd st))" "es_held (fst st) \<le> es_capacity (fst st)"
  shows "es_capacity (fst st') = es_capacity (fst st)
    \<and> es_held (fst st') = length (filter (\<lambda>c. c = Running) (snd st')) \<and> es_held (fst st') \<le> es_capacity (fst st')"
  using assms
  by cases (auto simp: sem_announce_def sem_send_def guard_release_def sem_release_def split: if_splits)

text \<open>
  C29. The router is never flooded with ping processes. Starting from the backend's semaphore,
  in every reachable state of any number of concurrent calls at most the configured number
  of pings runs, at least one being allowed whatever is configured, and a waiting call can
  proceed whenever a slot is free.
\<close>

theorem ping_concurrency_bounded:
  assumes "ping_step\<^sup>*\<^sup>* (NewOSExecSemaphore slots, []) (s, calls)"
  shows "length (filter (\<lambda>c. c = Running) calls) \<le> nat (max 1 slots)
    \<and> (if Waiting \<in> set calls \<and> length (filter (\<lambda>c. c = Running) calls) < nat (max 1 slots)
       then \<exists>st. ping_step (s, calls) st \<and> length (filter (\<lambda>c. c = Waiting) (snd st)) < length (filter (\<lambda>c. c = Waiting) calls)
       else True)"
proof -
  have inv: "es_capacity (fst st) = nat (max 1 slots) \<and> es_held (fst st) = length (filter (\<lambda>c. c = Running) (snd st))
      \<and> es_held (fst st) \<le> es_capacity (fst st)" if "ping_step\<^sup>*\<^sup>* (NewOSExecSemaphore slots, []) st" for st
    using that
  proof (induction rule: rtranclp_induct)
    case base
    then show ?case by (auto simp: NewOSExecSemaphore_def max_def)
  next
    case (step st st')
    then show ?case using ping_step_bounded[of st st'] by simp
  qed
  note i = inv[OF assms, simplified]
  have "\<exists>st. ping_step (s, calls) st \<and> length (filter (\<lambda>c. c = Waiting) (snd st)) < length (filter (\<lambda>c. c = Waiting) calls)"
    if w: "Waiting \<in> set calls" and free: "length (filter (\<lambda>c. c = Running) calls) < nat (max 1 slots)"
  proof -
    obtain xs ys where c: "calls = xs @ Waiting # ys" using w by (meson split_list)
    have "sem_send s = Some (s\<lparr>es_held := es_held s + 1\<rparr>)" using i free by (simp add: sem_send_def)
    from ping_step.acquire[OF this, of xs ys] show ?thesis unfolding c by (intro exI conjI) (assumption, simp)
  qed
  with i show ?thesis by simp
qed

subsection \<open>The guard of the ICMP client is a reservation\<close>

interpretation probe_guard: reservation reserve_probe finish_probe "\<lambda>t f. f t"
  by unfold_locales (auto simp: reserve_probe_def finish_probe_def)

text \<open>One tick starts each enabled target that has no probe in flight, and none twice.\<close>

lemma probeAll_started:
  "distinct (map tg_id ts) \<Longrightarrow>
   fst (probeAll True ts f) = map tg_id (filter (\<lambda>t. tg_enabled t \<and> \<not> f (tg_id t)) ts)"
proof (induction ts arbitrary: f)
  case (Cons t ts)
  have "map tg_id (filter (\<lambda>u. tg_enabled u \<and> \<not> (f(tg_id t := True)) (tg_id u)) ts)
      = map tg_id (filter (\<lambda>u. tg_enabled u \<and> \<not> f (tg_id u)) ts)"
    using Cons.prems by (intro arg_cong[of _ _ "map tg_id"] filter_cong) (auto simp: image_iff)
  then show ?case
    using Cons.IH[of f] Cons.IH[of "f(tg_id t := True)"] Cons.prems by (auto simp: reserve_probe_def simp del: fun_upd_apply split: prod.split)
qed simp

subsection \<open>Witnesses\<close>

definition pipe_example :: reader where
  "pipe_example i = (if i = 0 then \<lparr>rr_data = ''abc'', rr_err = None\<rparr> else \<lparr>rr_data = [], rr_err = Some EndOfFile\<rparr>)"

lemma copyBounded_exact_witness:
  "copyBoundedWithBuf pipe_example 2 = Some (''ab'', True) \<and> copyBoundedWithBuf pipe_example 5 = Some (''abc'', False)"
proof -
  have e: "pipe_ends pipe_example 1" by (simp add: pipe_ends_def pipe_example_def)
  have "pipe_output pipe_example 0 1 = ''abc''" by (simp add: pipe_output_def pipe_example_def)
  then show ?thesis using copyBounded_exact[OF e, of 2] copyBounded_exact[OF e, of 5] by simp
qed

lemma ping_output_measured_witness:
  "parsePingOutput (''PING r'' @ [CHR 0x0A] @ ''64 bytes from r: seq=1 '' @ ''time='' @ show_nat 42 @ '' ms'' @ CHR 0x0A # ''time 0ms'')
    = Inr 42000000"
proof -
  have n: "show_nat 42 = ''42''" by code_simp
  have "list_all line_ok [''PING r'']" by (simp add: line_ok_def)
  moreover have "list_all (\<lambda>l. \<not> str_contains l ''time'') [''PING r'']"
    "\<not> str_contains ''64 bytes from r: seq=1 '' ''time''" by (simp_all add: has_prefix_def)
  moreover have "line_ok (''64 bytes from r: seq=1 '' @ ''time='' @ show_nat 42 @ '' ms'')"
    by (simp add: line_ok_def n)
  ultimately show ?thesis using ping_output_measured[of "[''PING r'']" "''64 bytes from r: seq=1 ''" 42 "''time 0ms''"]
    by (simp add: ns_per_ms_def)
qed

lemma ping_concurrency_bounded_witness:
  "\<exists>s calls. ping_step\<^sup>*\<^sup>* (NewOSExecSemaphore 0, []) (s, calls) \<and> calls = [Running, Waiting]
    \<and> length (filter (\<lambda>c. c = Running) calls) \<le> 1"
proof -
  let ?s = "\<lambda>n. \<lparr>es_capacity = 1, es_held = n, es_started = 1\<rparr>"
  let ?t = "\<lparr>es_capacity = 1, es_held = 1, es_started = 2\<rparr>"
  have 1: "ping_step (NewOSExecSemaphore 0, []) (?s 0, [Waiting])"
    using ping_step.announce[of "NewOSExecSemaphore 0" "[]"] by (simp add: NewOSExecSemaphore_def sem_announce_def)
  have 2: "ping_step (?s 0, [Waiting]) (?s 1, [Running])"
    using ping_step.acquire[of "?s 0" "?s 1" "[]" "[]"] by (simp add: sem_send_def)
  have 3: "ping_step (?s 1, [Running]) (?t, [Running, Waiting])"
    using ping_step.announce[of "?s 1" "[Running]"] by (simp add: sem_announce_def)
  have r: "ping_step\<^sup>*\<^sup>* (NewOSExecSemaphore 0, []) (?t, [Running, Waiting])"
    using 1 2 3 by (meson converse_rtranclp_into_rtranclp rtranclp.rtrancl_refl)
  from ping_concurrency_bounded[OF r] r show ?thesis by fastforce
qed

end
