(* ===== verification/Icmp_Native.thy ===== *)
theory Icmp_Native
  imports Icmp_Ping
begin

section \<open>ICMP probing through native sockets\<close>

text \<open>
  Models \<open>uvb76/probe/native_icmp.go\<close>, \<open>native_icmp_socket.go\<close> and
  \<open>native_icmp_stats.go\<close>.

  The ICMP codec is the package \<open>golang.org/x/net/icmp\<close>, not part of the repository: its
  \<open>Marshal\<close> and \<open>ParseMessage\<close> are arguments. So are name resolution, the socket and the
  clock: what they answer at each turn of the receive loop is a function of the turn. The
  loop is a \<open>partial_function (option)\<close> over that script; a theorem shows that it returns
  once the clock passes the deadline. Identifiers and sequence numbers are 16-bit words, the
  statistics 64-bit words.
\<close>

subsection \<open>Error classes and statistics\<close>

definition ErrClassTimeout :: string where [simp]: "ErrClassTimeout = ''timeout''"
definition ErrClassPermission :: string where [simp]: "ErrClassPermission = ''permission_denied''"
definition ErrClassSocket :: string where [simp]: "ErrClassSocket = ''socket_error''"
definition ErrClassParse :: string where [simp]: "ErrClassParse = ''parse_error''"
definition ErrClassUnreachable :: string where [simp]: "ErrClassUnreachable = ''unreachable''"
definition ErrClassCanceled :: string where [simp]: "ErrClassCanceled = ''canceled''"
definition ErrClassOther :: string where [simp]: "ErrClassOther = ''other''"

record native_error =
  ne_text :: string
  ne_class :: string
  ne_user :: string

definition NewNativeICMPError :: "string \<Rightarrow> string \<Rightarrow> string \<Rightarrow> native_error" where
  "NewNativeICMPError class err userMsg = \<lparr>ne_text = err, ne_class = class, ne_user = userMsg\<rparr>"

record native_stats =
  na_sent :: counter
  na_received :: counter
  na_timeouts :: counter
  na_socket_errors :: counter
  na_permission_errors :: counter
  na_parse_errors :: counter
  na_unmatched :: counter
  na_last_rtt :: int
  na_error_class :: "string option"
  na_last_error :: "string option"
  na_last_operation :: "string option"

definition fresh_stats :: native_stats where
  "fresh_stats = \<lparr>na_sent = 0, na_received = 0, na_timeouts = 0, na_socket_errors = 0, na_permission_errors = 0,
     na_parse_errors = 0, na_unmatched = 0, na_last_rtt = 0, na_error_class = None, na_last_error = None, na_last_operation = None\<rparr>"

definition ResetGlobalNativeICMPTelemetry :: "native_stats option \<Rightarrow> native_stats option" where
  "ResetGlobalNativeICMPTelemetry g =
     map_option (\<lambda>s. s\<lparr>na_sent := 0, na_received := 0, na_timeouts := 0, na_socket_errors := 0, na_permission_errors := 0,
       na_parse_errors := 0, na_unmatched := 0, na_last_rtt := 0, na_error_class := Some []\<rparr>) g"

definition setErrorClass :: "string \<Rightarrow> native_stats \<Rightarrow> native_stats" where
  "setErrorClass class s = s\<lparr>na_error_class := Some class\<rparr>"

definition getLastErrorClass :: "native_stats \<Rightarrow> string" where
  "getLastErrorClass s = (case na_error_class s of None \<Rightarrow> [] | Some c \<Rightarrow> c)"

definition containsAny :: "string \<Rightarrow> string list \<Rightarrow> bool" where
  "containsAny s substrs = list_ex (\<lambda>sub. str_contains (map lower_char s) (map lower_char sub)) substrs"

definition isPermissionError :: "string \<Rightarrow> bool" where
  "isPermissionError err = containsAny err [''permission denied'', ''operation not permitted'', ''EPERM'', ''EACCES'']"

definition classifyAndRecordSocketError :: "string \<Rightarrow> native_stats \<Rightarrow> native_stats" where
  "classifyAndRecordSocketError err s =
     (if isPermissionError err
      then setErrorClass ErrClassPermission (s\<lparr>na_permission_errors := na_permission_errors s + 1\<rparr>)
      else let s' = s\<lparr>na_socket_errors := na_socket_errors s + 1\<rparr>
        in if containsAny err [''socket'', ''bind'', ''operation''] then setErrorClass ErrClassSocket s'
           else if containsAny err [''timeout'', ''deadline''] then setErrorClass ErrClassTimeout s'
           else setErrorClass ErrClassOther s')"

definition getUserMessageForError :: "string \<Rightarrow> native_stats \<Rightarrow> string" where
  "getUserMessageForError err s =
     (if getLastErrorClass s = ErrClassPermission
      then ''native ICMP backend unavailable: permission denied opening ICMP socket; run as root, grant CAP_NET_RAW, or configure ping_group_range; set icmp.backend=os_ping to use legacy fallback explicitly''
      else if getLastErrorClass s = ErrClassSocket
      then ''native ICMP socket error; check network configuration; set icmp.backend=os_ping to use legacy fallback explicitly''
      else ''native ICMP socket error: '' @ err @ ''; set icmp.backend=os_ping to use legacy fallback explicitly'')"

subsection \<open>Opening the socket\<close>

datatype socket_mode = SocketModeNone | SocketModeDgramICMP | SocketModeRawICMP

record socket_result =
  sr_open :: bool
  sr_mode :: socket_mode
  sr_dgram_error :: string
  sr_raw_error :: string

text \<open>A system error: its text, and whether \<open>os.IsPermission\<close> recognises it.\<close>

record sys_error =
  sy_text :: string
  sy_permission :: bool

definition extractSocketError :: "sys_error option \<Rightarrow> string" where
  "extractSocketError err =
     (case err of
        None \<Rightarrow> []
      | Some e \<Rightarrow>
          (if sy_permission e then ''EACCES (permission denied)''
           else if str_contains (sy_text e) ''operation not permitted'' \<or> str_contains (sy_text e) ''EPERM''
             then ''EPERM (operation not permitted)''
           else if str_contains (sy_text e) ''EACCES'' then ''EACCES (permission denied)''
           else sy_text e))"

definition tryOpenSocket :: "sys_error option \<Rightarrow> sys_error option \<Rightarrow> socket_result" where
  "tryOpenSocket dgram raw =
     (case dgram of
        None \<Rightarrow> \<lparr>sr_open = True, sr_mode = SocketModeDgramICMP, sr_dgram_error = [], sr_raw_error = []\<rparr>
      | Some e \<Rightarrow>
          (let d = extractSocketError (Some e)
           in if \<not> isPermissionError (sy_text e)
              then \<lparr>sr_open = False, sr_mode = SocketModeNone, sr_dgram_error = d, sr_raw_error = []\<rparr>
              else case raw of
                None \<Rightarrow> \<lparr>sr_open = True, sr_mode = SocketModeRawICMP, sr_dgram_error = d, sr_raw_error = []\<rparr>
              | Some e' \<Rightarrow> \<lparr>sr_open = False, sr_mode = SocketModeNone, sr_dgram_error = d,
                  sr_raw_error = extractSocketError (Some e')\<rparr>))"

definition OpenSocket :: "sys_error option \<Rightarrow> sys_error option \<Rightarrow> socket_result \<times> string option" where
  "OpenSocket dgram raw =
     (let result = tryOpenSocket dgram raw
      in (result,
          if sr_open result then None
          else if sr_dgram_error result \<noteq> [] \<and> sr_raw_error result \<noteq> []
            then Some (''native ICMP unavailable: dgram failed: '' @ sr_dgram_error result @ ''; raw failed: '' @ sr_raw_error result)
          else if sr_dgram_error result \<noteq> [] then Some (''native ICMP unavailable: '' @ sr_dgram_error result)
          else if sr_raw_error result \<noteq> [] then Some (''native ICMP unavailable: '' @ sr_raw_error result)
          else Some ''native ICMP unavailable: unknown error''))"

subsection \<open>Addresses, messages, bytes\<close>

text \<open>A \<open>net.IP\<close> is 4 or 16 bytes; \<open>To4\<close> also accepts an IPv4 address mapped into IPv6.\<close>

definition v4_prefix :: string where
  "v4_prefix = replicate 10 (CHR 0x00) @ [CHR 0xFF, CHR 0xFF]"

definition To4 :: "string \<Rightarrow> string option" where
  "To4 ip = (if length ip = 4 then Some ip
     else if length ip = 16 \<and> take 12 ip = v4_prefix then Some (drop 12 ip) else None)"

definition ip_equal :: "string \<Rightarrow> string \<Rightarrow> bool" where
  "ip_equal a b = (if length a = length b then a = b
     else if length a = 4 \<and> length b = 16 then take 12 b = v4_prefix \<and> a = drop 12 b
     else if length a = 16 \<and> length b = 4 then take 12 a = v4_prefix \<and> drop 12 a = b
     else False)"

datatype net_addr = UDPAddr string | IPAddr string | OtherAddr

fun icmpPeerIP :: "net_addr \<Rightarrow> string option" where
  "icmpPeerIP (UDPAddr ip) = Some ip"
| "icmpPeerIP (IPAddr ip) = Some ip"
| "icmpPeerIP OtherAddr = None"

definition icmpWriteAddr :: "socket_mode \<Rightarrow> string \<Rightarrow> net_addr" where
  "icmpWriteAddr mode ip = (case mode of SocketModeRawICMP \<Rightarrow> IPAddr ip | _ \<Rightarrow> UDPAddr ip)"

datatype icmp_type = ICMPTypeEcho | ICMPTypeEchoReply | ICMPTypeOther

datatype icmp_body = Echo (echo_id: int) (echo_seq: int) (echo_data: string) | OtherBody

record icmp_message =
  im_type :: icmp_type
  im_code :: int
  im_body :: icmp_body

text \<open>\<open>binary.LittleEndian\<close> of eight bytes, and the conversions between int64 and uint64.\<close>

definition int64ToBytes :: "int \<Rightarrow> string" where
  "int64ToBytes v = (let u = nat (v mod 2 ^ 64) in map (\<lambda>i. char_of (u div 256 ^ i mod 256)) [0..<8])"

definition bytes_to_uint64 :: "string \<Rightarrow> nat" where
  "bytes_to_uint64 bs = foldr (\<lambda>b v. of_char b + 256 * v) (take 8 bs) 0"

definition int64_of :: "nat \<Rightarrow> int" where
  "int64_of u = wrap64 (int u)"

definition PutUint16 :: "16 word \<Rightarrow> string" where
  "PutUint16 w = [char_of (unat w mod 256), char_of (unat w div 256)]"

definition MarshalICMPEchoBody :: "16 word \<Rightarrow> 16 word \<Rightarrow> int \<Rightarrow> string" where
  "MarshalICMPEchoBody ident seq timestamp = PutUint16 ident @ PutUint16 seq @ int64ToBytes timestamp"

text \<open>Nanoseconds from Go's zero time to the Unix epoch; \<open>UnixNano\<close> wraps like any int64.\<close>

definition unix_epoch :: time where "unix_epoch = 62135596800 * ns_per_sec"

definition UnixNano :: "time \<Rightarrow> int" where "UnixNano t = wrap64 (t - unix_epoch)"

definition time_Unix :: "int \<Rightarrow> time" where "time_Unix nanos = unix_epoch + nanos"

text \<open>The identifier of a backend: never zero.\<close>

definition generateBackendID :: "16 word \<Rightarrow> time \<Rightarrow> 16 word \<times> 16 word" where
  "generateBackendID counter now =
     (let counter' = counter + 1;
          ident = 0 XOR counter' XOR of_int (UnixNano now AND 0xFFFF)
      in (if ident = 0 then 1 else ident, counter'))"

subsection \<open>One ping\<close>

record native_backend =
  nb_mode :: socket_mode
  nb_id :: "16 word"

definition buildEchoRequest :: "native_backend \<Rightarrow> 16 word \<Rightarrow> time \<Rightarrow> icmp_message" where
  "buildEchoRequest b sequence now =
     \<lparr>im_type = ICMPTypeEcho, im_code = 0,
      im_body = Echo (uint (nb_id b)) (uint sequence) (int64ToBytes (UnixNano now))\<rparr>"

text \<open>An error, or whether the packet answers the request and then the time since it was stamped.\<close>

definition matchEchoReply ::
  "(string \<Rightarrow> string + icmp_message) \<Rightarrow> native_backend \<Rightarrow> string \<Rightarrow> net_addr \<Rightarrow> string \<Rightarrow> 16 word \<Rightarrow> time \<Rightarrow> string + duration option" where
  "matchEchoReply ParseMessage b data peer expectedIP sequence now =
     (case ParseMessage data of
        Inl e \<Rightarrow> Inl (''parse icmp: '' @ e)
      | Inr msg \<Rightarrow>
          (if im_type msg \<noteq> ICMPTypeEchoReply then Inr None
           else case im_body msg of
             OtherBody \<Rightarrow> Inl ''unexpected body type''
           | Echo ident seq payload \<Rightarrow>
               (if (of_int ident :: 16 word) \<noteq> nb_id b then Inr None
                else if (of_int seq :: 16 word) \<noteq> sequence then Inr None
                else case icmpPeerIP peer of
                  None \<Rightarrow> Inr None
                | Some peerIP \<Rightarrow>
                    (case To4 peerIP of
                       None \<Rightarrow> Inr None
                     | Some peerIP4 \<Rightarrow>
                         (if \<not> ip_equal peerIP4 expectedIP then Inr None
                          else if length payload \<ge> 8
                            then Inr (Some (time_sub now (time_Unix (int64_of (bytes_to_uint64 payload)))))
                          else Inr (Some ns_per_ms))))))"

datatype native_read =
    ReadPacket string net_addr
  | ReadError (read_text: string) (read_timeout: bool) (read_canceled: "string option")

text \<open>What the world answers during one ping; the functions give the answers at each turn of the loop.\<close>

record native_env =
  nv_resolve :: "string + string"
  nv_ip_string :: "string \<Rightarrow> string"
  nv_send_time :: time
  nv_stamp :: time
  nv_marshal :: "icmp_message \<Rightarrow> string + string"
  nv_write :: "string \<Rightarrow> net_addr \<Rightarrow> string option"
  nv_clock :: "nat \<Rightarrow> time"
  nv_set_deadline :: "nat \<Rightarrow> string option"
  nv_read :: "nat \<Rightarrow> native_read"
  nv_match_time :: "nat \<Rightarrow> time"
  nv_parse :: "string \<Rightarrow> string + icmp_message"

type_synonym native_result = "(native_error + duration) \<times> native_stats"

definition fail_class :: "string \<Rightarrow> string \<Rightarrow> string \<Rightarrow> native_stats \<Rightarrow> native_result" where
  "fail_class class err userMsg s = (Inl (NewNativeICMPError class err userMsg), setErrorClass class s)"

definition timeout_failure :: "native_env \<Rightarrow> string \<Rightarrow> native_stats \<Rightarrow> native_result" where
  "timeout_failure env targetIP s =
     fail_class ErrClassTimeout (''timeout waiting for echo reply from '' @ nv_ip_string env targetIP)
       ''native ICMP timeout; target may be unreachable or latency exceeds timeout''
       (s\<lparr>na_timeouts := na_timeouts s + 1\<rparr>)"

partial_function (option) ping_loop ::
  "native_backend \<Rightarrow> native_env \<Rightarrow> string \<Rightarrow> 16 word \<Rightarrow> time \<Rightarrow> nat \<Rightarrow> native_stats \<Rightarrow> native_result option" where
  "ping_loop b env targetIP sequence deadline i s =
     (if time_sub deadline (nv_clock env i) \<le> 0 then Some (timeout_failure env targetIP s)
      else case nv_set_deadline env i of
        Some err \<Rightarrow>
          (let s' = classifyAndRecordSocketError err s
           in Some (Inl (NewNativeICMPError (getLastErrorClass s') (''set read deadline: '' @ err) ''failed to set socket read deadline''), s'))
      | None \<Rightarrow>
        (case nv_read env i of
           ReadError err isTimeout canceled \<Rightarrow>
             (case canceled of
                Some ctxErr \<Rightarrow> Some (fail_class ErrClassCanceled ctxErr ''context canceled; probe interrupted'' s)
              | None \<Rightarrow>
                  (if isTimeout then Some (timeout_failure env targetIP s)
                   else let s' = classifyAndRecordSocketError err s
                     in Some (Inl (NewNativeICMPError (getLastErrorClass s') (''read reply: '' @ err) (getUserMessageForError err s')), s')))
         | ReadPacket data peer \<Rightarrow>
             (case matchEchoReply (nv_parse env) b (take 512 data) peer targetIP sequence (nv_match_time env i) of
                Inl matchErr \<Rightarrow> Some (fail_class ErrClassParse (''parse reply: '' @ matchErr)
                    ''failed to parse ICMP reply; possible network issue'' (s\<lparr>na_parse_errors := na_parse_errors s + 1\<rparr>))
              | Inr (Some rtt) \<Rightarrow> Some (Inr rtt, s\<lparr>na_received := na_received s + 1, na_last_rtt := milliseconds rtt\<rparr>)
              | Inr None \<Rightarrow> ping_loop b env targetIP sequence deadline (Suc i) (s\<lparr>na_unmatched := na_unmatched s + 1\<rparr>))))"

definition native_ping :: "native_backend \<Rightarrow> native_env \<Rightarrow> string \<Rightarrow> duration \<Rightarrow> native_stats \<Rightarrow> native_result option" where
  "native_ping b env host timeout s =
     (case nv_resolve env of
        Inl err \<Rightarrow> Some (fail_class ErrClassUnreachable (''resolve host '' @ [CHR 0x22] @ host @ [CHR 0x22] @ '': '' @ err)
            (''failed to resolve '' @ host @ ''; check DNS or use IP address'') s)
      | Inr ip \<Rightarrow>
        (case To4 ip of
           None \<Rightarrow> Some (fail_class ErrClassOther (''not an IPv4 address: '' @ nv_ip_string env ip) ''native ICMP only supports IPv4 targets'' s)
         | Some targetIP \<Rightarrow>
             (let sequence = of_int (go_rem (UnixNano (nv_send_time env)) 0xFFFF)
              in case nv_marshal env (buildEchoRequest b sequence (nv_stamp env)) of
                   Inl err \<Rightarrow> Some (fail_class ErrClassParse (''build echo request: marshal message: '' @ err)
                       ''failed to build ICMP packet; internal error'' (s\<lparr>na_parse_errors := na_parse_errors s + 1\<rparr>))
                 | Inr msg \<Rightarrow>
                     (let s1 = s\<lparr>na_last_operation := Some ''write_to''\<rparr>
                      in case nv_write env msg (icmpWriteAddr (nb_mode b) targetIP) of
                           Some err \<Rightarrow>
                             (let s2 = classifyAndRecordSocketError err (s1\<lparr>na_last_error := Some err\<rparr>)
                              in Some (Inl (NewNativeICMPError (getLastErrorClass s2) (''send echo: '' @ err) (getUserMessageForError err s2)), s2))
                         | None \<Rightarrow>
                             ping_loop b env targetIP sequence (nv_send_time env + timeout) 0 (s1\<lparr>na_sent := na_sent s1 + 1\<rparr>)))))"

subsection \<open>The loop returns\<close>

lemma ping_loop_returns:
  assumes "nv_clock env n \<ge> deadline" "i \<le> n"
  shows "\<exists>result. ping_loop b env targetIP sequence deadline i s = Some result"
  using assms(2)
proof (induction "n - i" arbitrary: i s)
  case 0
  then have "time_sub deadline (nv_clock env i) \<le> 0"
    using assms(1) by (simp add: time_sub_def int64_min_def int64_max_def)
  then show ?case by (subst ping_loop.simps) simp
next
  case (Suc d)
  then have "\<exists>result. ping_loop b env targetIP sequence deadline (Suc i) s' = Some result" for s' by simp
  then show ?case
    by (subst ping_loop.simps) (auto simp: Let_def split: option.splits native_read.splits sum.splits)
qed

text \<open>
  C34. A ping always ends. Whatever packets flood the socket, if the clock that the receive
  loop reads is past the deadline at some turn, the ping returns.
\<close>

theorem native_ping_returns:
  assumes "nv_clock env n \<ge> nv_send_time env + timeout"
  shows "\<exists>result. native_ping b env host timeout s = Some result"
  using ping_loop_returns[OF assms, of 0]
  by (auto simp: native_ping_def Let_def split: option.splits sum.splits)

subsection \<open>Only the right packet is an answer\<close>

definition is_reply :: "native_backend \<Rightarrow> (string \<Rightarrow> string + icmp_message) \<Rightarrow> string \<Rightarrow> 16 word \<Rightarrow> string \<Rightarrow> net_addr \<Rightarrow> string \<Rightarrow> bool" where
  "is_reply b ParseMessage targetIP sequence data peer payload \<longleftrightarrow>
     (\<exists>code ident seq ip ip4. ParseMessage data = Inr \<lparr>im_type = ICMPTypeEchoReply, im_code = code, im_body = Echo ident seq payload\<rparr>
        \<and> of_int ident = nb_id b \<and> of_int seq = sequence \<and> icmpPeerIP peer = Some ip \<and> To4 ip = Some ip4 \<and> ip_equal ip4 targetIP)"

definition reply_rtt :: "string \<Rightarrow> time \<Rightarrow> duration" where
  "reply_rtt payload now =
     (if length payload \<ge> 8 then time_sub now (time_Unix (int64_of (bytes_to_uint64 payload))) else ns_per_ms)"

lemma matchEchoReply_Some:
  "matchEchoReply ParseMessage b data peer targetIP sequence now = Inr (Some rtt) \<longleftrightarrow>
     (\<exists>payload. is_reply b ParseMessage targetIP sequence data peer payload \<and> rtt = reply_rtt payload now)"
proof (cases "ParseMessage data")
  case (Inr msg)
  then show ?thesis
    by (cases msg; cases "im_body msg"; cases "icmpPeerIP peer")
      (auto simp: matchEchoReply_def is_reply_def reply_rtt_def split: option.splits if_splits)
qed (simp add: matchEchoReply_def is_reply_def)

text \<open>What happens at turn \<open>i\<close>: a packet that is not the answer, or the answer.\<close>

definition turn_ignored :: "native_backend \<Rightarrow> native_env \<Rightarrow> string \<Rightarrow> 16 word \<Rightarrow> nat \<Rightarrow> bool" where
  "turn_ignored b env targetIP sequence i \<longleftrightarrow> (\<exists>data peer. nv_read env i = ReadPacket data peer
     \<and> (\<forall>payload. \<not> is_reply b (nv_parse env) targetIP sequence (take 512 data) peer payload))"

definition turn_answered :: "native_backend \<Rightarrow> native_env \<Rightarrow> string \<Rightarrow> 16 word \<Rightarrow> nat \<Rightarrow> duration \<Rightarrow> bool" where
  "turn_answered b env targetIP sequence i rtt \<longleftrightarrow> (\<exists>data peer payload. nv_read env i = ReadPacket data peer
     \<and> is_reply b (nv_parse env) targetIP sequence (take 512 data) peer payload \<and> rtt = reply_rtt payload (nv_match_time env i))"


definition loop_success :: "native_backend \<Rightarrow> native_env \<Rightarrow> string \<Rightarrow> 16 word \<Rightarrow> time \<Rightarrow> nat \<Rightarrow> native_stats \<Rightarrow> native_result \<Rightarrow> bool" where
  "loop_success b env targetIP sequence deadline i s result \<longleftrightarrow>
     (case result of
        (Inl _, _) \<Rightarrow> True
      | (Inr rtt, s') \<Rightarrow> \<exists>n\<ge>i. nv_clock env n < deadline \<and> turn_answered b env targetIP sequence n rtt
          \<and> (\<forall>j\<in>{i..<n}. turn_ignored b env targetIP sequence j)
          \<and> na_received s' = na_received s + 1 \<and> na_sent s' = na_sent s \<and> na_unmatched s' = na_unmatched s + of_nat (n - i))"

lemma time_sub_pos: "0 < time_sub t u \<Longrightarrow> u < t"
  by (simp add: time_sub_def int64_min_def int64_max_def split: if_splits)

lemma loop_success_ignore:
  assumes "loop_success b env targetIP sequence deadline (Suc i) (s\<lparr>na_unmatched := na_unmatched s + 1\<rparr>) result"
    and "nv_read env i = ReadPacket data peer"
    and "matchEchoReply (nv_parse env) b (take 512 data) peer targetIP sequence (nv_match_time env i) = Inr None"
  shows "loop_success b env targetIP sequence deadline i s result"
proof (cases result)
  case (Pair a s')
  show ?thesis
  proof (cases a)
    case (Inr rtt)
    with assms(1) Pair obtain n where n: "Suc i \<le> n" "nv_clock env n < deadline" "turn_answered b env targetIP sequence n rtt"
      "\<forall>j\<in>{Suc i..<n}. turn_ignored b env targetIP sequence j" "na_received s' = na_received s + 1" "na_sent s' = na_sent s"
      "na_unmatched s' = na_unmatched s + 1 + of_nat (n - Suc i)"
      by (auto simp: loop_success_def)
    have "turn_ignored b env targetIP sequence i"
      using assms(2,3) matchEchoReply_Some[of "nv_parse env" b "take 512 data" peer targetIP sequence "nv_match_time env i"]
      by (auto simp: turn_ignored_def)
    then have "\<forall>j\<in>{i..<n}. turn_ignored b env targetIP sequence j"
      using n(4) by (metis atLeastLessThan_iff le_antisym not_less_eq_eq)
    moreover have "n - i = Suc (n - Suc i)" using n(1) by simp
    then have "na_unmatched s' = na_unmatched s + of_nat (n - i)" using n(7) by simp
    moreover have "i \<le> n" using n(1) by simp
    ultimately show ?thesis using n(2,3,5,6) unfolding Pair Inr loop_success_def prod.case sum.case by blast
  qed (simp add: Pair loop_success_def)
qed

lemma ping_loop_success:
  assumes "ping_loop b env targetIP sequence deadline i s = Some result"
  shows "loop_success b env targetIP sequence deadline i s result"
proof (rule ping_loop.raw_induct[where P = loop_success, OF _ assms], goal_cases)
  case (1 rec b env targetIP sequence deadline i s result)
  note IH = 1(1) and body = 1(2)
  show ?case
  proof (cases "time_sub deadline (nv_clock env i) \<le> 0 \<or> nv_set_deadline env i \<noteq> None")
    case True
    with body show ?thesis
      by (auto simp: loop_success_def timeout_failure_def fail_class_def Let_def split: if_splits option.splits)
  next
    case go: False
    then have clock: "nv_clock env i < deadline" using time_sub_pos[of deadline "nv_clock env i"] by simp
    show ?thesis
    proof (cases "nv_read env i")
      case (ReadPacket data peer)
      let ?m = "matchEchoReply (nv_parse env) b (take 512 data) peer targetIP sequence (nv_match_time env i)"
      consider e where "?m = Inl e" | rtt where "?m = Inr (Some rtt)" | "?m = Inr None"
        by (metis option.exhaust sumE)
      then show ?thesis
      proof cases
        case 1
        with body go ReadPacket show ?thesis by (simp add: loop_success_def fail_class_def) (auto simp: loop_success_def)
      next
        case (2 rtt)
        then have "turn_answered b env targetIP sequence i rtt"
          using ReadPacket by (auto simp: matchEchoReply_Some turn_answered_def)
        with 2 body go ReadPacket clock show ?thesis by (auto simp: loop_success_def intro!: exI[of _ i])
      next
        case 3
        with body go ReadPacket have "rec b env targetIP sequence deadline (Suc i) (s\<lparr>na_unmatched := na_unmatched s + 1\<rparr>) = Some result"
          by simp
        from loop_success_ignore[OF IH[OF this] ReadPacket 3] show ?thesis .
      qed
    next
      case (ReadError err isTimeout canceled)
      with body go show ?thesis
        by (auto simp: loop_success_def timeout_failure_def fail_class_def Let_def split: if_splits option.splits)
    qed
  qed
qed

definition request_sequence :: "native_env \<Rightarrow> 16 word" where
  "request_sequence env = of_int (go_rem (UnixNano (nv_send_time env)) 0xFFFF)"

text \<open>
  C22. A round-trip time is never reported for a stranger's packet. If a ping succeeds, then
  before its deadline some packet parsed as an echo reply with the backend's identifier and
  the request's sequence number and came from the address the host resolved to; the time
  reported is the one since the stamp inside; every packet before it was none, and each is
  counted as unmatched.
\<close>

theorem native_ping_sound:
  assumes "native_ping b env host timeout s = Some (Inr rtt, s')"
  shows "\<exists>ip targetIP n. nv_resolve env = Inr ip \<and> To4 ip = Some targetIP \<and> nv_clock env n < nv_send_time env + timeout
     \<and> turn_answered b env targetIP (request_sequence env) n rtt
     \<and> list_all (turn_ignored b env targetIP (request_sequence env)) [0..<n]
     \<and> na_sent s' = na_sent s + 1 \<and> na_received s' = na_received s + 1 \<and> na_unmatched s' = na_unmatched s + of_nat n"
proof -
  obtain ip targetIP where ip: "nv_resolve env = Inr ip" "To4 ip = Some targetIP"
    using assms by (auto simp: native_ping_def fail_class_def split: sum.splits option.splits)
  let ?s = "s\<lparr>na_last_operation := Some ''write_to'', na_sent := na_sent s + 1\<rparr>"
  have "ping_loop b env targetIP (request_sequence env) (nv_send_time env + timeout) 0 ?s = Some (Inr rtt, s')"
    using assms ip by (auto simp: native_ping_def request_sequence_def fail_class_def Let_def split: sum.splits option.splits)
  from ping_loop_success[OF this] show ?thesis using ip by (auto simp: loop_success_def list_all_iff)
qed

subsection \<open>The stamp survives the round trip\<close>

lemma bytes_value:
  "foldr (\<lambda>c v. of_char c + 256 * v) (map (\<lambda>i. char_of (u div 256 ^ i mod 256)) [0..<n]) 0 = u mod (256 ^ n :: nat)"
proof (induction n arbitrary: u)
  case (Suc n)
  have "map (\<lambda>i. char_of (u div 256 ^ i mod 256)) [0..<Suc n]
      = char_of (u mod 256) # map (\<lambda>i. char_of (u div 256 div 256 ^ i mod 256) :: char) [0..<n]"
    by (simp add: upt_conv_Cons map_Suc_upt[symmetric] comp_def div_mult2_eq del: upt_Suc)
  moreover have "u mod 256 + 256 * (u div 256 mod 256 ^ n) = u mod 256 ^ Suc n"
    by (simp add: mod_mult2_eq)
  ultimately show ?case using Suc.IH[of "u div 256"] by (simp add: of_char_of take_bit_eq_mod del: upt_Suc)
qed simp

lemma uint64_bytes: "bytes_to_uint64 (int64ToBytes v) = nat (v mod 2 ^ 64)"
proof -
  let ?u = "nat (v mod 2 ^ 64)"
  have "?u < 256 ^ 8" by (simp add: nat_less_iff)
  moreover have "bytes_to_uint64 (int64ToBytes v) = ?u mod 256 ^ 8"
    using bytes_value[of ?u 8] by (simp add: bytes_to_uint64_def int64ToBytes_def Let_def del: upt_Suc)
  ultimately show ?thesis by simp
qed

lemma int64_bytes: "in_int64 v \<Longrightarrow> int64_of (bytes_to_uint64 (int64ToBytes v)) = v"
proof -
  assume v: "in_int64 v"
  have "int64_of (bytes_to_uint64 (int64ToBytes v)) = wrap64 (v mod 2 ^ 64)" by (simp add: int64_of_def uint64_bytes)
  also have "\<dots> = wrap64 v" by (simp add: wrap64_def mod_add_left_eq)
  finally show ?thesis by (simp add: wrap64_id v)
qed

text \<open>
  C38. A host that echoes the request is recognised, and the time measured is exact. For a
  request stamped at any time that int64 nanoseconds can carry, the reply with the request's
  own identifier, sequence number and data, arriving from the target at an IPv4 address in
  either form, matches, and the round-trip time is the time since the stamp.
\<close>

theorem echo_roundtrip:
  assumes "ParseMessage data = Inr \<lparr>im_type = ICMPTypeEchoReply, im_code = code, im_body = im_body (buildEchoRequest b sequence stamp)\<rparr>"
    and "in_int64 (stamp - unix_epoch)" and "icmpPeerIP peer = Some ip" and "To4 ip = Some targetIP"
  shows "matchEchoReply ParseMessage b data peer targetIP sequence now = Inr (Some (time_sub now stamp))"
proof -
  have l: "length (int64ToBytes v) = 8" for v by (simp add: int64ToBytes_def Let_def)
  have "is_reply b ParseMessage targetIP sequence data peer (int64ToBytes (UnixNano stamp))"
    unfolding is_reply_def using assms by (intro exI[of _ code] exI conjI) (auto simp: buildEchoRequest_def ip_equal_def)
  moreover have "reply_rtt (int64ToBytes (UnixNano stamp)) now = time_sub now stamp"
    using int64_bytes assms(2) by (simp add: reply_rtt_def l UnixNano_def wrap64_id time_Unix_def)
  ultimately show ?thesis by (auto simp: matchEchoReply_Some)
qed

lemma backend_id_nonzero: "fst (generateBackendID counter now) \<noteq> 0"
  by (simp add: generateBackendID_def Let_def)

text \<open>The raw socket is tried exactly after a datagram socket that was refused for lack of permission.\<close>

lemma OpenSocket_fallback:
  "snd (OpenSocket dgram raw) = None \<longleftrightarrow>
     dgram = None \<or> (raw = None \<and> (case dgram of None \<Rightarrow> False | Some e \<Rightarrow> isPermissionError (sy_text e)))"
  by (auto simp: OpenSocket_def tryOpenSocket_def Let_def split: option.splits if_splits)

subsection \<open>Witnesses\<close>

definition backend_example :: native_backend where
  "backend_example = \<lparr>nb_mode = SocketModeDgramICMP, nb_id = 7\<rparr>"

definition native_example :: native_env where
  "native_example = \<lparr>nv_resolve = Inr ''abcd'', nv_ip_string = (\<lambda>x. x), nv_send_time = unix_epoch, nv_stamp = unix_epoch,
     nv_marshal = (\<lambda>_. Inr ''msg''), nv_write = (\<lambda>_ _. None), nv_clock = (\<lambda>i. unix_epoch + int i),
     nv_set_deadline = (\<lambda>_. None), nv_read = (\<lambda>_. ReadPacket ''p'' (UDPAddr ''abcd'')), nv_match_time = (\<lambda>_. unix_epoch + 9),
     nv_parse = (\<lambda>_. Inr \<lparr>im_type = ICMPTypeEchoReply, im_code = 0, im_body = Echo 7 0 []\<rparr>)\<rparr>"

lemma native_ping_returns_witness:
  "\<exists>result. native_ping backend_example (native_example\<lparr>nv_parse := (\<lambda>_. Inr \<lparr>im_type = ICMPTypeOther, im_code = 0, im_body = OtherBody\<rparr>)\<rparr>)
     ''h'' 3 fresh_stats = Some result"
  by (rule native_ping_returns[where n = 3]) (simp add: native_example_def)

lemma native_example_runs:
  "native_ping backend_example native_example ''h'' 3 fresh_stats =
     Some (Inr ns_per_ms, fresh_stats\<lparr>na_sent := 1, na_received := 1, na_last_rtt := milliseconds ns_per_ms,
       na_last_operation := Some ''write_to''\<rparr>)"
  unfolding native_ping_def
  by (simp add: native_example_def backend_example_def To4_def Let_def UnixNano_def wrap64_def go_rem_def go_div_def)
    (subst ping_loop.simps, simp add: time_sub_def int64_min_def int64_max_def matchEchoReply_def To4_def ip_equal_def fresh_stats_def)

lemma native_ping_sound_witness:
  "\<exists>targetIP n. turn_answered backend_example native_example targetIP (request_sequence native_example) n ns_per_ms"
  using native_ping_sound[OF native_example_runs] by blast

lemma echo_roundtrip_witness:
  "matchEchoReply (\<lambda>_. Inr \<lparr>im_type = ICMPTypeEchoReply, im_code = 0, im_body = im_body (buildEchoRequest backend_example 5 (unix_epoch + 1))\<rparr>)
     backend_example ''p'' (IPAddr (v4_prefix @ ''abcd'')) ''abcd'' 5 (unix_epoch + 43) = Inr (Some 42)"
proof -
  have "To4 (v4_prefix @ ''abcd'') = Some ''abcd''" by (simp add: To4_def v4_prefix_def)
  then show ?thesis
    by (subst echo_roundtrip[where stamp = "unix_epoch + 1" and code = 0 and ip = "v4_prefix @ ''abcd''"])
      (simp_all add: in_int64_def time_sub_def int64_min_def int64_max_def)
qed

end
