(* ===== verification/Auth_Session.thy ===== *)
theory Auth_Session
  imports Uvb_Config
begin

section \<open>Authentication: session tokens, the session store, the guarded handlers\<close>

text \<open>
  Models \<open>uvb76/auth\<close> (\<open>session.go\<close>, \<open>session_middleware.go\<close>, \<open>middleware.go\<close>) and the
  authentication handlers of \<open>uvb76/server/server.go\<close>.

  The session store is the record of its map and secret; every method is a function of the
  store, and \<open>time.Now()\<close> and the random bytes of \<open>crypto/rand\<close> are arguments, \<open>None\<close>
  for a generator that fails. \<open>encoding/base64\<close>, \<open>crypto/hmac\<close> and
  \<open>subtle.ConstantTimeCompare\<close> of the standard library are defined here; \<open>sha256\<close> stays an
  argument. Of a request the model keeps what the code reads: the method, the cookies that
  \<open>net/http\<close> parsed, the headers, the decoded login body. Of a response it keeps the status,
  the \<open>WWW-Authenticate\<close> header, the cookie set and the JSON body.

  The sequence of requests that reach the store is a list of \<open>auth_op\<close>; each takes the
  store's lock once, so any interleaving of concurrent requests is one of these lists.
\<close>

unbundle bit_operations_syntax

subsection \<open>Base64, as encoding/base64 does it\<close>

definition b64_std :: string where
  "b64_std = ''ABCDEFGHIJKLMNOPQRSTUVWXYZabcdefghijklmnopqrstuvwxyz0123456789+/''"

definition b64_url :: string where
  "b64_url = ''ABCDEFGHIJKLMNOPQRSTUVWXYZabcdefghijklmnopqrstuvwxyz0123456789-_''"

definition byte_nat :: "char \<Rightarrow> nat" where
  "byte_nat c = of_char c"

text \<open>Three bytes give four digits; a last group of one or two bytes is padded.\<close>

fun b64_encode :: "string \<Rightarrow> string \<Rightarrow> string" where
  "b64_encode al [] = []"
| "b64_encode al [a] = (let v = byte_nat a * 16 in [al ! (v div 64), al ! (v mod 64), CHR ''='', CHR ''=''])"
| "b64_encode al [a, b] = (let v = (byte_nat a * 256 + byte_nat b) * 4
     in [al ! (v div 4096), al ! (v div 64 mod 64), al ! (v mod 64), CHR ''=''])"
| "b64_encode al (a # b # c # s) = (let v = (byte_nat a * 256 + byte_nat b) * 256 + byte_nat c
     in al ! (v div 262144) # al ! (v div 4096 mod 64) # al ! (v div 64 mod 64) # al ! (v mod 64) # b64_encode al s)"

fun index_from :: "nat \<Rightarrow> char \<Rightarrow> string \<Rightarrow> nat option" where
  "index_from i c [] = None"
| "index_from i c (d # al) = (if c = d then Some i else index_from (Suc i) c al)"

text \<open>
  The decoder skips line breaks, takes four digits at a time, and allows padding only in the
  last group; the bits that padding leaves over are ignored, as the non-strict encodings do.
\<close>

definition sextets :: "nat list \<Rightarrow> nat" where
  "sextets ks = foldl (\<lambda>v k. v * 64 + k) 0 ks"

fun b64_quads :: "string \<Rightarrow> string \<Rightarrow> string option" where
  "b64_quads al [] = Some []"
| "b64_quads al (p # q # r # s # rest) =
     (case (index_from 0 p al, index_from 0 q al) of
        (Some i, Some j) \<Rightarrow>
          (if r = CHR ''='' \<and> s = CHR ''='' \<and> rest = [] then Some [char_of (sextets [i, j] div 16)]
           else case index_from 0 r al of
             None \<Rightarrow> None
           | Some k \<Rightarrow>
               (if s = CHR ''='' \<and> rest = []
                then (let v = sextets [i, j, k] in Some [char_of (v div 1024), char_of (v div 4 mod 256)])
                else case index_from 0 s al of
                  None \<Rightarrow> None
                | Some l \<Rightarrow>
                    (let v = sextets [i, j, k, l]
                     in map_option (\<lambda>t. char_of (v div 65536) # char_of (v div 256 mod 256) # char_of (v mod 256) # t)
                          (b64_quads al rest))))
      | _ \<Rightarrow> None)"
| "b64_quads al _ = None"

definition b64_decode :: "string \<Rightarrow> string \<Rightarrow> string option" where
  "b64_decode al s = b64_quads al (filter (\<lambda>c. c \<noteq> CHR 0x0A \<and> c \<noteq> CHR 0x0D) s)"

definition Base64URLDecode :: "string \<Rightarrow> string option" where
  "Base64URLDecode encoded = b64_decode b64_url encoded"

subsection \<open>The session store\<close>

definition SessionCookieName :: string where "SessionCookieName = ''uvb76_session''"
definition SessionMaxAge :: int where "SessionMaxAge = 86400"
definition SessionHeaderName :: string where "SessionHeaderName = ''X-Session-Token''"

record session =
  sn_username :: string
  sn_created :: time
  sn_expires :: time

record session_store =
  ss_sessions :: "string \<rightharpoonup> session"
  ss_secret :: string

definition NewSessionStore :: "string \<Rightarrow> session_store" where
  "NewSessionStore secret = \<lparr>ss_sessions = Map.empty, ss_secret = secret\<rparr>"

definition GenerateToken :: "string \<Rightarrow> string option \<Rightarrow> time \<Rightarrow> session_store \<Rightarrow> session_store \<times> string option" where
  "GenerateToken username rand now ss =
     (case rand of
        None \<Rightarrow> (ss, None)
      | Some tokenBytes \<Rightarrow>
          (let token = b64_encode b64_url tokenBytes;
               session = \<lparr>sn_username = username, sn_created = now, sn_expires = now + seconds SessionMaxAge\<rparr>
           in (ss\<lparr>ss_sessions := (ss_sessions ss)(token \<mapsto> session)\<rparr>, Some token)))"

definition ValidateToken :: "session_store \<Rightarrow> string \<Rightarrow> time \<Rightarrow> session option" where
  "ValidateToken ss token now =
     (case ss_sessions ss token of
        None \<Rightarrow> None
      | Some session \<Rightarrow> if now > sn_expires session then None else Some session)"

definition InvalidateToken :: "string \<Rightarrow> session_store \<Rightarrow> session_store" where
  "InvalidateToken token ss = ss\<lparr>ss_sessions := (ss_sessions ss)(token := None)\<rparr>"

text \<open>A loop over a map that deletes the entries of a kind leaves the others.\<close>

definition delete_where :: "(session \<Rightarrow> bool) \<Rightarrow> (string \<rightharpoonup> session) \<Rightarrow> (string \<rightharpoonup> session)" where
  "delete_where p m = (\<lambda>t. case m t of None \<Rightarrow> None | Some s \<Rightarrow> if p s then None else Some s)"

definition InvalidateAllForUser :: "string \<Rightarrow> session_store \<Rightarrow> session_store" where
  "InvalidateAllForUser username ss = ss\<lparr>ss_sessions := delete_where (\<lambda>s. sn_username s = username) (ss_sessions ss)\<rparr>"

definition CleanupExpired :: "time \<Rightarrow> session_store \<Rightarrow> session_store" where
  "CleanupExpired now ss = ss\<lparr>ss_sessions := delete_where (\<lambda>s. now > sn_expires s) (ss_sessions ss)\<rparr>"

text \<open>\<open>hmac.New(sha256.New, key)\<close> over a block of 64 bytes.\<close>

definition xor_byte :: "nat \<Rightarrow> char \<Rightarrow> char" where
  "xor_byte n c = char_of (n XOR byte_nat c)"

definition hmac :: "(string \<Rightarrow> string) \<Rightarrow> string \<Rightarrow> string \<Rightarrow> string" where
  "hmac sha256 key msg =
     (let k = (if length key > 64 then sha256 key else key);
          block = k @ replicate (64 - length k) (CHR 0x00)
      in sha256 (map (xor_byte 0x5c) block @ sha256 (map (xor_byte 0x36) block @ msg)))"

definition SignToken :: "(string \<Rightarrow> string) \<Rightarrow> session_store \<Rightarrow> string \<Rightarrow> string" where
  "SignToken sha256 ss token = b64_encode b64_url (hmac sha256 (ss_secret ss) token)"

text \<open>\<open>subtle.ConstantTimeCompare\<close>: 0 for different lengths, else whether no byte differs.\<close>

definition ConstantTimeCompare :: "string \<Rightarrow> string \<Rightarrow> int" where
  "ConstantTimeCompare x y =
     (if length x \<noteq> length y then 0
      else if fold (\<lambda>(a, b) v. v OR (byte_nat a XOR byte_nat b)) (zip x y) 0 = 0 then 1 else 0)"

definition VerifyTokenSignature :: "(string \<Rightarrow> string) \<Rightarrow> session_store \<Rightarrow> string \<Rightarrow> string \<Rightarrow> bool" where
  "VerifyTokenSignature sha256 ss token signature = (ConstantTimeCompare (SignToken sha256 ss token) signature = 1)"

definition AuthenticatePasswordOnly :: "(string \<Rightarrow> string) \<Rightarrow> string \<Rightarrow> string \<Rightarrow> bool" where
  "AuthenticatePasswordOnly sha256 password storedHash =
     (if password = [] \<or> storedHash = [] then False
      else case VerifyPassword sha256 password storedHash of Inl _ \<Rightarrow> False | Inr valid \<Rightarrow> valid)"

definition AuthenticateFull :: "(string \<Rightarrow> string) \<Rightarrow> string \<Rightarrow> string \<Rightarrow> string \<Rightarrow> string \<Rightarrow> bool" where
  "AuthenticateFull sha256 username password expectedUsername storedHash =
     (let usernameMatch = (ConstantTimeCompare username expectedUsername = 1);
          verified = VerifyPassword sha256 password storedHash
      in usernameMatch \<and> (case verified of Inl _ \<Rightarrow> False | Inr valid \<Rightarrow> valid))"

subsection \<open>Requests and responses\<close>

datatype http_method = MethodGet | MethodPost | MethodOther

record login_request =
  lr_username :: string
  lr_password :: string

record auth_request =
  rq_method :: http_method
  rq_cookies :: "(string \<times> string) list"
  rq_header :: "string \<rightharpoonup> string"
  rq_login :: "login_request option"

datatype auth_body =
    ErrorResponse string
  | PlainText string
  | LoginResponse bool string
  | LogoutResponse
  | AuthCheck bool "string option"
  | NextHandler "string option"

record cookie =
  ck_name :: string
  ck_value :: string
  ck_path :: string
  ck_max_age :: int
  ck_http_only :: bool
  ck_secure :: bool
  ck_same_site_lax :: bool

record auth_response =
  rs_status :: int
  rs_authenticate :: "string option"
  rs_cookie :: "cookie option"
  rs_body :: auth_body

definition plain_response :: "int \<Rightarrow> auth_body \<Rightarrow> auth_response" where
  "plain_response status b = \<lparr>rs_status = status, rs_authenticate = None, rs_cookie = None, rs_body = b\<rparr>"

definition JSONError :: "string \<Rightarrow> int \<Rightarrow> auth_response" where
  "JSONError message statusCode = plain_response statusCode (ErrorResponse message)"

definition header_get :: "auth_request \<Rightarrow> string \<Rightarrow> string" where
  "header_get r k = map_get [] (rq_header r) k"

definition GetSessionToken :: "auth_request \<Rightarrow> string" where
  "GetSessionToken r =
     (case map_of (rq_cookies r) SessionCookieName of
        Some v \<Rightarrow> v
      | None \<Rightarrow> header_get r SessionHeaderName)"

definition SetSessionCookie :: "auth_response \<Rightarrow> string \<Rightarrow> bool \<Rightarrow> auth_response" where
  "SetSessionCookie w token secure =
     w\<lparr>rs_cookie := Some \<lparr>ck_name = SessionCookieName, ck_value = token, ck_path = ''/'', ck_max_age = SessionMaxAge,
       ck_http_only = True, ck_secure = secure, ck_same_site_lax = True\<rparr>\<rparr>"

definition ClearSessionCookie :: "auth_response \<Rightarrow> bool \<Rightarrow> auth_response" where
  "ClearSessionCookie w secure =
     w\<lparr>rs_cookie := Some \<lparr>ck_name = SessionCookieName, ck_value = [], ck_path = ''/'', ck_max_age = -1,
       ck_http_only = True, ck_secure = secure, ck_same_site_lax = True\<rparr>\<rparr>"

subsection \<open>Middleware\<close>

definition SessionAuthMiddleware ::
  "session_store \<Rightarrow> time \<Rightarrow> (string \<Rightarrow> auth_request \<Rightarrow> auth_response) \<Rightarrow> auth_request \<Rightarrow> auth_response" where
  "SessionAuthMiddleware sessions now next_handler r =
     (let token = GetSessionToken r
      in if token = [] then JSONError ''authentication_required'' 401
         else case ValidateToken sessions token now of
                None \<Rightarrow> JSONError ''authentication_required'' 401
              | Some session \<Rightarrow> next_handler (sn_username session) r)"

text \<open>\<open>r.BasicAuth()\<close>: the scheme is compared ignoring case, the rest decoded and cut at the first colon.\<close>

definition parse_basic_auth :: "auth_request \<Rightarrow> (string \<times> string) option" where
  "parse_basic_auth r =
     (let a = header_get r ''Authorization'' in
      if length a < 6 \<or> map lower_char (take 6 a) \<noteq> ''basic '' then None
      else case b64_decode b64_std (drop 6 a) of
             None \<Rightarrow> None
           | Some c \<Rightarrow> if CHR '':'' \<in> set c
                then Some (takeWhile (\<lambda>x. x \<noteq> CHR '':'') c, tl (dropWhile (\<lambda>x. x \<noteq> CHR '':'') c)) else None)"

definition WWWAuthenticateHeader :: string where
  "WWWAuthenticateHeader = ''Basic realm='' @ [CHR 0x22] @ ''uvb76'' @ [CHR 0x22] @ '', charset='' @ [CHR 0x22] @ ''UTF-8'' @ [CHR 0x22]"

definition basic_unauthorized :: auth_response where
  "basic_unauthorized = (plain_response 401 (PlainText ''Unauthorized''))\<lparr>rs_authenticate := Some WWWAuthenticateHeader\<rparr>"

definition BasicAuthMiddleware ::
  "(string \<Rightarrow> string) \<Rightarrow> string \<Rightarrow> string \<Rightarrow> (auth_request \<Rightarrow> auth_response) \<Rightarrow> auth_request \<Rightarrow> auth_response" where
  "BasicAuthMiddleware sha256 username passwordHash next_handler r =
     (case parse_basic_auth r of
        None \<Rightarrow> basic_unauthorized
      | Some (providedUser, providedPass) \<Rightarrow>
          (if providedUser \<noteq> username then basic_unauthorized
           else case VerifyPassword sha256 providedPass passwordHash of
                  Inl _ \<Rightarrow> basic_unauthorized
                | Inr valid \<Rightarrow> if \<not> valid then basic_unauthorized else next_handler r))"

subsection \<open>The authentication handlers\<close>

definition handleLogin ::
  "(string \<Rightarrow> string) \<Rightarrow> auth_config \<Rightarrow> bool \<Rightarrow> string option \<Rightarrow> time \<Rightarrow> auth_request \<Rightarrow> session_store
    \<Rightarrow> session_store \<times> auth_response" where
  "handleLogin sha256 cfg devMode rand now r ss =
     (if rq_method r \<noteq> MethodPost then (ss, JSONError ''method_not_allowed'' 405)
      else case rq_login r of
        None \<Rightarrow> (ss, JSONError ''invalid_request'' 400)
      | Some req \<Rightarrow>
          (if \<not> AuthenticateFull sha256 (lr_username req) (lr_password req) (ac_username cfg) (ac_password cfg)
           then (ss, plain_response 401 (LoginResponse False ''invalid_credentials''))
           else case GenerateToken (lr_username req) rand now ss of
               (ss', None) \<Rightarrow> (ss', JSONError ''session_creation_failed'' 500)
             | (ss', Some token) \<Rightarrow>
                 (ss', SetSessionCookie (plain_response 200 (LoginResponse True [])) token (\<not> devMode))))"

definition handleLogout :: "bool \<Rightarrow> auth_request \<Rightarrow> session_store \<Rightarrow> session_store \<times> auth_response" where
  "handleLogout devMode r ss =
     (if rq_method r \<noteq> MethodPost then (ss, JSONError ''method_not_allowed'' 405)
      else let token = GetSessionToken r;
               ss' = (if token \<noteq> [] then InvalidateToken token ss else ss)
        in (ss', ClearSessionCookie (plain_response 200 LogoutResponse) (\<not> devMode)))"

definition handleAuthCheck :: "time \<Rightarrow> auth_request \<Rightarrow> session_store \<Rightarrow> auth_response" where
  "handleAuthCheck now r ss =
     (let token = GetSessionToken r
      in if token = [] then plain_response 401 (AuthCheck False None)
         else case ValidateToken ss token now of
                None \<Rightarrow> plain_response 401 (AuthCheck False None)
              | Some session \<Rightarrow> plain_response 200 (AuthCheck True (Some (sn_username session))))"

text \<open>The operations that reach the session store, in the order in which they take its lock.\<close>

datatype auth_op =
    Login auth_request "string option" time
  | Logout auth_request
  | Revoke string
  | RevokeUser string
  | Cleanup time

fun auth_step :: "(string \<Rightarrow> string) \<Rightarrow> auth_config \<Rightarrow> bool \<Rightarrow> auth_op \<Rightarrow> session_store \<Rightarrow> session_store" where
  "auth_step sha256 cfg devMode (Login r rand now) ss = fst (handleLogin sha256 cfg devMode rand now r ss)"
| "auth_step sha256 cfg devMode (Logout r) ss = fst (handleLogout devMode r ss)"
| "auth_step sha256 cfg devMode (Revoke token) ss = InvalidateToken token ss"
| "auth_step sha256 cfg devMode (RevokeUser username) ss = InvalidateAllForUser username ss"
| "auth_step sha256 cfg devMode (Cleanup now) ss = CleanupExpired now ss"

definition auth_run :: "(string \<Rightarrow> string) \<Rightarrow> auth_config \<Rightarrow> bool \<Rightarrow> auth_op list \<Rightarrow> session_store \<Rightarrow> session_store" where
  "auth_run sha256 cfg devMode ops ss = fold (auth_step sha256 cfg devMode) ops ss"

subsection \<open>Base64 round trip\<close>

lemma base64_split: "sextets [v div 64, v mod 64] = v"
  "sextets [v div 4096, v div 64 mod 64, v mod 64] = v"
  "sextets [v div 262144, v div 4096 mod 64, v div 64 mod 64, v mod 64] = v"
proof -
  have e: "v div 4096 = v div 64 div 64" "v div 262144 = v div 64 div 64 div 64" by (simp_all flip: div_mult2_eq)
  show "sextets [v div 64, v mod 64] = v"
    "sextets [v div 4096, v div 64 mod 64, v mod 64] = v"
    "sextets [v div 262144, v div 4096 mod 64, v div 64 mod 64, v mod 64] = v"
    unfolding e by (simp_all only: sextets_def foldl.simps mult_zero_left add_0 div_mult_mod_eq)
qed

lemma base64_bytes:
  fixes x y z :: nat
  assumes "x < 256" "y < 256" "z < 256"
  shows "x * 16 div 64 < 64" "(x * 256 + y) * 4 div 4096 < 64" "((x * 256 + y) * 256 + z) div 262144 < 64"
    "(x * 256 + y) * 4 div 1024 = x" "(x * 256 + y) * 4 div 4 mod 256 = y"
    "((x * 256 + y) * 256 + z) div 65536 = x" "((x * 256 + y) * 256 + z) div 256 mod 256 = y"
    "((x * 256 + y) * 256 + z) mod 256 = z"
proof -
  have le: "x \<le> 255" "y \<le> 255" "z \<le> 255" using assms by linarith+
  have yz: "y * 256 + z < 65536" using assms by linarith
  have "((x * 256 + y) * 256 + z) div 65536 = (y * 256 + z + x * 65536) div 65536" by (simp add: algebra_simps)
  also have "\<dots> = x + (y * 256 + z) div 65536" by (rule div_mult_self1) simp
  finally show "((x * 256 + y) * 256 + z) div 65536 = x" using yz by simp
  have "(x * 256 + y) * 4 div 1024 = (y * 4 + x * 1024) div 1024" by (simp add: algebra_simps)
  also have "\<dots> = x + y * 4 div 1024" by (rule div_mult_self1) simp
  finally show "(x * 256 + y) * 4 div 1024 = x" using assms by simp
  show "x * 16 div 64 < 64" by (rule less_mult_imp_div_less) (use assms in linarith)
  show "(x * 256 + y) * 4 div 4096 < 64" by (rule less_mult_imp_div_less) (use le in simp)
  show "((x * 256 + y) * 256 + z) div 262144 < 64" by (rule less_mult_imp_div_less) (use le in simp)
  have low: "(a * 256 + b) div 256 = a" "(a * 256 + b) mod 256 = b" if "b < 256" for a b :: nat
    using that by simp_all
  show "(x * 256 + y) * 4 div 4 mod 256 = y" "((x * 256 + y) * 256 + z) div 256 mod 256 = y"
    "((x * 256 + y) * 256 + z) mod 256 = z"
    using assms by (simp, simp only: low, simp only: low)
qed

text \<open>What the encoder and the decoder need of an alphabet, discharged for both alphabets of the code.\<close>

locale base64_alphabet =
  fixes al :: string
  assumes digit: "i < 64 \<Longrightarrow> index_from 0 (al ! i) al = Some i"
    and plain: "i < 64 \<Longrightarrow> al ! i \<noteq> CHR ''='' \<and> al ! i \<noteq> CHR 0x0A \<and> al ! i \<noteq> CHR 0x0D"
begin

lemma byte_less: "byte_nat c < 256"
  by (simp add: byte_nat_def)

lemma char_byte: "char_of (byte_nat c) = c"
  by (simp add: byte_nat_def)

lemma quads_1: "b64_quads al (b64_encode al [a]) = Some [a]"
proof -
  define x where "x = byte_nat a"
  have x: "x < 256" using byte_less by (simp add: x_def)
  define v where "v = x * 16"
  have v: "v div 64 < 64" "v div 16 = x" using base64_bytes(1)[OF x x x] by (simp_all add: v_def)
  have "b64_encode al [a] = [al ! (v div 64), al ! (v mod 64), CHR ''='', CHR ''='']"
    by (simp only: b64_encode.simps Let_def v_def x_def)
  then show ?thesis by (simp add: digit v base64_split) (simp add: x_def char_byte)
qed

lemma quads_2: "b64_quads al (b64_encode al [a, b]) = Some [a, b]"
proof -
  define x y v where "x = byte_nat a" and "y = byte_nat b" and "v = (x * 256 + y) * 4"
  have xy: "x < 256" "y < 256" using byte_less by (simp_all add: x_def y_def)
  note v = base64_bytes[OF xy xy(1), folded v_def]
  have "b64_encode al [a, b] = [al ! (v div 4096), al ! (v div 64 mod 64), al ! (v mod 64), CHR ''='']"
    by (simp only: b64_encode.simps Let_def v_def x_def y_def)
  moreover have "b64_quads al [al ! (v div 4096), al ! (v div 64 mod 64), al ! (v mod 64), CHR ''=''] = Some [char_of x, char_of y]"
    using plain[of "v mod 64"] xy(2) by (simp add: Let_def digit v base64_split)
  ultimately show ?thesis by (simp only: x_def y_def char_byte)
qed

lemma quads_3: "b64_quads al (b64_encode al (a # b # c # s)) = map_option (\<lambda>t. a # b # c # t) (b64_quads al (b64_encode al s))"
proof -
  define x y z v where "x = byte_nat a" and "y = byte_nat b" and "z = byte_nat c" and "v = (x * 256 + y) * 256 + z"
  have xyz: "x < 256" "y < 256" "z < 256" using byte_less by (simp_all add: x_def y_def z_def)
  note v = base64_bytes[OF xyz, folded v_def]
  have c: "(char_of (v div 256) :: char) = char_of y" "(char_of v :: char) = char_of z"
    using v(7,8) by (metis char_of_mod_256)+
  have "b64_encode al (a # b # c # s) =
      al ! (v div 262144) # al ! (v div 4096 mod 64) # al ! (v div 64 mod 64) # al ! (v mod 64) # b64_encode al s"
    by (simp only: b64_encode.simps Let_def v_def x_def y_def z_def)
  moreover have "b64_quads al (al ! (v div 262144) # al ! (v div 4096 mod 64) # al ! (v div 64 mod 64) # al ! (v mod 64) # r)
      = map_option (\<lambda>t. char_of x # char_of y # char_of z # t) (b64_quads al r)" for r
    using plain[of "v mod 64"] by (simp add: Let_def digit v base64_split c)
  ultimately show ?thesis by (simp only: x_def y_def z_def char_byte)
qed

lemma quads_encode: "b64_quads al (b64_encode al s) = Some s"
proof (induction s rule: length_induct)
  case (1 s)
  consider "s = []" | a where "s = [a]" | a b where "s = [a, b]" | a b c t where "s = a # b # c # t"
    by (metis list.exhaust)
  then show ?case
    using 1 by cases (simp, simp only: quads_1, simp only: quads_2, simp only: quads_3, simp)
qed

lemma encode_plain: "c \<in> set (b64_encode al s) \<Longrightarrow> c \<noteq> CHR 0x0A \<and> c \<noteq> CHR 0x0D"
proof (induction s rule: length_induct)
  case (1 s)
  note le = base64_bytes(1-3)[OF byte_less byte_less byte_less]
  consider "s = []" | a where "s = [a]" | a b where "s = [a, b]" | a b c t where "s = a # b # c # t"
    by (metis list.exhaust)
  then show ?case
  proof cases
    case 4
    have "length t < length s" using 4 by simp
    with 1 4 show ?thesis using plain[OF le(3)] plain[OF mod_less_divisor[of 64]] by (auto simp: Let_def)
  qed (use 1(2) plain[OF le(1)] plain[OF le(2)] plain[OF mod_less_divisor[of 64]] in \<open>auto simp: Let_def\<close>)
qed

lemma decode_encode: "b64_decode al (b64_encode al s) = Some s"
proof -
  have "filter (\<lambda>c. c \<noteq> CHR 0x0A \<and> c \<noteq> CHR 0x0D) (b64_encode al s) = b64_encode al s"
    using encode_plain by (simp add: filter_id_conv)
  then show ?thesis by (simp add: b64_decode_def quads_encode)
qed

end

lemma url_digits: "list_all (\<lambda>i. index_from 0 (b64_url ! i) b64_url = Some i \<and> b64_url ! i \<noteq> CHR ''=''
    \<and> b64_url ! i \<noteq> CHR 0x0A \<and> b64_url ! i \<noteq> CHR 0x0D) [0..<64]"
  by code_simp

lemma std_digits: "list_all (\<lambda>i. index_from 0 (b64_std ! i) b64_std = Some i \<and> b64_std ! i \<noteq> CHR ''=''
    \<and> b64_std ! i \<noteq> CHR 0x0A \<and> b64_std ! i \<noteq> CHR 0x0D) [0..<64]"
  by code_simp

interpretation url: base64_alphabet b64_url
  using url_digits by unfold_locales (simp_all add: list_all_iff)

interpretation std: base64_alphabet b64_std
  using std_digits by unfold_locales (simp_all add: list_all_iff)

subsection \<open>Lifetime of a session\<close>

lemma or_zero_iff: "(v::nat) OR w = 0 \<longleftrightarrow> v = 0 \<and> w = 0"
  by (auto simp: bit_eq_iff bit_simps)

lemma xor_zero_iff: "(v::nat) XOR w = 0 \<longleftrightarrow> v = w"
  by (auto simp: bit_eq_iff bit_simps)

lemma compare_fold:
  "fold (\<lambda>(a, b) v. v OR (byte_nat a XOR byte_nat b)) ps v = 0 \<longleftrightarrow> v = 0 \<and> (\<forall>(a, b) \<in> set ps. a = b)"
  by (induction ps arbitrary: v) (auto simp: or_zero_iff xor_zero_iff byte_nat_def)

lemma ConstantTimeCompare_eq: "ConstantTimeCompare x y = 1 \<longleftrightarrow> x = y"
proof (cases "length x = length y")
  case True
  then have "(\<forall>(a, b) \<in> set (zip x y). a = b) \<longleftrightarrow> x = y"
    by (induction x y rule: list_induct2) auto
  with True show ?thesis by (simp add: ConstantTimeCompare_def compare_fold)
qed (auto simp: ConstantTimeCompare_def)

lemma last_write:
  assumes step: "\<And>x st. P (f x st) \<longleftrightarrow> I x \<or> (P st \<and> \<not> E x)" and init: "\<not> P st0"
  shows "P (fold f xs st0) \<longleftrightarrow> (\<exists>pre x post. xs = pre @ x # post \<and> I x \<and> list_all (\<lambda>y. \<not> E y) post)"
proof (induction xs rule: rev_induct)
  case (snoc x xs)
  have "(\<exists>pre y post. xs @ [x] = pre @ y # post \<and> I y \<and> list_all (\<lambda>y. \<not> E y) post)
    \<longleftrightarrow> I x \<or> (\<exists>pre y post. xs = pre @ y # post \<and> I y \<and> list_all (\<lambda>y. \<not> E y) post) \<and> \<not> E x" (is "?L \<longleftrightarrow> ?R")
  proof
    assume ?L
    then obtain pre y post where *: "xs @ [x] = pre @ y # post" "I y" "list_all (\<lambda>y. \<not> E y) post" by blast
    show ?R
    proof (cases post rule: rev_cases)
      case (snoc ys z)
      with * show ?thesis by auto
    qed (use * in auto)
  next
    assume ?R
    then consider "I x" | pre y post where "xs = pre @ y # post" "I y" "list_all (\<lambda>y. \<not> E y) post" "\<not> E x" by blast
    then show ?L
    proof cases
      case 2
      then have "xs @ [x] = pre @ y # (post @ [x])" "list_all (\<lambda>y. \<not> E y) (post @ [x])" by simp_all
      with 2(2) show ?thesis by blast
    qed (metis list.pred_inject(1))
  qed
  then show ?case using step snoc.IH by simp
qed (use init in simp)

text \<open>The login requests that succeed, the operation that starts a session and those that end it.\<close>

definition login_accepted :: "(string \<Rightarrow> string) \<Rightarrow> auth_config \<Rightarrow> auth_request \<Rightarrow> bool" where
  "login_accepted sha256 cfg r \<longleftrightarrow> rq_method r = MethodPost \<and>
     (case rq_login r of None \<Rightarrow> False
      | Some req \<Rightarrow> lr_username req = ac_username cfg \<and> VerifyPassword sha256 (lr_password req) (ac_password cfg) = Inr True)"

definition session_at :: "auth_config \<Rightarrow> time \<Rightarrow> session" where
  "session_at cfg t = \<lparr>sn_username = ac_username cfg, sn_created = t, sn_expires = t + 86400 * ns_per_sec\<rparr>"

fun starts_session :: "(string \<Rightarrow> string) \<Rightarrow> auth_config \<Rightarrow> string \<Rightarrow> session \<Rightarrow> auth_op \<Rightarrow> bool" where
  "starts_session sha256 cfg token s (Login r (Some rand) now) \<longleftrightarrow>
     login_accepted sha256 cfg r \<and> token = b64_encode b64_url rand \<and> s = session_at cfg now"
| "starts_session sha256 cfg token s _ \<longleftrightarrow> False"

fun ends_session :: "(string \<Rightarrow> string) \<Rightarrow> auth_config \<Rightarrow> string \<Rightarrow> session \<Rightarrow> auth_op \<Rightarrow> bool" where
  "ends_session sha256 cfg token s (Login r (Some rand) now) \<longleftrightarrow> login_accepted sha256 cfg r \<and> token = b64_encode b64_url rand"
| "ends_session sha256 cfg token s (Login r None now) \<longleftrightarrow> False"
| "ends_session sha256 cfg token s (Logout r) \<longleftrightarrow> rq_method r = MethodPost \<and> token \<noteq> [] \<and> GetSessionToken r = token"
| "ends_session sha256 cfg token s (Revoke t) \<longleftrightarrow> token = t"
| "ends_session sha256 cfg token s (RevokeUser u) \<longleftrightarrow> sn_username s = u"
| "ends_session sha256 cfg token s (Cleanup t) \<longleftrightarrow> t > sn_expires s"

lemma day_seconds: "seconds SessionMaxAge = 86400 * ns_per_sec"
  by (simp add: SessionMaxAge_def seconds_exact)

lemma AuthenticateFull_accepted:
  "AuthenticateFull sha256 u p u' h \<longleftrightarrow> u = u' \<and> VerifyPassword sha256 p h = Inr True"
  by (auto simp: AuthenticateFull_def ConstantTimeCompare_eq Let_def split: sum.splits)

lemma handleLogin_store:
  "fst (handleLogin sha256 cfg devMode rand now r ss) =
     (if login_accepted sha256 cfg r then fst (GenerateToken (ac_username cfg) rand now ss) else ss)"
  by (auto simp: handleLogin_def login_accepted_def AuthenticateFull_accepted split: option.splits prod.splits)

lemma delete_where_Some: "delete_where p m t = Some s \<longleftrightarrow> m t = Some s \<and> \<not> p s"
  by (auto simp: delete_where_def split: option.splits)

lemma auth_step_session:
  "ss_sessions (auth_step sha256 cfg devMode op ss) token = Some s \<longleftrightarrow>
     starts_session sha256 cfg token s op \<or> (ss_sessions ss token = Some s \<and> \<not> ends_session sha256 cfg token s op)"
proof (cases op)
  case (Login r rand now)
  then show ?thesis
    by (cases rand) (auto simp: handleLogin_store GenerateToken_def Let_def day_seconds session_at_def)
next
  case (Logout r)
  then show ?thesis by (auto simp: handleLogout_def InvalidateToken_def Let_def)
qed (auto simp: InvalidateToken_def InvalidateAllForUser_def CleanupExpired_def delete_where_Some)

text \<open>Exactly the sessions that some login started, that nothing ended since, and that have not expired are valid.\<close>

lemma session_lifetime:
  "ValidateToken (auth_run sha256 cfg devMode ops (NewSessionStore secret)) token now = Some s \<longleftrightarrow>
     now \<le> sn_expires s \<and>
     (\<exists>pre op post. ops = pre @ op # post \<and> starts_session sha256 cfg token s op
        \<and> list_all (\<lambda>o'. \<not> ends_session sha256 cfg token s o') post)"
proof -
  have "ss_sessions (auth_run sha256 cfg devMode ops (NewSessionStore secret)) token = Some s \<longleftrightarrow>
     (\<exists>pre op post. ops = pre @ op # post \<and> starts_session sha256 cfg token s op
        \<and> list_all (\<lambda>o'. \<not> ends_session sha256 cfg token s o') post)"
    unfolding auth_run_def
    by (rule last_write[where P = "\<lambda>ss. ss_sessions ss token = Some s"])
      (simp_all add: auth_step_session NewSessionStore_def)
  then show ?thesis by (auto simp: ValidateToken_def split: option.splits)
qed

definition open_session :: "(string \<Rightarrow> string) \<Rightarrow> auth_config \<Rightarrow> auth_op list \<Rightarrow> string \<Rightarrow> time \<Rightarrow> bool" where
  "open_session sha256 cfg ops token now \<longleftrightarrow>
     (\<exists>pre r rand t post. ops = pre @ Login r (Some rand) t # post \<and> login_accepted sha256 cfg r
        \<and> token = b64_encode b64_url rand \<and> now \<le> t + 86400 * ns_per_sec
        \<and> list_all (\<lambda>op. \<not> ends_session sha256 cfg token (session_at cfg t) op) post)"

lemma starts_session_iff:
  "starts_session sha256 cfg token s op \<longleftrightarrow>
     (\<exists>r rand t. op = Login r (Some rand) t \<and> login_accepted sha256 cfg r \<and> token = b64_encode b64_url rand \<and> s = session_at cfg t)"
  by (cases "(sha256, cfg, token, s, op)" rule: starts_session.cases) auto

lemma valid_iff_open:
  "ValidateToken (auth_run sha256 cfg devMode ops (NewSessionStore secret)) token now =
     None \<longleftrightarrow> \<not> open_session sha256 cfg ops token now"
  "ValidateToken (auth_run sha256 cfg devMode ops (NewSessionStore secret)) token now = Some s
     \<Longrightarrow> sn_username s = ac_username cfg"
proof -
  let ?v = "ValidateToken (auth_run sha256 cfg devMode ops (NewSessionStore secret)) token now"
  have "(\<exists>s. ?v = Some s) \<longleftrightarrow> open_session sha256 cfg ops token now"
  proof
    assume "\<exists>s. ?v = Some s"
    then show "open_session sha256 cfg ops token now"
      unfolding session_lifetime starts_session_iff open_session_def by (auto simp: session_at_def) blast
  next
    assume "open_session sha256 cfg ops token now"
    then obtain pre r rand t post where *: "ops = pre @ Login r (Some rand) t # post" "login_accepted sha256 cfg r"
      "token = b64_encode b64_url rand" "now \<le> t + 86400 * ns_per_sec"
      "list_all (\<lambda>op. \<not> ends_session sha256 cfg token (session_at cfg t) op) post"
      unfolding open_session_def by blast
    have "now \<le> sn_expires (session_at cfg t)" using *(4) by (simp add: session_at_def)
    then have "?v = Some (session_at cfg t)" unfolding session_lifetime starts_session_iff using *(1-3,5) by blast
    then show "\<exists>s. ?v = Some s" by blast
  qed
  then show "?v = None \<longleftrightarrow> \<not> open_session sha256 cfg ops token now" by auto
  show "sn_username s = ac_username cfg" if "?v = Some s"
    using that unfolding session_lifetime starts_session_iff by (auto simp: session_at_def)
qed

text \<open>
  C6. The guarded handlers run for exactly the right requests. After any sequence of requests
  a request reaches a protected handler, under the configured user name, if and only if its
  token was issued by a login with that user name and a password that verifies, at most 24
  hours before, and since then was not logged out, revoked, reissued or cleaned up; every
  other request gets status 401 and the handler does not run.
\<close>

theorem guarded_request:
  "SessionAuthMiddleware (auth_run sha256 cfg devMode ops (NewSessionStore secret)) now next_handler r =
     (if GetSessionToken r \<noteq> [] \<and> open_session sha256 cfg ops (GetSessionToken r) now
      then next_handler (ac_username cfg) r
      else JSONError ''authentication_required'' 401)"
proof (cases "GetSessionToken r = []")
  case False
  let ?v = "ValidateToken (auth_run sha256 cfg devMode ops (NewSessionStore secret)) (GetSessionToken r) now"
  show ?thesis
  proof (cases ?v)
    case (Some s)
    with valid_iff_open(1)[of sha256 cfg devMode ops secret "GetSessionToken r" now]
    have "open_session sha256 cfg ops (GetSessionToken r) now" by simp
    with False Some valid_iff_open(2)[OF Some] show ?thesis by (simp add: SessionAuthMiddleware_def)
  qed (use False valid_iff_open(1)[of sha256 cfg devMode ops secret "GetSessionToken r" now] in \<open>simp add: SessionAuthMiddleware_def\<close>)
qed (simp add: SessionAuthMiddleware_def)

text \<open>
  C35. A login answers 200 exactly when the method, the credentials and the random generator
  allow it. Then, and only then, it sets a cookie, the cookie's token is valid from that
  moment on and until 24 hours later, and no other token changes; a login that fails leaves
  the store as it was. No answer asks the browser for basic authentication.
\<close>

theorem login_outcome:
  assumes "handleLogin sha256 cfg devMode rand now r ss = (ss', w)"
  shows "(rs_status w = 200 \<longleftrightarrow> login_accepted sha256 cfg r \<and> rand \<noteq> None) \<and> rs_authenticate w = None
    \<and> (if rs_status w = 200
       then \<exists>ck. rs_cookie w = Some ck \<and> ck_secure ck = (\<not> devMode) \<and> ck_http_only ck
         \<and> (\<forall>k t. ValidateToken ss' k t =
              (if k = ck_value ck then if t \<le> now + 86400 * ns_per_sec then Some (session_at cfg now) else None
               else ValidateToken ss k t))
       else ss' = ss \<and> rs_cookie w = None)"
  using assms
  by (auto simp: handleLogin_def login_accepted_def AuthenticateFull_accepted GenerateToken_def SetSessionCookie_def
      plain_response_def JSONError_def ValidateToken_def session_at_def day_seconds Let_def
      split: if_splits option.splits prod.splits)

text \<open>
  HTTP Basic credentials survive the transport: a client that sends a user name without a
  colon and any password, base64-encoded as the standard asks, is let through exactly when
  the name is the configured one and the password verifies against the stored hash.
\<close>

theorem basic_auth_roundtrip:
  assumes "CHR '':'' \<notin> set u" and "header_get r ''Authorization'' = ''Basic '' @ b64_encode b64_std (u @ '':'' @ p)"
  shows "BasicAuthMiddleware sha256 username h next_handler r =
     (if u = username \<and> VerifyPassword sha256 p h = Inr True then next_handler r else basic_unauthorized)"
proof -
  have cut: "takeWhile (\<lambda>x. x \<noteq> CHR '':'') (u @ CHR '':'' # p) = u" "tl (dropWhile (\<lambda>x. x \<noteq> CHR '':'') (u @ CHR '':'' # p)) = p"
    using assms(1) by (induction u) auto
  have "map lower_char ''Basic '' = ''basic ''" by code_simp
  then have "parse_basic_auth r = Some (u, p)"
    using assms(1) cut by (simp add: parse_basic_auth_def assms(2) Let_def std.decode_encode)
  then show ?thesis by (auto simp: BasicAuthMiddleware_def split: sum.splits)
qed

definition auth_example :: auth_config where
  "auth_example = \<lparr>ac_username = ''op'', ac_password = ''sha256:'' @ replicate 32 CHR ''0'' @ '':'' @ replicate 64 CHR ''0''\<rparr>"

definition login_example :: auth_request where
  "login_example = \<lparr>rq_method = MethodPost, rq_cookies = [], rq_header = Map.empty,
     rq_login = Some \<lparr>lr_username = ''op'', lr_password = ''pw''\<rparr>\<rparr>"

lemma login_example_ok: "login_accepted (\<lambda>_. replicate 32 CHR 0x00) auth_example login_example"
  by code_simp

lemma login_outcome_witness:
  "\<exists>ss' w. handleLogin (\<lambda>_. replicate 32 CHR 0x00) auth_example False (Some ''r'') 5 login_example (NewSessionStore []) = (ss', w)
     \<and> rs_status w = 200 \<and> rs_authenticate w = None"
proof -
  obtain ss' w where *: "handleLogin (\<lambda>_. replicate 32 CHR 0x00) auth_example False (Some ''r'') 5 login_example (NewSessionStore []) = (ss', w)"
    by (cases "handleLogin (\<lambda>_. replicate 32 CHR 0x00) auth_example False (Some ''r'') 5 login_example (NewSessionStore [])")
  show ?thesis using * login_outcome[OF *] login_example_ok by auto
qed

lemma basic_auth_roundtrip_witness:
  "BasicAuthMiddleware (\<lambda>_. replicate 32 CHR 0x00) ''op'' (ac_password auth_example) (\<lambda>_. plain_response 200 LogoutResponse)
     (login_example\<lparr>rq_header := [''Authorization'' \<mapsto> ''Basic '' @ b64_encode b64_std (''op'' @ '':'' @ ''pw'')]\<rparr>)
     = plain_response 200 LogoutResponse"
proof -
  have v: "VerifyPassword (\<lambda>_. replicate 32 CHR 0x00) ''pw'' (ac_password auth_example) = Inr True" by code_simp
  show ?thesis
    by (subst basic_auth_roundtrip[where u = "''op''" and p = "''pw''"]) (simp_all add: header_get_def map_get_def v)
qed

end
