(* ===== verification/Latency_Api.thy ===== *)
theory Latency_Api
  imports State_Manager Auth_Session Decimal
begin

section \<open>The latency endpoints of the HTTP server\<close>

text \<open>
  Models the read side of \<open>uvb76/server\<close>: \<open>latency_series_query.go\<close>, \<open>latency_series.go\<close>,
  and the summary, sample, target and snapshot handlers of \<open>latency.go\<close> and \<open>server.go\<close>.

  A handler is a function of the configuration, the query, the clock and the manager. It
  answers \<open>Inl\<close> an error (status, message, further fields) or \<open>Inr\<close> the value that the code
  encodes as JSON. \<open>url.Values\<close> is the map of each key to its first value. The router and the
  JSON encoder are not modelled.
\<close>

subsection \<open>Queries and answers\<close>

type_synonym url_values = "string \<rightharpoonup> string"

definition values_get :: "url_values \<Rightarrow> string \<Rightarrow> string" where
  "values_get values k = map_get [] values k"

record api_error =
  ae_status :: int
  ae_error :: string
  ae_extra :: "(string \<times> string) list"

definition api_fail :: "int \<Rightarrow> string \<Rightarrow> api_error" where
  "api_fail status e = \<lparr>ae_status = status, ae_error = e, ae_extra = []\<rparr>"

definition find_target :: "target_config list \<Rightarrow> string \<Rightarrow> target_config option" where
  "find_target ts targetID = find (\<lambda>t. tg_id t = targetID) ts"

text \<open>A positive number in the query replaces the default; anything else is ignored.\<close>

definition positive_param :: "url_values \<Rightarrow> string \<Rightarrow> int \<Rightarrow> int" where
  "positive_param values k d =
     (if values_get values k = [] then d
      else case Atoi (values_get values k) of None \<Rightarrow> d | Some parsed \<Rightarrow> if parsed > 0 then parsed else d)"

subsection \<open>The series query\<close>

definition DefaultRangeSeconds :: int where "DefaultRangeSeconds = 3600"
definition DefaultStepSeconds :: int where "DefaultStepSeconds = 60"
definition DefaultWindowSeconds :: int where "DefaultWindowSeconds = 300"
definition MaxRangeSeconds :: int where "MaxRangeSeconds = 86400"
definition MinStepSeconds :: int where "MinStepSeconds = 1"
definition MaxStepSeconds :: int where "MaxStepSeconds = 3600"
definition MaxWindowSeconds :: int where "MaxWindowSeconds = 3600"
definition MaxOutputPoints :: int where "MaxOutputPoints = 1440"
definition MaxSamplesPerWindow :: nat where "MaxSamplesPerWindow = 36000"

datatype query_error = ErrTargetIDRequired | ErrInvalidProbeKind | ErrRangeExceedsMaximum | ErrStepExceedsMaximum

record series_query =
  qy_target :: string
  qy_kind :: string
  qy_kind_str :: string
  qy_range :: int
  qy_step :: int
  qy_window :: int

definition ParseLatencySeriesQuery :: "url_values \<Rightarrow> series_query \<times> query_error option" where
  "ParseLatencySeriesQuery values =
     (let q0 = \<lparr>qy_target = [], qy_kind = [], qy_kind_str = [], qy_range = DefaultRangeSeconds, qy_step = DefaultStepSeconds,
               qy_window = DefaultWindowSeconds\<rparr>;
          targetID = values_get values ''target_id''
      in if targetID = [] then (q0, Some ErrTargetIDRequired)
         else let probeKindStr = (if values_get values ''probe_kind'' = [] then ''http'' else values_get values ''probe_kind'');
                  q1 = q0\<lparr>qy_target := targetID, qy_kind_str := probeKindStr\<rparr>
           in if probeKindStr \<noteq> ''http'' \<and> probeKindStr \<noteq> ''icmp'' then (q1, Some ErrInvalidProbeKind)
              else let q2 = q1\<lparr>qy_kind := (if probeKindStr = ''http'' then ProbeKindHTTP else ProbeKindICMP),
                               qy_range := positive_param values ''range_seconds'' DefaultRangeSeconds\<rparr>
                in if qy_range q2 > MaxRangeSeconds then (q2, Some ErrRangeExceedsMaximum)
                   else let step = positive_param values ''step_seconds'' DefaultStepSeconds;
                            q3 = q2\<lparr>qy_step := (if step < MinStepSeconds then MinStepSeconds else step)\<rparr>
                     in if qy_step q3 > MaxStepSeconds then (q3, Some ErrStepExceedsMaximum)
                        else let window = positive_param values ''window_seconds'' DefaultWindowSeconds;
                                 window' = (if window > MaxWindowSeconds then MaxWindowSeconds else window)
                          in (q3\<lparr>qy_window := (if window' \<le> 0 then DefaultWindowSeconds else window')\<rparr>, None))"

subsection \<open>The series handler\<close>

record percentile_point =
  pp_ts :: time
  pp_p50 :: "f64 option"
  pp_p90 :: "f64 option"
  pp_p95 :: "f64 option"
  pp_p99 :: "f64 option"
  pp_samples :: int
  pp_errors :: int

record latency_series =
  sr_target :: string
  sr_kind :: string
  sr_url :: string
  sr_interval :: int
  sr_query_range :: int
  sr_range :: int
  sr_step :: int
  sr_window :: int
  sr_retained_range :: int
  sr_count :: int
  sr_retained :: int
  sr_capacity :: int
  sr_returned :: int
  sr_oldest :: "time option"
  sr_newest :: "time option"
  sr_points :: "percentile_point list"

definition in_window :: "time \<Rightarrow> time \<Rightarrow> time \<Rightarrow> bool" where
  "in_window windowStart windowEnd t \<longleftrightarrow> t > windowStart \<and> \<not> t > windowEnd"

text \<open>One point: the window that ends \<open>stepsFromNow\<close> steps before now.\<close>

definition series_point :: "time \<Rightarrow> int \<Rightarrow> int \<Rightarrow> sample list \<Rightarrow> series_meta list \<Rightarrow> int \<Rightarrow> percentile_point" where
  "series_point now stepSeconds windowSeconds domainSamples sampleMetas stepsFromNow =
     (let windowEnd = now + wrap64 (- (stepsFromNow * stepSeconds) * ns_per_sec);
          windowStart = windowEnd + wrap64 (- windowSeconds * ns_per_sec);
          windowDomainSamples = take MaxSamplesPerWindow (filter (\<lambda>s. in_window windowStart windowEnd (s_at s)) domainSamples);
          errorCount = int (length (filter (\<lambda>meta. in_window windowStart windowEnd (sm_at meta) \<and> \<not> sm_ok meta) sampleMetas));
          totalInWindow = int (length windowDomainSamples);
          w = NewSampleWindow windowDomainSamples;
          value_of = (\<lambda>p. if windowDomainSamples = [] then None else map_option lm_v (p w))
      in \<lparr>pp_ts = windowEnd, pp_p50 = value_of P50, pp_p90 = value_of P90, pp_p95 = value_of P95, pp_p99 = value_of P99,
          pp_samples = totalInWindow + errorCount, pp_errors = errorCount\<rparr>)"

definition series_steps :: "int \<Rightarrow> int \<Rightarrow> int" where
  "series_steps effectiveRange stepSeconds =
     (let numSteps = go_div effectiveRange stepSeconds;
          numSteps1 = (if numSteps < 1 then 1 else numSteps)
      in if numSteps1 > MaxOutputPoints then MaxOutputPoints else numSteps1)"

definition GetMaxSamples :: "manager \<Rightarrow> int" where "GetMaxSamples m = mg_max m"
definition GetICMPMaxSamples :: "manager \<Rightarrow> int" where "GetICMPMaxSamples m = mg_icmp_max m"

text \<open>The answer for a known target and valid parameters.\<close>

definition series_answer :: "config \<Rightarrow> time \<Rightarrow> manager \<Rightarrow> target_config \<Rightarrow> string \<Rightarrow> int \<Rightarrow> int \<Rightarrow> int \<Rightarrow> latency_series" where
  "series_answer cfg now m t probeKindStr rangeSeconds stepSeconds windowSeconds =
     (let targetID = tg_id t;
          http = (probeKindStr = ''http'');
          hc = lc_http (cf_latency cfg);
          ic = lc_icmp (cf_latency cfg);
          maxSamples = (if http then GetMaxSamples m else GetICMPMaxSamples m);
          intervalSeconds = (if http then hp_interval hc else ip_interval ic);
          retainedRange = (if http then hp_retained hc else ip_retained ic);
          probeURL = (if http then TargetStatusURL (tg_base_url t) else tg_base_url t);
          snap = GetSeriesSnapshot targetID (if http then ProbeKindHTTP else ProbeKindICMP) maxSamples m;
          maxSampleAge = wrap64 (intervalSeconds * maxSamples);
          maxRetained = (if maxSamples > 0 \<and> intervalSeconds > 0 \<and> maxSampleAge < retainedRange then maxSampleAge else retainedRange);
          effectiveRange = (if maxRetained < rangeSeconds then maxRetained else rangeSeconds);
          numSteps = series_steps effectiveRange stepSeconds;
          points = map (\<lambda>i. series_point now stepSeconds windowSeconds (Samples (se_window snap)) (se_samples snap)
                       (numSteps - 1 - int i)) [0..<nat numSteps]
      in \<lparr>sr_target = targetID, sr_kind = probeKindStr, sr_url = probeURL, sr_interval = intervalSeconds,
          sr_query_range = rangeSeconds, sr_range = effectiveRange, sr_step = stepSeconds, sr_window = windowSeconds,
          sr_retained_range = maxRetained, sr_count = se_count snap, sr_retained = se_count snap, sr_capacity = se_capacity snap,
          sr_returned = int (length points),
          sr_oldest = (if is_zero_time (se_oldest snap) then None else Some (se_oldest snap)),
          sr_newest = (if is_zero_time (se_newest snap) then None else Some (se_newest snap)),
          sr_points = points\<rparr>)"

definition handleTargetLatencySeries :: "config \<Rightarrow> url_values \<Rightarrow> time \<Rightarrow> manager \<Rightarrow> api_error + latency_series" where
  "handleTargetLatencySeries cfg values now m =
     (let targetID = values_get values ''target_id''
      in if targetID = [] then Inl (api_fail 400 ''target_id is required'')
         else let probeKindStr = (if values_get values ''probe_kind'' = [] then ''http'' else values_get values ''probe_kind'')
           in if probeKindStr \<noteq> ''http'' \<and> probeKindStr \<noteq> ''icmp'' then Inl (api_fail 400 (''probe_kind must be '' @ [CHR 0x27] @ ''http'' @ [CHR 0x27] @ '' or '' @ [CHR 0x27] @ ''icmp'' @ [CHR 0x27]))
              else case find_target (cf_targets cfg) targetID of
                None \<Rightarrow> Inl (api_fail 404 ''target_not_found'')
              | Some targetCfg \<Rightarrow>
                  (let rangeSeconds = positive_param values ''range_seconds'' 3600
                   in if rangeSeconds > MaxRangeSeconds
                      then Inl \<lparr>ae_status = 400, ae_error = ''range_seconds exceeds maximum'', ae_extra = [(''max_allowed'', ''86400'')]\<rparr>
                      else let step0 = positive_param values ''step_seconds'' 60;
                               stepSeconds = (if step0 < MinStepSeconds then MinStepSeconds else step0)
                        in if stepSeconds > MaxStepSeconds
                           then Inl \<lparr>ae_status = 400, ae_error = ''step_seconds exceeds maximum'', ae_extra = [(''max_allowed'', ''3600'')]\<rparr>
                           else let window0 = positive_param values ''window_seconds'' 300;
                                    window1 = (if window0 > MaxWindowSeconds then MaxWindowSeconds else window0);
                                    windowSeconds = (if window1 \<le> 0 then 300 else window1)
                             in Inr (series_answer cfg now m targetCfg probeKindStr rangeSeconds stepSeconds windowSeconds)))"

subsection \<open>Summaries, samples, targets, snapshots\<close>

record target_latency =
  tl_target :: string
  tl_http :: "latency_summary option"
  tl_icmp :: "latency_summary option"

text \<open>The outer option is the panic of a summary; the manager's theorems show that it does not happen.\<close>

definition handleTargetLatency :: "config \<Rightarrow> string \<Rightarrow> manager \<Rightarrow> (api_error + target_latency) option" where
  "handleTargetLatency cfg targetID m =
     (case find_target (cf_targets cfg) targetID of
        None \<Rightarrow> Some (Inl (api_fail 404 ''target_not_found''))
      | Some _ \<Rightarrow>
          Option.bind (if http_IsEnabled (lc_http (cf_latency cfg)) then map_option Some (GetLatencySummary targetID m) else Some None) (\<lambda>h.
          Option.bind (if icmp_IsEnabled (lc_icmp (cf_latency cfg)) then map_option Some (GetICMPLatencySummary targetID m) else Some None) (\<lambda>i.
            Some (Inr \<lparr>tl_target = targetID, tl_http = h, tl_icmp = i\<rparr>))))"

text \<open>\<open>json.Unmarshal\<close> of a number into an int: blanks around, no plus sign, no leading zero, no fraction.\<close>

definition json_blank :: "char \<Rightarrow> bool" where
  "json_blank c = (c \<in> set [CHR 0x09, CHR 0x0A, CHR 0x0D, CHR '' ''])"

definition json_int :: "string \<Rightarrow> int option" where
  "json_int s =
     (let t = rev (dropWhile json_blank (rev (dropWhile json_blank s)));
          d = (case t of c # r \<Rightarrow> if c = CHR ''-'' then r else t | [] \<Rightarrow> t)
      in if t = ''null'' then Some 0
         else if t \<noteq> [] \<and> hd t = CHR ''+'' then None
         else if length d > 1 \<and> hd d = CHR ''0'' then None
         else Atoi t)"

definition sample_limit :: "string \<Rightarrow> int" where
  "sample_limit l = (if l = [] then 100 else case json_int l of None \<Rightarrow> 100 | Some parsed \<Rightarrow> if parsed > 0 then parsed else 100)"

definition handleTargetLatencySamples :: "config \<Rightarrow> string \<Rightarrow> url_values \<Rightarrow> manager \<Rightarrow> api_error + latency_sample list" where
  "handleTargetLatencySamples cfg targetID values m =
     (case find_target (cf_targets cfg) targetID of
        None \<Rightarrow> Inl (api_fail 404 ''target_not_found'')
      | Some _ \<Rightarrow> Inr (sn_samples (GetHTTPSnapshot targetID (sample_limit (values_get values ''limit'')) m)))"

definition handleAllLatency :: "config \<Rightarrow> manager \<Rightarrow> string \<rightharpoonup> latency_summary option" where
  "handleAllLatency cfg m = GetAllTargetSummaries (map tg_id (cf_targets cfg)) m"

record target_info =
  ti_id :: string
  ti_name :: string
  ti_base_url :: string
  ti_probe_url :: string
  ti_effective_url :: string
  ti_enabled :: bool
  ti_peer_name :: string
  ti_peer_url :: string
  ti_capture_url :: string

definition target_info_of :: "(string \<rightharpoonup> diag_peer) \<Rightarrow> target_config \<Rightarrow> target_info" where
  "target_info_of targetToPeer t =
     (let peer = targetToPeer (tg_id t); field = (\<lambda>f. case peer of None \<Rightarrow> [] | Some p \<Rightarrow> f p)
      in \<lparr>ti_id = tg_id t, ti_name = tg_name t, ti_base_url = tg_base_url t, ti_probe_url = tg_probe_url t,
          ti_effective_url = TargetProbeURL t, ti_enabled = tg_enabled t,
          ti_peer_name = field dp_name, ti_peer_url = field dp_base_url, ti_capture_url = field dp_effective_url\<rparr>)"

definition handleTargets :: "config \<Rightarrow> target_info list" where
  "handleTargets cfg = (let targetToPeer = TargetToDiagPeers (cf_diagnostics cfg) in map (target_info_of targetToPeer) (cf_targets cfg))"

definition handleTargetSnapshot :: "config \<Rightarrow> string \<Rightarrow> manager \<Rightarrow> api_error + target_snapshot" where
  "handleTargetSnapshot cfg targetID m =
     (case find_target (cf_targets cfg) targetID of
        None \<Rightarrow> Inl (api_fail 404 ''target_not_found'')
      | Some _ \<Rightarrow> (case GetSnapshot targetID m of None \<Rightarrow> Inl (api_fail 404 ''no_snapshot_available'') | Some snap \<Rightarrow> Inr snap))"

text \<open>\<open>contentTypeFor\<close>, and the guard that all memory endpoints share.\<close>

definition contentTypeFor :: "string \<Rightarrow> string" where
  "contentTypeFor ext =
     (let e = map lower_char ext
      in if e = ''.html'' then ''text/html; charset=utf-8''
         else if e = ''.css'' then ''text/css; charset=utf-8''
         else if e = ''.js'' then ''application/javascript; charset=utf-8''
         else if e = ''.json'' then ''application/json''
         else if e = ''.png'' then ''image/png''
         else if e = ''.jpg'' \<or> e = ''.jpeg'' then ''image/jpeg''
         else if e = ''.svg'' then ''image/svg+xml''
         else if e = ''.ico'' then ''image/x-icon''
         else ''application/octet-stream'')"

definition dev_only :: "bool \<Rightarrow> 'a \<Rightarrow> api_error + 'a" where
  "dev_only devMode answer = (if \<not> devMode then Inl (api_fail 403 ''diagnostics disabled in production'') else Inr answer)"

subsection \<open>The parser and the handler agree\<close>

lemmas series_limits = DefaultRangeSeconds_def DefaultStepSeconds_def DefaultWindowSeconds_def MaxRangeSeconds_def MinStepSeconds_def
  MaxStepSeconds_def MaxWindowSeconds_def

lemma positive_param_pos: "0 < d \<Longrightarrow> 0 < positive_param values k d"
  by (simp add: positive_param_def split: option.split)

lemma series_steps_bounds: "1 \<le> series_steps r st" "series_steps r st \<le> 1440"
  by (simp_all add: series_steps_def MaxOutputPoints_def Let_def)

lemma series_answer_points:
  "sr_points (series_answer cfg now m t k r st w) =
     (let snap = GetSeriesSnapshot (tg_id t) (if k = ''http'' then ProbeKindHTTP else ProbeKindICMP)
                   (if k = ''http'' then GetMaxSamples m else GetICMPMaxSamples m) m;
          n = series_steps (sr_range (series_answer cfg now m t k r st w)) st
      in map (\<lambda>i. series_point now st w (Samples (se_window snap)) (se_samples snap) (n - 1 - int i)) [0..<nat n])"
  "sr_returned (series_answer cfg now m t k r st w) = int (length (sr_points (series_answer cfg now m t k r st w)))"
  "sr_range (series_answer cfg now m t k r st w) \<le> r" "sr_step (series_answer cfg now m t k r st w) = st"
  "sr_window (series_answer cfg now m t k r st w) = w"
  by (simp_all add: series_answer_def Let_def)

text \<open>
  The series handler parses its query exactly as the query parser of the package does,
  although it repeats the code: for every query it answers the parser's error, in the same
  order, with the target looked up after the probe kind, or the series for the parser's
  parameters. And no query, however large its numbers, gets past the limits: an error has
  status 400 or 404, and an answer has a range of at most a day, a step and a window of at
  most an hour, and at most 1440 points.
\<close>

theorem series_query_agrees:
  "handleTargetLatencySeries cfg values now m =
     (case ParseLatencySeriesQuery values of
        (q, Some ErrTargetIDRequired) \<Rightarrow> Inl (api_fail 400 ''target_id is required'')
      | (q, Some ErrInvalidProbeKind) \<Rightarrow> Inl (api_fail 400 (''probe_kind must be '' @ [CHR 0x27] @ ''http'' @ [CHR 0x27] @ '' or '' @ [CHR 0x27] @ ''icmp'' @ [CHR 0x27]))
      | (q, e) \<Rightarrow>
          (case find_target (cf_targets cfg) (qy_target q) of
             None \<Rightarrow> Inl (api_fail 404 ''target_not_found'')
           | Some t \<Rightarrow>
               (case e of
                  Some ErrStepExceedsMaximum \<Rightarrow> Inl \<lparr>ae_status = 400, ae_error = ''step_seconds exceeds maximum'', ae_extra = [(''max_allowed'', ''3600'')]\<rparr>
                | Some _ \<Rightarrow> Inl \<lparr>ae_status = 400, ae_error = ''range_seconds exceeds maximum'', ae_extra = [(''max_allowed'', ''86400'')]\<rparr>
                | None \<Rightarrow> Inr (series_answer cfg now m t (qy_kind_str q) (qy_range q) (qy_step q) (qy_window q)))))
   \<and> (case handleTargetLatencySeries cfg values now m of
        Inl e \<Rightarrow> ae_status e = 400 \<or> ae_status e = 404
      | Inr s \<Rightarrow> sr_range s \<le> 86400 \<and> 1 \<le> sr_step s \<and> sr_step s \<le> 3600 \<and> 1 \<le> sr_window s \<and> sr_window s \<le> 3600
          \<and> sr_returned s = int (length (sr_points s)) \<and> 1 \<le> length (sr_points s) \<and> length (sr_points s) \<le> 1440)"
  (is "?handler = ?parsed \<and> ?bounded")
proof
  show "?handler = ?parsed"
    by (simp add: handleTargetLatencySeries_def ParseLatencySeriesQuery_def series_limits Let_def split: option.split)
  have n: "1 \<le> nat (series_steps r st) \<and> nat (series_steps r st) \<le> 1440" for r st
    using series_steps_bounds[of r st] by (auto simp: le_nat_iff)
  have b: "case Inr (series_answer cfg now m t k r st w) of Inl e \<Rightarrow> ae_status e = 400 \<or> ae_status e = 404
      | Inr s \<Rightarrow> sr_range s \<le> 86400 \<and> 1 \<le> sr_step s \<and> sr_step s \<le> 3600 \<and> 1 \<le> sr_window s \<and> sr_window s \<le> 3600
          \<and> sr_returned s = int (length (sr_points s)) \<and> 1 \<le> length (sr_points s) \<and> length (sr_points s) \<le> 1440"
    if "r \<le> 86400" "1 \<le> st" "st \<le> 3600" "1 \<le> w" "w \<le> 3600" for t k r st w
  proof -
    have "sr_range (series_answer cfg now m t k r st w) \<le> 86400"
      using series_answer_points(3)[of cfg now m t k r st w] that(1) by linarith
    with that n show ?thesis by (simp add: series_answer_points(1,2,4,5) Let_def)
  qed
  show ?bounded
  proof (cases ?handler)
    case (Inl e)
    then show ?thesis
      by (auto simp: handleTargetLatencySeries_def api_fail_def Let_def split: if_splits option.splits)
  next
    case (Inr s)
    then obtain t k r st w where "s = series_answer cfg now m t k r st w" "r \<le> 86400" "1 \<le> st" "st \<le> 3600" "1 \<le> w" "w \<le> 3600"
      by (auto simp: handleTargetLatencySeries_def series_limits Let_def split: if_splits option.splits)
    then show ?thesis using b Inr by simp
  qed
qed

subsection \<open>The points partition time\<close>

lemma step_product: "0 \<le> (k :: int) \<Longrightarrow> k \<le> 1440 \<Longrightarrow> 0 \<le> st \<Longrightarrow> st \<le> 3600 \<Longrightarrow> k * st \<le> 5184000"
  using mult_mono[of k 1440 st 3600] by simp

lemma wrap_step:
  assumes "0 \<le> k" "k \<le> 1440" "0 \<le> st" "st \<le> 3600"
  shows "wrap64 (- (k * st) * ns_per_sec) = - (k * st * ns_per_sec)"
proof -
  have "0 \<le> k * st" "k * st \<le> 5184000" using assms step_product by auto
  then have "in_int64 (- (k * st) * ns_per_sec)" by (simp add: in_int64_def ns_per_sec_def)
  then show ?thesis by (simp add: wrap64_id)
qed

lemma window_partition:
  assumes "\<And>k. E (Suc k) \<le> (E k :: int)"
  shows "(\<Sum>k<n. length (filter (\<lambda>x. in_window (E (Suc k)) (E k) (f x) \<and> P x) xs))
    = length (filter (\<lambda>x. in_window (E n) (E 0) (f x) \<and> P x) xs)"
proof (induction n)
  case (Suc n)
  have mono: "E n \<le> E 0" by (induction n) (simp, use assms order_trans in blast)
  have "length (filter (\<lambda>x. in_window (E (Suc n)) (E 0) (f x) \<and> P x) xs)
     = length (filter (\<lambda>x. in_window (E n) (E 0) (f x) \<and> P x) xs)
     + length (filter (\<lambda>x. in_window (E (Suc n)) (E n) (f x) \<and> P x) xs)"
    using mono assms[of n] by (induction xs) (auto simp: in_window_def)
  then show ?case using Suc by simp
qed (simp add: in_window_def)

lemma sum_list_rev_upt: "(\<Sum>i\<leftarrow>[0..<n]. (f (n - 1 - i) :: int)) = (\<Sum>k<n. f k)"
proof -
  have "map (\<lambda>i. f (n - 1 - i)) [0..<n] = rev (map f [0..<n])"
    by (rule nth_equalityI) (simp_all add: rev_nth)
  then have "(\<Sum>i\<leftarrow>[0..<n]. f (n - 1 - i)) = sum_list (rev (map f [0..<n]))" by simp
  also have "\<dots> = sum_list (map f [0..<n])" by (rule sum_list_rev)
  also have "\<dots> = (\<Sum>k<n. f k)" by (simp add: interv_sum_list_conv_sum_set_nat atLeast0LessThan)
  finally show ?thesis .
qed

text \<open>
  With adjacent windows the series loses nothing and counts nothing twice. When the
  window equals the step, the points are one step apart and the last is at the present; the
  failures of all points are exactly the failed samples of the covered time, and the
  successes exactly its valid ones, as long as no more than 36000 samples are retained, the
  limit of a window.
\<close>

theorem series_partition:
  fixes cfg now m t k r st
  defines "s \<equiv> series_answer cfg now m t k r st st"
  defines "snap \<equiv> GetSeriesSnapshot (tg_id t) (if k = ''http'' then ProbeKindHTTP else ProbeKindICMP)
                   (if k = ''http'' then GetMaxSamples m else GetICMPMaxSamples m) m"
  defines "n \<equiv> length (sr_points s)"
  defines "covered \<equiv> in_window (now - int n * st * ns_per_sec) now"
  assumes st: "1 \<le> st" "st \<le> 3600" and retained: "length (Samples (se_window snap)) \<le> MaxSamplesPerWindow"
  shows "map pp_ts (sr_points s) = map (\<lambda>i. now - int (n - 1 - i) * st * ns_per_sec) [0..<n]
    \<and> sum_list (map pp_errors (sr_points s)) = int (length (filter (\<lambda>x. covered (sm_at x) \<and> \<not> sm_ok x) (se_samples snap)))
    \<and> sum_list (map (\<lambda>p. pp_samples p - pp_errors p) (sr_points s))
      = int (length (filter (\<lambda>x. covered (s_at x)) (Samples (se_window snap))))"
proof -
  define E where "E j = now - int j * st * ns_per_sec" for j :: nat
  have le: "E (Suc j) \<le> E j" for j using st by (simp add: E_def ns_per_sec_def algebra_simps)
  have n: "n \<le> 1440" using series_steps_bounds(2)[of "sr_range s" st] by (simp add: n_def s_def series_answer_points(1) Let_def)
  let ?p = "\<lambda>j. series_point now st st (Samples (se_window snap)) (se_samples snap) j"
  have points: "sr_points s = map (\<lambda>i. ?p (int (n - 1 - i))) [0..<n]"
  proof -
    have "int n = series_steps (sr_range s) st"
      using series_steps_bounds(1)[of "sr_range s" st] by (simp add: n_def s_def series_answer_points(1) Let_def)
    then have "sr_points s = map (\<lambda>i. ?p (int n - 1 - int i)) [0..<n]"
      by (simp add: s_def series_answer_points(1) Let_def snap_def del: map_eq_conv) (metis nat_int)
    also have "\<dots> = map (\<lambda>i. ?p (int (n - 1 - i))) [0..<n]" 
    proof (rule map_cong[OF refl])
      fix i assume "i \<in> set [0..<n]"
      then have "int n - 1 - int i = int (n - 1 - i)" by auto
      then show "?p (int n - 1 - int i) = ?p (int (n - 1 - i))" by (rule arg_cong)
    qed
    finally show ?thesis .
  qed
  have w: "now + wrap64 (- (int j * st) * ns_per_sec) = E j"
    "E j + wrap64 (- st * ns_per_sec) = E (Suc j)" if "j < n" for j
    using wrap_step[of "int j" st] wrap_step[of 1 st] that n st by (simp_all add: E_def algebra_simps)
  have few: "length (filter P (w_samples (se_window snap))) \<le> MaxSamplesPerWindow" for P
    using retained le_trans[OF length_filter_le] by (simp add: Samples_eq)
  have fields: "pp_ts (?p (int j)) = E j"
    "pp_errors (?p (int j)) = int (length (filter (\<lambda>x. in_window (E (Suc j)) (E j) (sm_at x) \<and> \<not> sm_ok x) (se_samples snap)))"
    "pp_samples (?p (int j)) - pp_errors (?p (int j)) = int (length (filter (\<lambda>x. in_window (E (Suc j)) (E j) (s_at x) \<and> True) (Samples (se_window snap))))"
    if "j < n" for j
    using w[OF that] few by (simp_all add: series_point_def Let_def)
  have total: "sum_list (map g (sr_points s)) = (\<Sum>j<n. g (?p (int j)))" for g :: "percentile_point \<Rightarrow> int"
    using sum_list_rev_upt[of "\<lambda>j. g (?p (int j))" n] by (simp add: points comp_def)
  have "map pp_ts (sr_points s) = map (\<lambda>i. E (n - 1 - i)) [0..<n]"
    unfolding points map_map comp_def by (rule map_cong[OF refl], rule fields(1)) auto
  then have "map pp_ts (sr_points s) = map (\<lambda>i. now - int (n - 1 - i) * st * ns_per_sec) [0..<n]"
    by (simp only: E_def)
  moreover have c: "covered = in_window (E n) (E 0)" by (simp add: covered_def E_def)
  have "sum_list (map pp_errors (sr_points s)) = int (length (filter (\<lambda>x. covered (sm_at x) \<and> \<not> sm_ok x) (se_samples snap)))"
  proof -
    have "sum_list (map pp_errors (sr_points s))
        = (\<Sum>j<n. int (length (filter (\<lambda>x. in_window (E (Suc j)) (E j) (sm_at x) \<and> \<not> sm_ok x) (se_samples snap))))"
      unfolding total by (rule sum.cong[OF refl], rule fields(2)) simp
    then show ?thesis
      unfolding c by (simp only: of_nat_sum[symmetric] window_partition[where E = E and f = sm_at, OF le])
  qed
  moreover have "sum_list (map (\<lambda>p. pp_samples p - pp_errors p) (sr_points s))
      = int (length (filter (\<lambda>x. covered (s_at x)) (Samples (se_window snap))))"
  proof -
    have "sum_list (map (\<lambda>p. pp_samples p - pp_errors p) (sr_points s))
        = (\<Sum>j<n. int (length (filter (\<lambda>x. in_window (E (Suc j)) (E j) (s_at x) \<and> True) (Samples (se_window snap)))))"
      unfolding total by (rule sum.cong[OF refl], rule fields(3)) simp
    then show ?thesis
      unfolding c by (simp only: of_nat_sum[symmetric] window_partition[where E = E and f = s_at and P = "\<lambda>x. True", OF le])
        (simp only: simp_thms)
  qed
  ultimately show ?thesis by (intro conjI)
qed

subsection \<open>Witnesses\<close>

definition series_target_example :: target_config where
  "series_target_example = \<lparr>tg_id = ''a'', tg_name = ''a'', tg_base_url = ''http://h'', tg_probe_url = [], tg_enabled = True\<rparr>"

lemma series_partition_witness:
  "sum_list (map pp_errors (sr_points (series_answer config_example 5 NewManager series_target_example ''http'' 60 1 1))) = 0"
proof -
  have e: "Samples (se_window (GetSeriesSnapshot (tg_id series_target_example) (if ''http'' = ''http'' then ProbeKindHTTP else ProbeKindICMP)
      (if ''http'' = ''http'' then GetMaxSamples NewManager else GetICMPMaxSamples NewManager) NewManager)) = []"
    "se_samples (GetSeriesSnapshot (tg_id series_target_example) (if ''http'' = ''http'' then ProbeKindHTTP else ProbeKindICMP)
      (if ''http'' = ''http'' then GetMaxSamples NewManager else GetICMPMaxSamples NewManager) NewManager) = []"
    by (simp_all add: GetSeriesSnapshot_def GetHTTPSeriesSnapshot_def NewManager_def empty_series_def empty_window_def Samples_eq)
  show ?thesis
    using series_partition[of 1 series_target_example "''http''" NewManager config_example 5 60] e by (simp add: MaxSamplesPerWindow_def)
qed

end
