(* ===== verification/Spike_Api.thy ===== *)
theory Spike_Api
  imports Latency_Api
begin

section \<open>The spike timeline and the capture lookup of the HTTP server\<close>

text \<open>
  Models the spike handler of \<open>uvb76/server/latency.go\<close> with \<open>spike_anchor_pinning.go\<close>, and
  \<open>capture_lookup.go\<close>.

  The helpers of the code take the reader of a timeline as a function; here it is
  \<open>spike_timeline m\<close>, what \<open>GetSpikes\<close> returns for the manager. The empty trackers that a read may
  create change no read (\<open>spike_timeline_stable\<close>), so all reads of a request are taken from the
  manager at its start; requests are atomic in the model.

  \<open>GetCaptures\<close> copies the slice of records but not the cooldown info, which they hold by
  pointer. The handler writes through that pointer, so a read request changes the store; the
  model returns the changed store, and the answer shows the captures as they are at the end,
  when the code encodes them.
\<close>

subsection \<open>Reading timelines\<close>

type_synonym spikes_getter = "string \<Rightarrow> string \<Rightarrow> int \<Rightarrow> spike_event list"

definition spike_timeline :: "manager \<Rightarrow> spikes_getter" where
  "spike_timeline m targetID kind limit =
     (case GetManagerSpikes targetID kind limit m of None \<Rightarrow> [] | Some (events, _) \<Rightarrow> events)"

definition AnchorVisibilityReasonPinned :: string where "AnchorVisibilityReasonPinned = ''pinned_anchor''"
definition AnchorVisibilityReasonEmbedded :: string where "AnchorVisibilityReasonEmbedded = ''embedded_summary''"
definition AnchorVisibilityReasonDegraded :: string where "AnchorVisibilityReasonDegraded = ''degraded''"
definition AnchorVisibilityReasonFilterWindow :: string where "AnchorVisibilityReasonFilterWindow = ''outside_filter_window''"

record spike_with_captures =
  sw_event :: spike_event
  sw_captures :: "diag_capture list"

definition findAnchorSpike :: "string \<Rightarrow> string \<Rightarrow> string \<Rightarrow> spikes_getter \<Rightarrow> capture_store \<Rightarrow> spike_with_captures option" where
  "findAnchorSpike anchorCaptureID anchorTargetID anchorProbeKind getter cs =
     map_option (\<lambda>spike. \<lparr>sw_event = spike, sw_captures = GetCaptures (ev_id spike) cs\<rparr>)
       (find (\<lambda>spike. ev_id spike = anchorCaptureID) (getter anchorTargetID anchorProbeKind 0))"

definition sortPinnedAnchorsByTimestamp :: "spike_with_captures list \<Rightarrow> spike_with_captures list" where
  "sortPinnedAnchorsByTimestamp anchors = sort_key (\<lambda>a. - ev_ts (sw_event a)) anchors"

definition buildAnchorEventSummary :: "spike_event \<Rightarrow> diag_capture option \<Rightarrow> anchor_event_summary" where
  "buildAnchorEventSummary spike capture =
     (let base = \<lparr>as_event_id = ev_id spike, as_capture_id = [], as_probe_kind = ev_kind spike, as_severity = ev_severity spike,
                  as_latency_ms = ev_latency spike, as_sample_ts = ev_ts spike, as_capture_status = [], as_source = [],
                  as_captured_at = 0\<rparr>
      in case capture of
           None \<Rightarrow> base
         | Some c \<Rightarrow> base\<lparr>as_capture_id := ev_id spike, as_capture_status := cp_capture_status c, as_source := cp_source c,
                          as_captured_at := cp_started_at c\<rparr>)"

definition is_captured :: "diag_capture \<Rightarrow> bool" where
  "is_captured c \<longleftrightarrow> cp_capture_status c = CaptureStatusCaptured"

definition anchorVisibleInVisibleSpikes :: "time \<Rightarrow> spike_event list \<Rightarrow> capture_store \<Rightarrow> bool" where
  "anchorVisibleInVisibleSpikes anchorTime visibleSpikes cs =
     list_ex (\<lambda>spike. list_ex (\<lambda>c. is_captured c \<and> cp_started_at c = anchorTime) (GetCaptures (ev_id spike) cs)) visibleSpikes"

definition anchorVisibleInProbeKind :: "manager \<Rightarrow> string \<Rightarrow> string \<Rightarrow> time \<Rightarrow> bool" where
  "anchorVisibleInProbeKind m targetID probeKind anchorTime =
     anchorVisibleInVisibleSpikes anchorTime (spike_timeline m targetID probeKind 0) (GetCaptureStore m)"

definition anchorVisibleInProbeKindStatic :: "string \<Rightarrow> string \<Rightarrow> time \<Rightarrow> spikes_getter \<Rightarrow> capture_store \<Rightarrow> bool" where
  "anchorVisibleInProbeKindStatic probeKind anchorTargetID anchorTime getter cs =
     anchorVisibleInVisibleSpikes anchorTime (getter anchorTargetID probeKind 0) cs"

subsection \<open>What one request knows of visibility\<close>

text \<open>The anchors on the page by time and by event, the anchors pinned to it, the page of the other probe kind.\<close>

record page_view =
  pv_times :: "time list"
  pv_ids :: "string list"
  pv_pins :: "(string \<times> spike_with_captures) list"
  pv_cross :: "spike_event list"

definition visible_anchors :: "capture_store \<Rightarrow> spike_event list \<Rightarrow> (string \<times> time) list" where
  "visible_anchors cs spikes =
     concat (map (\<lambda>spike. map (\<lambda>c. (ev_id spike, cp_started_at c))
       (filter (\<lambda>c. is_captured c \<and> cp_started_at c > 0) (GetCaptures (ev_id spike) cs))) spikes)"

record anchor_dependency =
  ad_suppressed :: string
  ad_capture :: string
  ad_event :: string
  ad_target :: string
  ad_kind :: string

definition suppressed_dependencies :: "capture_store \<Rightarrow> spike_event list \<Rightarrow> anchor_dependency list" where
  "suppressed_dependencies cs spikes =
     concat (map (\<lambda>spike. concat (map (\<lambda>c.
       (case cp_cooldown_info c of
          None \<Rightarrow> []
        | Some ci \<Rightarrow>
            if cp_suppressed c \<and> ci_last_success ci \<noteq> None
            then [\<lparr>ad_suppressed = ev_id spike, ad_capture = ci_anchor_capture_id ci, ad_event = ci_source_spike_id ci,
                   ad_target = ci_anchor_target_id ci, ad_kind = ci_anchor_probe_kind ci\<rparr>]
            else [])) (GetCaptures (ev_id spike) cs))) spikes)"

definition pin_step ::
  "string \<Rightarrow> string \<Rightarrow> (string \<times> time) list \<Rightarrow> spikes_getter \<Rightarrow> capture_store \<Rightarrow> anchor_dependency
    \<Rightarrow> (string \<times> spike_with_captures) list \<Rightarrow> (string \<times> spike_with_captures) list" where
  "pin_step kind targetID visible getter cs dep pins =
     (if ad_kind dep \<noteq> kind \<and> ad_kind dep \<noteq> [] then pins
      else if ad_target dep \<noteq> targetID then pins
      else let anchorTime = (if ad_capture dep = [] then 0
                 else case find (\<lambda>c. cp_started_at c > 0) (GetCaptures (ad_capture dep) cs) of None \<Rightarrow> 0 | Some c \<Rightarrow> cp_started_at c)
        in if anchorTime \<in> set (map snd visible) \<or> ad_capture dep \<in> set (map fst visible) then pins
           else if map_of pins (ad_capture dep) \<noteq> None then pins
           else case findAnchorSpike (ad_capture dep) (ad_target dep) (ad_kind dep) getter cs of
                  None \<Rightarrow> pins
                | Some spike \<Rightarrow> pins @ [(ad_capture dep, spike)])"

definition page_view_of :: "string \<Rightarrow> string \<Rightarrow> int \<Rightarrow> spikes_getter \<Rightarrow> capture_store \<Rightarrow> page_view" where
  "page_view_of targetID kind limit getter cs =
     (let display = getter targetID kind limit;
          visible = visible_anchors cs display
      in \<lparr>pv_times = map snd visible, pv_ids = map fst visible,
          pv_pins = fold (pin_step kind targetID visible getter cs) (suppressed_dependencies cs display) [],
          pv_cross = getter targetID (if kind = ''http'' then ''icmp'' else ''http'') limit\<rparr>)"

definition pinned :: "page_view \<Rightarrow> string \<Rightarrow> bool" where
  "pinned pv anchorID \<longleftrightarrow> map_of (pv_pins pv) anchorID \<noteq> None"

text \<open>Whether the anchor of a suppressed capture is visible on the page, and why.\<close>

definition anchor_visibility :: "page_view \<Rightarrow> capture_store \<Rightarrow> cooldown_info \<Rightarrow> time \<Rightarrow> bool \<times> string" where
  "anchor_visibility pv cs ci anchorTime =
     (let anchorID = ci_anchor_capture_id ci
      in if ci_cross_probe ci then
           (if ci_anchor_probe_kind ci = [] then (False, ''anchor_probe_kind_missing'')
            else if anchorVisibleInVisibleSpikes anchorTime (pv_cross pv) cs then (True, AnchorVisibilityReasonRetained)
            else if pinned pv anchorID then (True, AnchorVisibilityReasonPinned)
            else (False, AnchorVisibilityReasonFilterWindow))
         else if anchorTime \<in> set (pv_times pv) \<or> anchorID \<in> set (pv_ids pv) then (True, AnchorVisibilityReasonRetained)
         else if pinned pv anchorID then (True, AnchorVisibilityReasonPinned)
         else (False, AnchorVisibilityReasonFilterWindow))"

definition processSuppressedCaptureAnchorVisibility ::
  "string \<Rightarrow> string \<Rightarrow> page_view \<Rightarrow> spikes_getter \<Rightarrow> capture_store \<Rightarrow> cooldown_info \<Rightarrow> cooldown_info" where
  "processSuppressedCaptureAnchorVisibility queryProbeKind targetID pv getter cs ci =
     (case ci_last_success ci of
        None \<Rightarrow> ci
      | Some anchorTime \<Rightarrow>
          (let (visible, reason) = anchor_visibility pv cs ci anchorTime;
               ci1 = ci\<lparr>ci_timeline_visible := visible, ci_visibility_reason := reason, ci_artifact_visible := True,
                        ci_anchor_visible := visible\<rparr>
           in if visible then ci1
              else let anchorProbeKind = (if ci_anchor_probe_kind ci = [] then queryProbeKind else ci_anchor_probe_kind ci);
                       anchorTargetID = (if ci_anchor_target_id ci = [] then targetID else ci_anchor_target_id ci)
                in case findAnchorSpike (ci_anchor_capture_id ci) anchorTargetID anchorProbeKind getter cs of
                     Some anchorSpike \<Rightarrow>
                       ci1\<lparr>ci_summary := Some (buildAnchorEventSummary (sw_event anchorSpike) (find is_captured (sw_captures anchorSpike))),
                           ci_visibility_reason := AnchorVisibilityReasonEmbedded\<rparr>
                   | None \<Rightarrow>
                       ci1\<lparr>ci_degraded := True, ci_degraded_reason := ''anchor_not_visible_at_response_time'',
                           ci_visibility_reason := AnchorVisibilityReasonDegraded\<rparr>))"

text \<open>The loop over the captures of a displayed spike, which writes through the pointers of the records.\<close>

definition process_captures :: "(cooldown_info \<Rightarrow> cooldown_info) \<Rightarrow> diag_capture list \<Rightarrow> diag_capture list" where
  "process_captures f captures =
     map (\<lambda>c. case cp_cooldown_info c of
                 None \<Rightarrow> c
               | Some ci \<Rightarrow> if cp_suppressed c then c\<lparr>cp_cooldown_info := Some (f ci)\<rparr> else c) captures"

definition process_spike :: "(capture_store \<Rightarrow> cooldown_info \<Rightarrow> cooldown_info) \<Rightarrow> spike_event \<Rightarrow> capture_store \<Rightarrow> capture_store" where
  "process_spike f spike cs =
     (case cs_captures cs (ev_id spike) of
        None \<Rightarrow> cs
      | Some captures \<Rightarrow> cs\<lparr>cs_captures := (cs_captures cs)(ev_id spike \<mapsto> process_captures (f cs) captures)\<rparr>)"

subsection \<open>The handler\<close>

record retention_stats =
  rt_retained :: int
  rt_visible :: int
  rt_protected :: int
  rt_purgeable :: int
  rt_max :: int

definition retention_of :: "config \<Rightarrow> capture_store \<Rightarrow> spike_event list \<Rightarrow> spike_event list \<Rightarrow> retention_stats" where
  "retention_of cfg cs allRetained display =
     \<lparr>rt_retained = int (length allRetained), rt_visible = int (length display),
      rt_protected = int (length (filter (\<lambda>s. fst (GetProtectionInfo cs (ev_id s))) allRetained)),
      rt_purgeable = int (length (filter (\<lambda>s. \<not> fst (GetProtectionInfo cs (ev_id s))) allRetained)),
      rt_max = dg_max_uncaptured (cf_diagnostics cfg)\<rparr>"

record spikes_page =
  sp_spikes :: "spike_with_captures list"
  sp_count :: int
  sp_retention :: retention_stats
  sp_pinned :: "spike_with_captures list"

datatype spikes_answer = PlainSpikes "spike_event list" | SpikesPage spikes_page

definition with_current_captures :: "capture_store \<Rightarrow> spike_event \<Rightarrow> spike_with_captures" where
  "with_current_captures cs spike = \<lparr>sw_event = spike, sw_captures = GetCaptures (ev_id spike) cs\<rparr>"

definition spikes_page_of :: "config \<Rightarrow> string \<Rightarrow> string \<Rightarrow> int \<Rightarrow> spikes_getter \<Rightarrow> capture_store \<Rightarrow> spikes_page \<times> capture_store" where
  "spikes_page_of cfg targetID kind limit getter cs =
     (let display = getter targetID kind limit;
          pv = page_view_of targetID kind limit getter cs;
          cs' = fold (process_spike (processSuppressedCaptureAnchorVisibility kind targetID pv getter)) display cs
      in (\<lparr>sp_spikes = map (with_current_captures cs') display, sp_count = int (length display),
           sp_retention = retention_of cfg cs (getter targetID kind 0) display,
           sp_pinned = map (\<lambda>a. with_current_captures cs' (sw_event a)) (sortPinnedAnchorsByTimestamp (map snd (pv_pins pv)))\<rparr>,
          cs'))"

definition spikes_limit :: "url_values \<Rightarrow> int" where
  "spikes_limit values = (let limit = positive_param values ''limit'' 20 in if limit > 100 then 100 else limit)"

definition handleTargetLatencySpikes :: "config \<Rightarrow> url_values \<Rightarrow> manager \<Rightarrow> (api_error + spikes_answer) \<times> manager" where
  "handleTargetLatencySpikes cfg values m =
     (let targetID = values_get values ''target_id''
      in if targetID = [] then (Inl (api_fail 400 ''target_id is required''), m)
         else case find_target (cf_targets cfg) targetID of
           None \<Rightarrow> (Inl (api_fail 404 ''target_not_found''), m)
         | Some _ \<Rightarrow>
             (let kind = (if values_get values ''kind'' = [] then ''http'' else values_get values ''kind'');
                  limit = spikes_limit values
              in if kind \<noteq> ''http'' \<and> kind \<noteq> ''icmp''
                 then (Inl (api_fail 400 (''kind must be '' @ [CHR 0x27] @ ''http'' @ [CHR 0x27] @ '' or '' @ [CHR 0x27] @ ''icmp'' @ [CHR 0x27])), m)
                 else if values_get values ''include_captures'' = ''true''
                 then (let (page, cs') = spikes_page_of cfg targetID kind limit (spike_timeline m) (GetCaptureStore m)
                       in (Inr (SpikesPage page), m\<lparr>mg_captures := cs'\<rparr>))
                 else (Inr (PlainSpikes (spike_timeline m targetID kind limit)), m)))"

subsection \<open>Looking up an anchor\<close>

datatype anchor_status = AnchorStatusAvailable | AnchorStatusArtifactMissing

record anchor_response =
  ar_capture :: "diag_capture option"
  ar_spike :: "spike_event option"
  ar_anchor :: "cooldown_anchor option"
  ar_status :: anchor_status
  ar_message :: string
  ar_degraded :: bool
  ar_reason :: string

definition isCooldownAnchorCapture :: "diag_capture \<Rightarrow> bool" where
  "isCooldownAnchorCapture c =
     (if cp_status c \<noteq> DiagCaptureStatusOK then False
      else if cp_capture_status c \<noteq> CaptureStatusCaptured then False
      else if cp_suppressed c then False else True)"

text \<open>The anchors are a map, which the code ranges over in an unspecified order: the list of its keys is an argument.\<close>

definition handleGetAnchorCapture :: "string list \<Rightarrow> string \<Rightarrow> manager \<Rightarrow> api_error + anchor_response" where
  "handleGetAnchorCapture order captureID m =
     (if captureID = [] then Inl (api_fail 400 ''capture_id is required'')
      else let cs = GetCaptureStore m; captures = GetCaptures captureID cs
        in if captures = [] then
             (case find (\<lambda>a. ca_capture_id a = captureID) (List.map_filter (GetAllLastCaptureAnchors cs) order) of
                Some anchor \<Rightarrow>
                  (case GetCaptures (ca_capture_id anchor) cs of
                     c # _ \<Rightarrow> Inr \<lparr>ar_capture = Some c, ar_spike = None, ar_anchor = Some anchor, ar_status = AnchorStatusAvailable,
                        ar_message = ''Anchor capture artifact is available'', ar_degraded = False, ar_reason = []\<rparr>
                   | [] \<Rightarrow> Inr \<lparr>ar_capture = None, ar_spike = None, ar_anchor = Some anchor, ar_status = AnchorStatusArtifactMissing,
                        ar_message = ''Anchor metadata retained but capture artifact has been purged'', ar_degraded = True,
                        ar_reason = ''artifact_purged''\<rparr>)
              | None \<Rightarrow> Inl (api_fail 404 ''capture not found''))
           else let capture = hd captures
             in if \<not> isCooldownAnchorCapture capture
                then Inl \<lparr>ae_status = 400, ae_error = ''not_an_anchor_capture'',
                       ae_extra = [(''message'', ''This capture is not a cooldown anchor capture'')]\<rparr>
                else let storedAnchor = GetLastCaptureAnchor (cp_source capture) cs;
                         probeKind = (if ca_probe_kind storedAnchor \<noteq> [] then ca_probe_kind storedAnchor else ''http'');
                         spikeEvent = find (\<lambda>spike. ev_id spike = captureID) (spike_timeline m (cp_source capture) probeKind 0);
                         anchor = (if ca_capture_id storedAnchor = captureID then Some storedAnchor else None);
                         degraded = (spikeEvent = None \<or> anchor = None)
                  in Inr \<lparr>ar_capture = Some capture, ar_spike = spikeEvent, ar_anchor = anchor, ar_status = AnchorStatusAvailable,
                       ar_message = (if anchor \<noteq> None \<and> spikeEvent = None
                           then ''Anchor capture artifact is available but spike event is outside retention window''
                         else if anchor = None then ''Anchor capture is available but provenance metadata is incomplete'' else []),
                       ar_degraded = degraded,
                       ar_reason = (if anchor \<noteq> None \<and> spikeEvent = None then ''spike_event_evicted''
                         else if anchor = None then ''missing_provenance'' else [])\<rparr>)"

record peer_anchor =
  pa_anchor :: cooldown_anchor
  pa_exists :: bool
  pa_degraded :: bool
  pa_checked_at :: time

definition handleGetCooldownAnchorForPeer :: "string \<Rightarrow> time \<Rightarrow> manager \<Rightarrow> api_error + peer_anchor" where
  "handleGetCooldownAnchorForPeer peerName now m =
     (if peerName = [] then Inl (api_fail 400 ''peer_name is required'')
      else let cs = GetCaptureStore m; anchor = GetLastCaptureAnchor peerName cs
        in if ca_capture_id anchor = []
           then Inl \<lparr>ae_status = 404, ae_error = ''no_anchor'', ae_extra = [(''message'', ''No cooldown anchor exists for this peer'')]\<rparr>
           else let captureExists = length (GetCaptures (ca_capture_id anchor) cs) > 0
             in Inr \<lparr>pa_anchor = anchor, pa_exists = captureExists, pa_degraded = (\<not> captureExists), pa_checked_at = now\<rparr>)"

record cooldown_diagnostics =
  cd_started_at :: time
  cd_now :: time
  cd_anchors :: "string \<rightharpoonup> cooldown_anchor"
  cd_active_keys :: "string list"
  cd_total :: nat

definition handleCaptureCooldownDiagnostics :: "string list \<Rightarrow> time \<Rightarrow> time \<Rightarrow> manager \<Rightarrow> cooldown_diagnostics" where
  "handleCaptureCooldownDiagnostics order startedAt now m =
     (let cs = GetCaptureStore m; anchors = GetAllLastCaptureAnchors cs
      in \<lparr>cd_started_at = startedAt, cd_now = now, cd_anchors = anchors, cd_active_keys = filter (\<lambda>k. anchors k \<noteq> None) order,
          cd_total = card (dom (cs_captures cs))\<rparr>)"

subsection \<open>Reads of a timeline change no timeline\<close>

lemma getEvents_cong: "st_events st = st_events st' \<Longrightarrow> getEvents l st = getEvents l st'"
  by (simp add: getEvents_def)

lemma GetSpikes_stable:
  assumes "GetSpikes t k l sd = Some (evs, sd')"
  shows "map_option fst (GetSpikes t' k' l' sd') = map_option fst (GetSpikes t' k' l' sd)"
proof (cases "det_trackers sd (tracker_key t k)")
  case (Some st)
  then have "sd' = sd" using assms by (simp add: GetSpikes_def getTracker_def)
  then show ?thesis by simp
next
  case None
  then have cfg: "0 \<le> sc_max_events (det_config sd)"
    using assms by (simp add: GetSpikes_def getTracker_def newSpikeTracker_def split: if_splits)
  let ?st = "\<lambda>k. \<lparr>st_events = [], st_max = sc_max_events (det_config sd), st_config = det_config sd, st_kind = k\<rparr>"
  have new: "newSpikeTracker k (det_config sd) = Some (?st k)" for k using cfg by (simp add: newSpikeTracker_def)
  have sd': "sd' = sd\<lparr>det_trackers := (det_trackers sd)(tracker_key t k \<mapsto> ?st k)\<rparr>"
    using assms None by (simp add: GetSpikes_def getTracker_def new)
  show ?thesis
  proof (cases "tracker_key t' k' = tracker_key t k")
    case True
    with None show ?thesis by (simp add: GetSpikes_def getTracker_def new sd' getEvents_cong[of "?st k" "?st k'"])
  next
    case False
    then show ?thesis
      by (cases "det_trackers sd (tracker_key t' k')") (simp_all add: GetSpikes_def getTracker_def new sd')
  qed
qed

lemma spike_timeline_stable:
  assumes "GetManagerSpikes t k l m = Some (evs, m')"
  shows "spike_timeline m' = spike_timeline m"
proof -
  from assms obtain sd' where g: "GetSpikes t k l (current_detector m) = Some (evs, sd')" and m': "m' = m\<lparr>mg_detector := sd'\<rparr>"
    by (auto simp: GetManagerSpikes_def with_detector_def)
  have p: "det_protect sd' = det_protect (current_detector m)"
    using g by (auto simp: GetSpikes_def getTracker_def Let_def split: option.splits)
  have c: "current_detector m' = sd'"
    using p by (cases "det_protect (mg_detector m)") (auto simp: current_detector_def m' SetCaptureInfoFunc_def)
  have "spike_timeline m' t' k' l' = spike_timeline m t' k' l'" for t' k' l'
    using GetSpikes_stable[OF g, of t' k' l'] unfolding spike_timeline_def GetManagerSpikes_def with_detector_def c
    by (auto split: option.splits)
  then show ?thesis by (intro ext)
qed

subsection \<open>Writing through the pointers changes only the cooldown infos\<close>

definition without_info :: "diag_capture \<Rightarrow> diag_capture" where
  "without_info c = c\<lparr>cp_cooldown_info := None\<rparr>"

definition same_evidence :: "capture_store \<Rightarrow> capture_store \<Rightarrow> bool" where
  "same_evidence cs cs' \<longleftrightarrow> (\<forall>k. map without_info (GetCaptures k cs') = map without_info (GetCaptures k cs))"

lemma without_info_simps [simp]:
  "is_captured (without_info c) = is_captured c" "cp_started_at (without_info c) = cp_started_at c"
  "cp_capture_status (without_info c) = cp_capture_status c" "cp_source (without_info c) = cp_source c"
  "cp_suppressed (without_info c) = cp_suppressed c"
  by (simp_all add: without_info_def is_captured_def)

lemma list_ex_without_info:
  "(\<And>c. P (without_info c) = P c) \<Longrightarrow> list_ex P xs = list_ex P (map without_info xs)"
  by (induction xs) simp_all

lemma find_without_info:
  "(\<And>c. P (without_info c) = P c) \<Longrightarrow> find P (map without_info xs) = map_option without_info (find P xs)"
  by (induction xs) simp_all

lemma visible_same:
  assumes "same_evidence cs cs'"
  shows "anchorVisibleInVisibleSpikes t spikes cs' = anchorVisibleInVisibleSpikes t spikes cs"
proof -
  let ?P = "\<lambda>c. is_captured c \<and> cp_started_at c = t"
  have "list_ex ?P (GetCaptures k cs') = list_ex ?P (GetCaptures k cs)" for k
    using assms list_ex_without_info[of ?P "GetCaptures k cs'"] list_ex_without_info[of ?P "GetCaptures k cs"]
    by (simp add: same_evidence_def)
  then show ?thesis by (simp add: anchorVisibleInVisibleSpikes_def)
qed

lemma summary_same:
  assumes "same_evidence cs cs'"
  shows "buildAnchorEventSummary spike (find is_captured (GetCaptures k cs'))
    = buildAnchorEventSummary spike (find is_captured (GetCaptures k cs))"
proof -
  have key: "buildAnchorEventSummary spike (map_option without_info c) = buildAnchorEventSummary spike c" for c
    by (cases c) (simp_all add: buildAnchorEventSummary_def)
  have "map_option without_info (find is_captured (GetCaptures k cs')) = map_option without_info (find is_captured (GetCaptures k cs))"
    using assms find_without_info[of is_captured] unfolding same_evidence_def by (metis without_info_simps(1))
  then show ?thesis by (metis key)
qed

lemma embed_same:
  assumes "same_evidence cs cs'"
  shows "(case findAnchorSpike i t k getter cs' of
       Some sp \<Rightarrow> f (buildAnchorEventSummary (sw_event sp) (find is_captured (sw_captures sp))) | None \<Rightarrow> g)
    = (case findAnchorSpike i t k getter cs of
       Some sp \<Rightarrow> f (buildAnchorEventSummary (sw_event sp) (find is_captured (sw_captures sp))) | None \<Rightarrow> g)"
  by (cases "find (\<lambda>spike. ev_id spike = i) (getter t k 0)") (simp_all add: findAnchorSpike_def summary_same[OF assms])

lemma process_same:
  assumes "same_evidence cs cs'"
  shows "processSuppressedCaptureAnchorVisibility kind targetID pv getter cs' ci
    = processSuppressedCaptureAnchorVisibility kind targetID pv getter cs ci"
  unfolding processSuppressedCaptureAnchorVisibility_def anchor_visibility_def visible_same[OF assms] Let_def
  by (simp only: embed_same[OF assms, where f = "\<lambda>s. _\<lparr>ci_summary := Some s, ci_visibility_reason := _\<rparr>"])

lemma process_captures_without: "map without_info (process_captures f xs) = map without_info xs"
  by (induction xs) (simp_all add: process_captures_def without_info_def split: option.split)

lemma GetCaptures_process_spike:
  "GetCaptures k (process_spike f spike cs) =
     (if k = ev_id spike then process_captures (f cs) (GetCaptures k cs) else GetCaptures k cs)"
  by (auto simp: process_spike_def GetCaptures_def map_get_def process_captures_def split: option.split)

lemma same_evidence_refl [simp]: "same_evidence cs cs"
  by (simp add: same_evidence_def)

lemma process_spike_same: "same_evidence cs cs0 \<Longrightarrow> same_evidence cs (process_spike f spike cs0)"
  by (simp add: same_evidence_def GetCaptures_process_spike process_captures_without)

lemma fold_process:
  assumes f: "\<And>cs'. same_evidence cs cs' \<Longrightarrow> f cs' = f cs"
  shows "same_evidence cs (fold (process_spike f) display cs)
    \<and> (spike \<in> set display \<longrightarrow> (\<exists>xs. GetCaptures (ev_id spike) (fold (process_spike f) display cs) = process_captures (f cs) xs))"
proof (induction display rule: rev_induct)
  case (snoc x xs)
  let ?cs = "fold (process_spike f) xs cs"
  have s: "same_evidence cs ?cs" using snoc.IH by blast
  then have "f ?cs = f cs" by (rule f)
  with snoc.IH s show ?case
    by (auto simp: process_spike_same GetCaptures_process_spike)
qed simp

subsection \<open>What the page shows\<close>

definition on_page :: "spikes_page \<Rightarrow> string \<Rightarrow> time \<Rightarrow> bool" where
  "on_page page anchorID anchorTime \<longleftrightarrow>
     (\<exists>sp \<in> set (sp_spikes page). \<exists>c \<in> set (sw_captures sp). is_captured c \<and> (cp_started_at c = anchorTime \<or> ev_id (sw_event sp) = anchorID))
     \<or> (\<exists>sp \<in> set (sp_pinned page). ev_id (sw_event sp) = anchorID)"

lemma visible_anchors_iff:
  "(k, t) \<in> set (visible_anchors cs spikes) \<longleftrightarrow>
     (\<exists>spike \<in> set spikes. ev_id spike = k \<and> (\<exists>c \<in> set (GetCaptures k cs). is_captured c \<and> cp_started_at c = t \<and> t > 0))"
  by (auto simp: visible_anchors_def)

lemma findAnchorSpike_id: "findAnchorSpike i t k getter cs = Some sp \<Longrightarrow> ev_id (sw_event sp) = i"
  by (auto simp: findAnchorSpike_def find_Some_iff)

lemma pin_step_cases:
  "pin_step kind targetID visible getter cs dep pins = pins \<or>
   (\<exists>sp. findAnchorSpike (ad_capture dep) (ad_target dep) (ad_kind dep) getter cs = Some sp
      \<and> pin_step kind targetID visible getter cs dep pins = pins @ [(ad_capture dep, sp)])"
  by (simp add: pin_step_def Let_def split: option.split)

lemma pins_named:
  assumes "\<forall>(k, a) \<in> set pins. ev_id (sw_event a) = k"
  shows "\<forall>(k, a) \<in> set (pin_step kind targetID visible getter cs dep pins). ev_id (sw_event a) = k"
proof (cases "pin_step kind targetID visible getter cs dep pins = pins")
  case True
  show ?thesis unfolding True by (rule assms)
next
  case False
  then obtain sp where "findAnchorSpike (ad_capture dep) (ad_target dep) (ad_kind dep) getter cs = Some sp"
    "pin_step kind targetID visible getter cs dep pins = pins @ [(ad_capture dep, sp)]"
    using pin_step_cases by blast
  then show ?thesis using assms findAnchorSpike_id by auto
qed

lemma all_pins_named:
  assumes "\<forall>(k, a) \<in> set pins. ev_id (sw_event a) = k"
  shows "\<forall>(k, a) \<in> set (fold (pin_step kind targetID visible getter cs) deps pins). ev_id (sw_event a) = k"
  using assms
proof (induction deps arbitrary: pins)
  case (Cons d ds)
  show ?case unfolding fold_simps by (rule Cons.IH[OF pins_named[OF Cons.prems]])
qed (simp only: fold_simps)

lemma captured_same:
  assumes "same_evidence cs cs'" "c \<in> set (GetCaptures k cs)"
  shows "\<exists>c' \<in> set (GetCaptures k cs'). is_captured c' = is_captured c \<and> cp_started_at c' = cp_started_at c"
proof -
  have "without_info c \<in> set (map without_info (GetCaptures k cs'))"
    using assms by (metis image_eqI list.set_map same_evidence_def)
  then obtain c' where "c' \<in> set (GetCaptures k cs')" "without_info c = without_info c'" by auto
  then show ?thesis by (metis without_info_simps(1,2))
qed

lemma spikes_page_parts:
  fixes targetID kind limit getter cs
  defines "pv \<equiv> page_view_of targetID kind limit getter cs"
  assumes "spikes_page_of cfg targetID kind limit getter cs = (page, cs')"
  shows "same_evidence cs cs'"
    and "sp_spikes page = map (with_current_captures cs') (getter targetID kind limit)"
    and "spike \<in> set (getter targetID kind limit) \<Longrightarrow>
       \<exists>xs. GetCaptures (ev_id spike) cs' = process_captures (processSuppressedCaptureAnchorVisibility kind targetID pv getter cs) xs"
    and "pinned pv k \<Longrightarrow> \<exists>sp \<in> set (sp_pinned page). ev_id (sw_event sp) = k"
    and "t \<in> set (pv_times pv) \<or> k \<in> set (pv_ids pv) \<Longrightarrow> on_page page k t"
proof -
  let ?f = "processSuppressedCaptureAnchorVisibility kind targetID pv getter"
  have cs': "cs' = fold (process_spike ?f) (getter targetID kind limit) cs"
    and page: "sp_spikes page = map (with_current_captures cs') (getter targetID kind limit)"
      "sp_pinned page = map (\<lambda>a. with_current_captures cs' (sw_event a)) (sortPinnedAnchorsByTimestamp (map snd (pv_pins pv)))"
    using assms by (auto simp: spikes_page_of_def Let_def)
  note fold = fold_process[of cs ?f, OF ext, OF process_same]
  show same: "same_evidence cs cs'" using fold unfolding cs' by blast
  show "sp_spikes page = map (with_current_captures cs') (getter targetID kind limit)" by (rule page)
  show "\<exists>xs. GetCaptures (ev_id spike) cs' = process_captures (?f cs) xs" if "spike \<in> set (getter targetID kind limit)"
    using fold that unfolding cs' by blast
  show "\<exists>sp \<in> set (sp_pinned page). ev_id (sw_event sp) = k" if "pinned pv k"
  proof -
    obtain a where a: "(k, a) \<in> set (pv_pins pv)" using \<open>pinned pv k\<close> by (auto simp: pinned_def dest: map_of_SomeD)
    have "\<forall>(k, a) \<in> set (pv_pins pv). ev_id (sw_event a) = k"
      unfolding pv_def page_view_of_def Let_def page_view.simps by (rule all_pins_named) simp
    with a have "ev_id (sw_event a) = k" by blast
    with a show ?thesis by (force simp: page sortPinnedAnchorsByTimestamp_def with_current_captures_def)
  qed
  show "on_page page k t" if v: "t \<in> set (pv_times pv) \<or> k \<in> set (pv_ids pv)"
  proof -
    obtain k' t' where kt: "(k', t') \<in> set (visible_anchors cs (getter targetID kind limit))" "t' = t \<or> k' = k"
      using v by (auto simp: pv_def page_view_of_def Let_def)
    then obtain spike c where sc: "spike \<in> set (getter targetID kind limit)" "ev_id spike = k'"
      "c \<in> set (GetCaptures k' cs)" "is_captured c" "cp_started_at c = t'"
      unfolding visible_anchors_iff by blast
    obtain c' where "c' \<in> set (GetCaptures k' cs')" "is_captured c'" "cp_started_at c' = t'"
      using captured_same[OF same sc(3)] sc(4,5) by blast
    then show ?thesis using sc(1,2) kt(2) by (force simp: on_page_def page with_current_captures_def)
  qed
qed

lemma process_last_success:
  "ci_last_success (processSuppressedCaptureAnchorVisibility kind targetID pv getter cs ci) = ci_last_success ci"
  "ci_anchor_capture_id (processSuppressedCaptureAnchorVisibility kind targetID pv getter cs ci) = ci_anchor_capture_id ci"
  "ci_cross_probe (processSuppressedCaptureAnchorVisibility kind targetID pv getter cs ci) = ci_cross_probe ci"
  by (simp_all add: processSuppressedCaptureAnchorVisibility_def Let_def split: option.split prod.split)

lemma process_explains:
  assumes "ci_last_success x = Some t" "ci = processSuppressedCaptureAnchorVisibility kind targetID pv getter cs x"
  shows "ci_timeline_visible ci = ci_anchor_visible ci \<and> ci_anchor_visible ci = fst (anchor_visibility pv cs x t)
    \<and> (ci_anchor_visible ci
      \<or> (ci_visibility_reason ci = AnchorVisibilityReasonEmbedded \<and> (\<exists>s. ci_summary ci = Some s \<and> as_event_id s = ci_anchor_capture_id ci))
      \<or> (ci_visibility_reason ci = AnchorVisibilityReasonDegraded \<and> ci_degraded ci))"
proof -
  obtain visible reason where v: "anchor_visibility pv cs x t = (visible, reason)" by (cases "anchor_visibility pv cs x t")
  let ?find = "findAnchorSpike (ci_anchor_capture_id x) (if ci_anchor_target_id x = [] then targetID else ci_anchor_target_id x)
     (if ci_anchor_probe_kind x = [] then kind else ci_anchor_probe_kind x) getter cs"
  have s: "as_event_id (buildAnchorEventSummary e c) = ev_id e" for e c
    by (simp add: buildAnchorEventSummary_def Let_def split: option.split)
  consider visible | "\<not> visible" "?find = None" | sp where "\<not> visible" "?find = Some sp" by (cases ?find) auto
  then show ?thesis
  proof cases
    case 3
    then show ?thesis using findAnchorSpike_id[OF 3(2)]
      by (simp add: assms processSuppressedCaptureAnchorVisibility_def v Let_def s)
  qed (simp_all add: assms processSuppressedCaptureAnchorVisibility_def v Let_def)
qed

text \<open>
  C11. Every suppressed row of the page is explained by what the page shows. For a capture
  that the cooldown suppressed after a success at time t: the two visibility flags agree; if
  they say that the anchor is visible, then it is in the answer, as a displayed spike with
  the captured record or as a pinned anchor, or, for suppression by the other probe kind, on
  the page of that kind with the same limit; and if they say that it is not, the row carries
  a summary of exactly the anchor's event, or is marked degraded.
\<close>

theorem suppressed_rows_explained:
  fixes query m
  defines "targetID \<equiv> values_get query ''target_id''"
  defines "other \<equiv> (if values_get query ''kind'' = ''icmp'' then ''http'' else ''icmp'')"
  assumes "handleTargetLatencySpikes cfg query m = (Inr (SpikesPage page), m')"
    and "sp \<in> set (sp_spikes page)" "c \<in> set (sw_captures sp)" "cp_suppressed c"
    and "cp_cooldown_info c = Some ci" "ci_last_success ci = Some t"
  shows "ci_timeline_visible ci = ci_anchor_visible ci
    \<and> (if ci_anchor_visible ci
       then on_page page (ci_anchor_capture_id ci) t
         \<or> (ci_cross_probe ci \<and> anchorVisibleInVisibleSpikes t (spike_timeline m targetID other (spikes_limit query)) (mg_captures m'))
       else (ci_visibility_reason ci = AnchorVisibilityReasonEmbedded \<and> (\<exists>s. ci_summary ci = Some s \<and> as_event_id s = ci_anchor_capture_id ci))
         \<or> (ci_visibility_reason ci = AnchorVisibilityReasonDegraded \<and> ci_degraded ci))"
proof -
  define kind where "kind = (if values_get query ''kind'' = [] then ''http'' else values_get query ''kind'')"
  let ?getter = "spike_timeline m" and ?limit = "spikes_limit query"
  obtain cs' where page: "spikes_page_of cfg targetID kind ?limit ?getter (GetCaptureStore m) = (page, cs')"
    and m': "mg_captures m' = cs'" and k: "kind = ''http'' \<or> kind = ''icmp''"
    using assms(3) by (auto simp: handleTargetLatencySpikes_def targetID_def kind_def Let_def split: if_splits option.splits prod.splits)
  have other: "(if kind = ''http'' then ''icmp'' else ''http'') = other" using k by (auto simp: kind_def other_def)
  let ?cs = "GetCaptureStore m"
  let ?pv = "page_view_of targetID kind ?limit ?getter ?cs"
  note parts = spikes_page_parts[OF page]
  obtain spike where spike: "spike \<in> set (?getter targetID kind ?limit)" "sp = with_current_captures cs' spike"
    using assms(4) unfolding parts(2) by auto
  obtain xs where xs: "GetCaptures (ev_id spike) cs' = process_captures (processSuppressedCaptureAnchorVisibility kind targetID ?pv ?getter ?cs) xs"
    using parts(3)[OF spike(1)] by blast
  obtain x where x: "ci = processSuppressedCaptureAnchorVisibility kind targetID ?pv ?getter ?cs x"
    using assms(5-7) unfolding spike(2) with_current_captures_def
    by (auto simp: xs process_captures_def split: option.splits if_splits)
  have t: "ci_last_success x = Some t" using assms(8) by (simp add: x process_last_success)
  note ex = process_explains[OF t x]
  have "on_page page (ci_anchor_capture_id ci) t \<or> (ci_cross_probe ci \<and> anchorVisibleInVisibleSpikes t (pv_cross ?pv) cs')"
    if "ci_anchor_visible ci"
  proof -
    have v: "fst (anchor_visibility ?pv ?cs x t)" using ex that by simp
    have pin: "on_page page (ci_anchor_capture_id ci) t" if "pinned ?pv (ci_anchor_capture_id ci)"
      using parts(4)[OF that] by (auto simp: on_page_def)
    from v pin parts(5)[of t "ci_anchor_capture_id ci"] show ?thesis
      by (auto simp: anchor_visibility_def Let_def x process_last_success visible_same[OF parts(1)] split: if_splits)
  qed
  then have "on_page page (ci_anchor_capture_id ci) t
      \<or> (ci_cross_probe ci \<and> anchorVisibleInVisibleSpikes t (?getter targetID other ?limit) (mg_captures m'))"
    if "ci_anchor_visible ci" using that other by (simp add: m' page_view_of_def Let_def)
  with ex show ?thesis by auto
qed

text \<open>A page of one suppressed spike whose anchor is older and gets pinned.\<close>

definition suppressed_info_example :: cooldown_info where
  "suppressed_info_example = \<lparr>ci_scope = [], ci_last_success = Some 1000000000, ci_next_eligible = None, ci_source_spike_id = ''e2'',
     ci_source_retained = True, ci_source_target_id = ''a'', ci_cooldown_seconds = 60, ci_remaining_ms = None,
     ci_skipped_updates = False, ci_capture_key = ''peer'', ci_decision_now = None, ci_anchor_visible = False,
     ci_artifact_visible = False, ci_timeline_visible = False, ci_visibility_reason = [], ci_anchor_capture_id = ''e2'',
     ci_anchor_target_id = ''a'', ci_anchor_probe_kind = ''http'', ci_anchor_source = [], ci_suppressed_kind = ''http'',
     ci_cross_probe = False, ci_anchor_created_at = None, ci_updated_by = [], ci_created_from = [], ci_is_warmup = False,
     ci_summary = None, ci_degraded = False, ci_degraded_reason = []\<rparr>"

definition suppressed_example :: diag_capture where
  "suppressed_example = capture_example\<lparr>cp_suppressed := True, cp_capture_status := CaptureStatusSkippedCooldown,
     cp_cooldown_info := Some suppressed_info_example\<rparr>"

definition spikes_example :: manager where
  "spikes_example = NewManager\<lparr>
     mg_detector := NewSpikeDetector\<lparr>det_trackers := [tracker_key ''a'' ''http'' \<mapsto>
         \<lparr>st_events = [spike_example ''e2'', spike_example ''e1''], st_max = 20, st_config = DefaultSpikeConfig, st_kind = ''http''\<rparr>]\<rparr>,
     mg_captures := NewCaptureStore\<lparr>cs_captures := [''e2'' \<mapsto> [capture_example], ''e1'' \<mapsto> [suppressed_example]]\<rparr>\<rparr>"

lemma spike_example_id: "ev_id (spike_example i) = i"
  by (simp_all add: spike_example_def build_event_def)

lemma timeline_example:
  "spike_timeline spikes_example ''a'' ''http'' 1 = [spike_example ''e1'']"
  "spike_timeline spikes_example ''a'' ''http'' 0 = [spike_example ''e1'', spike_example ''e2'']"
  "spike_timeline spikes_example ''a'' ''icmp'' 1 = []"
  by (simp_all add: spike_timeline_def GetManagerSpikes_def with_detector_def current_detector_def spikes_example_def
      NewManager_def NewSpikeDetector_def GetSpikes_def getTracker_def getEvents_def tracker_key_def newSpikeTracker_def
      DefaultSpikeConfig_def upt_rec)

subsection \<open>What stays behind, and what cannot happen\<close>

text \<open>A record once marked as degraded stays marked when its anchor comes back into view.\<close>

lemma degraded_sticks:
  "ci_degraded ci \<Longrightarrow> ci_degraded (processSuppressedCaptureAnchorVisibility kind targetID pv getter cs ci)"
  by (simp add: processSuppressedCaptureAnchorVisibility_def Let_def split: option.split prod.split)

text \<open>A capture without records is never reported as available: its anchor has been purged.\<close>

lemma purged_anchor_status:
  assumes "captureID \<noteq> []" "GetCaptures captureID (GetCaptureStore m) = []"
  shows "handleGetAnchorCapture order captureID m = Inl (api_fail 404 ''capture not found'')
    \<or> (\<exists>anchor. handleGetAnchorCapture order captureID m =
         Inr \<lparr>ar_capture = None, ar_spike = None, ar_anchor = Some anchor, ar_status = AnchorStatusArtifactMissing,
           ar_message = ''Anchor metadata retained but capture artifact has been purged'', ar_degraded = True,
           ar_reason = ''artifact_purged''\<rparr> \<and> ca_capture_id anchor = captureID)"
proof (cases "find (\<lambda>a. ca_capture_id a = captureID) (List.map_filter (GetAllLastCaptureAnchors (GetCaptureStore m)) order)")
  case None
  then show ?thesis using assms by (simp add: handleGetAnchorCapture_def Let_def)
next
  case (Some a)
  then have "ca_capture_id a = captureID" by (auto simp: find_Some_iff)
  with Some show ?thesis using assms by (simp add: handleGetAnchorCapture_def Let_def)
qed

definition spikes_query_example :: url_values where
  "spikes_query_example = [''target_id'' \<mapsto> ''a'', ''limit'' \<mapsto> ''1'', ''include_captures'' \<mapsto> ''true'']"

definition spikes_store_example :: capture_store where
  "spikes_store_example = NewCaptureStore\<lparr>cs_captures := [''e2'' \<mapsto> [capture_example], ''e1'' \<mapsto> [suppressed_example]]\<rparr>"

lemma captures_example:
  "GetCaptures ''e1'' spikes_store_example = [suppressed_example]" "GetCaptures ''e2'' spikes_store_example = [capture_example]"
  "cs_captures spikes_store_example ''e1'' = Some [suppressed_example]"
  by (simp_all add: spikes_store_example_def GetCaptures_def map_get_def)

lemma pins_example:
  "page_view_of ''a'' ''http'' 1 (spike_timeline spikes_example) spikes_store_example =
     \<lparr>pv_times = [], pv_ids = [], pv_pins = [(''e2'', \<lparr>sw_event = spike_example ''e2'', sw_captures = [capture_example]\<rparr>)], pv_cross = []\<rparr>"
  by (simp add: page_view_of_def timeline_example visible_anchors_def suppressed_dependencies_def spike_example_id captures_example
      pin_step_def findAnchorSpike_def is_captured_def suppressed_example_def suppressed_info_example_def capture_example_def
      CaptureStatusSkippedCooldown_def CaptureStatusCaptured_def)

lemma suppressed_rows_explained_witness:
  "\<exists>page m' info. handleTargetLatencySpikes config_example spikes_query_example spikes_example = (Inr (SpikesPage page), m')
     \<and> sp_spikes page = [\<lparr>sw_event = spike_example ''e1'', sw_captures = [suppressed_example\<lparr>cp_cooldown_info := Some info\<rparr>]\<rparr>]
     \<and> ci_anchor_visible info \<and> on_page page ''e2'' 1000000000"
proof -
  let ?info = "suppressed_info_example\<lparr>ci_timeline_visible := True, ci_visibility_reason := AnchorVisibilityReasonPinned,
    ci_artifact_visible := True, ci_anchor_visible := True\<rparr>"
  let ?f = "processSuppressedCaptureAnchorVisibility ''http'' ''a'' (page_view_of ''a'' ''http'' 1 (spike_timeline spikes_example) spikes_store_example) (spike_timeline spikes_example) spikes_store_example"
  have f: "?f suppressed_info_example = ?info"
    unfolding pins_example
    by (simp add: processSuppressedCaptureAnchorVisibility_def anchor_visibility_def pinned_def suppressed_info_example_def)
  have limit: "spikes_limit spikes_query_example = 1" by code_simp
  have store: "GetCaptureStore spikes_example = spikes_store_example" 
    by (simp add: spikes_example_def spikes_store_example_def GetCaptureStore_def)
  obtain page cs' where page: "spikes_page_of config_example ''a'' ''http'' 1 (spike_timeline spikes_example) spikes_store_example = (page, cs')"
    by (cases "spikes_page_of config_example ''a'' ''http'' 1 (spike_timeline spikes_example) spikes_store_example")
  have row: "sp_spikes page = [\<lparr>sw_event = spike_example ''e1'', sw_captures = [suppressed_example\<lparr>cp_cooldown_info := Some ?info\<rparr>]\<rparr>]"
  proof -
    have "cs' = process_spike (processSuppressedCaptureAnchorVisibility ''http'' ''a''
        (page_view_of ''a'' ''http'' 1 (spike_timeline spikes_example) spikes_store_example) (spike_timeline spikes_example))
        (spike_example ''e1'') spikes_store_example"
      and s: "sp_spikes page = [with_current_captures cs' (spike_example ''e1'')]"
      using page by (auto simp: spikes_page_of_def Let_def timeline_example)
    then have "GetCaptures ''e1'' cs' = process_captures ?f [suppressed_example]"
      by (simp add: GetCaptures_process_spike spike_example_id captures_example)
    then show ?thesis
      by (simp add: s with_current_captures_def spike_example_id process_captures_def suppressed_example_def f)
  qed
  have h: "handleTargetLatencySpikes config_example spikes_query_example spikes_example = (Inr (SpikesPage page), spikes_example\<lparr>mg_captures := cs'\<rparr>)"
  proof -
    have q: "values_get spikes_query_example ''target_id'' = ''a''" "values_get spikes_query_example ''kind'' = []"
      "values_get spikes_query_example ''include_captures'' = ''true''" by (simp_all add: spikes_query_example_def values_get_def)
    have "find_target (cf_targets config_example) ''a'' \<noteq> None" by (simp add: find_target_def config_example_def)
    then obtain tc where "find_target (cf_targets config_example) ''a'' = Some tc" by blast
    then show ?thesis by (simp add: handleTargetLatencySpikes_def q limit store page Let_def)
  qed
  have "on_page page (ci_anchor_capture_id ?info) 1000000000"
    using suppressed_rows_explained[OF h, of "\<lparr>sw_event = spike_example ''e1'', sw_captures = [suppressed_example\<lparr>cp_cooldown_info := Some ?info\<rparr>]\<rparr>"
      "suppressed_example\<lparr>cp_cooldown_info := Some ?info\<rparr>" ?info 1000000000]
    by (simp add: row suppressed_example_def suppressed_info_example_def)
  with h row show ?thesis by (fastforce simp: suppressed_info_example_def)
qed
end
