(* ===== verification/Route_Netlink.thy ===== *)
theory Route_Netlink
  imports Icmp_Native
begin

section \<open>Route lookup over netlink\<close>

text \<open>
  Models \<open>uvb76/diag/route_netlink.go\<close> and \<open>route_netlink_types.go\<close>: the request for the route to an address, the parser
  of the kernel's answer, and the conversion of the result. The code reads the answer through unsafe pointers, so a read
  of the model says whether it lies in the buffer: \<open>None\<close> is a read beyond it, which has no meaning. Integers in a message
  are little-endian, as on the machines the program is built for. The socket is an argument.
\<close>

unbundle bit_operations_syntax

subsection \<open>Numbers in a buffer\<close>

definition le_value :: "string \<Rightarrow> nat" where
  "le_value bs = foldr (\<lambda>c v. of_char c + 256 * v) bs 0"

fun le_bytes :: "nat \<Rightarrow> nat \<Rightarrow> string" where
  "le_bytes 0 n = []"
| "le_bytes (Suc k) n = char_of n # le_bytes k (n div 256)"

definition bytes_at :: "nat \<Rightarrow> nat \<Rightarrow> string \<Rightarrow> string option" where
  "bytes_at k off b = (if off + k \<le> length b then Some (take k (drop off b)) else None)"

definition uint_at :: "nat \<Rightarrow> nat \<Rightarrow> string \<Rightarrow> nat option" where
  "uint_at k off b = map_option le_value (bytes_at k off b)"

text \<open>The \<open>int32\<close> with the bits of an unsigned number.\<close>

definition int32_of :: "nat \<Rightarrow> int" where
  "int32_of n = sint (word_of_nat n :: 32 word)"

text \<open>\<open>copy(data[off:], bs)\<close>.\<close>

definition copy_at :: "nat \<Rightarrow> string \<Rightarrow> string \<Rightarrow> string" where
  "copy_at off bs data = (let n = min (length bs) (length data - off) in take off data @ take n bs @ drop (off + n) data)"

definition nlmsgAlign :: "int \<Rightarrow> int" where
  "nlmsgAlign n = (n + 4 - 1) AND NOT (4 - 1)"

definition aligned :: "nat \<Rightarrow> nat" where
  "aligned n = nat (nlmsgAlign (int n))"

lemma int_and_not_mask: "(n::int) AND NOT (mask k) = push_bit k (drop_bit k n)"
  by (rule bit_eqI) (auto simp: bit_simps)

lemma nlmsgAlign_eq: "nlmsgAlign n = (3 + n) div 4 * 4"
  using int_and_not_mask[of "3 + n" 2]
  by (simp add: nlmsgAlign_def mask_eq_exp_minus_1 drop_bit_eq_div push_bit_eq_mult algebra_simps)

lemma aligned_eq: "aligned n = (n + 3) div 4 * 4"
proof -
  have "nlmsgAlign (int n) = int ((n + 3) div 4 * 4)" unfolding nlmsgAlign_eq by simp
  then show ?thesis by (simp add: aligned_def del: of_nat_mult)
qed

lemma aligned_ge: "n \<le> aligned n"
  unfolding aligned_eq by linarith

lemma aligned_less: "aligned n < n + 4"
  unfolding aligned_eq by linarith

subsection \<open>Results and errors\<close>

record netlink_error =
  ne_kind :: string
  ne_message :: string

definition ErrNetlinkTimeout :: netlink_error where
  "ErrNetlinkTimeout = \<lparr>ne_kind = ''timeout'', ne_message = ''netlink request timed out''\<rparr>"

definition ErrNetlinkPermission :: netlink_error where
  "ErrNetlinkPermission = \<lparr>ne_kind = ''permission'', ne_message = ''netlink permission denied''\<rparr>"

definition ErrNetlinkNoRoute :: netlink_error where
  "ErrNetlinkNoRoute = \<lparr>ne_kind = ''no_route'', ne_message = ''no route to host''\<rparr>"

text \<open>A \<open>net.IP\<close> that may be nil is an option of its bytes.\<close>

record netlink_route_result =
  nr_destination :: "string option"
  nr_route_type :: string
  nr_interface :: int
  nr_interface_name :: string
  nr_gateway :: "string option"
  nr_source_ip :: "string option"
  nr_table :: int
  nr_protocol :: int
  nr_scope :: int
  nr_metric :: int
  nr_error :: "netlink_error option"

definition blank_route_result :: netlink_route_result where
  "blank_route_result = \<lparr>nr_destination = None, nr_route_type = [], nr_interface = 0, nr_interface_name = [], nr_gateway = None,
     nr_source_ip = None, nr_table = 0, nr_protocol = 0, nr_scope = 0, nr_metric = 0, nr_error = None\<rparr>"

record parsed_route =
  pt_route_type :: string
  pt_interface :: int
  pt_gateway :: "string option"
  pt_source_ip :: "string option"
  pt_table :: int
  pt_protocol :: int
  pt_scope :: int
  pt_metric :: int
  pt_preference :: int

text \<open>\<open>rtMsg\<close>, in the order of its fields.\<close>

record rt_msg =
  rm_family :: nat
  rm_dst_len :: nat
  rm_src_len :: nat
  rm_tos :: nat
  rm_table :: nat
  rm_proto :: nat
  rm_scope :: nat
  rm_type :: nat
  rm_flags :: nat

definition rt_msg_bytes :: "rt_msg \<Rightarrow> string" where
  "rt_msg_bytes m = map char_of [rm_family m, rm_dst_len m, rm_src_len m, rm_tos m, rm_table m, rm_proto m, rm_scope m, rm_type m]
     @ le_bytes 4 (rm_flags m)"

definition RTM_GETROUTE :: nat where "RTM_GETROUTE = 26"
definition RTM_NEWROUTE :: nat where "RTM_NEWROUTE = 24"
definition NLMSG_ERROR :: nat where "NLMSG_ERROR = 2"
definition NLM_F_REQUEST :: nat where "NLM_F_REQUEST = 1"
definition RT_TABLE_MAIN :: nat where "RT_TABLE_MAIN = 254"
definition AF_INET :: nat where "AF_INET = 2"
definition AF_INET6 :: nat where "AF_INET6 = 10"
definition RTA_OIF :: nat where "RTA_OIF = 4"
definition RTA_GATEWAY :: nat where "RTA_GATEWAY = 5"
definition RTA_PRIORITY :: nat where "RTA_PRIORITY = 6"
definition RTA_PREFSRC :: nat where "RTA_PREFSRC = 7"
definition RTA_TABLE :: nat where "RTA_TABLE = 15"
definition ENOENT :: int where "ENOENT = 2"

definition negativeErrno :: "int \<Rightarrow> int" where
  "negativeErrno errno = - errno"

lemmas netlink_constants = RTM_GETROUTE_def RTM_NEWROUTE_def NLMSG_ERROR_def NLM_F_REQUEST_def RT_TABLE_MAIN_def AF_INET_def AF_INET6_def
  RTA_OIF_def RTA_GATEWAY_def RTA_PRIORITY_def RTA_PREFSRC_def RTA_TABLE_def

subsection \<open>The request\<close>

definition addrLen :: "nat \<Rightarrow> nat" where
  "addrLen family = (if family = AF_INET then 32 else 128)"

text \<open>\<open>net.ParseIP\<close> is an argument: the 16 bytes of an address, or none.\<close>

type_synonym ip_parser = "string \<Rightarrow> string option"

definition buildRouteRequest :: "ip_parser \<Rightarrow> nat \<Rightarrow> string \<Rightarrow> string" where
  "buildRouteRequest parse_ip family target =
     (let dst = (case parse_ip target of None \<Rightarrow> [] | Some ip \<Rightarrow> (case To4 ip of Some ip4 \<Rightarrow> ip4 | None \<Rightarrow> ip));
          hdrLen = 16; rtmsgLen = 12; attrHdrLen = 4;
          totalLen = aligned (hdrLen + rtmsgLen) + aligned (attrHdrLen + length dst);
          data = replicate totalLen (CHR 0x00);
          data = copy_at 0 (le_bytes 4 totalLen @ le_bytes 2 RTM_GETROUTE @ le_bytes 2 NLM_F_REQUEST @ le_bytes 4 1 @ le_bytes 4 0) data;
          rtmsg = \<lparr>rm_family = family, rm_dst_len = addrLen family, rm_src_len = 0, rm_tos = 0, rm_table = RT_TABLE_MAIN,
                   rm_proto = 0, rm_scope = 0, rm_type = 1, rm_flags = 0\<rparr>;
          data = copy_at (aligned 16) (rt_msg_bytes rtmsg) data;
          attrOff = aligned (hdrLen + rtmsgLen);
          data = copy_at attrOff (le_bytes 2 (attrHdrLen + length dst) @ le_bytes 2 1) data
      in copy_at (attrOff + attrHdrLen) dst data)"

subsection \<open>The answer\<close>

definition route_type_of :: "nat \<Rightarrow> string" where
  "route_type_of t = (if t = 1 then ''unicast'' else if t = 2 then ''local'' else if t = 3 then ''unreachable''
     else if t = 5 then ''blackhole'' else if t = 6 then ''prohibit'' else ''unicast'')"

definition parse_attr :: "nat \<Rightarrow> nat \<Rightarrow> string \<Rightarrow> parsed_route \<Rightarrow> parsed_route option" where
  "parse_attr ty attrLen attrData route =
     (if ty = RTA_GATEWAY then
        Some (if attrLen \<ge> 4 \<and> length attrData \<ge> 4
              then route\<lparr>pt_gateway := Some (take (min attrLen (length attrData)) attrData)\<rparr> else route)
      else if ty = RTA_OIF then
        (if length attrData \<ge> 4 then map_option (\<lambda>n. route\<lparr>pt_interface := int n\<rparr>) (uint_at 4 0 attrData) else Some route)
      else if ty = RTA_PREFSRC then
        Some (if attrLen \<ge> 4 \<and> length attrData \<ge> 4
              then route\<lparr>pt_source_ip := Some (take (min attrLen (length attrData)) attrData)\<rparr> else route)
      else if ty = RTA_TABLE then
        (if length attrData \<ge> 4 then map_option (\<lambda>n. route\<lparr>pt_table := int n\<rparr>) (uint_at 4 0 attrData) else Some route)
      else if ty = RTA_PRIORITY then
        (if length attrData \<ge> 4
         then map_option (\<lambda>n. if pt_metric route = 0 then route\<lparr>pt_metric := int n\<rparr> else route) (uint_at 4 0 attrData)
         else Some route)
      else Some route)"

function parse_attrs :: "string \<Rightarrow> nat \<Rightarrow> parsed_route \<Rightarrow> parsed_route option" where
  "parse_attrs data attrOff route =
     (if attrOff + 4 \<le> length data then
        case uint_at 2 attrOff data of None \<Rightarrow> None | Some attrTotalLen \<Rightarrow>
        (case uint_at 2 (attrOff + 2) data of None \<Rightarrow> None | Some ty \<Rightarrow>
          if attrTotalLen < 4 then Some route
          else if attrOff + attrTotalLen > length data then Some route
          else case bytes_at (attrTotalLen - 4) (attrOff + 4) data of None \<Rightarrow> None | Some attrData \<Rightarrow>
            (case parse_attr ty (attrTotalLen - 4) attrData route of None \<Rightarrow> None | Some route' \<Rightarrow>
               parse_attrs data (attrOff + aligned attrTotalLen) route'))
      else Some route)"
  by pat_completeness auto
termination
proof -
  have less: "length b - (off + aligned n) < length b - off" if "off + 4 \<le> length b" "\<not> n < 4" for b :: string and off n
    using that aligned_ge[of n] by linarith
  show ?thesis
    by (relation "measure (\<lambda>(data, attrOff, route). length data - attrOff)") (use less in auto)
qed

declare parse_attrs.simps [simp del]

definition blank_parsed_route :: parsed_route where
  "blank_parsed_route = \<lparr>pt_route_type = [], pt_interface = 0, pt_gateway = None, pt_source_ip = None, pt_table = 0, pt_protocol = 0,
     pt_scope = 0, pt_metric = 0, pt_preference = 0\<rparr>"

definition set_preference :: "parsed_route \<Rightarrow> parsed_route" where
  "set_preference route = route\<lparr>pt_preference := pt_metric route + (if pt_gateway route \<noteq> None then 1000 else 0)\<rparr>"

text \<open>The outer option is that of the reads; the inner one is the nil of the code.\<close>

definition parseRtMsg :: "string \<Rightarrow> parsed_route option option" where
  "parseRtMsg data =
     (if length data < 12 then Some None
      else case (uint_at 1 5 data, uint_at 1 6 data, uint_at 1 7 data) of
             (Some proto, Some scope, Some ty) \<Rightarrow>
               map_option (\<lambda>r. Some (set_preference r))
                 (parse_attrs data 12 (blank_parsed_route\<lparr>pt_protocol := int proto, pt_scope := int scope, pt_route_type := route_type_of ty\<rparr>))
           | _ \<Rightarrow> None)"

definition better_route :: "parsed_route option \<Rightarrow> parsed_route option \<Rightarrow> parsed_route option" where
  "better_route best r =
     (case r of None \<Rightarrow> best | Some route \<Rightarrow>
        (case best of None \<Rightarrow> Some route | Some b \<Rightarrow> if pt_preference route < pt_preference b then Some route else best))"

definition netlink_failure :: "int \<Rightarrow> netlink_error" where
  "netlink_failure err = (if err = negativeErrno ENOENT then ErrNetlinkNoRoute
     else \<lparr>ne_kind = ''netlink_error'', ne_message = ''netlink error: '' @ show_int err\<rparr>)"

function scan_messages :: "string \<Rightarrow> nat \<Rightarrow> parsed_route option \<Rightarrow> (netlink_error + parsed_route option) option" where
  "scan_messages buf off bestRoute =
     (if off < length buf then
        if off + 16 > length buf then Some (Inr bestRoute)
        else case uint_at 4 off buf of None \<Rightarrow> None | Some msgLen \<Rightarrow>
          (if msgLen < 16 \<or> off + msgLen > length buf then Some (Inr bestRoute)
           else case uint_at 2 (off + 4) buf of None \<Rightarrow> None | Some ty \<Rightarrow>
             (if ty = NLMSG_ERROR then
                if off + 20 > length buf then Some (Inr bestRoute)
                else case uint_at 4 (off + 16) buf of None \<Rightarrow> None | Some n \<Rightarrow>
                  (if int32_of n \<noteq> 0 then Some (Inl (netlink_failure (int32_of n)))
                   else scan_messages buf (off + aligned msgLen) bestRoute)
              else if ty \<noteq> RTM_GETROUTE \<and> ty \<noteq> RTM_NEWROUTE then scan_messages buf (off + aligned msgLen) bestRoute
              else case bytes_at (msgLen - 16) (off + 16) buf of None \<Rightarrow> None | Some body \<Rightarrow>
                (case parseRtMsg body of None \<Rightarrow> None | Some r \<Rightarrow>
                   scan_messages buf (off + aligned msgLen) (better_route bestRoute r))))
      else Some (Inr bestRoute))"
  by pat_completeness auto
termination
proof -
  have less: "length b - (off + aligned n) < length b - off" if "off < length b" "\<not> (n < 16 \<or> P)" for b :: string and off n P
    using that aligned_ge[of n] by linarith
  show ?thesis
    by (relation "measure (\<lambda>(buf, off, best). length buf - off)") (use less in auto)
qed

declare scan_messages.simps [simp del]

type_synonym interface_names = "int \<Rightarrow> string option"

definition getInterfaceName :: "interface_names \<Rightarrow> int \<Rightarrow> string" where
  "getInterfaceName names ifindex = (case names ifindex of None \<Rightarrow> [] | Some n \<Rightarrow> n)"

definition copy_best :: "interface_names \<Rightarrow> parsed_route \<Rightarrow> netlink_route_result \<Rightarrow> netlink_route_result" where
  "copy_best names best result =
     (let r = result\<lparr>nr_route_type := pt_route_type best, nr_interface := pt_interface best, nr_gateway := pt_gateway best,
                nr_source_ip := pt_source_ip best, nr_table := pt_table best, nr_protocol := pt_protocol best,
                nr_scope := pt_scope best, nr_metric := pt_metric best\<rparr>
      in if nr_interface r > 0 then r\<lparr>nr_interface_name := getInterfaceName names (nr_interface r)\<rparr> else r)"

definition parseRouteResponse :: "interface_names \<Rightarrow> string \<Rightarrow> netlink_route_result \<Rightarrow> netlink_route_result option" where
  "parseRouteResponse names buf result =
     map_option (\<lambda>s. case s of Inl e \<Rightarrow> result\<lparr>nr_error := Some e\<rparr>
        | Inr None \<Rightarrow> result\<lparr>nr_error := Some ErrNetlinkNoRoute\<rparr>
        | Inr (Some best) \<Rightarrow> copy_best names best result) (scan_messages buf 0 None)"

subsection \<open>The lookup\<close>

text \<open>
  What the operating system answers: an error of each call, or for \<open>read\<close> the bytes of one datagram, of which the buffer
  takes the first 8192.
\<close>

datatype read_outcome = ReadAgain | ReadNotPermitted | ReadFault string | ReadBytes string

datatype receive_fault = NetlinkFault netlink_error | SystemFault string

definition receiveNetlinkResponse :: "read_outcome \<Rightarrow> receive_fault + string" where
  "receiveNetlinkResponse r =
     (case r of
        ReadAgain \<Rightarrow> Inl (NetlinkFault ErrNetlinkTimeout)
      | ReadNotPermitted \<Rightarrow> Inl (NetlinkFault ErrNetlinkPermission)
      | ReadFault e \<Rightarrow> Inl (SystemFault e)
      | ReadBytes bs \<Rightarrow> let data = take 8192 bs in if data = [] then Inl (NetlinkFault ErrNetlinkNoRoute) else Inr data)"

record netlink_socket =
  sk_open :: "string option"
  sk_timeout :: "string option"
  sk_bind :: "string option"
  sk_send :: "string \<Rightarrow> string option"
  sk_read :: "string \<Rightarrow> read_outcome"

definition RouteLookupNative :: "ip_parser \<Rightarrow> netlink_socket \<Rightarrow> interface_names \<Rightarrow> string \<Rightarrow> netlink_route_result option" where
  "RouteLookupNative parse_ip socket names target =
     (let result = blank_route_result;
          failure = (\<lambda>r kind msg. Some (r\<lparr>nr_error := Some \<lparr>ne_kind = kind, ne_message = msg\<rparr>\<rparr>))
      in case parse_ip target of
           None \<Rightarrow> failure result ''invalid_target'' ''invalid IP address''
         | Some ip \<Rightarrow>
             let family = (if To4 ip \<noteq> None then AF_INET else AF_INET6);
                 result = result\<lparr>nr_destination := Some (case To4 ip of Some ip4 \<Rightarrow> ip4 | None \<Rightarrow> ip)\<rparr>
             in case sk_open socket of Some e \<Rightarrow> failure result ''open_failed'' (''socket: '' @ e) | None \<Rightarrow>
               (case sk_timeout socket of Some e \<Rightarrow> failure result ''open_failed'' (''setsockopt: '' @ e) | None \<Rightarrow>
               (case sk_bind socket of Some e \<Rightarrow> failure result ''bind_failed'' (''bind: '' @ e) | None \<Rightarrow>
                 let req = buildRouteRequest parse_ip family target
                 in case sk_send socket req of Some e \<Rightarrow> failure result ''send_failed'' (''send: '' @ e) | None \<Rightarrow>
                   (case receiveNetlinkResponse (sk_read socket req) of
                      Inl (NetlinkFault e) \<Rightarrow> Some (result\<lparr>nr_error := Some e\<rparr>)
                    | Inl (SystemFault e) \<Rightarrow> failure result ''receive_failed'' e
                    | Inr msgs \<Rightarrow> parseRouteResponse names msgs result))))"

subsection \<open>The fields of the evidence\<close>

record route_lookup_fields =
  rf_route_type :: string
  rf_interface :: string
  rf_source_ip :: string
  rf_gateway :: string
  rf_table :: string

text \<open>\<open>net.IP.String\<close> is an argument.\<close>

definition RouteLookupNetlinkResultToProbeRoute :: "(string \<Rightarrow> string) \<Rightarrow> netlink_route_result \<Rightarrow> bool \<Rightarrow> route_lookup_fields" where
  "RouteLookupNetlinkResultToProbeRoute ip_text r redact =
     \<lparr>rf_route_type = nr_route_type r,
      rf_interface = (if nr_interface_name r \<noteq> [] then nr_interface_name r
                      else if nr_interface r > 0 then ''if'' @ show_int (nr_interface r) else []),
      rf_source_ip = (case nr_source_ip r of None \<Rightarrow> [] | Some ip \<Rightarrow> if redact then ''redacted'' else ip_text ip),
      rf_gateway = (case nr_gateway r of None \<Rightarrow> [] | Some ip \<Rightarrow> if redact then ''redacted'' else ip_text ip),
      rf_table = (if nr_table r > 0 then show_int (nr_table r) else [])\<rparr>"

subsection \<open>Reads stay in the buffer\<close>

lemma uint_at_Some: "off + k \<le> length b \<Longrightarrow> uint_at k off b = Some (le_value (take k (drop off b)))"
  by (simp add: uint_at_def bytes_at_def)

lemma bytes_at_Some: "off + k \<le> length b \<Longrightarrow> bytes_at k off b = Some (take k (drop off b))"
  by (simp add: bytes_at_def)

lemma parse_attr_in_bounds: "\<exists>r. parse_attr ty n d route = Some r"
  by (auto simp: parse_attr_def uint_at_Some)

lemma parse_attrs_in_bounds: "\<exists>r. parse_attrs data off route = Some r"
proof (induction data off route rule: parse_attrs.induct)
  case (1 data off route)
  show ?case
  proof (cases "off + 4 \<le> length data")
    case True
    let ?n = "le_value (take 2 (drop off data))"
    have u: "uint_at 2 off data = Some ?n" and v: "\<exists>t. uint_at 2 (off + 2) data = Some t" using True by (simp_all add: uint_at_Some)
    then obtain t where t: "uint_at 2 (off + 2) data = Some t" by blast
    show ?thesis
    proof (cases "?n < 4 \<or> off + ?n > length data")
      case False
      then obtain d where d: "bytes_at (?n - 4) (off + 4) data = Some d" using bytes_at_Some[of "off + 4" "?n - 4" data] by auto
      obtain r where r: "parse_attr t (?n - 4) d route = Some r" using parse_attr_in_bounds by blast
      have "\<exists>r'. parse_attrs data (off + aligned ?n) r = Some r'" using 1[OF True u t _ _ d r] False by simp
      then show ?thesis using True u t d r False by (subst parse_attrs.simps) simp
    qed (use True u t in \<open>subst parse_attrs.simps; auto\<close>)
  qed (subst parse_attrs.simps; simp)
qed

lemma parseRtMsg_in_bounds: "\<exists>r. parseRtMsg d = Some r"
  using parse_attrs_in_bounds[of d 12] by (simp add: parseRtMsg_def uint_at_Some)

lemma scan_messages_in_bounds: "\<exists>r. scan_messages buf off best = Some r"
proof (induction buf off best rule: scan_messages.induct)
  case (1 buf off best)
  show ?case
  proof (cases "off < length buf \<and> off + 16 \<le> length buf")
    case True
    let ?n = "le_value (take 4 (drop off buf))" and ?t = "le_value (take 2 (drop (off + 4) buf))"
    have n: "uint_at 4 off buf = Some ?n" and t: "uint_at 2 (off + 4) buf = Some ?t" using True by (simp_all add: uint_at_Some)
    show ?thesis
    proof (cases "?n < 16 \<or> off + ?n > length buf")
      case False
      have b: "bytes_at (?n - 16) (off + 16) buf = Some (take (?n - 16) (drop (off + 16) buf))" using False by (simp add: bytes_at_Some)
      obtain r where r: "parseRtMsg (take (?n - 16) (drop (off + 16) buf)) = Some r" using parseRtMsg_in_bounds by blast
      note steps = 1[OF _ _ n _ t]
      show ?thesis using True False n t b r steps
        by (subst scan_messages.simps) (auto simp: uint_at_Some not_le)
    qed (use True n in \<open>subst scan_messages.simps; auto\<close>)
  qed (subst scan_messages.simps; auto)
qed

lemma parse_response_in_bounds: "\<exists>r. parseRouteResponse names buf result = Some r"
  using scan_messages_in_bounds[of buf 0 None] by (auto simp: parseRouteResponse_def)

lemma native_lookup_in_bounds: "\<exists>r. RouteLookupNative parse_ip socket names target = Some r"
  using parse_response_in_bounds
  by (simp add: RouteLookupNative_def Let_def split: option.split sum.split receive_fault.split)

end
