(* ===== verification/Route_Lookup.thy ===== *)
theory Route_Lookup
  imports Route_Netlink Go_Text
begin

section \<open>Collecting the route to a probe's target\<close>

text \<open>
  Models \<open>uvb76/diag/route_lookup.go\<close>: the parser of \<open>ip route get\<close>, the command with its bounded output, and the
  collector, which asks the kernel first and the command when that fails. A pattern such as \<open>\bdev\s+(\S+)\<close> finds the
  first place where the word starts and white space follows it; what it captures shares no character with what
  precedes it, so the search never goes back.
\<close>

subsection \<open>Fields of a line\<close>

definition is_word :: "char \<Rightarrow> bool" where
  "is_word c \<longleftrightarrow> is_digit c \<or> c = CHR ''_'' \<or> list_ex (\<lambda>(a, z). a \<le> c \<and> c \<le> z) [(CHR ''A'', CHR ''Z''), (CHR ''a'', CHR ''z'')]"

definition after_blank :: "(char \<Rightarrow> bool) \<Rightarrow> string \<Rightarrow> string option" where
  "after_blank ok s =
     (if s = [] \<or> \<not> is_blank (hd s) then None
      else let v = takeWhile ok (dropWhile is_blank s) in if v = [] then None else Some v)"

text \<open>The search for \<open>\bkey\s+(...)\<close>; the flag says that a word character precedes.\<close>

fun find_word :: "(char \<Rightarrow> bool) \<Rightarrow> string \<Rightarrow> bool \<Rightarrow> string \<Rightarrow> string option" where
  "find_word ok key pw [] = None"
| "find_word ok key pw (c # s) =
     (case (if \<not> pw \<and> prefix key (c # s) then after_blank ok (drop (length key) (c # s)) else None) of
        Some v \<Rightarrow> Some v
      | None \<Rightarrow> find_word ok key (is_word c) s)"

abbreviation field_of :: "string \<Rightarrow> string \<Rightarrow> string option" where
  "field_of key s \<equiv> find_word (\<lambda>c. \<not> is_blank c) key False s"

definition or_empty :: "string option \<Rightarrow> string" where
  "or_empty v = (case v of None \<Rightarrow> [] | Some s \<Rightarrow> s)"

definition extractInterfaceField :: "string \<Rightarrow> string" where
  "extractInterfaceField s = or_empty (field_of ''dev'' s)"

definition extractSourceField :: "string \<Rightarrow> bool \<Rightarrow> string" where
  "extractSourceField s redact = or_empty (map_option (\<lambda>v. if redact then ''redacted'' else v) (field_of ''src'' s))"

definition extractGatewayField :: "string \<Rightarrow> bool \<Rightarrow> string" where
  "extractGatewayField s redact = or_empty (map_option (\<lambda>v. if redact then ''redacted'' else v) (field_of ''via'' s))"

definition extractTableField :: "string \<Rightarrow> string" where
  "extractTableField s = or_empty (field_of ''table'' s)"

text \<open>\<open>parseInt\<close>: no error for other characters, and no check of the range.\<close>

fun parse_digits :: "int \<Rightarrow> string \<Rightarrow> int" where
  "parse_digits result [] = result"
| "parse_digits result (c # s) =
     (if \<not> is_digit c then 0 else parse_digits (wrap64 (wrap64 (result * 10) + (of_char c - 48))) s)"

definition route_parseInt :: "string \<Rightarrow> int" where
  "route_parseInt s = parse_digits 0 s"

definition extractMTUField :: "string \<Rightarrow> int option" where
  "extractMTUField s = map_option route_parseInt (find_word is_digit ''mtu'' False s)"

definition extractUIDField :: "string \<Rightarrow> int option" where
  "extractUIDField s =
     (case find_word is_digit ''uid'' False s of None \<Rightarrow> None
      | Some v \<Rightarrow> if route_parseInt v \<noteq> 0 then Some (route_parseInt v) else None)"

function normalizeSpaces :: "string \<Rightarrow> string" where
  "normalizeSpaces [] = []"
| "normalizeSpaces (c # s) = (if is_blank c then CHR '' '' # normalizeSpaces (dropWhile is_blank s) else c # normalizeSpaces s)"
  by pat_completeness auto
termination by (relation "measure length") (auto simp: less_Suc_eq_le length_dropWhile_le)

subsection \<open>The text of \<open>ip route get\<close>\<close>

record parse_result =
  ps_route_type :: string
  ps_interface :: string
  ps_source_ip :: string
  ps_gateway :: string
  ps_table :: string
  ps_mtu :: "int option"
  ps_uid :: "int option"

record route_parse_error =
  re_kind :: string
  re_message :: string

definition ErrRouteNoData :: route_parse_error where
  "ErrRouteNoData = \<lparr>re_kind = ''no_data'', re_message = ''empty route output''\<rparr>"

definition ErrRouteMalformed :: route_parse_error where
  "ErrRouteMalformed = \<lparr>re_kind = ''parse_failed'', re_message = ''malformed route output''\<rparr>"

definition blank_parse :: "string \<Rightarrow> parse_result" where
  "blank_parse ty = \<lparr>ps_route_type = ty, ps_interface = [], ps_source_ip = [], ps_gateway = [], ps_table = [], ps_mtu = None, ps_uid = None\<rparr>"

definition ParseRouteGetOutput :: "string \<Rightarrow> bool \<Rightarrow> route_parse_error + parse_result" where
  "ParseRouteGetOutput rawOutput redact =
     (let out = TrimSpace rawOutput
      in if out = [] then Inl ErrRouteNoData
         else let normalized = normalizeSpaces out; parts = Fields normalized
              in if parts = [] then Inl ErrRouteMalformed
                 else let firstToken = map lower_char (hd parts); iface = extractInterfaceField normalized
                      in if firstToken = ''unreachable'' then Inr ((blank_parse ''unreachable'')\<lparr>ps_interface := iface\<rparr>)
                         else if firstToken = ''local''
                         then Inr ((blank_parse ''local'')\<lparr>ps_interface := iface, ps_source_ip := extractSourceField normalized redact\<rparr>)
                         else if firstToken \<in> {''broadcast'', ''multicast'', ''throw'', ''blackhole'', ''prohibit''}
                         then Inr (blank_parse firstToken)
                         else Inr \<lparr>ps_route_type = ''unicast'', ps_interface = iface,
                                ps_source_ip = extractSourceField normalized redact, ps_gateway = extractGatewayField normalized redact,
                                ps_table = extractTableField normalized, ps_mtu = extractMTUField normalized, ps_uid = extractUIDField normalized\<rparr>)"

subsection \<open>The command\<close>

record route_process = process_env +
  rp_missing :: bool

record route_command_result =
  rc_stdout :: string
  rc_stderr :: string
  rc_exit_code :: int
  rc_not_found :: bool

definition route_failed_start :: "string \<Rightarrow> bool \<Rightarrow> route_command_result" where
  "route_failed_start msg missing = \<lparr>rc_stdout = [], rc_stderr = msg, rc_exit_code = -1, rc_not_found = missing\<rparr>"

definition runRouteCommand :: "route_process \<Rightarrow> route_command_result option" where
  "runRouteCommand env =
     (case px_stdout_pipe env of Some e \<Rightarrow> Some (route_failed_start ''stdout pipe failed'' False) | None \<Rightarrow>
      (case px_stderr_pipe env of Some e \<Rightarrow> Some (route_failed_start ''stderr pipe failed'' False) | None \<Rightarrow>
       (case px_start env of
          Some e \<Rightarrow> Some (if rp_missing env then route_failed_start ''command not found'' True
                          else route_failed_start ''command start failed'' False)
        | None \<Rightarrow>
            Option.bind (read_loop (px_stdout env) 4096 0 [] False) (\<lambda>(i, out, truncated, eof).
            Option.bind (if truncated then drain (px_stdout env) i else Some i) (\<lambda>_.
            Option.bind (read_loop (px_stderr env) 1024 0 [] False) (\<lambda>(j, err, _, _).
              Some \<lparr>rc_stdout = out, rc_stderr = err,
                rc_exit_code = (case px_wait env of None \<Rightarrow> 0 | Some _ \<Rightarrow> (case px_exit env of None \<Rightarrow> 0 | Some n \<Rightarrow> n)),
                rc_not_found = False\<rparr>))))))"

definition isValidRouteTarget :: "string \<Rightarrow> bool" where
  "isValidRouteTarget target \<longleftrightarrow>
     target \<noteq> [] \<and> (\<forall>d \<in> set [CHR '';'', CHR ''|'', CHR 0x60, CHR ''$'', CHR ''('', CHR '')'', CHR ''<'', CHR ''>'', CHR ''&'',
       CHR 0x0A, CHR 0x0D, CHR 0x09]. d \<notin> set target) \<and> length target \<le> 253"

subsection \<open>The collector\<close>

datatype context_end = ContextLive | DeadlineExceeded | ContextCanceled

record route_env =
  rv_parse_ip :: ip_parser
  rv_socket :: netlink_socket
  rv_names :: interface_names
  rv_ip_text :: "string \<Rightarrow> string"
  rv_expired :: bool
  rv_command :: "string \<Rightarrow> route_process"
  rv_command_end :: context_end
  rv_stamp :: string
  rv_use_cli :: bool

definition shouldFallbackToCLI :: "netlink_error \<Rightarrow> bool" where
  "shouldFallbackToCLI e \<longleftrightarrow> ne_kind e \<in> {''open_failed'', ''permission'', ''no_route''}"

definition mapNetlinkErrorToKind :: "netlink_error \<Rightarrow> string" where
  "mapNetlinkErrorToKind e =
     (if ne_kind e \<in> {''open_failed'', ''bind_failed'', ''send_failed'', ''receive_failed''} then ''unavailable''
      else if ne_kind e = ''timeout'' then ''timeout''
      else if ne_kind e = ''permission'' then ''unavailable''
      else if ne_kind e = ''no_route'' then ''unavailable''
      else if ne_kind e = ''malformed'' then ''parse_failed''
      else if ne_kind e = ''invalid_target'' then ''unavailable''
      else ''unavailable'')"

definition route_error :: "string \<Rightarrow> string \<Rightarrow> probe_route \<Rightarrow> probe_route" where
  "route_error kind msg r = r\<lparr>pr_error_kind := kind, pr_error := msg\<rparr>"

definition route_exit_error :: "string \<Rightarrow> probe_route \<Rightarrow> probe_route" where
  "route_exit_error stderr r =
     (let text = TrimSpace stderr
      in if str_contains text ''Nexthop has no gateway'' \<or> str_contains text ''No route to host'' \<or> str_contains text ''Network is unreachable''
         then route_error ''unavailable'' ''no route to host'' r else route_error ''non_zero_exit'' ''route lookup failed'' r)"

definition route_collectViaCLI :: "route_env \<Rightarrow> probe_route \<Rightarrow> string \<Rightarrow> probe_route option" where
  "route_collectViaCLI env route lookupTarget =
     Option.bind (runRouteCommand (rv_command env lookupTarget)) (\<lambda>result.
       Some (case rv_command_end env of
               DeadlineExceeded \<Rightarrow> route_error ''timeout'' ''route lookup timed out'' route
             | ContextCanceled \<Rightarrow> route_error ''timeout'' ''route lookup canceled'' route
             | ContextLive \<Rightarrow>
                 if rc_not_found result then route_error ''command_missing'' ''route command not found'' route
                 else if rc_exit_code result \<noteq> 0 then route_exit_error (rc_stderr result) route
                 else let rawOutput = TrimSpace (rc_stdout result)
                      in if rawOutput = [] then route_error ''no_data'' ''empty route output'' route
                         else case ParseRouteGetOutput rawOutput True of
                                Inl e \<Rightarrow> route_error (re_kind e) (re_message e) route
                              | Inr p \<Rightarrow> route\<lparr>pr_ok := True, pr_route_type := ps_route_type p, pr_interface := ps_interface p,
                                           pr_source_ip := ps_source_ip p, pr_gateway := ps_gateway p, pr_table := ps_table p,
                                           pr_mtu := ps_mtu p, pr_uid := ps_uid p\<rparr>))"

definition route_collectViaNative :: "route_env \<Rightarrow> probe_route \<Rightarrow> string \<Rightarrow> probe_route option" where
  "route_collectViaNative env route lookupTarget =
     (if rv_expired env then Some (route_error ''timeout'' ''route lookup context already expired'' route)
      else Option.bind (RouteLookupNative (rv_parse_ip env) (rv_socket env) (rv_names env) lookupTarget) (\<lambda>nl.
        case nr_error nl of
          Some e \<Rightarrow> if shouldFallbackToCLI e then route_collectViaCLI env route lookupTarget
                     else Some (route_error (mapNetlinkErrorToKind e) (ne_message e) route)
        | None \<Rightarrow>
            let fields = RouteLookupNetlinkResultToProbeRoute (rv_ip_text env) nl True
            in Some (route\<lparr>pr_ok := True, pr_route_type := rf_route_type fields, pr_interface := rf_interface fields,
                 pr_source_ip := rf_source_ip fields, pr_gateway := rf_gateway fields, pr_table := rf_table fields\<rparr>)))"

definition new_route :: "route_env \<Rightarrow> string \<Rightarrow> string \<Rightarrow> string \<Rightarrow> probe_route" where
  "new_route env probeKind target resolvedIP =
     \<lparr>pr_kind = probeKind, pr_probe_host = target, pr_resolved_ip = resolvedIP,
      pr_lookup_target = (if resolvedIP = [] then target else resolvedIP), pr_ok = False, pr_route_type = [], pr_interface = [],
      pr_source_ip = [], pr_gateway = [], pr_table = [], pr_mtu = None, pr_uid = None, pr_error = [], pr_error_kind = [],
      pr_collected_at = rv_stamp env\<rparr>"

definition CollectRouteLookup :: "route_env \<Rightarrow> string \<Rightarrow> string \<Rightarrow> string \<Rightarrow> probe_route option" where
  "CollectRouteLookup env probeKind target resolvedIP =
     (let route = new_route env probeKind target resolvedIP; lookupTarget = pr_lookup_target route
      in if \<not> isValidRouteTarget lookupTarget then Some (route_error ''unavailable'' ''invalid route lookup target'' route)
         else if rv_use_cli env then route_collectViaCLI env route lookupTarget
         else route_collectViaNative env route lookupTarget)"

end
