(* ===== verification/Route_Netlink_Codec.thy ===== *)
theory Route_Netlink_Codec
  imports Route_Netlink
begin

section \<open>What the kernel says and what is read of it\<close>

text \<open>
  The answer to a route request is a sequence of messages with a header, and a message about a route holds a sequence of
  attributes. Both are written here as the netlink protocol lays them out; the parser of the code is shown to read
  every such answer, and to choose the first of the routes with the least metric, where a gateway counts 1000.
\<close>

subsection \<open>Little-endian numbers\<close>

lemma length_le_bytes [simp]: "length (le_bytes k n) = k"
  by (induction k arbitrary: n) simp_all

lemma le_value_bytes: "le_value (le_bytes k n) = n mod 256 ^ k"
proof (induction k arbitrary: n)
  case (Suc k)
  have "le_value (le_bytes (Suc k) n) = n mod 256 + 256 * (n div 256 mod 256 ^ k)"
    using Suc[of "n div 256"] by (simp add: le_value_def of_char_of take_bit_eq_mod)
  also have "\<dots> = n mod 256 ^ Suc k" using mod_mult2_eq[of n 256 "256 ^ k"] by simp
  finally show ?case .
qed (simp add: le_value_def)

lemma bytes_at_append: "bytes_at k (length p + i) (p @ b) = bytes_at k i b"
  by (simp add: bytes_at_def)

lemma uint_at_append: "uint_at k (length p + i) (p @ b) = uint_at k i b"
  by (simp add: uint_at_def bytes_at_append)

lemma uint_at_append0: "uint_at k (length p) (p @ b) = uint_at k 0 b"
  using uint_at_append[of k p 0 b] by simp

lemma bytes_at_front: "length x = k \<Longrightarrow> bytes_at k 0 (x @ y) = Some x"
  by (simp add: bytes_at_def)

lemma uint_at_front: "uint_at k 0 (le_bytes k n @ y) = Some (n mod 256 ^ k)"
  by (simp add: uint_at_def bytes_at_front le_value_bytes)

lemma uint_at_skip: "length x = i \<Longrightarrow> uint_at k (i + j) (x @ y) = uint_at k j y"
  using uint_at_append[of k x j y] by simp

lemma bytes_at_skip: "length x = i \<Longrightarrow> bytes_at k (i + j) (x @ y) = bytes_at k j y"
  using bytes_at_append[of k x j y] by simp

subsection \<open>Attributes\<close>

definition padded :: "string \<Rightarrow> string" where
  "padded s = s @ replicate (aligned (length s) - length s) (CHR 0x00)"

lemma length_padded [simp]: "length (padded s) = aligned (length s)"
  using aligned_ge[of "length s"] by (simp add: padded_def)

definition attr_bytes :: "nat \<times> string \<Rightarrow> string" where
  "attr_bytes a = padded (le_bytes 2 (4 + length (snd a)) @ le_bytes 2 (fst a) @ snd a)"

definition attr_ok :: "nat \<times> string \<Rightarrow> bool" where
  "attr_ok a \<longleftrightarrow> fst a < 2 ^ 16 \<and> length (snd a) + 4 < 2 ^ 16"

text \<open>What an attribute says of the route; one shorter than four bytes, or of another type, says nothing.\<close>

definition apply_attr :: "nat \<times> string \<Rightarrow> parsed_route \<Rightarrow> parsed_route" where
  "apply_attr a r =
     (let n = int (le_value (take 4 (snd a)))
      in if length (snd a) < 4 then r
         else if fst a = RTA_GATEWAY then r\<lparr>pt_gateway := Some (snd a)\<rparr>
         else if fst a = RTA_PREFSRC then r\<lparr>pt_source_ip := Some (snd a)\<rparr>
         else if fst a = RTA_OIF then r\<lparr>pt_interface := n\<rparr>
         else if fst a = RTA_TABLE then r\<lparr>pt_table := n\<rparr>
         else if fst a = RTA_PRIORITY \<and> pt_metric r = 0 then r\<lparr>pt_metric := n\<rparr> else r)"

lemma parse_attr_apply: "parse_attr (fst a) (length (snd a)) (snd a) r = Some (apply_attr a r)"
  by (auto simp: parse_attr_def apply_attr_def Let_def uint_at_Some netlink_constants)

lemma parse_attrs_read:
  assumes "list_all attr_ok attrs"
  shows "parse_attrs (p @ concat (map attr_bytes attrs)) (length p) r = Some (fold apply_attr attrs r)"
  using assms
proof (induction attrs arbitrary: p r)
  case Nil
  show ?case by (subst parse_attrs.simps) simp
next
  case (Cons a attrs)
  let ?n = "4 + length (snd a)" and ?rest = "concat (map attr_bytes attrs)"
  let ?b = "attr_bytes a @ ?rest"
  define z where "z = replicate (aligned ?n - ?n) (CHR 0x00) @ ?rest"
  have len: "length (le_bytes 2 ?n @ le_bytes 2 (fst a) @ snd a) = ?n" by simp
  have b: "?b = le_bytes 2 ?n @ le_bytes 2 (fst a) @ snd a @ z" unfolding attr_bytes_def padded_def len z_def by simp
  have ok: "attr_ok a" and oks: "list_all attr_ok attrs" using Cons.prems by simp_all
  have n: "uint_at 2 (length p) (p @ ?b) = Some ?n"
    using ok unfolding b by (simp add: uint_at_append0 uint_at_front attr_ok_def del: append_assoc)
  have t: "uint_at 2 (length p + 2) (p @ ?b) = Some (fst a)"
    using ok unfolding b uint_at_append using uint_at_skip[of "le_bytes 2 ?n" 2 2 0] by (simp add: uint_at_front attr_ok_def)
  have d: "bytes_at (length (snd a)) (length p + 4) (p @ ?b) = Some (snd a)"
    using bytes_at_skip[of "le_bytes 2 ?n @ le_bytes 2 (fst a)" 4 "length (snd a)" 0 "snd a @ z"]
    unfolding b bytes_at_append by (simp add: bytes_at_front)
  have l: "length (p @ attr_bytes a) = length p + aligned ?n" unfolding attr_bytes_def length_append length_padded len[unfolded length_append] by simp
  have le: "length p + ?n \<le> length (p @ ?b)" unfolding b by simp
  have next_attr: "parse_attrs (p @ ?b) (length p + aligned ?n) (apply_attr a r) = Some (fold apply_attr attrs (apply_attr a r))"
    using Cons.IH[OF oks, of "p @ attr_bytes a"] unfolding l by simp
  have at: "?n - 4 = length (snd a)" by simp
  show ?case
    by (subst parse_attrs.simps) (use le n t d next_attr in \<open>simp add: parse_attr_apply del: append_assoc\<close>)
qed

subsection \<open>Messages\<close>

text \<open>
  An answer about a route with its attributes; a report of an error, or of success with the number 0; any other message. The
  flags, the sequence number and the port of a header are not looked at.
\<close>

datatype kernel_message =
    RouteReply string nat rt_msg "(nat \<times> string) list"
  | ErrorReply string nat string
  | OtherReply string nat string

definition message_bytes :: "string \<Rightarrow> nat \<Rightarrow> string \<Rightarrow> string" where
  "message_bytes meta ty body = padded (le_bytes 4 (16 + length body) @ le_bytes 2 ty @ meta @ body)"

fun reply_body :: "kernel_message \<Rightarrow> string" where
  "reply_body (RouteReply meta ty m attrs) = rt_msg_bytes m @ concat (map attr_bytes attrs)"
| "reply_body (ErrorReply meta n rest) = le_bytes 4 n @ rest"
| "reply_body (OtherReply meta ty body) = body"

fun reply_bytes :: "kernel_message \<Rightarrow> string" where
  "reply_bytes (RouteReply meta ty m attrs) = message_bytes meta ty (reply_body (RouteReply meta ty m attrs))"
| "reply_bytes (ErrorReply meta n rest) = message_bytes meta NLMSG_ERROR (reply_body (ErrorReply meta n rest))"
| "reply_bytes (OtherReply meta ty body) = message_bytes meta ty body"

fun reply_ok :: "kernel_message \<Rightarrow> bool" where
  "reply_ok (RouteReply meta ty m attrs) \<longleftrightarrow>
     length meta = 10 \<and> ty \<in> {RTM_GETROUTE, RTM_NEWROUTE} \<and> rm_proto m < 256 \<and> rm_scope m < 256 \<and> rm_type m < 256 \<and> list_all attr_ok attrs
       \<and> 16 + length (reply_body (RouteReply meta ty m attrs)) < 2 ^ 32"
| "reply_ok (ErrorReply meta n rest) \<longleftrightarrow> length meta = 10 \<and> n < 2 ^ 32 \<and> 20 + length rest < 2 ^ 32"
| "reply_ok (OtherReply meta ty body) \<longleftrightarrow>
     length meta = 10 \<and> ty < 2 ^ 16 \<and> ty \<notin> {NLMSG_ERROR, RTM_GETROUTE, RTM_NEWROUTE} \<and> 16 + length body < 2 ^ 32"

definition reply_route :: "rt_msg \<Rightarrow> (nat \<times> string) list \<Rightarrow> parsed_route" where
  "reply_route m attrs = set_preference (fold apply_attr attrs
     (blank_parsed_route\<lparr>pt_protocol := int (rm_proto m), pt_scope := int (rm_scope m), pt_route_type := route_type_of (rm_type m)\<rparr>))"

text \<open>What the messages say: the routes up to an error, and the first error.\<close>

fun kernel_answer :: "kernel_message list \<Rightarrow> parsed_route option \<Rightarrow> netlink_error + parsed_route option" where
  "kernel_answer [] best = Inr best"
| "kernel_answer (RouteReply meta ty m attrs # ms) best = kernel_answer ms (better_route best (Some (reply_route m attrs)))"
| "kernel_answer (ErrorReply meta n rest # ms) best = (if int32_of n \<noteq> 0 then Inl (netlink_failure (int32_of n)) else kernel_answer ms best)"
| "kernel_answer (OtherReply meta ty body # ms) best = kernel_answer ms best"

lemma rt_msg_read:
  assumes "rm_proto m < 256" "rm_scope m < 256" "rm_type m < 256"
  shows "uint_at 1 5 (rt_msg_bytes m @ y) = Some (rm_proto m)" "uint_at 1 6 (rt_msg_bytes m @ y) = Some (rm_scope m)"
    "uint_at 1 7 (rt_msg_bytes m @ y) = Some (rm_type m)" "length (rt_msg_bytes m) = 12"
  using assms by (simp_all add: rt_msg_bytes_def uint_at_def bytes_at_def le_value_def of_char_of take_bit_eq_mod)

lemma parseRtMsg_read:
  assumes "rm_proto m < 256" "rm_scope m < 256" "rm_type m < 256" "list_all attr_ok attrs"
  shows "parseRtMsg (rt_msg_bytes m @ concat (map attr_bytes attrs)) = Some (Some (reply_route m attrs))"
  using parse_attrs_read[OF assms(4), of "rt_msg_bytes m"] rt_msg_read[OF assms(1-3)]
  by (simp add: parseRtMsg_def reply_route_def)

lemma header_read:
  assumes "length meta = 10" "ty < 2 ^ 16" "16 + length body < 2 ^ 32"
  shows "uint_at 4 (length p) (p @ message_bytes meta ty body @ y) = Some (16 + length body)"
    "uint_at 2 (length p + 4) (p @ message_bytes meta ty body @ y) = Some ty"
    "bytes_at (length body) (length p + 16) (p @ message_bytes meta ty body @ y) = Some body"
proof -
  let ?n = "16 + length body"
  define z where "z = replicate (aligned ?n - ?n) (CHR 0x00) @ y"
  have l: "length (le_bytes 4 ?n @ le_bytes 2 ty @ meta @ body) = ?n" using assms(1) by simp
  have b: "message_bytes meta ty body @ y = le_bytes 4 ?n @ le_bytes 2 ty @ meta @ body @ z"
    unfolding message_bytes_def padded_def l z_def by simp
  show "uint_at 4 (length p) (p @ message_bytes meta ty body @ y) = Some ?n"
    using assms(3) unfolding uint_at_append0 b uint_at_front by simp
  show "uint_at 2 (length p + 4) (p @ message_bytes meta ty body @ y) = Some ty"
    using assms(2) unfolding b uint_at_append using uint_at_skip[of "le_bytes 4 ?n" 4 2 0] by (simp add: uint_at_front)
  show "bytes_at (length body) (length p + 16) (p @ message_bytes meta ty body @ y) = Some body"
    using bytes_at_skip[of "le_bytes 4 ?n @ le_bytes 2 ty @ meta" 16 "length body" 0 "body @ z"] assms(1)
    unfolding b bytes_at_append by (simp add: bytes_at_front)
qed

lemma length_message: "length meta = 10 \<Longrightarrow> length (message_bytes meta ty body) = aligned (16 + length body)"
  by (simp add: message_bytes_def add.assoc[symmetric])

lemma error_number_read:
  assumes "length meta = 10" "n < 2 ^ 32" "20 + length rest < 2 ^ 32"
  shows "uint_at 4 (length p + 16) (p @ message_bytes meta ty (le_bytes 4 n @ rest) @ y) = Some n"
proof -
  let ?b = "le_bytes 4 n @ rest"
  have b: "message_bytes meta ty ?b @ y = (le_bytes 4 (16 + length ?b) @ le_bytes 2 ty @ meta) @ le_bytes 4 n @ rest
      @ replicate (aligned (length (le_bytes 4 (16 + length ?b) @ le_bytes 2 ty @ meta @ ?b)) - length (le_bytes 4 (16 + length ?b) @ le_bytes 2 ty @ meta @ ?b)) (CHR 0x00) @ y"
    unfolding message_bytes_def padded_def by simp
  have "uint_at 4 (16 + 0) (message_bytes meta ty ?b @ y) = Some n"
    unfolding b by (subst uint_at_skip) (use assms in \<open>simp_all add: uint_at_front\<close>)
  then show ?thesis unfolding uint_at_append by simp
qed

text \<open>One round of the loop, at a message that is all there.\<close>

lemma scan_message:
  assumes "length meta = 10" "ty < 2 ^ 16" "16 + length body < 2 ^ 32"
  defines "buf p y \<equiv> p @ message_bytes meta ty body @ y" and "after p \<equiv> length (p @ message_bytes meta ty body)"
  shows "scan_messages (buf p y) (length p) best =
    (if ty = NLMSG_ERROR then
       if length p + 20 > length (buf p y) then Some (Inr best)
       else case uint_at 4 (length p + 16) (buf p y) of None \<Rightarrow> None | Some n \<Rightarrow>
         if int32_of n \<noteq> 0 then Some (Inl (netlink_failure (int32_of n))) else scan_messages (buf p y) (after p) best
     else if ty \<noteq> RTM_GETROUTE \<and> ty \<noteq> RTM_NEWROUTE then scan_messages (buf p y) (after p) best
     else case parseRtMsg body of None \<Rightarrow> None | Some r \<Rightarrow> scan_messages (buf p y) (after p) (better_route best r))"
proof -
  note h = header_read[OF assms(1-3), of p y, folded buf_def]
  have l: "length p + aligned (16 + length body) = after p" using length_message[OF assms(1), of ty body] by (simp add: after_def)
  have room: "length p + (16 + length body) \<le> length (buf p y)"
    using aligned_ge[of "16 + length body"] length_message[OF assms(1), of ty body] by (simp add: buf_def)
  then have c: "length p < length (buf p y)" "\<not> length p + 16 > length (buf p y)"
    "\<not> (16 + length body < 16 \<or> length p + (16 + length body) > length (buf p y))" "16 + length body - 16 = length body" by simp_all
  show ?thesis
    by (subst scan_messages.simps) (simp only: c h l if_True if_False option.case)
qed

lemma scan_read:
  assumes "list_all reply_ok ms"
  shows "scan_messages (p @ concat (map reply_bytes ms)) (length p) best = Some (kernel_answer ms best)"
  using assms
proof (induction ms arbitrary: p best)
  case Nil
  show ?case by (subst scan_messages.simps) simp
next
  case (Cons k ms)
  let ?y = "concat (map reply_bytes ms)"
  have rest: "scan_messages (p @ b @ ?y) (length (p @ b)) best' = Some (kernel_answer ms best')" for b best'
    using Cons.IH[of "p @ b" best'] Cons.prems by simp
  have goal: "scan_messages (p @ reply_bytes k @ ?y) (length p) best = Some (kernel_answer (k # ms) best)"
  proof (cases k)
    case (RouteReply meta ty m attrs)
    let ?body = "rt_msg_bytes m @ concat (map attr_bytes attrs)"
    have ok: "length meta = 10" "ty < 2 ^ 16" "16 + length ?body < 2 ^ 32" "ty = RTM_GETROUTE \<or> ty = RTM_NEWROUTE"
      "parseRtMsg ?body = Some (Some (reply_route m attrs))"
      using Cons.prems parseRtMsg_read[of m attrs] by (auto simp: RouteReply netlink_constants)
    have ne: "ty \<noteq> NLMSG_ERROR" "\<not> (ty \<noteq> RTM_GETROUTE \<and> ty \<noteq> RTM_NEWROUTE)" using ok(4) by (auto simp: netlink_constants)
    show ?thesis
      by (simp only: RouteReply reply_bytes.simps reply_body.simps scan_message[OF ok(1-3)] ne if_False ok(5) option.case rest kernel_answer.simps)
  next
    case (ErrorReply meta n extra)
    have ok: "length meta = 10" "NLMSG_ERROR < 2 ^ 16" "16 + length (le_bytes 4 n @ extra) < 2 ^ 32" "n < 2 ^ 32" "20 + length extra < 2 ^ 32"
      using Cons.prems by (auto simp: ErrorReply netlink_constants)
    let ?b = "message_bytes meta NLMSG_ERROR (le_bytes 4 n @ extra)"
    have r: "\<not> length p + 20 > length (p @ ?b @ ?y)"
      using aligned_ge[of "16 + length (le_bytes 4 n @ extra)"] length_message[OF ok(1), of NLMSG_ERROR "le_bytes 4 n @ extra"] by simp
    show ?thesis
      by (simp only: ErrorReply reply_bytes.simps reply_body.simps scan_message[OF ok(1-3)] error_number_read[OF ok(1,4,5)] r if_True if_False
          option.case rest kernel_answer.simps simp_thms if_distrib[of Some] cong: if_cong)
  next
    case (OtherReply meta ty body)
    have ok: "length meta = 10" "ty < 2 ^ 16" "16 + length body < 2 ^ 32" and ne: "ty \<noteq> NLMSG_ERROR" "ty \<noteq> RTM_GETROUTE" "ty \<noteq> RTM_NEWROUTE"
      using Cons.prems by (auto simp: OtherReply)
    show ?thesis
      by (simp only: OtherReply reply_bytes.simps reply_body.simps scan_message[OF ok] ne simp_thms if_True if_False not_False_eq_True rest kernel_answer.simps)
  qed
  then show ?case by simp
qed

subsection \<open>The choice\<close>

fun reply_failure :: "kernel_message \<Rightarrow> netlink_error option" where
  "reply_failure (ErrorReply meta n rest) = (if int32_of n \<noteq> 0 then Some (netlink_failure (int32_of n)) else None)"
| "reply_failure k = None"

fun reply_routes :: "kernel_message \<Rightarrow> parsed_route list" where
  "reply_routes (RouteReply meta ty m attrs) = [reply_route m attrs]"
| "reply_routes k = []"

fun routes_of :: "kernel_message list \<Rightarrow> parsed_route list" where
  "routes_of [] = []"
| "routes_of (k # ms) = reply_routes k @ routes_of ms"

definition chosen_route :: "parsed_route list \<Rightarrow> parsed_route option" where
  "chosen_route rs = (if rs = [] then None else Some (arg_min_list pt_preference rs))"

lemma better_fold: "foldl (\<lambda>b r. better_route b (Some r)) (Some b) rs = Some (arg_min_list pt_preference (b # rs))"
proof (induction rs arbitrary: b)
  case (Cons r rs)
  have "arg_min_list pt_preference (b # r # rs) = arg_min_list pt_preference ((if pt_preference r < pt_preference b then r else b) # rs)"
    by (cases rs) (auto simp: Let_def not_less split: if_splits)
  then show ?case using Cons by (simp add: better_route_def)
qed simp

lemma better_chosen: "foldl (\<lambda>b r. better_route b (Some r)) None rs = chosen_route rs"
proof (cases rs)
  case (Cons r rs')
  have "better_route None (Some r) = Some r" by (simp add: better_route_def)
  then show ?thesis by (simp add: Cons better_fold chosen_route_def)
qed (simp add: chosen_route_def)

lemma answer_fold:
  "kernel_answer ms best = (case find (\<lambda>k. reply_failure k \<noteq> None) ms of
     Some k \<Rightarrow> Inl (the (reply_failure k))
   | None \<Rightarrow> Inr (foldl (\<lambda>b r. better_route b (Some r)) best (routes_of ms)))"
  by (induction ms best rule: kernel_answer.induct) (simp_all cong: option.case_cong)

text \<open>What the code makes of an answer: the first error if there is one, no route if there is none, the chosen route otherwise.\<close>

definition answer_result :: "interface_names \<Rightarrow> kernel_message list \<Rightarrow> netlink_route_result \<Rightarrow> netlink_route_result" where
  "answer_result names ms result =
     (case find (\<lambda>k. reply_failure k \<noteq> None) ms of
        Some k \<Rightarrow> result\<lparr>nr_error := reply_failure k\<rparr>
      | None \<Rightarrow> (case chosen_route (routes_of ms) of
          None \<Rightarrow> result\<lparr>nr_error := Some ErrNetlinkNoRoute\<rparr>
        | Some r \<Rightarrow> copy_best names r result))"

lemma answer_read:
  assumes "list_all reply_ok ms"
  shows "parseRouteResponse names (concat (map reply_bytes ms)) result = Some (answer_result names ms result)"
proof -
  have "the (reply_failure k) = e \<longleftrightarrow> reply_failure k = Some e" if "find (\<lambda>k. reply_failure k \<noteq> None) ms = Some k" for k e
    using that by (auto simp: find_Some_iff)
  then show ?thesis
    using scan_read[OF assms, of "[]" None]
    by (auto simp: parseRouteResponse_def answer_fold answer_result_def better_chosen split: option.split dest!: find_Some_iff[THEN iffD1])
qed

subsection \<open>The request\<close>

lemma copy_at_middle: "length x = off \<Longrightarrow> length y = length bs \<Longrightarrow> copy_at off bs (x @ y @ z) = x @ bs @ z"
  by (simp add: copy_at_def Let_def)

definition request_header :: "string \<Rightarrow> string" where
  "request_header dst = rt_msg_bytes \<lparr>rm_family = (if length dst = 4 then AF_INET else AF_INET6), rm_dst_len = 8 * length dst, rm_src_len = 0,
     rm_tos = 0, rm_table = RT_TABLE_MAIN, rm_proto = 0, rm_scope = 0, rm_type = 1, rm_flags = 0\<rparr>"

lemma length_rt_msg: "length (rt_msg_bytes m) = 12"
  by (simp add: rt_msg_bytes_def)

text \<open>The request is a message of the protocol: one question about one address.\<close>

lemma request_is_message:
  assumes "parse_ip target = Some ip" "length ip = 16"
    and dst: "dst = (case To4 ip of Some ip4 \<Rightarrow> ip4 | None \<Rightarrow> ip)"
  shows "buildRouteRequest parse_ip (if To4 ip \<noteq> None then AF_INET else AF_INET6) target =
    message_bytes (le_bytes 2 NLM_F_REQUEST @ le_bytes 4 1 @ le_bytes 4 0) RTM_GETROUTE (request_header dst @ attr_bytes (1, dst))"
proof -
  let ?family = "if To4 ip \<noteq> None then AF_INET else AF_INET6"
  let ?m = "\<lparr>rm_family = ?family, rm_dst_len = addrLen ?family, rm_src_len = 0, rm_tos = 0, rm_table = RT_TABLE_MAIN, rm_proto = 0, rm_scope = 0,
    rm_type = 1, rm_flags = 0\<rparr>"
  let ?n = "4 + length dst" and ?pad = "\<lambda>k. replicate k (CHR 0x00)"
  have d: "length dst = 4 \<and> To4 ip \<noteq> None \<or> length dst = 16 \<and> To4 ip = None" using assms by (auto simp: To4_def split: if_splits)
  have m: "rt_msg_bytes ?m = request_header dst" using d by (auto simp: request_header_def addrLen_def AF_INET_def AF_INET6_def)
  have n: "aligned ?n = ?n" "aligned (16 + 12) = 28" "aligned 16 = 16" "28 + 4 = (32 :: nat)" using d by (auto simp: aligned_eq)
  let ?h = "le_bytes 4 (28 + ?n) @ le_bytes 2 RTM_GETROUTE @ le_bytes 2 NLM_F_REQUEST @ le_bytes 4 1 @ le_bytes 4 0"
  let ?a = "le_bytes 2 ?n @ le_bytes 2 1"
  have h: "length (request_header dst) = 12" unfolding request_header_def by (rule length_rt_msg)
  have total: "?pad (28 + ?n) = ?pad 16 @ ?pad 12 @ ?pad 4 @ ?pad (length dst)" by (simp add: replicate_add[symmetric])
  have "buildRouteRequest parse_ip ?family target =
      copy_at 32 dst (copy_at 28 ?a (copy_at 16 (rt_msg_bytes ?m) (copy_at 0 ?h (?pad (28 + ?n)))))"
    unfolding buildRouteRequest_def Let_def assms(1) option.case dst[symmetric] n by (rule refl)
  also have "\<dots> = copy_at 32 dst (copy_at 28 ?a (copy_at 16 (request_header dst) (copy_at 0 ?h (?pad (28 + ?n)))))"
    unfolding m by (rule refl)
  also have "copy_at 0 ?h (?pad (28 + ?n)) = ?h @ ?pad 12 @ ?pad 4 @ ?pad (length dst)"
    unfolding total using copy_at_middle[of "[]" 0 "?pad 16" ?h] by simp
  also have "copy_at 16 (request_header dst) \<dots> = ?h @ request_header dst @ ?pad 4 @ ?pad (length dst)"
    by (rule copy_at_middle) (simp_all add: h)
  also have "\<dots> = (?h @ request_header dst) @ ?pad 4 @ ?pad (length dst)" by simp
  also have "copy_at 28 ?a \<dots> = (?h @ request_header dst) @ ?a @ ?pad (length dst)"
    by (rule copy_at_middle) (simp_all add: h)
  also have "\<dots> = (?h @ request_header dst @ ?a) @ ?pad (length dst) @ []" by simp
  also have "copy_at 32 dst \<dots> = (?h @ request_header dst @ ?a) @ dst @ []"
    by (rule copy_at_middle) (simp_all add: h)
  also have "\<dots> = message_bytes (le_bytes 2 NLM_F_REQUEST @ le_bytes 4 1 @ le_bytes 4 0) RTM_GETROUTE (request_header dst @ attr_bytes (1, dst))"
  proof -
    have len: "length (le_bytes 2 ?n @ le_bytes 2 1 @ dst) = ?n" by simp
    have attr: "attr_bytes (1, dst) = ?a @ dst" unfolding attr_bytes_def padded_def fst_conv snd_conv len n(1) by simp
    have l: "16 + length (request_header dst @ ?a @ dst) = 28 + ?n" by (simp add: h)
    have al: "aligned (28 + ?n) = 28 + ?n" using d by (auto simp: aligned_eq)
    show ?thesis unfolding message_bytes_def attr l by (simp add: padded_def h al[simplified])
  qed
  finally show ?thesis .
qed

end
