(* ===== verification/Route_Lookup_Facts.thy ===== *)
theory Route_Lookup_Facts
  imports Route_Lookup Route_Netlink_Codec
begin

section \<open>What a collected route says\<close>

text \<open>
  Evidence about a route never carries an address, and says either what the route is or why it is not known. A line of
  \<open>ip route get\<close> is read field by field, whatever white space is between the fields.
\<close>

subsection \<open>Words and white space\<close>

lemma blank_space: "list_all (\<lambda>c. [c] \<in> set white_spaces) [CHR 0x09, CHR 0x0A, CHR 0x0C, CHR 0x0D, CHR '' '']"
  by code_simp

lemma short_space: "list_all (\<lambda>w. (of_char (last w) :: nat) < 128 \<longrightarrow> w = [last w]) white_spaces"
  by code_simp

lemma blank_no_word: "is_blank c \<Longrightarrow> \<not> is_word c"
  by (auto simp: is_blank_def is_word_def is_digit_def)

lemma blank_ascii: "is_blank c \<Longrightarrow> (of_char c :: nat) < 128"
  by (auto simp: is_blank_def)

lemma blank_at_end: "is_blank c \<Longrightarrow> find (\<lambda>p. prefix p (c # s)) (map rev white_spaces) = Some [c]"
proof (cases "find (\<lambda>p. prefix p (c # s)) (map rev white_spaces)")
  case None
  assume c: "is_blank c"
  have "[c] \<in> set white_spaces" using blank_space c unfolding is_blank_def list_all_iff by blast
  then have "rev [c] \<in> set (map rev white_spaces)" unfolding set_map by (rule imageI)
  then have "\<not> prefix (rev [c]) (c # s)" using None unfolding find_None_iff by blast
  then show ?thesis by simp
next
  case (Some p)
  assume c: "is_blank c"
  obtain w where w: "w \<in> set white_spaces" "p = rev w" "prefix p (c # s)" using Some by (fastforce simp: find_Some_iff in_set_conv_nth)
  have "w \<noteq> []" using w(1) white_space_heads by auto
  then have "last w = c" using w(2,3) by (cases w rule: rev_cases) auto
  then have "w = [c]" using w(1) short_space blank_ascii[OF c] unfolding list_all_iff by metis
  then show ?thesis using Some w(2) by simp
qed

lemma trim_blanks: "list_all is_blank t \<Longrightarrow> ink c \<Longrightarrow> length t \<le> n \<Longrightarrow> trim_prefixes n (map rev white_spaces) (t @ c # s) = c # s"
proof (induction t arbitrary: n)
  case Nil
  then show ?case by (simp add: no_space_prefix ink_def)
next
  case (Cons d t)
  then obtain m where "n = Suc m" by (cases n) auto
  then show ?case using Cons by (simp add: blank_at_end)
qed

lemma TrimSpace_blank_end:
  assumes "s \<noteq> []" "ink (hd s)" "ink (last s)" "list_all is_blank t"
  shows "TrimSpace (s @ t) = s"
proof -
  obtain c r where s: "s = c # r" using assms(1) by (cases s) auto
  have l: "TrimLeft (s @ t) = s @ t" using assms(2) unfolding s by (simp add: TrimLeft_id ink_def)
  obtain d q where q: "rev s = d # q" "d = last s" using assms(1) by (metis hd_rev list.collapse rev_is_Nil_conv)
  have "trim_prefixes (length (s @ t)) (map rev white_spaces) (rev t @ rev s) = rev s"
    unfolding q(1) using assms(3,4) q(2) by (intro trim_blanks) simp_all
  then show ?thesis by (simp add: TrimSpace_def l)
qed

lemma ink_not_blank: "ink c \<Longrightarrow> \<not> is_blank c"
  by (auto simp: ink_def is_blank_def)

text \<open>Words, each followed by white space; the last one may be followed by none.\<close>

fun spread :: "(string \<times> string) list \<Rightarrow> string" where
  "spread [] = []"
| "spread ((w, gap) # ws) = w @ gap @ spread ws"

definition spread_ok :: "(string \<times> string) list \<Rightarrow> bool" where
  "spread_ok ws \<longleftrightarrow> ws \<noteq> [] \<and> list_all (\<lambda>(w, gap). ink_word w \<and> list_all is_blank gap) ws \<and> list_all (\<lambda>(w, gap). gap \<noteq> []) (butlast ws)"

lemma normalize_word: "list_all ink w \<Longrightarrow> normalizeSpaces (w @ s) = w @ normalizeSpaces s"
  by (induction w) (simp_all add: ink_not_blank)

lemma normalize_gap: "list_all is_blank g \<Longrightarrow> g \<noteq> [] \<Longrightarrow> s \<noteq> [] \<Longrightarrow> \<not> is_blank (hd s) \<Longrightarrow> normalizeSpaces (g @ s) = CHR '' '' # normalizeSpaces s"
proof -
  assume g: "list_all is_blank g" "g \<noteq> []" and s: "s \<noteq> []" "\<not> is_blank (hd s)"
  obtain c h where ch: "g = c # h" using g(2) by (cases g) auto
  have "dropWhile is_blank (h @ s) = s" using g(1) s unfolding ch by (cases s) (simp_all add: dropWhile_append2 list_all_iff)
  then show ?thesis using g(1) by (simp add: ch)
qed

lemma spread_last:
  assumes "spread_ok ws"
  shows "\<exists>s t. spread ws = s @ t \<and> list_all is_blank t \<and> s \<noteq> [] \<and> ink (hd s) \<and> ink (last s) \<and> normalizeSpaces s = join_with '' '' (map fst ws)"
  using assms
proof (induction ws)
  case (Cons a ws)
  obtain w g where a: "a = (w, g)" by (cases a)
  have w: "w \<noteq> []" "list_all ink w" and g: "list_all is_blank g" using Cons.prems by (simp_all add: a spread_ok_def ink_word_def)
  have h: "ink (hd w)" "ink (last w)" using w by (simp_all add: list_all_iff)
  show ?case
  proof (cases "ws = []")
    case True
    have "normalizeSpaces w = w" using normalize_word[OF w(2), of "[]"] by simp
    then show ?thesis using True w g h by (intro exI[of _ w] exI[of _ g]) (simp add: a)
  next
    case False
    have ok: "spread_ok ws" and gap: "g \<noteq> []" using Cons.prems False by (auto simp: a spread_ok_def list_all_iff)
    obtain s t where s: "spread ws = s @ t" "list_all is_blank t" "s \<noteq> []" "ink (hd s)" "ink (last s)" "normalizeSpaces s = join_with '' '' (map fst ws)"
      using Cons.IH[OF ok] by blast
    have "normalizeSpaces (w @ g @ s) = w @ '' '' @ join_with '' '' (map fst ws)"
      using normalize_gap[OF g gap s(3)] s(4,6) by (simp add: normalize_word[OF w(2)] ink_not_blank)
    then have "normalizeSpaces (w @ g @ s) = join_with '' '' (map fst (a # ws))" using False by (simp add: a join_with_Cons)
    then show ?thesis using s w h False by (intro exI[of _ "w @ g @ s"] exI[of _ t]) (simp add: a)
  qed
qed (simp add: spread_ok_def)

lemma spread_normal: "spread_ok ws \<Longrightarrow> normalizeSpaces (TrimSpace (spread ws)) = join_with '' '' (map fst ws) \<and> TrimSpace (spread ws) \<noteq> []"
  using spread_last[of ws] TrimSpace_blank_end by metis

subsection \<open>Finding a field\<close>

lemma find_word_in_word:
  assumes "list_all (\<lambda>c. \<not> is_blank c) w" "list_all (\<lambda>c. \<not> is_blank c) key" "key \<noteq> []" "w \<noteq> key" "\<not> suffix key w"
  shows "find_word ok key pw (w @ s) = (if w = [] then find_word ok key pw s else find_word ok key (is_word (last w)) s) \<or> s \<noteq> [] \<and> \<not> is_blank (hd s)"
  using assms
proof (induction w arbitrary: pw)
  case (Cons c w)
  have miss: "after_blank ok (drop (length key) (c # w @ s)) = None" if p: "prefix key (c # w @ s)" and s: "s = [] \<or> is_blank (hd s)"
  proof -
    have "length key < length (c # w) \<or> length key = length (c # w) \<or> length (c # w) < length key" by linarith
    then show ?thesis
    proof (elim disjE)
      assume "length key < length (c # w)"
      then have "drop (length key) (c # w @ s) = drop (length key) (c # w) @ s" "drop (length key) (c # w) \<noteq> []"
        using drop_append[of "length key" "c # w" s] by simp_all
      moreover have "list_all (\<lambda>c. \<not> is_blank c) (drop (length key) (c # w))" using Cons.prems(1) set_drop_subset[of "length key" "c # w"] unfolding list_all_iff by blast
      ultimately show ?thesis unfolding after_blank_def by (cases "drop (length key) (c # w)") auto
    next
      assume l: "length key = length (c # w)"
      then have "key = c # w" using p by (metis append_Cons append_eq_append_conv prefix_def)
      then show ?thesis using Cons.prems(4) by simp
    next
      assume l: "length (c # w) < length key"
      obtain z where z: "key @ z = (c # w) @ s" using p by (auto simp: prefix_def)
      define y where "y = drop (length (c # w)) key"
      have "take (length (c # w)) (key @ z) = c # w" "drop (length (c # w)) (key @ z) = s" unfolding z by simp_all
      then have "take (length (c # w)) key = c # w" "y @ z = s" using l by (simp_all add: y_def)
      then have y: "key = (c # w) @ y" "y \<noteq> []" "y @ z = s" using l append_take_drop_id[of "length (c # w)" key] by (auto simp: y_def)
      then have "is_blank (hd y)" using s by (cases y) auto
      then show ?thesis using y(1,2) Cons.prems(2) by (cases y) auto
    qed
  qed
  have "\<not> suffix key w" using Cons.prems(5) by (simp add: suffix_Cons)
  moreover have "w \<noteq> key" using Cons.prems(5) by (auto simp: suffix_Cons)
  ultimately have "find_word ok key (is_word c) (w @ s) = (if w = [] then find_word ok key (is_word c) s else find_word ok key (is_word (last w)) s)
      \<or> s \<noteq> [] \<and> \<not> is_blank (hd s)"
    using Cons.IH[of "is_word c"] Cons.prems by simp
  then show ?case using miss by (cases "s = [] \<or> is_blank (hd s)") auto
qed simp

definition key_word :: "string \<Rightarrow> bool" where
  "key_word key \<longleftrightarrow> key \<noteq> [] \<and> list_all is_word key"

lemma word_not_blank: "list_all is_word w \<Longrightarrow> list_all (\<lambda>c. \<not> is_blank c) w"
  using blank_no_word by (auto simp: list_all_iff)

lemma ink_word_not_blank: "ink_word w \<Longrightarrow> list_all (\<lambda>c. \<not> is_blank c) w"
  using ink_not_blank by (auto simp: list_all_iff ink_word_def)

text \<open>The text after the first of the words that is the key, as far as it is of the kind that is looked for.\<close>

fun next_field :: "(char \<Rightarrow> bool) \<Rightarrow> string \<Rightarrow> string list \<Rightarrow> string option" where
  "next_field ok key (w # v # ws) = (if w = key \<and> takeWhile ok v \<noteq> [] then Some (takeWhile ok v) else next_field ok key (v # ws))"
| "next_field ok key ws = None"

lemma find_word_other:
  assumes "ink_word w" "key_word key" "\<not> suffix key w"
  shows "find_word ok key False (w @ CHR '' '' # s) = find_word ok key False s" "find_word ok key False w = None"
proof -
  have k: "list_all (\<lambda>c. \<not> is_blank c) key" "key \<noteq> []" "w \<noteq> key" using assms(2,3) by (auto simp: key_word_def word_not_blank)
  note f = find_word_in_word[OF ink_word_not_blank[OF assms(1)] k assms(3), of ok False]
  have b: "is_blank CHR '' ''" "\<not> is_word CHR '' ''" using blank_no_word by (simp_all add: is_blank_def)
  have np: "\<not> prefix key (CHR '' '' # s)" for s using k b by (cases key) auto
  have w: "w \<noteq> []" using assms(1) by (simp add: ink_word_def)
  show "find_word ok key False (w @ CHR '' '' # s) = find_word ok key False s" using f[of "CHR '' '' # s"] w b np by simp
  show "find_word ok key False w = None" using f[of "[]"] w by simp
qed

lemma takeWhile_field:
  assumes "list_all (\<lambda>c. \<not> is_blank c) v" "\<And>c. ok c \<Longrightarrow> \<not> is_blank c"
  shows "takeWhile ok (v @ CHR '' '' # s) = takeWhile ok v"
proof -
  have "\<not> ok CHR '' ''" using assms(2)[of "CHR '' ''"] by (auto simp: is_blank_def)
  then show ?thesis by (induction v) simp_all
qed

lemma find_word_key:
  assumes "key_word key" "v \<noteq> []" "list_all (\<lambda>c. \<not> is_blank c) v" "\<And>c. ok c \<Longrightarrow> \<not> is_blank c" "s = [] \<or> hd s = CHR '' ''"
  shows "find_word ok key False (key @ CHR '' '' # v @ s) =
    (if takeWhile ok v \<noteq> [] then Some (takeWhile ok v) else find_word ok key False (v @ s))"
proof -
  obtain c k where k: "key = c # k" using assms(1) by (cases key) (auto simp: key_word_def)
  have d: "dropWhile is_blank (v @ s) = v @ s" using assms(2,3) by (cases v) auto
  have t: "takeWhile ok (v @ s) = takeWhile ok v" using assms(5) takeWhile_field[OF assms(3,4)] by (cases s) auto
  have a: "after_blank ok (CHR '' '' # v @ s) = (if takeWhile ok v \<noteq> [] then Some (takeWhile ok v) else None)"
    using d t by (simp add: after_blank_def is_blank_def)
  have "find_word ok key True (k @ CHR '' '' # v @ s) = find_word ok key False (v @ s)"
  proof -
    have skip: "find_word ok key True (u @ CHR '' '' # z) = find_word ok key False z" if "list_all is_word u" for u z
      using that
    proof (induction u)
      case Nil
      have "\<not> is_word CHR '' ''" using blank_no_word by (simp add: is_blank_def)
      moreover have "find_word ok key pw (CHR '' '' # z) = find_word ok key False z" for pw
        using calculation assms(1) k by (auto simp: key_word_def)
      ultimately show ?case by simp
    next
      case (Cons d u)
      then show ?case by simp
    qed
    show ?thesis using assms(1) k by (intro skip) (simp add: key_word_def)
  qed
  then show ?thesis using a assms(1) by (simp add: k key_word_def)
qed

lemma find_in_words:
  assumes "key_word key" "list_all (\<lambda>w. ink_word w \<and> (w = key \<or> \<not> suffix key w)) ws" "\<And>c. ok c \<Longrightarrow> \<not> is_blank c"
  shows "find_word ok key False (join_with '' '' ws) = next_field ok key ws"
  using assms(2)
proof (induction ws rule: induct_list012)
  case (2 w)
  show ?case
  proof (cases "w = key")
    case True
    have "find_word ok key False (key @ []) = None" if "list_all is_word key" "key \<noteq> []"
    proof -
      have "find_word ok k2 pw k = None" if "length k \<le> length k2" "k2 \<noteq> []" for k k2 pw
        using that
      proof (induction k arbitrary: pw)
        case (Cons c k)
        have "after_blank ok (drop (length k2) (c # k)) = None" using Cons.prems by (simp add: after_blank_def)
        then show ?case using Cons by simp
      qed simp
      then show ?thesis using that by simp
    qed
    then show ?thesis using True assms(1) by (simp add: key_word_def)
  next
    case False
    then show ?thesis using find_word_other(2)[OF _ assms(1), of w] 2 by simp
  qed
next
  case (3 w v ws)
  have v: "v \<noteq> []" "list_all (\<lambda>c. \<not> is_blank c) v" using 3(3) ink_word_not_blank by (auto simp: ink_word_def)
  obtain s where s: "join_with '' '' (v # ws) = v @ s" "s = [] \<or> hd s = CHR '' ''" by (cases ws) (auto simp: join_with_Cons)
  have rest: "find_word ok key False (v @ s) = next_field ok key (v # ws)" using 3(2,3) unfolding s(1) by simp
  have j: "join_with '' '' (w # v # ws) = w @ CHR '' '' # v @ s" using s(1) by simp
  show ?case
  proof (cases "w = key")
    case True
    then show ?thesis using find_word_key[OF assms(1) v assms(3) s(2)] rest unfolding j by simp
  next
    case False
    then show ?thesis using find_word_other(1)[OF _ assms(1), of w ok "v @ s"] 3(3) rest unfolding j by simp
  qed
qed simp

subsection \<open>Numbers\<close>

lemma wrap64_mod: "wrap64 a mod 2 ^ 64 = a mod 2 ^ 64"
  unfolding wrap64_def using mod_diff_left_eq[of "a + 2 ^ 63" "2 ^ 64" "2 ^ 63"] by simp

lemma wrap64_cong: "a mod 2 ^ 64 = b mod 2 ^ 64 \<Longrightarrow> wrap64 a = wrap64 b"
  unfolding wrap64_def using mod_add_cong[of a "2 ^ 64" b "2 ^ 63" "2 ^ 63"] by simp

lemma wrap64_step: "wrap64 (wrap64 (wrap64 a * 10) + d) = wrap64 (a * 10 + d)"
proof (rule wrap64_cong)
  have "wrap64 (wrap64 a * 10) mod 2 ^ 64 = (a * 10) mod 2 ^ 64"
    unfolding wrap64_mod using mod_mult_cong[OF wrap64_mod[of a] refl, of 10] .
  then show "(wrap64 (wrap64 a * 10) + d) mod 2 ^ 64 = (a * 10 + d) mod 2 ^ 64" by (rule mod_add_cong) (rule refl)
qed

lemma parse_digits_snoc:
  "list_all is_digit (s @ [c]) \<Longrightarrow> parse_digits a (s @ [c]) = wrap64 (wrap64 (parse_digits a s * 10) + (of_char c - 48))"
  by (induction s arbitrary: a) simp_all

text \<open>A number without a bound is read modulo \<open>2 ^ 64\<close>.\<close>

lemma route_parseInt_wraps: "list_all is_digit s \<Longrightarrow> route_parseInt s = wrap64 (int (digits_value s))"
proof (induction s rule: rev_induct)
  case Nil
  show ?case by (simp add: route_parseInt_def digits_value_def wrap64_def)
next
  case (snoc c s)
  have c: "48 \<le> (of_char c :: nat)" using snoc.prems by (simp add: digit_iff)
  have "int (digits_value (s @ [c])) = int (digits_value s) * 10 + (of_char c - 48)"
    using c by (simp add: digits_value_snoc of_nat_diff of_nat_of_char)
  then show ?case
    using snoc parse_digits_snoc[OF snoc.prems, of 0] by (simp add: route_parseInt_def wrap64_step)
qed

lemma route_parseInt_show: "n < 2 ^ 63 \<Longrightarrow> route_parseInt (show_nat n) = int n"
  using route_parseInt_wraps[of "show_nat n"] show_nat_digits[of n] by (simp add: digit_string_is_digit digits_value_show wrap64_id in_int64_def)

subsection \<open>A line of \<open>ip route get\<close>\<close>

definition route_keys :: "string list" where
  "route_keys = [''via'', ''dev'', ''table'', ''src'', ''uid'', ''mtu'']"

text \<open>A value in which no name of a field ends.\<close>

definition route_value :: "string \<Rightarrow> bool" where
  "route_value v \<longleftrightarrow> ink_word v \<and> list_all (\<lambda>key. \<not> suffix key v) route_keys"

fun kv :: "string \<Rightarrow> string option \<Rightarrow> string list" where
  "kv key None = []"
| "kv key (Some v) = [key, v]"

definition route_special :: "string list" where
  "route_special = [''unreachable'', ''local'', ''broadcast'', ''multicast'', ''throw'', ''blackhole'', ''prohibit'']"

lemma digits_value_ok: "route_value (show_nat n)" "takeWhile is_digit (show_nat n) = show_nat n"
proof -
  have d: "list_all is_digit (show_nat n)" using show_nat_digits[of n] by (simp add: digit_string_is_digit)
  have ink: "is_digit c \<Longrightarrow> ink c" for c by (simp add: digit_iff ink_def)
  have "\<not> suffix key (show_nat n)" if "key \<in> set route_keys" for key
  proof
    assume s: "suffix key (show_nat n)"
    have "key \<noteq> []" "\<not> is_digit (hd key)" using that by (auto simp: route_keys_def is_digit_def)
    moreover have "set key \<subseteq> set (show_nat n)" using s by (auto simp: suffix_def)
    ultimately show False using d hd_in_set[of key] unfolding list_all_iff by blast
  qed
  then show "route_value (show_nat n)" using d ink show_nat_nonempty[of n] by (auto simp: route_value_def ink_word_def list_all_iff)
  show "takeWhile is_digit (show_nat n) = show_nat n" using d by (simp add: takeWhile_eq_all_conv list_all_iff)
qed

lemma route_keys_words: "list_all (\<lambda>key. key_word key \<and> ink_word key) route_keys"
  by (simp add: route_keys_def key_word_def ink_word_def is_word_def is_digit_def ink_def)

lemma route_keys_apart: "list_all (\<lambda>key. list_all (\<lambda>k. k = key \<or> \<not> suffix key k) route_keys) route_keys"
  by (simp add: route_keys_def suffix_Cons)

lemma next_field_skip:
  "w \<noteq> key \<Longrightarrow> next_field ok key (w # ws) = next_field ok key ws"
  by (cases ws) simp_all

lemma next_field_kv:
  assumes "\<forall>v. x = Some v \<longrightarrow> v \<noteq> key"
  shows "k \<noteq> key \<Longrightarrow> next_field ok key (kv k x @ ws) = next_field ok key ws"
    and "\<forall>v. x = Some v \<longrightarrow> takeWhile ok v = v \<and> v \<noteq> [] \<Longrightarrow>
      next_field ok key (kv key x @ ws) = (case x of Some v \<Rightarrow> Some v | None \<Rightarrow> next_field ok key ws)"
proof -
  show "next_field ok key (kv k x @ ws) = next_field ok key ws" if k: "k \<noteq> key"
  proof (cases x)
    case (Some v)
    have "next_field ok key (k # v # ws) = next_field ok key (v # ws)" using k by (rule next_field_skip)
    also have "\<dots> = next_field ok key ws" using assms Some by (intro next_field_skip) simp
    finally show ?thesis using Some by simp
  qed simp
  show "next_field ok key (kv key x @ ws) = (case x of Some v \<Rightarrow> Some v | None \<Rightarrow> next_field ok key ws)"
    if t: "\<forall>v. x = Some v \<longrightarrow> takeWhile ok v = v \<and> v \<noteq> []"
  proof (cases x)
    case (Some v)
    then have "takeWhile ok v = v" "v \<noteq> []" using t by auto
    then show ?thesis unfolding Some kv.simps append.simps next_field.simps option.case by (simp only: simp_thms if_True)
  qed simp
qed

text \<open>The values of a line: the target and what the line says of it.\<close>

record route_line =
  li_target :: string
  li_via :: "string option"
  li_dev :: string
  li_table :: "string option"
  li_src :: "string option"
  li_uid :: "nat option"
  li_mtu :: "nat option"

definition line_words :: "route_line \<Rightarrow> string list" where
  "line_words l = [li_target l] @ kv ''via'' (li_via l) @ kv ''dev'' (Some (li_dev l)) @ kv ''table'' (li_table l) @ kv ''src'' (li_src l)
     @ kv ''uid'' (map_option show_nat (li_uid l)) @ kv ''mtu'' (map_option show_nat (li_mtu l)) @ []"

definition line_values :: "route_line \<Rightarrow> string list" where
  "line_values l = li_target l # li_dev l # List.map_filter id [li_via l, li_table l, li_src l]"

definition route_line_ok :: "route_line \<Rightarrow> bool" where
  "route_line_ok l \<longleftrightarrow> list_all route_value (line_values l) \<and> map lower_char (li_target l) \<notin> set route_special
     \<and> (\<forall>n. li_uid l = Some n \<longrightarrow> n < 2 ^ 63) \<and> (\<forall>n. li_mtu l = Some n \<longrightarrow> n < 2 ^ 63)"

definition line_result :: "route_line \<Rightarrow> parse_result" where
  "line_result l = \<lparr>ps_route_type = ''unicast'', ps_interface = li_dev l, ps_source_ip = or_empty (li_src l), ps_gateway = or_empty (li_via l),
     ps_table = or_empty (li_table l), ps_mtu = map_option int (li_mtu l),
     ps_uid = (if li_uid l = Some 0 then None else map_option int (li_uid l))\<rparr>"

lemma kv_words: "(\<forall>v. x = Some v \<longrightarrow> P v) \<Longrightarrow> P k \<Longrightarrow> list_all P (kv k x)"
  by (cases x) simp_all

lemma line_word_ok:
  assumes "route_line_ok l" "key \<in> set route_keys"
  shows "list_all (\<lambda>w. ink_word w \<and> (w = key \<or> \<not> suffix key w)) (line_words l)"
proof -
  have v: "ink_word v \<and> (v = key \<or> \<not> suffix key v)" if "route_value v" for v using that assms(2) by (auto simp: route_value_def list_all_iff)
  have k: "ink_word k \<and> (k = key \<or> \<not> suffix key k)" if "k \<in> set route_keys" for k
    using that assms(2) route_keys_words route_keys_apart unfolding list_all_iff by metis
  have vals: "route_value (li_target l)" "route_value (li_dev l)" "\<forall>v. li_via l = Some v \<longrightarrow> route_value v"
    "\<forall>v. li_table l = Some v \<longrightarrow> route_value v" "\<forall>v. li_src l = Some v \<longrightarrow> route_value v"
    using assms(1) by (auto simp: route_line_ok_def line_values_def map_filter_simps split: option.splits)
  have n: "ink_word (show_nat n) \<and> (show_nat n = key \<or> \<not> suffix key (show_nat n))" for n using v digits_value_ok(1) by blast
  have m: "\<forall>w. map_option show_nat x = Some w \<longrightarrow> ink_word w \<and> (w = key \<or> \<not> suffix key w)" for x using n by auto
  have o: "\<forall>w. x = Some w \<longrightarrow> ink_word w \<and> (w = key \<or> \<not> suffix key w)" if "\<forall>w. x = Some w \<longrightarrow> route_value w" for x using v that by blast
  have ks: "''via'' \<in> set route_keys" "''dev'' \<in> set route_keys" "''table'' \<in> set route_keys" "''src'' \<in> set route_keys"
    "''uid'' \<in> set route_keys" "''mtu'' \<in> set route_keys" by (simp_all add: route_keys_def)
  show ?thesis unfolding line_words_def list_all_append
    using kv_words[where P = "\<lambda>w. ink_word w \<and> (w = key \<or> \<not> suffix key w)", OF o[OF vals(3)] k[OF ks(1)]]
      kv_words[where P = "\<lambda>w. ink_word w \<and> (w = key \<or> \<not> suffix key w)", OF o[OF vals(4)] k[OF ks(3)]]
      kv_words[where P = "\<lambda>w. ink_word w \<and> (w = key \<or> \<not> suffix key w)", OF o[OF vals(5)] k[OF ks(4)]]
      kv_words[where P = "\<lambda>w. ink_word w \<and> (w = key \<or> \<not> suffix key w)", OF m k[OF ks(5)]]
      kv_words[where P = "\<lambda>w. ink_word w \<and> (w = key \<or> \<not> suffix key w)", OF m k[OF ks(6)]]
      v[OF vals(1)] v[OF vals(2)] k[OF ks(2)] by (simp only: list.pred_inject kv.simps simp_thms)
qed

lemma line_field:
  assumes "route_line_ok l" "key \<in> set route_keys" "\<And>c. ok c \<Longrightarrow> \<not> is_blank c"
  shows "find_word ok key False (join_with '' '' (line_words l)) = next_field ok key (line_words l)"
  using route_keys_words assms(2) by (intro find_in_words line_word_ok[OF assms(1,2)] assms(3)) (auto simp: list_all_iff)


text \<open>What is reported of a line: with redaction, of the two addresses only whether they are there.\<close>

definition hidden :: "bool \<Rightarrow> string \<Rightarrow> string" where
  "hidden redact v = (if redact \<and> v \<noteq> [] then ''redacted'' else v)"

definition reported :: "bool \<Rightarrow> parse_result \<Rightarrow> parse_result" where
  "reported redact p = p\<lparr>ps_source_ip := hidden redact (ps_source_ip p), ps_gateway := hidden redact (ps_gateway p)\<rparr>"

lemma line_parts:
  assumes "route_line_ok l"
  shows "route_value (li_target l)" "route_value (li_dev l)" "li_via l = Some v \<Longrightarrow> route_value v" "li_table l = Some v \<Longrightarrow> route_value v"
    "li_src l = Some v \<Longrightarrow> route_value v"
  using assms by (auto simp: route_line_ok_def line_values_def map_filter_simps split: option.splits)

lemma value_apart: "route_value v \<Longrightarrow> key \<in> set route_keys \<Longrightarrow> v \<noteq> key"
  by (auto simp: route_value_def list_all_iff)

lemma value_whole: "route_value v \<Longrightarrow> takeWhile (\<lambda>c. \<not> is_blank c) v = v \<and> v \<noteq> []"
  using ink_word_not_blank by (auto simp: route_value_def ink_word_def takeWhile_eq_all_conv list_all_iff)

lemma number_apart: "key \<in> set route_keys \<Longrightarrow> show_nat n \<noteq> key"
  using value_apart digits_value_ok(1) by blast

lemma line_text_fields:
  assumes l: "route_line_ok l"
  defines "whole \<equiv> (\<lambda>c. \<not> is_blank c)"
  shows "next_field whole ''dev'' (line_words l) = Some (li_dev l)" "next_field whole ''src'' (line_words l) = li_src l"
    "next_field whole ''via'' (line_words l) = li_via l" "next_field whole ''table'' (line_words l) = li_table l"
proof -
  have a: "\<forall>v. li_via l = Some v \<longrightarrow> v \<noteq> k" "\<forall>v. li_table l = Some v \<longrightarrow> v \<noteq> k" "\<forall>v. li_src l = Some v \<longrightarrow> v \<noteq> k"
    "li_target l \<noteq> k" "li_dev l \<noteq> k" "\<forall>v. map_option show_nat n = Some v \<longrightarrow> v \<noteq> k"
    if "k \<in> set route_keys" for k n
    using that line_parts[OF l] value_apart number_apart by blast+
  have w: "\<forall>v. li_via l = Some v \<longrightarrow> takeWhile whole v = v \<and> v \<noteq> []" "\<forall>v. li_table l = Some v \<longrightarrow> takeWhile whole v = v \<and> v \<noteq> []"
    "\<forall>v. li_src l = Some v \<longrightarrow> takeWhile whole v = v \<and> v \<noteq> []"
    "\<forall>v. Some (li_dev l) = Some v \<longrightarrow> takeWhile whole v = v \<and> v \<noteq> []" if "k \<in> set route_keys" for k
    using that line_parts[OF l] value_apart value_whole unfolding whole_def by blast+
  have d: "\<forall>v. Some (li_dev l) = Some v \<longrightarrow> v \<noteq> k" if "k \<in> set route_keys" for k using a(5)[OF that] by simp
  note parts = line_words_def append_Cons append_Nil
  have m: "''dev'' \<in> set route_keys" "''src'' \<in> set route_keys" "''via'' \<in> set route_keys" "''table'' \<in> set route_keys" by (simp_all add: route_keys_def)
  show "next_field whole ''dev'' (line_words l) = Some (li_dev l)"
    unfolding parts by (subst next_field_skip[OF a(4)[OF m(1)]], subst next_field_kv(1)[OF a(1)[OF m(1)]], simp, subst next_field_kv(2)[OF d[OF m(1)] w(4)[OF m(1)]], simp)
  show "next_field whole ''via'' (line_words l) = li_via l"
    unfolding parts
    by (subst next_field_skip[OF a(4)[OF m(3)]], subst next_field_kv(2)[OF a(1)[OF m(3)] w(1)[OF m(3)]], subst next_field_kv(1)[OF d[OF m(3)]], simp,
        subst next_field_kv(1)[OF a(2)[OF m(3)]], simp, subst next_field_kv(1)[OF a(3)[OF m(3)]], simp,
        subst next_field_kv(1)[OF a(6)[OF m(3)]], simp, subst next_field_kv(1)[OF a(6)[OF m(3)]], simp) (simp split: option.split)
  show "next_field whole ''table'' (line_words l) = li_table l"
    unfolding parts
    by (subst next_field_skip[OF a(4)[OF m(4)]], subst next_field_kv(1)[OF a(1)[OF m(4)]], simp, subst next_field_kv(1)[OF d[OF m(4)]], simp,
        subst next_field_kv(2)[OF a(2)[OF m(4)] w(2)[OF m(4)]], subst next_field_kv(1)[OF a(3)[OF m(4)]], simp,
        subst next_field_kv(1)[OF a(6)[OF m(4)]], simp, subst next_field_kv(1)[OF a(6)[OF m(4)]], simp) (simp split: option.split)
  show "next_field whole ''src'' (line_words l) = li_src l"
    unfolding parts
    by (subst next_field_skip[OF a(4)[OF m(2)]], subst next_field_kv(1)[OF a(1)[OF m(2)]], simp, subst next_field_kv(1)[OF d[OF m(2)]], simp,
        subst next_field_kv(1)[OF a(2)[OF m(2)]], simp, subst next_field_kv(2)[OF a(3)[OF m(2)] w(3)[OF m(2)]],
        subst next_field_kv(1)[OF a(6)[OF m(2)]], simp, subst next_field_kv(1)[OF a(6)[OF m(2)]], simp) (simp split: option.split)
qed

lemma line_number_fields:
  assumes l: "route_line_ok l"
  shows "next_field is_digit ''uid'' (line_words l) = map_option show_nat (li_uid l)"
    "next_field is_digit ''mtu'' (line_words l) = map_option show_nat (li_mtu l)"
proof -
  have a: "\<forall>v. li_via l = Some v \<longrightarrow> v \<noteq> k" "\<forall>v. li_table l = Some v \<longrightarrow> v \<noteq> k" "\<forall>v. li_src l = Some v \<longrightarrow> v \<noteq> k"
    "li_target l \<noteq> k" "\<forall>v. Some (li_dev l) = Some v \<longrightarrow> v \<noteq> k" "\<forall>v. map_option show_nat n = Some v \<longrightarrow> v \<noteq> k"
    if "k \<in> set route_keys" for k n
    using that line_parts[OF l] value_apart number_apart by blast+
  have w: "\<forall>v. map_option show_nat n = Some v \<longrightarrow> takeWhile is_digit v = v \<and> v \<noteq> []" if "k \<in> set route_keys" for k n
    using digits_value_ok(2) show_nat_nonempty by auto
  note parts = line_words_def append_Cons append_Nil
  have m: "''uid'' \<in> set route_keys" "''mtu'' \<in> set route_keys" by (simp_all add: route_keys_def)
  show "next_field is_digit ''uid'' (line_words l) = map_option show_nat (li_uid l)"
    unfolding parts
    by (subst next_field_skip[OF a(4)[OF m(1)]], subst next_field_kv(1)[OF a(1)[OF m(1)]], simp, subst next_field_kv(1)[OF a(5)[OF m(1)]], simp,
        subst next_field_kv(1)[OF a(2)[OF m(1)]], simp, subst next_field_kv(1)[OF a(3)[OF m(1)]], simp,
        subst next_field_kv(2)[OF a(6)[OF m(1)] w[OF m(1)]], subst next_field_kv(1)[OF a(6)[OF m(1)]], simp) (simp split: option.split)
  show "next_field is_digit ''mtu'' (line_words l) = map_option show_nat (li_mtu l)"
    unfolding parts
    by (subst next_field_skip[OF a(4)[OF m(2)]], subst next_field_kv(1)[OF a(1)[OF m(2)]], simp, subst next_field_kv(1)[OF a(5)[OF m(2)]], simp,
        subst next_field_kv(1)[OF a(2)[OF m(2)]], simp, subst next_field_kv(1)[OF a(3)[OF m(2)]], simp,
        subst next_field_kv(1)[OF a(6)[OF m(2)]], simp, subst next_field_kv(2)[OF a(6)[OF m(2)] w[OF m(2)]]) (simp split: option.split)
qed

text \<open>
  The line that \<open>ip route get\<close> prints for an address, however its words are spaced, is read back: every field in
  any subset that is there, with the addresses hidden under redaction. A user id of zero is dropped, as root's.
\<close>

theorem route_line_read:
  assumes l: "route_line_ok l" and ws: "spread_ok ws" "map fst ws = line_words l"
  shows "ParseRouteGetOutput (spread ws) redact = Inr (reported redact (line_result l))"
proof -
  let ?s = "join_with '' '' (line_words l)"
  have n: "normalizeSpaces (TrimSpace (spread ws)) = ?s" "TrimSpace (spread ws) \<noteq> []" using spread_normal[OF ws(1)] ws(2) by auto
  have ink: "list_all ink_word (line_words l)"
    using line_word_ok[OF l, of "''dev''"] by (auto simp: route_keys_def list_all_iff)
  have parts: "Fields ?s = line_words l" using Fields_join[OF ink] .
  have hd: "line_words l \<noteq> []" "hd (line_words l) = li_target l" by (simp_all add: line_words_def)
  have sp: "map lower_char (li_target l) \<notin> set route_special" using l by (simp add: route_line_ok_def)
  have k: "''dev'' \<in> set route_keys" "''src'' \<in> set route_keys" "''via'' \<in> set route_keys" "''table'' \<in> set route_keys"
    "''uid'' \<in> set route_keys" "''mtu'' \<in> set route_keys" by (simp_all add: route_keys_def)
  have nb: "is_digit c \<Longrightarrow> \<not> is_blank c" for c by (auto simp: is_digit_def is_blank_def)
  note f = line_field[OF l _ , of _ "\<lambda>c. \<not> is_blank c", simplified]
  have vals: "v \<noteq> []" if "li_src l = Some v \<or> li_via l = Some v" for v
    using that line_parts[OF l] by (auto simp: route_value_def ink_word_def)
  have b: "\<forall>n. li_uid l = Some n \<longrightarrow> n < 2 ^ 63" "\<forall>n. li_mtu l = Some n \<longrightarrow> n < 2 ^ 63" using l by (simp_all add: route_line_ok_def)
  have fields: "extractInterfaceField ?s = li_dev l" "extractTableField ?s = or_empty (li_table l)"
    by (simp_all add: extractInterfaceField_def extractTableField_def f[OF k(1)] f[OF k(4)] line_text_fields[OF l] or_empty_def)
  have addrs: "extractSourceField ?s redact = hidden redact (or_empty (li_src l))" "extractGatewayField ?s redact = hidden redact (or_empty (li_via l))"
    using vals by (auto simp: extractSourceField_def extractGatewayField_def f[OF k(2)] f[OF k(3)] line_text_fields[OF l] or_empty_def hidden_def split: option.splits)
  have nums: "extractMTUField ?s = map_option int (li_mtu l)"
      "extractUIDField ?s = (if li_uid l = Some 0 then None else map_option int (li_uid l))"
    using b by (cases "li_mtu l"; cases "li_uid l"; simp add: extractMTUField_def extractUIDField_def line_field[OF l k(5) nb]
        line_field[OF l k(6) nb] line_number_fields[OF l] route_parseInt_show)+
  show ?thesis
    using sp n(2) hd unfolding ParseRouteGetOutput_def Let_def n(1) parts fields addrs nums hd(2)
    by (simp add: route_special_def reported_def line_result_def)
qed

definition line_example :: route_line where
  "line_example = \<lparr>li_target = ''10.0.0.7'', li_via = Some ''192.168.1.1'', li_dev = ''eth0'', li_table = None, li_src = Some ''192.168.1.5'',
     li_uid = Some 1000, li_mtu = None\<rparr>"

lemma route_line_read_witness:
  "ParseRouteGetOutput (spread (map (\<lambda>w. (w, [CHR '' '', CHR 0x0A])) (line_words line_example))) True = Inr (reported True (line_result line_example))
   \<and> ps_gateway (reported True (line_result line_example)) = ''redacted''"
proof -
  have ok: "route_line_ok line_example"
    by (simp add: route_line_ok_def line_example_def line_values_def map_filter_simps route_value_def ink_word_def ink_def route_keys_def suffix_Cons route_special_def lower_char_def)
  have ink: "list_all ink_word (line_words line_example)"
    using line_word_ok[OF ok, of "''dev''"] by (auto simp: route_keys_def list_all_iff)
  have "spread_ok (map (\<lambda>w. (w, [CHR '' '', CHR 0x0A])) (line_words line_example))"
    unfolding spread_ok_def list_all_iff using ink in_set_butlastD by (fastforce simp: is_blank_def list_all_iff line_words_def)
  then show ?thesis using route_line_read[OF ok] by (simp add: comp_def reported_def hidden_def line_result_def line_example_def or_empty_def)
qed

subsection \<open>The evidence\<close>

lemma route_command_returns:
  assumes "pipe_ends (px_stdout env) k" "pipe_ends (px_stderr env) k'"
  shows "\<exists>r. runRouteCommand env = Some r"
proof -
  obtain i out t e where out: "read_loop (px_stdout env) 4096 0 [] False = Some (i, out, t, e)" "i \<le> Suc k"
    using read_loop_returns[OF assms(1), of 0 "[]" 4096] by auto
  obtain j err t' e' where err: "read_loop (px_stderr env) 1024 0 [] False = Some (j, err, t', e')"
    using read_loop_returns[OF assms(2), of 0 "[]" 1024] by auto
  obtain n where n: "drain (px_stdout env) i = Some n"
    using drain_returns[OF out(2), of "px_stdout env"] assms(1) by (auto simp: pipe_ends_def)
  show ?thesis unfolding runRouteCommand_def by (simp add: out(1) err n split: option.split)
qed

definition redacted_value :: "string \<Rightarrow> bool" where
  "redacted_value v \<longleftrightarrow> v = [] \<or> v = ''redacted''"

lemma parse_redacted:
  "ParseRouteGetOutput s True = Inr p \<Longrightarrow> redacted_value (ps_source_ip p) \<and> redacted_value (ps_gateway p)"
  by (auto simp: ParseRouteGetOutput_def Let_def extractSourceField_def extractGatewayField_def or_empty_def blank_parse_def redacted_value_def
      split: if_splits option.splits)

lemma parse_error_kind: "ParseRouteGetOutput s b = Inl e \<Longrightarrow> re_kind e \<in> {''no_data'', ''parse_failed''}"
  by (auto simp: ParseRouteGetOutput_def Let_def ErrRouteNoData_def ErrRouteMalformed_def split: if_splits)

text \<open>What a route says when it left the collector: a result without addresses, or one error of the known kinds.\<close>

definition route_kinds :: "string list" where
  "route_kinds = [''unavailable'', ''timeout'', ''parse_failed'', ''no_data'', ''command_missing'', ''non_zero_exit'']"

definition route_told :: "probe_route \<Rightarrow> bool" where
  "route_told r \<longleftrightarrow> redacted_value (pr_source_ip r) \<and> redacted_value (pr_gateway r)
     \<and> (if pr_ok r then pr_error_kind r = [] \<and> pr_error r = [] else pr_error_kind r \<in> set route_kinds)"

lemma error_told: "\<not> pr_ok r \<Longrightarrow> redacted_value (pr_source_ip r) \<Longrightarrow> redacted_value (pr_gateway r) \<Longrightarrow> kind \<in> set route_kinds \<Longrightarrow> route_told (route_error kind msg r)"
  by (simp add: route_told_def route_error_def)

lemma netlink_kind: "mapNetlinkErrorToKind e \<in> set route_kinds"
  by (simp add: mapNetlinkErrorToKind_def route_kinds_def)

text \<open>
  The collector returns whenever the pipes of the command end. The evidence it returns names the host, the address
  and the probe it was asked about; it holds no source and no gateway address, from the kernel or from the command; and it is
  either a result without an error or an error of one of six kinds.
\<close>

theorem route_evidence:
  assumes pipes: "\<And>t. pipe_ends (px_stdout (rv_command env t)) (k t) \<and> pipe_ends (px_stderr (rv_command env t)) (k' t)"
  shows "\<exists>r. CollectRouteLookup env kind target ip = Some r \<and> route_told r
    \<and> pr_kind r = kind \<and> pr_probe_host r = target \<and> pr_resolved_ip r = ip \<and> pr_collected_at r = rv_stamp env"
proof -
  let ?n = "new_route env kind target ip"
  have n: "\<not> pr_ok ?n" "redacted_value (pr_source_ip ?n)" "redacted_value (pr_gateway ?n)" "pr_error ?n = []" "pr_error_kind ?n = []"
    and id: "pr_kind ?n = kind" "pr_probe_host ?n = target" "pr_resolved_ip ?n = ip" "pr_collected_at ?n = rv_stamp env"
    by (simp_all add: new_route_def redacted_value_def)
  define good where "good r \<longleftrightarrow> route_told r \<and> pr_kind r = kind \<and> pr_probe_host r = target \<and> pr_resolved_ip r = ip \<and> pr_collected_at r = rv_stamp env" for r
  have err: "good (route_error knd msg ?n)" if "knd \<in> set route_kinds" for knd msg
    using error_told[OF n(1-3) that] by (simp add: good_def id route_error_def)
  have kinds: "''timeout'' \<in> set route_kinds" "''unavailable'' \<in> set route_kinds" "''no_data'' \<in> set route_kinds"
    "''parse_failed'' \<in> set route_kinds" "''command_missing'' \<in> set route_kinds" "''non_zero_exit'' \<in> set route_kinds"
    by (simp_all add: route_kinds_def)
  have exit: "good (route_exit_error e ?n)" for e using err kinds by (simp add: route_exit_error_def Let_def)
  have perr: "good (route_error (re_kind e) (re_message e) ?n)" if "ParseRouteGetOutput s True = Inl e" for s e
    using parse_error_kind[OF that] err[OF kinds(3), of "re_message e"] err[OF kinds(4), of "re_message e"] by auto
  have pok: "good (?n\<lparr>pr_ok := True, pr_route_type := ps_route_type p, pr_interface := ps_interface p, pr_source_ip := ps_source_ip p,
      pr_gateway := ps_gateway p, pr_table := ps_table p, pr_mtu := ps_mtu p, pr_uid := ps_uid p\<rparr>)"
    if "ParseRouteGetOutput s True = Inr p" for s p
    using parse_redacted[OF that] n by (simp add: good_def route_told_def id)
  have cli: "\<exists>r. route_collectViaCLI env ?n t = Some r \<and> good r" for t
  proof -
    obtain c where c: "runRouteCommand (rv_command env t) = Some c" using route_command_returns pipes by blast
    have p: "good (case ParseRouteGetOutput s True of Inl e \<Rightarrow> route_error (re_kind e) (re_message e) ?n
        | Inr p \<Rightarrow> ?n\<lparr>pr_ok := True, pr_route_type := ps_route_type p, pr_interface := ps_interface p, pr_source_ip := ps_source_ip p,
            pr_gateway := ps_gateway p, pr_table := ps_table p, pr_mtu := ps_mtu p, pr_uid := ps_uid p\<rparr>)" for s
      using perr[of s] pok[of s] by (simp split: sum.split)
    show ?thesis unfolding route_collectViaCLI_def c
      using p err[OF kinds(1)] exit err[OF kinds(3)] err[OF kinds(5)] by (simp add: Let_def split: context_end.split)
  qed
  have native: "\<exists>r. route_collectViaNative env ?n t = Some r \<and> good r" for t
  proof -
    obtain nl where nl: "RouteLookupNative (rv_parse_ip env) (rv_socket env) (rv_names env) t = Some nl" using native_lookup_in_bounds by blast
    show ?thesis
    proof (cases "nr_error nl")
      case None
      then show ?thesis using n id kinds err
        by (auto simp: route_collectViaNative_def nl Let_def good_def route_told_def RouteLookupNetlinkResultToProbeRoute_def redacted_value_def split: option.split)
    next
      case (Some e)
      show ?thesis using Some cli[of t] err[OF netlink_kind] err[OF kinds(1)] by (simp add: route_collectViaNative_def nl)
    qed
  qed
  show ?thesis unfolding CollectRouteLookup_def Let_def good_def[symmetric]
    using cli native err[OF kinds(2)] by (simp split: if_split)
qed

end
