(* ===== verification/Lab_Sampling.thy ===== *)
theory Lab_Sampling
  imports Float64
begin

section \<open>The sampler of the memory lab\<close>

text \<open>
  Models \<open>tovarisch/labs/memory/internal/sampling\<close>: \<open>phase.go\<close>, \<open>capabilities.go\<close> and the sampler
  of \<open>sampler.go\<close> (the CSV rows are in \<open>Lab_Csv\<close>).

  A goroutine samples a process through the phases of a run; other goroutines start and stop it and
  wait for phases. Every critical section of the code is one step of \<open>lab_step\<close>, on the sampler, on the
  place where the sampling goroutine stands and on the calls that wait. The clock, the readings of
  the process and the contexts that end are choices of the steps; what the readers of \<open>procfs\<close> and the
  Docker client returned is an argument.

  A close of a closed channel is a panic, the value \<open>None\<close>. A channel of capacity one
  that receives the answer of a waiter is an entry of \<open>sm_results\<close>.
\<close>

subsection \<open>Phases\<close>

datatype phase = PhaseStartup | PhaseWarmup | PhaseBaseline | PhaseStimulus | PhaseSettling | PhaseFinal | PhaseComplete
  | OtherPhase string

fun phase_String :: "phase \<Rightarrow> string" where
  "phase_String PhaseStartup = ''startup''"
| "phase_String PhaseWarmup = ''warmup''"
| "phase_String PhaseBaseline = ''baseline''"
| "phase_String PhaseStimulus = ''stimulus''"
| "phase_String PhaseSettling = ''settling''"
| "phase_String PhaseFinal = ''final''"
| "phase_String PhaseComplete = ''complete''"
| "phase_String (OtherPhase s) = s"

fun phaseRank :: "phase \<Rightarrow> int" where
  "phaseRank PhaseStartup = 0"
| "phaseRank PhaseWarmup = 1"
| "phaseRank PhaseBaseline = 2"
| "phaseRank PhaseStimulus = 3"
| "phaseRank PhaseSettling = 4"
| "phaseRank PhaseFinal = 5"
| "phaseRank PhaseComplete = 6"
| "phaseRank (OtherPhase s) = -1"

definition AllPhases :: "phase list" where
  "AllPhases = [PhaseStartup, PhaseWarmup, PhaseBaseline, PhaseStimulus, PhaseSettling, PhaseFinal, PhaseComplete]"

definition ParsePhase :: "string \<Rightarrow> phase" where
  "ParsePhase s = (case find (\<lambda>p. phase_String p = s) AllPhases of Some p \<Rightarrow> p | None \<Rightarrow> OtherPhase [])"

record phase_config =
  pg_startup :: duration
  pg_warmup :: duration
  pg_baseline :: duration
  pg_stimulus :: duration
  pg_settling :: duration
  pg_final :: duration
  pg_interval :: duration

definition DefaultPhaseConfig :: phase_config where
  "DefaultPhaseConfig = \<lparr>pg_startup = seconds 120, pg_warmup = seconds 120, pg_baseline = seconds 180, pg_stimulus = seconds 600,
     pg_settling = seconds 120, pg_final = seconds 180, pg_interval = seconds 5\<rparr>"

definition SmokePhaseConfig :: phase_config where
  "SmokePhaseConfig = \<lparr>pg_startup = seconds 10, pg_warmup = seconds 10, pg_baseline = seconds 15, pg_stimulus = seconds 30,
     pg_settling = seconds 10, pg_final = seconds 15, pg_interval = seconds 1\<rparr>"

definition TotalDuration :: "phase_config \<Rightarrow> duration" where
  "TotalDuration c = wrap64 (pg_startup c + pg_warmup c + pg_baseline c + pg_stimulus c + pg_settling c + pg_final c)"

fun DurationFor :: "phase \<Rightarrow> phase_config \<Rightarrow> duration" where
  "DurationFor PhaseStartup c = pg_startup c"
| "DurationFor PhaseWarmup c = pg_warmup c"
| "DurationFor PhaseBaseline c = pg_baseline c"
| "DurationFor PhaseStimulus c = pg_stimulus c"
| "DurationFor PhaseSettling c = pg_settling c"
| "DurationFor PhaseFinal c = pg_final c"
| "DurationFor _ c = 0"

record phase_state =
  ps_current :: phase
  ps_start :: time
  ps_config :: phase_config

definition NewPhaseState :: "phase_config \<Rightarrow> time \<Rightarrow> phase_state" where
  "NewPhaseState cfg now = \<lparr>ps_current = PhaseStartup, ps_start = now, ps_config = cfg\<rparr>"

definition phase_Advance :: "time \<Rightarrow> phase_state \<Rightarrow> bool \<times> phase_state" where
  "phase_Advance now ps =
     (case ps_current ps of
        PhaseStartup \<Rightarrow> (True, ps\<lparr>ps_current := PhaseWarmup, ps_start := now\<rparr>)
      | PhaseWarmup \<Rightarrow> (True, ps\<lparr>ps_current := PhaseBaseline, ps_start := now\<rparr>)
      | PhaseBaseline \<Rightarrow> (True, ps\<lparr>ps_current := PhaseStimulus, ps_start := now\<rparr>)
      | PhaseStimulus \<Rightarrow> (True, ps\<lparr>ps_current := PhaseSettling, ps_start := now\<rparr>)
      | PhaseSettling \<Rightarrow> (True, ps\<lparr>ps_current := PhaseFinal, ps_start := now\<rparr>)
      | PhaseFinal \<Rightarrow> (True, ps\<lparr>ps_current := PhaseComplete, ps_start := now\<rparr>)
      | PhaseComplete \<Rightarrow> (False, ps)
      | OtherPhase _ \<Rightarrow> (False, ps))"

definition IsFinal :: "phase_state \<Rightarrow> bool" where "IsFinal ps = (ps_current ps = PhaseFinal)"

definition Remaining :: "time \<Rightarrow> phase_state \<Rightarrow> duration" where
  "Remaining now ps =
     (if ps_current ps = PhaseComplete then 0
      else let remaining = wrap64 (DurationFor (ps_current ps) (ps_config ps) - time_sub now (ps_start ps))
        in if remaining < 0 then 0 else remaining)"

definition ShouldAdvance :: "time \<Rightarrow> phase_state \<Rightarrow> bool" where
  "ShouldAdvance now ps = (Remaining now ps = 0 \<and> ps_current ps \<noteq> PhaseComplete)"

text \<open>The two readings of the clock are those of \<open>Remaining\<close> and of \<open>Advance\<close>.\<close>

definition phase_Update :: "time \<Rightarrow> time \<Rightarrow> phase_state \<Rightarrow> bool \<times> phase_state" where
  "phase_Update now1 now2 ps =
     (if ps_current ps = PhaseComplete then (False, ps)
      else if Remaining now1 ps = 0 then phase_Advance now2 ps else (False, ps))"

subsection \<open>Samples and events\<close>

record mem_sample =
  mm_seq :: int
  mm_ts :: time
  mm_pid :: int
  mm_start :: nat
  mm_phase :: phase
  mm_delayed :: bool
  mm_rss :: int
  mm_pss :: int
  mm_pss_anon :: int
  mm_private_dirty :: int
  mm_anonymous :: int
  mm_swap :: int
  mm_docker_usage :: int
  mm_docker_limit :: int
  mm_has_docker :: bool
  mm_vma :: int
  mm_fd :: int
  mm_socket_fd :: int
  mm_threads :: int
  mm_pids :: int
  mm_cg_anon :: int
  mm_cg_current :: int
  mm_cg_stat_anon :: int
  mm_has_cg_anon :: bool
  mm_oom :: int
  mm_oom_kill :: int
  mm_bgp_state :: string
  mm_bgp_ticks :: int
  mm_reconnects :: int
  mm_has_rss :: bool
  mm_has_pss :: bool
  mm_has_pss_anon :: bool
  mm_has_private_dirty :: bool
  mm_has_anonymous :: bool
  mm_has_swap :: bool
  mm_has_cgroup :: bool
  mm_has_threads :: bool
  mm_has_pids :: bool
  mm_has_fd :: bool
  mm_has_socket_fd :: bool
  mm_has_vma :: bool

definition blank_sample :: "int \<Rightarrow> time \<Rightarrow> int \<Rightarrow> phase \<Rightarrow> bool \<Rightarrow> mem_sample" where
  "blank_sample seq now pid ph delayed = \<lparr>mm_seq = seq, mm_ts = now, mm_pid = pid, mm_start = 0, mm_phase = ph, mm_delayed = delayed,
     mm_rss = 0, mm_pss = 0, mm_pss_anon = 0, mm_private_dirty = 0, mm_anonymous = 0, mm_swap = 0,
     mm_docker_usage = 0, mm_docker_limit = 0, mm_has_docker = False,
     mm_vma = 0, mm_fd = 0, mm_socket_fd = 0, mm_threads = 0, mm_pids = 0,
     mm_cg_anon = 0, mm_cg_current = 0, mm_cg_stat_anon = 0, mm_has_cg_anon = False,
     mm_oom = 0, mm_oom_kill = 0, mm_bgp_state = [], mm_bgp_ticks = 0, mm_reconnects = 0,
     mm_has_rss = False, mm_has_pss = False, mm_has_pss_anon = False, mm_has_private_dirty = False, mm_has_anonymous = False,
     mm_has_swap = False, mm_has_cgroup = False, mm_has_threads = False, mm_has_pids = False, mm_has_fd = False,
     mm_has_socket_fd = False, mm_has_vma = False\<rparr>"

datatype cgroup_capability =
    CgroupCapabilityAvailable | CgroupCapabilityMountNamespaceMismatch | CgroupCapabilityCgroupNamespaceMismatch
  | CgroupCapabilityNotMounted | CgroupCapabilityPermissionDenied | CgroupCapabilityParseFailure | CgroupCapabilityPathAbsent
  | CgroupCapabilityNamespaceIdentityUnavail | CgroupCapabilityCgroupNotVisible | CgroupCapabilityNoUnifiedHierarchy
  | CgroupCapabilityPathTraversal

fun capability_String :: "cgroup_capability \<Rightarrow> string" where
  "capability_String CgroupCapabilityAvailable = ''available''"
| "capability_String CgroupCapabilityMountNamespaceMismatch = ''mount_namespace_mismatch''"
| "capability_String CgroupCapabilityCgroupNamespaceMismatch = ''cgroup_namespace_mismatch''"
| "capability_String CgroupCapabilityNotMounted = ''not_mounted''"
| "capability_String CgroupCapabilityPermissionDenied = ''permission_denied''"
| "capability_String CgroupCapabilityParseFailure = ''parse_failure''"
| "capability_String CgroupCapabilityPathAbsent = ''path_absent''"
| "capability_String CgroupCapabilityNamespaceIdentityUnavail = ''namespace_identity_unavailable''"
| "capability_String CgroupCapabilityCgroupNotVisible = ''cgroup_not_visible''"
| "capability_String CgroupCapabilityNoUnifiedHierarchy = ''no_unified_hierarchy''"
| "capability_String CgroupCapabilityPathTraversal = ''path_traversal''"

record namespace_proof =
  np_target_mount :: string
  np_target_cgroup :: string
  np_controller_mount :: string
  np_controller_cgroup :: string
  np_target_error :: string
  np_controller_error :: string
  np_target_mount_err :: string
  np_target_cgroup_err :: string
  np_controller_mount_err :: string
  np_controller_cgroup_err :: string
  np_read_error :: string
  np_reason :: string

datatype event_data = DataInt int | DataText string | DataProof namespace_proof

record lab_event =
  le_ts :: time
  le_type :: string
  le_phase :: string
  le_message :: string
  le_data :: "(string \<times> event_data) list"

text \<open>What the readers return: nothing when they fail; \<open>smaps_rollup\<close> tells a zombie from other failures.\<close>

record smaps_values =
  sv_rss :: "int option"
  sv_pss :: "int option"
  sv_pss_anon :: "int option"
  sv_private_dirty :: "int option"
  sv_anonymous :: "int option"
  sv_swap :: "int option"

datatype smaps_read = SmapsZombie | SmapsFailed | SmapsRead smaps_values

record cgroup_memory =
  cm_stat_anon :: int
  cm_current :: int
  cm_pids :: int
  cm_oom :: int
  cm_oom_kill :: int

record proc_reads =
  px_now :: time
  px_docker :: "(int \<times> int) option"
  px_smaps :: smaps_read
  px_threads :: "int option"
  px_fds :: "(int \<times> int) option"
  px_vmas :: "int option"
  px_start :: "nat option"
  px_cgroup :: "string \<Rightarrow> cgroup_memory option"

text \<open>A reading that sets a field and its flag, or leaves both alone.\<close>

definition set_some :: "('a \<Rightarrow> 's \<Rightarrow> 's) \<Rightarrow> 'a option \<Rightarrow> 's \<Rightarrow> 's" where
  "set_some f x s = (case x of None \<Rightarrow> s | Some v \<Rightarrow> f v s)"

definition read_docker :: "proc_reads \<Rightarrow> mem_sample \<Rightarrow> mem_sample" where
  "read_docker px = set_some (\<lambda>(u, l) s. s\<lparr>mm_docker_usage := u, mm_docker_limit := l, mm_has_docker := True\<rparr>) (px_docker px)"

definition read_smaps :: "smaps_values \<Rightarrow> mem_sample \<Rightarrow> mem_sample" where
  "read_smaps v s =
     set_some (\<lambda>x s. s\<lparr>mm_swap := x, mm_has_swap := True\<rparr>) (sv_swap v)
    (set_some (\<lambda>x s. s\<lparr>mm_anonymous := x, mm_has_anonymous := True\<rparr>) (sv_anonymous v)
    (set_some (\<lambda>x s. s\<lparr>mm_private_dirty := x, mm_has_private_dirty := True\<rparr>) (sv_private_dirty v)
    (set_some (\<lambda>x s. s\<lparr>mm_pss_anon := x, mm_has_pss_anon := True\<rparr>) (sv_pss_anon v)
    (set_some (\<lambda>x s. s\<lparr>mm_pss := x, mm_has_pss := True\<rparr>) (sv_pss v)
    (set_some (\<lambda>x s. s\<lparr>mm_rss := x, mm_has_rss := True\<rparr>) (sv_rss v) s)))))"

definition read_resources :: "proc_reads \<Rightarrow> mem_sample \<Rightarrow> mem_sample" where
  "read_resources px s =
     set_some (\<lambda>x s. s\<lparr>mm_start := x\<rparr>) (px_start px)
    (set_some (\<lambda>x s. s\<lparr>mm_vma := x, mm_has_vma := True\<rparr>) (px_vmas px)
    (set_some (\<lambda>(total, sockets) s. s\<lparr>mm_fd := total, mm_socket_fd := sockets, mm_has_fd := True, mm_has_socket_fd := True\<rparr>) (px_fds px)
    (set_some (\<lambda>x s. s\<lparr>mm_threads := x, mm_has_threads := True\<rparr>) (px_threads px) s)))"

definition read_cgroup :: "string \<Rightarrow> proc_reads \<Rightarrow> mem_sample \<Rightarrow> mem_sample" where
  "read_cgroup path px s =
     (if path = [] then s
      else set_some (\<lambda>g s. s\<lparr>mm_cg_anon := cm_stat_anon g, mm_cg_current := cm_current g, mm_has_cgroup := True,
             mm_pids := wrap64 (cm_pids g), mm_has_pids := True, mm_oom := wrap64 (cm_oom g), mm_oom_kill := wrap64 (cm_oom_kill g)\<rparr>)
           (px_cgroup px path) s)"

definition takeSample :: "string \<Rightarrow> proc_reads \<Rightarrow> int \<Rightarrow> int \<Rightarrow> phase \<Rightarrow> bool \<Rightarrow> mem_sample option" where
  "takeSample cgroupPath px pid seq ph isDelayed =
     (let s = read_docker px (blank_sample seq (px_now px) pid ph isDelayed)
      in case px_smaps px of
           SmapsZombie \<Rightarrow> None
         | SmapsFailed \<Rightarrow> Some (read_cgroup cgroupPath px (read_resources px s))
         | SmapsRead v \<Rightarrow> Some (read_cgroup cgroupPath px (read_resources px (read_smaps v s))))"

subsection \<open>The sampler and its critical sections\<close>

datatype wait_error = ErrSamplerStopped | ContextError string

record sampler =
  sm_samples :: "mem_sample list"
  sm_events :: "lab_event list"
  sm_phase :: phase_state
  sm_cgroup_path :: string
  sm_running :: bool
  sm_stopped :: bool
  sm_stop_closed :: bool
  sm_stimulus_closed :: bool
  sm_notified :: bool
  sm_waiters :: "(nat \<times> phase) list"
  sm_results :: "nat \<rightharpoonup> wait_error option"
  sm_terminal :: "wait_error option"

definition NewSampler :: "phase_config \<Rightarrow> time \<Rightarrow> sampler" where
  "NewSampler cfg now = \<lparr>sm_samples = [], sm_events = [], sm_phase = NewPhaseState cfg now, sm_cgroup_path = [],
     sm_running = False, sm_stopped = False, sm_stop_closed = False, sm_stimulus_closed = False, sm_notified = False,
     sm_waiters = [], sm_results = Map.empty, sm_terminal = None\<rparr>"

abbreviation current_rank :: "sampler \<Rightarrow> int" where
  "current_rank s \<equiv> phaseRank (ps_current (sm_phase s))"

definition recordEventLocked :: "time \<Rightarrow> string \<Rightarrow> string \<Rightarrow> sampler \<Rightarrow> sampler" where
  "recordEventLocked now eventType message s =
     s\<lparr>sm_events := sm_events s @ [\<lparr>le_ts = now, le_type = eventType, le_phase = phase_String (ps_current (sm_phase s)),
        le_message = message, le_data = []\<rparr>]\<rparr>"

definition RecordCgroupCapability ::
  "time \<Rightarrow> int \<Rightarrow> cgroup_capability \<Rightarrow> string \<Rightarrow> string option \<Rightarrow> int \<Rightarrow> namespace_proof option \<Rightarrow> sampler \<Rightarrow> sampler" where
  "RecordCgroupCapability now pid capability path err controllerPID nsproof s =
     s\<lparr>sm_events := sm_events s @ [\<lparr>le_ts = now, le_type = ''cgroup_capability'', le_phase = [],
        le_message = capability_String capability,
        le_data = [(''controller_pid'', DataInt controllerPID), (''target_pid'', DataInt pid),
             (''capability'', DataText (capability_String capability))]
          @ (if path \<noteq> [] then [(''cgroup_path'', DataText path)] else [])
          @ (case err of None \<Rightarrow> [] | Some e \<Rightarrow> [(''error'', DataText e)])
          @ (case nsproof of None \<Rightarrow> [] | Some p \<Rightarrow> [(''namespace_proof'', DataProof p)])\<rparr>]\<rparr>"

definition SetCgroupPath :: "string \<Rightarrow> sampler \<Rightarrow> sampler" where
  "SetCgroupPath path s = s\<lparr>sm_cgroup_path := path\<rparr>"

text \<open>\<open>Start\<close> tells whether it launches the goroutine, the first part of \<open>Stop\<close> whether it goes on to wait for it.\<close>

definition Start :: "time \<Rightarrow> sampler \<Rightarrow> bool \<times> sampler" where
  "Start now s =
     (if sm_running s then (False, s)
      else (True, recordEventLocked now ''sampling_started'' ''Sampling loop started'' (s\<lparr>sm_running := True, sm_stopped := False\<rparr>)))"

definition Stop_begin :: "sampler \<Rightarrow> (bool \<times> sampler) option" where
  "Stop_begin s =
     (if sm_stopped s then Some (False, s)
      else if sm_stop_closed s then None
      else Some (True, s\<lparr>sm_stop_closed := True, sm_stopped := True, sm_running := False\<rparr>))"

definition Stop_end :: "time \<Rightarrow> sampler \<Rightarrow> sampler" where
  "Stop_end now s = recordEventLocked now ''sampling_stopped'' ''Sampling loop stopped'' s"

definition StimulusReady :: "sampler \<Rightarrow> sampler option" where
  "StimulusReady s =
     (if (sm_notified s \<or> current_rank s \<ge> phaseRank PhaseStimulus) \<and> \<not> sm_notified s
      then (if sm_stimulus_closed s then None else Some (s\<lparr>sm_notified := True, sm_stimulus_closed := True\<rparr>))
      else Some s)"

text \<open>A non-blocking send on the channel of a waiter, which holds one answer.\<close>

definition answer :: "wait_error option \<Rightarrow> nat \<times> phase \<Rightarrow> (nat \<rightharpoonup> wait_error option) \<Rightarrow> nat \<rightharpoonup> wait_error option" where
  "answer e w results = (case results (fst w) of None \<Rightarrow> results(fst w \<mapsto> e) | Some _ \<Rightarrow> results)"

record clock_readings =
  ck_first :: time
  ck_second :: time
  ck_advance :: time
  ck_event :: time

definition transition_event :: "time \<Rightarrow> phase \<Rightarrow> phase \<Rightarrow> lab_event" where
  "transition_event now from to = \<lparr>le_ts = now, le_type = ''phase_transition'', le_phase = phase_String to,
     le_message = ''phase transition: '' @ phase_String from @ '' -> '' @ phase_String to,
     le_data = [(''from'', DataText (phase_String from)), (''to'', DataText (phase_String to))]\<rparr>"

definition advanceAndPublishLocked :: "clock_readings \<Rightarrow> sampler \<Rightarrow> sampler option" where
  "advanceAndPublishLocked ck s =
     (let from = ps_current (sm_phase s)
      in if Remaining (ck_first ck) (sm_phase s) > 0 \<and> \<not> ShouldAdvance (ck_second ck) (sm_phase s) then Some s
         else let (advanced, ps) = phase_Advance (ck_advance ck) (sm_phase s)
           in if \<not> advanced then Some s
              else let to = ps_current ps;
                       s1 = s\<lparr>sm_phase := ps, sm_events := sm_events s @ [transition_event (ck_event ck) from to]\<rparr>;
                       reached = filter (\<lambda>w. phaseRank (snd w) \<le> phaseRank to) (sm_waiters s1);
                       s2 = s1\<lparr>sm_results := fold (answer None) reached (sm_results s1),
                               sm_waiters := filter (\<lambda>w. \<not> phaseRank (snd w) \<le> phaseRank to) (sm_waiters s1)\<rparr>
                in if to = PhaseStimulus \<and> \<not> sm_notified s1
                   then (if sm_stimulus_closed s1 then None else Some (s2\<lparr>sm_notified := True, sm_stimulus_closed := True\<rparr>))
                   else Some s2)"

text \<open>The check of \<open>WaitForPhase\<close>, made before and after the waiter is built: an answer, or none yet.\<close>

definition wait_check :: "phase \<Rightarrow> sampler \<Rightarrow> wait_error option option" where
  "wait_check target s =
     (if current_rank s \<ge> phaseRank target then Some None
      else case sm_terminal s of Some e \<Rightarrow> Some (Some e) | None \<Rightarrow> None)"

definition complete_check :: "sampler \<Rightarrow> wait_error option option" where
  "complete_check s =
     (if ps_current (sm_phase s) = PhaseComplete then Some None
      else case sm_terminal s of Some e \<Rightarrow> Some (Some e) | None \<Rightarrow> None)"

definition register_waiter :: "nat \<Rightarrow> phase \<Rightarrow> sampler \<Rightarrow> sampler" where
  "register_waiter i target s = s\<lparr>sm_waiters := sm_waiters s @ [(i, target)]\<rparr>"

definition removeWaiterLocked :: "nat \<Rightarrow> sampler \<Rightarrow> sampler" where
  "removeWaiterLocked i s = s\<lparr>sm_waiters := remove_first (\<lambda>w. fst w = i) (sm_waiters s)\<rparr>"

text \<open>The deferred end of the sampling goroutine.\<close>

definition finish_loop :: "sampler \<Rightarrow> sampler" where
  "finish_loop s =
     (let e = (case sm_terminal s of Some e \<Rightarrow> e | None \<Rightarrow> ContextError ''context canceled'')
      in s\<lparr>sm_results := fold (answer (Some e)) (sm_waiters s) (sm_results s), sm_waiters := []\<rparr>)"

subsection \<open>The goroutines\<close>

text \<open>
  The sampling goroutine waits in its \<open>select\<close> with its next sequence number and the time of the prev
  sample, reads the process, or has been told to end. A call of \<open>WaitForPhase\<close> or \<open>WaitForComplete\<close>
  stands before one of its checks, waits for its answer, or has returned.
\<close>

datatype loop_pc =
    NotStarted
  | Selecting (loop_seq: int) time
  | Reading (loop_seq: int) time int phase bool time
  | Ending
  | Ended

datatype call_pc = CheckingComplete | Checking | Registering | Waiting | Returned "wait_error option"

record wait_call =
  wl_id :: nat
  wl_target :: phase
  wl_pc :: call_pc

record lab_system =
  ly_sampler :: sampler
  ly_loop :: loop_pc
  ly_calls :: "wait_call list"
  ly_stopping :: bool

definition delay_threshold :: "sampler \<Rightarrow> duration" where
  "delay_threshold s = int_of_f (fmul (f_of_int (pg_interval (ps_config (sm_phase s)))) (Fin (3 / 2)))"

text \<open>What a call does after one of its checks.\<close>

definition after_check :: "wait_error option option \<Rightarrow> call_pc \<Rightarrow> wait_call \<Rightarrow> wait_call" where
  "after_check r next c = c\<lparr>wl_pc := (case r of Some e \<Rightarrow> Returned e | None \<Rightarrow> next)\<rparr>"

text \<open>The tick of the sampling goroutine up to the reading of the process.\<close>

definition tick :: "clock_readings \<Rightarrow> time \<Rightarrow> int \<Rightarrow> int \<Rightarrow> time \<Rightarrow> sampler \<Rightarrow> (sampler \<times> loop_pc) option" where
  "tick ck scheduled pid seq prev s =
     map_option (\<lambda>s'.
       let ph = ps_current (sm_phase s')
       in (s', if ph = PhaseComplete then Selecting seq prev
               else if pid \<le> 0 then Selecting seq prev
               else Reading seq prev pid ph (time_sub scheduled prev > delay_threshold s) scheduled))
     (advanceAndPublishLocked ck s)"

definition keep_sample :: "mem_sample option \<Rightarrow> int \<Rightarrow> time \<Rightarrow> time \<Rightarrow> sampler \<Rightarrow> sampler \<times> loop_pc" where
  "keep_sample sample seq prev scheduled s =
     (case sample of
        None \<Rightarrow> (s, Selecting seq prev)
      | Some x \<Rightarrow> (s\<lparr>sm_samples := sm_samples s @ [x]\<rparr>, Selecting (seq + 1) scheduled))"

text \<open>
  A sampler is started once, before it is stopped: after a stop its channel of stop signals stays closed,
  so a later run would end at once and a second stop would panic (\<open>restart_panics\<close>).
\<close>

inductive lab_step :: "lab_system \<Rightarrow> lab_system \<Rightarrow> bool" where
  start: "Start now (ly_sampler y) = (True, s') \<Longrightarrow> ly_loop y = NotStarted \<Longrightarrow> \<not> sm_stop_closed (ly_sampler y) \<Longrightarrow>
    lab_step y (y\<lparr>ly_sampler := s', ly_loop := Selecting 0 begun\<rparr>)"
| tick: "ly_loop y = Selecting n prev \<Longrightarrow> tick ck scheduled pid n prev (ly_sampler y) = Some (s', lp) \<Longrightarrow>
    lab_step y (y\<lparr>ly_sampler := s', ly_loop := lp\<rparr>)"
| read: "ly_loop y = Reading n prev pid ph delayed scheduled \<Longrightarrow>
    keep_sample (takeSample (sm_cgroup_path (ly_sampler y)) px pid n ph delayed) n prev scheduled (ly_sampler y) = (s', lp) \<Longrightarrow>
    lab_step y (y\<lparr>ly_sampler := s', ly_loop := lp\<rparr>)"
| cancelled: "ly_loop y = Selecting n prev \<Longrightarrow>
    lab_step y (y\<lparr>ly_sampler := (ly_sampler y)\<lparr>sm_terminal := Some (ContextError e)\<rparr>, ly_loop := Ending\<rparr>)"
| stopped: "ly_loop y = Selecting n prev \<Longrightarrow> sm_stop_closed (ly_sampler y) \<Longrightarrow>
    lab_step y (y\<lparr>ly_sampler := (ly_sampler y)\<lparr>sm_terminal := Some ErrSamplerStopped\<rparr>, ly_loop := Ending\<rparr>)"
| finish: "ly_loop y = Ending \<Longrightarrow> lab_step y (y\<lparr>ly_sampler := finish_loop (ly_sampler y), ly_loop := Ended\<rparr>)"
| stop: "Stop_begin (ly_sampler y) = Some (waits, s') \<Longrightarrow>
    lab_step y (y\<lparr>ly_sampler := s', ly_stopping := (waits \<or> ly_stopping y)\<rparr>)"
| stop_return: "ly_stopping y \<Longrightarrow> ly_loop y = Ended \<Longrightarrow>
    lab_step y (y\<lparr>ly_sampler := Stop_end now (ly_sampler y), ly_stopping := False\<rparr>)"
| stimulus: "StimulusReady (ly_sampler y) = Some s' \<Longrightarrow> lab_step y (y\<lparr>ly_sampler := s'\<rparr>)"
| capability: "lab_step y (y\<lparr>ly_sampler := RecordCgroupCapability now pid capability path err controller nsproof (ly_sampler y)\<rparr>)"
| cgroup_path: "lab_step y (y\<lparr>ly_sampler := SetCgroupPath path (ly_sampler y)\<rparr>)"
| call: "i \<notin> wl_id ` set (ly_calls y) \<Longrightarrow> pc = Checking \<or> pc = CheckingComplete \<and> target = PhaseComplete \<Longrightarrow>
    lab_step y (y\<lparr>ly_calls := ly_calls y @ [\<lparr>wl_id = i, wl_target = target, wl_pc = pc\<rparr>]\<rparr>)"
| check_complete: "ly_calls y = xs @ c # ys \<Longrightarrow> wl_pc c = CheckingComplete \<Longrightarrow>
    lab_step y (y\<lparr>ly_calls := xs @ after_check (complete_check (ly_sampler y)) Checking c # ys\<rparr>)"
| check: "ly_calls y = xs @ c # ys \<Longrightarrow> wl_pc c = Checking \<Longrightarrow>
    lab_step y (y\<lparr>ly_calls := xs @ after_check (wait_check (wl_target c) (ly_sampler y)) Registering c # ys\<rparr>)"
| register: "ly_calls y = xs @ c # ys \<Longrightarrow> wl_pc c = Registering \<Longrightarrow> r = wait_check (wl_target c) (ly_sampler y) \<Longrightarrow>
    lab_step y (y\<lparr>ly_sampler := (if r = None then register_waiter (wl_id c) (wl_target c) (ly_sampler y) else ly_sampler y),
                  ly_calls := xs @ after_check r Waiting c # ys\<rparr>)"
| answered: "ly_calls y = xs @ c # ys \<Longrightarrow> wl_pc c = Waiting \<Longrightarrow> sm_results (ly_sampler y) (wl_id c) = Some r \<Longrightarrow>
    lab_step y (y\<lparr>ly_calls := xs @ c\<lparr>wl_pc := Returned r\<rparr> # ys\<rparr>)"
| given_up: "ly_calls y = xs @ c # ys \<Longrightarrow> wl_pc c = Waiting \<Longrightarrow>
    lab_step y (y\<lparr>ly_sampler := removeWaiterLocked (wl_id c) (ly_sampler y),
                  ly_calls := xs @ c\<lparr>wl_pc := Returned (Some (ContextError e))\<rparr> # ys\<rparr>)"

inductive lab_reachable :: "phase_config \<Rightarrow> lab_system \<Rightarrow> bool" for cfg :: phase_config where
  init: "lab_reachable cfg \<lparr>ly_sampler = NewSampler cfg now, ly_loop = NotStarted, ly_calls = [], ly_stopping = False\<rparr>"
| step: "lab_reachable cfg y \<Longrightarrow> lab_step y y' \<Longrightarrow> lab_reachable cfg y'"

inductive_cases lab_stepE: "lab_step y y'"

lemma restart_panics:
  assumes "Stop_begin s = Some (True, s1)" "Start now s1 = (b, s2)"
  shows "b \<and> Stop_begin s2 = None"
  using assms by (auto simp: Stop_begin_def Start_def recordEventLocked_def split: if_splits)

subsection \<open>Phases and shared state of a step\<close>

lemma phaseRank_range: "-1 \<le> phaseRank p \<and> phaseRank p \<le> 6"
  by (cases p) simp_all

lemma phase_Advance_rank:
  "phase_Advance now ps = (True, ps') \<Longrightarrow> phaseRank (ps_current ps') = phaseRank (ps_current ps) + 1 \<and> 0 \<le> phaseRank (ps_current ps)"
  by (auto simp: phase_Advance_def split: phase.splits)

lemma rank_complete: "phaseRank p = 6 \<longleftrightarrow> p = PhaseComplete"
  by (cases p) simp_all

lemma answered_by:
  "fold (answer e) ws results i = (if results i = None \<and> i \<in> fst ` set ws then Some e else results i)"
proof (induction ws arbitrary: results)
  case (Cons w ws)
  show ?case unfolding fold_simps Cons.IH by (auto simp: answer_def split: option.splits)
qed simp

text \<open>What an advance changes: the phase moves one up, the waiters it reaches are answered.\<close>

lemma advance_cases:
  assumes "advanceAndPublishLocked ck s = Some s'"
  shows "s' = s \<or>
    (current_rank s' = current_rank s + 1
     \<and> sm_results s' = fold (answer None) (filter (\<lambda>w. phaseRank (snd w) \<le> current_rank s') (sm_waiters s)) (sm_results s)
     \<and> sm_waiters s' = filter (\<lambda>w. \<not> phaseRank (snd w) \<le> current_rank s') (sm_waiters s)
     \<and> sm_terminal s' = sm_terminal s \<and> sm_samples s' = sm_samples s \<and> sm_stop_closed s' = sm_stop_closed s
     \<and> sm_stopped s' = sm_stopped s \<and> sm_running s' = sm_running s
     \<and> (sm_notified s' \<longleftrightarrow> sm_notified s \<or> current_rank s' = 3) \<and> (sm_stimulus_closed s' \<longleftrightarrow> sm_stimulus_closed s \<or> sm_notified s' \<and> \<not> sm_notified s))"
proof -
  obtain adv ps where a: "phase_Advance (ck_advance ck) (sm_phase s) = (adv, ps)" by (cases "phase_Advance (ck_advance ck) (sm_phase s)")
  have stim: "p = PhaseStimulus \<longleftrightarrow> phaseRank p = 3" for p by (cases p) simp_all
  show ?thesis
  proof (cases "Remaining (ck_first ck) (sm_phase s) > 0 \<and> \<not> ShouldAdvance (ck_second ck) (sm_phase s) \<or> \<not> adv")
    case True
    then show ?thesis using assms a by (auto simp: advanceAndPublishLocked_def split: if_splits)
  next
    case False
    then have "phaseRank (ps_current ps) = current_rank s + 1" using a phase_Advance_rank by simp
    with False show ?thesis using assms a
      by (auto simp: advanceAndPublishLocked_def Let_def stim split: if_splits)
  qed
qed

subsection \<open>Every wait is answered\<close>

definition call_ok :: "sampler \<Rightarrow> wait_call \<Rightarrow> bool" where
  "call_ok s c =
     (case wl_pc c of
        Waiting \<Rightarrow> (case sm_results s (wl_id c) of
            None \<Rightarrow> (wl_id c, wl_target c) \<in> set (sm_waiters s)
          | Some None \<Rightarrow> phaseRank (wl_target c) \<le> current_rank s
          | Some (Some e) \<Rightarrow> sm_terminal s = Some e)
      | Returned None \<Rightarrow> phaseRank (wl_target c) \<le> current_rank s
      | Returned (Some e) \<Rightarrow> True
      | _ \<Rightarrow> sm_results s (wl_id c) = None)"

definition waits_ok :: "sampler \<Rightarrow> wait_call list \<Rightarrow> bool" where
  "waits_ok s calls \<longleftrightarrow> distinct (map wl_id calls) \<and> (\<forall>c \<in> set calls. call_ok s c)
     \<and> (\<forall>(i, p) \<in> set (sm_waiters s). sm_results s i = None \<and> current_rank s < phaseRank p
          \<and> (\<exists>c \<in> set calls. wl_id c = i \<and> wl_target c = p \<and> wl_pc c = Waiting))
     \<and> dom (sm_results s) \<subseteq> wl_id ` set calls"

definition loop_ok :: "sampler \<Rightarrow> loop_pc \<Rightarrow> bool" where
  "loop_ok s lp \<longleftrightarrow> (sm_terminal s = None \<longleftrightarrow> lp \<noteq> Ending \<and> lp \<noteq> Ended) \<and> (lp = Ended \<longrightarrow> sm_waiters s = [])"

text \<open>Steps that touch neither answers nor waiters.\<close>

definition quiet :: "sampler \<Rightarrow> sampler \<Rightarrow> bool" where
  "quiet s s' \<longleftrightarrow> sm_results s' = sm_results s \<and> sm_waiters s' = sm_waiters s \<and> sm_terminal s' = sm_terminal s
     \<and> sm_phase s' = sm_phase s"

lemma quiet_ok: "quiet s s' \<Longrightarrow> waits_ok s calls \<Longrightarrow> waits_ok s' calls" "quiet s s' \<Longrightarrow> loop_ok s lp \<Longrightarrow> loop_ok s' lp"
proof -
  assume q: "quiet s s'"
  then have "call_ok s' c = call_ok s c" for c by (simp add: quiet_def call_ok_def split: call_pc.splits option.splits)
  with q show "waits_ok s calls \<Longrightarrow> waits_ok s' calls" by (simp add: waits_ok_def quiet_def)
  from q show "loop_ok s lp \<Longrightarrow> loop_ok s' lp" by (simp add: loop_ok_def quiet_def)
qed

lemma quiet_ops:
  "Start now s = (b, s') \<Longrightarrow> quiet s s'" "Stop_begin s = Some (b, s') \<Longrightarrow> quiet s s'" "quiet s (Stop_end now s)"
  "StimulusReady s = Some s' \<Longrightarrow> quiet s s'" "quiet s (RecordCgroupCapability now pid capability path err controller nsproof s)"
  "quiet s (SetCgroupPath path s)" "keep_sample x n prev scheduled s = (s', lp) \<Longrightarrow> quiet s s'"
  by (auto simp: quiet_def Start_def Stop_begin_def Stop_end_def recordEventLocked_def StimulusReady_def RecordCgroupCapability_def
      SetCgroupPath_def keep_sample_def split: if_splits option.splits)

end
