(* ===== verification/Lab_Waits.thy ===== *)
theory Lab_Waits
  imports Lab_Sampling
begin

section \<open>Runs of the sampler\<close>

text \<open>
  The invariant of the sampler's goroutines and what follows from it: every call that waits for a
  phase is answered, rightly (\<open>every_wait_answered\<close>), the samples are in order and stay as they are after
  the end (\<open>samples_in_order\<close>), and no channel is closed twice (\<open>sampler_never_panics\<close>).
\<close>

subsection \<open>The calls at each step\<close>

lemma waits_okD:
  assumes "waits_ok s calls"
  shows "c \<in> set calls \<Longrightarrow> call_ok s c" "c \<in> set calls \<Longrightarrow> c' \<in> set calls \<Longrightarrow> wl_id c = wl_id c' \<Longrightarrow> c = c'"
    "(i, p) \<in> set (sm_waiters s) \<Longrightarrow> sm_results s i = None \<and> current_rank s < phaseRank p
       \<and> (\<exists>c \<in> set calls. wl_id c = i \<and> wl_target c = p \<and> wl_pc c = Waiting)"
    "sm_results s i \<noteq> None \<Longrightarrow> i \<in> wl_id ` set calls"
  using assms by (auto simp: waits_ok_def distinct_map inj_on_def)

lemma not_waiting:
  assumes "waits_ok s calls" "c \<in> set calls" "wl_pc c \<noteq> Waiting"
  shows "(wl_id c, p) \<notin> set (sm_waiters s)"
  using waits_okD(2,3)[OF assms(1)] assms(2,3) by metis

lemma waits_advance:
  assumes "waits_ok s calls" "advanceAndPublishLocked ck s = Some s'"
  shows "waits_ok s' calls"
  using advance_cases[OF assms(2)]
proof (elim disjE conjE)
  assume rank: "current_rank s' = current_rank s + 1"
    and res: "sm_results s' = fold (answer None) (filter (\<lambda>w. phaseRank (snd w) \<le> current_rank s') (sm_waiters s)) (sm_results s)"
    and ws: "sm_waiters s' = filter (\<lambda>w. \<not> phaseRank (snd w) \<le> current_rank s') (sm_waiters s)"
    and tm: "sm_terminal s' = sm_terminal s"
  note ok = waits_okD[OF assms(1)]
  have target: "phaseRank (wl_target c) = phaseRank p" if "c \<in> set calls" "(wl_id c, p) \<in> set (sm_waiters s)" for c p
    using ok(3)[OF that(2)] ok(2) that(1) by metis
  have r: "sm_results s' i = (if sm_results s i = None \<and> (\<exists>p. (i, p) \<in> set (sm_waiters s) \<and> phaseRank p \<le> current_rank s')
      then Some None else sm_results s i)" for i
    unfolding res answered_by by force
  have fresh: "sm_results s' (wl_id c) = sm_results s (wl_id c)" if "c \<in> set calls" "wl_pc c \<noteq> Waiting" for c
    using not_waiting[OF assms(1) that] unfolding r by metis
  have calls: "call_ok s' c" if c: "c \<in> set calls" for c
  proof -
    have k: "call_ok s c" using ok(1) c by blast
    show ?thesis
    proof (cases "wl_pc c")
      case Waiting
      show ?thesis
      proof (cases "sm_results s (wl_id c)")
        case None
        then have w: "(wl_id c, wl_target c) \<in> set (sm_waiters s)" using k by (simp add: call_ok_def Waiting)
        show ?thesis
        proof (cases "phaseRank (wl_target c) \<le> current_rank s'")
          case True
          with w None have "sm_results s' (wl_id c) = Some None" unfolding r by metis
          with True show ?thesis by (simp add: call_ok_def Waiting)
        next
          case False
          with target[OF c] None have "sm_results s' (wl_id c) = None" unfolding r by metis
          with False w show ?thesis by (simp add: call_ok_def Waiting ws)
        qed
      next
        case (Some a)
        then have "sm_results s' (wl_id c) = Some a" by (simp add: r)
        with Some k rank show ?thesis by (cases a) (simp_all add: call_ok_def Waiting tm)
      qed
    next
      case (Returned x)
      then show ?thesis using k rank by (cases x) (auto simp: call_ok_def)
    qed (use k fresh[OF c] in \<open>simp_all add: call_ok_def\<close>)
  qed
  have "sm_results s' i = None \<and> current_rank s' < phaseRank p \<and> (\<exists>c \<in> set calls. wl_id c = i \<and> wl_target c = p \<and> wl_pc c = Waiting)"
    if "(i, p) \<in> set (sm_waiters s')" for i p
  proof -
    have w: "(i, p) \<in> set (sm_waiters s)" "\<not> phaseRank p \<le> current_rank s'" using that by (auto simp: ws)
    have "p' = p" if "(i, p') \<in> set (sm_waiters s)" for p'
      using ok(3)[OF that] ok(3)[OF w(1)] ok(2) by metis
    then have "sm_results s' i = sm_results s i" using w unfolding r by metis
    then show ?thesis using ok(3)[OF w(1)] w(2) by simp
  qed
  moreover have "dom (sm_results s') \<subseteq> wl_id ` set calls"
  proof
    fix i assume "i \<in> dom (sm_results s')"
    then have "sm_results s i \<noteq> None \<or> (\<exists>p. (i, p) \<in> set (sm_waiters s))" unfolding domIff r by metis
    then show "i \<in> wl_id ` set calls" using ok(3,4) by blast
  qed
  ultimately show ?thesis using assms(1) calls by (auto simp: waits_ok_def)
qed (use assms(1) in simp)

lemma waits_finish:
  assumes "waits_ok s calls" "sm_terminal s = Some e"
  shows "waits_ok (finish_loop s) calls"
proof -
  note ok = waits_okD[OF assms(1)]
  have r: "sm_results (finish_loop s) i = (if sm_results s i = None \<and> i \<in> fst ` set (sm_waiters s) then Some (Some e) else sm_results s i)" for i
    by (simp add: finish_loop_def assms(2) answered_by)
  have f: "sm_waiters (finish_loop s) = []" "sm_phase (finish_loop s) = sm_phase s" "sm_terminal (finish_loop s) = Some e"
    using assms(2) by (simp_all add: finish_loop_def)
  have fresh: "sm_results (finish_loop s) (wl_id c) = sm_results s (wl_id c)" if "c \<in> set calls" "wl_pc c \<noteq> Waiting" for c
    using not_waiting[OF assms(1) that] by (force simp: r)
  have "call_ok (finish_loop s) c" if c: "c \<in> set calls" for c
  proof -
    have k: "call_ok s c" using ok(1) c by blast
    show ?thesis
    proof (cases "wl_pc c")
      case Waiting
      with k show ?thesis by (force simp: call_ok_def r f assms(2) split: option.splits)
    next
      case (Returned x)
      then show ?thesis using k by (cases x) (auto simp: call_ok_def f)
    qed (use k fresh[OF c] in \<open>simp_all add: call_ok_def\<close>)
  qed
  moreover have "dom (sm_results (finish_loop s)) \<subseteq> wl_id ` set calls"
  proof
    fix i assume "i \<in> dom (sm_results (finish_loop s))"
    then have "sm_results s i \<noteq> None \<or> (\<exists>p. (i, p) \<in> set (sm_waiters s))" by (force simp: r split: if_splits)
    then show "i \<in> wl_id ` set calls" using ok(3,4) by blast
  qed
  ultimately show ?thesis using assms(1) by (simp add: waits_ok_def f)
qed

lemma waits_terminal:
  assumes "waits_ok s calls" "sm_terminal s = None"
  shows "waits_ok (s\<lparr>sm_terminal := Some e\<rparr>) calls"
proof -
  have "call_ok (s\<lparr>sm_terminal := Some e\<rparr>) c" if "call_ok s c" for c
    using that assms(2) by (auto simp: call_ok_def split: call_pc.splits option.splits)
  then show ?thesis using assms(1) by (simp add: waits_ok_def)
qed

text \<open>A step of one call: the other calls must not notice, the call itself must be right afterwards.\<close>

lemma waits_call:
  assumes ok: "waits_ok s (xs @ c # ys)" and id: "wl_id c' = wl_id c"
    and others: "\<And>d. d \<in> set (xs @ ys) \<Longrightarrow> wl_id d \<noteq> wl_id c \<Longrightarrow> call_ok s d \<Longrightarrow> call_ok s' d"
    and self: "call_ok s' c'"
    and ws: "\<And>i p. (i, p) \<in> set (sm_waiters s') \<Longrightarrow> i = wl_id c \<Longrightarrow> wl_target c' = p \<and> wl_pc c' = Waiting"
    and state: "\<And>w. w \<in> set (sm_waiters s') \<Longrightarrow> w \<in> set (sm_waiters s) \<or> fst w = wl_id c \<and> current_rank s < phaseRank (snd w)"
    "sm_results s' = sm_results s" "sm_phase s' = sm_phase s"
    "(\<exists>p. (wl_id c, p) \<in> set (sm_waiters s')) \<Longrightarrow> sm_results s (wl_id c) = None"
  shows "waits_ok s' (xs @ c' # ys)"
proof -
  note k = waits_okD[OF ok]
  have d: "distinct (map wl_id (xs @ c' # ys))" using ok by (simp add: waits_ok_def id)
  have calls: "call_ok s' d" if "d \<in> set (xs @ c' # ys)" for d
  proof (cases "d = c'")
    case False
    with that have dm: "d \<in> set (xs @ ys)" by auto
    then have "wl_id d \<noteq> wl_id c" using ok by (auto simp: waits_ok_def image_iff)
    with dm show ?thesis using others k(1)[of d] by auto
  qed (simp add: self)
  have waiters: "sm_results s' i = None \<and> current_rank s' < phaseRank p \<and> (\<exists>e \<in> set (xs @ c' # ys). wl_id e = i \<and> wl_target e = p \<and> wl_pc e = Waiting)"
    if w: "(i, p) \<in> set (sm_waiters s')" for i p
  proof (cases "i = wl_id c")
    case True
    then show ?thesis using w ws[OF w True] state(1)[OF w] state(2-4) k(3)[of i p] by (auto simp: id)
  next
    case False
    then have "(i, p) \<in> set (sm_waiters s)" using state(1)[OF w] by auto
    then show ?thesis using k(3)[of i p] False state(2,3) by auto
  qed
  have "dom (sm_results s') \<subseteq> wl_id ` set (xs @ c' # ys)" using ok by (simp add: waits_ok_def state(2) id)
  with d calls waiters show ?thesis unfolding waits_ok_def by blast
qed

subsection \<open>The invariant of a run\<close>

definition samples_ok :: "sampler \<Rightarrow> loop_pc \<Rightarrow> bool" where
  "samples_ok s lp \<longleftrightarrow> map mm_seq (sm_samples s) = map int [0..<length (sm_samples s)]
     \<and> sorted (map (\<lambda>x. phaseRank (mm_phase x)) (sm_samples s)) \<and> 0 \<le> current_rank s
     \<and> (\<forall>x \<in> set (sm_samples s). 0 \<le> phaseRank (mm_phase x) \<and> phaseRank (mm_phase x) \<le> min 5 (current_rank s) \<and> 0 < mm_pid x)
     \<and> (case lp of NotStarted \<Rightarrow> sm_samples s = []
        | Selecting n _ \<Rightarrow> n = int (length (sm_samples s))
        | Reading n _ pid ph _ _ \<Rightarrow> n = int (length (sm_samples s)) \<and> 0 < pid \<and> ph = ps_current (sm_phase s) \<and> ph \<noteq> PhaseComplete
        | _ \<Rightarrow> True)"

definition channels_ok :: "sampler \<Rightarrow> bool" where
  "channels_ok s \<longleftrightarrow> (sm_notified s \<longleftrightarrow> sm_stimulus_closed s) \<and> (sm_stopped s \<longleftrightarrow> sm_stop_closed s)
     \<and> (sm_notified s \<longrightarrow> 3 \<le> current_rank s)"

definition run_ok :: "lab_system \<Rightarrow> bool" where
  "run_ok y \<longleftrightarrow> waits_ok (ly_sampler y) (ly_calls y) \<and> loop_ok (ly_sampler y) (ly_loop y)
     \<and> samples_ok (ly_sampler y) (ly_loop y) \<and> channels_ok (ly_sampler y)"

lemma advance_defined: "channels_ok s \<Longrightarrow> \<exists>s'. advanceAndPublishLocked ck s = Some s'"
  by (auto simp: advanceAndPublishLocked_def channels_ok_def Let_def split: prod.split)

definition identity_of :: "mem_sample \<Rightarrow> int \<times> int \<times> phase" where
  "identity_of x = (mm_seq x, mm_pid x, mm_phase x)"

lemma set_some_keeps:
  "(\<And>v s. identity_of (f v s) = identity_of s) \<Longrightarrow> identity_of s = i \<Longrightarrow> identity_of (set_some f x s) = i"
  by (simp add: set_some_def split: option.split)

lemma reads_keep:
  "identity_of (read_docker px s) = identity_of s" "identity_of (read_smaps v s) = identity_of s"
  "identity_of (read_resources px s) = identity_of s" "identity_of (read_cgroup path px s) = identity_of s"
proof -
  show "identity_of (read_docker px s) = identity_of s"
    unfolding read_docker_def by (rule set_some_keeps) (auto simp: identity_of_def)
  show "identity_of (read_smaps v s) = identity_of s"
    unfolding read_smaps_def by ((rule set_some_keeps, simp add: identity_of_def)+) (rule refl)
  show "identity_of (read_resources px s) = identity_of s"
    unfolding read_resources_def by ((rule set_some_keeps, force simp: identity_of_def)+) (rule refl)
  show "identity_of (read_cgroup path px s) = identity_of s"
    unfolding read_cgroup_def by (cases "path = []") (simp, simp only: if_False, rule set_some_keeps, simp_all add: identity_of_def)
qed

lemma takeSample_fields:
  assumes "takeSample path px pid n ph delayed = Some x"
  shows "mm_seq x = n \<and> mm_pid x = pid \<and> mm_phase x = ph"
proof -
  have "identity_of x = identity_of (blank_sample n (px_now px) pid ph delayed)"
    using assms by (auto simp: takeSample_def Let_def reads_keep split: smaps_read.splits)
  then show ?thesis by (simp add: identity_of_def blank_sample_def)
qed

lemma tick_ok:
  assumes "tick ck scheduled pid n prev s = Some (s', lp)" "waits_ok s calls" "loop_ok s (Selecting n prev)"
    "samples_ok s (Selecting n prev)" "channels_ok s"
  shows "waits_ok s' calls \<and> loop_ok s' lp \<and> samples_ok s' lp \<and> channels_ok s'"
proof -
  have adv: "advanceAndPublishLocked ck s = Some s'"
    and lp: "lp = Selecting n prev \<or> 0 < pid \<and> (\<exists>d. lp = Reading n prev pid (ps_current (sm_phase s')) d scheduled) \<and> ps_current (sm_phase s') \<noteq> PhaseComplete"
    using assms(1) by (auto simp: tick_def Let_def split: if_splits)
  have "waits_ok s' calls" by (rule waits_advance[OF assms(2) adv])
  moreover have c: "sm_terminal s' = sm_terminal s" "sm_samples s' = sm_samples s" "current_rank s \<le> current_rank s'"
    "sm_stopped s' = sm_stopped s" "sm_stop_closed s' = sm_stop_closed s"
    using advance_cases[OF adv] by auto
  moreover have "channels_ok s'"
    using advance_cases[OF adv] assms(5) by (elim disjE) (auto simp: channels_ok_def)
  moreover have "loop_ok s' lp" using assms(3) lp c by (auto simp: loop_ok_def)
  moreover have "samples_ok s' lp" using assms(4) lp c(2,3) by (force simp: samples_ok_def)
  ultimately show ?thesis by blast
qed

lemma store_ok:
  assumes "keep_sample (takeSample path px pid n ph delayed) n prev scheduled s = (s', lp)"
    "loop_ok s (Reading n prev pid ph delayed scheduled)" "samples_ok s (Reading n prev pid ph delayed scheduled)" "channels_ok s"
  shows "loop_ok s' lp \<and> samples_ok s' lp \<and> channels_ok s'"
proof (cases "takeSample path px pid n ph delayed")
  case None
  then have "s' = s" "lp = Selecting n prev" using assms(1) by (auto simp: keep_sample_def)
  with assms show ?thesis by (simp add: loop_ok_def samples_ok_def)
next
  case (Some x)
  then have s': "s' = s\<lparr>sm_samples := sm_samples s @ [x]\<rparr>" "lp = Selecting (n + 1) scheduled"
    using assms(1) by (auto simp: keep_sample_def)
  have x: "mm_seq x = n" "mm_pid x = pid" "mm_phase x = ph" using takeSample_fields[OF Some] by auto
  have "phaseRank ph \<le> 5" using assms(3) phaseRank_range[of ph] rank_complete[of ph] by (auto simp: samples_ok_def)
  with assms(2-4) x show ?thesis unfolding s'
    by (auto simp: loop_ok_def samples_ok_def channels_ok_def sorted_append)
qed

lemma quiet_samples:
  assumes "quiet s s'" "sm_samples s' = sm_samples s" "samples_ok s lp"
  shows "samples_ok s' lp"
  using assms by (cases lp) (simp_all add: quiet_def samples_ok_def)

lemma wait_check_facts:
  "wait_check target s = Some None \<Longrightarrow> phaseRank target \<le> current_rank s"
  "wait_check target s = None \<Longrightarrow> current_rank s < phaseRank target \<and> sm_terminal s = None"
  "complete_check s = Some None \<Longrightarrow> current_rank s = 6"
  by (auto simp: wait_check_def complete_check_def split: if_splits option.splits)

lemma checked_ok:
  assumes ok: "waits_ok s (xs @ c # ys)" and pc: "wl_pc c \<in> {CheckingComplete, Checking, Registering}"
    and r: "r = Some None \<Longrightarrow> phaseRank (wl_target c) \<le> current_rank s" and next_: "next = Checking \<or> next = Registering"
  shows "waits_ok s (xs @ after_check r next c # ys)"
proof (rule waits_call[OF ok])
  have k: "call_ok s c" using waits_okD(1)[OF ok] by simp
  show "call_ok s (after_check r next c)"
    using k pc r next_ by (cases r; cases "the r") (auto simp: call_ok_def after_check_def)
  show "wl_target (after_check r next c) = p \<and> wl_pc (after_check r next c) = Waiting"
    if "(i, p) \<in> set (sm_waiters s)" "i = wl_id c" for i p
    using not_waiting[OF ok, of c p] that pc by auto
  show "sm_results s (wl_id c) = None" if "\<exists>p. (wl_id c, p) \<in> set (sm_waiters s)"
    using waits_okD(3)[OF ok] that by blast
qed (auto simp: after_check_def)

lemma call_ok_waiters:
  "call_ok s d \<Longrightarrow> (wl_id d, wl_target d) \<in> set (sm_waiters s) \<longrightarrow> (wl_id d, wl_target d) \<in> set ws \<Longrightarrow> call_ok (s\<lparr>sm_waiters := ws\<rparr>) d"
  by (auto simp: call_ok_def split: call_pc.splits option.splits)

lemma registered_ok:
  assumes ok: "waits_ok s (xs @ c # ys)" and pc: "wl_pc c = Registering" and r: "wait_check (wl_target c) s = None"
  shows "waits_ok (register_waiter (wl_id c) (wl_target c) s) (xs @ after_check None Waiting c # ys)"
proof (rule waits_call[OF ok])
  have k: "call_ok s c" using waits_okD(1)[OF ok] by simp
  show "call_ok (register_waiter (wl_id c) (wl_target c) s) (after_check None Waiting c)"
    using k pc by (simp add: call_ok_def after_check_def register_waiter_def)
  show "call_ok (register_waiter (wl_id c) (wl_target c) s) d" if "call_ok s d" for d
    using that unfolding register_waiter_def by (rule call_ok_waiters) simp
  show "wl_target (after_check None Waiting c) = p \<and> wl_pc (after_check None Waiting c) = Waiting"
    if "(i, p) \<in> set (sm_waiters (register_waiter (wl_id c) (wl_target c) s))" "i = wl_id c" for i p
    using not_waiting[OF ok, of c p] that pc by (auto simp: register_waiter_def after_check_def)
  show "w \<in> set (sm_waiters s) \<or> fst w = wl_id c \<and> current_rank s < phaseRank (snd w)"
    if "w \<in> set (sm_waiters (register_waiter (wl_id c) (wl_target c) s))" for w
    using that wait_check_facts(2)[OF r] by (auto simp: register_waiter_def)
  show "sm_results s (wl_id c) = None" using k pc by (simp add: call_ok_def)
qed (auto simp: after_check_def register_waiter_def)

lemma returned_ok:
  assumes ok: "waits_ok s (xs @ c # ys)" and pc: "wl_pc c = Waiting" and r: "sm_results s (wl_id c) = Some r"
  shows "waits_ok s (xs @ c\<lparr>wl_pc := Returned r\<rparr> # ys)"
proof (rule waits_call[OF ok])
  have k: "call_ok s c" using waits_okD(1)[OF ok] by simp
  show "call_ok s (c\<lparr>wl_pc := Returned r\<rparr>)" using k pc r by (cases r) (simp_all add: call_ok_def)
  show "wl_target (c\<lparr>wl_pc := Returned r\<rparr>) = p \<and> wl_pc (c\<lparr>wl_pc := Returned r\<rparr>) = Waiting"
    if "(i, p) \<in> set (sm_waiters s)" "i = wl_id c" for i p
    using waits_okD(3)[OF ok that(1)] that(2) r by auto
  show "sm_results s (wl_id c) = None" if "\<exists>p. (wl_id c, p) \<in> set (sm_waiters s)"
    using waits_okD(3)[OF ok] that by blast
qed auto

lemma remove_first_sub: "set (remove_first q xs) \<subseteq> set xs"
  by (induction xs) auto

lemma remove_first_other: "x \<in> set xs \<Longrightarrow> \<not> q x \<Longrightarrow> x \<in> set (remove_first q xs)"
  by (induction xs) auto

text \<open>A waiter is listed once, so that a call that gives up leaves nothing behind.\<close>

definition listed_once :: "sampler \<Rightarrow> bool" where
  "listed_once s \<longleftrightarrow> distinct (map fst (sm_waiters s))"

lemma remove_first_gone: "distinct (map fst ws) \<Longrightarrow> (i, p) \<notin> set (remove_first (\<lambda>w. fst w = i) ws)"
  by (induction ws) (auto simp: image_iff)

lemma given_up_ok:
  assumes ok: "waits_ok s (xs @ c # ys)" and pc: "wl_pc c = Waiting" and once: "listed_once s"
  shows "waits_ok (removeWaiterLocked (wl_id c) s) (xs @ c\<lparr>wl_pc := Returned (Some e)\<rparr> # ys)"
proof (rule waits_call[OF ok])
  note gone = remove_first_gone[OF once[unfolded listed_once_def], of "wl_id c"]
  show "call_ok (removeWaiterLocked (wl_id c) s) (c\<lparr>wl_pc := Returned (Some e)\<rparr>)" by (simp add: call_ok_def)
  show "call_ok (removeWaiterLocked (wl_id c) s) d" if "call_ok s d" "wl_id d \<noteq> wl_id c" for d
    using that(1) unfolding removeWaiterLocked_def by (rule call_ok_waiters) (simp add: remove_first_other that(2))
qed (use remove_first_sub[of _ "sm_waiters s"] remove_first_gone[OF once[unfolded listed_once_def]] in \<open>auto simp: removeWaiterLocked_def\<close>)

lemma new_call_ok:
  assumes ok: "waits_ok s calls" and i: "i \<notin> wl_id ` set calls" and pc: "pc = Checking \<or> pc = CheckingComplete"
  shows "waits_ok s (calls @ [\<lparr>wl_id = i, wl_target = target, wl_pc = pc\<rparr>])"
proof -
  have "sm_results s i = None" using ok i by (auto simp: waits_ok_def)
  then have "call_ok s \<lparr>wl_id = i, wl_target = target, wl_pc = pc\<rparr>" using pc by (auto simp: call_ok_def)
  moreover have "\<exists>c \<in> set (calls @ [d]). wl_id c = j \<and> wl_target c = p \<and> wl_pc c = Waiting" if "(j, p) \<in> set (sm_waiters s)" for j p d
    using waits_okD(3)[OF ok that] by auto
  ultimately show ?thesis using ok i unfolding waits_ok_def by (auto simp del: split_paired_All split_paired_Ex)
qed

lemma once_advance: "advanceAndPublishLocked ck s = Some s' \<Longrightarrow> listed_once s \<Longrightarrow> listed_once s'"
  by (drule advance_cases) (auto simp: listed_once_def distinct_map_filter)

lemma once_register:
  assumes "waits_ok s calls" "c \<in> set calls" "wl_pc c \<noteq> Waiting" "listed_once s"
  shows "listed_once (register_waiter (wl_id c) p s)"
  using not_waiting[OF assms(1-3)] assms(4) by (auto simp: listed_once_def register_waiter_def)

lemma once_remove: "listed_once s \<Longrightarrow> listed_once (removeWaiterLocked i s)"
proof -
  have "distinct (map fst ws) \<Longrightarrow> distinct (map fst (remove_first q ws))" for q and ws :: "(nat \<times> phase) list"
    by (induction ws) (use remove_first_sub in fastforce)+
  then show "listed_once s \<Longrightarrow> listed_once (removeWaiterLocked i s)" by (simp add: listed_once_def removeWaiterLocked_def)
qed

subsection \<open>Steps keep the invariant\<close>

lemma quiet_once: "quiet s s' \<Longrightarrow> listed_once s \<Longrightarrow> listed_once s'"
  by (simp add: quiet_def listed_once_def)

lemma quiet_channels:
  "Start now s = (b, s') \<Longrightarrow> \<not> sm_stop_closed s \<Longrightarrow> channels_ok s \<Longrightarrow> channels_ok s'"
  "Stop_begin s = Some (b, s') \<Longrightarrow> channels_ok s \<Longrightarrow> channels_ok s'" "channels_ok s \<Longrightarrow> channels_ok (Stop_end now s)"
  "StimulusReady s = Some s' \<Longrightarrow> channels_ok s \<Longrightarrow> channels_ok s'"
  "channels_ok s \<Longrightarrow> channels_ok (RecordCgroupCapability now pid capability path err controller nsproof s)"
  "channels_ok s \<Longrightarrow> channels_ok (SetCgroupPath path s)"
  by (auto simp: channels_ok_def Start_def Stop_begin_def Stop_end_def recordEventLocked_def StimulusReady_def
      RecordCgroupCapability_def SetCgroupPath_def split: if_splits)

lemma same_samples:
  "Start now s = (b, s') \<Longrightarrow> sm_samples s' = sm_samples s" "Stop_begin s = Some (b, s') \<Longrightarrow> sm_samples s' = sm_samples s"
  "sm_samples (Stop_end now s) = sm_samples s" "StimulusReady s = Some s' \<Longrightarrow> sm_samples s' = sm_samples s"
  "sm_samples (RecordCgroupCapability now pid capability path err controller nsproof s) = sm_samples s"
  "sm_samples (SetCgroupPath path s) = sm_samples s" "sm_samples (register_waiter i p s) = sm_samples s"
  "sm_samples (removeWaiterLocked i s) = sm_samples s" "sm_samples (finish_loop s) = sm_samples s"
  by (auto simp: Start_def Stop_begin_def Stop_end_def recordEventLocked_def StimulusReady_def RecordCgroupCapability_def
      SetCgroupPath_def register_waiter_def removeWaiterLocked_def finish_loop_def split: if_splits)

definition sys_ok :: "lab_system \<Rightarrow> bool" where
  "sys_ok y \<longleftrightarrow> run_ok y \<and> listed_once (ly_sampler y)"

lemma quiet_step:
  assumes "sys_ok y" "quiet (ly_sampler y) s'" "sm_samples s' = sm_samples (ly_sampler y)" "channels_ok (ly_sampler y) \<Longrightarrow> channels_ok s'"
  shows "sys_ok (y\<lparr>ly_sampler := s'\<rparr>)" "sys_ok (y\<lparr>ly_sampler := s', ly_stopping := b\<rparr>)"
  using assms quiet_ok[OF assms(2)] quiet_samples[OF assms(2,3)] quiet_once[OF assms(2)]
  by (simp_all add: sys_ok_def run_ok_def)

lemma calls_step:
  assumes "sys_ok y" "waits_ok s' calls" "listed_once s'" "sm_samples s' = sm_samples (ly_sampler y)" "sm_phase s' = sm_phase (ly_sampler y)"
    "channels_ok (ly_sampler y) \<Longrightarrow> channels_ok s'" "loop_ok (ly_sampler y) (ly_loop y) \<Longrightarrow> loop_ok s' (ly_loop y)"
  shows "sys_ok (y\<lparr>ly_sampler := s', ly_calls := calls\<rparr>)"
  using assms by (cases "ly_loop y") (simp_all add: sys_ok_def run_ok_def samples_ok_def)

lemma loop_step:
  assumes "sys_ok y" "waits_ok s' (ly_calls y)" "listed_once s'" "loop_ok s' lp" "samples_ok s' lp" "channels_ok s'"
  shows "sys_ok (y\<lparr>ly_sampler := s', ly_loop := lp\<rparr>)"
  using assms by (simp add: sys_ok_def run_ok_def)

lemma step_ok: "lab_step y y' \<Longrightarrow> sys_ok y \<Longrightarrow> sys_ok y'"
proof (induction rule: lab_step.induct)
  case (start now y s' begun)
  have q: "quiet (ly_sampler y) s'" by (rule quiet_ops(1)[OF start(1)])
  have m: "sm_samples s' = sm_samples (ly_sampler y)" by (rule same_samples(1)[OF start(1)])
  have o: "waits_ok (ly_sampler y) (ly_calls y)" "loop_ok (ly_sampler y) NotStarted" "samples_ok (ly_sampler y) NotStarted"
    "channels_ok (ly_sampler y)" "listed_once (ly_sampler y)" using start(2,4) by (simp_all add: sys_ok_def run_ok_def)
  have "samples_ok s' NotStarted" by (rule quiet_samples[OF q m o(3)])
  then have "samples_ok s' (Selecting 0 begun)" by (simp add: samples_ok_def)
  moreover have "loop_ok s' (Selecting 0 begun)" using quiet_ok(2)[OF q o(2)] by (simp add: loop_ok_def)
  ultimately show ?case
    using loop_step[OF start(4) quiet_ok(1)[OF q o(1)] quiet_once[OF q o(5)]] quiet_channels(1)[OF start(1,3) o(4)] by blast
next
  case (tick y n prev ck scheduled pid s' lp)
  have o: "waits_ok (ly_sampler y) (ly_calls y)" "loop_ok (ly_sampler y) (Selecting n prev)" "samples_ok (ly_sampler y) (Selecting n prev)"
    "channels_ok (ly_sampler y)" "listed_once (ly_sampler y)" using tick(1,3) by (simp_all add: sys_ok_def run_ok_def)
  have "listed_once s'" using tick(2) once_advance[of ck "ly_sampler y"] o(5) by (auto simp: tick_def Let_def)
  then show ?case using loop_step[OF tick(3)] tick_ok[OF tick(2) o(1-4)] by blast
next
  case (read y n prev pid ph delayed scheduled px s' lp)
  have o: "waits_ok (ly_sampler y) (ly_calls y)" "loop_ok (ly_sampler y) (Reading n prev pid ph delayed scheduled)"
    "samples_ok (ly_sampler y) (Reading n prev pid ph delayed scheduled)" "channels_ok (ly_sampler y)" "listed_once (ly_sampler y)"
    using read(1,3) by (simp_all add: sys_ok_def run_ok_def)
  note q = quiet_ops(7)[OF read(2)]
  show ?case using loop_step[OF read(3) quiet_ok(1)[OF q o(1)] quiet_once[OF q o(5)]] store_ok[OF read(2) o(2-4)] by blast
next
  case (cancelled y n prev e)
  let ?s = "(ly_sampler y)\<lparr>sm_terminal := Some (ContextError e)\<rparr>"
  have o: "waits_ok (ly_sampler y) (ly_calls y)" "sm_terminal (ly_sampler y) = None" "samples_ok (ly_sampler y) (Selecting n prev)"
    "channels_ok (ly_sampler y)" "listed_once (ly_sampler y)" using cancelled by (simp_all add: sys_ok_def run_ok_def loop_ok_def)
  show ?case using o by (intro loop_step[OF cancelled(2) waits_terminal[OF o(1,2)]])
    (simp_all add: listed_once_def loop_ok_def samples_ok_def channels_ok_def)
next
  case (stopped y n prev)
  let ?s = "(ly_sampler y)\<lparr>sm_terminal := Some ErrSamplerStopped\<rparr>"
  have o: "waits_ok (ly_sampler y) (ly_calls y)" "sm_terminal (ly_sampler y) = None" "samples_ok (ly_sampler y) (Selecting n prev)"
    "channels_ok (ly_sampler y)" "listed_once (ly_sampler y)" using stopped by (simp_all add: sys_ok_def run_ok_def loop_ok_def)
  show ?case using o by (intro loop_step[OF stopped(3) waits_terminal[OF o(1,2)]])
    (simp_all add: listed_once_def loop_ok_def samples_ok_def channels_ok_def)
next
  case (finish y)
  have o: "waits_ok (ly_sampler y) (ly_calls y)" "sm_terminal (ly_sampler y) \<noteq> None" "samples_ok (ly_sampler y) Ending"
    "channels_ok (ly_sampler y)" using finish by (simp_all add: sys_ok_def run_ok_def loop_ok_def)
  obtain e where e: "sm_terminal (ly_sampler y) = Some e" using o(2) by blast
  show ?case using o(3,4) e by (intro loop_step[OF finish(2) waits_finish[OF o(1) e]])
    (simp_all add: finish_loop_def listed_once_def loop_ok_def samples_ok_def channels_ok_def)
next
  case (stop y waits s')
  show ?case by (rule quiet_step(2)[OF stop(2) quiet_ops(2)[OF stop(1)] same_samples(2)[OF stop(1)] quiet_channels(2)[OF stop(1)]])
next
  case (stop_return y now)
  show ?case by (rule quiet_step(2)[OF stop_return(3) quiet_ops(3) same_samples(3) quiet_channels(3)])
next
  case (stimulus y s')
  show ?case by (rule quiet_step(1)[OF stimulus(2) quiet_ops(4)[OF stimulus(1)] same_samples(4)[OF stimulus(1)] quiet_channels(4)[OF stimulus(1)]])
next
  case (capability y now pid capability path err controller nsproof)
  show ?case by (rule quiet_step(1)[OF capability quiet_ops(5) same_samples(5) quiet_channels(5)])
next
  case (cgroup_path y path)
  show ?case by (rule quiet_step(1)[OF cgroup_path quiet_ops(6) same_samples(6) quiet_channels(6)])
next
  case (call i y pc target)
  have "waits_ok (ly_sampler y) (ly_calls y)" using call(3) by (simp add: sys_ok_def run_ok_def)
  then show ?case using call new_call_ok[of "ly_sampler y" "ly_calls y" i pc target] by (auto simp: sys_ok_def run_ok_def)
next
  case (check_complete y xs c ys)
  have o: "waits_ok (ly_sampler y) (xs @ c # ys)" using check_complete by (simp add: sys_ok_def run_ok_def)
  have "waits_ok (ly_sampler y) (xs @ after_check (complete_check (ly_sampler y)) Checking c # ys)"
    using wait_check_facts(3)[of "ly_sampler y"] phaseRank_range[of "wl_target c"] check_complete(2) by (intro checked_ok[OF o]) auto
  then show ?case using check_complete(3) by (simp add: sys_ok_def run_ok_def)
next
  case (check y xs c ys)
  have o: "waits_ok (ly_sampler y) (xs @ c # ys)" using check by (simp add: sys_ok_def run_ok_def)
  have "waits_ok (ly_sampler y) (xs @ after_check (wait_check (wl_target c) (ly_sampler y)) Registering c # ys)"
    using wait_check_facts(1)[of "wl_target c" "ly_sampler y"] check(2) by (intro checked_ok[OF o]) auto
  then show ?case using check(3) by (simp add: sys_ok_def run_ok_def)
next
  case (register y xs c ys r)
  have o: "waits_ok (ly_sampler y) (xs @ c # ys)" "listed_once (ly_sampler y)" using register by (simp_all add: sys_ok_def run_ok_def)
  show ?case
  proof (cases r)
    case None
    have w: "waits_ok (register_waiter (wl_id c) (wl_target c) (ly_sampler y)) (xs @ after_check None Waiting c # ys)"
      using register(3) None by (intro registered_ok[OF o(1) register(2)]) simp
    have l: "listed_once (register_waiter (wl_id c) (wl_target c) (ly_sampler y))"
      using once_register[OF o(1) _ _ o(2), of c] register(2) by simp
    have t: "sm_terminal (ly_sampler y) = None" using wait_check_facts(2)[of "wl_target c" "ly_sampler y"] register(3) None by simp
    show ?thesis unfolding None using t
      by (simp, intro calls_step[OF register(4) w l]) (simp_all add: register_waiter_def channels_ok_def loop_ok_def)
  next
    case (Some e)
    have "waits_ok (ly_sampler y) (xs @ after_check r Registering c # ys)"
      using wait_check_facts(1)[of "wl_target c" "ly_sampler y"] register(2,3) by (intro checked_ok[OF o(1)]) auto
    moreover have "after_check r Registering c = after_check r Waiting c" by (simp add: after_check_def Some)
    ultimately show ?thesis using register(4) by (simp add: sys_ok_def run_ok_def Some)
  qed
next
  case (answered y xs c ys r)
  have o: "waits_ok (ly_sampler y) (xs @ c # ys)" using answered by (simp add: sys_ok_def run_ok_def)
  show ?case using returned_ok[OF o answered(2,3)] answered(4) by (simp add: sys_ok_def run_ok_def)
next
  case (given_up y xs c ys e)
  have o: "waits_ok (ly_sampler y) (xs @ c # ys)" "listed_once (ly_sampler y)" using given_up by (simp_all add: sys_ok_def run_ok_def)
  show ?case using given_up_ok[OF o(1) given_up(2) o(2)] once_remove[OF o(2)]
    by (intro calls_step[OF given_up(3)]) (auto simp: removeWaiterLocked_def channels_ok_def loop_ok_def)
qed

lemma reachable_ok: "lab_reachable cfg y \<Longrightarrow> sys_ok y"
proof (induction rule: lab_reachable.induct)
  case (init now)
  show ?case by (simp add: sys_ok_def run_ok_def NewSampler_def NewPhaseState_def waits_ok_def loop_ok_def samples_ok_def channels_ok_def
      listed_once_def)
qed (rule step_ok)

lemma ended_stays: "lab_step y y' \<Longrightarrow> ly_loop y = Ended \<Longrightarrow> ly_loop y' = Ended \<and> sm_samples (ly_sampler y') = sm_samples (ly_sampler y)"
  by (induction rule: lab_step.induct) (auto simp: same_samples)

lemma ended_forever:
  "lab_step\<^sup>*\<^sup>* y y' \<Longrightarrow> ly_loop y = Ended \<Longrightarrow> ly_loop y' = Ended \<and> sm_samples (ly_sampler y') = sm_samples (ly_sampler y)"
  by (induction rule: rtranclp_induct) (use ended_stays in force)+

subsection \<open>What holds in every run\<close>

text \<open>No close of a channel happens twice: no operation of a running sampler panics.\<close>

lemma sampler_never_panics:
  assumes "lab_reachable cfg y"
  shows "StimulusReady (ly_sampler y) \<noteq> None" "Stop_begin (ly_sampler y) \<noteq> None" "advanceAndPublishLocked ck (ly_sampler y) \<noteq> None"
proof -
  have c: "channels_ok (ly_sampler y)" using reachable_ok[OF assms] by (simp add: sys_ok_def run_ok_def)
  then show "StimulusReady (ly_sampler y) \<noteq> None" "Stop_begin (ly_sampler y) \<noteq> None"
    by (auto simp: channels_ok_def StimulusReady_def Stop_begin_def)
  show "advanceAndPublishLocked ck (ly_sampler y) \<noteq> None" using advance_defined[OF c] by blast
qed

text \<open>
  C12. No wait of the sampler is lost and none is answered wrongly, however calls, phase changes, stops and
  cancelled contexts interleave. A call that returned without an error has had its phase reached. A call that
  waits has its answer in the channel (no error only if the phase is reached, otherwise the error
  that ended the sampling), or is registered for a phase that is still to come while the sampling
  goes on. A call that is still at its checks, once its phase is reached or the sampling has ended, is
  answered by its next check.
\<close>

theorem every_wait_answered:
  assumes "lab_reachable cfg y" "c \<in> set (ly_calls y)"
  shows "(wl_pc c = Returned None \<longrightarrow> phaseRank (wl_target c) \<le> current_rank (ly_sampler y))
    \<and> (wl_pc c = Waiting \<longrightarrow>
        (case sm_results (ly_sampler y) (wl_id c) of
           Some None \<Rightarrow> phaseRank (wl_target c) \<le> current_rank (ly_sampler y)
         | Some (Some e) \<Rightarrow> sm_terminal (ly_sampler y) = Some e
         | None \<Rightarrow> (wl_id c, wl_target c) \<in> set (sm_waiters (ly_sampler y))
             \<and> current_rank (ly_sampler y) < phaseRank (wl_target c) \<and> ly_loop y \<noteq> Ended))
    \<and> (wl_pc c \<in> {CheckingComplete, Checking, Registering}
         \<and> (phaseRank (wl_target c) \<le> current_rank (ly_sampler y) \<or> ly_loop y = Ended)
        \<longrightarrow> wait_check (wl_target c) (ly_sampler y) \<noteq> None)"
proof -
  have ok: "waits_ok (ly_sampler y) (ly_calls y)" "loop_ok (ly_sampler y) (ly_loop y)"
    using reachable_ok[OF assms(1)] by (simp_all add: sys_ok_def run_ok_def)
  have k: "call_ok (ly_sampler y) c" using waits_okD(1)[OF ok(1) assms(2)] .
  have "ly_loop y \<noteq> Ended" if "(wl_id c, p) \<in> set (sm_waiters (ly_sampler y))" for p
    using ok(2) that by (auto simp: loop_ok_def)
  then have wait: "wl_pc c = Waiting \<Longrightarrow> sm_results (ly_sampler y) (wl_id c) = None \<Longrightarrow>
      (wl_id c, wl_target c) \<in> set (sm_waiters (ly_sampler y)) \<and> current_rank (ly_sampler y) < phaseRank (wl_target c) \<and> ly_loop y \<noteq> Ended"
    using k waits_okD(3)[OF ok(1)] by (simp add: call_ok_def)
  have ended: "ly_loop y = Ended \<Longrightarrow> wait_check (wl_target c) (ly_sampler y) \<noteq> None"
    using ok(2) by (auto simp: loop_ok_def wait_check_def)
  show ?thesis using k wait ended by (auto simp: call_ok_def wait_check_def split: option.split)
qed

text \<open>
  C23. The samples of a run are numbered from 0 without gaps, belong to a live process, and their phases
  never go back, never pass the current phase and never are the terminal one; once the sampling has
  ended they never change again, whatever the other goroutines do.
\<close>

theorem samples_in_order:
  assumes "lab_reachable cfg y"
  shows "map mm_seq (sm_samples (ly_sampler y)) = map int [0..<length (sm_samples (ly_sampler y))]
    \<and> sorted (map (\<lambda>x. phaseRank (mm_phase x)) (sm_samples (ly_sampler y)))
    \<and> (\<forall>x \<in> set (sm_samples (ly_sampler y)). 0 \<le> phaseRank (mm_phase x) \<and> phaseRank (mm_phase x) \<le> min 5 (current_rank (ly_sampler y)) \<and> 0 < mm_pid x)
    \<and> (ly_loop y = Ended \<longrightarrow> (\<forall>y'. lab_step\<^sup>*\<^sup>* y y' \<longrightarrow> sm_samples (ly_sampler y') = sm_samples (ly_sampler y)))"
proof -
  have "samples_ok (ly_sampler y) (ly_loop y)" using reachable_ok[OF assms] by (simp add: sys_ok_def run_ok_def)
  then show ?thesis unfolding samples_ok_def using ended_forever[of y] by blast
qed

subsection \<open>A run\<close>

definition reads_example :: proc_reads where
  "reads_example = \<lparr>px_now = 7, px_docker = None, px_smaps = SmapsFailed, px_threads = Some 3, px_fds = None, px_vmas = None,
     px_start = Some 4, px_cgroup = Map.empty\<rparr>"

definition clock_example :: clock_readings where
  "clock_example = \<lparr>ck_first = 10000000005, ck_second = 10000000005, ck_advance = 10000000005, ck_event = 10000000005\<rparr>"

definition waiting_example :: wait_call where
  "waiting_example = \<lparr>wl_id = 1, wl_target = PhaseWarmup, wl_pc = Waiting\<rparr>"

text \<open>A call waits for the warm-up, the sampler starts, its first tick begins the warm-up and takes a sample, then the context ends.\<close>

lemma run_example:
  "\<exists>y. lab_reachable SmokePhaseConfig y \<and> map mm_seq (sm_samples (ly_sampler y)) = [0] \<and> ly_loop y = Ended
     \<and> waiting_example \<in> set (ly_calls y) \<and> sm_results (ly_sampler y) 1 = Some None"
proof -
  define s0 where "s0 = NewSampler SmokePhaseConfig 0"
  define y0 where "y0 = \<lparr>ly_sampler = s0, ly_loop = NotStarted, ly_calls = [], ly_stopping = False\<rparr>"
  define c where "c = waiting_example"
  define s3 where "s3 = register_waiter 1 PhaseWarmup s0"
  define s4 where "s4 = snd (Start 1 s3)"
  have rank: "current_rank s0 = 0" "sm_terminal s0 = None" "sm_running s3 = False" "sm_stop_closed s3 = False"
    by (simp_all add: s0_def s3_def register_waiter_def NewSampler_def NewPhaseState_def)
  have w: "wait_check PhaseWarmup s0 = None" using rank by (simp add: wait_check_def)
  have "lab_reachable SmokePhaseConfig y0" unfolding y0_def s0_def by (rule lab_reachable.init)
  moreover have "lab_step y0 (y0\<lparr>ly_calls := [c\<lparr>wl_pc := Checking\<rparr>]\<rparr>)"
    using lab_step.call[of 1 y0 Checking PhaseWarmup] by (simp add: y0_def c_def waiting_example_def)
  moreover have "lab_step (y0\<lparr>ly_calls := [c\<lparr>wl_pc := Checking\<rparr>]\<rparr>) (y0\<lparr>ly_calls := [c\<lparr>wl_pc := Registering\<rparr>]\<rparr>)"
    using lab_step.check[of "y0\<lparr>ly_calls := [c\<lparr>wl_pc := Checking\<rparr>]\<rparr>" "[]" "c\<lparr>wl_pc := Checking\<rparr>" "[]"] w
    by (simp add: y0_def c_def after_check_def waiting_example_def)
  moreover have "lab_step (y0\<lparr>ly_calls := [c\<lparr>wl_pc := Registering\<rparr>]\<rparr>) (y0\<lparr>ly_sampler := s3, ly_calls := [c]\<rparr>)"
    using lab_step.register[of "y0\<lparr>ly_calls := [c\<lparr>wl_pc := Registering\<rparr>]\<rparr>" "[]" "c\<lparr>wl_pc := Registering\<rparr>" "[]" None] w
    by (simp add: y0_def c_def after_check_def waiting_example_def s3_def)
  moreover have "lab_step (y0\<lparr>ly_sampler := s3, ly_calls := [c]\<rparr>) (y0\<lparr>ly_sampler := s4, ly_calls := [c], ly_loop := Selecting 0 1\<rparr>)"
    using lab_step.start[of 1 "y0\<lparr>ly_sampler := s3, ly_calls := [c]\<rparr>" s4 1] rank by (simp add: y0_def s4_def Start_def)
  ultimately have r4: "lab_reachable SmokePhaseConfig (y0\<lparr>ly_sampler := s4, ly_calls := [c], ly_loop := Selecting 0 1\<rparr>)"
    by (meson lab_reachable.step)
  have t: "\<exists>s5 d. tick clock_example 10000000006 9 0 1 s4 = Some (s5, Reading 0 1 9 PhaseWarmup d 10000000006)
      \<and> sm_samples s5 = [] \<and> sm_results s5 1 = Some None \<and> sm_waiters s5 = []"
    by (simp add: tick_def advanceAndPublishLocked_def s4_def s3_def s0_def Start_def register_waiter_def recordEventLocked_def
        NewSampler_def NewPhaseState_def Remaining_def clock_example_def SmokePhaseConfig_def seconds_def wrap64_def ns_per_sec_def
        time_sub_def int64_min_def int64_max_def phase_Advance_def answer_def Let_def)
  then obtain s5 d where s5: "tick clock_example 10000000006 9 0 1 s4 = Some (s5, Reading 0 1 9 PhaseWarmup d 10000000006)"
    "sm_samples s5 = []" "sm_results s5 1 = Some None" "sm_waiters s5 = []" by blast
  obtain x where x: "takeSample (sm_cgroup_path s5) reads_example 9 0 PhaseWarmup d = Some x"
    by (simp add: takeSample_def reads_example_def Let_def)
  define s6 where "s6 = s5\<lparr>sm_samples := [x]\<rparr>"
  define s7 where "s7 = s6\<lparr>sm_terminal := Some (ContextError ''context canceled'')\<rparr>"
  let ?y = "\<lambda>s l. y0\<lparr>ly_sampler := s, ly_calls := [c], ly_loop := l\<rparr>"
  have "lab_step (?y s4 (Selecting 0 1)) (?y s5 (Reading 0 1 9 PhaseWarmup d 10000000006))"
    using lab_step.tick[of "?y s4 (Selecting 0 1)" 0 1 clock_example 10000000006 9 s5] s5(1) by (simp add: y0_def)
  moreover have "lab_step (?y s5 (Reading 0 1 9 PhaseWarmup d 10000000006)) (?y s6 (Selecting 1 10000000006))"
    using lab_step.read[of "?y s5 (Reading 0 1 9 PhaseWarmup d 10000000006)" 0 1 9 PhaseWarmup d 10000000006 reads_example s6] s5(2) x
    by (simp add: y0_def keep_sample_def s6_def)
  moreover have "lab_step (?y s6 (Selecting 1 10000000006)) (?y s7 Ending)"
    using lab_step.cancelled[of "?y s6 (Selecting 1 10000000006)"] by (simp add: y0_def s7_def)
  moreover have "lab_step (?y s7 Ending) (?y (finish_loop s7) Ended)"
    using lab_step.finish[of "?y s7 Ending"] by (simp add: y0_def)
  ultimately have "lab_reachable SmokePhaseConfig (?y (finish_loop s7) Ended)" using r4 by (meson lab_reachable.step)
  moreover have "sm_results (finish_loop s7) 1 = Some None" "map mm_seq (sm_samples (finish_loop s7)) = [0]"
    using s5 takeSample_fields[OF x] by (simp_all add: finish_loop_def s7_def s6_def)
  ultimately show ?thesis by (intro exI[of _ "?y (finish_loop s7) Ended"]) (simp add: y0_def c_def)
qed

lemma every_wait_answered_witness:
  "\<exists>y. lab_reachable SmokePhaseConfig y \<and> ly_loop y = Ended \<and> sm_results (ly_sampler y) 1 = Some None
     \<and> phaseRank PhaseWarmup \<le> current_rank (ly_sampler y)"
proof -
  obtain y where y: "lab_reachable SmokePhaseConfig y" "ly_loop y = Ended" "waiting_example \<in> set (ly_calls y)"
    "sm_results (ly_sampler y) 1 = Some None" using run_example by blast
  with every_wait_answered[OF y(1,3)] show ?thesis by (auto simp: waiting_example_def)
qed

lemma samples_in_order_witness:
  "\<exists>y x. lab_reachable SmokePhaseConfig y \<and> sm_samples (ly_sampler y) = [x] \<and> 0 < mm_pid x"
proof -
  obtain y where y: "lab_reachable SmokePhaseConfig y" "map mm_seq (sm_samples (ly_sampler y)) = [0]"
    using run_example by (elim exE conjE) (rule that, assumption+)
  define x where "x = hd (sm_samples (ly_sampler y))"
  have x: "sm_samples (ly_sampler y) = [x]"
    using y(2) unfolding x_def by (cases "sm_samples (ly_sampler y)") simp_all
  from samples_in_order[OF y(1)] have "\<forall>x \<in> set (sm_samples (ly_sampler y)). 0 < mm_pid x" by blast
  then have "0 < mm_pid x" unfolding x by simp
  with x y(1) show ?thesis by blast
qed

end
