(* ===== verification/Lab_Csv.thy ===== *)
theory Lab_Csv
  imports Lab_Sampling Go_Text
begin

section \<open>The sample file of the memory lab\<close>

text \<open>
  Models the sample file: \<open>CSVHeaders\<close> and \<open>SampleForCSV\<close> of \<open>internal/sampling/sampler.go\<close>,
  \<open>WriteSamplesCSV\<close> of \<open>internal/evidence/writer.go\<close> and the strict parser of
  \<open>cmd/tovarisch-memory-lab/parser.go\<close>, with what they use of the standard library:
  \<open>strings.TrimSpace\<close>, \<open>strconv\<close> and the reader of \<open>encoding/csv\<close>. The text of a time is an argument
  (\<open>time.Format\<close> and \<open>time.Parse\<close> with RFC 3339).

  The texts of the parser's errors are not modelled: an error is the row, the column and a fault.
\<close>

subsection \<open>Plain text\<close>

text \<open>Characters that no white space starts or ends with, and no separator of the file is.\<close>

definition csv_plain :: "string \<Rightarrow> bool" where
  "csv_plain s \<longleftrightarrow> (\<forall>c \<in> set s. 33 \<le> (of_char c :: nat) \<and> (of_char c :: nat) \<le> 126 \<and> c \<noteq> CHR '','' \<and> c \<noteq> CHR 0x22)"

subsection \<open>Numbers and truth values\<close>

definition ParseUint :: "string \<Rightarrow> nat option" where
  "ParseUint s = (if s = [] \<or> \<not> list_all is_digit s then None
     else if digits_value s < 2 ^ 64 then Some (digits_value s) else None)"

definition ParseBool :: "string \<Rightarrow> bool option" where
  "ParseBool s =
     (if s \<in> set [''1'', ''t'', ''T'', ''true'', ''TRUE'', ''True''] then Some True
      else if s \<in> set [''0'', ''f'', ''F'', ''false'', ''FALSE'', ''False''] then Some False else None)"

definition show_bool :: "bool \<Rightarrow> string" where
  "show_bool b = (if b then ''true'' else ''false'')"

subsection \<open>The reader of encoding/csv\<close>

text \<open>
  A line with its end normalised, and what follows it. A record may run over several lines
  inside quotes. Quotes are strict; whether leading space is trimmed and whether all records must have as many fields as
  the first is set by the caller.
\<close>

definition strip_cr :: "string \<Rightarrow> string" where
  "strip_cr s = (if s \<noteq> [] \<and> last s = CHR 0x0D then butlast s else s)"

definition read_line :: "string \<Rightarrow> string \<times> string" where
  "read_line s =
     (let a = takeWhile (\<lambda>c. c \<noteq> CHR 0x0A) s; b = dropWhile (\<lambda>c. c \<noteq> CHR 0x0A) s
      in if b = [] then (strip_cr a, []) else (strip_cr a @ [CHR 0x0A], tl b))"

definition strip_nl :: "string \<Rightarrow> string" where
  "strip_nl s = (if s \<noteq> [] \<and> last s = CHR 0x0A then butlast s else s)"

datatype quoted_field = QuoteFault | QuoteEnd string string | QuoteComma string string string

lemma strip_cr_length: "length (strip_cr a) \<le> length a"
  by (simp add: strip_cr_def)

lemma read_line_length: "length (fst (read_line s)) + length (snd (read_line s)) \<le> length s"
proof -
  let ?a = "takeWhile (\<lambda>c. c \<noteq> CHR 0x0A) s" and ?b = "dropWhile (\<lambda>c. c \<noteq> CHR 0x0A) s"
  have "length s = length ?a + length ?b" by (metis length_append takeWhile_dropWhile_id)
  then show ?thesis using strip_cr_length[of ?a] by (cases ?b) (simp_all add: read_line_def)
qed

function csv_quoted :: "string \<Rightarrow> string \<Rightarrow> string \<Rightarrow> quoted_field" where
  "csv_quoted buf line rest =
     (let a = takeWhile (\<lambda>c. c \<noteq> CHR 0x22) line; b = dropWhile (\<lambda>c. c \<noteq> CHR 0x22) line
      in if b = [] then
           (if line = [] then QuoteFault
            else csv_quoted (buf @ line) (fst (read_line rest)) (snd (read_line rest)))
         else let line1 = tl b
           in if line1 = [] \<or> line1 = [CHR 0x0A] then QuoteEnd (buf @ a) rest
              else if hd line1 = CHR 0x22 then csv_quoted (buf @ a @ [CHR 0x22]) (tl line1) rest
              else if hd line1 = CHR '','' then QuoteComma (buf @ a) (tl line1) rest
              else QuoteFault)"
  by pat_completeness auto
termination
proof (relation "measure (\<lambda>(buf, line, rest). length line + length rest)", goal_cases)
  case (2 buf line rest a b)
  then show ?case using read_line_length[of rest] by (cases line) (simp_all add: case_prod_unfold)
next
  case (3 buf line rest a b line1)
  then have "length b \<le> length line" "b \<noteq> []" "line1 = tl b" by (simp_all add: length_dropWhile_le)
  then have "length (tl line1) < length line" by (cases b) (auto simp: le_trans[OF diff_le_self] Suc_le_eq intro: le_less_trans[OF diff_le_self])
  then show ?case by simp
qed simp

declare csv_quoted.simps [simp del]

text \<open>The fields of a record, the fault if there is one, and the text after the record.\<close>

datatype csv_fault = ErrBareQuote | ErrQuote | ErrFieldCount

lemma csv_quoted_shorter:
  "(case csv_quoted buf line rest of
      QuoteComma b line' rest' \<Rightarrow> length line' + length rest' < length line + length rest \<and> length rest' \<le> length rest
    | QuoteEnd b r \<Rightarrow> length r \<le> length rest
    | QuoteFault \<Rightarrow> True)"
proof (induction buf line rest rule: csv_quoted.induct)
  case (1 buf line rest)
  let ?b = "dropWhile (\<lambda>c. c \<noteq> CHR 0x22) line"
  have l: "length ?b \<le> length line" by (rule length_dropWhile_le)
  consider "?b = []" "line = []" | "?b = []" "line \<noteq> []" | "?b \<noteq> []" by blast
  then show ?case
  proof cases
    case 2
    have "csv_quoted buf line rest = csv_quoted (buf @ line) (fst (read_line rest)) (snd (read_line rest))"
      using 2 by (subst csv_quoted.simps) (simp add: Let_def)
    with 1(1)[OF refl refl 2] read_line_length[of rest] 2(2) show ?thesis
      by (auto split: quoted_field.splits)
  next
    case 3
    let ?line1 = "tl ?b"
    have s: "length ?line1 < length line" using l 3 by (cases ?b) auto
    have t: "?line1 \<noteq> [] \<Longrightarrow> length (tl ?line1) < length line" using s by (cases ?line1) auto
    have q: "csv_quoted buf line rest =
        (if ?line1 = [] \<or> ?line1 = [CHR 0x0A] then QuoteEnd (buf @ takeWhile (\<lambda>c. c \<noteq> CHR 0x22) line) rest
         else if hd ?line1 = CHR 0x22 then csv_quoted (buf @ takeWhile (\<lambda>c. c \<noteq> CHR 0x22) line @ [CHR 0x22]) (tl ?line1) rest
         else if hd ?line1 = CHR '','' then QuoteComma (buf @ takeWhile (\<lambda>c. c \<noteq> CHR 0x22) line) (tl ?line1) rest
         else QuoteFault)"
      using 3 by (subst csv_quoted.simps) (simp only: Let_def if_False)
    show ?thesis
    proof (cases "?line1 \<noteq> [] \<and> ?line1 \<noteq> [CHR 0x0A] \<and> hd ?line1 = CHR 0x22")
      case True
      then have "csv_quoted buf line rest = csv_quoted (buf @ takeWhile (\<lambda>c. c \<noteq> CHR 0x22) line @ [CHR 0x22]) (tl ?line1) rest"
        unfolding q by simp
      with 1(2)[OF refl refl 3 refl] True t show ?thesis by (auto split: quoted_field.splits)
    next
      case False
      then show ?thesis unfolding q using t by auto
    qed
  qed (subst csv_quoted.simps, simp add: Let_def)
qed

function csv_fields :: "bool \<Rightarrow> string \<Rightarrow> string \<Rightarrow> string list \<times> csv_fault option \<times> string" where
  "csv_fields trim line rest =
     (let line1 = (if trim then TrimLeft line else line)
      in if line1 = [] \<or> hd line1 \<noteq> CHR 0x22 then
           (let field0 = takeWhile (\<lambda>c. c \<noteq> CHR '','') line1; after = dropWhile (\<lambda>c. c \<noteq> CHR '','') line1;
                field = (if after = [] then strip_nl field0 else field0)
            in if CHR 0x22 \<in> set field then ([], Some ErrBareQuote, rest)
               else if after = [] then ([field], None, rest)
               else let (fs, e, r) = csv_fields trim (tl after) rest in (field # fs, e, r))
         else case csv_quoted [] (tl line1) rest of
                QuoteFault \<Rightarrow> ([], Some ErrQuote, rest)
              | QuoteEnd field r \<Rightarrow> ([field], None, r)
              | QuoteComma field line2 rest2 \<Rightarrow>
                  (let (fs, e, r) = csv_fields trim line2 rest2 in (field # fs, e, r)))"
  by pat_completeness auto

termination csv_fields
proof (relation "measure (\<lambda>(trim, line, rest). length line + length rest)", goal_cases)
  case (2 trim line rest line1 field0 after field)
  then have "length after \<le> length line1" "after \<noteq> []" by (simp_all add: length_dropWhile_le)
  then have "length (tl after) < length line1" by (cases after) auto
  with 2(1) TrimLeft_length[of line] show ?case by (simp split: if_splits)
next
  case (3 trim line rest line1 field line2 rest2)
  then have "length line2 + length rest2 < length (tl line1) + length rest"
    using csv_quoted_shorter[where buf = "[]" and line = "tl line1" and rest = rest] by simp
  with 3(1) TrimLeft_length[of line] show ?case by (simp split: if_splits)
qed simp

text \<open>The records of a text, up to the first fault; empty lines are skipped.\<close>

function csv_records :: "bool \<Rightarrow> bool \<Rightarrow> nat option \<Rightarrow> string \<Rightarrow> (csv_fault + string list) list" where
  "csv_records trim fixed count s =
     (if s = [] then []
      else let (line, rest) = read_line s
        in if strip_nl line = [] then csv_records trim fixed count rest
           else case csv_fields trim line rest of
                  (fs, Some e, r) \<Rightarrow> [Inl e]
                | (fs, None, r) \<Rightarrow>
                    (if fixed \<and> count \<noteq> None \<and> count \<noteq> Some (length fs) then [Inl ErrFieldCount]
                     else Inr fs # csv_records trim fixed (Some (length fs)) r))"
  by pat_completeness auto

declare csv_fields.simps [simp del]

lemma csv_fields_rest: "length (snd (snd (csv_fields trim line rest))) \<le> length rest"
proof (induction trim line rest rule: csv_fields.induct)
  case (1 trim line rest)
  let ?line1 = "if trim then TrimLeft line else line"
  show ?case
  proof (cases "?line1 = [] \<or> hd ?line1 \<noteq> CHR 0x22")
    case True
    have n: "(\<forall>x \<in> set l. x \<noteq> c) \<longleftrightarrow> c \<notin> set l" for l and c :: char by auto
    show ?thesis using 1(1)[OF refl True refl refl refl] True
      by (subst csv_fields.simps) (cases "CHR '','' \<in> set ?line1", simp_all add: Let_def case_prod_unfold n)
  next
    case False
    note q = csv_quoted_shorter[where buf = "[]" and line = "tl ?line1" and rest = rest]
    show ?thesis using 1(2)[OF refl False] False q
      by (subst csv_fields.simps) (auto simp: Let_def case_prod_unfold split: quoted_field.split intro: le_trans)
  qed
qed

lemma read_line_rest: "text \<noteq> [] \<Longrightarrow> length (snd (read_line text)) < length text"
proof -
  assume t: "text \<noteq> []"
  have "length (dropWhile (\<lambda>c. c \<noteq> CHR 0x0A) text) \<le> length text" by (rule length_dropWhile_le)
  with t show ?thesis by (cases "dropWhile (\<lambda>c. c \<noteq> CHR 0x0A) text") (simp_all add: read_line_def)
qed

termination csv_records
proof (relation "measure (\<lambda>(trim, fixed, count, s). length s)", goal_cases)
  case (2 trim fixed count s x line rest)
  then show ?case using read_line_rest[of s] by (cases "read_line s") auto
next
  case (3 trim fixed count s x line rest y fs z r)
  then show ?case using read_line_rest[of s] csv_fields_rest[of trim line rest]
    by (cases "read_line s"; cases "csv_fields trim line rest") auto
qed simp

declare csv_records.simps [simp del]

subsection \<open>Writing\<close>

definition CSVHeaders :: "string list" where
  "CSVHeaders = [''sequence'', ''timestamp'', ''process_pid'', ''process_start_time'', ''phase'', ''delayed'',
     ''rss_kib'', ''pss_kib'', ''pss_anon_kib'', ''private_dirty_kib'', ''anonymous_kib'', ''swap_kib'',
     ''docker_memory_usage_bytes'', ''docker_memory_limit_bytes'', ''has_docker_memory'',
     ''vma_count'', ''fd_count'', ''socket_fd_count'', ''thread_count'', ''pid_count'',
     ''cgroup_anon_bytes'', ''cgroup_current_bytes'', ''cgroup_memory_stat_anon'', ''has_cgroup'', ''has_cgroup_anon'',
     ''oom_events'', ''oom_kill_events'', ''bgp_state'', ''bgp_fsm_ticks'', ''reconnect_count'',
     ''has_rss'', ''has_pss'', ''has_pss_anon'', ''has_private_dirty'', ''has_anonymous'', ''has_swap'', ''has_thread_count'',
     ''has_pid_count'', ''has_fd_count'', ''has_socket_fd_count'', ''has_vma_count'']"

definition SampleForCSV :: "(time \<Rightarrow> string) \<Rightarrow> mem_sample \<Rightarrow> string list" where
  "SampleForCSV fmt s = [show_int (mm_seq s), fmt (mm_ts s), show_int (mm_pid s), show_nat (mm_start s), phase_String (mm_phase s),
     show_bool (mm_delayed s),
     show_int (mm_rss s), show_int (mm_pss s), show_int (mm_pss_anon s), show_int (mm_private_dirty s), show_int (mm_anonymous s),
     show_int (mm_swap s),
     show_int (mm_docker_usage s), show_int (mm_docker_limit s), show_bool (mm_has_docker s),
     show_int (mm_vma s), show_int (mm_fd s), show_int (mm_socket_fd s), show_int (mm_threads s), show_int (mm_pids s),
     show_int (mm_cg_anon s), show_int (mm_cg_current s), show_int (mm_cg_stat_anon s), show_bool (mm_has_cgroup s),
     show_bool (mm_has_cg_anon s),
     show_int (mm_oom s), show_int (mm_oom_kill s), mm_bgp_state s, show_int (mm_bgp_ticks s), show_int (mm_reconnects s),
     show_bool (mm_has_rss s), show_bool (mm_has_pss s), show_bool (mm_has_pss_anon s), show_bool (mm_has_private_dirty s),
     show_bool (mm_has_anonymous s), show_bool (mm_has_swap s), show_bool (mm_has_threads s), show_bool (mm_has_pids s),
     show_bool (mm_has_fd s), show_bool (mm_has_socket_fd s), show_bool (mm_has_vma s)]"

text \<open>The writer quotes nothing.\<close>

fun join_fields :: "string list \<Rightarrow> string" where
  "join_fields [] = []"
| "join_fields [f] = f"
| "join_fields (f # g # fs) = f @ CHR '','' # join_fields (g # fs)"

definition csv_line :: "string list \<Rightarrow> string" where
  "csv_line fs = join_fields fs @ [CHR 0x0A]"

definition WriteSamplesCSV :: "(time \<Rightarrow> string) \<Rightarrow> mem_sample list \<Rightarrow> string" where
  "WriteSamplesCSV fmt samples = csv_line CSVHeaders @ concat (map (\<lambda>s. csv_line (SampleForCSV fmt s)) samples)"

subsection \<open>The parser\<close>

datatype field_fault =
    UnknownColumn
  | OutOfBounds nat
  | EmptyField
  | BadValue string
  | NotPositive int
  | NegativeValue int
  | InvalidPhase string
  | ExpectedSequence int int
  | NotIncreasing time time
  | PhaseRegression int int
  | PIDChanged int int
  | StartTimeChanged nat nat
  | NotAvailable int

datatype parse_error =
    HeaderError
  | ColumnCount nat
  | ReadError nat csv_fault
  | TooManySamples nat
  | ParseError nat string field_fault
  | NoRows
  | FirstSequence int

type_synonym column_index = "string \<rightharpoonup> nat"

definition header_columns :: "string list \<Rightarrow> column_index" where
  "header_columns header = map_of (zip (map TrimSpace header) [0..<length header])"

definition newParser :: "string list \<Rightarrow> parse_error + column_index" where
  "newParser header =
     (if length header \<noteq> length CSVHeaders then Inl (ColumnCount (length header))
      else if [] \<in> set (map TrimSpace header) \<or> \<not> distinct (map TrimSpace header) then Inl HeaderError
      else if header \<noteq> CSVHeaders then Inl HeaderError
      else Inr (header_columns header))"

definition csv_phaseRank :: "phase \<Rightarrow> int" where
  "csv_phaseRank p = (case p of PhaseStartup \<Rightarrow> 1 | PhaseWarmup \<Rightarrow> 2 | PhaseBaseline \<Rightarrow> 3 | PhaseStimulus \<Rightarrow> 4 | PhaseSettling \<Rightarrow> 5
     | PhaseFinal \<Rightarrow> 6 | _ \<Rightarrow> 0)"

text \<open>The next step of the parser, on the value of the previous one.\<close>

definition and_then :: "'e + 'a \<Rightarrow> ('a \<Rightarrow> 'e + 'b) \<Rightarrow> 'e + 'b" where
  "and_then r f = (case r of Inl e \<Rightarrow> Inl e | Inr x \<Rightarrow> f x)"

definition ensure :: "bool \<Rightarrow> 'e \<Rightarrow> 'e + 'b \<Rightarrow> 'e + 'b" where
  "ensure ok e r = (if ok then r else Inl e)"

text \<open>The five \<open>required\<close> functions differ in the conversion of the trimmed text only.\<close>

definition required :: "(string \<Rightarrow> 'a option) \<Rightarrow> nat \<Rightarrow> string list \<Rightarrow> column_index \<Rightarrow> string \<Rightarrow> parse_error + 'a" where
  "required conv row rec cols col =
     (case cols col of
        None \<Rightarrow> Inl (ParseError row col UnknownColumn)
      | Some i \<Rightarrow>
          if i \<ge> length rec then Inl (ParseError row col (OutOfBounds i))
          else let v = TrimSpace (rec ! i)
            in if v = [] then Inl (ParseError row col EmptyField)
               else case conv v of None \<Rightarrow> Inl (ParseError row col (BadValue v)) | Some x \<Rightarrow> Inr x)"

definition requiredInt64 :: "nat \<Rightarrow> string list \<Rightarrow> column_index \<Rightarrow> string \<Rightarrow> parse_error + int" where
  "requiredInt64 = required Atoi"

definition requiredInt :: "nat \<Rightarrow> string list \<Rightarrow> column_index \<Rightarrow> string \<Rightarrow> parse_error + int" where
  "requiredInt = required Atoi"

definition requiredUint64 :: "nat \<Rightarrow> string list \<Rightarrow> column_index \<Rightarrow> string \<Rightarrow> parse_error + nat" where
  "requiredUint64 = required ParseUint"

definition requiredBool :: "nat \<Rightarrow> string list \<Rightarrow> column_index \<Rightarrow> string \<Rightarrow> parse_error + bool" where
  "requiredBool = required ParseBool"

definition requiredTimestamp :: "(string \<Rightarrow> time option) \<Rightarrow> nat \<Rightarrow> string list \<Rightarrow> column_index \<Rightarrow> string \<Rightarrow> parse_error + time" where
  "requiredTimestamp parse_time = required parse_time"

definition optionalString :: "string list \<Rightarrow> column_index \<Rightarrow> string \<Rightarrow> string" where
  "optionalString rec cols col =
     (case cols col of None \<Rightarrow> [] | Some i \<Rightarrow> if i \<ge> length rec then [] else TrimSpace (rec ! i))"

text \<open>A number that must not be negative, as every count and amount of a row is read.\<close>

definition required_count :: "nat \<Rightarrow> string list \<Rightarrow> column_index \<Rightarrow> string \<Rightarrow> parse_error + int" where
  "required_count row rec cols col =
     and_then (requiredInt64 row rec cols col) (\<lambda>v. ensure (v \<ge> 0) (ParseError row col (NegativeValue v)) (Inr v))"

definition consistent :: "nat \<Rightarrow> string \<Rightarrow> bool \<Rightarrow> int \<Rightarrow> parse_error + 'a \<Rightarrow> parse_error + 'a" where
  "consistent row col available v k = ensure (available \<or> v = 0) (ParseError row col (NotAvailable v)) k"

record csv_parser =
  pr_row :: nat
  pr_ts :: time
  pr_pid :: int
  pr_start :: nat
  pr_rank :: int
  pr_count :: nat

text \<open>The progression from the row before, for every row but the first.\<close>

definition check_progress :: "csv_parser \<Rightarrow> mem_sample list \<Rightarrow> mem_sample \<Rightarrow> parse_error + mem_sample" where
  "check_progress p samples s =
     (if pr_row p > 1 then
        (let expectedSeq = wrap64 (mm_seq (last samples) + 1); row = pr_row p
         in ensure (mm_seq s = expectedSeq) (ParseError row ''sequence'' (ExpectedSequence expectedSeq (mm_seq s)))
           (ensure (mm_ts s > pr_ts p) (ParseError row ''timestamp'' (NotIncreasing (mm_ts s) (pr_ts p)))
           (ensure (\<not> csv_phaseRank (mm_phase s) < pr_rank p)
              (ParseError row ''phase'' (PhaseRegression (csv_phaseRank (mm_phase s)) (pr_rank p)))
           (ensure (mm_pid s = pr_pid p) (ParseError row ''process_pid'' (PIDChanged (pr_pid p) (mm_pid s)))
           (ensure (mm_start s = pr_start p) (ParseError row ''process_start_time'' (StartTimeChanged (pr_start p) (mm_start s)))
              (Inr s))))))
      else Inr s)"

definition parse_identity :: "(string \<Rightarrow> time option) \<Rightarrow> nat \<Rightarrow> string list \<Rightarrow> column_index \<Rightarrow> parse_error + mem_sample" where
  "parse_identity parse_time row rec cols =
     and_then (requiredInt row rec cols ''sequence'') (\<lambda>seq.
     and_then (requiredTimestamp parse_time row rec cols ''timestamp'') (\<lambda>timestamp.
     and_then (requiredInt row rec cols ''process_pid'') (\<lambda>pid.
     ensure (pid > 0) (ParseError row ''process_pid'' (NotPositive pid))
     (and_then (requiredUint64 row rec cols ''process_start_time'') (\<lambda>startTime.
     ensure (startTime \<noteq> 0) (ParseError row ''process_start_time'' (NotPositive 0))
     (let phaseStr = optionalString rec cols ''phase''
      in ensure (phaseStr \<noteq> []) (ParseError row ''phase'' EmptyField)
        (let ph = ParsePhase phaseStr
         in ensure (ph \<noteq> OtherPhase []) (ParseError row ''phase'' (InvalidPhase phaseStr))
           (ensure (ph \<noteq> PhaseComplete) (ParseError row ''phase'' (InvalidPhase phaseStr))
           (and_then (requiredBool row rec cols ''delayed'') (\<lambda>delayed.
              Inr (blank_sample seq timestamp pid ph delayed\<lparr>mm_start := startTime\<rparr>)))))))))))"

definition parse_memory :: "nat \<Rightarrow> string list \<Rightarrow> column_index \<Rightarrow> mem_sample \<Rightarrow> parse_error + mem_sample" where
  "parse_memory row rec cols s =
     and_then (required_count row rec cols ''rss_kib'') (\<lambda>rss.
     and_then (required_count row rec cols ''pss_kib'') (\<lambda>pss.
     and_then (required_count row rec cols ''pss_anon_kib'') (\<lambda>pssAnon.
     and_then (required_count row rec cols ''private_dirty_kib'') (\<lambda>privateDirty.
     and_then (required_count row rec cols ''anonymous_kib'') (\<lambda>anonymous.
     and_then (required_count row rec cols ''swap_kib'') (\<lambda>swap.
       Inr (s\<lparr>mm_rss := rss, mm_pss := pss, mm_pss_anon := pssAnon, mm_private_dirty := privateDirty, mm_anonymous := anonymous,
              mm_swap := swap\<rparr>)))))))"

definition parse_docker :: "nat \<Rightarrow> string list \<Rightarrow> column_index \<Rightarrow> mem_sample \<Rightarrow> parse_error + mem_sample" where
  "parse_docker row rec cols s =
     and_then (requiredBool row rec cols ''has_docker_memory'') (\<lambda>hasDocker.
     and_then (required_count row rec cols ''docker_memory_usage_bytes'') (\<lambda>usage.
     and_then (required_count row rec cols ''docker_memory_limit_bytes'') (\<lambda>limit.
     consistent row ''docker_memory_usage_bytes'' hasDocker usage
     (consistent row ''docker_memory_limit_bytes'' hasDocker limit
       (Inr (s\<lparr>mm_docker_usage := usage, mm_docker_limit := limit, mm_has_docker := hasDocker\<rparr>))))))"

definition parse_resources :: "nat \<Rightarrow> string list \<Rightarrow> column_index \<Rightarrow> mem_sample \<Rightarrow> parse_error + mem_sample" where
  "parse_resources row rec cols s =
     and_then (required_count row rec cols ''vma_count'') (\<lambda>vma.
     and_then (required_count row rec cols ''fd_count'') (\<lambda>fd.
     and_then (required_count row rec cols ''socket_fd_count'') (\<lambda>socketFd.
     and_then (required_count row rec cols ''thread_count'') (\<lambda>threads.
     and_then (required_count row rec cols ''pid_count'') (\<lambda>pids.
       Inr (s\<lparr>mm_vma := vma, mm_fd := fd, mm_socket_fd := socketFd, mm_threads := threads, mm_pids := pids\<rparr>))))))"

definition parse_cgroup :: "nat \<Rightarrow> string list \<Rightarrow> column_index \<Rightarrow> mem_sample \<Rightarrow> parse_error + mem_sample" where
  "parse_cgroup row rec cols s =
     and_then (requiredBool row rec cols ''has_cgroup'') (\<lambda>hasCgroup.
     and_then (requiredBool row rec cols ''has_cgroup_anon'') (\<lambda>hasCgroupAnon.
     and_then (required_count row rec cols ''cgroup_anon_bytes'') (\<lambda>anonBytes.
     and_then (required_count row rec cols ''cgroup_current_bytes'') (\<lambda>currentBytes.
     and_then (required_count row rec cols ''cgroup_memory_stat_anon'') (\<lambda>statAnon.
     consistent row ''cgroup_anon_bytes'' hasCgroup anonBytes
     (consistent row ''cgroup_current_bytes'' hasCgroup currentBytes
     (consistent row ''cgroup_memory_stat_anon'' hasCgroupAnon statAnon
       (Inr (s\<lparr>mm_cg_anon := anonBytes, mm_cg_current := currentBytes, mm_cg_stat_anon := statAnon, mm_has_cg_anon := hasCgroupAnon,
              mm_has_cgroup := hasCgroup\<rparr>)))))))))"

definition parse_semantic :: "nat \<Rightarrow> string list \<Rightarrow> column_index \<Rightarrow> mem_sample \<Rightarrow> parse_error + mem_sample" where
  "parse_semantic row rec cols s =
     and_then (required_count row rec cols ''oom_events'') (\<lambda>oom.
     and_then (required_count row rec cols ''oom_kill_events'') (\<lambda>oomKill.
     let bgpState = optionalString rec cols ''bgp_state'' in
     and_then (required_count row rec cols ''bgp_fsm_ticks'') (\<lambda>ticks.
     and_then (required_count row rec cols ''reconnect_count'') (\<lambda>reconnects.
       Inr (s\<lparr>mm_oom := oom, mm_oom_kill := oomKill, mm_bgp_state := bgpState, mm_bgp_ticks := ticks, mm_reconnects := reconnects\<rparr>)))))"

definition parse_flags :: "nat \<Rightarrow> string list \<Rightarrow> column_index \<Rightarrow> mem_sample \<Rightarrow> parse_error + mem_sample" where
  "parse_flags row rec cols s =
     and_then (requiredBool row rec cols ''has_rss'') (\<lambda>rss.
     and_then (requiredBool row rec cols ''has_pss'') (\<lambda>pss.
     and_then (requiredBool row rec cols ''has_pss_anon'') (\<lambda>pssAnon.
     and_then (requiredBool row rec cols ''has_private_dirty'') (\<lambda>privateDirty.
     and_then (requiredBool row rec cols ''has_anonymous'') (\<lambda>anonymous.
     and_then (requiredBool row rec cols ''has_swap'') (\<lambda>swap.
     and_then (requiredBool row rec cols ''has_thread_count'') (\<lambda>threads.
     and_then (requiredBool row rec cols ''has_pid_count'') (\<lambda>pids.
     and_then (requiredBool row rec cols ''has_fd_count'') (\<lambda>fd.
     and_then (requiredBool row rec cols ''has_socket_fd_count'') (\<lambda>socketFd.
     and_then (requiredBool row rec cols ''has_vma_count'') (\<lambda>vma.
       Inr (s\<lparr>mm_has_rss := rss, mm_has_pss := pss, mm_has_pss_anon := pssAnon, mm_has_private_dirty := privateDirty,
              mm_has_anonymous := anonymous, mm_has_swap := swap, mm_has_threads := threads, mm_has_pids := pids, mm_has_fd := fd,
              mm_has_socket_fd := socketFd, mm_has_vma := vma\<rparr>))))))))))))"

definition check_availability :: "nat \<Rightarrow> mem_sample \<Rightarrow> parse_error + mem_sample" where
  "check_availability row s =
     consistent row ''rss_kib'' (mm_has_rss s) (mm_rss s)
    (consistent row ''pss_kib'' (mm_has_pss s) (mm_pss s)
    (consistent row ''pss_anon_kib'' (mm_has_pss_anon s) (mm_pss_anon s)
    (consistent row ''private_dirty_kib'' (mm_has_private_dirty s) (mm_private_dirty s)
    (consistent row ''anonymous_kib'' (mm_has_anonymous s) (mm_anonymous s)
    (consistent row ''swap_kib'' (mm_has_swap s) (mm_swap s)
    (consistent row ''thread_count'' (mm_has_threads s) (mm_threads s)
    (consistent row ''pid_count'' (mm_has_pids s) (mm_pids s)
    (consistent row ''fd_count'' (mm_has_fd s) (mm_fd s)
    (consistent row ''socket_fd_count'' (mm_has_socket_fd s) (mm_socket_fd s)
    (consistent row ''vma_count'' (mm_has_vma s) (mm_vma s) (Inr s)))))))))))"

text \<open>One row: the identity and the progression, then the values in the order of the code.\<close>

definition parse_row :: "(string \<Rightarrow> time option) \<Rightarrow> column_index \<Rightarrow> csv_parser \<Rightarrow> mem_sample list \<Rightarrow> string list \<Rightarrow> parse_error + mem_sample" where
  "parse_row parse_time cols p samples rec =
     (let row = pr_row p
      in and_then (parse_identity parse_time row rec cols) (\<lambda>s.
         and_then (check_progress p samples s) (\<lambda>s.
         and_then (parse_memory row rec cols s) (\<lambda>s.
         and_then (parse_docker row rec cols s) (\<lambda>s.
         and_then (parse_resources row rec cols s) (\<lambda>s.
         and_then (parse_cgroup row rec cols s) (\<lambda>s.
         and_then (parse_semantic row rec cols s) (\<lambda>s.
         and_then (parse_flags row rec cols s) (\<lambda>s. check_availability row s)))))))))"

definition maxSamplesPerCSV :: nat where "maxSamplesPerCSV = 500"

fun parse_rows ::
  "(string \<Rightarrow> time option) \<Rightarrow> column_index \<Rightarrow> csv_parser \<Rightarrow> mem_sample list \<Rightarrow> (csv_fault + string list) list
    \<Rightarrow> parse_error + mem_sample list" where
  "parse_rows parse_time cols p samples [] = Inr samples"
| "parse_rows parse_time cols p samples (Inl e # rows) = Inl (ReadError (pr_row p + 1) e)"
| "parse_rows parse_time cols p samples (Inr rec # rows) =
     (let p1 = p\<lparr>pr_row := pr_row p + 1, pr_count := pr_count p + 1\<rparr>
      in if pr_count p1 > maxSamplesPerCSV then Inl (TooManySamples (pr_count p1))
         else and_then (parse_row parse_time cols p1 samples rec) (\<lambda>s.
           parse_rows parse_time cols
             (p1\<lparr>pr_ts := mm_ts s, pr_pid := mm_pid s, pr_start := mm_start s, pr_rank := csv_phaseRank (mm_phase s)\<rparr>)
             (samples @ [s]) rows))"

definition ParseSamplesCSVStream :: "(string \<Rightarrow> time option) \<Rightarrow> string \<Rightarrow> parse_error + mem_sample list" where
  "ParseSamplesCSVStream parse_time file =
     (case csv_records True True None file of
        [] \<Rightarrow> Inl HeaderError
      | Inl e # _ \<Rightarrow> Inl HeaderError
      | Inr header # rows \<Rightarrow>
          and_then (newParser header) (\<lambda>cols.
          and_then (parse_rows parse_time cols \<lparr>pr_row = 0, pr_ts = 0, pr_pid = 0, pr_start = 0, pr_rank = 0, pr_count = 0\<rparr> [] rows) (\<lambda>samples.
            if samples = [] then Inl NoRows
            else if mm_seq (hd samples) \<noteq> 0 then Inl (FirstSequence (mm_seq (hd samples)))
            else Inr samples)))"

end
