(* ===== verification/Lab_Csv_Rows.thy ===== *)
theory Lab_Csv_Rows
  imports Lab_Csv
begin

section \<open>What the sample file's parser accepts\<close>

text \<open>
  The values a sample file may hold, stated without the parser (\<open>csv_valid\<close>), and the invariant of the
  parser's loop over the rows (\<open>parser_at\<close>): each row accepted extends a valid series.
\<close>

subsection \<open>What the file may hold\<close>

definition amount :: "int \<Rightarrow> bool" where "amount v \<longleftrightarrow> 0 \<le> v \<and> v < 2 ^ 63"

text \<open>The values of one row, and their agreement with the flags of availability.\<close>

definition amounts :: "mem_sample \<Rightarrow> int list" where
  "amounts s = [mm_rss s, mm_pss s, mm_pss_anon s, mm_private_dirty s, mm_anonymous s, mm_swap s, mm_docker_usage s, mm_docker_limit s,
     mm_vma s, mm_fd s, mm_socket_fd s, mm_threads s, mm_pids s, mm_cg_anon s, mm_cg_current s, mm_cg_stat_anon s,
     mm_oom s, mm_oom_kill s, mm_bgp_ticks s, mm_reconnects s]"

definition flagged :: "mem_sample \<Rightarrow> (bool \<times> int) list" where
  "flagged s = [(mm_has_rss s, mm_rss s), (mm_has_pss s, mm_pss s), (mm_has_pss_anon s, mm_pss_anon s),
     (mm_has_private_dirty s, mm_private_dirty s), (mm_has_anonymous s, mm_anonymous s), (mm_has_swap s, mm_swap s),
     (mm_has_docker s, mm_docker_usage s), (mm_has_docker s, mm_docker_limit s), (mm_has_threads s, mm_threads s),
     (mm_has_pids s, mm_pids s), (mm_has_fd s, mm_fd s), (mm_has_socket_fd s, mm_socket_fd s), (mm_has_vma s, mm_vma s),
     (mm_has_cgroup s, mm_cg_anon s), (mm_has_cgroup s, mm_cg_current s), (mm_has_cg_anon s, mm_cg_stat_anon s)]"

definition sample_phase :: "phase \<Rightarrow> bool" where
  "sample_phase ph \<longleftrightarrow> 0 \<le> phaseRank ph \<and> phaseRank ph \<le> 5"

definition row_valid :: "mem_sample \<Rightarrow> bool" where
  "row_valid s \<longleftrightarrow> 0 < mm_pid s \<and> mm_pid s < 2 ^ 63 \<and> 0 < mm_start s \<and> mm_start s < 2 ^ 64 \<and> sample_phase (mm_phase s)
     \<and> list_all amount (amounts s) \<and> list_all (\<lambda>(available, v). available \<or> v = 0) (flagged s)"

definition row_before :: "mem_sample \<Rightarrow> mem_sample \<Rightarrow> bool" where
  "row_before s t \<longleftrightarrow> mm_ts s < mm_ts t \<and> phaseRank (mm_phase s) \<le> phaseRank (mm_phase t)
     \<and> mm_pid s = mm_pid t \<and> mm_start s = mm_start t"

definition csv_valid :: "mem_sample list \<Rightarrow> bool" where
  "csv_valid samples \<longleftrightarrow> samples \<noteq> [] \<and> length samples \<le> 500 \<and> map mm_seq samples = map int [0..<length samples]
     \<and> sorted_wrt row_before samples \<and> list_all row_valid samples"

subsection \<open>Results of the parser's steps\<close>

lemma and_then_Inr: "and_then r f = Inr y \<longleftrightarrow> (\<exists>x. r = Inr x \<and> f x = Inr y)"
  by (cases r) (simp_all add: and_then_def)

lemma ensure_Inr: "ensure b e r = Inr y \<longleftrightarrow> b \<and> r = Inr y"
  by (simp add: ensure_def)

lemma consistent_Inr: "consistent row col b v r = Inr y \<longleftrightarrow> (b \<or> v = 0) \<and> r = Inr y"
  by (simp add: consistent_def ensure_Inr)

lemmas Inr_simps = and_then_Inr ensure_Inr consistent_Inr

lemma required_Inr: "required conv row rec cols col = Inr v \<Longrightarrow> \<exists>s. conv s = Some v"
  by (auto simp: required_def Let_def split: option.splits if_splits)

lemma Atoi_range: "Atoi s = Some v \<Longrightarrow> in_int64 v"
  by (auto simp: Atoi_def Let_def split: if_splits prod.splits)

lemma required_count_Inr: "required_count row rec cols col = Inr v \<Longrightarrow> amount v"
  using Atoi_range by (auto simp: required_count_def requiredInt64_def Inr_simps amount_def in_int64_def dest!: required_Inr)

lemma parse_memory_Inr:
  "parse_memory row rec cols s = Inr s' \<Longrightarrow> \<exists>a b c d e f.
     s' = s\<lparr>mm_rss := a, mm_pss := b, mm_pss_anon := c, mm_private_dirty := d, mm_anonymous := e, mm_swap := f\<rparr>
     \<and> amount a \<and> amount b \<and> amount c \<and> amount d \<and> amount e \<and> amount f"
  unfolding parse_memory_def Inr_simps sum.inject
  by (elim exE conjE, intro exI conjI, rule sym, assumption) (erule required_count_Inr)+

lemma parse_docker_Inr:
  "parse_docker row rec cols s = Inr s' \<Longrightarrow> \<exists>u l h.
     s' = s\<lparr>mm_docker_usage := u, mm_docker_limit := l, mm_has_docker := h\<rparr>
     \<and> amount u \<and> amount l \<and> (h \<or> u = 0) \<and> (h \<or> l = 0)"
  unfolding parse_docker_def Inr_simps sum.inject
  by (elim exE conjE, intro exI conjI, rule sym, assumption) (assumption | erule required_count_Inr)+

lemma parse_resources_Inr:
  "parse_resources row rec cols s = Inr s' \<Longrightarrow> \<exists>a b c d e.
     s' = s\<lparr>mm_vma := a, mm_fd := b, mm_socket_fd := c, mm_threads := d, mm_pids := e\<rparr>
     \<and> amount a \<and> amount b \<and> amount c \<and> amount d \<and> amount e"
  unfolding parse_resources_def Inr_simps sum.inject
  by (elim exE conjE, intro exI conjI, rule sym, assumption) (erule required_count_Inr)+

lemma parse_cgroup_Inr:
  "parse_cgroup row rec cols s = Inr s' \<Longrightarrow> \<exists>a b c g h.
     s' = s\<lparr>mm_cg_anon := a, mm_cg_current := b, mm_cg_stat_anon := c, mm_has_cg_anon := h, mm_has_cgroup := g\<rparr>
     \<and> amount a \<and> amount b \<and> amount c \<and> (g \<or> a = 0) \<and> (g \<or> b = 0) \<and> (h \<or> c = 0)"
  unfolding parse_cgroup_def Inr_simps sum.inject
  by (elim exE conjE, intro exI conjI, rule sym, assumption) (assumption | erule required_count_Inr)+

lemma parse_semantic_Inr:
  "parse_semantic row rec cols s = Inr s' \<Longrightarrow> \<exists>a b t c d.
     s' = s\<lparr>mm_oom := a, mm_oom_kill := b, mm_bgp_state := t, mm_bgp_ticks := c, mm_reconnects := d\<rparr>
     \<and> amount a \<and> amount b \<and> amount c \<and> amount d"
  unfolding parse_semantic_def Inr_simps sum.inject Let_def
  by (elim exE conjE, intro exI conjI, rule sym, assumption) (erule required_count_Inr)+

lemma parse_flags_Inr:
  "parse_flags row rec cols s = Inr s' \<Longrightarrow> \<exists>a b c d e f g h i j k.
     s' = s\<lparr>mm_has_rss := a, mm_has_pss := b, mm_has_pss_anon := c, mm_has_private_dirty := d, mm_has_anonymous := e, mm_has_swap := f,
       mm_has_threads := g, mm_has_pids := h, mm_has_fd := i, mm_has_socket_fd := j, mm_has_vma := k\<rparr>"
  unfolding parse_flags_def Inr_simps sum.inject by (elim exE conjE, intro exI, rule sym, assumption)

lemma check_availability_Inr:
  "check_availability row s = Inr s' \<longleftrightarrow> s' = s
     \<and> (mm_has_rss s \<or> mm_rss s = 0) \<and> (mm_has_pss s \<or> mm_pss s = 0) \<and> (mm_has_pss_anon s \<or> mm_pss_anon s = 0)
     \<and> (mm_has_private_dirty s \<or> mm_private_dirty s = 0) \<and> (mm_has_anonymous s \<or> mm_anonymous s = 0)
     \<and> (mm_has_swap s \<or> mm_swap s = 0) \<and> (mm_has_threads s \<or> mm_threads s = 0) \<and> (mm_has_pids s \<or> mm_pids s = 0)
     \<and> (mm_has_fd s \<or> mm_fd s = 0) \<and> (mm_has_socket_fd s \<or> mm_socket_fd s = 0) \<and> (mm_has_vma s \<or> mm_vma s = 0)"
  unfolding check_availability_def consistent_Inr sum.inject by blast

lemma ParsePhase_sample: "ParsePhase s \<noteq> OtherPhase [] \<Longrightarrow> ParsePhase s \<noteq> PhaseComplete \<Longrightarrow> sample_phase (ParsePhase s)"
  by (auto simp: ParsePhase_def AllPhases_def sample_phase_def split: if_splits)

lemma ParseUint_range: "ParseUint s = Some v \<Longrightarrow> v < 2 ^ 64"
  by (auto simp: ParseUint_def split: if_splits)

lemma requiredInt_range: "requiredInt row rec cols col = Inr v \<Longrightarrow> in_int64 v"
  unfolding requiredInt_def by (drule required_Inr, elim exE, rule Atoi_range)

lemma requiredUint64_range: "requiredUint64 row rec cols col = Inr v \<Longrightarrow> v < 2 ^ 64"
  unfolding requiredUint64_def by (drule required_Inr, elim exE, rule ParseUint_range)

lemma parse_identity_Inr:
  assumes "parse_identity pt row rec cols = Inr s"
  shows "\<exists>seq ts pid ph delayed st. s = blank_sample seq ts pid ph delayed\<lparr>mm_start := st\<rparr>
     \<and> in_int64 seq \<and> 0 < pid \<and> in_int64 pid \<and> 0 < st \<and> st < 2 ^ 64 \<and> sample_phase ph"
proof -
  obtain seq ts pid st delayed where s: "requiredInt row rec cols ''sequence'' = Inr seq" "requiredInt row rec cols ''process_pid'' = Inr pid"
    "0 < pid" "requiredUint64 row rec cols ''process_start_time'' = Inr st" "st \<noteq> 0"
    "ParsePhase (optionalString rec cols ''phase'') \<noteq> OtherPhase []" "ParsePhase (optionalString rec cols ''phase'') \<noteq> PhaseComplete"
    "blank_sample seq ts pid (ParsePhase (optionalString rec cols ''phase'')) delayed\<lparr>mm_start := st\<rparr> = s"
    using assms unfolding parse_identity_def Inr_simps sum.inject Let_def by (elim exE conjE) (rule that)
  show ?thesis
    using requiredInt_range[OF s(1)] requiredInt_range[OF s(2)] requiredUint64_range[OF s(4)] ParsePhase_sample[OF s(6,7)] s(3,5)
    by - (intro exI conjI, rule s(8)[symmetric], simp_all)
qed

text \<open>What the check of the progression requires of a row.\<close>

definition progresses :: "csv_parser \<Rightarrow> mem_sample list \<Rightarrow> mem_sample \<Rightarrow> bool" where
  "progresses p samples s \<longleftrightarrow> (pr_row p > 1 \<longrightarrow> mm_seq s = wrap64 (mm_seq (last samples) + 1) \<and> pr_ts p < mm_ts s
     \<and> pr_rank p \<le> csv_phaseRank (mm_phase s) \<and> mm_pid s = pr_pid p \<and> mm_start s = pr_start p)"

lemma check_progress_Inr: "check_progress p samples s = Inr s' \<longleftrightarrow> s' = s \<and> progresses p samples s"
  unfolding check_progress_def progresses_def Let_def
  by (cases "pr_row p > 1") (simp_all only: Inr_simps linorder_not_less[of "csv_phaseRank (mm_phase s)"] if_True if_False simp_thms sum.inject conj_ac eq_commute[of s s'])

text \<open>What holds of a row that is accepted.\<close>

lemma parse_row_Inr:
  assumes "parse_row pt cols p samples rec = Inr s"
  shows "row_valid s \<and> in_int64 (mm_seq s) \<and> progresses p samples s"
proof -
  obtain s0 s0' s1 s2 s3 s4 s5 s6 where p: "parse_identity pt (pr_row p) rec cols = Inr s0" "check_progress p samples s0 = Inr s0'"
    "parse_memory (pr_row p) rec cols s0' = Inr s1" "parse_docker (pr_row p) rec cols s1 = Inr s2"
    "parse_resources (pr_row p) rec cols s2 = Inr s3" "parse_cgroup (pr_row p) rec cols s3 = Inr s4"
    "parse_semantic (pr_row p) rec cols s4 = Inr s5" "parse_flags (pr_row p) rec cols s5 = Inr s6" "check_availability (pr_row p) s6 = Inr s"
    using assms unfolding parse_row_def Let_def and_then_Inr by (elim exE conjE) (rule that)
  have 2: "s0' = s0 \<and> progresses p samples s0" using p(2) unfolding check_progress_Inr .
  obtain seq ts pid ph delayed st where i: "s0 = blank_sample seq ts pid ph delayed\<lparr>mm_start := st\<rparr>"
    "in_int64 seq" "0 < pid" "in_int64 pid" "0 < st" "st < 2 ^ 64" "sample_phase ph" using parse_identity_Inr[OF p(1)] by (elim exE conjE) (rule that)
  show ?thesis
    using parse_memory_Inr[OF p(3)] parse_docker_Inr[OF p(4)] parse_resources_Inr[OF p(5)] parse_cgroup_Inr[OF p(6)]
      parse_semantic_Inr[OF p(7)] parse_flags_Inr[OF p(8)] p(9) i 2
    unfolding check_availability_Inr
    apply (elim exE conjE)
    apply hypsubst
    apply (simp add: row_valid_def amounts_def flagged_def in_int64_def blank_sample_def progresses_def)
    done
qed

subsection \<open>What is accepted is valid\<close>

lemma csv_rank: "sample_phase ph \<Longrightarrow> csv_phaseRank ph = phaseRank ph + 1"
  by (cases ph) (simp_all add: sample_phase_def csv_phaseRank_def)

lemma sorted_wrt_last: "sorted_wrt R xs \<Longrightarrow> x \<in> set xs \<Longrightarrow> x = last xs \<or> R x (last xs)"
  by (induction xs rule: rev_induct) (auto simp: sorted_wrt_append)

lemma row_before_trans: "row_before s t \<Longrightarrow> row_before t u \<Longrightarrow> row_before s u"
  by (simp add: row_before_def)

definition row_follows :: "mem_sample \<Rightarrow> mem_sample \<Rightarrow> bool" where
  "row_follows s t \<longleftrightarrow> mm_seq t = wrap64 (mm_seq s + 1) \<and> row_before s t"

lemma wrap64_next: "wrap64 (1 + wrap64 a) = wrap64 (1 + a)"
  unfolding wrap64_def by (simp add: mod_simps algebra_simps)

definition numbered :: "mem_sample list \<Rightarrow> bool" where
  "numbered samples \<longleftrightarrow> (\<forall>i < length samples. mm_seq (samples ! i) = wrap64 (mm_seq (samples ! 0) + int i))"

lemma numberedD: "numbered samples \<Longrightarrow> i < length samples \<Longrightarrow> mm_seq (samples ! i) = wrap64 (mm_seq (samples ! 0) + int i)"
  unfolding numbered_def by blast

text \<open>The state of the parser after some rows: the rows are in order and it remembers the last.\<close>

definition parser_at :: "csv_parser \<Rightarrow> mem_sample list \<Rightarrow> bool" where
  "parser_at p samples \<longleftrightarrow> pr_row p = length samples \<and> pr_count p = length samples \<and> length samples \<le> 500
     \<and> list_all row_valid samples \<and> list_all (\<lambda>s. in_int64 (mm_seq s)) samples
     \<and> sorted_wrt row_before samples
     \<and> numbered samples
     \<and> (samples \<noteq> [] \<longrightarrow> pr_ts p = mm_ts (last samples) \<and> pr_pid p = mm_pid (last samples) \<and> pr_start p = mm_start (last samples)
          \<and> pr_rank p = csv_phaseRank (mm_phase (last samples)))"

definition parser_after :: "csv_parser \<Rightarrow> mem_sample \<Rightarrow> csv_parser" where
  "parser_after p s = p\<lparr>pr_row := pr_row p + 1, pr_count := pr_count p + 1, pr_ts := mm_ts s, pr_pid := mm_pid s, pr_start := mm_start s,
     pr_rank := csv_phaseRank (mm_phase s)\<rparr>"

lemma progresses_row_before:
  assumes p: "parser_at p samples" and s: "row_valid s" and v: "progresses (p\<lparr>pr_row := pr_row p + 1, pr_count := pr_count p + 1\<rparr>) samples s"
    and ne: "samples \<noteq> []"
  shows "row_before (last samples) s \<and> mm_seq s = wrap64 (mm_seq (last samples) + 1)"
proof -
  have "row_valid (last samples)" using p ne by (simp add: parser_at_def list_all_iff)
  then have "csv_phaseRank (mm_phase (last samples)) = phaseRank (mm_phase (last samples)) + 1"
    "csv_phaseRank (mm_phase s) = phaseRank (mm_phase s) + 1" using s by (simp_all add: row_valid_def csv_rank)
  then show ?thesis using p ne v by (cases samples) (simp_all add: parser_at_def progresses_def row_before_def)
qed

lemma parser_at_step:
  assumes p: "parser_at p samples" and s: "row_valid s" "in_int64 (mm_seq s)" and n: "length samples < 500"
    and v: "progresses (p\<lparr>pr_row := pr_row p + 1, pr_count := pr_count p + 1\<rparr>) samples s"
  shows "parser_at (parser_after p s) (samples @ [s])"
proof -
  have b: "row_before x s" if "x \<in> set samples" for x
  proof -
    have ne: "samples \<noteq> []" using that by auto
    have l: "row_before (last samples) s" using progresses_row_before[OF p s(1) v ne] by simp
    have "x = last samples \<or> row_before x (last samples)" using p that by (intro sorted_wrt_last) (simp_all add: parser_at_def)
    then show ?thesis using l row_before_trans by metis
  qed
  have "numbered (samples @ [s])" unfolding numbered_def
  proof (intro allI impI)
    fix i assume i: "i < length (samples @ [s])"
    have p': "numbered samples" using p by (simp add: parser_at_def)
    consider "samples = []" | "i < length samples" | "samples \<noteq> []" "i = length samples" using i by force
    then show "mm_seq ((samples @ [s]) ! i) = wrap64 (mm_seq ((samples @ [s]) ! 0) + int i)"
    proof cases
      case 1 then show ?thesis using i s(2) by (simp add: wrap64_id)
    next
      case 2
      then have "samples \<noteq> []" by auto
      then show ?thesis using numberedD[OF p' 2] 2 by (simp add: nth_append)
    next
      case 3
      have "mm_seq (last samples) = wrap64 (mm_seq (samples ! 0) + int (length samples - 1))"
        using numberedD[OF p', of "length samples - 1"] 3 by (simp add: last_conv_nth)
      then show ?thesis using progresses_row_before[OF p s(1) v 3(1)] 3
        by (cases samples) (simp_all add: nth_append wrap64_next add.commute add.left_commute)
    qed
  qed
  show ?thesis using p s n b \<open>numbered (samples @ [s])\<close> unfolding parser_at_def parser_after_def by (simp add: sorted_wrt_append)
qed

lemma parse_rows_at:
  assumes "parse_rows pt cols p samples rows = Inr result" "parser_at p samples"
  shows "\<exists>p'. parser_at p' result"
  using assms
proof (induction rows arbitrary: p samples)
  case Nil
  then have "result = samples" by simp
  with Nil(2) show ?case by (intro exI[of _ p]) (simp only:)
next
  case (Cons row rows)
  let ?p = "p\<lparr>pr_row := pr_row p + 1, pr_count := pr_count p + 1\<rparr>"
  obtain rec where r: "row = Inr rec" using Cons.prems(1) by (cases row) simp_all
  have c: "\<not> maxSamplesPerCSV < pr_count ?p" using Cons.prems(1) by (simp add: r Let_def split: if_splits)
  then have n: "length samples < 500" using Cons.prems(2) by (simp add: maxSamplesPerCSV_def parser_at_def)
  obtain s where s: "parse_row pt cols ?p samples rec = Inr s" "parse_rows pt cols (parser_after p s) (samples @ [s]) rows = Inr result"
    using Cons.prems(1) unfolding r parse_rows.simps Let_def if_not_P[OF c] and_then_Inr
    by (elim exE conjE) (rule that, assumption, simp only: parser_after_def)
  have v: "row_valid s" "in_int64 (mm_seq s)" "progresses ?p samples s" using parse_row_Inr[OF s(1)] by simp_all
  show ?case by (rule Cons.IH[OF s(2) parser_at_step[OF Cons.prems(2) v(1,2) n v(3)]])
qed

lemma ParseSamplesCSVStream_Inr:
  assumes "ParseSamplesCSVStream parse_time file = Inr samples"
  shows "\<exists>cols rows. parse_rows parse_time cols \<lparr>pr_row = 0, pr_ts = 0, pr_pid = 0, pr_start = 0, pr_rank = 0, pr_count = 0\<rparr> [] rows
      = Inr samples \<and> samples \<noteq> [] \<and> mm_seq (hd samples) = 0"
proof -
  obtain header rows where h: "csv_records True True None file = Inr header # rows"
  proof (cases "csv_records True True None file")
    case (Cons r rs) then show ?thesis using assms that by (cases r) (simp_all add: ParseSamplesCSVStream_def)
  qed (use assms in \<open>simp add: ParseSamplesCSVStream_def\<close>)
  obtain cols result where c: "parse_rows parse_time cols \<lparr>pr_row = 0, pr_ts = 0, pr_pid = 0, pr_start = 0, pr_rank = 0, pr_count = 0\<rparr> []
      rows = Inr result"
    "(if result = [] then Inl NoRows else if mm_seq (hd result) \<noteq> 0 then Inl (FirstSequence (mm_seq (hd result))) else Inr result) = Inr samples"
    using assms unfolding ParseSamplesCSVStream_def h list.case sum.case and_then_Inr by (elim exE conjE) (rule that)
  have "result = samples" "samples \<noteq> []" "mm_seq (hd samples) = 0" using c(2) by (simp_all split: if_splits)
  with c(1) show ?thesis by blast
qed

end
