(* ===== verification/Lab_Classifier.thy ===== *)
theory Lab_Classifier
  imports Lab_Csv_Rows
begin

section \<open>The classification of a run\<close>

text \<open>
  Models \<open>internal/analysis/classifier.go\<close> of the memory lab: the statistics of one signal over a series
  of samples, the classification of memory, resources and semantics with their combination, and the
  descriptor fallback. Floating-point operations are binary64 with one rounding each; the points of a
  signal are sorted by time with a stable sort, where the code's sort leaves the order of equal times open.
  The texts of warnings and failures are reduced to a constructor each.
\<close>

datatype classification = ClassificationStable | ClassificationGrowing | ClassificationResourceGrowth
  | ClassificationProcessReplaced | ClassificationInconclusive | ClassificationInvalid | ClassificationUnset

record thresholds =
  th_memory_kib :: int
  th_memory_percent :: f64
  th_resource :: int
  th_corroboration :: int
  th_sample_min :: int
  th_window_min :: int

definition DefaultThresholds :: thresholds where
  "DefaultThresholds = \<lparr>th_memory_kib = 500, th_memory_percent = Fin (1 / 2), th_resource = 10, th_corroboration = 2,
     th_sample_min = 10, th_window_min = 3\<rparr>"

datatype signal_kind = SignalKindSampled | SignalKindStateInvariant | SignalKindUnset

record signal_summary =
  sg_name :: string
  sg_kind :: signal_kind
  sg_first :: int
  sg_last :: int
  sg_delta :: int
  sg_relative :: f64
  sg_rate :: f64
  sg_slope :: f64
  sg_samples :: int
  sg_missing :: int
  sg_available :: int
  sg_min :: int
  sg_max :: int
  sg_class :: classification
  sg_primary :: bool

definition blank_signal :: signal_summary where
  "blank_signal = \<lparr>sg_name = [], sg_kind = SignalKindUnset, sg_first = 0, sg_last = 0, sg_delta = 0, sg_relative = Fin 0, sg_rate = Fin 0,
     sg_slope = Fin 0, sg_samples = 0, sg_missing = 0, sg_available = 0, sg_min = 0, sg_max = 0, sg_class = ClassificationUnset,
     sg_primary = False\<rparr>"

text \<open>The faults the check of a canary's state can find, see \<open>validateStateInvariant\<close>.\<close>

datatype invariant_fault = OperationDelta int | BlocksDelta int | BytesDelta int | BufferChanged | RetainedBlocksLeft | RetainedBytesLeft
  | FDDelta int

datatype verdict_note = NoSamples | ProcessReplacement | InsufficientSamples | MissingPhases | InvariantFailure invariant_fault

record lab_verdict =
  vd_overall :: classification
  vd_memory :: classification
  vd_resource :: classification
  vd_semantic :: classification
  vd_signals :: "signal_summary list"
  vd_failures :: "verdict_note list"
  vd_warnings :: "verdict_note list"

definition blank_verdict :: lab_verdict where
  "blank_verdict = \<lparr>vd_overall = ClassificationUnset, vd_memory = ClassificationUnset, vd_resource = ClassificationUnset,
     vd_semantic = ClassificationUnset, vd_signals = [], vd_failures = [], vd_warnings = []\<rparr>"

subsection \<open>The statistics of a signal\<close>

definition int_median :: "int list \<Rightarrow> int" where
  "int_median values =
     (if values = [] then 0
      else let sorted = sort values; mid = length sorted div 2
        in if even (length sorted) then go_div (wrap64 (sorted ! (mid - 1) + sorted ! mid)) 2 else sorted ! mid)"

type_synonym sample_point = "time \<times> int"

definition go_hours :: "duration \<Rightarrow> f64" where
  "go_hours d = fadd (f_of_int (go_div d (3600 * ns_per_sec))) (fdiv (f_of_int (go_rem d (3600 * ns_per_sec))) (f_of_int (3600 * ns_per_sec)))"

text \<open>The sums of the regression, in the order of the points.\<close>

definition slope_step :: "time \<Rightarrow> sample_point \<Rightarrow> f64 \<times> f64 \<times> f64 \<times> f64 \<Rightarrow> f64 \<times> f64 \<times> f64 \<times> f64" where
  "slope_step firstTime p = (\<lambda>(sumX, sumY, sumXY, sumX2).
     let x = go_seconds (time_sub (fst p) firstTime); y = f_of_int (snd p)
     in (fadd sumX x, fadd sumY y, fadd sumXY (fmul x y), fadd sumX2 (fmul x x)))"

definition simpleSlope :: "sample_point list \<Rightarrow> f64" where
  "simpleSlope points =
     (if length points < 2 then Fin 0
      else let n = f_of_int (int (length points));
               (sumX, sumY, sumXY, sumX2) = fold (slope_step (fst (hd points))) points (Fin 0, Fin 0, Fin 0, Fin 0);
               denom = fsub (fmul n sumX2) (fmul sumX sumX)
        in if denom = Fin 0 then Fin 0 else fdiv (fsub (fmul n sumXY) (fmul sumX sumY)) denom)"

definition pair_slopes :: "sample_point list \<Rightarrow> f64 list" where
  "pair_slopes points =
     [fdiv (f_of_int (wrap64 (snd (points ! j) - snd (points ! i)))) (go_seconds (time_sub (fst (points ! j)) (fst (points ! i)))).
        i \<leftarrow> [0..<length points - 1], j \<leftarrow> [Suc i..<length points],
        go_seconds (time_sub (fst (points ! j)) (fst (points ! i))) \<noteq> Fin 0]"

definition theilSenSlope :: "sample_point list \<Rightarrow> f64" where
  "theilSenSlope points =
     (if length points < 2 then Fin 0
      else if length points \<le> 5 then simpleSlope points
      else let slopes = sort (pair_slopes points); mid = length slopes div 2
        in if slopes = [] then Fin 0
           else if even (length slopes) then fdiv (fadd (slopes ! (mid - 1)) (slopes ! mid)) (Fin 2)
           else slopes ! mid)"

definition relative_delta :: "int \<Rightarrow> int \<Rightarrow> f64" where
  "relative_delta absDelta firstMedian =
     (if firstMedian > 0 then fmul (fdiv (f_of_int absDelta) (f_of_int firstMedian)) (Fin 100) else Fin 0)"

definition rate_per_hour :: "int \<Rightarrow> duration \<Rightarrow> f64" where
  "rate_per_hour absDelta d = (if d > 0 then fdiv (f_of_int absDelta) (go_hours d) else Fin 0)"

record signal_field =
  sf_name :: string
  sf_get :: "mem_sample \<Rightarrow> int"
  sf_available :: "mem_sample \<Rightarrow> bool"
  sf_primary :: bool

text \<open>The summary of the points of a signal, at least two of them, sorted by time.\<close>

definition signal_statistics :: "signal_field \<Rightarrow> nat \<Rightarrow> sample_point list \<Rightarrow> signal_summary" where
  "signal_statistics field samples points =
     (let mid = length points div 2;
          firstMedian = int_median (map snd (take mid points)); lastMedian = int_median (map snd (drop mid points));
          absDelta = wrap64 (lastMedian - firstMedian)
      in blank_signal\<lparr>sg_name := sf_name field, sg_kind := SignalKindSampled, sg_first := firstMedian, sg_last := lastMedian,
           sg_delta := absDelta, sg_relative := relative_delta absDelta firstMedian,
           sg_rate := rate_per_hour absDelta (time_sub (fst (last points)) (fst (hd points))),
           sg_slope := theilSenSlope points, sg_samples := int samples, sg_missing := int samples - int (length points),
           sg_available := int (length points), sg_min := Min (set (map snd points)), sg_max := Max (set (map snd points)),
           sg_class := ClassificationStable, sg_primary := sf_primary field\<rparr>)"

definition signal_points :: "signal_field \<Rightarrow> mem_sample list \<Rightarrow> sample_point list" where
  "signal_points field samples = map (\<lambda>s. (mm_ts s, sf_get field s)) (filter (sf_available field) samples)"

definition analyzeSignal :: "signal_field \<Rightarrow> mem_sample list \<Rightarrow> signal_summary" where
  "analyzeSignal field samples =
     (if length samples < 2
      then blank_signal\<lparr>sg_name := sf_name field, sg_kind := SignalKindSampled, sg_samples := int (length samples),
             sg_class := ClassificationInconclusive, sg_primary := sf_primary field\<rparr>
      else let points = signal_points field samples
        in if length points < 2
           then blank_signal\<lparr>sg_name := sf_name field, sg_kind := SignalKindSampled, sg_samples := int (length samples),
                  sg_available := int (length points), sg_missing := int (length samples) - int (length points),
                  sg_class := ClassificationInconclusive, sg_primary := sf_primary field\<rparr>
           else signal_statistics field (length samples) (sort_key fst points))"

text \<open>The signals, with the check of availability that \<open>getSignalAvailability\<close> gives for the name.\<close>

definition getSignalAvailability :: "string \<Rightarrow> mem_sample \<Rightarrow> bool" where
  "getSignalAvailability name =
     (if name = ''rss_kib'' then mm_has_rss
      else if name = ''pss_kib'' then mm_has_pss
      else if name = ''pss_anon_kib'' then mm_has_pss_anon
      else if name = ''private_dirty_kib'' then mm_has_private_dirty
      else if name = ''anonymous_kib'' then mm_has_anonymous
      else if name = ''swap_kib'' then mm_has_swap
      else if name = ''cgroup_anon_kib'' \<or> name = ''cgroup_current_kib'' then mm_has_cgroup
      else if name = ''docker_memory_kib'' then mm_has_docker
      else if name = ''thread_count'' then mm_has_threads
      else if name = ''fd_count'' then mm_has_fd
      else if name = ''socket_fd_count'' then mm_has_socket_fd
      else if name = ''vma_count'' then mm_has_vma
      else if name = ''pid_count'' then mm_has_pids
      else (\<lambda>s. True))"

definition signal_of :: "bool \<Rightarrow> string \<times> (mem_sample \<Rightarrow> int) \<Rightarrow> signal_field" where
  "signal_of primary f = \<lparr>sf_name = fst f, sf_get = snd f, sf_available = getSignalAvailability (fst f), sf_primary = primary\<rparr>"

definition primaryFields :: "(string \<times> (mem_sample \<Rightarrow> int)) list" where
  "primaryFields = [(''pss_anon_kib'', mm_pss_anon), (''private_dirty_kib'', mm_private_dirty), (''anonymous_kib'', mm_anonymous),
     (''cgroup_anon_kib'', \<lambda>s. go_div (mm_cg_anon s) 1024)]"

definition secondaryFields :: "(string \<times> (mem_sample \<Rightarrow> int)) list" where
  "secondaryFields = [(''rss_kib'', mm_rss), (''pss_kib'', mm_pss), (''cgroup_current_kib'', \<lambda>s. go_div (mm_cg_current s) 1024),
     (''docker_memory_kib'', \<lambda>s. go_div (mm_docker_usage s) 1024)]"

definition resourceFields :: "(string \<times> (mem_sample \<Rightarrow> int)) list" where
  "resourceFields = [(''fd_count'', mm_fd), (''socket_fd_count'', mm_socket_fd), (''thread_count'', mm_threads), (''vma_count'', mm_vma),
     (''pid_count'', mm_pids)]"

definition analyzeMemorySignals :: "mem_sample list \<Rightarrow> signal_summary list" where
  "analyzeMemorySignals samples =
     map (\<lambda>f. analyzeSignal (signal_of True f) samples) primaryFields @ map (\<lambda>f. analyzeSignal (signal_of False f) samples) secondaryFields"

definition analyzeResourceSignals :: "mem_sample list \<Rightarrow> signal_summary list" where
  "analyzeResourceSignals samples = map (\<lambda>f. analyzeSignal (signal_of False f) samples) resourceFields"

subsection \<open>The classification of the signals\<close>

definition CanaryRetainedDeltaBytes :: int where "CanaryRetainedDeltaBytes = 32 * 1024 * 1024"

definition memory_growing :: "thresholds \<Rightarrow> signal_summary \<Rightarrow> bool" where
  "memory_growing th s \<longleftrightarrow> fgt (sg_rate s) (f_of_int (th_memory_kib th)) \<or> fgt (sg_relative s) (th_memory_percent th)
     \<or> fgt (sg_slope s) (round64 (1 / 100))"

record growth_counts =
  gc_primary :: nat
  gc_secondary :: nat
  gc_rss :: bool
  gc_docker :: bool
  gc_cgroup :: bool
  gc_docker_delta :: int
  gc_cgroup_delta :: int

definition count_growth :: "thresholds \<Rightarrow> signal_summary \<Rightarrow> growth_counts \<Rightarrow> growth_counts" where
  "count_growth th s c =
     (if memory_growing th s then
        (let c1 = (if sg_primary s then c\<lparr>gc_primary := gc_primary c + 1\<rparr> else c\<lparr>gc_secondary := gc_secondary c + 1\<rparr>);
             c2 = (if sg_name s = ''docker_memory_kib'' then c1\<lparr>gc_docker := True, gc_docker_delta := sg_delta s\<rparr> else c1);
             c3 = (if sg_name s = ''cgroup_anon_kib'' then c2\<lparr>gc_cgroup := True, gc_cgroup_delta := sg_delta s\<rparr> else c2)
         in if sg_name s = ''rss_kib'' then c3\<lparr>gc_rss := True\<rparr> else c3)
      else c)"

definition growth_of :: "thresholds \<Rightarrow> signal_summary list \<Rightarrow> growth_counts" where
  "growth_of th signals = fold (count_growth th) signals
     \<lparr>gc_primary = 0, gc_secondary = 0, gc_rss = False, gc_docker = False, gc_cgroup = False, gc_docker_delta = 0, gc_cgroup_delta = 0\<rparr>"

definition mark_memory :: "thresholds \<Rightarrow> signal_summary \<Rightarrow> signal_summary" where
  "mark_memory th s = s\<lparr>sg_class := (if memory_growing th s then ClassificationGrowing else ClassificationStable)\<rparr>"

definition classifyMemorySignals :: "thresholds \<Rightarrow> signal_summary list \<Rightarrow> classification \<times> signal_summary list" where
  "classifyMemorySignals th signals =
     (let c = growth_of th signals; canaryThresholdKiB = go_div CanaryRetainedDeltaBytes 1024
      in (if gc_secondary c > 0 \<and> gc_primary c = 0 \<and> gc_rss c \<and> \<not> gc_docker c then ClassificationInconclusive
          else if int (gc_primary c) \<ge> th_corroboration th then ClassificationGrowing
          else if gc_primary c > 0 \<and> int (gc_secondary c) \<ge> th_corroboration th then ClassificationGrowing
          else if gc_primary c > 0 then ClassificationInconclusive
          else if gc_docker c \<and> gc_primary c = 0 then
            (if gc_docker_delta c \<ge> canaryThresholdKiB then ClassificationGrowing else ClassificationStable)
          else if gc_cgroup c \<and> \<not> gc_docker c \<and> gc_primary c = 0 \<and> gc_secondary c = 0 then
            (if gc_cgroup_delta c \<ge> canaryThresholdKiB then ClassificationGrowing else ClassificationInconclusive)
          else if gc_docker c \<and> gc_secondary c > 0 \<and> gc_primary c = 0 then
            (if gc_docker_delta c \<ge> canaryThresholdKiB then ClassificationGrowing else ClassificationInconclusive)
          else ClassificationStable,
          map (mark_memory th) signals))"

definition resource_growing :: "thresholds \<Rightarrow> signal_summary \<Rightarrow> bool" where
  "resource_growing th s \<longleftrightarrow> fgt (sg_rate s) (f_of_int (th_resource th)) \<or> fgt (sg_slope s) (round64 (1 / 1000))"

text \<open>The loop assigns the class to its copy of the signal: the signals stay as they are.\<close>

definition classifyResourceSignals :: "thresholds \<Rightarrow> signal_summary list \<Rightarrow> classification" where
  "classifyResourceSignals th signals =
     (let growingCount = length (filter (resource_growing th) signals)
      in if growingCount \<ge> 1 then ClassificationResourceGrowth else ClassificationStable)"

definition classifySemantic :: "mem_sample list \<Rightarrow> classification" where
  "classifySemantic samples =
     (if samples = [] then ClassificationInconclusive
      else if list_ex (\<lambda>s. mm_oom s > 0 \<or> mm_oom_kill s > 0) samples then ClassificationGrowing else ClassificationStable)"

subsection \<open>The verdict\<close>

definition hasProcessReplacement :: "mem_sample list \<Rightarrow> bool" where
  "hasProcessReplacement samples =
     (if length samples < 2 then False
      else list_ex (\<lambda>s. mm_pid s \<noteq> mm_pid (hd samples) \<or> mm_start s \<noteq> mm_start (hd samples)) (tl samples))"

definition hasBaselineAndStimulus :: "mem_sample list \<Rightarrow> bool" where
  "hasBaselineAndStimulus samples \<longleftrightarrow> list_ex (\<lambda>s. mm_phase s = PhaseBaseline) samples
     \<and> list_ex (\<lambda>s. mm_phase s = PhaseStimulus \<or> mm_phase s = PhaseFinal) samples"

definition computeOverall :: "classification \<Rightarrow> classification \<Rightarrow> classification \<Rightarrow> classification" where
  "computeOverall memory resource semantic =
     (if semantic = ClassificationInvalid then ClassificationInvalid
      else if memory = ClassificationGrowing then ClassificationGrowing
      else if resource = ClassificationResourceGrowth then ClassificationResourceGrowth
      else if memory = ClassificationInconclusive then ClassificationInconclusive
      else if memory = ClassificationProcessReplaced then ClassificationProcessReplaced
      else ClassificationStable)"

definition ComputeOverallWithInvariant :: "classification \<Rightarrow> classification \<Rightarrow> classification \<Rightarrow> bool \<Rightarrow> classification" where
  "ComputeOverallWithInvariant memory resource semantic invariantValid =
     (if semantic = ClassificationInvalid then ClassificationInvalid
      else if \<not> invariantValid then ClassificationInvalid
      else computeOverall memory resource semantic)"

definition Analyze :: "mem_sample list \<Rightarrow> thresholds \<Rightarrow> lab_verdict" where
  "Analyze samples th =
     (if samples = [] then blank_verdict\<lparr>vd_overall := ClassificationInconclusive, vd_warnings := [NoSamples]\<rparr>
      else if hasProcessReplacement samples then
        blank_verdict\<lparr>vd_overall := ClassificationProcessReplaced, vd_memory := ClassificationProcessReplaced,
          vd_resource := ClassificationProcessReplaced, vd_semantic := ClassificationProcessReplaced, vd_failures := [ProcessReplacement]\<rparr>
      else if int (length samples) < th_sample_min th then
        blank_verdict\<lparr>vd_overall := ClassificationInconclusive, vd_warnings := [InsufficientSamples]\<rparr>
      else if \<not> hasBaselineAndStimulus samples then
        blank_verdict\<lparr>vd_overall := ClassificationInconclusive, vd_warnings := [MissingPhases]\<rparr>
      else let memorySignals = analyzeMemorySignals samples; resourceSignals = analyzeResourceSignals samples;
               (memoryClass, memorySignals') = classifyMemorySignals th memorySignals;
               resourceClass = classifyResourceSignals th resourceSignals;
               semanticClass = classifySemantic samples
        in blank_verdict\<lparr>vd_memory := memoryClass, vd_resource := resourceClass, vd_signals := memorySignals' @ resourceSignals,
             vd_semantic := semanticClass, vd_overall := computeOverall memoryClass resourceClass semanticClass\<rparr>)"

record invariant_result =
  ir_valid :: bool
  ir_failures :: "invariant_fault list"

definition AnalyzeWithInvariant :: "mem_sample list \<Rightarrow> thresholds \<Rightarrow> invariant_result option \<Rightarrow> lab_verdict" where
  "AnalyzeWithInvariant samples th invariant =
     (let v = Analyze samples th
      in case invariant of
           None \<Rightarrow> v
         | Some i \<Rightarrow> if \<not> ir_valid i
             then v\<lparr>vd_overall := ClassificationInvalid, vd_semantic := ClassificationInvalid,
                    vd_failures := vd_failures v @ map InvariantFailure (ir_failures i)\<rparr>
             else v)"

end
