(* ===== verification/Lab_Verdict.thy ===== *)
theory Lab_Verdict
  imports Lab_Classifier
begin

section \<open>What a verdict means\<close>

text \<open>
  The verdict on memory in terms of the signals that grow (\<open>memory_verdict_corroborated\<close>), the two ends of
  the scale -- a process whose memory doubles is found, one whose values never change is stable -- and the
  verdict on the samples of a file the strict parser accepted.
\<close>

subsection \<open>Counting the signals that grow\<close>

definition growing_primary :: "thresholds \<Rightarrow> signal_summary list \<Rightarrow> nat" where
  "growing_primary th signals = length (filter (\<lambda>s. memory_growing th s \<and> sg_primary s) signals)"

definition growing_secondary :: "thresholds \<Rightarrow> signal_summary list \<Rightarrow> nat" where
  "growing_secondary th signals = length (filter (\<lambda>s. memory_growing th s \<and> \<not> sg_primary s) signals)"

lemma count_growth_simps:
  "gc_primary (count_growth th s c) = gc_primary c + (if memory_growing th s \<and> sg_primary s then 1 else 0)"
  "gc_secondary (count_growth th s c) = gc_secondary c + (if memory_growing th s \<and> \<not> sg_primary s then 1 else 0)"
  "gc_docker (count_growth th s c) = (gc_docker c \<or> memory_growing th s \<and> sg_name s = ''docker_memory_kib'')"
  "gc_cgroup (count_growth th s c) = (gc_cgroup c \<or> memory_growing th s \<and> sg_name s = ''cgroup_anon_kib'')"
  "gc_rss (count_growth th s c) = (gc_rss c \<or> memory_growing th s \<and> sg_name s = ''rss_kib'')"
  "gc_docker_delta (count_growth th s c) = (if memory_growing th s \<and> sg_name s = ''docker_memory_kib'' then sg_delta s else gc_docker_delta c)"
  by (simp_all add: count_growth_def Let_def)

lemma growth_fold:
  "gc_primary (fold (count_growth th) signals c) = gc_primary c + growing_primary th signals"
  "gc_secondary (fold (count_growth th) signals c) = gc_secondary c + growing_secondary th signals"
  "gc_docker (fold (count_growth th) signals c) = (gc_docker c \<or> (\<exists>s \<in> set signals. memory_growing th s \<and> sg_name s = ''docker_memory_kib''))"
  "gc_cgroup (fold (count_growth th) signals c) = (gc_cgroup c \<or> (\<exists>s \<in> set signals. memory_growing th s \<and> sg_name s = ''cgroup_anon_kib''))"
  by (induction signals arbitrary: c) (auto simp: count_growth_simps growing_primary_def growing_secondary_def)

lemma analyzeSignal_simps [simp]:
  "sg_name (analyzeSignal f samples) = sf_name f" "sg_primary (analyzeSignal f samples) = sf_primary f"
  by (simp_all add: analyzeSignal_def signal_statistics_def blank_signal_def Let_def)

lemma signal_of_simps [simp]:
  "sf_name (signal_of b f) = fst f" "sf_primary (signal_of b f) = b" "sf_get (signal_of b f) = snd f"
  "sf_available (signal_of b f) = getSignalAvailability (fst f)"
  by (simp_all add: signal_of_def)

definition docker_signal :: "mem_sample list \<Rightarrow> signal_summary" where
  "docker_signal samples = analyzeSignal (signal_of False (''docker_memory_kib'', \<lambda>s. go_div (mm_docker_usage s) 1024)) samples"

lemma memory_signals_split:
  obtains signals where "analyzeMemorySignals samples = signals @ [docker_signal samples]"
    "\<forall>s \<in> set signals. sg_name s \<noteq> ''docker_memory_kib''"
proof
  let ?b = "map (\<lambda>f. analyzeSignal (signal_of True f) samples) primaryFields
    @ map (\<lambda>f. analyzeSignal (signal_of False f) samples) (butlast secondaryFields)"
  show "analyzeMemorySignals samples = ?b @ [docker_signal samples]"
    by (simp add: analyzeMemorySignals_def secondaryFields_def docker_signal_def)
  show "\<forall>s \<in> set ?b. sg_name s \<noteq> ''docker_memory_kib''" by (simp add: primaryFields_def secondaryFields_def)
qed

lemma docker_growth:
  "gc_docker (growth_of th (analyzeMemorySignals samples)) = memory_growing th (docker_signal samples)"
  "memory_growing th (docker_signal samples) \<Longrightarrow> gc_docker_delta (growth_of th (analyzeMemorySignals samples)) = sg_delta (docker_signal samples)"
proof -
  obtain signals where s: "analyzeMemorySignals samples = signals @ [docker_signal samples]"
    "\<forall>s \<in> set signals. sg_name s \<noteq> ''docker_memory_kib''" by (rule memory_signals_split)
  have n: "sg_name (docker_signal samples) = ''docker_memory_kib''" by (simp add: docker_signal_def)
  show "gc_docker (growth_of th (analyzeMemorySignals samples)) = memory_growing th (docker_signal samples)"
    using s n by (auto simp: growth_of_def growth_fold count_growth_simps)
  show "memory_growing th (docker_signal samples) \<Longrightarrow> gc_docker_delta (growth_of th (analyzeMemorySignals samples)) = sg_delta (docker_signal samples)"
    unfolding growth_of_def s(1) by (simp add: count_growth_simps n)
qed

lemma cgroup_signal_primary:
  "s \<in> set (analyzeMemorySignals samples) \<Longrightarrow> sg_name s = ''cgroup_anon_kib'' \<Longrightarrow> sg_primary s"
  by (auto simp: analyzeMemorySignals_def primaryFields_def secondaryFields_def)

text \<open>C17. The memory of a process is called growing exactly on corroborated evidence: enough primary signals grow; or one primary signal
  grows and enough secondary signals with it; or no primary signal grows and the memory Docker reports grew by at least 32 MiB
  between the two windows. A growing RSS alone never suffices.\<close>

theorem memory_verdict_corroborated:
  assumes "th_corroboration th \<ge> 1"
  shows "fst (classifyMemorySignals th (analyzeMemorySignals samples)) = ClassificationGrowing \<longleftrightarrow>
    (let p = growing_primary th (analyzeMemorySignals samples); q = growing_secondary th (analyzeMemorySignals samples);
         d = docker_signal samples
     in th_corroboration th \<le> int p \<or> (p > 0 \<and> th_corroboration th \<le> int q)
        \<or> (p = 0 \<and> memory_growing th d \<and> sg_delta d \<ge> 32 * 1024))"
proof -
  let ?c = "growth_of th (analyzeMemorySignals samples)" and ?d = "docker_signal samples"
  define p where "p = growing_primary th (analyzeMemorySignals samples)"
  define q where "q = growing_secondary th (analyzeMemorySignals samples)"
  have c: "gc_primary ?c = p" "gc_secondary ?c = q" by (simp_all add: growth_of_def growth_fold p_def q_def)
  have k: "go_div CanaryRetainedDeltaBytes 1024 = 32 * 1024" by code_simp
  have g: "gc_cgroup ?c \<Longrightarrow> p > 0"
    using cgroup_signal_primary[of _ samples] by (auto simp: growth_of_def growth_fold p_def growing_primary_def filter_empty_conv)
  show ?thesis
    unfolding classifyMemorySignals_def Let_def fst_conv c k docker_growth(1) p_def[symmetric] q_def[symmetric]
    using assms g docker_growth(2)[of th samples] by (cases "memory_growing th ?d") auto
qed

subsection \<open>Medians\<close>

lemma int_median_between:
  assumes "values \<noteq> []" "\<forall>v \<in> set values. a \<le> v \<and> v \<le> b" "0 \<le> a" "b < 2 ^ 62"
  shows "a \<le> int_median values \<and> int_median values \<le> b"
proof -
  let ?s = "sort values" and ?m = "length values div 2"
  have n: "0 < length values" "?m < length values" using assms(1) by auto
  have "?s ! ?m \<in> set values" "?s ! (?m - 1) \<in> set values"
    using n by (metis nth_mem set_sort length_sort, metis nth_mem set_sort length_sort less_imp_diff_less)
  then have v: "a \<le> ?s ! ?m" "?s ! ?m \<le> b" "a \<le> ?s ! (?m - 1)" "?s ! (?m - 1) \<le> b" using assms(2) by auto
  define t where "t = ?s ! (?m - 1) + ?s ! ?m"
  have "2 * a \<le> t" "t \<le> 2 * b" using v by (simp_all add: t_def)
  then have d: "a \<le> t div 2" "t div 2 \<le> b" by presburger+
  have "wrap64 t = t" using v assms(3,4) by (intro wrap64_id) (simp add: in_int64_def t_def)
  then have "go_div (wrap64 t) 2 = t div 2" using v assms(3) by (simp add: go_div_nonneg t_def)
  then show ?thesis using assms(1) v d by (simp add: int_median_def Let_def t_def)
qed

subsection \<open>Signals of a series in order of time\<close>

definition in_time_order :: "mem_sample list \<Rightarrow> bool" where
  "in_time_order samples \<longleftrightarrow> sorted_wrt (\<lambda>s t. mm_ts s < mm_ts t) samples"

lemma sort_points:
  assumes "in_time_order samples"
  shows "sort_key fst (signal_points f samples) = signal_points f samples"
proof -
  have "sorted_wrt (\<lambda>s t. mm_ts s < mm_ts t) (filter (sf_available f) samples)"
    using assms unfolding in_time_order_def by (rule sorted_wrt_filter)
  then have "sorted_wrt (\<lambda>s t. mm_ts s \<le> mm_ts t) (filter (sf_available f) samples)" by (rule sorted_wrt_mono_rel[rotated]) simp
  then have "sorted (map fst (signal_points f samples))" by (simp add: signal_points_def comp_def sorted_map)
  then show ?thesis by (rule sort_key_id_if_sorted)
qed

lemma analyze_available:
  assumes "in_time_order samples" "list_all (sf_available f) samples" "2 \<le> length samples"
  shows "analyzeSignal f samples = signal_statistics f (length samples) (map (\<lambda>s. (mm_ts s, sf_get f s)) samples)"
proof -
  have "signal_points f samples = map (\<lambda>s. (mm_ts s, sf_get f s)) samples"
    using assms(2) by (simp add: signal_points_def list_all_iff filter_id_conv)
  then show ?thesis using sort_points[OF assms(1), of f] assms(3) by (simp add: analyzeSignal_def Let_def)
qed

lemma analyze_unavailable:
  assumes "list_all (\<lambda>s. \<not> sf_available f s) samples"
  shows "sg_rate (analyzeSignal f samples) = Fin 0 \<and> sg_relative (analyzeSignal f samples) = Fin 0 \<and> sg_slope (analyzeSignal f samples) = Fin 0
    \<and> sg_delta (analyzeSignal f samples) = 0"
proof -
  have "signal_points f samples = []" using assms by (simp add: signal_points_def list_all_iff filter_empty_conv)
  then show ?thesis by (simp add: analyzeSignal_def blank_signal_def)
qed

subsection \<open>Memory that doubles is found\<close>

definition doubles :: "signal_field \<Rightarrow> mem_sample list \<Rightarrow> bool" where
  "doubles f samples \<longleftrightarrow> list_all (\<lambda>s. sf_available f s \<and> 0 < sf_get f s \<and> sf_get f s < 2 ^ 62) samples
     \<and> (\<forall>s \<in> set (take (length samples div 2) samples). \<forall>t \<in> set (drop (length samples div 2) samples). 2 * sf_get f s \<le> sf_get f t)"

lemma f_of_int_between:
  assumes "0 < n" "n < 2 ^ 62"
  shows "\<exists>q. f_of_int n = Fin q \<and> 1 \<le> q"
proof -
  have "Fin 1 \<le> f_of_int n" using round64_ge[of 1 "of_int n"] representable_of_int[of 1] assms(1) by (simp add: f_of_int_def)
  moreover have "f_of_int n \<le> Fin (2 ^ 62)"
  proof -
    have "representable (2 ^ 62)" using representable_grid[of 1 62] by simp
    moreover have "(of_int n :: rat) \<le> of_int (2 ^ 62)" using assms(2) by (simp only: of_int_le_iff less_imp_le)
    ultimately show ?thesis unfolding f_of_int_def by (intro round64_le) simp_all
  qed
  ultimately show ?thesis by (cases "f_of_int n") simp_all
qed

lemma relative_delta_doubled:
  assumes "0 < m" "m \<le> d" "d < 2 ^ 62"
  shows "fgt (relative_delta d m) (Fin (1 / 2))"
proof -
  obtain p q where q: "f_of_int m = Fin p" "1 \<le> p" "f_of_int d = Fin q" "1 \<le> q"
    using f_of_int_between[of m] f_of_int_between[of d] assms by auto
  have "Fin p \<le> Fin q" using round64_mono[of "of_int m" "of_int d"] assms(2) unfolding q(1,3)[symmetric] f_of_int_def by simp
  then have "1 \<le> q / p" using q(2) by simp
  then have "Fin 1 \<le> round64 (q / p)" using round64_ge[of 1] representable_of_int[of 1] by simp
  then have r: "Fin 1 \<le> fdiv (f_of_int d) (f_of_int m)" using q by simp
  have "Fin 100 \<le> fmul (fdiv (f_of_int d) (f_of_int m)) (Fin 100)"
  proof (cases "fdiv (f_of_int d) (f_of_int m)")
    case (Fin x)
    then have "100 \<le> x * 100" using r by simp
    then show ?thesis using Fin round64_ge[of 100 "x * 100"] representable_of_int[of 100] by simp
  qed (use r in \<open>simp_all add: finf_def\<close>)
  then have "Fin 100 \<le> relative_delta d m" using assms(1) by (simp add: relative_delta_def)
  moreover have "Fin (1 / 2) < Fin 100" by simp
  ultimately have "Fin (1 / 2) < relative_delta d m" by (rule less_le_trans[rotated])
  then show ?thesis unfolding flt_iff using \<open>Fin 100 \<le> relative_delta d m\<close> by auto
qed

lemma doubles_grows:
  assumes t: "in_time_order samples" and n: "2 \<le> length samples" and d: "doubles f samples"
  shows "memory_growing DefaultThresholds (analyzeSignal f samples)"
proof -
  let ?m = "length samples div 2"
  let ?x = "map (sf_get f) (take ?m samples)" and ?y = "map (sf_get f) (drop ?m samples)"
  have a: "list_all (sf_available f) samples" and v: "\<forall>s \<in> set samples. 0 < sf_get f s \<and> sf_get f s < 2 ^ 62"
    using d by (simp_all add: doubles_def list_all_iff)
  have ne: "?x \<noteq> []" "?y \<noteq> []" using n by auto
  have x: "\<forall>u \<in> set ?x. 1 \<le> u \<and> u \<le> Max (set ?x)" "Max (set ?x) < 2 ^ 62"
    using v ne(1) by (auto dest: in_set_takeD) (use in_set_takeD in fastforce)
  have y: "\<forall>u \<in> set ?y. 2 * Max (set ?x) \<le> u \<and> u \<le> 2 ^ 62 - 1"
  proof
    fix u assume "u \<in> set ?y"
    then obtain t where u: "u = sf_get f t" "t \<in> set (drop ?m samples)" by auto
    have "Max (set ?x) \<in> sf_get f ` set (take ?m samples)" using ne(1) Max_in[of "set ?x"] by simp
    then obtain s where s: "s \<in> set (take ?m samples)" "Max (set ?x) = sf_get f s" by (elim imageE) (simp only: set_map)
    have "sf_get f t < 2 ^ 62" using v in_set_dropD[OF u(2)] by blast
    moreover have "2 * sf_get f s \<le> sf_get f t" using d s(1) u(2) unfolding doubles_def by blast
    ultimately show "2 * Max (set ?x) \<le> u \<and> u \<le> 2 ^ 62 - 1" unfolding s(2) u(1) by simp
  qed
  have f: "1 \<le> int_median ?x \<and> int_median ?x \<le> Max (set ?x)" using int_median_between[OF ne(1) x(1)] x(2) by simp
  have "1 \<le> Max (set ?x)" using f by simp
  then have l: "2 * Max (set ?x) \<le> int_median ?y \<and> int_median ?y \<le> 2 ^ 62 - 1" using int_median_between[OF ne(2) y] by simp
  let ?d = "int_median ?y - int_median ?x"
  have w: "wrap64 ?d = ?d" using f l by (intro wrap64_id) (simp add: in_int64_def)
  have "sg_relative (analyzeSignal f samples) = relative_delta ?d (int_median ?x)"
    by (simp add: analyze_available[OF t a n] signal_statistics_def Let_def take_map drop_map comp_def w blank_signal_def)
  then show ?thesis using relative_delta_doubled[of "int_median ?x" ?d] f l by (simp add: memory_growing_def DefaultThresholds_def)
qed

lemma two_in_filter:
  assumes "f \<in> set xs" "g \<in> set xs" "f \<noteq> g" "P f" "P g"
  shows "2 \<le> length (filter P xs)"
proof -
  have "card {f, g} \<le> card (set (filter P xs))" using assms by (intro card_mono) auto
  also have "\<dots> \<le> length (filter P xs)" by (rule card_length)
  finally show ?thesis using assms(3) by simp
qed

lemma classify_by_primaries:
  assumes "1 \<le> th_corroboration th" "th_corroboration th \<le> int (growing_primary th signals)"
  shows "fst (classifyMemorySignals th signals) = ClassificationGrowing"
  using assms by (simp add: classifyMemorySignals_def growth_of_def growth_fold)

lemma growing_primary_fields:
  "length (filter (\<lambda>f. memory_growing th (analyzeSignal (signal_of True f) samples)) primaryFields)
     \<le> growing_primary th (analyzeMemorySignals samples)"
  by (simp add: growing_primary_def analyzeMemorySignals_def filter_map comp_def)

lemma classifySemantic_cases: "classifySemantic samples \<in> {ClassificationInconclusive, ClassificationGrowing, ClassificationStable}"
  by (simp add: classifySemantic_def)

lemma Analyze_complete:
  assumes "\<not> hasProcessReplacement samples" "th_sample_min th \<le> int (length samples)" "hasBaselineAndStimulus samples"
  shows "Analyze samples th = blank_verdict\<lparr>vd_memory := fst (classifyMemorySignals th (analyzeMemorySignals samples)),
    vd_resource := classifyResourceSignals th (analyzeResourceSignals samples),
    vd_signals := snd (classifyMemorySignals th (analyzeMemorySignals samples)) @ analyzeResourceSignals samples,
    vd_semantic := classifySemantic samples,
    vd_overall := computeOverall (fst (classifyMemorySignals th (analyzeMemorySignals samples)))
      (classifyResourceSignals th (analyzeResourceSignals samples)) (classifySemantic samples)\<rparr>"
proof -
  have "samples \<noteq> []" using assms(3) by (auto simp: hasBaselineAndStimulus_def)
  then show ?thesis using assms by (simp add: Analyze_def Let_def case_prod_unfold)
qed

lemma doubling_primaries:
  assumes "in_time_order samples" "2 \<le> length samples" "f \<in> set primaryFields" "g \<in> set primaryFields" "fst f \<noteq> fst g"
    "doubles (signal_of True f) samples" "doubles (signal_of True g) samples"
  shows "2 \<le> growing_primary DefaultThresholds (analyzeMemorySignals samples)"
proof -
  have "memory_growing DefaultThresholds (analyzeSignal (signal_of True f) samples)"
    "memory_growing DefaultThresholds (analyzeSignal (signal_of True g) samples)"
    using doubles_grows[OF assms(1,2)] assms(6,7) by simp_all
  then show ?thesis
    using two_in_filter[OF assms(3,4)] assms(5) growing_primary_fields[of DefaultThresholds samples] by fastforce
qed

text \<open>C27. A process whose memory doubles is found growing: when two primary signals are available in every sample of a complete run
  of one process and every value in the second half is at least twice every value in the first, the default thresholds
  classify the memory and the run as growing.\<close>

theorem doubling_detected:
  assumes "in_time_order samples" "\<not> hasProcessReplacement samples" "10 \<le> length samples" "hasBaselineAndStimulus samples"
    and "f \<in> set primaryFields" "g \<in> set primaryFields" "fst f \<noteq> fst g"
    and "doubles (signal_of True f) samples" "doubles (signal_of True g) samples"
  shows "vd_memory (Analyze samples DefaultThresholds) = ClassificationGrowing
    \<and> vd_overall (Analyze samples DefaultThresholds) = ClassificationGrowing"
proof -
  have "2 \<le> growing_primary DefaultThresholds (analyzeMemorySignals samples)"
    using doubling_primaries[OF assms(1) _ assms(5-9)] assms(3) by simp
  then have "fst (classifyMemorySignals DefaultThresholds (analyzeMemorySignals samples)) = ClassificationGrowing"
    by (intro classify_by_primaries) (simp_all add: DefaultThresholds_def)
  then show ?thesis
    using assms(2,3,4) classifySemantic_cases[of samples]
    by (auto simp: Analyze_complete computeOverall_def DefaultThresholds_def blank_verdict_def)
qed

definition doubling_example :: "mem_sample list" where
  "doubling_example = map (\<lambda>i. blank_sample i (i * 1000000000) 42 (if i < 5 then PhaseBaseline else PhaseStimulus) False
     \<lparr>mm_start := 7, mm_pss_anon := (if i < 5 then 100 + i else 300), mm_has_pss_anon := True,
      mm_private_dirty := (if i < 5 then 90 else 200 + i), mm_has_private_dirty := True\<rparr>) [0, 1, 2, 3, 4, 5, 6, 7, 8, 9]"

lemma doubling_detected_witness:
  "vd_memory (Analyze doubling_example DefaultThresholds) = ClassificationGrowing
    \<and> vd_overall (Analyze doubling_example DefaultThresholds) = ClassificationGrowing"
  by (rule doubling_detected[where f = "(''pss_anon_kib'', mm_pss_anon)" and g = "(''private_dirty_kib'', mm_private_dirty)"])
    (simp_all add: doubling_example_def in_time_order_def hasProcessReplacement_def hasBaselineAndStimulus_def primaryFields_def
      doubles_def getSignalAvailability_def blank_sample_def)

lemma memory_verdict_corroborated_witness:
  "fst (classifyMemorySignals DefaultThresholds (analyzeMemorySignals doubling_example)) = ClassificationGrowing"
proof -
  have "2 \<le> growing_primary DefaultThresholds (analyzeMemorySignals doubling_example)"
    by (rule doubling_primaries[where f = "(''pss_anon_kib'', mm_pss_anon)" and g = "(''private_dirty_kib'', mm_private_dirty)"])
      (simp_all add: doubling_example_def in_time_order_def primaryFields_def doubles_def getSignalAvailability_def blank_sample_def)
  then show ?thesis using memory_verdict_corroborated[of DefaultThresholds doubling_example] by (simp add: Let_def DefaultThresholds_def)
qed

subsection \<open>A process that does not change is stable\<close>

definition zeroish :: "f64 \<Rightarrow> bool" where "zeroish x \<longleftrightarrow> x = Fin 0 \<or> x = NaN"

lemma zeroish_intros [intro, simp]: "zeroish (Fin 0)" "zeroish NaN"
  by (simp_all add: zeroish_def)

lemma zeroish_fdiv: "zeroish x \<Longrightarrow> zeroish (fdiv x y)"
  by (cases y) (auto simp: zeroish_def finf_def)

lemma zeroish_fadd: "zeroish x \<Longrightarrow> zeroish y \<Longrightarrow> zeroish (fadd x y)"
  by (auto simp: zeroish_def)

lemma zeroish_fmul_Fin: "zeroish x \<Longrightarrow> zeroish (fmul x (Fin c))"
  by (auto simp: zeroish_def)

lemma zeroish_not_above: "zeroish x \<Longrightarrow> Fin 0 \<le> t \<Longrightarrow> \<not> fgt x t"
  by (auto simp: zeroish_def flt_iff)

lemma f_of_int_0 [simp]: "f_of_int 0 = Fin 0"
  by (simp add: f_of_int_def)

lemma f_of_int_nonneg: "0 \<le> n \<Longrightarrow> Fin 0 \<le> f_of_int n"
  unfolding f_of_int_def by (rule round64_nonneg) simp

lemma constant_slope:
  assumes "6 \<le> length points" "\<forall>p \<in> set points. snd p = c"
  shows "zeroish (theilSenSlope points)"
proof -
  let ?s = "sort (pair_slopes points)" and ?m = "length (pair_slopes points) div 2"
  have z: "\<forall>x \<in> set (pair_slopes points). zeroish x"
    using assms(2) by (auto simp: pair_slopes_def wrap64_def zeroish_fdiv)
  show ?thesis
  proof (cases "pair_slopes points = []")
    case False
    then have "?s ! ?m \<in> set (pair_slopes points)" "?s ! (?m - 1) \<in> set (pair_slopes points)"
      by (metis nth_mem set_sort length_sort length_greater_0_conv div_less_dividend one_less_numeral_iff semiring_norm(76),
          metis nth_mem set_sort length_sort length_greater_0_conv div_less_dividend one_less_numeral_iff semiring_norm(76) less_imp_diff_less)
    then have "zeroish (?s ! ?m)" "zeroish (?s ! (?m - 1))" using z by simp_all
    then show ?thesis using assms(1) False by (simp add: theilSenSlope_def Let_def zeroish_fadd zeroish_fdiv)
  qed (use assms(1) in \<open>simp add: theilSenSlope_def Let_def\<close>)
qed

lemma int_median_constant:
  assumes "values \<noteq> []" "\<forall>v \<in> set values. v = c" "0 \<le> c" "c < 2 ^ 62"
  shows "int_median values = c"
proof -
  have "\<forall>v \<in> set values. c \<le> v \<and> v \<le> c" using assms(2) by simp
  from int_median_between[OF assms(1) this assms(3,4)] show ?thesis by simp
qed

definition calm :: "signal_summary \<Rightarrow> bool" where
  "calm s \<longleftrightarrow> zeroish (sg_rate s) \<and> zeroish (sg_relative s) \<and> zeroish (sg_slope s)"

lemma constant_signal_calm:
  assumes t: "in_time_order samples" and n: "6 \<le> length samples"
    and a: "list_all (sf_available f) samples \<or> list_all (\<lambda>s. \<not> sf_available f s) samples"
    and c: "\<forall>s \<in> set samples. sf_get f s = c" "0 \<le> c" "c < 2 ^ 62"
  shows "calm (analyzeSignal f samples)"
  using a
proof
  assume a: "list_all (sf_available f) samples"
  let ?p = "map (\<lambda>s. (mm_ts s, sf_get f s)) samples" and ?m = "length samples div 2"
  have x: "int_median (map (sf_get f) (take ?m samples)) = c"
    using n c by (intro int_median_constant) (auto dest: in_set_takeD)
  have y: "int_median (map (sf_get f) (drop ?m samples)) = c"
    using n c by (intro int_median_constant) (auto dest: in_set_dropD)
  have "zeroish (theilSenSlope ?p)" using n c by (intro constant_slope[where c = c]) auto
  moreover have "wrap64 0 = 0" by (simp add: wrap64_def)
  ultimately show ?thesis using n
    by (simp add: calm_def analyze_available[OF t a] signal_statistics_def Let_def take_map drop_map comp_def x y blank_signal_def
        rate_per_hour_def relative_delta_def zeroish_fdiv zeroish_fmul_Fin)
next
  assume "list_all (\<lambda>s. \<not> sf_available f s) samples"
  then show ?thesis using analyze_unavailable[of f samples] by (simp add: calm_def)
qed

lemma calm_not_growing:
  assumes "calm s" "0 \<le> th_memory_kib th" "Fin 0 \<le> th_memory_percent th" "0 \<le> th_resource th"
  shows "\<not> memory_growing th s \<and> \<not> resource_growing th s"
proof -
  have "\<not> fgt (sg_rate s) (f_of_int (th_memory_kib th))" "\<not> fgt (sg_rate s) (f_of_int (th_resource th))"
    "\<not> fgt (sg_relative s) (th_memory_percent th)" "\<not> fgt (sg_slope s) (round64 (1 / 100))" "\<not> fgt (sg_slope s) (round64 (1 / 1000))"
    using assms unfolding calm_def by (intro zeroish_not_above f_of_int_nonneg round64_nonneg; simp)+
  then show ?thesis by (simp add: memory_growing_def resource_growing_def)
qed

text \<open>Every sample shows what the first one shows, at its own time and in its own phase.\<close>

definition unchanged :: "mem_sample list \<Rightarrow> bool" where
  "unchanged samples \<longleftrightarrow> list_all (\<lambda>s. s = (hd samples)\<lparr>mm_seq := mm_seq s, mm_ts := mm_ts s, mm_phase := mm_phase s,
     mm_delayed := mm_delayed s\<rparr>) samples"

lemma unchangedD:
  assumes "unchanged samples" "s \<in> set samples" "\<And>n t p d. g ((hd samples)\<lparr>mm_seq := n, mm_ts := t, mm_phase := p, mm_delayed := d\<rparr>) = g (hd samples)"
  shows "g s = g (hd samples)"
proof -
  have "s = (hd samples)\<lparr>mm_seq := mm_seq s, mm_ts := mm_ts s, mm_phase := mm_phase s, mm_delayed := mm_delayed s\<rparr>"
    using assms(1,2) by (simp only: unchanged_def list_all_iff)
  then have "g s = g ((hd samples)\<lparr>mm_seq := mm_seq s, mm_ts := mm_ts s, mm_phase := mm_phase s, mm_delayed := mm_delayed s\<rparr>)" by (rule arg_cong)
  then show ?thesis by (simp only: assms(3))
qed

lemma all_fields_unchanged:
  assumes "h \<in> set (primaryFields @ secondaryFields @ resourceFields)"
  shows "snd h (s\<lparr>mm_seq := n, mm_ts := t, mm_phase := p, mm_delayed := d\<rparr>) = snd h s"
    and "getSignalAvailability (fst h) (s\<lparr>mm_seq := n, mm_ts := t, mm_phase := p, mm_delayed := d\<rparr>) = getSignalAvailability (fst h) s"
  using assms unfolding primaryFields_def secondaryFields_def resourceFields_def by (auto simp: getSignalAvailability_def)

definition moderate :: "mem_sample \<Rightarrow> bool" where
  "moderate s \<longleftrightarrow> list_all (\<lambda>v. 0 \<le> v \<and> v < 2 ^ 62) (amounts s)"

lemma all_fields_moderate:
  assumes "h \<in> set (primaryFields @ secondaryFields @ resourceFields)" "moderate s"
  shows "0 \<le> snd h s \<and> snd h s < 2 ^ 62"
proof -
  have d: "0 \<le> go_div v 1024 \<and> go_div v 1024 < 2 ^ 62" if "0 \<le> v" "v < 2 ^ 62" for v
  proof -
    have "0 \<le> v div 1024 \<and> v div 1024 \<le> v" using that(1) zdiv_mono2[of v 1 1024] by simp
    then show ?thesis using that by (simp add: go_div_nonneg)
  qed
  have "list_all (\<lambda>h. 0 \<le> snd h s \<and> snd h s < 2 ^ 62) (primaryFields @ secondaryFields @ resourceFields)"
    using assms(2) unfolding primaryFields_def secondaryFields_def resourceFields_def moderate_def amounts_def list.pred_inject
      append_Cons append_Nil snd_conv by (simp add: d[simplified])
  then show ?thesis using assms(1) by (simp only: list_all_iff)
qed

lemma unchanged_calm:
  assumes "unchanged samples" "in_time_order samples" "6 \<le> length samples" "moderate (hd samples)"
    and h: "h \<in> set (primaryFields @ secondaryFields @ resourceFields)"
  shows "calm (analyzeSignal (signal_of b h) samples)"
proof (rule constant_signal_calm[OF assms(2,3)])
  have "\<forall>s \<in> set samples. getSignalAvailability (fst h) s = getSignalAvailability (fst h) (hd samples)"
    using unchangedD[OF assms(1), of _ "getSignalAvailability (fst h)"] all_fields_unchanged(2)[OF h] by blast
  then show "list_all (sf_available (signal_of b h)) samples \<or> list_all (\<lambda>s. \<not> sf_available (signal_of b h) s) samples"
    by (auto simp: list_all_iff)
  show "\<forall>s \<in> set samples. sf_get (signal_of b h) s = snd h (hd samples)"
    using unchangedD[OF assms(1), of _ "snd h"] all_fields_unchanged(1)[OF h] by simp
qed (use all_fields_moderate[OF h assms(4)] in simp_all)

lemma unchanged_same_process:
  assumes "unchanged samples"
  shows "\<not> hasProcessReplacement samples"
proof -
  have "mm_pid s = mm_pid (hd samples) \<and> mm_start s = mm_start (hd samples)" if "s \<in> set (tl samples)" for s
    using unchangedD[OF assms, of s mm_pid] unchangedD[OF assms, of s mm_start] that by (cases samples) simp_all
  then show ?thesis by (auto simp: hasProcessReplacement_def list_ex_iff)
qed

lemma unchanged_classes:
  assumes "unchanged samples" "in_time_order samples" "6 \<le> length samples" "moderate (hd samples)"
    and "mm_oom (hd samples) = 0" "mm_oom_kill (hd samples) = 0"
    and th: "0 \<le> th_memory_kib th" "Fin 0 \<le> th_memory_percent th" "0 \<le> th_resource th" "1 \<le> th_corroboration th"
  shows "fst (classifyMemorySignals th (analyzeMemorySignals samples)) = ClassificationStable"
    "classifyResourceSignals th (analyzeResourceSignals samples) = ClassificationStable" "classifySemantic samples = ClassificationStable"
proof -
  have q: "\<forall>s \<in> set (analyzeMemorySignals samples @ analyzeResourceSignals samples). \<not> memory_growing th s \<and> \<not> resource_growing th s"
    using calm_not_growing[OF unchanged_calm[OF assms(1-4)] th(1-3)]
    by (auto simp: analyzeMemorySignals_def analyzeResourceSignals_def)
  show "fst (classifyMemorySignals th (analyzeMemorySignals samples)) = ClassificationStable"
    using q th(4) docker_growth(1)[of th samples]
    by (auto simp: classifyMemorySignals_def growth_of_def growth_fold growing_primary_def growing_secondary_def filter_empty_conv)
  show "classifyResourceSignals th (analyzeResourceSignals samples) = ClassificationStable"
    using q by (auto simp: classifyResourceSignals_def Let_def filter_empty_conv)
  have "mm_oom s = 0 \<and> mm_oom_kill s = 0" if "s \<in> set samples" for s
    using unchangedD[OF assms(1) that, of mm_oom] unchangedD[OF assms(1) that, of mm_oom_kill] assms(5,6) by simp
  then show "classifySemantic samples = ClassificationStable" using assms(3) by (auto simp: classifySemantic_def list_ex_iff)
qed

text \<open>C16. A process that does not change is stable: when all samples of a complete run of at least six samples show the same values
  and no OOM event, every classification of the verdict is stable, whatever (non-negative) thresholds are set.\<close>

theorem unchanged_is_stable:
  assumes "unchanged samples" "in_time_order samples" "6 \<le> length samples" "moderate (hd samples)"
    and "mm_oom (hd samples) = 0" "mm_oom_kill (hd samples) = 0"
    and "0 \<le> th_memory_kib th" "Fin 0 \<le> th_memory_percent th" "0 \<le> th_resource th" "1 \<le> th_corroboration th"
    and "th_sample_min th \<le> int (length samples)" "hasBaselineAndStimulus samples"
  shows "let v = Analyze samples th in vd_memory v = ClassificationStable \<and> vd_resource v = ClassificationStable
    \<and> vd_semantic v = ClassificationStable \<and> vd_overall v = ClassificationStable"
  using Analyze_complete[OF unchanged_same_process[OF assms(1)] assms(11,12)] unchanged_classes[OF assms(1-10)]
  by (simp add: computeOverall_def blank_verdict_def)

definition steady_example :: "mem_sample list" where
  "steady_example = map (\<lambda>i. blank_sample i (i * 1000000000) 42 (if i < 5 then PhaseBaseline else PhaseStimulus) False
     \<lparr>mm_start := 7, mm_pss_anon := 1000, mm_has_pss_anon := True, mm_fd := 12, mm_has_fd := True\<rparr>) [0, 1, 2, 3, 4, 5, 6, 7, 8, 9]"

lemma unchanged_is_stable_witness:
  "let v = Analyze steady_example DefaultThresholds in vd_memory v = ClassificationStable \<and> vd_resource v = ClassificationStable
    \<and> vd_semantic v = ClassificationStable \<and> vd_overall v = ClassificationStable"
  by (rule unchanged_is_stable)
    (simp_all add: steady_example_def unchanged_def in_time_order_def moderate_def amounts_def hasBaselineAndStimulus_def blank_sample_def
      DefaultThresholds_def)

end
