(* ===== verification/Lab_Run.thy ===== *)
theory Lab_Run
  imports Lab_Verdict
begin

section \<open>The verdict of a run and its verification\<close>

text \<open>
  Models the parts of \<open>cmd/tovarisch-memory-lab/main.go\<close> that decide: what \<open>run\<close> makes of the samples and
  the states of a canary run and stores in \<open>verdict.json\<close>, and how \<open>verify\<close> reconstructs the verdict from the
  stored artifacts, with the descriptor fallback of \<open>internal/analysis/classifier.go\<close> both share. Flags, Docker,
  the artifact directory, checksums and JSON are not modelled: the decoded artifacts are arguments, and so are the
  errors found in the provenance and the image identity. The texts of errors are constructors.
\<close>

subsection \<open>The descriptor fallback\<close>

record workload_result =
  wr_requested :: int
  wr_attempted :: int
  wr_completed :: int
  wr_failed :: int
  wr_returned :: int

record descriptor_initial =
  di_fd :: int
  di_ops :: int
  di_mode :: string
  di_ready :: bool

record descriptor_final =
  df_fd :: int
  df_ops :: int
  df_mode :: string
  df_ready :: bool
  df_blocks :: int
  df_bytes :: int

record descriptor_invariant =
  dv_fd_delta :: int
  dv_expected :: int
  dv_op_delta :: int
  dv_complete :: int
  dv_failed :: int
  dv_returned :: int

record fallback_input =
  fi_scenario :: string
  fi_valid :: bool
  fi_invariant :: descriptor_invariant
  fi_initial :: descriptor_initial
  fi_final :: descriptor_final
  fi_workload :: workload_result
  fi_samples_available :: bool
  fi_samples_count :: int

text \<open>The gate that fails, in the order the code tries them.\<close>

datatype fallback_gate = StateInvariantInvalid | WrongScenario string | WrongRequested int | WrongAttempted int | WrongCompleted int
  | WorkFailed int | WrongReturned int | WrongOpDelta int | WrongFDDelta int | InitialMode string | FinalMode string
  | InitialNotReady | FinalNotReady | RetainedBlocks int | RetainedBytes int | SampledSignalAvailable

record fallback_result =
  fr_applied :: bool
  fr_signal :: signal_summary
  fr_invariants :: descriptor_invariant
  fr_failures :: "fallback_gate list"

definition descriptor_signal :: "fallback_input \<Rightarrow> signal_summary" where
  "descriptor_signal input = blank_signal\<lparr>sg_name := ''descriptor_state_invariant'', sg_kind := SignalKindStateInvariant,
     sg_first := di_fd (fi_initial input), sg_last := df_fd (fi_final input), sg_delta := dv_fd_delta (fi_invariant input),
     sg_relative := Fin 0, sg_rate := Fin 0, sg_slope := Fin 0, sg_samples := 2, sg_missing := 0, sg_available := 2,
     sg_min := di_fd (fi_initial input), sg_max := df_fd (fi_final input), sg_class := ClassificationResourceGrowth, sg_primary := True\<rparr>"

definition ApplyDescriptorStateInvariant :: "fallback_input \<Rightarrow> fallback_result" where
  "ApplyDescriptorStateInvariant input =
     (let w = fi_workload input; inv = fi_invariant input;
          refuse = (\<lambda>g. \<lparr>fr_applied = False, fr_signal = blank_signal, fr_invariants = inv, fr_failures = [g]\<rparr>)
      in if \<not> fi_valid input then refuse StateInvariantInvalid
         else if fi_scenario input \<noteq> ''canary-descriptor'' then refuse (WrongScenario (fi_scenario input))
         else if wr_requested w \<noteq> 100 then refuse (WrongRequested (wr_requested w))
         else if wr_attempted w \<noteq> wr_requested w then refuse (WrongAttempted (wr_attempted w))
         else if wr_completed w \<noteq> wr_requested w then refuse (WrongCompleted (wr_completed w))
         else if wr_failed w \<noteq> 0 then refuse (WorkFailed (wr_failed w))
         else if wr_returned w \<noteq> wr_completed w then refuse (WrongReturned (wr_returned w))
         else if dv_op_delta inv \<noteq> dv_complete inv then refuse (WrongOpDelta (dv_op_delta inv))
         else if dv_fd_delta inv \<noteq> dv_expected inv then refuse (WrongFDDelta (dv_fd_delta inv))
         else if di_mode (fi_initial input) \<noteq> ''descriptor'' then refuse (InitialMode (di_mode (fi_initial input)))
         else if df_mode (fi_final input) \<noteq> ''descriptor'' then refuse (FinalMode (df_mode (fi_final input)))
         else if \<not> di_ready (fi_initial input) then refuse InitialNotReady
         else if \<not> df_ready (fi_final input) then refuse FinalNotReady
         else if df_blocks (fi_final input) \<noteq> 0 then refuse (RetainedBlocks (df_blocks (fi_final input)))
         else if df_bytes (fi_final input) \<noteq> 0 then refuse (RetainedBytes (df_bytes (fi_final input)))
         else if fi_samples_available input then refuse SampledSignalAvailable
         else \<lparr>fr_applied = True, fr_signal = descriptor_signal input, fr_invariants = inv, fr_failures = []\<rparr>)"

definition ComputeDescriptorStateInvariant :: "int \<Rightarrow> int \<Rightarrow> int \<Rightarrow> int \<Rightarrow> workload_result \<Rightarrow> descriptor_invariant" where
  "ComputeDescriptorStateInvariant initialFD finalFD initialOps finalOps w =
     \<lparr>dv_fd_delta = wrap64 (finalFD - initialFD), dv_expected = wrap64 (wr_completed w * 2), dv_op_delta = wrap64 (finalOps - initialOps),
      dv_complete = wr_completed w, dv_failed = wr_failed w, dv_returned = wr_returned w\<rparr>"

definition SamplesHaveFDAvailable :: "mem_sample list \<Rightarrow> bool" where
  "SamplesHaveFDAvailable samples = list_ex mm_has_fd samples"

subsection \<open>Scenarios\<close>

definition scenario_growing :: string where [simp]: "scenario_growing = ''canary-growing''"
definition scenario_bounded :: string where [simp]: "scenario_bounded = ''canary-bounded''"
definition scenario_descriptor :: string where [simp]: "scenario_descriptor = ''canary-descriptor''"

definition getScenarioCommand :: "string \<Rightarrow> string list" where
  "getScenarioCommand scenario =
     (if scenario = scenario_growing then [''--mode=growing''] else if scenario = scenario_bounded then [''--mode=bounded'']
      else if scenario = scenario_descriptor then [''--mode=descriptor''] else [''--mode=bounded''])"

definition scenarioToMode :: "string \<Rightarrow> string" where
  "scenarioToMode scenario =
     (if scenario = scenario_growing then ''growing'' else if scenario = scenario_bounded then ''bounded''
      else if scenario = scenario_descriptor then ''descriptor'' else ''bounded'')"

definition getExpectedVerdict :: "string \<Rightarrow> classification" where
  "getExpectedVerdict scenario =
     (if scenario = scenario_growing then ClassificationGrowing else if scenario = scenario_bounded then ClassificationStable
      else if scenario = scenario_descriptor then ClassificationResourceGrowth else ClassificationStable)"

record canary_state =
  cy_mode :: string
  cy_blocks :: int
  cy_bytes :: int
  cy_ops :: int
  cy_fd :: int
  cy_buffer :: int
  cy_ready :: bool

definition validatePhaseContract :: "mem_sample list \<Rightarrow> bool" where
  "validatePhaseContract samples \<longleftrightarrow> list_ex (\<lambda>s. mm_phase s = PhaseBaseline) samples \<and> list_ex (\<lambda>s. mm_phase s = PhaseFinal) samples
     \<and> length (filter (\<lambda>s. mm_phase s = PhaseFinal) samples) \<ge> 3"

definition validateProcessIdentity :: "mem_sample list \<Rightarrow> bool" where
  "validateProcessIdentity samples =
     (if length samples < 2 then True
      else \<not> list_ex (\<lambda>s. mm_pid s \<noteq> mm_pid (hd samples) \<or> mm_start s \<noteq> mm_start (hd samples)) (tl samples))"

datatype run_error =
    ScenarioMismatch | InitialModeMismatch | FinalModeMismatch | CommandLength | CommandArgument nat
  | WorkloadCounts | WorkloadReturned | StateError invariant_fault | RetainedNotZero
  | MissingBaseline | MissingFinal | FewFinalSamples nat | PIDInstability
  | ThresholdMutation string | ThresholdsMissing
  | SignalForbidden | SignalMissing | SignalDuplicate | SignalField string
  | SourceKind string | ClassMismatch string | ValidityMismatch string | GivenError string

definition errors_if :: "bool \<Rightarrow> 'e \<Rightarrow> 'e list" where
  "errors_if b e = (if b then [e] else [])"

lemma errors_if_Nil [simp]: "errors_if b e = [] \<longleftrightarrow> \<not> b"
  by (simp add: errors_if_def)

definition state_faults :: "string \<Rightarrow> canary_state \<Rightarrow> canary_state \<Rightarrow> workload_result \<Rightarrow> invariant_fault list" where
  "state_faults scenario initial final w =
     (let opDelta = wrap64 (cy_ops final - cy_ops initial); op = errors_if (opDelta \<noteq> wr_completed w) (OperationDelta opDelta)
      in op
         @ (if scenario = scenario_growing then
              (let blocksDelta = wrap64 (cy_blocks final - cy_blocks initial); bytesDelta = wrap64 (cy_bytes final - cy_bytes initial)
               in op @ errors_if (blocksDelta \<noteq> wr_completed w) (BlocksDelta blocksDelta)
                  @ errors_if (bytesDelta \<noteq> wrap64 (wr_completed w * 1048576)) (BytesDelta bytesDelta))
            else if scenario = scenario_bounded then
              op @ errors_if (cy_buffer initial \<noteq> cy_buffer final) BufferChanged
              @ errors_if (cy_blocks final \<noteq> 0) RetainedBlocksLeft @ errors_if (cy_bytes final \<noteq> 0) RetainedBytesLeft
            else if scenario = scenario_descriptor then
              (let fdDelta = wrap64 (cy_fd final - cy_fd initial)
               in op @ errors_if (fdDelta \<noteq> wrap64 (wr_completed w * 2)) (FDDelta fdDelta))
            else []))"

definition validateStateInvariant :: "string \<Rightarrow> canary_state \<Rightarrow> canary_state \<Rightarrow> workload_result \<Rightarrow> invariant_result" where
  "validateStateInvariant scenario initial final w =
     (let faults = state_faults scenario initial final w in \<lparr>ir_valid = (faults = []), ir_failures = faults\<rparr>)"

subsection \<open>The verdict that is stored\<close>

definition fallback_for :: "string \<Rightarrow> bool \<Rightarrow> canary_state \<Rightarrow> canary_state \<Rightarrow> workload_result \<Rightarrow> mem_sample list \<Rightarrow> fallback_input" where
  "fallback_for scenario valid initial final w samples = \<lparr>fi_scenario = scenario, fi_valid = valid,
     fi_invariant = ComputeDescriptorStateInvariant (cy_fd initial) (cy_fd final) (cy_ops initial) (cy_ops final) w,
     fi_initial = \<lparr>di_fd = cy_fd initial, di_ops = cy_ops initial, di_mode = cy_mode initial, di_ready = cy_ready initial\<rparr>,
     fi_final = \<lparr>df_fd = cy_fd final, df_ops = cy_ops final, df_mode = cy_mode final, df_ready = cy_ready final,
       df_blocks = cy_blocks final, df_bytes = cy_bytes final\<rparr>,
     fi_workload = w, fi_samples_available = SamplesHaveFDAvailable samples, fi_samples_count = int (length samples)\<rparr>"

record stored_verdict =
  st_overall :: classification
  st_scenario :: string
  st_scenario_valid :: bool
  st_canaries_valid :: bool
  st_memory :: classification
  st_resource :: classification
  st_semantic :: classification
  st_signals :: "signal_summary list"
  st_thresholds :: "thresholds option"
  st_failures :: "verdict_note list"
  st_warnings :: "verdict_note list"
  st_provenance_valid :: bool

text \<open>The verdict before it is judged: the analysis with the fallback and the overall class computed anew.\<close>

definition run_analysis :: "string \<Rightarrow> canary_state \<Rightarrow> canary_state \<Rightarrow> workload_result \<Rightarrow> mem_sample list \<Rightarrow> thresholds \<Rightarrow> lab_verdict" where
  "run_analysis scenario initial final w samples th =
     (let invariantResult = validateStateInvariant scenario initial final w; valid = ir_valid invariantResult;
          v = AnalyzeWithInvariant samples th (Some invariantResult)
      in if scenario = scenario_descriptor then
           (let fb = ApplyDescriptorStateInvariant (fallback_for scenario valid initial final w samples);
                v1 = (if fr_applied fb then v\<lparr>vd_resource := ClassificationResourceGrowth, vd_signals := vd_signals v @ [fr_signal fb]\<rparr> else v)
            in v1\<lparr>vd_overall := ComputeOverallWithInvariant (vd_memory v1) (vd_resource v1) (vd_semantic v1) valid\<rparr>)
         else v\<lparr>vd_overall := ComputeOverallWithInvariant (vd_memory v) (vd_resource v) (vd_semantic v) valid\<rparr>)"

definition finalize_run ::
  "string \<Rightarrow> canary_state \<Rightarrow> canary_state \<Rightarrow> workload_result \<Rightarrow> mem_sample list \<Rightarrow> bool \<Rightarrow> stored_verdict" where
  "finalize_run scenario initial final w samples provenance_ok =
     (let th = DefaultThresholds; invariantValid = ir_valid (validateStateInvariant scenario initial final w);
          v = run_analysis scenario initial final w samples th;
          scenarioValid = (validatePhaseContract samples \<and> wr_completed w = wr_requested w \<and> validateProcessIdentity samples
            \<and> samples \<noteq> [] \<and> vd_overall v \<noteq> ClassificationInvalid \<and> vd_overall v \<noteq> ClassificationInconclusive);
          canariesValid = (scenarioValid \<and> vd_overall v = getExpectedVerdict scenario \<and> invariantValid)
      in \<lparr>st_overall = vd_overall v, st_scenario = scenario, st_scenario_valid = (scenarioValid \<and> provenance_ok),
          st_canaries_valid = (canariesValid \<and> provenance_ok), st_memory = vd_memory v, st_resource = vd_resource v,
          st_semantic = vd_semantic v, st_signals = vd_signals v, st_thresholds = Some th, st_failures = vd_failures v,
          st_warnings = vd_warnings v, st_provenance_valid = provenance_ok\<rparr>)"

subsection \<open>The verification\<close>

record run_artifacts =
  ra_scenario :: string
  ra_thresholds :: "thresholds option"
  ra_verdict :: stored_verdict
  ra_initial :: canary_state
  ra_final :: canary_state
  ra_workload :: workload_result
  ra_command :: "string list"
  ra_samples :: string

definition command_errors :: "string list \<Rightarrow> string list \<Rightarrow> run_error list" where
  "command_errors cmd expected =
     (if length cmd \<noteq> length expected then [CommandLength]
      else map CommandArgument (filter (\<lambda>i. cmd ! i \<noteq> expected ! i) [0..<length cmd]))"

definition scenario_errors :: "string \<Rightarrow> canary_state \<Rightarrow> canary_state \<Rightarrow> workload_result \<Rightarrow> run_error list" where
  "scenario_errors scenario initial final w =
     (if scenario = scenario_growing then
        (let blocksDelta = wrap64 (cy_blocks final - cy_blocks initial); bytesDelta = wrap64 (cy_bytes final - cy_bytes initial)
         in errors_if (blocksDelta \<noteq> wr_completed w) (StateError (BlocksDelta blocksDelta))
            @ errors_if (bytesDelta \<noteq> wrap64 (wr_completed w * 1048576)) (StateError (BytesDelta bytesDelta)))
      else if scenario = scenario_bounded then
        errors_if (cy_buffer initial \<noteq> cy_buffer final) (StateError BufferChanged)
        @ errors_if (cy_blocks final \<noteq> 0 \<or> cy_bytes final \<noteq> 0) RetainedNotZero
      else if scenario = scenario_descriptor then
        (let fdDelta = wrap64 (cy_fd final - cy_fd initial)
         in errors_if (fdDelta \<noteq> wrap64 (wr_completed w * 2)) (StateError (FDDelta fdDelta))
            @ errors_if (cy_blocks final \<noteq> 0 \<or> cy_bytes final \<noteq> 0) RetainedNotZero)
      else [])"

definition artifact_errors :: "run_artifacts \<Rightarrow> run_error list" where
  "artifact_errors a =
     (let scenario = ra_scenario a; initial = ra_initial a; final = ra_final a; w = ra_workload a; mode = scenarioToMode scenario
      in errors_if (st_scenario (ra_verdict a) \<noteq> scenario) ScenarioMismatch
         @ errors_if (cy_mode initial \<noteq> mode) InitialModeMismatch
         @ errors_if (cy_mode final \<noteq> mode) FinalModeMismatch
         @ command_errors (ra_command a) (getScenarioCommand scenario)
         @ errors_if (wr_requested w \<noteq> wr_attempted w \<or> wr_attempted w \<noteq> wr_completed w \<or> wr_failed w \<noteq> 0) WorkloadCounts
         @ errors_if (wr_returned w \<noteq> wr_completed w) WorkloadReturned
         @ errors_if (wrap64 (cy_ops final - cy_ops initial) \<noteq> wr_completed w) (StateError (OperationDelta (wrap64 (cy_ops final - cy_ops initial))))
         @ scenario_errors scenario initial final w)"

definition sample_errors :: "mem_sample list \<Rightarrow> run_error list" where
  "sample_errors samples =
     (let finalCount = length (filter (\<lambda>s. mm_phase s = PhaseFinal) samples)
      in errors_if (\<not> list_ex (\<lambda>s. mm_phase s = PhaseBaseline) samples) MissingBaseline
         @ errors_if (\<not> list_ex (\<lambda>s. mm_phase s = PhaseFinal) samples) MissingFinal
         @ errors_if (finalCount < 3) (FewFinalSamples finalCount)
         @ errors_if (length samples \<ge> 2
             \<and> list_ex (\<lambda>s. mm_pid s \<noteq> mm_pid (hd samples) \<or> mm_start s \<noteq> mm_start (hd samples)) (tl samples)) PIDInstability)"

definition threshold_errors :: "thresholds option \<Rightarrow> thresholds \<Rightarrow> run_error list" where
  "threshold_errors stored th =
     (case stored of
        None \<Rightarrow> [ThresholdsMissing]
      | Some vt \<Rightarrow> errors_if (th_memory_kib vt \<noteq> th_memory_kib th) (ThresholdMutation ''memory_growth_kib_per_hour'')
          @ errors_if (th_resource vt \<noteq> th_resource th) (ThresholdMutation ''resource_growth_per_hour'')
          @ errors_if (th_corroboration vt \<noteq> th_corroboration th) (ThresholdMutation ''corroboration_count'')
          @ errors_if (th_sample_min vt \<noteq> th_sample_min th) (ThresholdMutation ''sample_count_minimum''))"

definition verifyScenarioValid :: "mem_sample list \<Rightarrow> workload_result \<Rightarrow> run_error list \<Rightarrow> bool" where
  "verifyScenarioValid samples w errors =
     (if errors \<noteq> [] then False
      else list_ex (\<lambda>s. mm_phase s = PhaseBaseline) samples \<and> list_ex (\<lambda>s. mm_phase s = PhaseFinal) samples
        \<and> wr_requested w = wr_attempted w \<and> wr_attempted w = wr_completed w \<and> wr_failed w = 0 \<and> wr_returned w = wr_completed w
        \<and> samples \<noteq> [])"

text \<open>The checks of the stored descriptor signal, the last one of that name if there are several.\<close>

definition signal_errors :: "canary_state \<Rightarrow> canary_state \<Rightarrow> workload_result \<Rightarrow> signal_summary \<Rightarrow> run_error list" where
  "signal_errors initial final w s =
     errors_if (sg_kind s \<noteq> SignalKindStateInvariant) (SignalField ''source_kind'')
     @ errors_if (\<not> sg_primary s) (SignalField ''primary'')
     @ errors_if (sg_first s \<noteq> cy_fd initial) (SignalField ''first_window_median'')
     @ errors_if (sg_last s \<noteq> cy_fd final) (SignalField ''last_window_median'')
     @ errors_if (sg_delta s \<noteq> wrap64 (wr_completed w * 2)) (SignalField ''absolute_delta'')
     @ errors_if (sg_class s \<noteq> ClassificationResourceGrowth) (SignalField ''classification'')
     @ errors_if (sg_samples s \<noteq> 2) (SignalField ''sample_count'')
     @ errors_if (sg_available s \<noteq> 2) (SignalField ''available_count'')
     @ errors_if (sg_missing s \<noteq> 0) (SignalField ''missing_count'')
     @ errors_if (wrap64 (sg_available s + sg_missing s) \<noteq> sg_samples s) (SignalField ''geometry'')
     @ errors_if (sg_rate s \<noteq> Fin 0) (SignalField ''rate_per_hour'')
     @ errors_if (sg_slope s \<noteq> Fin 0) (SignalField ''slope'')
     @ errors_if (sg_relative s \<noteq> Fin 0) (SignalField ''relative_delta'')
     @ errors_if (sg_min s \<noteq> cy_fd initial) (SignalField ''minimum'')
     @ errors_if (sg_max s \<noteq> cy_fd final) (SignalField ''maximum'')"

definition descriptor_errors :: "run_artifacts \<Rightarrow> bool \<Rightarrow> mem_sample list \<Rightarrow> run_error list" where
  "descriptor_errors a valid samples =
     (if ra_scenario a \<noteq> scenario_descriptor then []
      else let found = filter (\<lambda>s. sg_name s = ''descriptor_state_invariant'') (st_signals (ra_verdict a))
        in if SamplesHaveFDAvailable samples then errors_if (found \<noteq> []) SignalForbidden
           else if \<not> valid then errors_if (found \<noteq> []) SignalForbidden
           else errors_if (found = []) SignalMissing @ errors_if (length found > 1) SignalDuplicate
             @ (if found = [] then [] else signal_errors (ra_initial a) (ra_final a) (ra_workload a) (last found)))"

definition source_errors :: "signal_summary list \<Rightarrow> run_error list" where
  "source_errors signals =
     concat (map (\<lambda>s. errors_if (sg_name s \<noteq> ''descriptor_state_invariant'' \<and> sg_kind s \<noteq> SignalKindSampled) (SourceKind (sg_name s))) signals)"

record reconstruction =
  rc_overall :: classification
  rc_memory :: classification
  rc_resource :: classification
  rc_semantic :: classification

definition reconstruct :: "run_artifacts \<Rightarrow> bool \<Rightarrow> thresholds \<Rightarrow> mem_sample list \<Rightarrow> reconstruction" where
  "reconstruct a valid th samples =
     (let v = Analyze samples th;
          resource = (if ra_scenario a = scenario_descriptor
              \<and> fr_applied (ApplyDescriptorStateInvariant (fallback_for (ra_scenario a) valid (ra_initial a) (ra_final a) (ra_workload a) samples))
            then ClassificationResourceGrowth else vd_resource v)
      in \<lparr>rc_overall = ComputeOverallWithInvariant (vd_memory v) resource (vd_semantic v) valid, rc_memory = vd_memory v,
          rc_resource = resource, rc_semantic = vd_semantic v\<rparr>)"

datatype verification = ParseFailed parse_error | Rejected "run_error list" | NotValid | Passed

definition verify_run ::
  "(string \<Rightarrow> time option) \<Rightarrow> string list \<Rightarrow> string list \<Rightarrow> run_artifacts \<Rightarrow> verification" where
  "verify_run parse_time provenance_errors identity_errors a =
     (case ParseSamplesCSVStream parse_time (ra_samples a) of
        Inl e \<Rightarrow> ParseFailed e
      | Inr samples \<Rightarrow>
          (let invariantResult = validateStateInvariant (ra_scenario a) (ra_initial a) (ra_final a) (ra_workload a);
               valid = ir_valid invariantResult;
               th = (case ra_thresholds a of Some t \<Rightarrow> t | None \<Rightarrow> DefaultThresholds);
               st = ra_verdict a;
               errors = artifact_errors a @ sample_errors samples @ map StateError (ir_failures invariantResult) @ threshold_errors (st_thresholds st) th;
               rc = reconstruct a valid th samples;
               scenarioValid = (verifyScenarioValid samples (ra_workload a) errors \<and> errors = []);
               canariesValid = (scenarioValid \<and> rc_overall rc = getExpectedVerdict (ra_scenario a) \<and> valid);
               allErrors = errors @ descriptor_errors a valid samples @ source_errors (st_signals st)
                 @ errors_if (st_overall st \<noteq> rc_overall rc) (ClassMismatch ''overall'')
                 @ errors_if (st_memory st \<noteq> rc_memory rc) (ClassMismatch ''memory'')
                 @ errors_if (st_resource st \<noteq> rc_resource rc) (ClassMismatch ''resource'')
                 @ errors_if (st_semantic st \<noteq> rc_semantic rc) (ClassMismatch ''semantic'')
                 @ errors_if (st_scenario_valid st \<noteq> scenarioValid) (ValidityMismatch ''ScenarioValid'')
                 @ errors_if (st_canaries_valid st \<noteq> canariesValid) (ValidityMismatch ''CanariesValid'')
                 @ map GivenError provenance_errors
                 @ errors_if (st_provenance_valid st \<noteq> (provenance_errors = [])) (ValidityMismatch ''ProvenanceValid'')
                 @ map GivenError identity_errors
           in if allErrors \<noteq> [] then Rejected allErrors
              else if st_scenario_valid st \<and> st_canaries_valid st then Passed else NotValid))"

end
