(* ===== verification/Lab_Csv_Roundtrip.thy ===== *)
theory Lab_Csv_Roundtrip
  imports Lab_Csv_Rows
begin

section \<open>The round trip of the sample file\<close>

text \<open>
  What \<open>WriteSamplesCSV\<close> writes is read back: the text of every field holds no separator and no white
  space, so the reader returns the fields; the columns are found by their names; and every conversion
  returns the value that was printed.
\<close>

subsection \<open>Text without separators\<close>

lemma csv_plain_simps [simp]: "csv_plain []" "csv_plain (s @ t) \<longleftrightarrow> csv_plain s \<and> csv_plain t"
  by (auto simp: csv_plain_def)

lemma csv_plain_Cons: "csv_plain (c # s) \<Longrightarrow> 33 \<le> (of_char c :: nat) \<and> (of_char c :: nat) \<le> 126 \<and> c \<noteq> CHR '','' \<and> c \<noteq> CHR 0x22"
  by (simp add: csv_plain_def)

lemma TrimSpace_plain: "csv_plain s \<Longrightarrow> TrimSpace s = s"
proof -
  assume s: "csv_plain s"
  have l: "TrimLeft s = s"
    using s by (cases s) (auto simp: TrimLeft_def[of "[]"] dest!: csv_plain_Cons intro: TrimLeft_id)
  have "trim_prefixes (length s) (map rev white_spaces) (rev s) = rev s"
  proof (cases "rev s")
    case (Cons c r)
    have "csv_plain (c # r)" using s unfolding Cons[symmetric] by (simp add: csv_plain_def)
    then show ?thesis unfolding Cons by (intro no_space_prefix) (auto dest!: csv_plain_Cons)
  qed simp
  then show ?thesis by (simp add: TrimSpace_def l)
qed

lemma csv_plain_digits: "digit_string s \<Longrightarrow> csv_plain s"
  unfolding csv_plain_def digit_string_def by (force simp: )

lemma csv_plain_show_int: "0 \<le> v \<Longrightarrow> csv_plain (show_int v) \<and> show_int v \<noteq> []"
  using show_nat_nonempty show_nat_digits csv_plain_digits by (simp add: show_int_def del: show_nat.simps)

lemma csv_plain_show_nat: "csv_plain (show_nat n)"
  by (rule csv_plain_digits, rule show_nat_digits)

lemma csv_plain_show_bool: "csv_plain (show_bool b) \<and> show_bool b \<noteq> []"
  by (cases b) (simp_all add: show_bool_def csv_plain_def)

lemma csv_plain_phase: "sample_phase ph \<Longrightarrow> csv_plain (phase_String ph) \<and> phase_String ph \<noteq> []"
  by (cases ph) (simp_all add: sample_phase_def csv_plain_def)

subsection \<open>Reading what was written\<close>

lemma join_fields_head:
  assumes "list_all csv_plain fs" "fs \<noteq> []" "last fs \<noteq> []"
  shows "\<exists>c r. join_fields fs = c # r \<and> 33 \<le> (of_char c :: nat) \<and> (of_char c :: nat) \<le> 126 \<and> c \<noteq> CHR 0x22"
proof -
  have *: "\<exists>c r. f = c # r \<and> 33 \<le> (of_char c :: nat) \<and> (of_char c :: nat) \<le> 126 \<and> c \<noteq> CHR 0x22" if "csv_plain f" "f \<noteq> []" for f
    using that by (cases f) (auto dest!: csv_plain_Cons)
  show ?thesis
  proof (cases fs)
    case (Cons f gs)
    show ?thesis
    proof (cases gs)
      case Nil then show ?thesis using *[of f] assms Cons by simp
    next
      case gs: (Cons g hs)
      show ?thesis
      proof (cases "f = []")
        case False then show ?thesis using *[of f] assms Cons gs by auto
      qed (simp add: Cons gs)
    qed
  qed (use assms in simp)
qed

lemma csv_fields_join:
  assumes "list_all csv_plain fs" "fs \<noteq> []" "last fs \<noteq> []"
  shows "csv_fields trim (join_fields fs @ [CHR 0x0A]) rest = (fs, None, rest)"
  using assms
proof (induction fs rule: join_fields.induct)
  case (2 f)
  obtain c r where c: "f = c # r" "33 \<le> (of_char c :: nat)" "(of_char c :: nat) \<le> 126" "c \<noteq> CHR 0x22"
    using join_fields_head[OF 2] by auto
  have q: "CHR 0x22 \<notin> set f" "CHR '','' \<notin> set f" using 2(1) by (auto simp: csv_plain_def)
  have t: "takeWhile (\<lambda>c. c \<noteq> CHR '','') (f @ [CHR 0x0A]) = f @ [CHR 0x0A]" "dropWhile (\<lambda>c. c \<noteq> CHR '','') (f @ [CHR 0x0A]) = []"
    using q(2) by auto
  have l: "TrimLeft (f @ [CHR 0x0A]) = f @ [CHR 0x0A]" using c TrimLeft_id by simp
  have h: "hd (f @ [CHR 0x0A]) \<noteq> CHR 0x22" using c by simp
  show ?case unfolding join_fields.simps csv_fields.simps[of trim "f @ [CHR 0x0A]"] l if_cancel Let_def t using h q(1) by (simp add: strip_nl_def)
next
  case (3 f g fs)
  let ?l = "join_fields (f # g # fs) @ [CHR 0x0A]"
  obtain c r where c: "join_fields (f # g # fs) = c # r" "33 \<le> (of_char c :: nat)" "(of_char c :: nat) \<le> 126" "c \<noteq> CHR 0x22"
    using join_fields_head[OF 3(2-)] by (elim exE conjE) (rule that)
  have q: "CHR 0x22 \<notin> set f" "CHR '','' \<notin> set f" using 3(2) by (auto simp: csv_plain_def)
  have t: "takeWhile (\<lambda>c. c \<noteq> CHR '','') ?l = f" "dropWhile (\<lambda>c. c \<noteq> CHR '','') ?l = CHR '','' # join_fields (g # fs) @ [CHR 0x0A]"
    using q(2) by (simp_all add: takeWhile_append dropWhile_append)
  have l: "TrimLeft ?l = ?l" using c TrimLeft_id by simp
  have h: "hd ?l \<noteq> CHR 0x22" using c by simp
  have ih: "csv_fields trim (join_fields (g # fs) @ [CHR 0x0A]) rest = (g # fs, None, rest)" using 3 by simp
  show ?case unfolding csv_fields.simps[of trim ?l] l if_cancel Let_def t using h q(1) ih by simp
qed simp

lemma read_line_append:
  assumes "CHR 0x0A \<notin> set l" "CHR 0x0D \<notin> set l"
  shows "read_line (l @ CHR 0x0A # rest) = (l @ [CHR 0x0A], rest)"
proof -
  have "takeWhile (\<lambda>c. c \<noteq> CHR 0x0A) (l @ CHR 0x0A # rest) = l" "dropWhile (\<lambda>c. c \<noteq> CHR 0x0A) (l @ CHR 0x0A # rest) = CHR 0x0A # rest"
    using assms(1) by (simp_all add: takeWhile_append dropWhile_append)
  moreover have "strip_cr l = l" using assms(2) last_in_set strip_cr_def by metis
  ultimately show ?thesis by (simp add: read_line_def)
qed

lemma join_fields_set: "set (join_fields fs) \<subseteq> insert (CHR '','') (\<Union> (set ` set fs))"
  by (induction fs rule: join_fields.induct) auto

lemma csv_plain_no_control: "csv_plain s \<Longrightarrow> CHR 0x0A \<notin> set s \<and> CHR 0x0D \<notin> set s"
  unfolding csv_plain_def by (intro conjI notI; drule bspec, assumption; simp)

definition csv_row :: "nat \<Rightarrow> string list \<Rightarrow> bool" where
  "csv_row n fs \<longleftrightarrow> length fs = n \<and> list_all csv_plain fs \<and> fs \<noteq> [] \<and> last fs \<noteq> []"

lemma csv_records_lines:
  "list_all (csv_row n) rows \<Longrightarrow> \<not> fixed \<or> count = None \<or> count = Some n \<Longrightarrow> csv_records trim fixed count (concat (map csv_line rows)) = map Inr rows"
proof (induction rows arbitrary: count)
  case (Cons fs rows)
  let ?rest = "concat (map csv_line rows)"
  have fs: "list_all csv_plain fs" "fs \<noteq> []" "last fs \<noteq> []" "length fs = n" using Cons.prems(1) by (simp_all add: csv_row_def)
  have "CHR 0x0A \<notin> set (join_fields fs) \<and> CHR 0x0D \<notin> set (join_fields fs)"
    using join_fields_set[of fs] fs(1) csv_plain_no_control by (auto simp: list_all_iff)
  then have l: "read_line (csv_line fs @ ?rest) = (join_fields fs @ [CHR 0x0A], ?rest)"
    using read_line_append[of "join_fields fs" ?rest] by (simp add: csv_line_def)
  obtain c r where c: "join_fields fs = c # r" using join_fields_head[OF fs(1-3)] by (elim exE conjE) (rule that)
  have "csv_line fs @ ?rest \<noteq> []" by (simp add: csv_line_def)
  moreover have "strip_nl (join_fields fs @ [CHR 0x0A]) \<noteq> []" by (simp add: c strip_nl_def)
  moreover have "\<not> (fixed \<and> count \<noteq> None \<and> count \<noteq> Some (length fs))" using Cons.prems(2) fs(4) by auto
  moreover have "csv_records trim fixed (Some (length fs)) ?rest = map Inr rows" using Cons fs(4) by simp
  ultimately show ?case
    using csv_fields_join[OF fs(1-3)] by (simp add: csv_records.simps[of trim fixed count "csv_line fs @ ?rest"] l)
qed (simp add: csv_records.simps)

subsection \<open>The cells of a row\<close>

lemma header_row: "csv_row 41 CSVHeaders"
  by (simp add: csv_row_def CSVHeaders_def csv_plain_def)

lemma header_facts: "length CSVHeaders = 41" "map TrimSpace CSVHeaders = CSVHeaders" "distinct CSVHeaders" "[] \<notin> set CSVHeaders"
proof -
  show "length CSVHeaders = 41" using header_row by (simp add: csv_row_def)
  show "map TrimSpace CSVHeaders = CSVHeaders" using header_row by (intro map_idI TrimSpace_plain) (simp add: csv_row_def list_all_iff)
  show "distinct CSVHeaders" unfolding CSVHeaders_def by simp
  show "[] \<notin> set CSVHeaders" unfolding CSVHeaders_def by simp
qed

lemma header_accepted: "newParser CSVHeaders = Inr (header_columns CSVHeaders)"
  by (simp add: newParser_def header_facts)

text \<open>A cell that a conversion reads back.\<close>

definition cell :: "string list \<Rightarrow> string \<Rightarrow> string \<Rightarrow> bool" where
  "cell rec col f \<longleftrightarrow> (\<exists>i. header_columns CSVHeaders col = Some i \<and> i < length rec \<and> rec ! i = f)"

lemma required_cell:
  "cell rec col f \<Longrightarrow> csv_plain f \<Longrightarrow> f \<noteq> [] \<Longrightarrow> conv f = Some v \<Longrightarrow> required conv row rec (header_columns CSVHeaders) col = Inr v"
  by (auto simp: cell_def required_def TrimSpace_plain Let_def)

lemma optional_cell: "cell rec col f \<Longrightarrow> csv_plain f \<Longrightarrow> optionalString rec (header_columns CSVHeaders) col = f"
  by (auto simp: cell_def optionalString_def TrimSpace_plain)

lemma Atoi_show_int: "0 \<le> v \<Longrightarrow> v < 2 ^ 63 \<Longrightarrow> Atoi (show_int v) = Some v"
  using Atoi_show[of "nat v"] by (simp add: show_int_def del: show_nat.simps)

lemma ParseUint_show: "n < 2 ^ 64 \<Longrightarrow> ParseUint (show_nat n) = Some n"
  using show_nat_nonempty[of n] show_nat_digits[of n]
  by (simp add: ParseUint_def digit_string_is_digit digits_value_show del: show_nat.simps)

lemma ParseBool_show: "ParseBool (show_bool b) = Some b"
  by (cases b) (simp_all add: ParseBool_def show_bool_def)

lemma required_count_cell:
  "cell rec col (show_int v) \<Longrightarrow> amount v \<Longrightarrow> required_count row rec (header_columns CSVHeaders) col = Inr v"
  unfolding required_count_def requiredInt64_def
  using required_cell[of rec col "show_int v" Atoi v row] csv_plain_show_int[of v] Atoi_show_int[of v]
  by (simp add: amount_def and_then_def ensure_def)

lemma requiredBool_cell: "cell rec col (show_bool b) \<Longrightarrow> requiredBool row rec (header_columns CSVHeaders) col = Inr b"
  unfolding requiredBool_def by (rule required_cell, assumption) (simp_all add: csv_plain_show_bool ParseBool_show)

lemma requiredInt_cell:
  "cell rec col (show_int v) \<Longrightarrow> amount v \<Longrightarrow> requiredInt row rec (header_columns CSVHeaders) col = Inr v"
  unfolding requiredInt_def by (rule required_cell, assumption) (simp_all add: csv_plain_show_int Atoi_show_int amount_def)

lemma requiredUint64_cell:
  "cell rec col (show_nat n) \<Longrightarrow> n < 2 ^ 64 \<Longrightarrow> requiredUint64 row rec (header_columns CSVHeaders) col = Inr n"
  unfolding requiredUint64_def by (rule required_cell, assumption)
    (simp_all add: csv_plain_show_nat ParseUint_show show_nat_nonempty del: show_nat.simps)

text \<open>Where each column is found.\<close>

lemma cellI: "i < 41 \<Longrightarrow> CSVHeaders ! i = col \<Longrightarrow> cell (SampleForCSV fmt s) col (SampleForCSV fmt s ! i)"
proof -
  assume i: "i < 41" "CSVHeaders ! i = col"
  have "header_columns CSVHeaders (CSVHeaders ! i) = Some i"
    unfolding header_columns_def header_facts(2) using i(1) header_facts(1,3)
    by (intro map_of_is_SomeI) (auto simp: in_set_conv_nth intro!: exI[of _ i])
  moreover have "i < length (SampleForCSV fmt s)" using i(1) by (simp add: SampleForCSV_def)
  ultimately show ?thesis using i(2) by (auto simp: cell_def)
qed

lemma row_cells: "list_all2 (\<lambda>col f. cell (SampleForCSV fmt s) col f) CSVHeaders (SampleForCSV fmt s)"
proof (rule list_all2_all_nthI)
  note l = header_facts(1)
  show "length CSVHeaders = length (SampleForCSV fmt s)" by (simp add: l SampleForCSV_def)
  show "cell (SampleForCSV fmt s) (CSVHeaders ! i) (SampleForCSV fmt s ! i)" if "i < length CSVHeaders" for i
    using cellI[OF _ refl] that l by simp
qed

text \<open>The columns by the way they are read.\<close>

definition count_columns :: "string list" where
  "count_columns = [''rss_kib'', ''pss_kib'', ''pss_anon_kib'', ''private_dirty_kib'', ''anonymous_kib'', ''swap_kib'',
     ''docker_memory_usage_bytes'', ''docker_memory_limit_bytes'', ''vma_count'', ''fd_count'', ''socket_fd_count'', ''thread_count'',
     ''pid_count'', ''cgroup_anon_bytes'', ''cgroup_current_bytes'', ''cgroup_memory_stat_anon'', ''oom_events'', ''oom_kill_events'',
     ''bgp_fsm_ticks'', ''reconnect_count'']"

definition flag_columns :: "string list" where
  "flag_columns = [''delayed'', ''has_docker_memory'', ''has_cgroup'', ''has_cgroup_anon'', ''has_rss'', ''has_pss'', ''has_pss_anon'',
     ''has_private_dirty'', ''has_anonymous'', ''has_swap'', ''has_thread_count'', ''has_pid_count'', ''has_fd_count'',
     ''has_socket_fd_count'', ''has_vma_count'']"

definition flags_of :: "mem_sample \<Rightarrow> bool list" where
  "flags_of s = [mm_delayed s, mm_has_docker s, mm_has_cgroup s, mm_has_cg_anon s, mm_has_rss s, mm_has_pss s, mm_has_pss_anon s,
     mm_has_private_dirty s, mm_has_anonymous s, mm_has_swap s, mm_has_threads s, mm_has_pids s, mm_has_fd s, mm_has_socket_fd s,
     mm_has_vma s]"

lemma columns_split:
  assumes "list_all2 P CSVHeaders (SampleForCSV fmt s)"
  shows "list_all2 (\<lambda>col v. P col (show_int v)) count_columns (amounts s)"
    and "list_all2 (\<lambda>col b. P col (show_bool b)) flag_columns (flags_of s)"
    and "P ''sequence'' (show_int (mm_seq s)) \<and> P ''timestamp'' (fmt (mm_ts s)) \<and> P ''process_pid'' (show_int (mm_pid s))
      \<and> P ''process_start_time'' (show_nat (mm_start s)) \<and> P ''phase'' (phase_String (mm_phase s)) \<and> P ''bgp_state'' (mm_bgp_state s)"
  using assms unfolding CSVHeaders_def SampleForCSV_def count_columns_def amounts_def flag_columns_def flags_of_def
  by (simp_all only: list.rel_inject list.rel_intros simp_thms)

lemma list_all2_imp: "list_all2 P xs ys \<Longrightarrow> list_all Q ys \<Longrightarrow> (\<And>x y. P x y \<Longrightarrow> Q y \<Longrightarrow> R x y) \<Longrightarrow> list_all2 R xs ys"
  by (induction rule: list_all2_induct) simp_all

abbreviation "csv_columns \<equiv> header_columns CSVHeaders"

lemma counts_read:
  "list_all amount (amounts s) \<Longrightarrow> list_all2 (\<lambda>col v. required_count row (SampleForCSV fmt s) csv_columns col = Inr v) count_columns (amounts s)"
  by (rule list_all2_imp[OF columns_split(1)[OF row_cells]], assumption, rule required_count_cell)

lemma flags_read: "list_all2 (\<lambda>col b. requiredBool row (SampleForCSV fmt s) csv_columns col = Inr b) flag_columns (flags_of s)"
  by (rule list_all2_mono[OF columns_split(2)[OF row_cells]], rule requiredBool_cell)

lemma counts_flags_read:
  assumes "list_all amount (amounts s)"
  shows "parse_memory row (SampleForCSV fmt s) csv_columns t = Inr (t\<lparr>mm_rss := mm_rss s, mm_pss := mm_pss s,
      mm_pss_anon := mm_pss_anon s, mm_private_dirty := mm_private_dirty s, mm_anonymous := mm_anonymous s, mm_swap := mm_swap s\<rparr>)"
    "parse_resources row (SampleForCSV fmt s) csv_columns t = Inr (t\<lparr>mm_vma := mm_vma s, mm_fd := mm_fd s,
      mm_socket_fd := mm_socket_fd s, mm_threads := mm_threads s, mm_pids := mm_pids s\<rparr>)"
    "parse_flags row (SampleForCSV fmt s) csv_columns t = Inr (t\<lparr>mm_has_rss := mm_has_rss s, mm_has_pss := mm_has_pss s,
      mm_has_pss_anon := mm_has_pss_anon s, mm_has_private_dirty := mm_has_private_dirty s, mm_has_anonymous := mm_has_anonymous s,
      mm_has_swap := mm_has_swap s, mm_has_threads := mm_has_threads s, mm_has_pids := mm_has_pids s, mm_has_fd := mm_has_fd s,
      mm_has_socket_fd := mm_has_socket_fd s, mm_has_vma := mm_has_vma s\<rparr>)"
  using counts_read[OF assms, of row fmt] flags_read[of row fmt s]
  unfolding parse_memory_def parse_resources_def parse_flags_def count_columns_def amounts_def flag_columns_def flags_of_def and_then_def
  by (simp_all only: list.rel_inject sum.case)

lemma docker_cgroup_read:
  assumes "list_all amount (amounts s)" "list_all (\<lambda>(available, v). available \<or> v = 0) (flagged s)"
  shows "parse_docker row (SampleForCSV fmt s) csv_columns t = Inr (t\<lparr>mm_docker_usage := mm_docker_usage s,
      mm_docker_limit := mm_docker_limit s, mm_has_docker := mm_has_docker s\<rparr>)"
    "parse_cgroup row (SampleForCSV fmt s) csv_columns t = Inr (t\<lparr>mm_cg_anon := mm_cg_anon s, mm_cg_current := mm_cg_current s,
      mm_cg_stat_anon := mm_cg_stat_anon s, mm_has_cg_anon := mm_has_cg_anon s, mm_has_cgroup := mm_has_cgroup s\<rparr>)"
  using counts_read[OF assms(1), of row fmt] flags_read[of row fmt s] assms(2)
  unfolding parse_docker_def parse_cgroup_def count_columns_def amounts_def flag_columns_def flags_of_def and_then_def flagged_def
    consistent_def ensure_def list.pred_inject
  by (simp_all only: list.rel_inject sum.case prod.case if_True simp_thms)

lemma semantic_read:
  assumes "list_all amount (amounts s)" "csv_plain (mm_bgp_state s)"
  shows "parse_semantic row (SampleForCSV fmt s) csv_columns t = Inr (t\<lparr>mm_oom := mm_oom s, mm_oom_kill := mm_oom_kill s,
      mm_bgp_state := mm_bgp_state s, mm_bgp_ticks := mm_bgp_ticks s, mm_reconnects := mm_reconnects s\<rparr>)"
proof -
  have "optionalString (SampleForCSV fmt s) csv_columns ''bgp_state'' = mm_bgp_state s"
    using columns_split(3)[OF row_cells] assms(2) by (intro optional_cell) simp_all
  then show ?thesis using counts_read[OF assms(1), of row fmt]
    unfolding parse_semantic_def count_columns_def amounts_def and_then_def Let_def by (simp_all only: list.rel_inject sum.case)
qed

lemma availability_read: "list_all (\<lambda>(available, v). available \<or> v = 0) (flagged s) \<Longrightarrow> check_availability row s = Inr s"
  unfolding flagged_def list.pred_inject prod.case check_availability_Inr by (elim conjE, intro conjI) (assumption | rule refl)+

declare show_nat.simps [simp del]

subsection \<open>The round trip\<close>

text \<open>A text for times that can be read back, and samples whose texts need no quotes.\<close>

definition time_text :: "(time \<Rightarrow> string) \<Rightarrow> (string \<Rightarrow> time option) \<Rightarrow> time \<Rightarrow> bool" where
  "time_text fmt parse_time t \<longleftrightarrow> csv_plain (fmt t) \<and> fmt t \<noteq> [] \<and> parse_time (fmt t) = Some t"

definition csv_writable :: "(time \<Rightarrow> string) \<Rightarrow> (string \<Rightarrow> time option) \<Rightarrow> mem_sample \<Rightarrow> bool" where
  "csv_writable fmt parse_time s \<longleftrightarrow> time_text fmt parse_time (mm_ts s) \<and> csv_plain (mm_bgp_state s)"

lemma ParsePhase_String: "sample_phase ph \<Longrightarrow> ParsePhase (phase_String ph) = ph \<and> ph \<noteq> OtherPhase [] \<and> ph \<noteq> PhaseComplete"
  by (cases ph) (simp_all add: sample_phase_def ParsePhase_def AllPhases_def)

lemma identity_read:
  assumes s: "row_valid s" "amount (mm_seq s)" "csv_writable fmt parse_time s"
  shows "parse_identity parse_time row (SampleForCSV fmt s) csv_columns
    = Inr (blank_sample (mm_seq s) (mm_ts s) (mm_pid s) (mm_phase s) (mm_delayed s)\<lparr>mm_start := mm_start s\<rparr>)"
proof -
  let ?r = "SampleForCSV fmt s"
  note c = columns_split(3)[OF row_cells, of fmt s]
  have v: "0 < mm_pid s" "amount (mm_pid s)" "0 < mm_start s" "mm_start s < 2 ^ 64" "sample_phase (mm_phase s)"
    using s(1) by (simp_all add: row_valid_def amount_def)
  have ph: "optionalString ?r csv_columns ''phase'' = phase_String (mm_phase s)" "phase_String (mm_phase s) \<noteq> []"
    using c csv_plain_phase[OF v(5)] by (simp_all add: optional_cell)
  have "requiredTimestamp parse_time row ?r csv_columns ''timestamp'' = Inr (mm_ts s)"
    using c s(3) unfolding requiredTimestamp_def csv_writable_def time_text_def by (intro required_cell[where f = "fmt (mm_ts s)"]) simp_all
  moreover have "requiredInt row ?r csv_columns ''sequence'' = Inr (mm_seq s)" "requiredInt row ?r csv_columns ''process_pid'' = Inr (mm_pid s)"
    "requiredUint64 row ?r csv_columns ''process_start_time'' = Inr (mm_start s)"
    using c v s(2) by (simp_all add: requiredInt_cell requiredUint64_cell)
  moreover have "requiredBool row ?r csv_columns ''delayed'' = Inr (mm_delayed s)"
    using flags_read[of row fmt s] unfolding flag_columns_def flags_of_def by (simp only: list.rel_inject)
  ultimately show ?thesis using v(1,3) ph ParsePhase_String[OF v(5)]
    unfolding parse_identity_def Let_def and_then_def ensure_def by (simp only: sum.case if_True neq0_conv simp_thms)
qed

lemma progresses_blank: "progresses p samples (blank_sample (mm_seq s) (mm_ts s) (mm_pid s) (mm_phase s) d\<lparr>mm_start := mm_start s\<rparr>) = progresses p samples s"
  by (simp add: progresses_def blank_sample_def)

lemma row_read:
  assumes s: "row_valid s" "amount (mm_seq s)" "csv_writable fmt parse_time s" and p: "progresses p samples s"
  shows "parse_row parse_time csv_columns p samples (SampleForCSV fmt s) = Inr s"
proof -
  let ?s = "blank_sample (mm_seq s) (mm_ts s) (mm_pid s) (mm_phase s) (mm_delayed s)\<lparr>mm_start := mm_start s\<rparr>"
  have a: "list_all amount (amounts s)" and f: "list_all (\<lambda>(available, v). available \<or> v = 0) (flagged s)"
    using s(1) by (simp_all add: row_valid_def)
  have c: "check_progress p samples ?s = Inr ?s" using p by (simp only: check_progress_Inr progresses_blank simp_thms)
  note r = identity_read[OF s] c counts_flags_read[OF a] docker_cgroup_read[OF a f] semantic_read[OF a]
  have b: "csv_plain (mm_bgp_state s)" using s(3) by (simp add: csv_writable_def)
  show ?thesis using availability_read[OF f, of "pr_row p"]
    unfolding parse_row_def Let_def and_then_def identity_read[OF s] c counts_flags_read[OF a] docker_cgroup_read[OF a f]
      semantic_read[OF a b] sum.case
    by (cases s) (simp add: blank_sample_def)
qed

lemma csv_valid_amounts:
  assumes "csv_valid samples" "i < length samples"
  shows "mm_seq (samples ! i) = int i"
proof -
  have "map mm_seq samples ! i = map int [0..<length samples] ! i" using assms(1) by (simp only: csv_valid_def)
  with assms(2) show ?thesis by simp
qed

lemma csv_valid_progresses:
  assumes v: "csv_valid (before @ s # after)" and p: "parser_at p before"
  shows "progresses (p\<lparr>pr_row := pr_row p + 1, pr_count := pr_count p + 1\<rparr>) before s"
proof (cases "before = []")
  case True then show ?thesis using p by (simp add: progresses_def parser_at_def)
next
  case False
  let ?n = "length before"
  have n: "?n < 500" using v by (simp add: csv_valid_def)
  have "mm_seq s = int ?n" using csv_valid_amounts[OF v, of ?n] by simp
  moreover have "mm_seq (last before) = int (?n - 1)"
    using csv_valid_amounts[OF v, of "?n - 1"] False by (simp add: nth_append last_conv_nth)
  then have "mm_seq (last before) + 1 = int ?n" using False by (cases before) simp_all
  ultimately have q: "mm_seq s = wrap64 (mm_seq (last before) + 1)" using n by (simp add: wrap64_id in_int64_def)
  have b: "row_before (last before) s" using v False by (simp add: csv_valid_def sorted_wrt_append)
  have "row_valid (last before)" "row_valid s" using v False by (simp_all add: csv_valid_def list_all_iff)
  then have "csv_phaseRank (mm_phase (last before)) = phaseRank (mm_phase (last before)) + 1"
    "csv_phaseRank (mm_phase s) = phaseRank (mm_phase s) + 1" by (simp_all add: row_valid_def csv_rank)
  then show ?thesis using p False q b by (simp add: parser_at_def progresses_def row_before_def)
qed

lemma rows_read:
  "csv_valid (before @ after) \<Longrightarrow> parser_at p before \<Longrightarrow> list_all (csv_writable fmt parse_time) after \<Longrightarrow>
     parse_rows parse_time csv_columns p before (map (\<lambda>s. Inr (SampleForCSV fmt s)) after) = Inr (before @ after)"
proof (induction after arbitrary: before p)
  case (Cons s after)
  let ?p = "p\<lparr>pr_row := pr_row p + 1, pr_count := pr_count p + 1\<rparr>"
  have n: "length before < 500" using Cons.prems(1) by (simp add: csv_valid_def)
  have q: "mm_seq s = int (length before)" using csv_valid_amounts[OF Cons.prems(1), of "length before"] by simp
  have s: "row_valid s" "amount (mm_seq s)" "in_int64 (mm_seq s)" "csv_writable fmt parse_time s"
    using Cons.prems n q by (simp_all add: csv_valid_def amount_def in_int64_def)
  note g = csv_valid_progresses[OF Cons.prems(1,2)]
  have c: "\<not> maxSamplesPerCSV < pr_count ?p" using Cons.prems(2) n by (simp add: maxSamplesPerCSV_def parser_at_def)
  have "parse_rows parse_time csv_columns (parser_after p s) (before @ [s]) (map (\<lambda>s. Inr (SampleForCSV fmt s)) after) = Inr ((before @ [s]) @ after)"
    using Cons.prems(1,3) parser_at_step[OF Cons.prems(2) s(1,3) n g] by (intro Cons.IH) simp_all
  then show ?case
    unfolding list.map parse_rows.simps Let_def if_not_P[OF c] row_read[OF s(1,2,4) g] and_then_def sum.case
    by (simp add: parser_after_def)
qed simp

lemma row_writable: "row_valid s \<Longrightarrow> amount (mm_seq s) \<Longrightarrow> csv_writable fmt parse_time s \<Longrightarrow> csv_row 41 (SampleForCSV fmt s)"
proof -
  assume s: "row_valid s" "amount (mm_seq s)" "csv_writable fmt parse_time s"
  have a: "list_all (\<lambda>v. csv_plain (show_int v)) (amounts s)"
    using s(1) by (simp add: row_valid_def list_all_iff amount_def csv_plain_show_int)
  show ?thesis
    using s a csv_plain_phase[of "mm_phase s"]
    by (simp add: csv_row_def SampleForCSV_def csv_plain_show_bool csv_plain_show_nat csv_plain_show_int row_valid_def amount_def
        csv_writable_def time_text_def amounts_def del: show_nat.simps)
qed

lemma written_records:
  assumes "csv_valid samples" "list_all (csv_writable fmt parse_time) samples"
  shows "csv_records True True None (WriteSamplesCSV fmt samples) = Inr CSVHeaders # map (\<lambda>s. Inr (SampleForCSV fmt s)) samples"
proof -
  have n: "length samples \<le> 500" using assms(1) by (simp add: csv_valid_def)
  have "amount (mm_seq s)" if s: "s \<in> set samples" for s
  proof -
    obtain i where "i < length samples" "s = samples ! i" using s by (metis in_set_conv_nth)
    then show ?thesis using n csv_valid_amounts[OF assms(1), of i] by (simp add: amount_def)
  qed
  then have "list_all (csv_row 41) (CSVHeaders # map (SampleForCSV fmt) samples)"
    using assms header_row row_writable[of _ fmt parse_time] unfolding csv_valid_def list_all_iff by simp
  from csv_records_lines[OF this, of True None True] show ?thesis by (simp add: WriteSamplesCSV_def comp_def)
qed

lemma records_read:
  assumes "csv_records True True None file = Inr CSVHeaders # map (\<lambda>s. Inr (SampleForCSV fmt s)) samples"
    and "csv_valid samples" "list_all (csv_writable fmt parse_time) samples"
  shows "ParseSamplesCSVStream parse_time file = Inr samples"
proof -
  let ?p = "\<lparr>pr_row = 0, pr_ts = 0, pr_pid = 0, pr_start = 0, pr_rank = 0, pr_count = 0\<rparr>"
  have n: "samples \<noteq> []" using assms(2) by (simp add: csv_valid_def)
  have p: "parser_at ?p []" by (simp add: parser_at_def numbered_def)
  have "parse_rows parse_time csv_columns ?p [] (map (\<lambda>s. Inr (SampleForCSV fmt s)) samples) = Inr samples"
    using rows_read[of "[]" samples ?p fmt parse_time] assms(2,3) p by simp
  moreover have "mm_seq (hd samples) = 0" using csv_valid_amounts[OF assms(2), of 0] n by (simp add: hd_conv_nth)
  ultimately show ?thesis using n unfolding ParseSamplesCSVStream_def assms(1) by (simp add: header_accepted and_then_def)
qed

text \<open>C18. Samples written to the sample file are read back as they were: whenever the samples are valid and the texts in them need no
  quotes, the strict parser returns from the file that \<open>WriteSamplesCSV\<close> wrote exactly those samples.\<close>

theorem csv_roundtrip:
  assumes "csv_valid samples" "list_all (csv_writable fmt parse_time) samples"
  shows "ParseSamplesCSVStream parse_time (WriteSamplesCSV fmt samples) = Inr samples"
  by (rule records_read[OF written_records[OF assms] assms])

definition csv_example :: "mem_sample list" where
  "csv_example = [blank_sample 0 5 42 PhaseStartup False\<lparr>mm_start := 7, mm_has_rss := True, mm_rss := 1024\<rparr>,
     blank_sample 1 6 42 PhaseBaseline True\<lparr>mm_start := 7, mm_bgp_state := ''Established''\<rparr>]"

lemma csv_example_facts: "csv_valid csv_example" "list_all (csv_writable show_int Atoi) csv_example"
proof -
  show "csv_valid csv_example"
    by (simp add: csv_valid_def csv_example_def blank_sample_def row_before_def row_valid_def sample_phase_def amounts_def amount_def flagged_def)
  show "list_all (csv_writable show_int Atoi) csv_example"
    by (simp add: csv_example_def csv_writable_def time_text_def blank_sample_def csv_plain_show_int Atoi_show_int)
      (simp add: csv_plain_def)
qed

lemma csv_roundtrip_witness: "ParseSamplesCSVStream Atoi (WriteSamplesCSV show_int csv_example) = Inr csv_example"
  by (rule csv_roundtrip[OF csv_example_facts])

lemma accepted_valid:
  assumes "ParseSamplesCSVStream parse_time file = Inr samples"
  shows "csv_valid samples"
proof -
  let ?p = "\<lparr>pr_row = 0, pr_ts = 0, pr_pid = 0, pr_start = 0, pr_rank = 0, pr_count = 0\<rparr>"
  obtain cols rows where r: "parse_rows parse_time cols ?p [] rows = Inr samples" "samples \<noteq> []" "mm_seq (hd samples) = 0"
    using ParseSamplesCSVStream_Inr[OF assms] by (elim exE conjE) (rule that)
  have "parser_at ?p []" by (simp add: parser_at_def numbered_def)
  then obtain p where p: "parser_at p samples" using parse_rows_at[OF r(1)] by - (drule meta_mp, assumption, elim exE, rule that)
  have "mm_seq (samples ! i) = int i" if "i < length samples" for i
  proof -
    have "numbered samples" using p by (simp add: parser_at_def)
    from numberedD[OF this that] have "mm_seq (samples ! i) = wrap64 (int i)" using r(2,3) by (simp add: hd_conv_nth)
    moreover have "int i < 500" using p that by (simp add: parser_at_def)
    ultimately show ?thesis by (simp add: wrap64_id in_int64_def)
  qed
  then have "map mm_seq samples = map int [0..<length samples]" by (intro nth_equalityI) simp_all
  with p r(2) show ?thesis by (simp add: parser_at_def csv_valid_def)
qed

text \<open>C19. Whatever file the strict parser accepts holds between 1 and 500 rows numbered from 0, of one process, with strictly
  increasing times, phases that never go back, amounts that are never negative and zero where the measurement is not available.\<close>

theorem csv_accepts_valid:
  assumes "ParseSamplesCSVStream parse_time file = Inr samples"
  shows "csv_valid samples"
  by (rule accepted_valid[OF assms])

lemma csv_accepts_valid_witness:
  "ParseSamplesCSVStream Atoi (WriteSamplesCSV show_int csv_example) = Inr csv_example \<and> csv_valid csv_example"
proof -
  have r: "ParseSamplesCSVStream Atoi (WriteSamplesCSV show_int csv_example) = Inr csv_example"
    by (rule records_read[OF written_records[OF csv_example_facts] csv_example_facts])
  show ?thesis by (rule conjI[OF r csv_accepts_valid[OF r]])
qed

end
