(* ===== verification/Lab_Run_Verified.thy ===== *)
theory Lab_Run_Verified
  imports Lab_Run Lab_Csv_Roundtrip
begin

section \<open>Runs and their verification agree\<close>

text \<open>
  A run the producer declares valid is accepted by the verifier from the artifacts alone, a verdict the verifier
  passes is the one the samples give, and when the descriptor fallback applies. One gap is proved too: a run that
  is too short for the analysis is declared stable.
\<close>

subsection \<open>Signals of an analysis\<close>

lemma mark_memory_simps [simp]: "sg_name (mark_memory th s) = sg_name s" "sg_kind (mark_memory th s) = sg_kind s"
  by (simp_all add: mark_memory_def)

lemma analyzeSignal_kind [simp]: "sg_kind (analyzeSignal f samples) = SignalKindSampled"
  by (simp add: analyzeSignal_def signal_statistics_def blank_signal_def Let_def)

lemma Analyze_signals:
  "s \<in> set (vd_signals (Analyze samples th)) \<Longrightarrow> sg_kind s = SignalKindSampled \<and> sg_name s \<noteq> ''descriptor_state_invariant''"
  by (auto simp: Analyze_def Let_def blank_verdict_def classifyMemorySignals_def analyzeMemorySignals_def analyzeResourceSignals_def
      primaryFields_def secondaryFields_def resourceFields_def split: if_splits)

subsection \<open>The descriptor fallback\<close>

abbreviation "fallback scenario valid initial final w samples \<equiv> ApplyDescriptorStateInvariant (fallback_for scenario valid initial final w samples)"

lemma Apply_applied_iff:
  "fr_applied (ApplyDescriptorStateInvariant i) \<longleftrightarrow> fi_valid i \<and> fi_scenario i = scenario_descriptor
     \<and> wr_requested (fi_workload i) = 100 \<and> wr_attempted (fi_workload i) = wr_requested (fi_workload i)
     \<and> wr_completed (fi_workload i) = wr_requested (fi_workload i) \<and> wr_failed (fi_workload i) = 0
     \<and> wr_returned (fi_workload i) = wr_completed (fi_workload i) \<and> dv_op_delta (fi_invariant i) = dv_complete (fi_invariant i)
     \<and> dv_fd_delta (fi_invariant i) = dv_expected (fi_invariant i) \<and> di_mode (fi_initial i) = ''descriptor''
     \<and> df_mode (fi_final i) = ''descriptor'' \<and> di_ready (fi_initial i) \<and> df_ready (fi_final i) \<and> df_blocks (fi_final i) = 0
     \<and> df_bytes (fi_final i) = 0 \<and> \<not> fi_samples_available i"
  unfolding ApplyDescriptorStateInvariant_def Let_def scenario_descriptor_def
  by (simp only: if_distrib[of fr_applied] fallback_result.simps if_bool_eq_conj not_not simp_thms) blast

lemma wrap64_200: "wrap64 200 = 200"
  by (simp add: wrap64_def)

lemma fallback_applied_iff:
  "fr_applied (fallback scenario valid initial final w samples) \<longleftrightarrow>
     valid \<and> scenario = scenario_descriptor \<and> wr_requested w = 100 \<and> wr_attempted w = 100 \<and> wr_completed w = 100 \<and> wr_failed w = 0
     \<and> wr_returned w = 100 \<and> wrap64 (cy_ops final - cy_ops initial) = 100 \<and> wrap64 (cy_fd final - cy_fd initial) = 200
     \<and> cy_mode initial = ''descriptor'' \<and> cy_mode final = ''descriptor'' \<and> cy_ready initial \<and> cy_ready final
     \<and> cy_blocks final = 0 \<and> cy_bytes final = 0 \<and> (\<forall>s \<in> set samples. \<not> mm_has_fd s)"
  unfolding Apply_applied_iff
  unfolding fallback_for_def ComputeDescriptorStateInvariant_def SamplesHaveFDAvailable_def list_ex_iff
    fallback_input.simps descriptor_initial.simps descriptor_final.simps descriptor_invariant.simps
  by (cases "wr_completed w = 100") (auto simp: wrap64_200)

lemma fallback_signal:
  "fr_applied (fallback scenario valid initial final w samples) \<Longrightarrow>
     fr_signal (fallback scenario valid initial final w samples) = descriptor_signal (fallback_for scenario valid initial final w samples)"
  unfolding Apply_applied_iff by (simp add: ApplyDescriptorStateInvariant_def)

subsection \<open>What the producer stores\<close>

lemma run_analysis_valid:
  fixes samples :: "mem_sample list"
  assumes "ir_valid (validateStateInvariant scenario initial final w)"
  defines "fb \<equiv> fallback scenario True initial final w samples"
  shows "vd_memory (run_analysis scenario initial final w samples th) = vd_memory (Analyze samples th)"
    "vd_semantic (run_analysis scenario initial final w samples th) = vd_semantic (Analyze samples th)"
    "vd_resource (run_analysis scenario initial final w samples th)
       = (if scenario = scenario_descriptor \<and> fr_applied fb then ClassificationResourceGrowth else vd_resource (Analyze samples th))"
    "vd_signals (run_analysis scenario initial final w samples th)
       = vd_signals (Analyze samples th) @ (if scenario = scenario_descriptor \<and> fr_applied fb then [fr_signal fb] else [])"
    "vd_overall (run_analysis scenario initial final w samples th)
       = ComputeOverallWithInvariant (vd_memory (Analyze samples th))
           (if scenario = scenario_descriptor \<and> fr_applied fb then ClassificationResourceGrowth else vd_resource (Analyze samples th))
           (vd_semantic (Analyze samples th)) True"
  unfolding run_analysis_def AnalyzeWithInvariant_def Let_def fb_def eqTrueI[OF assms(1)] option.case
  by (simp_all del: scenario_descriptor_def)

text \<open>A run in which the canary did what it was asked to do.\<close>

definition orderly_run :: "string \<Rightarrow> canary_state \<Rightarrow> canary_state \<Rightarrow> workload_result \<Rightarrow> bool" where
  "orderly_run scenario initial final w \<longleftrightarrow>
     cy_mode initial = scenarioToMode scenario \<and> cy_mode final = scenarioToMode scenario
     \<and> wr_attempted w = wr_requested w \<and> wr_failed w = 0 \<and> wr_returned w = wr_completed w
     \<and> (scenario = scenario_descriptor \<longrightarrow> wr_requested w = 100 \<and> cy_ready initial \<and> cy_ready final
          \<and> cy_blocks final = 0 \<and> cy_bytes final = 0)"

definition artifacts_of ::
  "(time \<Rightarrow> string) \<Rightarrow> string \<Rightarrow> canary_state \<Rightarrow> canary_state \<Rightarrow> workload_result \<Rightarrow> mem_sample list \<Rightarrow> bool \<Rightarrow> run_artifacts" where
  "artifacts_of fmt scenario initial final w samples provenance_ok =
     \<lparr>ra_scenario = scenario, ra_thresholds = Some DefaultThresholds,
      ra_verdict = finalize_run scenario initial final w samples provenance_ok, ra_initial = initial, ra_final = final, ra_workload = w,
      ra_command = getScenarioCommand scenario, ra_samples = WriteSamplesCSV fmt samples\<rparr>"

lemma finalize_simps:
  "st_signals (finalize_run scenario initial final w samples ok) = vd_signals (run_analysis scenario initial final w samples DefaultThresholds)"
  "st_overall (finalize_run scenario initial final w samples ok) = vd_overall (run_analysis scenario initial final w samples DefaultThresholds)"
  "st_memory (finalize_run scenario initial final w samples ok) = vd_memory (run_analysis scenario initial final w samples DefaultThresholds)"
  "st_resource (finalize_run scenario initial final w samples ok) = vd_resource (run_analysis scenario initial final w samples DefaultThresholds)"
  "st_semantic (finalize_run scenario initial final w samples ok) = vd_semantic (run_analysis scenario initial final w samples DefaultThresholds)"
  "st_provenance_valid (finalize_run scenario initial final w samples ok) = ok"
  "st_thresholds (finalize_run scenario initial final w samples ok) = Some DefaultThresholds"
  "st_scenario (finalize_run scenario initial final w samples ok) = scenario"
  by (simp_all add: finalize_run_def Let_def)

lemma valid_run_facts:
  assumes "st_canaries_valid (finalize_run scenario initial final w samples True)"
  shows "state_faults scenario initial final w = []" "validatePhaseContract samples" "wr_completed w = wr_requested w"
    "validateProcessIdentity samples" "samples \<noteq> []"
    "vd_overall (run_analysis scenario initial final w samples DefaultThresholds) = getExpectedVerdict scenario"
    "st_scenario_valid (finalize_run scenario initial final w samples True)"
  using assms unfolding finalize_run_def Let_def validateStateInvariant_def by simp_all (simp add: getExpectedVerdict_def)

lemma artifact_errors_none:
  assumes "state_faults scenario initial final w = []" "orderly_run scenario initial final w" "wr_completed w = wr_requested w"
    "ra_scenario a = scenario" "ra_initial a = initial" "ra_final a = final" "ra_workload a = w" "ra_command a = getScenarioCommand scenario"
    "st_scenario (ra_verdict a) = scenario"
  shows "artifact_errors a = []"
  using assms by (auto simp: artifact_errors_def orderly_run_def state_faults_def scenario_errors_def command_errors_def Let_def split: if_splits)

lemma sample_errors_none: "validatePhaseContract samples \<Longrightarrow> validateProcessIdentity samples \<Longrightarrow> sample_errors samples = []"
  by (auto simp: validatePhaseContract_def validateProcessIdentity_def sample_errors_def Let_def split: if_splits)

lemma threshold_errors_same [simp]: "threshold_errors (Some th) th = []"
  by (simp add: threshold_errors_def)

lemma source_errors_none:
  "\<forall>s \<in> set signals. sg_kind s = SignalKindSampled \<or> sg_name s = ''descriptor_state_invariant'' \<Longrightarrow> source_errors signals = []"
  by (auto simp: source_errors_def concat_eq_Nil_conv)

lemma signal_errors_none:
  assumes "fr_applied (fallback scenario True initial final w samples)"
  shows "signal_errors initial final w (fr_signal (fallback scenario True initial final w samples)) = []"
proof -
  have "wrap64 200 = 200" "wrap64 2 = 2" by (simp_all add: wrap64_def)
  then show ?thesis
    using assms[unfolded fallback_applied_iff] unfolding fallback_signal[OF assms]
    by (simp add: signal_errors_def descriptor_signal_def fallback_for_def ComputeDescriptorStateInvariant_def blank_signal_def)
qed

lemma descriptor_errors_descriptor:
  assumes v: "st_canaries_valid (finalize_run scenario_descriptor initial final w samples True)"
    and o: "orderly_run scenario_descriptor initial final w"
  shows "descriptor_errors (artifacts_of fmt scenario_descriptor initial final w samples True) True samples = []"
proof -
  let ?fb = "fallback scenario_descriptor True initial final w samples"
  note f = valid_run_facts[OF v]
  have iv: "ir_valid (validateStateInvariant scenario_descriptor initial final w)" using f(1) by (simp add: validateStateInvariant_def)
  have n: "sg_name (fr_signal ?fb) = ''descriptor_state_invariant''" if "fr_applied ?fb"
    using that by (simp add: fallback_signal descriptor_signal_def)
  have "filter (\<lambda>s. sg_name s = ''descriptor_state_invariant'') (vd_signals (Analyze samples DefaultThresholds)) = []"
    using Analyze_signals unfolding filter_empty_conv by blast
  then have found: "filter (\<lambda>s. sg_name s = ''descriptor_state_invariant'')
      (st_signals (finalize_run scenario_descriptor initial final w samples True)) = (if fr_applied ?fb then [fr_signal ?fb] else [])"
    using n unfolding finalize_simps run_analysis_valid(4)[OF iv] by (simp del: scenario_descriptor_def)
  have a: "fr_applied ?fb \<longleftrightarrow> \<not> SamplesHaveFDAvailable samples"
  proof -
    have "wrap64 (cy_ops final - cy_ops initial) = 100" "wrap64 (cy_fd final - cy_fd initial) = 200"
      using f(1,3) o by (auto simp: state_faults_def orderly_run_def Let_def wrap64_def)
    then show ?thesis using o f(3)
      by (auto simp: fallback_applied_iff orderly_run_def SamplesHaveFDAvailable_def list_ex_iff scenarioToMode_def)
  qed
  show ?thesis
    unfolding descriptor_errors_def artifacts_of_def run_artifacts.simps Let_def found
    using a signal_errors_none[of scenario_descriptor initial final w samples] by (cases "fr_applied ?fb") (simp_all del: scenario_descriptor_def)
qed

lemma descriptor_errors_none:
  assumes v: "st_canaries_valid (finalize_run scenario initial final w samples True)" and o: "orderly_run scenario initial final w"
  shows "descriptor_errors (artifacts_of fmt scenario initial final w samples True) True samples = []"
proof (cases "scenario = scenario_descriptor")
  case True
  show ?thesis using descriptor_errors_descriptor v o unfolding True .
qed (simp add: descriptor_errors_def artifacts_of_def)

lemma valid_run_passes:
  assumes v: "st_canaries_valid (finalize_run scenario initial final w samples True)"
    and o: "orderly_run scenario initial final w"
    and s: "csv_valid samples" "list_all (csv_writable fmt parse_time) samples"
  shows "verify_run parse_time [] [] (artifacts_of fmt scenario initial final w samples True) = Passed"
proof -
  let ?a = "artifacts_of fmt scenario initial final w samples True" and ?st = "finalize_run scenario initial final w samples True"
  note f = valid_run_facts[OF v]
  have iv: "ir_valid (validateStateInvariant scenario initial final w)" using f(1) by (simp add: validateStateInvariant_def)
  have p: "ParseSamplesCSVStream parse_time (WriteSamplesCSV fmt samples) = Inr samples"
    by (rule records_read[OF written_records[OF s] s])
  have e: "artifact_errors ?a @ sample_errors samples @ map StateError (ir_failures (validateStateInvariant scenario initial final w))
      @ threshold_errors (st_thresholds ?st) DefaultThresholds = []"
    using artifact_errors_none[OF f(1) o f(3), of ?a] sample_errors_none[OF f(2,4)] f(1)
    by (simp add: artifacts_of_def finalize_simps validateStateInvariant_def)
  have sv: "verifyScenarioValid samples w []"
    using f(2,3,5) o by (simp add: verifyScenarioValid_def validatePhaseContract_def orderly_run_def)
  have src: "source_errors (st_signals ?st) = []"
  proof (rule source_errors_none, intro ballI)
    fix x assume "x \<in> set (st_signals ?st)"
    then have "x \<in> set (vd_signals (Analyze samples DefaultThresholds))
        \<or> fr_applied (fallback scenario True initial final w samples) \<and> x = fr_signal (fallback scenario True initial final w samples)"
      unfolding finalize_simps run_analysis_valid(4)[OF iv] by (auto split: if_splits)
    then show "sg_kind x = SignalKindSampled \<or> sg_name x = ''descriptor_state_invariant''"
      using Analyze_signals[of x] by (auto simp: fallback_signal descriptor_signal_def)
  qed
  have rc: "reconstruct ?a True DefaultThresholds samples = \<lparr>rc_overall = st_overall ?st, rc_memory = st_memory ?st,
      rc_resource = st_resource ?st, rc_semantic = st_semantic ?st\<rparr>"
    unfolding finalize_simps run_analysis_valid[OF iv] by (simp add: reconstruct_def artifacts_of_def Let_def)
  have ov: "st_overall ?st = getExpectedVerdict scenario" using f(6) by (simp only: finalize_simps)
  have pr: "st_provenance_valid ?st" by (simp only: finalize_simps)
  note fields = artifacts_of_def[of fmt scenario initial final w samples True]
  show ?thesis
    unfolding verify_run_def
    using p e iv rc sv ov pr src v f(7) descriptor_errors_none[OF v o, of fmt]
    by (simp add: fields Let_def)
qed

text \<open>C4. A run the producer declares valid passes the verification: from the artifacts of an orderly run -- the samples as written to the
  sample file, the stored verdict, the states of the canary and the result of the workload -- the verifier reconstructs the same
  classifications and finds no error.\<close>

theorem valid_run_verified:
  assumes "st_canaries_valid (finalize_run scenario initial final w samples True)" "orderly_run scenario initial final w"
    and "csv_valid samples" "list_all (csv_writable fmt parse_time) samples"
  shows "verify_run parse_time [] [] (artifacts_of fmt scenario initial final w samples True) = Passed"
  by (rule valid_run_passes[OF assms])

subsection \<open>What a passed verification shows\<close>

lemma computeOverall_growing: "ComputeOverallWithInvariant m r s v = ClassificationGrowing \<Longrightarrow> m = ClassificationGrowing"
  by (auto simp: ComputeOverallWithInvariant_def computeOverall_def split: if_splits)

lemma computeOverall_resource:
  "ComputeOverallWithInvariant m r s v = ClassificationResourceGrowth \<Longrightarrow> m \<noteq> ClassificationGrowing \<and> r = ClassificationResourceGrowth"
  by (auto simp: ComputeOverallWithInvariant_def computeOverall_def split: if_splits)

lemma sample_errors_Nil:
  "sample_errors samples = [] \<Longrightarrow> validatePhaseContract samples \<and> \<not> hasProcessReplacement samples"
  by (auto simp: sample_errors_def validatePhaseContract_def hasProcessReplacement_def Let_def split: if_splits)

lemma reconstruct_simps:
  "rc_memory (reconstruct a v th samples) = vd_memory (Analyze samples th)"
  "rc_semantic (reconstruct a v th samples) = vd_semantic (Analyze samples th)"
  "rc_overall (reconstruct a v th samples) = ComputeOverallWithInvariant (rc_memory (reconstruct a v th samples))
     (rc_resource (reconstruct a v th samples)) (rc_semantic (reconstruct a v th samples)) v"
  by (simp_all add: reconstruct_def Let_def)

lemma verify_run_Passed:
  assumes "verify_run parse_time provenance_errors identity_errors a = Passed"
  defines "th \<equiv> case ra_thresholds a of Some t \<Rightarrow> t | None \<Rightarrow> DefaultThresholds"
  shows "\<exists>samples. ParseSamplesCSVStream parse_time (ra_samples a) = Inr samples \<and> artifact_errors a = [] \<and> sample_errors samples = []
    \<and> ir_valid (validateStateInvariant (ra_scenario a) (ra_initial a) (ra_final a) (ra_workload a))
    \<and> reconstruct a True th samples = \<lparr>rc_overall = st_overall (ra_verdict a), rc_memory = st_memory (ra_verdict a),
        rc_resource = st_resource (ra_verdict a), rc_semantic = st_semantic (ra_verdict a)\<rparr>
    \<and> st_overall (ra_verdict a) = getExpectedVerdict (ra_scenario a)"
proof -
  obtain samples where p: "ParseSamplesCSVStream parse_time (ra_samples a) = Inr samples"
    using assms(1) by (cases "ParseSamplesCSVStream parse_time (ra_samples a)") (simp_all add: verify_run_def)
  let ?iv = "ir_valid (validateStateInvariant (ra_scenario a) (ra_initial a) (ra_final a) (ra_workload a))"
  have r: "artifact_errors a = [] \<and> sample_errors samples = [] \<and> ?iv
    \<and> st_overall (ra_verdict a) = rc_overall (reconstruct a ?iv th samples) \<and> st_memory (ra_verdict a) = rc_memory (reconstruct a ?iv th samples)
    \<and> st_resource (ra_verdict a) = rc_resource (reconstruct a ?iv th samples)
    \<and> st_semantic (ra_verdict a) = rc_semantic (reconstruct a ?iv th samples)
    \<and> rc_overall (reconstruct a ?iv th samples) = getExpectedVerdict (ra_scenario a)"
    using assms(1) p unfolding verify_run_def th_def Let_def by (simp split: if_splits)
  then have iv: "?iv = True" by simp
  show ?thesis using r p unfolding iv by (intro exI[of _ samples]) simp
qed

text \<open>C7. What a passed verification shows, for any artifacts: the sample file holds one process in a complete run, the canary's states
  satisfy the invariant of the scenario, every requested operation completed, the stored classes are those the samples give and
  the overall class is the one the scenario expects -- so a passed growing canary was seen growing in memory, and a passed
  descriptor canary in its resources and not in its memory.\<close>

theorem passed_run_sound:
  assumes "verify_run parse_time provenance_errors identity_errors a = Passed"
  shows "\<exists>samples. ParseSamplesCSVStream parse_time (ra_samples a) = Inr samples
    \<and> validatePhaseContract samples \<and> \<not> hasProcessReplacement samples
    \<and> state_faults (ra_scenario a) (ra_initial a) (ra_final a) (ra_workload a) = []
    \<and> wr_completed (ra_workload a) = wr_requested (ra_workload a) \<and> wr_failed (ra_workload a) = 0
    \<and> (let v = Analyze samples (case ra_thresholds a of Some t \<Rightarrow> t | None \<Rightarrow> DefaultThresholds); st = ra_verdict a
       in st_memory st = vd_memory v \<and> st_semantic st = vd_semantic v \<and> st_overall st = getExpectedVerdict (ra_scenario a)
          \<and> (ra_scenario a = scenario_growing \<longrightarrow> vd_memory v = ClassificationGrowing)
          \<and> (ra_scenario a = scenario_descriptor \<longrightarrow> vd_memory v \<noteq> ClassificationGrowing \<and> st_resource st = ClassificationResourceGrowth))"
proof -
  let ?th = "case ra_thresholds a of Some t \<Rightarrow> t | None \<Rightarrow> DefaultThresholds" and ?st = "ra_verdict a"
  obtain samples where p: "ParseSamplesCSVStream parse_time (ra_samples a) = Inr samples" "artifact_errors a = []" "sample_errors samples = []"
    "ir_valid (validateStateInvariant (ra_scenario a) (ra_initial a) (ra_final a) (ra_workload a))"
    "reconstruct a True ?th samples = \<lparr>rc_overall = st_overall ?st, rc_memory = st_memory ?st, rc_resource = st_resource ?st,
       rc_semantic = st_semantic ?st\<rparr>" "st_overall ?st = getExpectedVerdict (ra_scenario a)"
    using verify_run_Passed[OF assms] by (elim exE conjE) (rule that)
  have r: "st_memory ?st = vd_memory (Analyze samples ?th)" "st_semantic ?st = vd_semantic (Analyze samples ?th)"
    "st_overall ?st = ComputeOverallWithInvariant (st_memory ?st) (st_resource ?st) (st_semantic ?st) True"
    using reconstruct_simps[of a True ?th samples] unfolding p(5) by simp_all
  have w: "wr_completed (ra_workload a) = wr_requested (ra_workload a) \<and> wr_failed (ra_workload a) = 0"
    using p(2) by (simp add: artifact_errors_def Let_def)
  have g: "ra_scenario a = scenario_growing \<Longrightarrow> st_memory ?st = ClassificationGrowing"
    using computeOverall_growing[of "st_memory ?st" "st_resource ?st" "st_semantic ?st" True] r(3) p(6) by (simp add: getExpectedVerdict_def)
  have d: "ra_scenario a = scenario_descriptor \<Longrightarrow> st_memory ?st \<noteq> ClassificationGrowing \<and> st_resource ?st = ClassificationResourceGrowth"
    using computeOverall_resource[of "st_memory ?st" "st_resource ?st" "st_semantic ?st" True] r(3) p(6) by (simp add: getExpectedVerdict_def)
  have f: "state_faults (ra_scenario a) (ra_initial a) (ra_final a) (ra_workload a) = []"
    using p(4) by (simp add: validateStateInvariant_def Let_def)
  show ?thesis using p(1,6) sample_errors_Nil[OF p(3)] w f g d r(1,2)
    by (intro exI[of _ samples]) (simp add: Let_def)
qed

subsection \<open>A run that is too short\<close>

text \<open>A run that is too short for the analysis is declared stable: for one process with fewer than ten samples, among them a baseline and
  three final ones, the analysis is inconclusive, but the overall class is computed again from classes that were never set, and
  the bounded canary is declared valid.\<close>

theorem short_run_declared_stable:
  assumes "state_faults scenario_bounded initial final w = []" "wr_completed w = wr_requested w"
    and "validatePhaseContract samples" "validateProcessIdentity samples" "length samples < 10"
  shows "vd_overall (Analyze samples DefaultThresholds) = ClassificationInconclusive
    \<and> st_overall (finalize_run scenario_bounded initial final w samples True) = ClassificationStable
    \<and> st_canaries_valid (finalize_run scenario_bounded initial final w samples True)"
proof -
  have iv: "ir_valid (validateStateInvariant scenario_bounded initial final w)" using assms(1) by (simp add: validateStateInvariant_def)
  have "\<not> hasProcessReplacement samples" using assms(4) by (auto simp: validateProcessIdentity_def hasProcessReplacement_def split: if_splits)
  moreover have "samples \<noteq> []" using assms(3) by (auto simp: validatePhaseContract_def)
  ultimately have a: "Analyze samples DefaultThresholds
      = blank_verdict\<lparr>vd_overall := ClassificationInconclusive, vd_warnings := [InsufficientSamples]\<rparr>"
    using assms(5) by (simp add: Analyze_def DefaultThresholds_def)
  have o: "vd_overall (run_analysis scenario_bounded initial final w samples DefaultThresholds) = ClassificationStable"
    unfolding run_analysis_valid(5)[OF iv] a by (simp add: blank_verdict_def ComputeOverallWithInvariant_def computeOverall_def)
  have "st_canaries_valid (finalize_run scenario_bounded initial final w samples True)"
    unfolding finalize_run_def Let_def stored_verdict.simps o using iv assms(2-4) \<open>samples \<noteq> []\<close> by (simp add: getExpectedVerdict_def)
  then show ?thesis unfolding finalize_simps o a by (simp add: blank_verdict_def)
qed

subsection \<open>The gates of the fallback\<close>

text \<open>The descriptor fallback applies to a run exactly when all of its gates hold: the scenario's invariant is valid, all 100 operations
  were requested, attempted, completed and returned and none failed, the canary's operation count grew by 100 and its descriptors by
  200, it was ready in descriptor mode at both ends and retained nothing, and no sample shows descriptors. The signal it then adds
  carries the two descriptor counts of the canary and their difference of 200.\<close>

theorem descriptor_fallback_gates:
  assumes "0 \<le> cy_ops initial" "0 \<le> cy_fd initial" "0 \<le> cy_ops final" "0 \<le> cy_fd final"
    "cy_ops initial < 2 ^ 63" "cy_fd initial < 2 ^ 63" "cy_ops final < 2 ^ 63" "cy_fd final < 2 ^ 63"
  shows "let r = ApplyDescriptorStateInvariant (fallback_for scenario valid initial final w samples) in
    (fr_applied r \<longleftrightarrow>
       valid \<and> scenario = scenario_descriptor \<and> wr_requested w = 100 \<and> wr_attempted w = 100 \<and> wr_completed w = 100 \<and> wr_failed w = 0
       \<and> wr_returned w = 100 \<and> cy_ops final = cy_ops initial + 100 \<and> cy_fd final = cy_fd initial + 200
       \<and> cy_mode initial = ''descriptor'' \<and> cy_mode final = ''descriptor'' \<and> cy_ready initial \<and> cy_ready final
       \<and> cy_blocks final = 0 \<and> cy_bytes final = 0 \<and> (\<forall>s \<in> set samples. \<not> mm_has_fd s))
    \<and> (fr_applied r \<longrightarrow> sg_first (fr_signal r) = cy_fd initial \<and> sg_last (fr_signal r) = cy_fd final \<and> sg_delta (fr_signal r) = 200)"
proof -
  have d: "wrap64 (cy_ops final - cy_ops initial) = cy_ops final - cy_ops initial" "wrap64 (cy_fd final - cy_fd initial) = cy_fd final - cy_fd initial"
    using assms by (simp_all add: wrap64_id in_int64_def)
  have e: "x - y = k \<longleftrightarrow> x = y + k" for x y k :: int by linarith
  have g: "sg_first (fr_signal r) = cy_fd initial \<and> sg_last (fr_signal r) = cy_fd final \<and> sg_delta (fr_signal r) = 200"
    if r: "fr_applied r" "r = fallback scenario valid initial final w samples" for r
    using r(1) unfolding r(2) fallback_signal[OF r(1)[unfolded r(2)]] fallback_applied_iff
    by (simp add: descriptor_signal_def fallback_for_def ComputeDescriptorStateInvariant_def)
  show ?thesis unfolding Let_def
  proof (rule conjI)
    show "fr_applied (fallback scenario valid initial final w samples) \<longrightarrow> sg_first (fr_signal (fallback scenario valid initial final w samples)) = cy_fd initial
        \<and> sg_last (fr_signal (fallback scenario valid initial final w samples)) = cy_fd final
        \<and> sg_delta (fr_signal (fallback scenario valid initial final w samples)) = 200"
      by (intro impI g[OF _ refl])
  qed (simp only: fallback_applied_iff d e)
qed

subsection \<open>Examples\<close>

definition bounded_state :: "int \<Rightarrow> canary_state" where
  "bounded_state n = \<lparr>cy_mode = ''bounded'', cy_blocks = 0, cy_bytes = 0, cy_ops = n, cy_fd = 12, cy_buffer = 4096, cy_ready = True\<rparr>"

definition full_workload :: workload_result where
  "full_workload = \<lparr>wr_requested = 100, wr_attempted = 100, wr_completed = 100, wr_failed = 0, wr_returned = 100\<rparr>"

definition run_example :: "int list \<Rightarrow> mem_sample list" where
  "run_example is = map (\<lambda>i. blank_sample i (i * 1000000000) 42 (if i < 4 then PhaseBaseline else PhaseFinal) False
     \<lparr>mm_start := 7, mm_pss_anon := 1000, mm_has_pss_anon := True\<rparr>) is"

definition long_run :: "mem_sample list" where "long_run = run_example [0, 1, 2, 3, 4, 5, 6, 7, 8, 9]"

lemma long_run_analysis:
  "\<not> hasProcessReplacement long_run" "hasBaselineAndStimulus long_run"
  "fst (classifyMemorySignals DefaultThresholds (analyzeMemorySignals long_run)) = ClassificationStable"
  "classifyResourceSignals DefaultThresholds (analyzeResourceSignals long_run) = ClassificationStable"
  "classifySemantic long_run = ClassificationStable"
proof -
  have u: "unchanged long_run" "in_time_order long_run" "6 \<le> length long_run" "moderate (hd long_run)" "mm_oom (hd long_run) = 0"
    "mm_oom_kill (hd long_run) = 0"
    by (simp_all add: long_run_def run_example_def unchanged_def in_time_order_def moderate_def amounts_def blank_sample_def)
  show "\<not> hasProcessReplacement long_run" by (rule unchanged_same_process[OF u(1)])
  show "hasBaselineAndStimulus long_run" by (simp add: long_run_def run_example_def hasBaselineAndStimulus_def blank_sample_def)
qed (rule unchanged_classes[where th = DefaultThresholds]; simp add: long_run_def run_example_def unchanged_def in_time_order_def moderate_def amounts_def blank_sample_def
  DefaultThresholds_def)+

lemma bounded_faults: "state_faults scenario_bounded (bounded_state 0) (bounded_state 100) full_workload = []"
  by (simp add: state_faults_def bounded_state_def full_workload_def wrap64_def errors_if_def)

lemma long_run_valid:
  "st_canaries_valid (finalize_run scenario_bounded (bounded_state 0) (bounded_state 100) full_workload long_run True)"
proof -
  have iv: "ir_valid (validateStateInvariant scenario_bounded (bounded_state 0) (bounded_state 100) full_workload)"
    by (simp add: validateStateInvariant_def bounded_faults del: scenario_bounded_def)
  have n: "th_sample_min DefaultThresholds \<le> int (length long_run)" by (simp add: DefaultThresholds_def long_run_def run_example_def)
  have "vd_overall (run_analysis scenario_bounded (bounded_state 0) (bounded_state 100) full_workload long_run DefaultThresholds)
      = ClassificationStable"
    unfolding run_analysis_valid(5)[OF iv] Analyze_complete[OF long_run_analysis(1) n long_run_analysis(2)]
    by (simp add: long_run_analysis blank_verdict_def ComputeOverallWithInvariant_def computeOverall_def)
  moreover have "validatePhaseContract long_run \<and> validateProcessIdentity long_run \<and> long_run \<noteq> []"
    by (simp add: long_run_def run_example_def validatePhaseContract_def validateProcessIdentity_def blank_sample_def)
  ultimately show ?thesis using iv by (simp add: finalize_run_def Let_def getExpectedVerdict_def full_workload_def)
qed

lemma run_example_csv:
  "csv_valid long_run" "list_all (csv_writable show_int Atoi) long_run"
proof -
  show "csv_valid long_run"
    by (simp add: csv_valid_def long_run_def run_example_def blank_sample_def row_before_def row_valid_def sample_phase_def amounts_def amount_def
        flagged_def)
  show "list_all (csv_writable show_int Atoi) long_run"
    by (simp add: long_run_def run_example_def csv_writable_def time_text_def blank_sample_def csv_plain_show_int Atoi_show_int)
qed

lemma bounded_orderly: "orderly_run scenario_bounded (bounded_state 0) (bounded_state 100) full_workload"
  by (simp add: orderly_run_def bounded_state_def full_workload_def scenarioToMode_def)

lemma valid_run_verified_witness:
  "verify_run Atoi [] [] (artifacts_of show_int scenario_bounded (bounded_state 0) (bounded_state 100) full_workload long_run True) = Passed"
  by (rule valid_run_verified[OF long_run_valid bounded_orderly run_example_csv])

lemma passed_run_sound_witness:
  defines "a \<equiv> artifacts_of show_int scenario_bounded (bounded_state 0) (bounded_state 100) full_workload long_run True"
  shows "verify_run Atoi [] [] a = Passed \<and> (\<exists>samples. ParseSamplesCSVStream Atoi (ra_samples a) = Inr samples
    \<and> validatePhaseContract samples \<and> \<not> hasProcessReplacement samples)"
proof -
  have p: "verify_run Atoi [] [] a = Passed"
    unfolding a_def by (rule valid_run_passes[OF long_run_valid bounded_orderly run_example_csv])
  obtain samples where "ParseSamplesCSVStream Atoi (ra_samples a) = Inr samples" "validatePhaseContract samples" "\<not> hasProcessReplacement samples"
    using passed_run_sound[OF p] by (elim exE conjE) (rule that)
  with p show ?thesis by (intro conjI exI)
qed

definition short_run :: "mem_sample list" where "short_run = run_example [0, 4, 5, 6]"

lemma short_run_declared_stable_witness:
  "vd_overall (Analyze short_run DefaultThresholds) = ClassificationInconclusive
    \<and> st_overall (finalize_run scenario_bounded (bounded_state 0) (bounded_state 100) full_workload short_run True) = ClassificationStable
    \<and> st_canaries_valid (finalize_run scenario_bounded (bounded_state 0) (bounded_state 100) full_workload short_run True)"
  by (rule short_run_declared_stable[OF bounded_faults])
    (simp_all add: short_run_def run_example_def full_workload_def validatePhaseContract_def validateProcessIdentity_def blank_sample_def)

definition descriptor_state :: "int \<Rightarrow> int \<Rightarrow> canary_state" where
  "descriptor_state n fds = \<lparr>cy_mode = ''descriptor'', cy_blocks = 0, cy_bytes = 0, cy_ops = n, cy_fd = fds, cy_buffer = 0, cy_ready = True\<rparr>"

lemma descriptor_fallback_gates_witness:
  "let r = ApplyDescriptorStateInvariant (fallback_for scenario_descriptor True (descriptor_state 0 12) (descriptor_state 100 212) full_workload long_run)
   in fr_applied r \<and> sg_first (fr_signal r) = 12 \<and> sg_last (fr_signal r) = 212 \<and> sg_delta (fr_signal r) = 200"
  using descriptor_fallback_gates[of "descriptor_state 0 12" "descriptor_state 100 212" scenario_descriptor True full_workload long_run]
  by (simp add: descriptor_state_def full_workload_def long_run_def run_example_def blank_sample_def Let_def)

subsection \<open>The samples of an accepted file\<close>

text \<open>The analysis of an accepted sample file always reaches a verdict: it never takes the samples for those of a replaced process or
  for none, so the overall class is stable, growing, growing in resources or inconclusive, and it is inconclusive exactly when
  there are too few samples, a phase is missing, or the memory alone is inconclusive and the resources do not grow.\<close>

theorem accepted_file_verdict:
  assumes "ParseSamplesCSVStream parse_time file = Inr samples"
  shows "vd_overall (Analyze samples th) \<in> {ClassificationStable, ClassificationGrowing, ClassificationResourceGrowth, ClassificationInconclusive}
    \<and> (vd_overall (Analyze samples th) = ClassificationInconclusive \<longleftrightarrow>
         int (length samples) < th_sample_min th \<or> \<not> hasBaselineAndStimulus samples
         \<or> (vd_memory (Analyze samples th) = ClassificationInconclusive \<and> vd_resource (Analyze samples th) = ClassificationStable))"
proof -
  have v: "csv_valid samples" by (rule accepted_valid[OF assms])
  have "mm_pid s = mm_pid (hd samples) \<and> mm_start s = mm_start (hd samples)" if "s \<in> set (tl samples)" for s
    using v that by (cases samples) (auto simp: csv_valid_def row_before_def)
  then have r: "\<not> hasProcessReplacement samples" by (auto simp: hasProcessReplacement_def list_ex_iff)
  show ?thesis
  proof (cases "int (length samples) < th_sample_min th \<or> \<not> hasBaselineAndStimulus samples")
    case True
    have "samples \<noteq> []" using v by (simp add: csv_valid_def)
    then have "vd_overall (Analyze samples th) = ClassificationInconclusive" using True r by (auto simp: Analyze_def)
    then show ?thesis using True by auto
  next
    case False
    have m: "fst (classifyMemorySignals th (analyzeMemorySignals samples)) \<in> {ClassificationStable, ClassificationGrowing, ClassificationInconclusive}"
      by (simp add: classifyMemorySignals_def Let_def)
    have c: "classifyResourceSignals th (analyzeResourceSignals samples) \<in> {ClassificationStable, ClassificationResourceGrowth}"
      by (simp add: classifyResourceSignals_def)
    have a: "Analyze samples th = blank_verdict\<lparr>vd_memory := fst (classifyMemorySignals th (analyzeMemorySignals samples)),
        vd_resource := classifyResourceSignals th (analyzeResourceSignals samples),
        vd_signals := snd (classifyMemorySignals th (analyzeMemorySignals samples)) @ analyzeResourceSignals samples,
        vd_semantic := classifySemantic samples,
        vd_overall := computeOverall (fst (classifyMemorySignals th (analyzeMemorySignals samples)))
          (classifyResourceSignals th (analyzeResourceSignals samples)) (classifySemantic samples)\<rparr>"
      using False by (intro Analyze_complete[OF r]) simp_all
    show ?thesis using m c classifySemantic_cases[of samples] False unfolding a
      by (auto simp: computeOverall_def)
  qed
qed

lemma accepted_file_verdict_witness:
  "ParseSamplesCSVStream Atoi (WriteSamplesCSV show_int long_run) = Inr long_run
    \<and> vd_overall (Analyze long_run DefaultThresholds) \<noteq> ClassificationProcessReplaced"
proof -
  have r: "ParseSamplesCSVStream Atoi (WriteSamplesCSV show_int long_run) = Inr long_run"
    by (rule records_read[OF written_records[OF run_example_csv] run_example_csv])
  then show ?thesis using accepted_file_verdict[OF r, of DefaultThresholds] by auto
qed

end
