(* ===== verification/Lab_Checksums.thy ===== *)
theory Lab_Checksums
  imports Lab_Csv Uvb_Config "HOL-Library.List_Lexorder"
begin

section \<open>Artifact directories and their checksums\<close>

text \<open>
  Models the checksum files of the memory lab: the grammar, the parser and the writer of
  \<open>internal/evidence/writer.go\<close>, the inventory rules of \<open>verify\<close> in \<open>cmd/tovarisch-memory-lab/main.go\<close>, and the
  checksum rules of a matrix in \<open>matrix.go\<close>, \<open>matrix_verify.go\<close>, \<open>reconstruct.go\<close> and \<open>container_identity.go\<close>.

  A file system is a map from paths to the contents of files and a map from paths to the entries of directories; a
  read that fails for any reason is an absent file. The hexadecimal SHA-256 of a text is the argument \<open>sha\<close>.
  Where the code ranges over a Go map of checksums the model takes the order of the file, which only decides
  which of several faults is reported.
\<close>

subsection \<open>Paths and files\<close>

text \<open>\<open>path.Clean\<close> on the segments of a path, and \<open>path.Join\<close>, \<open>filepath.Join\<close>, \<open>filepath.Base\<close> on Unix.\<close>

definition clean_segment :: "bool \<Rightarrow> string list \<Rightarrow> string \<Rightarrow> string list" where
  "clean_segment rooted segs seg =
     (if seg = [] \<or> seg = ''.'' then segs
      else if seg = ''..'' then
        (if segs \<noteq> [] \<and> last segs \<noteq> ''..'' then butlast segs else if rooted then segs else segs @ [seg])
      else segs @ [seg])"

definition path_Clean :: "string \<Rightarrow> string" where
  "path_Clean p =
     (let rooted = has_prefix p ''/''; segs = foldl (clean_segment rooted) [] (split_on CHR ''/'' p)
      in if p = [] then ''.''
         else if rooted then ''/'' @ join_with ''/'' segs
         else if segs = [] then ''.'' else join_with ''/'' segs)"

definition path_Join :: "string list \<Rightarrow> string" where
  "path_Join elems = (let es = filter (\<lambda>e. e \<noteq> []) elems in if es = [] then [] else path_Clean (join_with ''/'' es))"

definition path_Base :: "string \<Rightarrow> string" where
  "path_Base p =
     (let q = rev (dropWhile (\<lambda>c. c = CHR ''/'') (rev p))
      in if p = [] then ''.'' else if q = [] then ''/'' else last (split_on CHR ''/'' q))"

record file_system =
  fs_file :: "string \<rightharpoonup> string"
  fs_dir :: "string \<rightharpoonup> (string \<times> bool) list"

text \<open>\<open>os.WriteFile\<close> in a directory: a new name joins the listing of the directory.\<close>

definition write_file :: "string \<Rightarrow> string \<Rightarrow> string \<Rightarrow> file_system \<Rightarrow> file_system" where
  "write_file d name data fs =
     fs\<lparr>fs_file := (fs_file fs)(path_Join [d, name] \<mapsto> data),
        fs_dir := (case fs_dir fs d of None \<Rightarrow> fs_dir fs
          | Some es \<Rightarrow> if name \<in> fst ` set es then fs_dir fs else (fs_dir fs)(d \<mapsto> es @ [(name, False)]))\<rparr>"

subsection \<open>The grammar of a checksum line\<close>

datatype checksum_fault = HashLength | HashText | PathRejected string | LineEmpty | NoDelimiter | DuplicatePath string
  | Unreadable string | Mismatch string | MissingEntry string | UnexpectedEntry string | EntryCount nat

definition ChecksumHashLen :: nat where "ChecksumHashLen = 64"

text \<open>A text with an upper-case digit and one with another character differ in the wording of the error only.\<close>

definition ValidateChecksumHash :: "string \<Rightarrow> checksum_fault option" where
  "ValidateChecksumHash hash =
     (if hash = [] then Some HashText
      else if length hash \<noteq> ChecksumHashLen then Some HashLength
      else if hash \<noteq> map lower_char hash then Some HashText
      else case hexDecode hash of Inl _ \<Rightarrow> Some HashText | Inr _ \<Rightarrow> None)"

definition ValidateChecksumArtifactPath :: "string \<Rightarrow> checksum_fault option" where
  "ValidateChecksumArtifactPath name =
     (if name = [] \<or> name = ''.'' then Some (PathRejected name)
      else if has_prefix name ''/'' \<or> has_prefix name [CHR 0x5C] then Some (PathRejected name)
      else if CHR ''/'' \<in> set name \<or> CHR 0x5C \<in> set name then Some (PathRejected name)
      else if str_contains name ''..'' then Some (PathRejected name)
      else if path_Base name \<noteq> name then Some (PathRejected name)
      else None)"

text \<open>The text before and after the first occurrence of a separator.\<close>

fun split_once :: "string \<Rightarrow> string \<Rightarrow> (string \<times> string) option" where
  "split_once sep [] = (if sep = [] then Some ([], []) else None)"
| "split_once sep (c # s) =
     (if has_prefix (c # s) sep then Some ([], drop (length sep) (c # s))
      else map_option (\<lambda>(a, b). (c # a, b)) (split_once sep s))"

definition ParseChecksumLine :: "string \<Rightarrow> checksum_fault + string \<times> string" where
  "ParseChecksumLine line =
     (let text = TrimSpace line
      in if text = [] then Inl LineEmpty
         else case split_once ''  '' text of
           None \<Rightarrow> Inl NoDelimiter
         | Some (a, b) \<Rightarrow>
             (let hash = TrimSpace a; path = TrimSpace b
              in if hash = [] then Inl HashText
                 else if path = [] then Inl (PathRejected [])
                 else case ValidateChecksumHash hash of
                   Some e \<Rightarrow> Inl e
                 | None \<Rightarrow> (case ValidateChecksumArtifactPath path of Some e \<Rightarrow> Inl e | None \<Rightarrow> Inr (hash, path))))"

definition splitLines :: "string \<Rightarrow> string list" where
  "splitLines s = filter (\<lambda>l. l \<noteq> []) (split_on CHR 0x0A s)"

text \<open>The entries of the file: a map from paths to hashes, in the order of its lines.\<close>

type_synonym checksum_map = "(string \<times> string) list"

fun parse_checksum_lines :: "checksum_map \<Rightarrow> string list \<Rightarrow> checksum_fault + checksum_map" where
  "parse_checksum_lines result [] = Inr result"
| "parse_checksum_lines result (line # lines) =
     (case ParseChecksumLine line of
        Inl e \<Rightarrow> Inl e
      | Inr (hash, path) \<Rightarrow>
          if path \<in> fst ` set result then Inl (DuplicatePath path)
          else parse_checksum_lines (result @ [(path, hash)]) lines)"

definition ParseChecksumsFile :: "string \<Rightarrow> checksum_fault + checksum_map" where
  "ParseChecksumsFile data = parse_checksum_lines [] (splitLines data)"

subsection \<open>Writing the checksums of an inventory\<close>

definition checksums_name :: string where "checksums_name = ''checksums.txt''"

fun checksum_entries :: "(string \<Rightarrow> string) \<Rightarrow> file_system \<Rightarrow> string \<Rightarrow> string list \<Rightarrow> checksum_fault + checksum_map" where
  "checksum_entries sha fs d [] = Inr []"
| "checksum_entries sha fs d (name # names) =
     (if name = checksums_name then checksum_entries sha fs d names
      else case fs_file fs (path_Join [d, name]) of
             None \<Rightarrow> Inl (Unreadable name)
           | Some data \<Rightarrow> and_then (checksum_entries sha fs d names) (\<lambda>es. Inr ((name, sha data) # es)))"

text \<open>
  The insertion sort by path. The sorted prefix is kept reversed, so that an entry moves towards the front as the
  inner loop moves it.
\<close>

fun insert_entry :: "string \<times> string \<Rightarrow> checksum_map \<Rightarrow> checksum_map" where
  "insert_entry e [] = [e]"
| "insert_entry e (f # fs) = (if fst f > fst e then f # insert_entry e fs else e # f # fs)"

definition sort_entries :: "checksum_map \<Rightarrow> checksum_map" where
  "sort_entries es = rev (fold insert_entry es [])"

definition GenerateChecksumsForInventory ::
  "(string \<Rightarrow> string) \<Rightarrow> file_system \<Rightarrow> string \<Rightarrow> string list \<Rightarrow> checksum_fault + checksum_map" where
  "GenerateChecksumsForInventory sha fs d inventory =
     and_then (checksum_entries sha fs d inventory) (\<lambda>es. Inr (sort_entries es))"

definition checksum_line :: "string \<times> string \<Rightarrow> string" where
  "checksum_line e = snd e @ ''  '' @ fst e @ [CHR 0x0A]"

definition writeChecksums :: "string \<Rightarrow> checksum_map \<Rightarrow> file_system \<Rightarrow> file_system" where
  "writeChecksums d es fs = write_file d checksums_name (concat (map checksum_line es)) fs"

definition WriteChecksumsForInventory ::
  "(string \<Rightarrow> string) \<Rightarrow> string \<Rightarrow> string list \<Rightarrow> file_system \<Rightarrow> checksum_fault + file_system" where
  "WriteChecksumsForInventory sha d inventory fs =
     and_then (GenerateChecksumsForInventory sha fs d inventory) (\<lambda>es. Inr (writeChecksums d es fs))"

text \<open>The older writer takes the regular files of the directory and skips those it cannot read.\<close>

definition GenerateChecksums :: "(string \<Rightarrow> string) \<Rightarrow> file_system \<Rightarrow> string \<Rightarrow> checksum_fault + checksum_map" where
  "GenerateChecksums sha fs d =
     (case fs_dir fs d of
        None \<Rightarrow> Inl (Unreadable d)
      | Some es \<Rightarrow> Inr (sort_key fst
          (concat (map (\<lambda>(name, is_dir).
             if is_dir \<or> name = checksums_name then []
             else case fs_file fs (path_Join [d, name]) of None \<Rightarrow> [] | Some data \<Rightarrow> [(name, sha data)]) es))))"

definition WriteChecksums :: "(string \<Rightarrow> string) \<Rightarrow> string \<Rightarrow> file_system \<Rightarrow> checksum_fault + file_system" where
  "WriteChecksums sha d fs = and_then (GenerateChecksums sha fs d) (\<lambda>es. Inr (writeChecksums d es fs))"

subsection \<open>The inventory rules of verify\<close>

text \<open>
  What \<open>verify\<close> checks of the directory of a run before it reads the verdict: the paths of the inventory, the files
  that are there, and their checksums.
\<close>

datatype inventory_fault = EmptyPath | AbsolutePath string | TraversalPath string | HiddenPath string | RepeatedPath string
  | NoDirectory | DirectoryEntry string | ChecksumsNotListed | MissingFile string | UnlistedFile string | ChecksumFault checksum_fault

fun inventory_path_fault :: "string list \<Rightarrow> string list \<Rightarrow> inventory_fault option" where
  "inventory_path_fault seen [] = None"
| "inventory_path_fault seen (p # ps) =
     (if p = [] then Some EmptyPath
      else if has_prefix p ''/'' then Some (AbsolutePath p)
      else if str_contains p ''..'' then Some (TraversalPath p)
      else if has_prefix p ''.'' then Some (HiddenPath p)
      else if p \<in> set seen then Some (RepeatedPath p)
      else inventory_path_fault (p # seen) ps)"

definition provenance_sidecar :: string where "provenance_sidecar = ''canary-image-provenance.json''"

definition listing_fault :: "(string \<times> bool) list \<Rightarrow> string list \<Rightarrow> inventory_fault option" where
  "listing_fault entries inventory =
     (case find snd entries of
        Some e \<Rightarrow> Some (DirectoryEntry (fst e))
      | None \<Rightarrow>
          let actual = map fst entries
          in if checksums_name \<notin> set inventory then Some ChecksumsNotListed
             else case find (\<lambda>p. p \<notin> set actual) inventory of
                    Some p \<Rightarrow> Some (MissingFile p)
                  | None \<Rightarrow> map_option UnlistedFile (find (\<lambda>p. p \<noteq> provenance_sidecar \<and> p \<notin> set inventory) actual))"

definition compare_checksums :: "checksum_map \<Rightarrow> checksum_map \<Rightarrow> checksum_fault option" where
  "compare_checksums computed existing =
     (case find (\<lambda>(path, hash). map_of existing path \<noteq> Some hash) computed of
        Some (path, hash) \<Rightarrow> Some (if path \<in> fst ` set existing then Mismatch path else MissingEntry path)
      | None \<Rightarrow> map_option (\<lambda>e. UnexpectedEntry (fst e)) (find (\<lambda>e. fst e \<notin> fst ` set computed) existing))"

definition directory_checksum_fault :: "(string \<Rightarrow> string) \<Rightarrow> file_system \<Rightarrow> string \<Rightarrow> string list \<Rightarrow> checksum_fault option" where
  "directory_checksum_fault sha fs d inventory =
     (case GenerateChecksumsForInventory sha fs d inventory of
        Inl e \<Rightarrow> Some e
      | Inr computed \<Rightarrow>
          (case fs_file fs (path_Join [d, checksums_name]) of
             None \<Rightarrow> Some (Unreadable checksums_name)
           | Some data \<Rightarrow>
               (case ParseChecksumsFile data of Inl e \<Rightarrow> Some e | Inr existing \<Rightarrow> compare_checksums computed existing)))"

definition verify_inventory :: "(string \<Rightarrow> string) \<Rightarrow> file_system \<Rightarrow> string \<Rightarrow> string list \<Rightarrow> inventory_fault option" where
  "verify_inventory sha fs d inventory =
     (case inventory_path_fault [] inventory of
        Some e \<Rightarrow> Some e
      | None \<Rightarrow>
          (case fs_dir fs d of
             None \<Rightarrow> Some NoDirectory
           | Some entries \<Rightarrow>
               (case listing_fault entries inventory of
                  Some e \<Rightarrow> Some e
                | None \<Rightarrow> map_option ChecksumFault (directory_checksum_fault sha fs d inventory))))"

subsection \<open>The checksums of a matrix\<close>

definition canonicalMatrixArtifactInventory :: "string list" where
  "canonicalMatrixArtifactInventory = [''matrix-manifest.json'', ''matrix-cleanup.json'', ''matrix-verdict.json'']"

definition matrix_checksums_name :: string where "matrix_checksums_name = ''matrix-checksums.txt''"

fun matrix_hash_fault :: "(string \<Rightarrow> string) \<Rightarrow> file_system \<Rightarrow> string \<Rightarrow> checksum_map \<Rightarrow> string list \<Rightarrow> checksum_fault option" where
  "matrix_hash_fault sha fs d entries [] = None"
| "matrix_hash_fault sha fs d entries (name # names) =
     (case map_of entries name of
        None \<Rightarrow> Some (MissingEntry name)
      | Some expected \<Rightarrow>
          (case fs_file fs (path_Join [d, name]) of
             None \<Rightarrow> Some (Unreadable name)
           | Some data \<Rightarrow> if sha data \<noteq> expected then Some (Mismatch name) else matrix_hash_fault sha fs d entries names))"

definition matrix_entries_fault :: "checksum_map \<Rightarrow> checksum_fault option" where
  "matrix_entries_fault entries =
     (case find (\<lambda>n. n \<notin> fst ` set entries) canonicalMatrixArtifactInventory of
        Some n \<Rightarrow> Some (MissingEntry n)
      | None \<Rightarrow>
          (case find (\<lambda>e. fst e \<notin> set canonicalMatrixArtifactInventory) entries of
             Some e \<Rightarrow> Some (UnexpectedEntry (fst e))
           | None \<Rightarrow> if length entries \<noteq> length canonicalMatrixArtifactInventory then Some (EntryCount (length entries)) else None))"

definition ValidateMatrixChecksums :: "(string \<Rightarrow> string) \<Rightarrow> file_system \<Rightarrow> string \<Rightarrow> checksum_fault option" where
  "ValidateMatrixChecksums sha fs matrixDir =
     (case fs_file fs (path_Join [matrixDir, matrix_checksums_name]) of
        None \<Rightarrow> Some (Unreadable matrix_checksums_name)
      | Some data \<Rightarrow>
          (case ParseChecksumsFile data of
             Inl e \<Rightarrow> Some e
           | Inr entries \<Rightarrow>
               (case matrix_entries_fault entries of
                  Some e \<Rightarrow> Some e
                | None \<Rightarrow> matrix_hash_fault sha fs matrixDir entries canonicalMatrixArtifactInventory)))"

fun read_all :: "file_system \<Rightarrow> string \<Rightarrow> string list \<Rightarrow> checksum_fault + (string \<times> string) list" where
  "read_all fs d [] = Inr []"
| "read_all fs d (name # names) =
     (case fs_file fs (path_Join [d, name]) of
        None \<Rightarrow> Inl (Unreadable name)
      | Some data \<Rightarrow> and_then (read_all fs d names) (\<lambda>rs. Inr ((name, data) # rs)))"

text \<open>The three files are read in one order and written sorted by name.\<close>

definition ComputeMatrixChecksums :: "(string \<Rightarrow> string) \<Rightarrow> file_system \<Rightarrow> string \<Rightarrow> checksum_fault + string" where
  "ComputeMatrixChecksums sha fs matrixDir =
     and_then (read_all fs matrixDir [''matrix-manifest.json'', ''matrix-verdict.json'', ''matrix-cleanup.json'']) (\<lambda>files.
       let entries = sort_key fst (map (\<lambda>(name, data). (name, sha data)) files)
       in Inr (join_with [CHR 0x0A] (map (\<lambda>(name, hash). hash @ ''  '' @ name) entries) @ [CHR 0x0A]))"

text \<open>Every entry of the checksum file of a child run, against the file it names.\<close>

definition entry_fault :: "(string \<Rightarrow> string) \<Rightarrow> file_system \<Rightarrow> string \<Rightarrow> string \<times> string \<Rightarrow> checksum_fault option" where
  "entry_fault sha fs runDir e =
     (case fs_file fs (path_Join [runDir, fst e]) of
        None \<Rightarrow> Some (Unreadable (fst e))
      | Some data \<Rightarrow> if sha data \<noteq> snd e then Some (Mismatch (fst e)) else None)"

definition first_fault :: "'e option list \<Rightarrow> 'e option" where
  "first_fault es = (case dropWhile (\<lambda>e. e = None) es of [] \<Rightarrow> None | e # _ \<Rightarrow> e)"

definition verifyChildChecksums :: "(string \<Rightarrow> string) \<Rightarrow> file_system \<Rightarrow> string \<Rightarrow> checksum_fault option" where
  "verifyChildChecksums sha fs runDir =
     (case fs_file fs (path_Join [runDir, checksums_name]) of
        None \<Rightarrow> Some (Unreadable checksums_name)
      | Some data \<Rightarrow>
          (case ParseChecksumsFile data of
             Inl e \<Rightarrow> Some e
           | Inr checksums \<Rightarrow> first_fault (map (entry_fault sha fs runDir) checksums)))"

subsection \<open>The inventory of a child\<close>

definition CanonicalChildArtifactInventory :: "string list" where
  "CanonicalChildArtifactInventory = [''container-identity.json'', ''events.jsonl'', ''final-canary-state.json'',
     ''initial-canary-state.json'', ''manifest.json'', ''network-identity.json'', ''samples.csv'', ''verdict.json'',
     ''workload-result.json'']"

fun checksum_path_fault :: "string list \<Rightarrow> string list \<Rightarrow> inventory_fault option" where
  "checksum_path_fault seen [] = None"
| "checksum_path_fault seen (p # ps) =
     (if p = [] then Some EmptyPath
      else if p \<in> set seen then Some (RepeatedPath p)
      else if has_prefix p ''/'' then Some (AbsolutePath p)
      else if str_contains p ''..'' then Some (TraversalPath p)
      else checksum_path_fault (p # seen) ps)"

definition ValidateArtifactInventory :: "string list \<Rightarrow> inventory_fault option" where
  "ValidateArtifactInventory checksumPaths =
     (case checksum_path_fault [] checksumPaths of
        Some e \<Rightarrow> Some e
      | None \<Rightarrow>
          (case find (\<lambda>p. p \<notin> set checksumPaths) CanonicalChildArtifactInventory of
             Some p \<Rightarrow> Some (MissingFile p)
           | None \<Rightarrow> map_option UnlistedFile (find (\<lambda>p. p \<notin> set CanonicalChildArtifactInventory) checksumPaths)))"

end
