(* ===== verification/Lab_Matrix.thy ===== *)
theory Lab_Matrix
  imports Lab_Run Lab_Checksums
begin

section \<open>The verdict of a matrix of runs\<close>

text \<open>
  Models \<open>matrix.go\<close> and \<open>reconstruct.go\<close> of \<open>cmd/tovarisch-memory-lab\<close>, with the comparison of verdicts of
  \<open>matrix_verify.go\<close>: three runs, of the growing, the bounded and the descriptor canary, are executed by one
  controller, and the verdict on all three is reconstructed from the verified children.

  The manifests and verdicts of the runs are those of \<open>internal/evidence/writer.go\<close>. A value of type \<open>interface{}\<close>
  is the text \<open>json.Marshal\<close> gives for it, which is all the code looks at. The runs of a reconstruction carry a
  manifest and a verdict: \<open>VerifyDeclaredChildBundles\<close>, which builds them, refuses a child without, so the
  later tests for nil pointers are left out. A nil execution identity and a nil result in a stored verdict
  are kept: reading them is a panic, and the result is \<open>None\<close>.
\<close>

subsection \<open>Manifests and verdicts of single runs\<close>

record subject_identity =
  si_commit :: string
  si_tree :: string
  si_format :: string
  si_version :: string
  si_image_id :: string
  si_image_digest :: string
  si_controller_path :: string
  si_controller_sha :: string
  si_exec_hash :: string
  si_config_hash :: string

record host_identity =
  hi_release :: string
  hi_version :: string
  hi_cgroup :: string
  hi_status :: string

record docker_identity =
  dk_engine :: string
  dk_api :: string

record lab_configuration =
  lc_limits :: string
  lc_phases :: string
  lc_thresholds :: string

record image_identity =
  im_reference :: string
  im_id :: string
  im_digests :: "string list"
  im_digest_status :: string
  im_commit :: string
  im_tree :: string
  im_subtree :: string
  im_prebuild_sha :: string
  im_extracted_sha :: string
  im_revision_label :: string
  im_tree_label :: string
  im_subtree_label :: string
  im_sha_label :: string
  im_container_image :: string

record run_manifest =
  rm_schema :: string
  rm_run_id :: string
  rm_scenario :: string
  rm_started :: time
  rm_finished :: time
  rm_subject :: "subject_identity option"
  rm_controller :: string
  rm_host :: "host_identity option"
  rm_docker :: "docker_identity option"
  rm_config :: "lab_configuration option"
  rm_inventory :: "string list"
  rm_image :: "image_identity option"
  rm_metadata_path :: string

record child_verdict =
  cv_overall :: string
  cv_scenario :: string
  cv_scenario_valid :: bool
  cv_canaries_valid :: bool
  cv_memory :: string
  cv_resource :: string
  cv_semantic :: string
  cv_signals :: "signal_summary list"
  cv_provenance_valid :: bool
  cv_provenance_error :: string

subsection \<open>The documents of a matrix\<close>

record execution_identity =
  xi_commit :: string
  xi_tree :: string
  xi_format :: string
  xi_controller_pid :: int
  xi_controller_sha :: string
  xi_run_schema :: string
  xi_image_reference :: string
  xi_image_id :: string
  xi_digests :: "string list"
  xi_digest_status :: string
  xi_canary_commit :: string
  xi_canary_tree :: string
  xi_canary_subtree :: string
  xi_canary_sha :: string
  xi_canary_sha_label :: string
  xi_revision_label :: string
  xi_tree_label :: string
  xi_subtree_label :: string
  xi_kernel_release :: string
  xi_kernel_version :: string
  xi_cgroup :: string
  xi_docker_version :: string
  xi_docker_api :: string
  xi_thresholds :: "thresholds option"
  xi_phases :: string

record run_declaration =
  rd_index :: int
  rd_scenario :: string
  rd_run_id :: string
  rd_path :: string
  rd_checksums :: string

record matrix_manifest =
  mx_schema :: string
  mx_id :: string
  mx_started :: time
  mx_finished :: time
  mx_identity :: "execution_identity option"
  mx_runs :: "run_declaration list"

record scenario_result =
  sr_run_id :: string
  sr_verified :: bool
  sr_overall :: string
  sr_memory :: string
  sr_resource :: string
  sr_semantic :: string

record cross_run_checks =
  xc_commit_tree :: bool
  xc_controller_pid :: bool
  xc_controller_hash :: bool
  xc_schema :: bool
  xc_thresholds :: bool
  xc_phases :: bool
  xc_host :: bool
  xc_docker :: bool
  xc_image :: bool
  xc_binary :: bool
  xc_run_ids :: bool
  xc_processes :: bool
  xc_containers :: bool
  xc_order :: bool
  xc_disjoint :: bool
  xc_cleanup :: bool
  xc_passed :: int

record matrix_verdict =
  mv_id :: string
  mv_valid :: bool
  mv_results :: "string \<rightharpoonup> scenario_result option"
  mv_checks :: "cross_run_checks option"
  mv_total :: int
  mv_passed :: int
  mv_failed :: int

text \<open>A run whose files the child verifier accepted, with what is known of its cleanup.\<close>

datatype process_cleanup = ProcessGone | ProcessStillAlive | ProcessPIDReused | ProcessUnavailable

record verified_run =
  vr_run_id :: string
  vr_scenario :: string
  vr_index :: int
  vr_manifest :: run_manifest
  vr_verdict :: child_verdict
  vr_container_id :: string
  vr_container_name :: string
  vr_network_id :: string
  vr_network_name :: string
  vr_pid :: int
  vr_start :: nat
  vr_process :: process_cleanup
  vr_child_verified :: bool
  vr_cleanup_loaded :: bool
  vr_cleanup_valid :: bool

record container_record =
  cr_id :: string
  cr_name :: string
  cr_status :: string

record network_record =
  nr_id :: string
  nr_name :: string
  nr_status :: string

record process_record =
  pc_pid :: int
  pc_start :: nat
  pc_status :: string

record cleanup_record =
  cl_index :: int
  cl_scenario :: string
  cl_run_id :: string
  cl_container :: container_record
  cl_network :: network_record
  cl_process :: process_record

record cleanup_evidence =
  ce_schema :: string
  ce_matrix_id :: string
  ce_observed :: time
  ce_ownership :: string
  ce_runs :: "cleanup_record list"

subsection \<open>Canonical constants\<close>

definition SupportedSchemaVersions :: "string list" where "SupportedSchemaVersions = [''1.1.0'']"
definition SupportedMatrixSchemaVersions :: "string list" where "SupportedMatrixSchemaVersions = [''1.0.0'']"
definition SupportedCleanupSchemaVersions :: "string list" where "SupportedCleanupSchemaVersions = [''1.0.0'']"

definition CanonicalScenarioOrder :: "string list" where
  "CanonicalScenarioOrder = [''canary-growing'', ''canary-bounded'', ''canary-descriptor'']"

datatype run_fault = WrongIndex int | WrongRunID string | WrongScenario string | WrongPath string | WrongContainer string | WrongPID int
  | WrongStart nat | WrongNetwork string | ContainerStatus string | ProcessStatus string | NetworkStatus string | NoNetwork
  | RepeatedNetwork string | OtherNetwork string | NoRunID | RepeatedRunID string | NoSchema | WrongSchema string
  | NilBundle | NilManifest | NilVerdict | NotVerified | NoContainer | InvalidSubjectPID int | ZeroSubjectStart
  | ManifestRunID string | ManifestScenario string | VerdictScenario string

datatype matrix_fault = MatrixSchema string | ChildSchema string | RunCount nat | RunFault nat run_fault | CleanupSchema string
  | CleanupMatrix string | CleanupCount nat | NoObservationTime | ObservedTooEarly time | Ownership string | NoMatrixID
  | MissingMatrixFile string | MissingRuns | UnexpectedMatrixFiles "string list" | RunDirectoryCount nat | NoMatrixDirectory
  | MatrixChecksums checksum_fault | UnreadableDocument string | UndecodableDocument string | VerdictMismatch "string list"
  | EqualInvalid | InvalidMatrix

subsection \<open>Cross-run checks\<close>

definition ReconstructSameSchema :: "matrix_manifest \<Rightarrow> verified_run list \<Rightarrow> (matrix_fault + bool) option" where
  "ReconstructSameSchema manifest runs =
     (if mx_schema manifest \<notin> set SupportedMatrixSchemaVersions then Some (Inl (MatrixSchema (mx_schema manifest)))
      else case mx_identity manifest of
        None \<Rightarrow> None
      | Some identity \<Rightarrow>
          let declared = xi_run_schema identity; schemas = map (rm_schema \<circ> vr_manifest) runs
          in if declared \<notin> set SupportedSchemaVersions then Some (Inl (ChildSchema declared))
             else if length runs \<noteq> 3 then Some (Inl (RunCount (length runs)))
             else case find (\<lambda>i. schemas ! i = []) [0..<length schemas] of
               Some i \<Rightarrow> Some (Inl (RunFault i NoSchema))
             | None \<Rightarrow>
                 (case find (\<lambda>i. schemas ! i \<noteq> declared) [0..<length schemas] of
                    Some i \<Rightarrow> Some (Inl (RunFault i (WrongSchema (schemas ! i))))
                  | None \<Rightarrow>
                      if list_all (\<lambda>s. s = hd schemas) (tl schemas) then Some (Inr True)
                      else Some (Inl (ChildSchema (hd schemas)))))"

text \<open>Every manifest agrees with the reference on what \<open>key\<close> reads, and both have it.\<close>

definition same_as :: "run_manifest \<Rightarrow> (run_manifest \<Rightarrow> 'k option) \<Rightarrow> run_manifest list \<Rightarrow> bool" where
  "same_as ref key ms = list_all (\<lambda>m. key m \<noteq> None \<and> key ref \<noteq> None \<and> key m = key ref) ms"

text \<open>The values a check looks at are pairwise different.\<close>

definition unique_by :: "('r \<Rightarrow> 'k) \<Rightarrow> ('r \<Rightarrow> bool) \<Rightarrow> 'r list \<Rightarrow> bool" where
  "unique_by key present runs = distinct (map key (filter present runs))"

definition follows :: "run_manifest \<Rightarrow> run_manifest \<Rightarrow> bool" where
  "follows m n \<longleftrightarrow>
     \<not> (\<not> is_zero_time (rm_finished m) \<and> \<not> is_zero_time (rm_started n) \<and> rm_finished m > rm_started n)"

fun in_sequence :: "run_manifest list \<Rightarrow> bool" where
  "in_sequence (m # n # ms) = (follows m n \<and> in_sequence (n # ms))"
| "in_sequence _ = True"

definition cleanup_confirms :: "cleanup_record \<Rightarrow> verified_run \<Rightarrow> bool" where
  "cleanup_confirms rec run \<longleftrightarrow>
     cl_run_id rec = vr_run_id run \<and> cl_scenario rec = vr_scenario run
     \<and> cr_id (cl_container rec) \<noteq> [] \<and> cr_id (cl_container rec) = vr_container_id run \<and> cr_status (cl_container rec) = ''gone''
     \<and> pc_pid (cl_process rec) \<noteq> 0 \<and> pc_pid (cl_process rec) = vr_pid run \<and> pc_start (cl_process rec) = vr_start run
     \<and> pc_status (cl_process rec) \<in> {''gone'', ''pid_reused''}
     \<and> \<not> (vr_network_id run \<noteq> [] \<and> nr_id (cl_network rec) = []) \<and> nr_id (cl_network rec) = vr_network_id run
     \<and> (nr_id (cl_network rec) \<noteq> [] \<longrightarrow> nr_status (cl_network rec) = ''gone'')"

definition reconstructCleanupComplete :: "verified_run list \<Rightarrow> cleanup_evidence \<Rightarrow> bool" where
  "reconstructCleanupComplete runs cleanup \<longleftrightarrow>
     ce_schema cleanup \<noteq> [] \<and> ce_matrix_id cleanup \<noteq> [] \<and> length (ce_runs cleanup) = length runs
     \<and> list_all2 cleanup_confirms (ce_runs cleanup) runs"

definition CanonicalMatrixChecks :: "cross_run_checks \<Rightarrow> (string \<times> bool) list" where
  "CanonicalMatrixChecks c = [(''SameCommitTree'', xc_commit_tree c), (''SameControllerPID'', xc_controller_pid c),
     (''SameControllerHash'', xc_controller_hash c), (''SameSchema'', xc_schema c), (''SameThresholds'', xc_thresholds c),
     (''SamePhaseConfig'', xc_phases c), (''SameHostIdentity'', xc_host c), (''SameDockerIdentity'', xc_docker c),
     (''SameImageIdentity'', xc_image c), (''SameCanaryBinary'', xc_binary c), (''UniqueRunIDs'', xc_run_ids c),
     (''UniqueSubjectProcesses'', xc_processes c), (''UniqueContainerIDs'', xc_containers c), (''FixedOrder'', xc_order c),
     (''NonOverlapping'', xc_disjoint c), (''CleanupComplete'', xc_cleanup c)]"

definition CountCanonicalChecks :: "cross_run_checks \<Rightarrow> int \<times> int \<times> int" where
  "CountCanonicalChecks c =
     (let named = CanonicalMatrixChecks c; total = int (length named); passed = int (length (filter snd named))
      in (total, passed, total - passed))"

definition cross_run_facts :: "verified_run list \<Rightarrow> cleanup_evidence \<Rightarrow> bool \<Rightarrow> cross_run_checks" where
  "cross_run_facts runs cleanup sameSchema =
     (let ms = map vr_manifest runs; ref = hd ms
      in \<lparr>xc_commit_tree = same_as ref (\<lambda>m. map_option (\<lambda>s. (si_commit s, si_tree s)) (rm_subject m)) (tl ms),
          xc_controller_pid = list_all (\<lambda>m. rm_controller m = rm_controller ref) ms,
          xc_controller_hash = same_as ref (\<lambda>m. map_option si_controller_sha (rm_subject m)) ms,
          xc_schema = sameSchema,
          xc_thresholds = same_as ref (\<lambda>m. map_option lc_thresholds (rm_config m)) ms,
          xc_phases = same_as ref (\<lambda>m. map_option lc_phases (rm_config m)) ms,
          xc_host = same_as ref (\<lambda>m. map_option (\<lambda>h. (hi_release h, hi_cgroup h)) (rm_host m)) ms,
          xc_docker = same_as ref (\<lambda>m. map_option dk_engine (rm_docker m)) ms,
          xc_image = same_as ref (\<lambda>m. map_option im_id (rm_image m)) ms,
          xc_binary = same_as ref (\<lambda>m. map_option im_prebuild_sha (rm_image m)) ms,
          xc_run_ids = unique_by vr_run_id (\<lambda>_. True) runs,
          xc_processes = unique_by vr_pid (\<lambda>r. vr_pid r > 0) runs,
          xc_containers = unique_by vr_container_id (\<lambda>r. vr_container_id r \<noteq> []) runs,
          xc_order = (map vr_scenario runs = CanonicalScenarioOrder),
          xc_disjoint = in_sequence ms,
          xc_cleanup = reconstructCleanupComplete runs cleanup,
          xc_passed = 0\<rparr>)"

definition ReconstructCrossRunChecks ::
  "matrix_manifest \<Rightarrow> verified_run list \<Rightarrow> cleanup_evidence \<Rightarrow> (matrix_fault + cross_run_checks) option" where
  "ReconstructCrossRunChecks manifest runs cleanup =
     (if length runs \<noteq> 3 then Some (Inl (RunCount (length runs)))
      else case ReconstructSameSchema manifest runs of
        None \<Rightarrow> None
      | Some (Inl e) \<Rightarrow> Some (Inl e)
      | Some (Inr sameSchema) \<Rightarrow>
          let checks = cross_run_facts runs cleanup sameSchema; (total, passed, failed) = CountCanonicalChecks checks
          in Some (Inr (checks\<lparr>xc_passed := passed\<rparr>)))"

subsection \<open>The verdict\<close>

definition result_of :: "verified_run \<Rightarrow> scenario_result" where
  "result_of run = \<lparr>sr_run_id = vr_run_id run, sr_verified = vr_child_verified run, sr_overall = cv_overall (vr_verdict run),
     sr_memory = cv_memory (vr_verdict run), sr_resource = cv_resource (vr_verdict run), sr_semantic = cv_semantic (vr_verdict run)\<rparr>"

definition ReconstructScenarioResults :: "verified_run list \<Rightarrow> (string \<rightharpoonup> scenario_result)" where
  "ReconstructScenarioResults runs = fold (\<lambda>run results. results(vr_scenario run \<mapsto> result_of run)) runs Map.empty"

text \<open>The expected classification of every scenario: overall, memory, resource, semantic.\<close>

definition ExpectedScenarioClassifications :: "(string \<times> string \<times> string \<times> string \<times> string) list" where
  "ExpectedScenarioClassifications =
     [(''canary-growing'', ''growing'', ''growing'', ''stable'', ''stable''),
      (''canary-bounded'', ''stable'', ''stable'', ''stable'', ''stable''),
      (''canary-descriptor'', ''resource_growth'', ''stable'', ''resource_growth'', ''stable'')]"

definition verifyFourFieldClassifications :: "(string \<rightharpoonup> scenario_result) \<Rightarrow> bool" where
  "verifyFourFieldClassifications results =
     list_all (\<lambda>(scenario, overall, memory, resource, semantic).
        case results scenario of
          None \<Rightarrow> False
        | Some r \<Rightarrow> sr_overall r = overall \<and> sr_memory r = memory \<and> sr_resource r = resource \<and> sr_semantic r = semantic)
       ExpectedScenarioClassifications"

definition ReconstructMatrixVerdict ::
  "matrix_manifest \<Rightarrow> verified_run list \<Rightarrow> cleanup_evidence \<Rightarrow> (matrix_fault + matrix_verdict) option" where
  "ReconstructMatrixVerdict manifest runs cleanup =
     (case ReconstructCrossRunChecks manifest runs cleanup of
        None \<Rightarrow> None
      | Some (Inl e) \<Rightarrow> Some (Inl e)
      | Some (Inr checks) \<Rightarrow>
          let results = ReconstructScenarioResults runs; (total, passed, failed) = CountCanonicalChecks checks;
              allChildrenVerified = list_all vr_child_verified runs
          in Some (Inr \<lparr>mv_id = mx_id manifest,
               mv_valid = (allChildrenVerified \<and> failed = 0 \<and> verifyFourFieldClassifications results),
               mv_results = (\<lambda>s. map_option Some (results s)), mv_checks = Some checks,
               mv_total = total, mv_passed = passed, mv_failed = failed\<rparr>))"

subsection \<open>Comparing verdicts\<close>

record verdict_diff =
  df_path :: string
  df_stored :: string
  df_reconstructed :: string

definition diff_if :: "bool \<Rightarrow> string \<Rightarrow> string \<Rightarrow> string \<Rightarrow> verdict_diff list" where
  "diff_if differs path s r = (if differs then [\<lparr>df_path = path, df_stored = s, df_reconstructed = r\<rparr>] else [])"

definition text_diff :: "string \<Rightarrow> string \<Rightarrow> string \<Rightarrow> verdict_diff list" where
  "text_diff path s r = diff_if (s \<noteq> r) path s r"

definition bool_diff :: "string \<Rightarrow> bool \<Rightarrow> bool \<Rightarrow> verdict_diff list" where
  "bool_diff path s r = diff_if (s \<noteq> r) path (show_bool s) (show_bool r)"

definition int_diff :: "string \<Rightarrow> int \<Rightarrow> int \<Rightarrow> verdict_diff list" where
  "int_diff path s r = diff_if (s \<noteq> r) path (show_int s) (show_int r)"

definition result_diffs :: "string \<Rightarrow> scenario_result \<Rightarrow> scenario_result \<Rightarrow> verdict_diff list" where
  "result_diffs s sr rr =
     (let path = (\<lambda>f. ''scenario_results.'' @ s @ ''.'' @ f)
      in text_diff (path ''run_id'') (sr_run_id sr) (sr_run_id rr)
       @ bool_diff (path ''verified'') (sr_verified sr) (sr_verified rr)
       @ text_diff (path ''overall'') (sr_overall sr) (sr_overall rr)
       @ text_diff (path ''memory'') (sr_memory sr) (sr_memory rr)
       @ text_diff (path ''resource'') (sr_resource sr) (sr_resource rr)
       @ text_diff (path ''semantic'') (sr_semantic sr) (sr_semantic rr))"

text \<open>The results of one scenario. A key of the map may hold a nil pointer, and reading it is a panic.\<close>

definition scenario_diffs :: "matrix_verdict \<Rightarrow> matrix_verdict \<Rightarrow> string \<Rightarrow> verdict_diff list option" where
  "scenario_diffs stored recon s =
     (case (mv_results stored s, mv_results recon s) of
        (None, None) \<Rightarrow> Some []
      | (Some (Some sr), Some (Some rr)) \<Rightarrow> Some (result_diffs s sr rr)
      | (Some _, Some _) \<Rightarrow> None
      | (a, b) \<Rightarrow> Some (diff_if True (''scenario_results.'' @ s)
                    (''present='' @ show_bool (a \<noteq> None)) (''present='' @ show_bool (b \<noteq> None))))"

definition check_diffs :: "matrix_verdict \<Rightarrow> matrix_verdict \<Rightarrow> verdict_diff list" where
  "check_diffs stored recon =
     (case (mv_checks stored, mv_checks recon) of
        (Some a, Some b) \<Rightarrow>
          concat (map2 (\<lambda>x y. bool_diff (''cross_run_checks.'' @ fst x) (snd x) (snd y)) (CanonicalMatrixChecks a) (CanonicalMatrixChecks b))
      | _ \<Rightarrow> [])"

definition CompareVerdicts :: "matrix_verdict \<Rightarrow> matrix_verdict \<Rightarrow> verdict_diff list option" where
  "CompareVerdicts stored recon =
     (case those (map (scenario_diffs stored recon) CanonicalScenarioOrder) of
        None \<Rightarrow> None
      | Some ds \<Rightarrow> Some
          (text_diff ''matrix_id'' (mv_id stored) (mv_id recon)
           @ bool_diff ''matrix_valid'' (mv_valid stored) (mv_valid recon)
           @ int_diff ''checks_total'' (mv_total stored) (mv_total recon)
           @ int_diff ''checks_passed'' (mv_passed stored) (mv_passed recon)
           @ int_diff ''checks_failed'' (mv_failed stored) (mv_failed recon)
           @ concat ds @ check_diffs stored recon))"

text \<open>The second comparison is the first one, and tells whether both verdicts are equal but invalid.\<close>

definition CompareVerdictsComplete :: "matrix_verdict \<Rightarrow> matrix_verdict \<Rightarrow> (verdict_diff list \<times> bool) option" where
  "CompareVerdictsComplete stored recon =
     (case CompareVerdicts stored recon of
        None \<Rightarrow> None
      | Some found \<Rightarrow> Some (found, found = [] \<and> \<not> mv_valid stored \<and> \<not> mv_valid recon))"

definition FormatVerdictDiffs :: "verdict_diff list \<Rightarrow> string" where
  "FormatVerdictDiffs found =
     (if found = [] then []
      else join_with [CHR 0x0A] (''matrix verdict mismatch:''
             # map (\<lambda>d. ''  '' @ df_path d @ '': stored='' @ df_stored d @ '' reconstructed='' @ df_reconstructed d) found))"

end
