(* ===== verification/Lab_Cleanup.thy ===== *)
theory Lab_Cleanup
  imports Lab_Matrix
begin

section \<open>The cleanup of a matrix\<close>

text \<open>
  Models \<open>cleanup_observation.go\<close> and the cleanup rules of \<open>reconstruct.go\<close> and \<open>matrix_verify.go\<close>: whether the
  container, the network and the process of a run are gone is observed through \<open>docker inspect\<close> and \<open>/proc\<close>,
  recorded, validated, and bound to the verified runs. What a command of the Docker client and a read of \<open>/proc\<close>
  return are arguments.
\<close>

subsection \<open>Observing one object\<close>

record docker_result =
  dr_stdout :: string
  dr_stderr :: string
  dr_exit :: int
  dr_timed_out :: bool
  dr_wait_expired :: bool
  dr_stdout_overflow :: bool
  dr_stderr_overflow :: bool

text \<open>The statuses are strings of the document.\<close>

abbreviation ObjectGone :: string where "ObjectGone \<equiv> ''gone''"
abbreviation ObjectExists :: string where "ObjectExists \<equiv> ''exists''"
abbreviation ObjectUnavailable :: string where "ObjectUnavailable \<equiv> ''unavailable''"
abbreviation ProcessGoneCode :: string where "ProcessGoneCode \<equiv> ''gone''"
abbreviation ProcessPIDReusedCode :: string where "ProcessPIDReusedCode \<equiv> ''pid_reused''"
abbreviation ProcessStillAliveCode :: string where "ProcessStillAliveCode \<equiv> ''still_alive''"
abbreviation ProcessUnavailableCode :: string where "ProcessUnavailableCode \<equiv> ''unavailable''"

text \<open>\<open>strings.ToLower\<close> on the ASCII letters, which is all the searched text has.\<close>

definition to_lower :: "string \<Rightarrow> string" where
  "to_lower s = map lower_char s"

text \<open>The third part of a line split at the separator \<open>": "\<close>, if there is one.\<close>

definition third_part :: "string \<Rightarrow> string option" where
  "third_part line =
     (case split_once '': '' line of
        None \<Rightarrow> None
      | Some (a, b) \<Rightarrow> map_option snd (split_once '': '' b))"

definition names_absent :: "string \<Rightarrow> string \<Rightarrow> string \<Rightarrow> bool" where
  "names_absent phrase requestedID line \<longleftrightarrow>
     str_contains (to_lower line) phrase \<and> map_option TrimSpace (third_part line) = Some requestedID"

definition classify_absence :: "string \<Rightarrow> string \<Rightarrow> docker_result \<Rightarrow> bool" where
  "classify_absence phrase requestedID result \<longleftrightarrow>
     str_contains (to_lower (dr_stderr result)) phrase
     \<and> list_ex (names_absent phrase requestedID) (split_on CHR 0x0A (dr_stderr result))"

definition classifyContainerInspectAbsence :: "string \<Rightarrow> docker_result \<Rightarrow> bool" where
  "classifyContainerInspectAbsence = classify_absence ''no such container''"

definition classifyNetworkInspectAbsence :: "string \<Rightarrow> docker_result \<Rightarrow> bool" where
  "classifyNetworkInspectAbsence = classify_absence ''no such network''"

text \<open>The status of an object by its exact id; a command that could not be run is \<open>None\<close>.\<close>

definition inspect_status :: "(string \<Rightarrow> docker_result \<Rightarrow> bool) \<Rightarrow> string \<Rightarrow> docker_result option \<Rightarrow> string" where
  "inspect_status absent objectID reply =
     (case reply of
        None \<Rightarrow> ObjectUnavailable
      | Some result \<Rightarrow>
          if dr_timed_out result \<or> dr_wait_expired result \<or> dr_stdout_overflow result \<or> dr_stderr_overflow result
          then ObjectUnavailable
          else if dr_exit result \<noteq> 0 then (if absent objectID result then ObjectGone else ObjectUnavailable)
          else if TrimSpace (dr_stdout result) = [] then ObjectUnavailable
          else if TrimSpace (dr_stdout result) \<noteq> objectID then ObjectUnavailable
          else ObjectExists)"

type_synonym docker_runner = "string list \<Rightarrow> docker_result option"

definition ObserveContainerCleanup :: "docker_runner \<Rightarrow> string \<Rightarrow> container_record option" where
  "ObserveContainerCleanup docker containerID =
     (if containerID = [] then None
      else Some \<lparr>cr_id = containerID, cr_name = [],
             cr_status = inspect_status classifyContainerInspectAbsence containerID
               (docker [''container'', ''inspect'', ''--format={{.Id}}'', containerID])\<rparr>)"

definition ObserveNetworkCleanup :: "docker_runner \<Rightarrow> string \<Rightarrow> network_record option" where
  "ObserveNetworkCleanup docker networkID =
     (if networkID = [] then None
      else Some \<lparr>nr_id = networkID, nr_name = [],
             nr_status = inspect_status classifyNetworkInspectAbsence networkID
               (docker [''network'', ''inspect'', ''--format={{.Id}}'', networkID])\<rparr>)"

text \<open>
  \<open>/proc/PID/stat\<close>. The start time is the field with index 19 after the last parenthesis; a text that ends with
  the parenthesis makes the slice \<open>data[commEnd+2:]\<close> panic.
\<close>

datatype stat_read = StatData string | StatMissing | StatError

datatype stat_start = StatPanics | StatMalformed | StatStart nat

definition parseProcStatStartTime :: "string \<Rightarrow> stat_start" where
  "parseProcStatStartTime data =
     (if CHR '')'' \<notin> set data then StatMalformed
      else let after = rev (takeWhile (\<lambda>c. c \<noteq> CHR '')'') (rev data))
        in if after = [] then StatPanics
           else let fields = split_on CHR '' '' (tl after)
             in if length fields < 20 then StatMalformed
                else case ParseUint (TrimSpace (fields ! 19)) of None \<Rightarrow> StatMalformed | Some n \<Rightarrow> StatStart n)"

definition process_status :: "int \<Rightarrow> string \<Rightarrow> nat \<Rightarrow> process_record" where
  "process_status pid status start = \<lparr>pc_pid = pid, pc_start = start, pc_status = status\<rparr>"

definition ObserveProcessCleanup :: "(int \<Rightarrow> stat_read) \<Rightarrow> int \<Rightarrow> nat \<Rightarrow> process_record option" where
  "ObserveProcessCleanup stat pid expectedStart =
     (if pid \<le> 0 then Some (process_status pid ProcessUnavailableCode 0)
      else case stat pid of
        StatMissing \<Rightarrow> Some (process_status pid ProcessGoneCode expectedStart)
      | StatError \<Rightarrow> Some (process_status pid ProcessUnavailableCode 0)
      | StatData data \<Rightarrow>
          (case parseProcStatStartTime data of
             StatPanics \<Rightarrow> None
           | StatMalformed \<Rightarrow> Some (process_status pid ProcessUnavailableCode 0)
           | StatStart actualStart \<Rightarrow>
               if actualStart = expectedStart then Some (process_status pid ProcessStillAliveCode actualStart)
               else Some (process_status pid ProcessPIDReusedCode expectedStart)))"

text \<open>The check after each run of the matrix command reads the same file.\<close>

definition inspectProcessGone :: "(int \<Rightarrow> stat_read) \<Rightarrow> int \<Rightarrow> nat \<Rightarrow> process_cleanup option" where
  "inspectProcessGone stat pid expectedStart =
     (if pid \<le> 0 \<or> expectedStart = 0 then Some ProcessUnavailable
      else case stat pid of
        StatMissing \<Rightarrow> Some ProcessGone
      | StatError \<Rightarrow> Some ProcessUnavailable
      | StatData data \<Rightarrow>
          (case parseProcStatStartTime data of
             StatPanics \<Rightarrow> None
           | StatMalformed \<Rightarrow> Some ProcessUnavailable
           | StatStart actualStart \<Rightarrow> if actualStart = expectedStart then Some ProcessStillAlive else Some ProcessPIDReused))"

subsection \<open>Observing the runs\<close>

record cleanup_observation =
  co_run_id :: string
  co_scenario :: string
  co_container :: container_record
  co_network :: network_record
  co_process :: process_record

datatype cleanup_fault = ObservationCount nat | ObservedScenario nat string | EmptyContainerID nat | InvalidPID nat | ZeroStart nat
  | EmptyNetworkID nat | EmptyMatrixID | InvalidOwnership string | ZeroObservedAt | EmptyRunID nat | DuplicateRunID string
  | InvalidContainerStatus nat | InvalidProcessStatus nat | InvalidNetworkStatus nat | DuplicateNetworkID string
  | DifferentNetworkID nat | NoSharedNetwork

definition observe_run :: "docker_runner \<Rightarrow> (int \<Rightarrow> stat_read) \<Rightarrow> nat \<Rightarrow> verified_run \<Rightarrow> (cleanup_fault + cleanup_observation) option" where
  "observe_run docker stat i run =
     (if vr_scenario run \<noteq> CanonicalScenarioOrder ! i then Some (Inl (ObservedScenario i (vr_scenario run)))
      else if vr_container_id run = [] then Some (Inl (EmptyContainerID i))
      else if vr_pid run \<le> 0 then Some (Inl (InvalidPID i))
      else if vr_start run = 0 then Some (Inl (ZeroStart i))
      else case ObserveContainerCleanup docker (vr_container_id run) of
        None \<Rightarrow> Some (Inl (EmptyContainerID i))
      | Some container \<Rightarrow>
          (case ObserveNetworkCleanup docker (vr_network_id run) of
             None \<Rightarrow> Some (Inl (EmptyNetworkID i))
           | Some network \<Rightarrow>
               map_option (\<lambda>process. Inr \<lparr>co_run_id = vr_run_id run, co_scenario = vr_scenario run, co_container = container,
                   co_network = network, co_process = process\<rparr>)
                 (ObserveProcessCleanup stat (vr_pid run) (vr_start run))))"

fun observe_from :: "docker_runner \<Rightarrow> (int \<Rightarrow> stat_read) \<Rightarrow> nat \<Rightarrow> verified_run list \<Rightarrow> (cleanup_fault + cleanup_observation list) option" where
  "observe_from docker stat i [] = Some (Inr [])"
| "observe_from docker stat i (run # runs) =
     (case observe_run docker stat i run of
        None \<Rightarrow> None
      | Some (Inl e) \<Rightarrow> Some (Inl e)
      | Some (Inr obs) \<Rightarrow> map_option (\<lambda>r. and_then r (\<lambda>os. Inr (obs # os))) (observe_from docker stat (Suc i) runs))"

definition ObserveDeclaredRunCleanup :: "docker_runner \<Rightarrow> (int \<Rightarrow> stat_read) \<Rightarrow> verified_run list \<Rightarrow> (cleanup_fault + cleanup_observation list) option" where
  "ObserveDeclaredRunCleanup docker stat runs =
     (if length runs \<noteq> length CanonicalScenarioOrder then Some (Inl (ObservationCount (length runs)))
      else observe_from docker stat 0 runs)"

subsection \<open>Recording the observations\<close>

definition known_ownership :: "string \<Rightarrow> bool" where
  "known_ownership ownership \<longleftrightarrow> ownership = ''per_run'' \<or> ownership = ''matrix_shared''"

definition valid_object_status :: "string \<Rightarrow> bool" where
  "valid_object_status st \<longleftrightarrow> st \<in> {ObjectGone, ObjectExists, ObjectUnavailable}"

definition valid_process_status :: "string \<Rightarrow> bool" where
  "valid_process_status st \<longleftrightarrow> st \<in> {ProcessGoneCode, ProcessPIDReusedCode, ProcessStillAliveCode, ProcessUnavailableCode}"

definition fault_if :: "bool \<Rightarrow> 'e \<Rightarrow> 'e option" where
  "fault_if b e = (if b then Some e else None)"

definition BuildRunCleanupRecordFromObservation :: "cleanup_observation \<Rightarrow> cleanup_record" where
  "BuildRunCleanupRecordFromObservation obs =
     \<lparr>cl_index = 0, cl_scenario = co_scenario obs, cl_run_id = co_run_id obs, cl_container = co_container obs,
      cl_network = co_network obs, cl_process = co_process obs\<rparr>"

text \<open>The run ids and network ids seen so far, and the shared network id.\<close>

type_synonym seen_ids = "string list \<times> string list \<times> string"

definition observation_fault :: "string \<Rightarrow> nat \<Rightarrow> seen_ids \<Rightarrow> cleanup_observation \<Rightarrow> cleanup_fault option" where
  "observation_fault ownership i seen obs =
     (let (runIDs, networkIDs, shared) = seen; network = nr_id (co_network obs) in first_fault
        [fault_if (co_scenario obs \<noteq> CanonicalScenarioOrder ! i) (ObservedScenario i (co_scenario obs)),
         fault_if (co_run_id obs = []) (EmptyRunID i),
         fault_if (co_run_id obs \<in> set runIDs) (DuplicateRunID (co_run_id obs)),
         fault_if (cr_id (co_container obs) = []) (EmptyContainerID i),
         fault_if (\<not> valid_object_status (cr_status (co_container obs))) (InvalidContainerStatus i),
         fault_if (pc_pid (co_process obs) = 0) (InvalidPID i),
         fault_if (pc_start (co_process obs) = 0) (ZeroStart i),
         fault_if (\<not> valid_process_status (pc_status (co_process obs))) (InvalidProcessStatus i),
         fault_if (ownership = ''per_run'' \<and> network = []) (EmptyNetworkID i),
         fault_if (ownership = ''per_run'' \<and> network \<in> set networkIDs) (DuplicateNetworkID network),
         fault_if (ownership = ''per_run'' \<and> \<not> valid_object_status (nr_status (co_network obs))) (InvalidNetworkStatus i),
         fault_if (ownership = ''matrix_shared'' \<and> network \<noteq> [] \<and> shared \<noteq> [] \<and> network \<noteq> shared) (DifferentNetworkID i)])"

definition seen_after :: "string \<Rightarrow> seen_ids \<Rightarrow> cleanup_observation \<Rightarrow> seen_ids" where
  "seen_after ownership seen obs =
     (let (runIDs, networkIDs, shared) = seen; network = nr_id (co_network obs)
      in (co_run_id obs # runIDs, if ownership = ''per_run'' then network # networkIDs else networkIDs,
          if ownership = ''matrix_shared'' \<and> shared = [] then network else shared))"

fun record_observations :: "string \<Rightarrow> nat \<Rightarrow> seen_ids \<Rightarrow> cleanup_observation list \<Rightarrow> cleanup_fault + cleanup_record list \<times> string" where
  "record_observations ownership i seen [] = Inr ([], snd (snd seen))"
| "record_observations ownership i seen (obs # os) =
     (case observation_fault ownership i seen obs of
        Some e \<Rightarrow> Inl e
      | None \<Rightarrow> and_then (record_observations ownership (Suc i) (seen_after ownership seen obs) os) (\<lambda>(records, shared).
          Inr (BuildRunCleanupRecordFromObservation obs\<lparr>cl_index := int i\<rparr> # records, shared)))"

definition BuildObservedMatrixCleanupEvidence ::
  "string \<Rightarrow> string \<Rightarrow> cleanup_observation list \<Rightarrow> time \<Rightarrow> cleanup_fault + cleanup_evidence" where
  "BuildObservedMatrixCleanupEvidence matrixID ownership observations observedAt =
     (if length observations \<noteq> length CanonicalScenarioOrder then Inl (ObservationCount (length observations))
      else if matrixID = [] then Inl EmptyMatrixID
      else if \<not> known_ownership ownership then Inl (InvalidOwnership ownership)
      else if is_zero_time observedAt then Inl ZeroObservedAt
      else and_then (record_observations ownership 0 ([], [], []) observations) (\<lambda>(records, shared).
        if ownership = ''matrix_shared'' \<and> shared = [] then Inl NoSharedNetwork
        else case find (\<lambda>i. ownership = ''matrix_shared'' \<and> nr_id (co_network (observations ! i)) = shared
                          \<and> \<not> valid_object_status (nr_status (co_network (observations ! i)))) [0..<length observations] of
          Some i \<Rightarrow> Inl (InvalidNetworkStatus i)
        | None \<Rightarrow> Inr \<lparr>ce_schema = ''1.0.0'', ce_matrix_id = matrixID, ce_observed = observedAt, ce_ownership = ownership, ce_runs = records\<rparr>))"

text \<open>The record of runs that were bound before; a run without valid evidence has nothing to show.\<close>

definition containerCleanupStatus :: "verified_run \<Rightarrow> string" where
  "containerCleanupStatus run =
     (if \<not> vr_cleanup_loaded run \<or> \<not> vr_cleanup_valid run \<or> vr_container_id run = [] then ''unavailable'' else ''gone'')"

definition networkCleanupStatus :: "verified_run \<Rightarrow> string" where
  "networkCleanupStatus run =
     (if \<not> vr_cleanup_loaded run \<or> \<not> vr_cleanup_valid run \<or> vr_network_id run = [] then ''unavailable'' else ''gone'')"

definition processCleanupStatusString :: "process_cleanup \<Rightarrow> string" where
  "processCleanupStatusString st = (case st of ProcessGone \<Rightarrow> ''gone'' | ProcessPIDReused \<Rightarrow> ''pid_reused''
     | ProcessStillAlive \<Rightarrow> ''still_alive'' | ProcessUnavailable \<Rightarrow> ''unavailable'')"

definition BuildMatrixCleanupEvidence :: "string \<Rightarrow> string \<Rightarrow> verified_run list \<Rightarrow> time \<Rightarrow> cleanup_evidence" where
  "BuildMatrixCleanupEvidence matrixID ownership runs observedAt =
     \<lparr>ce_schema = ''1.0.0'', ce_matrix_id = matrixID, ce_observed = observedAt, ce_ownership = ownership,
      ce_runs = map (\<lambda>i. let run = runs ! i in
        \<lparr>cl_index = int i, cl_scenario = vr_scenario run, cl_run_id = vr_run_id run,
         cl_container = \<lparr>cr_id = vr_container_id run, cr_name = vr_container_name run, cr_status = containerCleanupStatus run\<rparr>,
         cl_network = \<lparr>nr_id = vr_network_id run, nr_name = vr_network_name run, nr_status = networkCleanupStatus run\<rparr>,
         cl_process = \<lparr>pc_pid = vr_pid run, pc_start = vr_start run, pc_status = processCleanupStatusString (vr_process run)\<rparr>\<rparr>)
        [0..<length runs]\<rparr>"

subsection \<open>Validating the record\<close>

text \<open>
  The network of a record under the two modes of ownership: the ids seen, and the shared id. The three validators differ in
  whether they ask for the network to be gone.
\<close>

definition network_step :: "bool \<Rightarrow> bool \<Rightarrow> string \<Rightarrow> string list \<times> string \<Rightarrow> network_record \<Rightarrow> run_fault + string list \<times> string" where
  "network_step gone_per_run gone_shared ownership ids network =
     (let (seen, shared) = ids
      in if ownership = ''per_run'' then
           (if nr_id network = [] then Inl NoNetwork
            else if nr_id network \<in> set seen then Inl (RepeatedNetwork (nr_id network))
            else if gone_per_run \<and> nr_status network \<noteq> ''gone'' then Inl (NetworkStatus (nr_status network))
            else Inr (nr_id network # seen, shared))
         else if ownership = ''matrix_shared'' then
           (if nr_id network = [] then Inl NoNetwork
            else if shared \<noteq> [] \<and> nr_id network \<noteq> shared then Inl (OtherNetwork (nr_id network))
            else if gone_shared \<and> nr_status network \<noteq> ''gone'' then Inl (NetworkStatus (nr_status network))
            else Inr (seen, if shared = [] then nr_id network else shared))
         else Inr ids)"

fun records_fault ::
  "(nat \<Rightarrow> cleanup_record \<Rightarrow> run_fault option) \<Rightarrow> (string list \<times> string \<Rightarrow> network_record \<Rightarrow> run_fault + string list \<times> string)
   \<Rightarrow> nat \<Rightarrow> string list \<times> string \<Rightarrow> cleanup_record list \<Rightarrow> matrix_fault option" where
  "records_fault check step i ids [] = None"
| "records_fault check step i ids (rec # recs) =
     (case check i rec of
        Some e \<Rightarrow> Some (RunFault i e)
      | None \<Rightarrow>
          (case step ids (cl_network rec) of
             Inl e \<Rightarrow> Some (RunFault i e)
           | Inr ids' \<Rightarrow> records_fault check step (Suc i) ids' recs))"

definition declared_record_fault :: "matrix_manifest \<Rightarrow> nat \<Rightarrow> cleanup_record \<Rightarrow> run_fault option" where
  "declared_record_fault manifest i rec = first_fault
     [fault_if (cl_index rec \<noteq> int i) (WrongIndex (cl_index rec)),
      fault_if (cl_run_id rec \<noteq> rd_run_id (mx_runs manifest ! i)) (WrongRunID (cl_run_id rec)),
      fault_if (cl_scenario rec \<noteq> rd_scenario (mx_runs manifest ! i)) (WrongScenario (cl_scenario rec)),
      fault_if (cl_run_id rec = []) (WrongRunID []),
      fault_if (cl_scenario rec = []) (WrongScenario []),
      fault_if (cr_id (cl_container rec) = []) (WrongContainer []),
      fault_if (pc_pid (cl_process rec) = 0) (WrongPID 0)]"

definition ValidateCleanupEvidence :: "cleanup_evidence \<Rightarrow> matrix_manifest \<Rightarrow> matrix_fault option" where
  "ValidateCleanupEvidence cleanup manifest = first_fault
     [fault_if (ce_schema cleanup \<notin> set SupportedCleanupSchemaVersions) (CleanupSchema (ce_schema cleanup)),
      fault_if (ce_matrix_id cleanup \<noteq> mx_id manifest) (CleanupMatrix (ce_matrix_id cleanup)),
      fault_if (length (ce_runs cleanup) \<noteq> length (mx_runs manifest)) (CleanupCount (length (ce_runs cleanup))),
      fault_if (\<not> known_ownership (ce_ownership cleanup)) (Ownership (ce_ownership cleanup)),
      records_fault (declared_record_fault manifest) (network_step False False (ce_ownership cleanup)) 0 ([], []) (ce_runs cleanup)]"

definition declared_run_fault :: "nat \<Rightarrow> run_declaration \<Rightarrow> verified_run \<Rightarrow> run_fault option" where
  "declared_run_fault i decl run = first_fault
     [fault_if (vr_run_id run \<noteq> rd_run_id decl) (WrongRunID (vr_run_id run)),
      fault_if (vr_scenario run \<noteq> rd_scenario decl) (WrongScenario (vr_scenario run)),
      fault_if (vr_index run \<noteq> int i) (WrongIndex (vr_index run)),
      fault_if (rd_index decl \<noteq> int i + 1) (WrongIndex (rd_index decl)),
      fault_if (rd_path decl \<noteq> path_Join [''runs'', rd_run_id decl]) (WrongPath (rd_path decl))]"

definition bound_record_fault :: "verified_run list \<Rightarrow> nat \<Rightarrow> cleanup_record \<Rightarrow> run_fault option" where
  "bound_record_fault runs i rec =
     (let run = runs ! i in first_fault
        [fault_if (cl_index rec \<noteq> int i) (WrongIndex (cl_index rec)),
         fault_if (cl_run_id rec \<noteq> vr_run_id run) (WrongRunID (cl_run_id rec)),
         fault_if (cl_scenario rec \<noteq> vr_scenario run) (WrongScenario (cl_scenario rec)),
         fault_if (cr_id (cl_container rec) \<noteq> vr_container_id run) (WrongContainer (cr_id (cl_container rec))),
         fault_if (pc_pid (cl_process rec) \<noteq> vr_pid run) (WrongPID (pc_pid (cl_process rec))),
         fault_if (pc_start (cl_process rec) \<noteq> vr_start run) (WrongStart (pc_start (cl_process rec))),
         fault_if (vr_network_id run \<noteq> [] \<and> nr_id (cl_network rec) \<noteq> vr_network_id run) (WrongNetwork (nr_id (cl_network rec))),
         fault_if (pc_status (cl_process rec) \<notin> {''gone'', ''pid_reused'', ''still_alive''}) (ProcessStatus (pc_status (cl_process rec))),
         fault_if (cr_status (cl_container rec) \<noteq> ''gone'') (ContainerStatus (cr_status (cl_container rec)))])"

definition ValidateCleanupBinding :: "matrix_manifest \<Rightarrow> verified_run list \<Rightarrow> cleanup_evidence \<Rightarrow> matrix_fault option" where
  "ValidateCleanupBinding manifest runs cleanup =
     (let expected = length CanonicalScenarioOrder in first_fault
        [fault_if (length runs \<noteq> expected) (RunCount (length runs)),
         fault_if (length (ce_runs cleanup) \<noteq> expected) (CleanupCount (length (ce_runs cleanup))),
         fault_if (ce_schema cleanup \<notin> set SupportedCleanupSchemaVersions) (CleanupSchema (ce_schema cleanup)),
         fault_if (ce_matrix_id cleanup \<noteq> mx_id manifest) (CleanupMatrix (ce_matrix_id cleanup)),
         fault_if (is_zero_time (ce_observed cleanup)) NoObservationTime,
         fault_if (mx_finished manifest > ce_observed cleanup) (ObservedTooEarly (ce_observed cleanup)),
         fault_if (\<not> known_ownership (ce_ownership cleanup)) (Ownership (ce_ownership cleanup)),
         fault_if (length (mx_runs manifest) \<noteq> expected) (RunCount (length (mx_runs manifest))),
         first_fault (map (\<lambda>i. map_option (RunFault i) (declared_run_fault i (mx_runs manifest ! i) (runs ! i))) [0..<expected]),
         records_fault (bound_record_fault runs) (network_step True True (ce_ownership cleanup)) 0 ([], []) (ce_runs cleanup)])"

definition cleanup_status_of :: "string \<Rightarrow> process_cleanup" where
  "cleanup_status_of st = (if st = ''gone'' then ProcessGone else if st = ''pid_reused'' then ProcessPIDReused
     else if st = ''still_alive'' then ProcessStillAlive else ProcessUnavailable)"

text \<open>All bindings are validated before the first run is changed, and the runs given are not changed.\<close>

definition BindVerifiedRunsToCleanup ::
  "matrix_manifest \<Rightarrow> verified_run list \<Rightarrow> cleanup_evidence \<Rightarrow> matrix_fault + verified_run list" where
  "BindVerifiedRunsToCleanup manifest runs cleanup =
     (case ValidateCleanupBinding manifest runs cleanup of
        Some e \<Rightarrow> Inl e
      | None \<Rightarrow> Inr (map2 (\<lambda>run rec. run\<lparr>vr_process := cleanup_status_of (pc_status (cl_process rec)), vr_cleanup_loaded := True,
                   vr_cleanup_valid := True\<rparr>) runs (ce_runs cleanup)))"

definition complete_record_fault :: "matrix_manifest \<Rightarrow> verified_run list \<Rightarrow> nat \<Rightarrow> cleanup_record \<Rightarrow> run_fault option" where
  "complete_record_fault manifest runs i rec =
     (let run = runs ! i in first_fault
        [fault_if (cl_index rec \<noteq> int i) (WrongIndex (cl_index rec)),
         fault_if (cl_run_id rec \<noteq> rd_run_id (mx_runs manifest ! i)) (WrongRunID (cl_run_id rec)),
         fault_if (cl_scenario rec \<noteq> rd_scenario (mx_runs manifest ! i)) (WrongScenario (cl_scenario rec)),
         fault_if (cr_id (cl_container rec) = []) (WrongContainer []),
         fault_if (pc_pid (cl_process rec) = 0) (WrongPID 0),
         fault_if (pc_start (cl_process rec) = 0) (WrongStart 0),
         fault_if (cr_id (cl_container rec) \<noteq> vr_container_id run) (WrongContainer (cr_id (cl_container rec))),
         fault_if (pc_pid (cl_process rec) \<noteq> vr_pid run) (WrongPID (pc_pid (cl_process rec))),
         fault_if (pc_start (cl_process rec) \<noteq> vr_start run) (WrongStart (pc_start (cl_process rec))),
         fault_if (cr_status (cl_container rec) \<noteq> ''gone'') (ContainerStatus (cr_status (cl_container rec))),
         fault_if (pc_status (cl_process rec) \<noteq> ''gone'' \<and> pc_status (cl_process rec) \<noteq> ''pid_reused'')
           (ProcessStatus (pc_status (cl_process rec)))])"

definition validateCompleteCleanupEvidence :: "matrix_manifest \<Rightarrow> verified_run list \<Rightarrow> cleanup_evidence \<Rightarrow> matrix_fault option" where
  "validateCompleteCleanupEvidence manifest runs cleanup = first_fault
     [fault_if (ce_schema cleanup \<notin> set SupportedCleanupSchemaVersions) (CleanupSchema (ce_schema cleanup)),
      fault_if (ce_matrix_id cleanup \<noteq> mx_id manifest) (CleanupMatrix (ce_matrix_id cleanup)),
      fault_if (is_zero_time (ce_observed cleanup)) NoObservationTime,
      fault_if (ce_observed cleanup < mx_finished manifest) (ObservedTooEarly (ce_observed cleanup)),
      fault_if (\<not> known_ownership (ce_ownership cleanup)) (Ownership (ce_ownership cleanup)),
      fault_if (length (ce_runs cleanup) \<noteq> length (mx_runs manifest)) (CleanupCount (length (ce_runs cleanup))),
      records_fault (complete_record_fault manifest runs) (network_step True False (ce_ownership cleanup)) 0 ([], []) (ce_runs cleanup)]"

subsection \<open>The identity of a network\<close>

record network_identity =
  ni_schema :: string
  ni_id :: string
  ni_name :: string

definition network_identity_name :: string where "network_identity_name = ''network-identity.json''"

definition WriteNetworkIdentity :: "(network_identity \<Rightarrow> string) \<Rightarrow> string \<Rightarrow> string \<Rightarrow> string \<Rightarrow> file_system \<Rightarrow> file_system" where
  "WriteNetworkIdentity encode runDir networkID networkName =
     write_file runDir network_identity_name (encode \<lparr>ni_schema = ''1.0.0'', ni_id = networkID, ni_name = networkName\<rparr>)"

definition ReadNetworkIdentity :: "(string \<Rightarrow> network_identity option) \<Rightarrow> file_system \<Rightarrow> string \<Rightarrow> matrix_fault + string \<times> string" where
  "ReadNetworkIdentity decode fs runDir =
     (case fs_file fs (path_Join [runDir, network_identity_name]) of
        None \<Rightarrow> Inl (UnreadableDocument network_identity_name)
      | Some data \<Rightarrow>
          (case decode data of
             None \<Rightarrow> Inl (UndecodableDocument network_identity_name)
           | Some identity \<Rightarrow>
               if ni_schema identity \<noteq> ''1.0.0'' then Inl (UndecodableDocument network_identity_name)
               else if ni_id identity = [] then Inl (UndecodableDocument network_identity_name)
               else Inr (ni_id identity, ni_name identity)))"

end
