(* ===== verification/Lab_Matrix_Verify.thy ===== *)
theory Lab_Matrix_Verify
  imports Lab_Cleanup
begin

section \<open>The verification of a matrix\<close>

text \<open>
  Models \<open>matrix_verify.go\<close> and the stages of \<open>matrix_cmd.go\<close> that decide: the directory of a matrix is checked for its
  files and checksums, its documents are decoded, every child run is verified from its own files, the cleanup record is
  bound to the children, the verdict is reconstructed and compared with the stored one.

  Decoding a document is an argument, as strict as \<open>encoding/json\<close> with unknown fields disallowed and a single
  document: \<open>None\<close> is any error. Running the scenarios, the git and image metadata and the Docker client are not
  modelled; what the producer does after the last run is (\<open>finish_matrix\<close>).
\<close>

record matrix_codec =
  dec_manifest :: "string \<Rightarrow> matrix_manifest option"
  dec_verdict :: "string \<Rightarrow> matrix_verdict option"
  dec_cleanup :: "string \<Rightarrow> cleanup_evidence option"
  dec_run_manifest :: "string \<Rightarrow> run_manifest option"
  dec_run_verdict :: "string \<Rightarrow> child_verdict option"
  dec_inspect :: "string \<Rightarrow> string option"
  dec_network :: "string \<Rightarrow> network_identity option"

definition read_document :: "file_system \<Rightarrow> string \<Rightarrow> string \<Rightarrow> (string \<Rightarrow> 'd option) \<Rightarrow> matrix_fault + 'd" where
  "read_document fs d name decode =
     (case fs_file fs (path_Join [d, name]) of
        None \<Rightarrow> Inl (UnreadableDocument name)
      | Some data \<Rightarrow> (case decode data of None \<Rightarrow> Inl (UndecodableDocument name) | Some x \<Rightarrow> Inr x))"

subsection \<open>The process of a run\<close>

text \<open>
  The process id and start time of a run from its sample file, by the columns of the header. The rows must agree; the
  reader neither trims nor counts fields, and the count is checked against the header row by row.
\<close>

datatype identity_fault = NoSampleFile | SampleSyntax csv_fault | NoSampleRows | RepeatedColumn string | MissingColumn string
  | RowLength nat | EmptyCell nat string | BadCell nat string | ChangedCell nat string | InvalidIdentity

fun scan_header :: "nat \<Rightarrow> nat option \<Rightarrow> nat option \<Rightarrow> string list \<Rightarrow> identity_fault + nat option \<times> nat option" where
  "scan_header i pidIdx startIdx [] = Inr (pidIdx, startIdx)"
| "scan_header i pidIdx startIdx (cell # cells) =
     (let col = TrimSpace cell
      in if col = ''process_pid'' then
           (if pidIdx \<noteq> None then Inl (RepeatedColumn col) else scan_header (Suc i) (Some i) startIdx cells)
         else if col = ''process_start_time'' then
           (if startIdx \<noteq> None then Inl (RepeatedColumn col) else scan_header (Suc i) pidIdx (Some i) cells)
         else scan_header (Suc i) pidIdx startIdx cells)"

fun identity_rows :: "nat \<Rightarrow> nat \<Rightarrow> nat \<Rightarrow> nat \<Rightarrow> (int \<times> nat) option \<Rightarrow> string list list \<Rightarrow> identity_fault + (int \<times> nat) option" where
  "identity_rows n pidIdx startIdx line known [] = Inr known"
| "identity_rows n pidIdx startIdx line known (row # rows) =
     (if length row \<noteq> n then Inl (RowLength line)
      else let pidStr = TrimSpace (row ! pidIdx); startStr = TrimSpace (row ! startIdx)
        in if pidStr = [] then Inl (EmptyCell line ''process_pid'')
           else if startStr = [] then Inl (EmptyCell line ''process_start_time'')
           else case Atoi pidStr of
             None \<Rightarrow> Inl (BadCell line ''process_pid'')
           | Some pid \<Rightarrow>
               (case ParseUint startStr of
                  None \<Rightarrow> Inl (BadCell line ''process_start_time'')
                | Some start \<Rightarrow>
                    if known \<noteq> None \<and> fst (the known) \<noteq> pid then Inl (ChangedCell line ''process_pid'')
                    else if known \<noteq> None \<and> snd (the known) \<noteq> start then Inl (ChangedCell line ''process_start_time'')
                    else identity_rows n pidIdx startIdx (Suc line) (Some (pid, start)) rows))"

text \<open>\<open>ReadAll\<close> stops at the first fault.\<close>

fun read_records :: "(csv_fault + string list) list \<Rightarrow> csv_fault + string list list" where
  "read_records [] = Inr []"
| "read_records (Inl e # rs) = Inl e"
| "read_records (Inr r # rs) = and_then (read_records rs) (\<lambda>rows. Inr (r # rows))"

definition sample_identity :: "string \<Rightarrow> identity_fault + int \<times> nat" where
  "sample_identity data =
     (case read_records (csv_records False False None data) of
        Inl e \<Rightarrow> Inl (SampleSyntax e)
      | Inr records \<Rightarrow>
          if length records < 2 then Inl NoSampleRows
          else let header = hd records
            in (case scan_header 0 None None header of
                  Inl e \<Rightarrow> Inl e
                | Inr (None, _) \<Rightarrow> Inl (MissingColumn ''process_pid'')
                | Inr (Some _, None) \<Rightarrow> Inl (MissingColumn ''process_start_time'')
                | Inr (Some pidIdx, Some startIdx) \<Rightarrow>
                    and_then (identity_rows (length header) pidIdx startIdx 2 None (tl records)) (\<lambda>known.
                      case known of
                        None \<Rightarrow> Inl InvalidIdentity
                      | Some (pid, start) \<Rightarrow> if pid \<le> 0 \<or> start = 0 then Inl InvalidIdentity else Inr (pid, start))))"

definition extractProcessIdentity :: "file_system \<Rightarrow> string \<Rightarrow> identity_fault + int \<times> nat" where
  "extractProcessIdentity fs samplesPath =
     (case fs_file fs samplesPath of None \<Rightarrow> Inl NoSampleFile | Some data \<Rightarrow> sample_identity data)"

subsection \<open>A child run\<close>

record child_bundle =
  cb_manifest :: "run_manifest option"
  cb_verdict :: "child_verdict option"
  cb_container_id :: string
  cb_container_name :: string
  cb_network_id :: string
  cb_network_name :: string
  cb_pid :: int
  cb_start :: nat
  cb_verified :: bool

datatype child_fault = NoRunDirectory | MissingChildFiles "string list" | ChildChecksums checksum_fault | ChildDocument matrix_fault
  | ScenarioDisagrees string string | ProvenanceInvalid string | ScenarioNotValid | CanariesNotValid | ChildIdentity identity_fault

definition child_files :: "string list" where
  "child_files = [''manifest.json'', ''verdict.json'', ''samples.csv'', ''events.jsonl'', ''container-inspect.json'', ''container-logs.txt'',
     ''initial-canary-state.json'', ''final-canary-state.json'', ''workload-result.json'', ''network-identity.json'', ''checksums.txt'']"

definition validateChildGeometry :: "file_system \<Rightarrow> string \<Rightarrow> child_fault option" where
  "validateChildGeometry fs runDir =
     (case fs_dir fs runDir of
        None \<Rightarrow> Some NoRunDirectory
      | Some entries \<Rightarrow>
          let missing = filter (\<lambda>name. (name, False) \<notin> set entries) child_files
          in fault_if (missing \<noteq> []) (MissingChildFiles missing))"

definition validateChildVerdictContract :: "child_verdict \<Rightarrow> child_fault option" where
  "validateChildVerdictContract v = first_fault
     [fault_if (\<not> cv_provenance_valid v) (ProvenanceInvalid (cv_provenance_error v)),
      fault_if (\<not> cv_scenario_valid v) ScenarioNotValid,
      fault_if (\<not> cv_canaries_valid v) CanariesNotValid]"

definition child_document :: "matrix_fault + 'd \<Rightarrow> ('d \<Rightarrow> child_fault + 'r) \<Rightarrow> child_fault + 'r" where
  "child_document doc k = (case doc of Inl e \<Rightarrow> Inl (ChildDocument e) | Inr x \<Rightarrow> k x)"

definition pass :: "'e option \<Rightarrow> 'e + 'r \<Rightarrow> 'e + 'r" where
  "pass fault k = (case fault of Some e \<Rightarrow> Inl e | None \<Rightarrow> k)"

definition verifyChildRunBundle :: "(string \<Rightarrow> string) \<Rightarrow> matrix_codec \<Rightarrow> file_system \<Rightarrow> string \<Rightarrow> child_fault + child_bundle" where
  "verifyChildRunBundle sha codec fs runDir =
     pass (validateChildGeometry fs runDir)
    (pass (map_option ChildChecksums (verifyChildChecksums sha fs runDir))
    (child_document (read_document fs runDir ''manifest.json'' (dec_run_manifest codec)) (\<lambda>manifest.
     child_document (read_document fs runDir ''verdict.json'' (dec_run_verdict codec)) (\<lambda>verdict.
     ensure (rm_scenario manifest = cv_scenario verdict) (ScenarioDisagrees (rm_scenario manifest) (cv_scenario verdict))
    (pass (validateChildVerdictContract verdict)
    (child_document (read_document fs runDir ''container-inspect.json'' (dec_inspect codec)) (\<lambda>containerID.
     case extractProcessIdentity fs (path_Join [runDir, ''samples.csv'']) of
       Inl e \<Rightarrow> Inl (ChildIdentity e)
     | Inr (pid, start) \<Rightarrow>
         child_document (ReadNetworkIdentity (dec_network codec) fs runDir) (\<lambda>(networkID, networkName).
           Inr \<lparr>cb_manifest = Some manifest, cb_verdict = Some verdict, cb_container_id = containerID, cb_container_name = [],
             cb_network_id = networkID, cb_network_name = networkName, cb_pid = pid, cb_start = start, cb_verified = True\<rparr>))))))))"

subsection \<open>The declared children\<close>

datatype bundle_fault = Matrix matrix_fault | Child string child_fault | Declaration nat run_fault | Cleanup cleanup_fault

definition declaration_fault :: "nat \<Rightarrow> string list \<Rightarrow> run_declaration \<Rightarrow> run_fault option" where
  "declaration_fault i seen decl = first_fault
     [fault_if (rd_scenario decl \<noteq> CanonicalScenarioOrder ! i) (WrongScenario (rd_scenario decl)),
      fault_if (rd_index decl \<noteq> int i + 1) (WrongIndex (rd_index decl)),
      fault_if (rd_run_id decl = []) NoRunID,
      fault_if (rd_run_id decl \<in> set seen) (RepeatedRunID (rd_run_id decl)),
      fault_if (rd_path decl \<noteq> path_Join [''runs'', rd_run_id decl]) (WrongPath (rd_path decl))]"

fun declarations_fault :: "nat \<Rightarrow> string list \<Rightarrow> run_declaration list \<Rightarrow> bundle_fault option" where
  "declarations_fault i seen [] = None"
| "declarations_fault i seen (decl # decls) =
     (case declaration_fault i seen decl of
        Some e \<Rightarrow> Some (Declaration i e)
      | None \<Rightarrow> declarations_fault (Suc i) (rd_run_id decl # seen) decls)"

text \<open>What a verified child must show before it is bound to its declaration.\<close>

definition bundle_run_fault :: "run_declaration \<Rightarrow> child_bundle \<Rightarrow> run_fault option" where
  "bundle_run_fault decl child = first_fault
     [fault_if (\<not> cb_verified child) NotVerified,
      fault_if (cb_manifest child = None) NilManifest,
      fault_if (cb_verdict child = None) NilVerdict,
      fault_if (cb_container_id child = []) NoContainer,
      fault_if (cb_network_id child = []) NoNetwork,
      fault_if (cb_pid child \<le> 0) (InvalidSubjectPID (cb_pid child)),
      fault_if (cb_start child = 0) ZeroSubjectStart,
      fault_if (rm_run_id (the (cb_manifest child)) \<noteq> rd_run_id decl) (ManifestRunID (rm_run_id (the (cb_manifest child)))),
      fault_if (rm_scenario (the (cb_manifest child)) \<noteq> rd_scenario decl) (ManifestScenario (rm_scenario (the (cb_manifest child)))),
      fault_if (cv_scenario (the (cb_verdict child)) \<noteq> rd_scenario decl) (VerdictScenario (cv_scenario (the (cb_verdict child))))]"

definition run_of_bundle :: "nat \<Rightarrow> run_declaration \<Rightarrow> child_bundle \<Rightarrow> verified_run" where
  "run_of_bundle i decl child =
     \<lparr>vr_run_id = rd_run_id decl, vr_scenario = rd_scenario decl, vr_index = int i, vr_manifest = the (cb_manifest child),
      vr_verdict = the (cb_verdict child), vr_container_id = cb_container_id child, vr_container_name = cb_container_name child,
      vr_network_id = cb_network_id child, vr_network_name = cb_network_name child, vr_pid = cb_pid child, vr_start = cb_start child,
      vr_process = ProcessGone, vr_child_verified = cb_verified child, vr_cleanup_loaded = False, vr_cleanup_valid = False\<rparr>"

type_synonym child_verifier = "string \<Rightarrow> child_fault + child_bundle option"

definition verify_declared :: "child_verifier \<Rightarrow> string \<Rightarrow> nat \<Rightarrow> run_declaration \<Rightarrow> bundle_fault + verified_run" where
  "verify_declared verifyChild runsDir i decl =
     (case verifyChild (path_Join [runsDir, rd_run_id decl]) of
        Inl e \<Rightarrow> Inl (Child (rd_scenario decl) e)
      | Inr None \<Rightarrow> Inl (Declaration i NilBundle)
      | Inr (Some child) \<Rightarrow>
          (case bundle_run_fault decl child of Some e \<Rightarrow> Inl (Declaration i e) | None \<Rightarrow> Inr (run_of_bundle i decl child)))"

fun verify_each :: "child_verifier \<Rightarrow> string \<Rightarrow> nat \<Rightarrow> run_declaration list \<Rightarrow> bundle_fault + verified_run list" where
  "verify_each verifyChild runsDir i [] = Inr []"
| "verify_each verifyChild runsDir i (decl # decls) =
     and_then (verify_declared verifyChild runsDir i decl) (\<lambda>run.
       and_then (verify_each verifyChild runsDir (Suc i) decls) (\<lambda>runs. Inr (run # runs)))"

definition VerifyDeclaredChildBundles :: "string \<Rightarrow> matrix_manifest \<Rightarrow> child_verifier \<Rightarrow> bundle_fault + verified_run list" where
  "VerifyDeclaredChildBundles matrixDir manifest verifyChild =
     (if length (mx_runs manifest) \<noteq> length CanonicalScenarioOrder then Inl (Matrix (RunCount (length (mx_runs manifest))))
      else pass (declarations_fault 0 [] (mx_runs manifest))
        (verify_each verifyChild (path_Join [matrixDir, ''runs'']) 0 (mx_runs manifest)))"

definition VerifyDeclaredChildRuns ::
  "string \<Rightarrow> matrix_manifest \<Rightarrow> cleanup_evidence \<Rightarrow> child_verifier \<Rightarrow> bundle_fault + verified_run list" where
  "VerifyDeclaredChildRuns matrixDir manifest cleanup verifyChild =
     and_then (VerifyDeclaredChildBundles matrixDir manifest verifyChild) (\<lambda>runs.
       map_sum Matrix id (BindVerifiedRunsToCleanup manifest runs cleanup))"

subsection \<open>The bundle\<close>

definition matrix_files :: "string list" where
  "matrix_files = matrix_checksums_name # canonicalMatrixArtifactInventory"

definition ValidateMatrixRootGeometry :: "file_system \<Rightarrow> string \<Rightarrow> matrix_fault option" where
  "ValidateMatrixRootGeometry fs matrixDir =
     (case fs_dir fs matrixDir of
        None \<Rightarrow> Some NoMatrixDirectory
      | Some entries \<Rightarrow>
          let unexpected = map fst (filter (\<lambda>(name, is_dir). if is_dir then name \<noteq> ''runs'' else name \<notin> set matrix_files) entries)
          in case find (\<lambda>name. (name, False) \<notin> set entries) matrix_files of
               Some name \<Rightarrow> Some (MissingMatrixFile name)
             | None \<Rightarrow>
                 if (''runs'', True) \<notin> set entries then Some MissingRuns
                 else if unexpected \<noteq> [] then Some (UnexpectedMatrixFiles unexpected)
                 else case fs_dir fs (path_Join [matrixDir, ''runs'']) of
                   None \<Rightarrow> Some MissingRuns
                 | Some runs \<Rightarrow> fault_if (length runs \<noteq> 3) (RunDirectoryCount (length runs)))"

definition validateMatrixManifestContract :: "matrix_manifest \<Rightarrow> bundle_fault option" where
  "validateMatrixManifestContract manifest =
     (if mx_schema manifest \<notin> set SupportedMatrixSchemaVersions then Some (Matrix (MatrixSchema (mx_schema manifest)))
      else if length (mx_runs manifest) \<noteq> 3 then Some (Matrix (RunCount (length (mx_runs manifest))))
      else first_fault (map (\<lambda>i. let decl = mx_runs manifest ! i in map_option (Declaration i) (first_fault
             [fault_if (rd_scenario decl \<noteq> CanonicalScenarioOrder ! i) (WrongScenario (rd_scenario decl)),
              fault_if (rd_index decl \<noteq> int i + 1) (WrongIndex (rd_index decl))])) [0..<3]))"

record matrix_result =
  mr_manifest :: matrix_manifest
  mr_stored :: matrix_verdict
  mr_reconstructed :: matrix_verdict
  mr_runs :: "verified_run list"
  mr_cleanup :: cleanup_evidence
  mr_children_verified :: bool
  mr_checksum_verified :: bool
  mr_cleanup_valid :: bool

definition matrix_document :: "file_system \<Rightarrow> string \<Rightarrow> string \<Rightarrow> (string \<Rightarrow> 'd option) \<Rightarrow> ('d \<Rightarrow> (bundle_fault + 'r) option) \<Rightarrow> (bundle_fault + 'r) option" where
  "matrix_document fs d name decode k =
     (case read_document fs d name decode of Inl e \<Rightarrow> Some (Inl (Matrix e)) | Inr x \<Rightarrow> k x)"

definition check :: "'e option \<Rightarrow> ('e + 'r) option \<Rightarrow> ('e + 'r) option" where
  "check fault k = (case fault of Some e \<Rightarrow> Some (Inl e) | None \<Rightarrow> k)"

text \<open>
  The end of the verification: the reconstruction and its comparison with the stored verdict. \<open>None\<close> is a panic. With
  the equal-invalid error the code also returns the result, which its callers drop.
\<close>

definition judge_matrix ::
  "matrix_manifest \<Rightarrow> matrix_verdict \<Rightarrow> cleanup_evidence \<Rightarrow> verified_run list \<Rightarrow> (bundle_fault + matrix_result) option" where
  "judge_matrix manifest stored cleanup runs =
     check (map_option Matrix (validateCompleteCleanupEvidence manifest runs cleanup))
       (case ReconstructMatrixVerdict manifest runs cleanup of
          None \<Rightarrow> None
        | Some (Inl e) \<Rightarrow> Some (Inl (Matrix e))
        | Some (Inr reconstructed) \<Rightarrow>
            (case CompareVerdictsComplete stored reconstructed of
               None \<Rightarrow> None
             | Some (found, equalInvalid) \<Rightarrow>
                 if equalInvalid then Some (Inl (Matrix EqualInvalid))
                 else if found \<noteq> [] then Some (Inl (Matrix (VerdictMismatch (map df_path found))))
                 else if \<not> mv_valid reconstructed then Some (Inl (Matrix InvalidMatrix))
                 else Some (Inr \<lparr>mr_manifest = manifest, mr_stored = stored, mr_reconstructed = reconstructed, mr_runs = runs,
                        mr_cleanup = cleanup, mr_children_verified = True, mr_checksum_verified = True, mr_cleanup_valid = True\<rparr>)))"

definition VerifyMatrixBundle ::
  "(string \<Rightarrow> string) \<Rightarrow> matrix_codec \<Rightarrow> file_system \<Rightarrow> string \<Rightarrow> child_verifier \<Rightarrow> (bundle_fault + matrix_result) option" where
  "VerifyMatrixBundle sha codec fs matrixDir verifyChild =
     check (map_option Matrix (ValidateMatrixRootGeometry fs matrixDir))
    (check (map_option (\<lambda>e. Matrix (MatrixChecksums e)) (ValidateMatrixChecksums sha fs matrixDir))
    (matrix_document fs matrixDir ''matrix-manifest.json'' (dec_manifest codec) (\<lambda>manifest.
     check (validateMatrixManifestContract manifest)
    (matrix_document fs matrixDir ''matrix-verdict.json'' (dec_verdict codec) (\<lambda>stored.
     matrix_document fs matrixDir ''matrix-cleanup.json'' (dec_cleanup codec) (\<lambda>cleanup.
     case VerifyDeclaredChildRuns matrixDir manifest cleanup verifyChild of
       Inl e \<Rightarrow> Some (Inl e)
     | Inr runs \<Rightarrow> judge_matrix manifest stored cleanup runs))))))"

definition default_child_verifier :: "(string \<Rightarrow> string) \<Rightarrow> matrix_codec \<Rightarrow> file_system \<Rightarrow> child_verifier" where
  "default_child_verifier sha codec fs runDir = map_sum id Some (verifyChildRunBundle sha codec fs runDir)"

text \<open>\<open>verify-matrix\<close> without its output: the verification and a second look at its result.\<close>

definition verifyMatrixCommand :: "(string \<Rightarrow> string) \<Rightarrow> matrix_codec \<Rightarrow> file_system \<Rightarrow> string \<Rightarrow> (bundle_fault + unit) option" where
  "verifyMatrixCommand sha codec fs matrixDir =
     (case VerifyMatrixBundle sha codec fs matrixDir (default_child_verifier sha codec fs) of
        None \<Rightarrow> None
      | Some (Inl e) \<Rightarrow> Some (Inl e)
      | Some (Inr res) \<Rightarrow>
          if \<not> mr_children_verified res then Some (Inl (Matrix InvalidMatrix))
          else if \<not> mr_cleanup_valid res then Some (Inl (Matrix InvalidMatrix))
          else if \<not> mv_valid (mr_reconstructed res) then Some (Inl (Matrix InvalidMatrix))
          else (case CompareVerdicts (mr_stored res) (mr_reconstructed res) of
                  None \<Rightarrow> None
                | Some found \<Rightarrow> Some (if found \<noteq> [] then Inl (Matrix (VerdictMismatch (map df_path found))) else Inr ())))"

subsection \<open>The producer\<close>

record matrix_encoder =
  enc_manifest :: "matrix_manifest \<Rightarrow> string"
  enc_verdict :: "matrix_verdict \<Rightarrow> string"
  enc_cleanup :: "cleanup_evidence \<Rightarrow> string"

text \<open>What the observer returns for the verified runs, and the clock.\<close>

type_synonym cleanup_observer = "verified_run list \<Rightarrow> (cleanup_fault + cleanup_observation list) option"

definition produceObservedCleanupEvidence ::
  "string \<Rightarrow> matrix_manifest \<Rightarrow> verified_run list \<Rightarrow> cleanup_observer \<Rightarrow> time \<Rightarrow> (bundle_fault + cleanup_evidence) option" where
  "produceObservedCleanupEvidence matrixID manifest runs observe now =
     (case observe runs of
        None \<Rightarrow> None
      | Some (Inl e) \<Rightarrow> Some (Inl (Cleanup e))
      | Some (Inr observations) \<Rightarrow>
          (case BuildObservedMatrixCleanupEvidence matrixID ''per_run'' observations now of
             Inl e \<Rightarrow> Some (Inl (Cleanup e))
           | Inr cleanup \<Rightarrow> check (map_option Matrix (ValidateCleanupEvidence cleanup manifest)) (Some (Inr cleanup))))"

text \<open>
  The end of \<open>matrixCommandWithDeps\<close>, from the manifest on: the children are verified, the cleanup is observed and bound,
  the cleanup record, the verdict and the checksums are written, and the bundle is verified. The file system is the one
  the command leaves, also when it fails.
\<close>

definition write_checksums_file :: "(string \<Rightarrow> string) \<Rightarrow> string \<Rightarrow> file_system \<Rightarrow> checksum_fault + file_system" where
  "write_checksums_file sha matrixDir fs =
     and_then (ComputeMatrixChecksums sha fs matrixDir) (\<lambda>text. Inr (write_file matrixDir matrix_checksums_name text fs))"

definition conclude_matrix ::
  "(string \<Rightarrow> string) \<Rightarrow> matrix_codec \<Rightarrow> matrix_encoder \<Rightarrow> string \<Rightarrow> matrix_verdict \<Rightarrow> file_system \<Rightarrow> file_system \<times> (bundle_fault + unit) option" where
  "conclude_matrix sha codec enc matrixDir verdict fs =
     (let fs1 = write_file matrixDir ''matrix-verdict.json'' (enc_verdict enc verdict) fs
      in case write_checksums_file sha matrixDir fs1 of
           Inl e \<Rightarrow> (fs1, Some (Inl (Matrix (MatrixChecksums e))))
         | Inr fs2 \<Rightarrow>
             (fs2, case VerifyMatrixBundle sha codec fs2 matrixDir (default_child_verifier sha codec fs2) of
                     None \<Rightarrow> None
                   | Some (Inl e) \<Rightarrow> Some (Inl e)
                   | Some (Inr res) \<Rightarrow>
                       if \<not> mr_children_verified res \<or> \<not> mr_cleanup_valid res \<or> \<not> mv_valid verdict
                       then Some (Inl (Matrix InvalidMatrix)) else Some (Inr ())))"

definition finish_matrix ::
  "(string \<Rightarrow> string) \<Rightarrow> matrix_codec \<Rightarrow> matrix_encoder \<Rightarrow> cleanup_observer \<Rightarrow> time \<Rightarrow> string \<Rightarrow> matrix_manifest \<Rightarrow> file_system
   \<Rightarrow> file_system \<times> (bundle_fault + unit) option" where
  "finish_matrix sha codec enc observe now matrixDir manifest fs =
     (let fs1 = write_file matrixDir ''matrix-manifest.json'' (enc_manifest enc manifest) fs
      in case VerifyDeclaredChildBundles matrixDir manifest (default_child_verifier sha codec fs1) of
           Inl e \<Rightarrow> (fs1, Some (Inl e))
         | Inr runs \<Rightarrow>
             (case produceObservedCleanupEvidence (mx_id manifest) manifest runs observe now of
                None \<Rightarrow> (fs1, None)
              | Some (Inl e) \<Rightarrow> (fs1, Some (Inl e))
              | Some (Inr cleanup) \<Rightarrow>
                  (case BindVerifiedRunsToCleanup manifest runs cleanup of
                     Inl e \<Rightarrow> (fs1, Some (Inl (Matrix e)))
                   | Inr bound \<Rightarrow>
                       let fs2 = write_file matrixDir ''matrix-cleanup.json'' (enc_cleanup enc cleanup) fs1
                       in case ReconstructMatrixVerdict manifest bound cleanup of
                            None \<Rightarrow> (fs2, None)
                          | Some (Inl e) \<Rightarrow> (fs2, Some (Inl (Matrix e)))
                          | Some (Inr verdict) \<Rightarrow> conclude_matrix sha codec enc matrixDir verdict fs2)))"

end
