(* ===== verification/Lab_Matrix_Sound.thy ===== *)
theory Lab_Matrix_Sound
  imports Lab_Matrix_Verify
begin

section \<open>What an accepted matrix shows\<close>

text \<open>
  The checks of the reconstructed verdict against a specification that does not mention them, the comparison of
  verdicts, and the guarantee of the verifier: an accepted directory holds three different runs whose children were verified,
  which agree on their identity, were judged as expected, and left nothing behind.
\<close>

subsection \<open>Faults and documents\<close>

lemma fault_if_None [simp]: "fault_if b e = None \<longleftrightarrow> \<not> b"
  by (simp add: fault_if_def)

lemma first_fault_simps [simp]:
  "first_fault [] = None"
  "first_fault (e # es) = None \<longleftrightarrow> e = None \<and> first_fault es = None"
  by (auto simp: first_fault_def)

lemma first_fault_None: "first_fault es = None \<longleftrightarrow> (\<forall>e \<in> set es. e = None)"
  by (induction es) simp_all

lemma pass_Inr [simp]: "pass fault k = Inr x \<longleftrightarrow> fault = None \<and> k = Inr x"
  by (simp add: pass_def split: option.split)

lemma check_accepts [simp]: "check fault k = Some (Inr x) \<longleftrightarrow> fault = None \<and> k = Some (Inr x)"
  by (simp add: check_def split: option.split)

lemma case_accepts:
  "(case r of Inl e \<Rightarrow> Some (Inl e) | Inr x \<Rightarrow> k x) = Some (Inr y) \<longleftrightarrow> (\<exists>x. r = Inr x \<and> k x = Some (Inr y))"
  by (simp split: sum.split)

lemma matrix_document_accepts:
  "matrix_document fs d name decode k = Some (Inr x) \<longleftrightarrow>
     (\<exists>doc. read_document fs d name decode = Inr doc \<and> k doc = Some (Inr x))"
  by (simp add: matrix_document_def split: sum.split)

subsection \<open>The specification of a verdict\<close>

text \<open>All the manifests have what \<open>key\<close> reads, and it is the same in all of them.\<close>

definition agree_on :: "('m \<Rightarrow> 'k option) \<Rightarrow> 'm list \<Rightarrow> bool" where
  "agree_on key ms \<longleftrightarrow> (\<exists>k. \<forall>m \<in> set ms. key m = Some k)"

lemma same_as_agree: "same_as m key (m # ms) \<longleftrightarrow> agree_on key (m # ms)"
  by (cases "key m") (auto simp: same_as_def agree_on_def list_all_iff)

lemma same_as_tl: "ms \<noteq> [] \<Longrightarrow> same_as m key ms \<longleftrightarrow> agree_on key (m # ms)"
  by (cases "key m"; cases ms) (auto simp: same_as_def agree_on_def list_all_iff)

text \<open>The verdict of a run is the one its scenario expects.\<close>

definition expected_verdict :: "verified_run \<Rightarrow> bool" where
  "expected_verdict run \<longleftrightarrow>
     (vr_scenario run, cv_overall (vr_verdict run), cv_memory (vr_verdict run), cv_resource (vr_verdict run),
      cv_semantic (vr_verdict run)) \<in> set ExpectedScenarioClassifications"

text \<open>The objects of a run are gone: the record names the objects of the run, and none of them was still there.\<close>

definition objects_gone :: "verified_run \<Rightarrow> cleanup_record \<Rightarrow> bool" where
  "objects_gone run rec \<longleftrightarrow>
     (cl_run_id rec, cl_scenario rec) = (vr_run_id run, vr_scenario run)
     \<and> vr_container_id run \<noteq> [] \<and> (cr_id (cl_container rec), cr_status (cl_container rec)) = (vr_container_id run, ''gone'')
     \<and> nr_id (cl_network rec) = vr_network_id run \<and> (vr_network_id run \<noteq> [] \<longrightarrow> nr_status (cl_network rec) = ''gone'')
     \<and> vr_pid run \<noteq> 0 \<and> (pc_pid (cl_process rec), pc_start (cl_process rec)) = (vr_pid run, vr_start run)
     \<and> pc_status (cl_process rec) \<in> {''gone'', ''pid_reused''}"

text \<open>What a valid matrix is.\<close>

definition matrix_spec :: "verified_run list \<Rightarrow> cleanup_evidence \<Rightarrow> bool" where
  "matrix_spec runs cleanup \<longleftrightarrow>
     (let ms = map vr_manifest runs
      in map vr_scenario runs = [''canary-growing'', ''canary-bounded'', ''canary-descriptor'']
       \<and> (\<forall>run \<in> set runs. vr_child_verified run \<and> expected_verdict run \<and> rm_schema (vr_manifest run) = ''1.1.0'')
       \<and> agree_on (\<lambda>m. map_option (\<lambda>s. (si_commit s, si_tree s, si_controller_sha s)) (rm_subject m)) ms
       \<and> agree_on (\<lambda>m. Some (rm_controller m)) ms
       \<and> agree_on (\<lambda>m. map_option (\<lambda>c. (lc_thresholds c, lc_phases c)) (rm_config m)) ms
       \<and> agree_on (\<lambda>m. map_option (\<lambda>h. (hi_release h, hi_cgroup h)) (rm_host m)) ms
       \<and> agree_on (\<lambda>m. map_option dk_engine (rm_docker m)) ms
       \<and> agree_on (\<lambda>m. map_option (\<lambda>i. (im_id i, im_prebuild_sha i)) (rm_image m)) ms
       \<and> distinct (map vr_run_id runs)
       \<and> distinct (filter (\<lambda>pid. pid > 0) (map vr_pid runs))
       \<and> distinct (filter (\<lambda>c. c \<noteq> []) (map vr_container_id runs))
       \<and> in_sequence ms
       \<and> ce_schema cleanup \<noteq> [] \<and> ce_matrix_id cleanup \<noteq> [] \<and> list_all2 objects_gone runs (ce_runs cleanup))"

lemma agree_on_pair:
  "agree_on (\<lambda>m. map_option (\<lambda>x. (f x, g x)) (h m)) ms \<longleftrightarrow>
   agree_on (\<lambda>m. map_option f (h m)) ms \<and> agree_on (\<lambda>m. map_option g (h m)) ms"
proof
  assume l: "agree_on (\<lambda>m. map_option f (h m)) ms \<and> agree_on (\<lambda>m. map_option g (h m)) ms"
  then obtain a b where "\<forall>m \<in> set ms. map_option f (h m) = Some a" "\<forall>m \<in> set ms. map_option g (h m) = Some b"
    by (auto simp: agree_on_def)
  then have "\<forall>m \<in> set ms. map_option (\<lambda>x. (f x, g x)) (h m) = Some (a, b)" by fastforce
  then show "agree_on (\<lambda>m. map_option (\<lambda>x. (f x, g x)) (h m)) ms" by (auto simp: agree_on_def)
qed (fastforce simp: agree_on_def)

lemma three_runs: "length runs = 3 \<Longrightarrow> \<exists>a b c. runs = [a, b, c]"
  by (auto simp: numeral_3_eq_3 length_Suc_conv)

lemma filter_all: "int (length (filter p xs)) = int (length xs) \<longleftrightarrow> list_all p xs"
  by (metis filter_id_conv length_filter_less list_all_iff nat_less_le of_nat_eq_iff)

lemma count_all: "CountCanonicalChecks c = (n, k, bad) \<Longrightarrow>
   n = 16 \<and> (bad = 0 \<longleftrightarrow> list_all snd (CanonicalMatrixChecks c))"
  using filter_all[of snd "CanonicalMatrixChecks c"]
  by (auto simp: CountCanonicalChecks_def Let_def) (simp_all add: CanonicalMatrixChecks_def)

lemma classifications_expected:
  assumes "map vr_scenario runs = [''canary-growing'', ''canary-bounded'', ''canary-descriptor'']"
  shows "verifyFourFieldClassifications (ReconstructScenarioResults runs) \<longleftrightarrow> (\<forall>run \<in> set runs. expected_verdict run)"
proof -
  have "length runs = 3" using arg_cong[OF assms, of length] by simp
  then obtain a b c where r: "runs = [a, b, c]" using three_runs by blast
  show ?thesis using assms unfolding r
    by (auto simp: verifyFourFieldClassifications_def ReconstructScenarioResults_def ExpectedScenarioClassifications_def
        expected_verdict_def result_of_def)
qed


lemma ReconstructSameSchema_True:
  "ReconstructSameSchema manifest runs = Some (Inr b) \<Longrightarrow> b \<and> (\<forall>run \<in> set runs. rm_schema (vr_manifest run) = ''1.1.0'')"
proof -
  let ?schemas = "map (rm_schema \<circ> vr_manifest) runs"
  assume a: "ReconstructSameSchema manifest runs = Some (Inr b)"
  then obtain identity where i: "mx_identity manifest = Some identity"
    by (auto simp: ReconstructSameSchema_def split: if_splits option.splits)
  have d: "xi_run_schema identity = ''1.1.0''" and b: "b"
    and f: "find (\<lambda>i. ?schemas ! i \<noteq> xi_run_schema identity) [0..<length ?schemas] = None"
    using a i by (auto simp: ReconstructSameSchema_def Let_def SupportedSchemaVersions_def split: if_splits option.splits)
  have "\<forall>i < length ?schemas. ?schemas ! i = ''1.1.0''" using f d by (auto simp: find_None_iff)
  then have "\<forall>s \<in> set ?schemas. s = ''1.1.0''" by (metis in_set_conv_nth)
  with b show ?thesis by simp
qed

lemma agree_on_Some: "agree_on (\<lambda>m. Some (f m)) (a # ms) \<longleftrightarrow> (\<forall>m \<in> set ms. f m = f a)"
  by (auto simp: agree_on_def)

lemma objects_gone_iff: "objects_gone run rec \<longleftrightarrow> cleanup_confirms rec run"
  unfolding objects_gone_def cleanup_confirms_def prod.inject
  by (rule iffI; elim conjE; intro conjI impI; simp)

lemma cleanup_complete_iff:
  "reconstructCleanupComplete runs cleanup \<longleftrightarrow>
     ce_schema cleanup \<noteq> [] \<and> ce_matrix_id cleanup \<noteq> [] \<and> list_all2 objects_gone runs (ce_runs cleanup)"
  unfolding reconstructCleanupComplete_def
  by (auto simp: objects_gone_iff[abs_def] list_all2_conv_all_nth)

lemma unique_by_map: "unique_by key (\<lambda>r. p (key r)) runs \<longleftrightarrow> distinct (filter p (map key runs))"
  by (simp add: unique_by_def filter_map comp_def)

lemma facts_agree:
  assumes "runs = [a, b, c]"
  shows "list_all snd (CanonicalMatrixChecks (cross_run_facts runs cleanup True)) \<and> (\<forall>run \<in> set runs. rm_schema (vr_manifest run) = ''1.1.0'')
     \<and> (\<forall>run \<in> set runs. vr_child_verified run \<and> expected_verdict run) \<longleftrightarrow> matrix_spec runs cleanup"
  unfolding cross_run_facts_def matrix_spec_def Let_def agree_on_pair cleanup_complete_iff[symmetric]
    unique_by_map[symmetric] unique_by_def[of vr_run_id]
  unfolding assms
  by (simp add: CanonicalMatrixChecks_def same_as_agree same_as_tl CanonicalScenarioOrder_def agree_on_pair agree_on_Some
      unique_by_def[of vr_run_id]) (rule iffI; elim conjE; intro conjI; assumption)


lemma ReconstructCrossRunChecks_Inr:
  assumes "ReconstructCrossRunChecks manifest runs cleanup = Some (Inr checks)"
  obtains a b c k where "runs = [a, b, c]" "checks = cross_run_facts runs cleanup True\<lparr>xc_passed := k\<rparr>"
    "\<forall>run \<in> set runs. rm_schema (vr_manifest run) = ''1.1.0''"
proof -
  have l: "length runs = 3" using assms by (auto simp: ReconstructCrossRunChecks_def split: if_splits)
  then obtain a b c where r: "runs = [a, b, c]" using three_runs by blast
  obtain same where s: "ReconstructSameSchema manifest runs = Some (Inr same)"
    using assms l by (auto simp: ReconstructCrossRunChecks_def split: option.splits sum.splits)
  from ReconstructSameSchema_True[OF s] have t: "same" "\<forall>run \<in> set runs. rm_schema (vr_manifest run) = ''1.1.0''" by simp_all
  obtain n k bad where q: "CountCanonicalChecks (cross_run_facts runs cleanup same) = (n, k, bad)" by (cases "CountCanonicalChecks (cross_run_facts runs cleanup same)")
  have "checks = cross_run_facts runs cleanup True\<lparr>xc_passed := k\<rparr>"
    using assms l s t(1) q by (simp add: ReconstructCrossRunChecks_def)
  from that[OF r this t(2)] show thesis .
qed

lemma passed_irrelevant: "CanonicalMatrixChecks (c\<lparr>xc_passed := k\<rparr>) = CanonicalMatrixChecks c"
  by (simp add: CanonicalMatrixChecks_def)

lemma ReconstructMatrixVerdict_Inr:
  assumes "ReconstructMatrixVerdict manifest runs cleanup = Some (Inr v)"
  obtains a b c k where "runs = [a, b, c]"
    "mv_checks v = Some (cross_run_facts runs cleanup True\<lparr>xc_passed := k\<rparr>)"
    "mv_id v = mx_id manifest" "mv_results v = (\<lambda>s. map_option Some (ReconstructScenarioResults runs s))"
    "mv_valid v \<longleftrightarrow> matrix_spec runs cleanup"
proof -
  obtain checks where c: "ReconstructCrossRunChecks manifest runs cleanup = Some (Inr checks)"
    using assms by (auto simp: ReconstructMatrixVerdict_def split: option.splits sum.splits)
  from ReconstructCrossRunChecks_Inr[OF c] obtain r0 r1 r2 k where r: "runs = [r0, r1, r2]"
    and k: "checks = cross_run_facts runs cleanup True\<lparr>xc_passed := k\<rparr>"
    and schema: "\<forall>run \<in> set runs. rm_schema (vr_manifest run) = ''1.1.0''" .
  obtain n p bad where q: "CountCanonicalChecks checks = (n, p, bad)" by (cases "CountCanonicalChecks checks")
  have "\<lparr>mv_id = mx_id manifest,
       mv_valid = (list_all vr_child_verified runs \<and> bad = 0 \<and> verifyFourFieldClassifications (ReconstructScenarioResults runs)),
       mv_results = (\<lambda>s. map_option Some (ReconstructScenarioResults runs s)), mv_checks = Some checks, mv_total = n, mv_passed = p, mv_failed = bad\<rparr> = v"
    using assms c q by (simp add: ReconstructMatrixVerdict_def Let_def)
  note v = this[symmetric]
  have bad: "bad = 0 \<longleftrightarrow> list_all snd (CanonicalMatrixChecks (cross_run_facts runs cleanup True))"
    using count_all[OF q] by (simp add: k passed_irrelevant)
  have order: "bad = 0 \<Longrightarrow> map vr_scenario runs = [''canary-growing'', ''canary-bounded'', ''canary-descriptor'']"
    unfolding bad by (simp add: CanonicalMatrixChecks_def cross_run_facts_def Let_def CanonicalScenarioOrder_def)
  have valid: "mv_valid v \<longleftrightarrow> list_all vr_child_verified runs \<and> bad = 0 \<and> verifyFourFieldClassifications (ReconstructScenarioResults runs)"
    by (simp add: v)
  have "mv_valid v \<longleftrightarrow> matrix_spec runs cleanup"
  proof (cases "bad = 0")
    case True
    show ?thesis unfolding facts_agree[OF r, symmetric] bad[symmetric] valid classifications_expected[OF order[OF True]] ball_conj_distrib
      by (simp only: True list_all_iff eqTrueI[OF schema] simp_thms)
  qed (simp add: facts_agree[OF r, symmetric] bad[symmetric] valid)
  moreover have "mv_checks v = Some (cross_run_facts runs cleanup True\<lparr>xc_passed := k\<rparr>)" "mv_id v = mx_id manifest"
    "mv_results v = (\<lambda>s. map_option Some (ReconstructScenarioResults runs s))" by (simp_all add: v k)
  ultimately show thesis using that[OF r] by blast
qed


subsection \<open>The children of a matrix\<close>

text \<open>A verified run shows what the verifier of the child found in the directory of its declaration.\<close>

definition shows_child :: "child_verifier \<Rightarrow> string \<Rightarrow> run_declaration \<Rightarrow> verified_run \<Rightarrow> bool" where
  "shows_child verifyChild runsDir decl run \<longleftrightarrow>
     (\<exists>child. verifyChild (path_Join [runsDir, rd_run_id decl]) = Inr (Some child) \<and> cb_verified child
       \<and> cb_manifest child = Some (vr_manifest run) \<and> cb_verdict child = Some (vr_verdict run)
       \<and> rm_run_id (vr_manifest run) = rd_run_id decl \<and> rm_scenario (vr_manifest run) = rd_scenario decl
       \<and> cv_scenario (vr_verdict run) = rd_scenario decl
       \<and> vr_run_id run = rd_run_id decl \<and> vr_scenario run = rd_scenario decl
       \<and> vr_container_id run = cb_container_id child \<and> vr_container_id run \<noteq> []
       \<and> vr_network_id run = cb_network_id child \<and> vr_network_id run \<noteq> []
       \<and> vr_pid run = cb_pid child \<and> vr_pid run > 0 \<and> vr_start run = cb_start child \<and> vr_start run > 0)"

lemma verify_declared_Inr:
  assumes "verify_declared verifyChild runsDir i decl = Inr run"
  shows "shows_child verifyChild runsDir decl run \<and> vr_child_verified run \<and> vr_index run = int i"
proof -
  obtain child where c: "verifyChild (path_Join [runsDir, rd_run_id decl]) = Inr (Some child)"
    using assms by (auto simp: verify_declared_def split: sum.splits option.splits)
  then have f: "bundle_run_fault decl child = None" and r: "run = run_of_bundle i decl child"
    using assms by (auto simp: verify_declared_def split: option.splits)
  have "shows_child verifyChild runsDir decl run"
    unfolding shows_child_def
  proof (rule exI[of _ child], intro conjI)
    show "verifyChild (path_Join [runsDir, rd_run_id decl]) = Inr (Some child)" by (rule c)
  qed (use f in \<open>auto simp: r run_of_bundle_def bundle_run_fault_def\<close>)
  moreover have "vr_child_verified run \<and> vr_index run = int i" using f by (simp add: r run_of_bundle_def bundle_run_fault_def)
  ultimately show ?thesis ..
qed

lemma verify_each_Inr:
  "verify_each verifyChild runsDir i decls = Inr runs \<Longrightarrow>
   list_all2 (shows_child verifyChild runsDir) decls runs \<and> list_all vr_child_verified runs
   \<and> map vr_index runs = map int [i..<i + length runs]"
proof (induction decls arbitrary: i runs)
  case (Cons decl decls)
  then obtain run rest where r: "verify_declared verifyChild runsDir i decl = Inr run" "verify_each verifyChild runsDir (Suc i) decls = Inr rest"
    "runs = run # rest" by (auto simp: and_then_Inr)
  have "[i..<i + length runs] = i # [Suc i..<Suc i + length rest]" unfolding r(3) list.size by (subst upt_conv_Cons) simp_all
  then show ?case using verify_declared_Inr[OF r(1)] Cons.IH[OF r(2)] by (simp add: r(3))
qed simp

lemma declared_children:
  assumes "VerifyDeclaredChildBundles d manifest verifyChild = Inr runs"
  shows "length runs = 3" "list_all2 (shows_child verifyChild (path_Join [d, ''runs''])) (mx_runs manifest) runs"
    "list_all vr_child_verified runs" "map vr_index runs = [0, 1, 2]" "declarations_fault 0 [] (mx_runs manifest) = None"
proof -
  have v: "verify_each verifyChild (path_Join [d, ''runs'']) 0 (mx_runs manifest) = Inr runs"
    and l: "length (mx_runs manifest) = 3" and f: "declarations_fault 0 [] (mx_runs manifest) = None"
    using assms by (auto simp: VerifyDeclaredChildBundles_def CanonicalScenarioOrder_def split: if_splits)
  note w = verify_each_Inr[OF v]
  from w show "list_all2 (shows_child verifyChild (path_Join [d, ''runs''])) (mx_runs manifest) runs" "list_all vr_child_verified runs" by simp_all
  then show n: "length runs = 3" using l by (simp add: list_all2_lengthD)
  have "map int [0..<0 + 3] = [0, 1, 2]" by (simp add: upt_rec)
  with w n show "map vr_index runs = [0, 1, 2]" by simp
  show "declarations_fault 0 [] (mx_runs manifest) = None" by (rule f)
qed

definition bind_run :: "verified_run \<Rightarrow> cleanup_record \<Rightarrow> verified_run" where
  "bind_run run rec = run\<lparr>vr_process := cleanup_status_of (pc_status (cl_process rec)), vr_cleanup_loaded := True, vr_cleanup_valid := True\<rparr>"

lemma bind_run_fields [simp]:
  "vr_run_id (bind_run run rec) = vr_run_id run" "vr_scenario (bind_run run rec) = vr_scenario run"
  "vr_manifest (bind_run run rec) = vr_manifest run" "vr_verdict (bind_run run rec) = vr_verdict run"
  "vr_container_id (bind_run run rec) = vr_container_id run" "vr_network_id (bind_run run rec) = vr_network_id run"
  "vr_pid (bind_run run rec) = vr_pid run" "vr_start (bind_run run rec) = vr_start run"
  "vr_child_verified (bind_run run rec) = vr_child_verified run" "vr_index (bind_run run rec) = vr_index run"
  "shows_child verifyChild runsDir decl (bind_run run rec) = shows_child verifyChild runsDir decl run"
  by (simp_all add: bind_run_def shows_child_def)

lemma BindVerifiedRunsToCleanup_Inr:
  "BindVerifiedRunsToCleanup manifest runs cleanup = Inr bound \<longleftrightarrow>
   ValidateCleanupBinding manifest runs cleanup = None \<and> bound = map2 bind_run runs (ce_runs cleanup)"
  by (auto simp: BindVerifiedRunsToCleanup_def bind_run_def split: option.split)

lemma bound_children:
  assumes "VerifyDeclaredChildRuns d manifest cleanup verifyChild = Inr bound"
  obtains runs where "VerifyDeclaredChildBundles d manifest verifyChild = Inr runs" "ValidateCleanupBinding manifest runs cleanup = None"
    "bound = map2 bind_run runs (ce_runs cleanup)" "length (ce_runs cleanup) = 3"
    "list_all2 (shows_child verifyChild (path_Join [d, ''runs''])) (mx_runs manifest) bound"
proof -
  obtain runs where r: "VerifyDeclaredChildBundles d manifest verifyChild = Inr runs"
    and b: "BindVerifiedRunsToCleanup manifest runs cleanup = Inr bound"
    using assms by (auto simp: VerifyDeclaredChildRuns_def and_then_Inr) (metis Inl_Inr_False isl_map_sum map_sum_sel(2) sum.collapse(2) sum.disc(2) sum.sel(2) id_apply)
  note d = declared_children[OF r]
  have l: "length (ce_runs cleanup) = 3" and v: "ValidateCleanupBinding manifest runs cleanup = None"
    and m: "bound = map2 bind_run runs (ce_runs cleanup)"
    using b by (auto simp: BindVerifiedRunsToCleanup_Inr ValidateCleanupBinding_def CanonicalScenarioOrder_def Let_def)
  have "list_all2 (shows_child verifyChild (path_Join [d, ''runs''])) (mx_runs manifest) bound"
    using d(1,2) l unfolding m by (auto simp: list_all2_conv_all_nth)
  with that r v m l show thesis by blast
qed


subsection \<open>What the comparison of verdicts shows\<close>

lemma diff_if_Nil [simp]: "diff_if b path s r = [] \<longleftrightarrow> \<not> b"
  by (simp add: diff_if_def)

lemma diffs_Nil [simp]:
  "text_diff path s r = [] \<longleftrightarrow> s = r" "bool_diff path x y = [] \<longleftrightarrow> x = y" "int_diff path i j = [] \<longleftrightarrow> i = j"
  by (simp_all add: text_diff_def bool_diff_def int_diff_def)

lemma result_diffs_Nil [simp]: "result_diffs s sr rr = [] \<longleftrightarrow> sr = rr"
  by (cases sr; cases rr) (simp add: result_diffs_def Let_def)

lemma scenario_diffs_Nil:
  "scenario_diffs stored recon s = Some [] \<longleftrightarrow>
   mv_results stored s = mv_results recon s \<and> mv_results stored s \<noteq> Some None"
  by (cases "mv_results stored s"; cases "mv_results recon s")
     (auto simp: scenario_diffs_def split: option.splits)

lemma check_diffs_Nil:
  "check_diffs stored recon = [] \<longleftrightarrow>
   (case (mv_checks stored, mv_checks recon) of
      (Some a, Some b) \<Rightarrow> CanonicalMatrixChecks a = CanonicalMatrixChecks b | _ \<Rightarrow> True)"
  by (auto simp: check_diffs_def CanonicalMatrixChecks_def split: option.split)

lemma CompareVerdicts_Nil:
  "CompareVerdicts stored recon = Some [] \<longleftrightarrow>
     mv_id stored = mv_id recon \<and> mv_valid stored = mv_valid recon \<and> mv_total stored = mv_total recon
     \<and> mv_passed stored = mv_passed recon \<and> mv_failed stored = mv_failed recon
     \<and> (\<forall>s \<in> set CanonicalScenarioOrder. mv_results stored s = mv_results recon s \<and> mv_results stored s \<noteq> Some None)
     \<and> check_diffs stored recon = []"
proof -
  have "(\<exists>ds. those (map (scenario_diffs stored recon) CanonicalScenarioOrder) = Some ds \<and> concat ds = []) \<longleftrightarrow>
    (\<forall>s \<in> set CanonicalScenarioOrder. scenario_diffs stored recon s = Some [])"
    by (auto simp: CanonicalScenarioOrder_def split: option.splits)
  then show ?thesis unfolding scenario_diffs_Nil[symmetric]
    by (cases "those (map (scenario_diffs stored recon) CanonicalScenarioOrder)") (auto simp: CompareVerdicts_def)
qed

lemma judge_matrix_Inr:
  "judge_matrix manifest stored cleanup runs = Some (Inr res) \<longleftrightarrow>
   validateCompleteCleanupEvidence manifest runs cleanup = None
   \<and> (\<exists>recon. ReconstructMatrixVerdict manifest runs cleanup = Some (Inr recon) \<and> mv_valid recon \<and> CompareVerdicts stored recon = Some []
        \<and> res = \<lparr>mr_manifest = manifest, mr_stored = stored, mr_reconstructed = recon, mr_runs = runs, mr_cleanup = cleanup,
                 mr_children_verified = True, mr_checksum_verified = True, mr_cleanup_valid = True\<rparr>)"
  by (auto simp: judge_matrix_def CompareVerdictsComplete_def split: option.splits sum.splits if_splits)

lemma VerifyMatrixBundle_Inr:
  "VerifyMatrixBundle sha codec fs d verifyChild = Some (Inr res) \<longleftrightarrow>
   ValidateMatrixRootGeometry fs d = None \<and> ValidateMatrixChecksums sha fs d = None
   \<and> (\<exists>manifest stored cleanup runs.
        read_document fs d ''matrix-manifest.json'' (dec_manifest codec) = Inr manifest
        \<and> validateMatrixManifestContract manifest = None
        \<and> read_document fs d ''matrix-verdict.json'' (dec_verdict codec) = Inr stored
        \<and> read_document fs d ''matrix-cleanup.json'' (dec_cleanup codec) = Inr cleanup
        \<and> VerifyDeclaredChildRuns d manifest cleanup verifyChild = Inr runs
        \<and> judge_matrix manifest stored cleanup runs = Some (Inr res))"
  unfolding VerifyMatrixBundle_def check_accepts matrix_document_accepts case_accepts option.map_disc_iff by blast


subsection \<open>An accepted matrix\<close>

lemma matrix_hash_fault_None:
  "matrix_hash_fault sha fs d entries names = None \<Longrightarrow> name \<in> set names \<Longrightarrow>
   \<exists>data. fs_file fs (path_Join [d, name]) = Some data \<and> map_of entries name = Some (sha data)"
  by (induction names) (auto split: option.splits if_splits)

lemma matrix_checksums_hold:
  assumes "ValidateMatrixChecksums sha fs d = None" "name \<in> set canonicalMatrixArtifactInventory"
  shows "\<exists>body entries data. fs_file fs (path_Join [d, matrix_checksums_name]) = Some body \<and> ParseChecksumsFile body = Inr entries
     \<and> fs_file fs (path_Join [d, name]) = Some data \<and> map_of entries name = Some (sha data)"
  using assms matrix_hash_fault_None[of sha fs d _ canonicalMatrixArtifactInventory name]
  by (auto simp: ValidateMatrixChecksums_def split: option.splits sum.splits)

lemma cleanup_after_finish:
  "validateCompleteCleanupEvidence manifest runs cleanup = None \<Longrightarrow> mx_finished manifest \<le> ce_observed cleanup \<and> ce_observed cleanup \<noteq> 0"
  by (auto simp: validateCompleteCleanupEvidence_def is_zero_time_def)

lemma CompareVerdicts_valid: "CompareVerdicts stored recon = Some [] \<Longrightarrow> mv_valid stored = mv_valid recon"
  by (simp add: CompareVerdicts_Nil)

text \<open>The checksum file records the three documents as they are.\<close>

definition documents_recorded :: "(string \<Rightarrow> string) \<Rightarrow> file_system \<Rightarrow> string \<Rightarrow> bool" where
  "documents_recorded sha fs d \<longleftrightarrow>
     (\<forall>name \<in> set canonicalMatrixArtifactInventory. \<exists>body entries data.
        fs_file fs (path_Join [d, matrix_checksums_name]) = Some body \<and> ParseChecksumsFile body = Inr entries
        \<and> fs_file fs (path_Join [d, name]) = Some data \<and> map_of entries name = Some (sha data))"

lemma accepted_shows:
  assumes "VerifyMatrixBundle sha codec fs d verifyChild = Some (Inr res)"
  shows "matrix_spec (mr_runs res) (mr_cleanup res)
    \<and> list_all2 (shows_child verifyChild (path_Join [d, ''runs''])) (mx_runs (mr_manifest res)) (mr_runs res)
    \<and> mx_finished (mr_manifest res) \<le> ce_observed (mr_cleanup res)
    \<and> mv_valid (mr_stored res) \<and> documents_recorded sha fs d"
proof -
  obtain manifest stored cleanup runs where v: "VerifyDeclaredChildRuns d manifest cleanup verifyChild = Inr runs"
    "judge_matrix manifest stored cleanup runs = Some (Inr res)" "ValidateMatrixChecksums sha fs d = None"
    using assms unfolding VerifyMatrixBundle_Inr by blast
  from v(2) obtain recon where r: "validateCompleteCleanupEvidence manifest runs cleanup = None"
    "ReconstructMatrixVerdict manifest runs cleanup = Some (Inr recon)" "mv_valid recon" "CompareVerdicts stored recon = Some []"
    and res: "res = \<lparr>mr_manifest = manifest, mr_stored = stored, mr_reconstructed = recon, mr_runs = runs, mr_cleanup = cleanup,
                 mr_children_verified = True, mr_checksum_verified = True, mr_cleanup_valid = True\<rparr>"
    unfolding judge_matrix_Inr by blast
  show ?thesis
  proof (intro conjI)
    show "matrix_spec (mr_runs res) (mr_cleanup res)"
      using ReconstructMatrixVerdict_Inr[OF r(2)] r(3) by (auto simp: res)
    show "list_all2 (shows_child verifyChild (path_Join [d, ''runs''])) (mx_runs (mr_manifest res)) (mr_runs res)"
      using bound_children[OF v(1)] by (auto simp: res)
    show "mx_finished (mr_manifest res) \<le> ce_observed (mr_cleanup res)" using cleanup_after_finish[OF r(1)] by (simp add: res)
    show "mv_valid (mr_stored res)" using CompareVerdicts_valid[OF r(4)] r(3) by (simp add: res)
    show "documents_recorded sha fs d" using matrix_checksums_hold[OF v(3)] unfolding documents_recorded_def by blast
  qed
qed

end
