(* ===== verification/Lab_Checksums_Verified.thy ===== *)
theory Lab_Checksums_Verified
  imports Lab_Matrix_Verify Lab_Csv_Roundtrip "HOL-Library.Multiset"
begin

section \<open>Checksum files are read back\<close>

text \<open>
  The checksum file that is written for an inventory is accepted by the rules of \<open>verify\<close>, and a directory that is
  accepted holds what the file records. The names that are joined to a path, and the grammar of a line, are
  treated first.
\<close>

subsection \<open>Splitting, joining, and clean paths\<close>

text \<open>A name that is one segment of a path, and the absolute path of a list of names.\<close>

definition plain_name :: "string \<Rightarrow> bool" where
  "plain_name n \<longleftrightarrow> n \<noteq> [] \<and> n \<noteq> ''.'' \<and> n \<noteq> ''..'' \<and> CHR ''/'' \<notin> set n"

definition abs_path :: "string list \<Rightarrow> string" where
  "abs_path names = CHR ''/'' # join_with ''/'' names"

lemma clean_plain: "list_all plain_name names \<Longrightarrow> foldl (clean_segment b) segs names = segs @ names"
  by (induction names arbitrary: segs) (auto simp: clean_segment_def plain_name_def)

lemma split_abs_path: "names \<noteq> [] \<Longrightarrow> list_all plain_name names \<Longrightarrow> split_on CHR ''/'' (abs_path names) = [] # names"
  using split_on_join[of names "CHR ''/''"] by (auto simp: abs_path_def plain_name_def list_all_iff)

lemma Clean_abs_path: "names \<noteq> [] \<Longrightarrow> list_all plain_name names \<Longrightarrow> path_Clean (abs_path names) = abs_path names"
  unfolding path_Clean_def Let_def split_abs_path
  by (simp add: clean_plain clean_segment_def[of _ _ "[]"]) (simp add: abs_path_def has_prefix_def)

lemma path_Join_abs:
  assumes "dirs \<noteq> []" "names \<noteq> []" "list_all plain_name dirs" "list_all plain_name names"
  shows "path_Join (abs_path dirs # names) = abs_path (dirs @ names)"
proof -
  have f: "filter (\<lambda>e. e \<noteq> []) (abs_path dirs # names) = abs_path dirs # names"
    using assms(4) by (auto simp: abs_path_def list_all_iff plain_name_def filter_id_conv)
  have "join_with ''/'' (abs_path dirs # names) = abs_path (dirs @ names)"
    using assms by (simp add: join_with_Cons abs_path_def join_with_append)
  then show ?thesis unfolding path_Join_def f Let_def using Clean_abs_path[of "dirs @ names"] assms by simp
qed

lemma abs_path_inject:
  assumes "xs \<noteq> []" "ys \<noteq> []" "list_all plain_name xs" "list_all plain_name ys"
  shows "abs_path xs = abs_path ys \<longleftrightarrow> xs = ys"
  using split_abs_path[OF assms(1,3)] split_abs_path[OF assms(2,4)] by (metis list.inject)

lemma dropWhile_none: "(\<And>x. x \<in> set xs \<Longrightarrow> \<not> P x) \<Longrightarrow> dropWhile P xs = xs"
  by (cases xs) simp_all

lemma path_Base_plain: "plain_name n \<Longrightarrow> path_Base n = n"
proof -
  assume n: "plain_name n"
  then have "dropWhile (\<lambda>c. c = CHR ''/'') (rev n) = rev n" by (intro dropWhile_none) (auto simp: plain_name_def)
  then show ?thesis using n by (simp add: path_Base_def Let_def plain_name_def split_on_word)
qed

subsection \<open>A checksum line is read back\<close>

text \<open>What the writer writes is in the grammar: 64 lower-case digits, and a flat name of printable characters.\<close>

definition lower_hex :: "string \<Rightarrow> bool" where
  "lower_hex h \<longleftrightarrow> (\<forall>c \<in> set h. c \<in> set ''0123456789abcdef'')"

definition checksum_text :: "string \<Rightarrow> bool" where
  "checksum_text h \<longleftrightarrow> length h = 64 \<and> lower_hex h"

definition artifact_name :: "string \<Rightarrow> bool" where
  "artifact_name n \<longleftrightarrow> plain_name n \<and> CHR 0x5C \<notin> set n \<and> \<not> str_contains n ''..'' \<and> (\<forall>c \<in> set n. ink c)"

lemma hex_digit_facts:
  "c \<in> set ''0123456789abcdef'' \<Longrightarrow> \<not> hexChar c < 0 \<and> lower_char c = c \<and> ink c"
proof -
  have "list_all (\<lambda>c. \<not> hexChar c < 0 \<and> lower_char c = c \<and> ink c) ''0123456789abcdef''" by code_simp
  then show "c \<in> set ''0123456789abcdef'' \<Longrightarrow> \<not> hexChar c < 0 \<and> lower_char c = c \<and> ink c"
    unfolding list_all_iff by blast
qed

lemma lower_hex_Cons: "lower_hex (c # s) \<longleftrightarrow> c \<in> set ''0123456789abcdef'' \<and> lower_hex s"
  unfolding lower_hex_def by (simp only: list.set ball_simps)

lemma hex_pairs_some: "lower_hex h \<Longrightarrow> \<exists>bs. hex_pairs h = Some bs"
proof (induction h rule: hex_pairs.induct)
  case (1 c d s)
  then have "\<not> hexChar c < 0" "\<not> hexChar d < 0" "\<exists>bs. hex_pairs s = Some bs"
    using hex_digit_facts unfolding lower_hex_Cons by blast+
  then show ?case by auto
qed simp_all

lemma ValidateChecksumHash_ok: "checksum_text h \<Longrightarrow> ValidateChecksumHash h = None"
proof -
  assume h: "checksum_text h"
  then have x: "lower_hex h" and l: "length h = 64" by (simp_all add: checksum_text_def)
  have "lower_char c = c" if "c \<in> set h" for c using hex_digit_facts that x unfolding lower_hex_def by blast
  then have "map lower_char h = h" by (rule map_idI)
  moreover have "h \<noteq> []" using l by auto
  moreover obtain bs where "hex_pairs h = Some bs" using hex_pairs_some[OF x] by blast
  ultimately show ?thesis using l by (simp add: ValidateChecksumHash_def ChecksumHashLen_def hexDecode_def)
qed

lemma ValidateChecksumArtifactPath_ok: "artifact_name n \<Longrightarrow> ValidateChecksumArtifactPath n = None"
proof -
  assume n: "artifact_name n"
  then have p: "plain_name n" and q: "CHR ''/'' \<notin> set n" "CHR 0x5C \<notin> set n" "n \<noteq> []" "n \<noteq> ''.''" "\<not> str_contains n ''..''"
    by (simp_all add: artifact_name_def plain_name_def)
  have "\<not> has_prefix n ''/''" "\<not> has_prefix n [CHR 0x5C]" using q by (auto simp: has_prefix_iff)
  then show ?thesis using q path_Base_plain[OF p] by (simp add: ValidateChecksumArtifactPath_def)
qed

lemma split_once_at: "CHR '' '' \<notin> set h \<Longrightarrow> split_once ''  '' (h @ ''  '' @ n) = Some (h, n)"
  by (induction h) (auto simp: has_prefix_def)

lemma printable_not_blank: "\<not> ink CHR '' ''" "\<not> ink CHR 0x0A"
  by (simp_all add: ink_def)

lemma lower_hex_printable: "lower_hex h \<Longrightarrow> c \<in> set h \<Longrightarrow> ink c"
  using hex_digit_facts unfolding lower_hex_def by blast

lemma ParseChecksumLine_written:
  assumes "checksum_text h" "artifact_name n"
  shows "ParseChecksumLine (h @ ''  '' @ n) = Inr (h, n)"
proof -
  have h: "h \<noteq> []" "\<forall>c \<in> set h. ink c"
    using assms(1) lower_hex_printable by (auto simp: checksum_text_def)
  have n: "n \<noteq> []" "\<forall>c \<in> set n. ink c" using assms(2) by (simp_all add: artifact_name_def plain_name_def)
  have "ink (hd h)" "ink (last n)" using h n by simp_all
  then have t: "TrimSpace (h @ ''  '' @ n) = h @ ''  '' @ n" using h(1) n(1) by (intro TrimSpace_inked) simp_all
  have "CHR '' '' \<notin> set h" using h(2) printable_not_blank by blast
  then show ?thesis unfolding ParseChecksumLine_def Let_def t
    using split_once_at[of h n] TrimSpace_printable[OF h] TrimSpace_printable[OF n] h(1) n(1)
      ValidateChecksumHash_ok[OF assms(1)] ValidateChecksumArtifactPath_ok[OF assms(2)] by simp
qed

text \<open>The entries a writer may write: good texts under distinct names.\<close>

definition writable :: "checksum_map \<Rightarrow> bool" where
  "writable es \<longleftrightarrow> distinct (map fst es) \<and> (\<forall>(n, h) \<in> set es. artifact_name n \<and> checksum_text h)"

lemma splitLines_written:
  assumes "\<forall>(n, h) \<in> set es. artifact_name n \<and> checksum_text h"
  shows "splitLines (concat (map checksum_line es)) = map (\<lambda>e. snd e @ ''  '' @ fst e) es"
  using assms
proof (induction es)
  case (Cons e es)
  obtain n h where e: "e = (n, h)" by (cases e)
  then have "artifact_name n" "checksum_text h" using Cons.prems by auto
  then have "CHR 0x0A \<notin> set (h @ ''  '' @ n)"
    using lower_hex_printable printable_not_blank unfolding checksum_text_def artifact_name_def by auto
  from split_on_append[OF this] show ?case using Cons by (simp add: e splitLines_def checksum_line_def)
qed (simp add: splitLines_def)

lemma parse_checksum_lines_written:
  "writable (seen @ es) \<Longrightarrow> parse_checksum_lines seen (map (\<lambda>e. snd e @ ''  '' @ fst e) es) = Inr (seen @ es)"
proof (induction es arbitrary: seen)
  case (Cons e es)
  obtain n h where e: "e = (n, h)" by (cases e)
  have "artifact_name n" "checksum_text h" "n \<notin> fst ` set seen" using Cons.prems by (auto simp: e writable_def)
  then show ?case using Cons.IH[of "seen @ [e]"] Cons.prems ParseChecksumLine_written[of h n] by (simp add: e)
qed simp

lemma ParseChecksumsFile_written:
  "writable es \<Longrightarrow> ParseChecksumsFile (concat (map checksum_line es)) = Inr es"
  using parse_checksum_lines_written[of "[]" es] splitLines_written[of es]
  by (simp add: ParseChecksumsFile_def writable_def)

subsection \<open>The sorted entries of an inventory\<close>

lemma mset_insert_entry [simp]: "mset (insert_entry e fs) = add_mset e (mset fs)"
  by (induction fs) simp_all

lemma fold_insert_entry_mset: "mset (fold insert_entry es fs) = mset es + mset fs"
  by (induction es arbitrary: fs) simp_all

lemma mset_sort_entries [simp]: "mset (sort_entries es) = mset es"
  by (simp add: sort_entries_def fold_insert_entry_mset)

lemma set_sort_entries [simp]: "set (sort_entries es) = set es"
  by (metis mset_sort_entries set_mset_mset)

lemma insert_entry_set [simp]: "set (insert_entry e fs) = insert e (set fs)"
  by (metis mset_insert_entry set_mset_mset set_mset_add_mset_insert)

abbreviation falling :: "checksum_map \<Rightarrow> bool" where
  "falling \<equiv> sorted_wrt (\<lambda>e f. fst e \<ge> fst f)"

lemma falling_insert_entry: "falling fs \<Longrightarrow> falling (insert_entry e fs)"
  by (induction fs) (auto simp: not_less intro: order_trans less_imp_le)

lemma falling_fold: "falling fs \<Longrightarrow> falling (fold insert_entry es fs)"
  by (induction es arbitrary: fs) (auto intro: falling_insert_entry)

lemma sorted_sort_entries: "sorted (map fst (sort_entries es))"
  using falling_fold[of "[]" es] by (simp add: sort_entries_def sorted_wrt_rev rev_map sorted_wrt_map)

lemma filter_insert_entry:
  "filter (\<lambda>f. k = fst f) (insert_entry e fs) = (if k = fst e then [e] else []) @ filter (\<lambda>f. k = fst f) fs"
  by (induction fs) auto

lemma filter_fold_insert:
  "filter (\<lambda>f. k = fst f) (fold insert_entry es fs) = rev (filter (\<lambda>f. k = fst f) es) @ filter (\<lambda>f. k = fst f) fs"
  by (induction es arbitrary: fs) (auto simp: filter_insert_entry)

lemma sort_entries_eq: "sort_entries es = sort_key fst es"
proof (rule properties_for_sort_key[symmetric])
  show "filter (\<lambda>x. fst k = fst x) (sort_entries es) = filter (\<lambda>x. fst k = fst x) es" for k
    by (simp add: sort_entries_def filter_fold_insert flip: rev_filter)
qed (simp_all add: sorted_sort_entries)

lemma checksum_entries_Inr:
  "checksum_entries sha fs d names = Inr es \<longleftrightarrow>
     (\<forall>n \<in> set (filter (\<lambda>n. n \<noteq> checksums_name) names). fs_file fs (path_Join [d, n]) \<noteq> None)
     \<and> es = map (\<lambda>n. (n, sha (the (fs_file fs (path_Join [d, n]))))) (filter (\<lambda>n. n \<noteq> checksums_name) names)"
  by (induction names arbitrary: es) (auto simp: and_then_Inr split: option.splits)

lemma checksum_entries_keys:
  "checksum_entries sha fs d names = Inr es \<Longrightarrow> map fst es = filter (\<lambda>n. n \<noteq> checksums_name) names"
  by (simp add: checksum_entries_Inr comp_def)

lemma checksum_entries_hash:
  "checksum_entries sha fs d names = Inr es \<Longrightarrow> (n, h) \<in> set es \<longleftrightarrow>
     n \<in> set names \<and> n \<noteq> checksums_name \<and> (\<exists>data. fs_file fs (path_Join [d, n]) = Some data \<and> h = sha data)"
  by (auto simp: checksum_entries_Inr)

lemma inventory_entries:
  assumes "GenerateChecksumsForInventory sha fs d inventory = Inr es"
  obtains es0 where "checksum_entries sha fs d inventory = Inr es0" "es = sort_entries es0" "set es = set es0"
    "mset (map fst es) = mset (filter (\<lambda>n. n \<noteq> checksums_name) inventory)"
proof -
  obtain es0 where e: "checksum_entries sha fs d inventory = Inr es0" "es = sort_entries es0"
    using assms by (auto simp: GenerateChecksumsForInventory_def and_then_Inr)
  have "mset (map fst es) = mset (map fst es0)" unfolding e(2) mset_map mset_sort_entries ..
  then show thesis using that[OF e] checksum_entries_keys[OF e(1)] e(2) by simp
qed

subsection \<open>The inventory rules on what was written\<close>

lemma find_Some_in: "find P xs = Some x \<Longrightarrow> x \<in> set xs \<and> P x"
  by (auto simp: find_Some_iff)

lemma compare_checksums_None:
  "compare_checksums computed existing = None \<longleftrightarrow>
     (\<forall>(n, h) \<in> set computed. map_of existing n = Some h) \<and> fst ` set existing \<subseteq> fst ` set computed"
proof (cases "find (\<lambda>(path, hash). map_of existing path \<noteq> Some hash) computed")
  case None
  then have c: "\<forall>(n, h) \<in> set computed. map_of existing n = Some h" by (auto simp: find_None_iff)
  show ?thesis unfolding compare_checksums_def None using c by (force simp: find_None_iff)
next
  case (Some e)
  from find_Some_in[OF this] have "e \<in> set computed" "map_of existing (fst e) \<noteq> Some (snd e)" by auto
  then have "\<not> (\<forall>(n, h) \<in> set computed. map_of existing n = Some h)" by auto
  then show ?thesis unfolding compare_checksums_def Some by (simp split: prod.split)
qed

lemma compare_checksums_same: "distinct (map fst es) \<Longrightarrow> compare_checksums es es = None"
  by (auto simp: compare_checksums_None)

lemma inventory_path_fault_None:
  "inventory_path_fault seen ps = None \<longleftrightarrow> distinct ps \<and> set ps \<inter> set seen = {}
     \<and> (\<forall>p \<in> set ps. p \<noteq> [] \<and> \<not> has_prefix p ''/'' \<and> \<not> str_contains p ''..'' \<and> \<not> has_prefix p ''.'')"
  by (induction ps arbitrary: seen) auto

lemma listing_fault_None:
  "listing_fault entries inventory = None \<longleftrightarrow>
     (\<forall>e \<in> set entries. \<not> snd e) \<and> checksums_name \<in> set inventory \<and> set inventory \<subseteq> fst ` set entries
     \<and> fst ` set entries \<subseteq> insert provenance_sidecar (set inventory)"
proof (cases "find snd entries")
  case None
  then have d: "\<forall>e \<in> set entries. \<not> snd e" unfolding find_None_iff by blast
  show ?thesis
  proof (cases "find (\<lambda>p. p \<notin> fst ` set entries) inventory")
    case n: None
    then have "set inventory \<subseteq> fst ` set entries" by (auto simp: find_None_iff)
    then show ?thesis unfolding listing_fault_def None eqTrueI[OF d] by (simp add: n Let_def find_None_iff) (use n in blast)
  next
    case (Some p)
    then have "p \<in> set inventory" "p \<notin> fst ` set entries" by (auto simp: find_Some_iff)
    moreover from this have "listing_fault entries inventory \<noteq> None" by (simp add: listing_fault_def None Some Let_def)
    ultimately show ?thesis by blast
  qed
next
  case (Some e)
  from find_Some_in[OF this] have "e \<in> set entries" "snd e" by simp_all
  moreover have "listing_fault entries inventory \<noteq> None" by (simp add: listing_fault_def Some)
  ultimately show ?thesis by blast
qed

text \<open>An inventory as the producer declares it: flat ink names, each once, with the checksum file.\<close>

definition proper_inventory :: "string list \<Rightarrow> bool" where
  "proper_inventory inventory \<longleftrightarrow> distinct inventory \<and> checksums_name \<in> set inventory
     \<and> (\<forall>n \<in> set inventory. artifact_name n \<and> \<not> has_prefix n ''.'')"

text \<open>A directory is given by a list of names, and holds exactly the files of the inventory.\<close>

definition holds_inventory :: "file_system \<Rightarrow> string \<Rightarrow> string list \<Rightarrow> bool" where
  "holds_inventory fs d inventory \<longleftrightarrow>
     (\<exists>entries. fs_dir fs d = Some entries \<and> (\<forall>e \<in> set entries. \<not> snd e) \<and> fst ` set entries \<union> {checksums_name} = set inventory)"

lemma written_entries:
  assumes "GenerateChecksumsForInventory sha fs d inventory = Inr es" "proper_inventory inventory" "\<And>data. checksum_text (sha data)"
  shows "writable es"
proof -
  obtain es0 where e: "checksum_entries sha fs d inventory = Inr es0" "set es = set es0"
    "mset (map fst es) = mset (filter (\<lambda>n. n \<noteq> checksums_name) inventory)" using inventory_entries[OF assms(1)] .
  have "distinct (map fst es)" using assms(2) mset_eq_imp_distinct_iff[OF e(3)] by (simp add: proper_inventory_def)
  moreover have "artifact_name n \<and> checksum_text h" if "(n, h) \<in> set es" for n h
    using that assms(2,3) unfolding e(2) checksum_entries_hash[OF e(1)] by (auto simp: proper_inventory_def)
  ultimately show ?thesis by (auto simp: writable_def)
qed

lemma sort_entries_cong:
  "(\<And>n. n \<in> set names \<Longrightarrow> n \<noteq> checksums_name \<Longrightarrow> fs_file fs (path_Join [d, n]) = fs_file fs' (path_Join [d, n])) \<Longrightarrow>
   GenerateChecksumsForInventory sha fs d names = GenerateChecksumsForInventory sha fs' d names"
proof -
  assume a: "\<And>n. n \<in> set names \<Longrightarrow> n \<noteq> checksums_name \<Longrightarrow> fs_file fs (path_Join [d, n]) = fs_file fs' (path_Join [d, n])"
  then have "checksum_entries sha fs d names = checksum_entries sha fs' d names"
    by (induction names) (simp_all split: option.split)
  then show ?thesis by (simp add: GenerateChecksumsForInventory_def)
qed

lemma path_Join_inject:
  "dirs \<noteq> [] \<Longrightarrow> list_all plain_name dirs \<Longrightarrow> plain_name n \<Longrightarrow> plain_name m \<Longrightarrow>
   path_Join [abs_path dirs, n] = path_Join [abs_path dirs, m] \<longleftrightarrow> n = m"
  using path_Join_abs[of dirs "[n]"] path_Join_abs[of dirs "[m]"] abs_path_inject[of "dirs @ [n]" "dirs @ [m]"] by simp

lemma write_file_other:
  "dirs \<noteq> [] \<Longrightarrow> list_all plain_name dirs \<Longrightarrow> plain_name n \<Longrightarrow> plain_name m \<Longrightarrow> n \<noteq> m \<Longrightarrow>
   fs_file (write_file (abs_path dirs) m data fs) (path_Join [abs_path dirs, n]) = fs_file fs (path_Join [abs_path dirs, n])"
  by (simp add: write_file_def path_Join_inject)

lemma write_file_listing:
  "fs_dir fs d = Some entries \<Longrightarrow> \<exists>entries'. fs_dir (write_file d name data fs) d = Some entries'
     \<and> fst ` set entries' = insert name (fst ` set entries) \<and> (\<forall>e \<in> set entries'. e \<in> set entries \<or> e = (name, False))"
  by (auto simp: write_file_def)

lemma written_directory_ok:
  assumes "WriteChecksumsForInventory sha (abs_path dirs) inventory fs = Inr fs'"
    and "proper_inventory inventory" "holds_inventory fs (abs_path dirs) inventory" "\<And>data. checksum_text (sha data)"
    and "dirs \<noteq> []" "list_all plain_name dirs"
  shows "verify_inventory sha fs' (abs_path dirs) inventory = None"
proof -
  let ?d = "abs_path dirs"
  obtain es where g: "GenerateChecksumsForInventory sha fs ?d inventory = Inr es" and w: "fs' = writeChecksums ?d es fs"
    using assms(1) by (auto simp: WriteChecksumsForInventory_def and_then_Inr)
  have p: "plain_name n" if "n \<in> set inventory" for n using that assms(2) by (auto simp: proper_inventory_def artifact_name_def)
  have c: "checksums_name \<in> set inventory" using assms(2) by (simp add: proper_inventory_def)
  have "GenerateChecksumsForInventory sha fs' ?d inventory = GenerateChecksumsForInventory sha fs ?d inventory"
    unfolding w writeChecksums_def by (rule sort_entries_cong) (simp add: write_file_other assms(5,6) p c)
  moreover have "fs_file fs' (path_Join [?d, checksums_name]) = Some (concat (map checksum_line es))"
    by (simp add: w writeChecksums_def write_file_def)
  moreover have e: "writable es" by (rule written_entries[OF g assms(2,4)])
  ultimately have sums: "directory_checksum_fault sha fs' ?d inventory = None"
    using compare_checksums_same[of es] by (simp add: directory_checksum_fault_def g ParseChecksumsFile_written writable_def)
  obtain entries where l: "fs_dir fs ?d = Some entries" "\<forall>e \<in> set entries. \<not> snd e" "insert checksums_name (fst ` set entries) = set inventory"
    using assms(3) by (auto simp: holds_inventory_def)
  obtain entries' where l': "fs_dir fs' ?d = Some entries'" "fst ` set entries' = set inventory" "\<forall>e \<in> set entries'. \<not> snd e"
  proof -
    obtain entries' where e: "fs_dir fs' ?d = Some entries'" "fst ` set entries' = insert checksums_name (fst ` set entries)"
      "\<forall>e \<in> set entries'. e \<in> set entries \<or> e = (checksums_name, False)"
      using write_file_listing[OF l(1)] unfolding w writeChecksums_def by metis
    from e(3) l(2) have "\<forall>e \<in> set entries'. \<not> snd e" by (metis snd_conv)
    with e that l(3) show thesis by simp
  qed
  have "listing_fault entries' inventory = None" using l' c by (auto simp: listing_fault_None)
  moreover have "inventory_path_fault [] inventory = None"
    using assms(2) p by (auto simp: inventory_path_fault_None proper_inventory_def artifact_name_def plain_name_def has_prefix_iff)
  ultimately show ?thesis using sums l'(1) by (simp add: verify_inventory_def)
qed

text \<open>What an accepted directory shows: every listed file is there, under the checksum on record.\<close>

lemma verify_inventory_None:
  assumes "verify_inventory sha fs d inventory = None" "name \<in> set inventory" "name \<noteq> checksums_name"
  obtains body entries data where "fs_file fs (path_Join [d, checksums_name]) = Some body" "ParseChecksumsFile body = Inr entries"
    "fs_file fs (path_Join [d, name]) = Some data" "map_of entries name = Some (sha data)"
proof -
  have f: "directory_checksum_fault sha fs d inventory = None" using assms(1) by (simp add: verify_inventory_def split: option.splits)
  then obtain es body entries where g: "GenerateChecksumsForInventory sha fs d inventory = Inr es"
    and t: "fs_file fs (path_Join [d, checksums_name]) = Some body" "ParseChecksumsFile body = Inr entries"
    and c: "compare_checksums es entries = None"
    by (auto simp: directory_checksum_fault_def split: option.splits sum.splits)
  obtain es0 where e: "checksum_entries sha fs d inventory = Inr es0" "set es = set es0" using inventory_entries[OF g] .
  obtain data where x: "fs_file fs (path_Join [d, name]) = Some data" "(name, sha data) \<in> set es"
    using e(1) assms(2,3) unfolding e(2) checksum_entries_hash[OF e(1)] by (auto simp: checksum_entries_Inr)
  have "map_of entries name = Some (sha data)" using c x(2) by (auto simp: compare_checksums_None)
  with that t x(1) show thesis by blast
qed

lemma recorded_twice:
  assumes "verify_inventory sha fs d inventory = None" "verify_inventory sha fs' d inventory = None"
    and "fs_file fs' (path_Join [d, checksums_name]) = fs_file fs (path_Join [d, checksums_name])"
    and "name \<in> set inventory" "name \<noteq> checksums_name"
  shows "\<exists>data data'. fs_file fs (path_Join [d, name]) = Some data \<and> fs_file fs' (path_Join [d, name]) = Some data' \<and> sha data = sha data'"
proof -
  obtain t es x where a: "fs_file fs (path_Join [d, checksums_name]) = Some t" "ParseChecksumsFile t = Inr es"
    "fs_file fs (path_Join [d, name]) = Some x" "map_of es name = Some (sha x)" using verify_inventory_None[OF assms(1,4,5)] .
  obtain t' es' x' where b: "fs_file fs' (path_Join [d, checksums_name]) = Some t'" "ParseChecksumsFile t' = Inr es'"
    "fs_file fs' (path_Join [d, name]) = Some x'" "map_of es' name = Some (sha x')" using verify_inventory_None[OF assms(2,4,5)] .
  show ?thesis using a b assms(3) by simp
qed

end
