(* ===== verification/Lab_Matrix_Produced.thy ===== *)
theory Lab_Matrix_Produced
  imports Lab_Matrix_Sound Lab_Checksums_Verified
begin

section \<open>What the producer writes is accepted\<close>

subsection \<open>The verdict is exactly the specification\<close>

definition declared_schemas :: "matrix_manifest \<Rightarrow> bool" where
  "declared_schemas manifest \<longleftrightarrow>
     mx_schema manifest = ''1.0.0'' \<and> (\<exists>identity. mx_identity manifest = Some identity \<and> xi_run_schema identity = ''1.1.0'')"

lemma ReconstructSameSchema_declared:
  "ReconstructSameSchema manifest runs = Some (Inr b) \<Longrightarrow> declared_schemas manifest"
  by (auto simp: ReconstructSameSchema_def declared_schemas_def SupportedMatrixSchemaVersions_def SupportedSchemaVersions_def Let_def
      split: if_splits option.splits)

lemma ReconstructSameSchema_accepts:
  assumes "declared_schemas manifest" "length runs = 3" "\<forall>run \<in> set runs. rm_schema (vr_manifest run) = ''1.1.0''"
  shows "ReconstructSameSchema manifest runs = Some (Inr True)"
proof -
  obtain a b c where r: "runs = [a, b, c]" using three_runs[OF assms(2)] by blast
  show ?thesis using assms(1,3) unfolding r
    by (auto simp: ReconstructSameSchema_def declared_schemas_def SupportedMatrixSchemaVersions_def SupportedSchemaVersions_def
        Let_def upt_rec numeral_3_eq_3)
qed

lemma ReconstructMatrixVerdict_declared:
  "ReconstructMatrixVerdict manifest runs cleanup = Some (Inr v) \<Longrightarrow> declared_schemas manifest"
  by (auto simp: ReconstructMatrixVerdict_def ReconstructCrossRunChecks_def dest: ReconstructSameSchema_declared
      split: option.splits sum.splits if_splits)

lemma matrix_spec_runs:
  assumes "matrix_spec runs cleanup"
  shows "length runs = 3" "\<forall>run \<in> set runs. rm_schema (vr_manifest run) = ''1.1.0''"
proof -
  note a = assms[unfolded matrix_spec_def Let_def]
  note s = conjunct1[OF a] and m = conjunct1[OF conjunct2[OF a]]
  show "length runs = 3" using arg_cong[OF s, of length] by simp
  show "\<forall>run \<in> set runs. rm_schema (vr_manifest run) = ''1.1.0''" using m by blast
qed

lemma ReconstructMatrixVerdict_returns:
  assumes "declared_schemas manifest" "length runs = 3" "\<forall>run \<in> set runs. rm_schema (vr_manifest run) = ''1.1.0''"
  obtains v where "ReconstructMatrixVerdict manifest runs cleanup = Some (Inr v)"
proof -
  obtain checks where "ReconstructCrossRunChecks manifest runs cleanup = Some (Inr checks)"
    using ReconstructSameSchema_accepts[OF assms] assms(2) by (cases "CountCanonicalChecks (cross_run_facts runs cleanup True)") (simp add: ReconstructCrossRunChecks_def)
  with that show thesis by (cases "CountCanonicalChecks checks") (simp add: ReconstructMatrixVerdict_def Let_def)
qed

lemma ReconstructMatrixVerdict_valid:
  "ReconstructMatrixVerdict manifest runs cleanup = Some (Inr v) \<Longrightarrow> mv_valid v \<longleftrightarrow> matrix_spec runs cleanup"
  using ReconstructMatrixVerdict_Inr by blast

text \<open>C15. The reconstructed verdict is valid exactly when the matrix declares supported schemas and the runs meet \<open>matrix_spec\<close>: the sixteen
  checks, their count and the expected classifications add up to a specification that mentions none of them.\<close>

theorem matrix_valid_iff:
  "(\<exists>v. ReconstructMatrixVerdict manifest runs cleanup = Some (Inr v) \<and> mv_valid v)
   \<longleftrightarrow> declared_schemas manifest \<and> matrix_spec runs cleanup"
proof
  assume "\<exists>v. ReconstructMatrixVerdict manifest runs cleanup = Some (Inr v) \<and> mv_valid v"
  then show "declared_schemas manifest \<and> matrix_spec runs cleanup"
    using ReconstructMatrixVerdict_declared ReconstructMatrixVerdict_valid by blast
next
  assume d: "declared_schemas manifest \<and> matrix_spec runs cleanup"
  then obtain v where "ReconstructMatrixVerdict manifest runs cleanup = Some (Inr v)"
    using ReconstructMatrixVerdict_returns matrix_spec_runs by metis
  with d show "\<exists>v. ReconstructMatrixVerdict manifest runs cleanup = Some (Inr v) \<and> mv_valid v"
    using ReconstructMatrixVerdict_valid by blast
qed

subsection \<open>The checksums of the documents\<close>

lemma join_lines: "es \<noteq> [] \<Longrightarrow> join_with [c] (map f es) @ [c] = concat (map (\<lambda>e. f e @ [c]) es)"
  by (induction es) (auto simp: join_with_Cons)

lemma read_all_Inr:
  "read_all fs d names = Inr rs \<longleftrightarrow>
     (\<forall>n \<in> set names. fs_file fs (path_Join [d, n]) \<noteq> None) \<and> rs = map (\<lambda>n. (n, the (fs_file fs (path_Join [d, n])))) names"
  by (induction names arbitrary: rs) (auto simp: and_then_Inr split: option.splits)

lemma matrix_hash_fault_ok:
  "\<forall>n \<in> set names. \<exists>data. fs_file fs (path_Join [d, n]) = Some data \<and> map_of entries n = Some (sha data) \<Longrightarrow>
   matrix_hash_fault sha fs d entries names = None"
  by (induction names) auto

definition matrix_entries :: "(string \<Rightarrow> string) \<Rightarrow> file_system \<Rightarrow> string \<Rightarrow> checksum_map" where
  "matrix_entries sha fs d = sort_key fst (map (\<lambda>n. (n, sha (the (fs_file fs (path_Join [d, n])))))
     [''matrix-manifest.json'', ''matrix-verdict.json'', ''matrix-cleanup.json''])"

lemma ComputeMatrixChecksums_Inr:
  assumes "\<forall>n \<in> set canonicalMatrixArtifactInventory. fs_file fs (path_Join [d, n]) \<noteq> None"
  shows "ComputeMatrixChecksums sha fs d = Inr (concat (map checksum_line (matrix_entries sha fs d)))"
proof -
  let ?names = "[''matrix-manifest.json'', ''matrix-verdict.json'', ''matrix-cleanup.json'']"
  have r: "read_all fs d ?names = Inr (map (\<lambda>n. (n, the (fs_file fs (path_Join [d, n])))) ?names)"
    unfolding read_all_Inr using assms by (simp add: canonicalMatrixArtifactInventory_def)
  have "matrix_entries sha fs d \<noteq> []" using arg_cong[of _ _ length] by (auto simp: matrix_entries_def)
  then have "join_with [CHR 0x0A] (map (\<lambda>(name, hash). hash @ ''  '' @ name) (matrix_entries sha fs d)) @ [CHR 0x0A]
    = concat (map checksum_line (matrix_entries sha fs d))"
    by (simp add: join_lines checksum_line_def[abs_def] case_prod_beta)
  then show ?thesis unfolding ComputeMatrixChecksums_def r by (simp add: and_then_def Let_def matrix_entries_def)
qed

lemma matrix_names: "list_all artifact_name matrix_files" "distinct matrix_files" "set canonicalMatrixArtifactInventory \<subseteq> set matrix_files"
  by code_simp+

lemma matrix_name_plain: "n \<in> set matrix_files \<Longrightarrow> plain_name n \<and> artifact_name n"
  using matrix_names(1) by (simp add: list_all_iff artifact_name_def)

lemma matrix_entries_keys:
  "mset (map fst (matrix_entries sha fs d)) = mset canonicalMatrixArtifactInventory"
  "(n, h) \<in> set (matrix_entries sha fs d) \<longleftrightarrow> n \<in> set canonicalMatrixArtifactInventory \<and> h = sha (the (fs_file fs (path_Join [d, n])))"
  by (simp_all only: matrix_entries_def mset_map mset_sort set_sort set_map) (auto simp: canonicalMatrixArtifactInventory_def)

lemma matrix_entries_distinct: "distinct (map fst (matrix_entries sha fs d))"
proof -
  have "distinct canonicalMatrixArtifactInventory" by code_simp
  then show ?thesis using mset_eq_imp_distinct_iff[OF matrix_entries_keys(1)[of sha fs d]] by simp
qed

lemma matrix_entries_set: "fst ` set (matrix_entries sha fs d) = set canonicalMatrixArtifactInventory"
  using arg_cong[OF matrix_entries_keys(1)[of sha fs d], of set_mset] by (simp only: set_mset_mset set_map)

lemma matrix_entries_ok: "matrix_entries_fault (matrix_entries sha fs d) = None"
proof -
  have "length (matrix_entries sha fs d) = length canonicalMatrixArtifactInventory"
    using arg_cong[OF matrix_entries_keys(1)[of sha fs d], of size] by (simp only: size_mset length_map)
  moreover have "find (\<lambda>n. n \<notin> fst ` set (matrix_entries sha fs d)) canonicalMatrixArtifactInventory = None"
    by (simp only: find_None_iff matrix_entries_set) blast
  moreover have "find (\<lambda>e. fst e \<notin> set canonicalMatrixArtifactInventory) (matrix_entries sha fs d) = None"
    unfolding find_None_iff matrix_entries_set[of sha fs d, symmetric] by blast
  ultimately show ?thesis by (simp add: matrix_entries_fault_def)
qed

lemma matrix_entries_writable: "(\<And>data. checksum_text (sha data)) \<Longrightarrow> writable (matrix_entries sha fs d)"
  using matrix_entries_distinct matrix_names(3) matrix_name_plain
  by (fastforce simp: writable_def matrix_entries_keys(2))

lemma matrix_checksums_valid:
  assumes "dirs \<noteq> []" "list_all plain_name dirs" "\<And>data. checksum_text (sha data)"
    and "\<forall>n \<in> set canonicalMatrixArtifactInventory. fs_file fs (path_Join [abs_path dirs, n]) \<noteq> None"
    and "write_checksums_file sha (abs_path dirs) fs = Inr fs'"
  shows "ValidateMatrixChecksums sha fs' (abs_path dirs) = None"
proof -
  let ?d = "abs_path dirs" and ?es = "matrix_entries sha fs (abs_path dirs)"
  have w: "fs' = write_file ?d matrix_checksums_name (concat (map checksum_line ?es)) fs"
    using assms(5) ComputeMatrixChecksums_Inr[OF assms(4)] by (simp add: write_checksums_file_def and_then_def)
  have t: "fs_file fs' (path_Join [?d, matrix_checksums_name]) = Some (concat (map checksum_line ?es))"
    by (simp add: w write_file_def)
  have "fs_file fs' (path_Join [?d, n]) = fs_file fs (path_Join [?d, n])" if "n \<in> set canonicalMatrixArtifactInventory" for n
  proof -
    have "n \<noteq> matrix_checksums_name" using that matrix_names(2) by (auto simp: matrix_files_def)
    moreover have "n \<in> set matrix_files" "matrix_checksums_name \<in> set matrix_files" using that by (simp_all add: matrix_files_def)
    ultimately show ?thesis unfolding w using assms(1,2) by (simp add: write_file_other matrix_name_plain)
  qed
  then have "\<forall>n \<in> set canonicalMatrixArtifactInventory.
      \<exists>data. fs_file fs' (path_Join [?d, n]) = Some data \<and> map_of ?es n = Some (sha data)"
    using assms(4) by (auto simp: matrix_entries_distinct matrix_entries_keys(2))
  from matrix_hash_fault_ok[OF this] show ?thesis
    unfolding ValidateMatrixChecksums_def t using ParseChecksumsFile_written[OF matrix_entries_writable[OF assms(3)]]
    by (simp add: matrix_entries_ok)
qed

subsection \<open>The directory\<close>

text \<open>What a file system looks like to a reader of one directory of runs: the listings below it, and the files.\<close>

definition under :: "string list \<Rightarrow> string list \<Rightarrow> bool" where
  "under dirs names \<longleftrightarrow> names \<noteq> [] \<and> list_all plain_name names \<and> dirs \<noteq> [] \<and> list_all plain_name dirs"

definition same_below :: "string list \<Rightarrow> file_system \<Rightarrow> file_system \<Rightarrow> bool" where
  "same_below dirs fs fs' \<longleftrightarrow>
     (\<forall>name names. under dirs (name # names) \<longrightarrow> fs_dir fs (abs_path (dirs @ name # names)) = fs_dir fs' (abs_path (dirs @ name # names)))
     \<and> (\<forall>name name' names. under dirs (name # name' # names) \<longrightarrow>
          fs_file fs (abs_path (dirs @ name # name' # names)) = fs_file fs' (abs_path (dirs @ name # name' # names)))"

lemma same_below_write:
  assumes "dirs \<noteq> []" "list_all plain_name dirs" "plain_name n"
  shows "same_below dirs (write_file (abs_path dirs) n data fs) fs"
proof -
  have "abs_path (dirs @ name # names) \<noteq> abs_path dirs" if "under dirs (name # names)" for name names
    using that abs_path_inject[of "dirs @ name # names" dirs] by (simp add: under_def)
  moreover have "abs_path (dirs @ name # name' # names) \<noteq> path_Join [abs_path dirs, n]" if "under dirs (name # name' # names)" for name name' names
    using that assms abs_path_inject[of "dirs @ name # name' # names" "dirs @ [n]"] path_Join_abs[of dirs "[n]"] by (simp add: under_def)
  ultimately show ?thesis by (simp add: same_below_def write_file_def split: option.split)
qed

lemma same_below_trans: "same_below dirs fs fs' \<Longrightarrow> same_below dirs fs' fs'' \<Longrightarrow> same_below dirs fs fs''"
  by (simp add: same_below_def)

text \<open>A path a checksum line may have is one name.\<close>

lemma accepted_path_plain: "ValidateChecksumArtifactPath p = None \<Longrightarrow> plain_name p"
  by (auto simp: ValidateChecksumArtifactPath_def plain_name_def has_prefix_def split: if_splits)

lemma ParseChecksumLine_path: "ParseChecksumLine line = Inr (h, p) \<Longrightarrow> plain_name p"
  by (auto simp: ParseChecksumLine_def Let_def intro!: accepted_path_plain split: if_splits option.splits)

lemma parse_checksum_lines_plain:
  "parse_checksum_lines seen ls = Inr es \<Longrightarrow> \<forall>e \<in> set seen. plain_name (fst e) \<Longrightarrow> \<forall>e \<in> set es. plain_name (fst e)"
proof (induction ls arbitrary: seen)
  case (Cons line ls)
  obtain h p where l: "ParseChecksumLine line = Inr (h, p)" and r: "parse_checksum_lines (seen @ [(p, h)]) ls = Inr es"
    using Cons.prems(1) by (simp split: sum.splits prod.splits if_splits)
  from Cons.IH[OF r] Cons.prems(2) ParseChecksumLine_path[OF l] show ?case by simp
qed simp

lemma ParseChecksumsFile_plain: "ParseChecksumsFile s = Inr es \<Longrightarrow> e \<in> set es \<Longrightarrow> plain_name (fst e)"
  using parse_checksum_lines_plain[of "[]"] by (auto simp: ParseChecksumsFile_def)

text \<open>The verifier of a child looks at the directory of the child only.\<close>

lemma child_files_plain: "n \<in> set child_files \<Longrightarrow> plain_name n"
proof -
  have "list_all plain_name child_files" by code_simp
  then show "n \<in> set child_files \<Longrightarrow> plain_name n" by (simp add: list_all_iff)
qed

lemma verifyChildChecksums_local:
  assumes "\<And>n. plain_name n \<Longrightarrow> fs_file fs (path_Join [d, n]) = fs_file fs' (path_Join [d, n])"
  shows "verifyChildChecksums sha fs d = verifyChildChecksums sha fs' d"
proof -
  have "plain_name checksums_name" by code_simp
  note c = assms[OF this]
  have "first_fault (map (entry_fault sha fs d) es) = first_fault (map (entry_fault sha fs' d) es)" if "ParseChecksumsFile s = Inr es" for s es
    using ParseChecksumsFile_plain[OF that] assms by (intro arg_cong[of _ _ first_fault]) (auto simp: entry_fault_def)
  then show ?thesis by (auto simp: verifyChildChecksums_def c simp del: map_eq_conv split: option.split sum.split)
qed

lemma verifyChildRunBundle_local:
  assumes "fs_dir fs d = fs_dir fs' d" "\<And>n. plain_name n \<Longrightarrow> fs_file fs (path_Join [d, n]) = fs_file fs' (path_Join [d, n])"
  shows "verifyChildRunBundle sha codec fs d = verifyChildRunBundle sha codec fs' d"
proof -
  have f: "fs_file fs (path_Join [d, n]) = fs_file fs' (path_Join [d, n])" if "n \<in> set child_files" for n
    by (rule assms(2)[OF child_files_plain[OF that]])
  have "extractProcessIdentity fs (path_Join [d, ''samples.csv'']) = extractProcessIdentity fs' (path_Join [d, ''samples.csv''])"
    using f[of "''samples.csv''"] by (simp add: extractProcessIdentity_def child_files_def)
  moreover have "ReadNetworkIdentity dec fs d = ReadNetworkIdentity dec fs' d" for dec
    using f[of network_identity_name] by (simp add: ReadNetworkIdentity_def child_files_def network_identity_name_def)
  moreover have "read_document fs d ''manifest.json'' dec = read_document fs' d ''manifest.json'' dec" for dec :: "string \<Rightarrow> run_manifest option"
    using f[of "''manifest.json''"] by (simp add: read_document_def child_files_def)
  moreover have "read_document fs d ''verdict.json'' dec = read_document fs' d ''verdict.json'' dec" for dec :: "string \<Rightarrow> child_verdict option"
    using f[of "''verdict.json''"] by (simp add: read_document_def child_files_def)
  moreover have "read_document fs d ''container-inspect.json'' dec = read_document fs' d ''container-inspect.json'' dec" for dec :: "string \<Rightarrow> string option"
    using f[of "''container-inspect.json''"] by (simp add: read_document_def child_files_def)
  moreover have "verifyChildChecksums sha fs d = verifyChildChecksums sha fs' d" by (rule verifyChildChecksums_local[OF assms(2)])
  moreover have "validateChildGeometry fs d = validateChildGeometry fs' d" by (simp add: validateChildGeometry_def assms(1))
  ultimately show ?thesis unfolding verifyChildRunBundle_def by (simp only:)
qed

lemma verify_each_cong:
  "(\<And>decl. decl \<in> set decls \<Longrightarrow> v (path_Join [r, rd_run_id decl]) = v' (path_Join [r, rd_run_id decl])) \<Longrightarrow>
   verify_each v r i decls = verify_each v' r i decls"
  by (induction decls arbitrary: i) (simp_all add: verify_declared_def)

definition plain_run_ids :: "matrix_manifest \<Rightarrow> bool" where
  "plain_run_ids manifest \<longleftrightarrow> (\<forall>decl \<in> set (mx_runs manifest). plain_name (rd_run_id decl))"

lemma plain_runs: "plain_name ''runs''"
  by code_simp

lemma run_path:
  "dirs \<noteq> [] \<Longrightarrow> list_all plain_name dirs \<Longrightarrow> plain_name n \<Longrightarrow>
   path_Join [path_Join [abs_path dirs, ''runs''], n] = abs_path (dirs @ [''runs'', n])"
  using path_Join_abs[of dirs "[''runs'']"] path_Join_abs[of "dirs @ [''runs'']" "[n]"] plain_runs by simp

lemma child_bundles_local:
  assumes "same_below dirs fs fs'" "dirs \<noteq> []" "list_all plain_name dirs" "plain_run_ids manifest"
  shows "VerifyDeclaredChildBundles (abs_path dirs) manifest (default_child_verifier sha codec fs)
       = VerifyDeclaredChildBundles (abs_path dirs) manifest (default_child_verifier sha codec fs')"
proof -
  have "verifyChildRunBundle sha codec fs (abs_path (dirs @ [''runs'', n])) = verifyChildRunBundle sha codec fs' (abs_path (dirs @ [''runs'', n]))"
    if n: "plain_name n" for n
  proof (rule verifyChildRunBundle_local)
    show "fs_dir fs (abs_path (dirs @ [''runs'', n])) = fs_dir fs' (abs_path (dirs @ [''runs'', n]))"
      using assms(1-3) n plain_runs by (simp add: same_below_def under_def)
  next
    fix m assume m: "plain_name m"
    have "path_Join [abs_path (dirs @ [''runs'', n]), m] = abs_path (dirs @ ''runs'' # n # [m])"
      using path_Join_abs[of "dirs @ [''runs'', n]" "[m]"] assms(3) n m plain_runs by simp
    then show "fs_file fs (path_Join [abs_path (dirs @ [''runs'', n]), m]) = fs_file fs' (path_Join [abs_path (dirs @ [''runs'', n]), m])"
      using assms(1-3) n m plain_runs by (simp add: same_below_def under_def)
  qed
  then have v: "default_child_verifier sha codec fs (path_Join [path_Join [abs_path dirs, ''runs''], rd_run_id decl])
    = default_child_verifier sha codec fs' (path_Join [path_Join [abs_path dirs, ''runs''], rd_run_id decl])"
    if "decl \<in> set (mx_runs manifest)" for decl
    using that assms(2-4) by (simp add: default_child_verifier_def run_path plain_run_ids_def)
  have "verify_each (default_child_verifier sha codec fs) (path_Join [abs_path dirs, ''runs'']) 0 (mx_runs manifest)
    = verify_each (default_child_verifier sha codec fs') (path_Join [abs_path dirs, ''runs'']) 0 (mx_runs manifest)"
    by (rule verify_each_cong) (rule v)
  then show ?thesis by (simp add: VerifyDeclaredChildBundles_def)
qed

subsection \<open>The cleanup\<close>

lemma records_fault_checks:
  "records_fault c s i ids recs = None \<Longrightarrow> j < length recs \<Longrightarrow> c (i + j) (recs ! j) = None"
proof (induction recs arbitrary: i j ids)
  case (Cons rec recs)
  then show ?case by (cases j) (auto split: option.splits sum.splits dest: Cons.IH)
qed simp

lemma records_fault_weaken:
  "records_fault c s i ids recs = None \<Longrightarrow> (\<And>j. j < length recs \<Longrightarrow> c' (i + j) (recs ! j) = None) \<Longrightarrow>
   (\<And>ids network ids'. s ids network = Inr ids' \<Longrightarrow> s' ids network = Inr ids') \<Longrightarrow> records_fault c' s' i ids recs = None"
proof (induction recs arbitrary: i ids)
  case (Cons rec recs)
  obtain ids' where n: "s ids (cl_network rec) = Inr ids'" "records_fault c s (Suc i) ids' recs = None"
    using Cons.prems(1) by (auto split: option.splits sum.splits)
  have "records_fault c' s' (Suc i) ids' recs = None"
    by (rule Cons.IH[OF n(2) _ Cons.prems(3)]) (use Cons.prems(2)[of "Suc _"] in simp_all)
  then show ?case using Cons.prems(2)[of 0] Cons.prems(3)[OF n(1)] by simp
qed simp

lemma network_step_weaken: "network_step True True own ids network = Inr ids' \<Longrightarrow> network_step True False own ids network = Inr ids'"
  by (auto simp: network_step_def Let_def split: prod.splits if_splits)

lemma bound_cleanup_complete:
  assumes "ValidateCleanupBinding manifest runs cleanup = None" "bound = map2 bind_run runs (ce_runs cleanup)"
    and "list_all2 objects_gone bound (ce_runs cleanup)" "\<forall>run \<in> set bound. vr_start run > 0"
  shows "validateCompleteCleanupEvidence manifest bound cleanup = None"
proof -
  have l: "length runs = 3" "length (ce_runs cleanup) = 3" "length (mx_runs manifest) = 3"
    and own: "records_fault (bound_record_fault runs) (network_step True True (ce_ownership cleanup)) 0 ([], []) (ce_runs cleanup) = None"
    and decl: "\<forall>i \<in> set [0..<3]. declared_run_fault i (mx_runs manifest ! i) (runs ! i) = None"
    and rest: "ce_schema cleanup \<in> set SupportedCleanupSchemaVersions" "ce_matrix_id cleanup = mx_id manifest" "\<not> is_zero_time (ce_observed cleanup)"
      "\<not> mx_finished manifest > ce_observed cleanup" "known_ownership (ce_ownership cleanup)"
    using assms(1) by (simp_all add: ValidateCleanupBinding_def Let_def CanonicalScenarioOrder_def numeral_3_eq_3)
  have "complete_record_fault manifest bound i (ce_runs cleanup ! i) = None" if i: "i < 3" for i
  proof -
    have b: "bound ! i = bind_run (runs ! i) (ce_runs cleanup ! i)" using l i by (simp add: assms(2))
    have g: "objects_gone (bound ! i) (ce_runs cleanup ! i)" using assms(3) i l by (simp add: list_all2_conv_all_nth)
    have "length bound = 3" using l by (simp add: assms(2))
    then have "bound ! i \<in> set bound" using i by simp
    then have "vr_start (bound ! i) > 0" using assms(4) by blast
    moreover note records_fault_checks[OF own, of i, simplified, unfolded l(2), OF i] decl[rule_format, of i] i g
    ultimately show ?thesis
      by (simp add: b complete_record_fault_def bound_record_fault_def declared_run_fault_def objects_gone_def Let_def)
  qed
  then have "records_fault (complete_record_fault manifest bound) (network_step True False (ce_ownership cleanup)) 0 ([], []) (ce_runs cleanup) = None"
    using l by (intro records_fault_weaken[OF own]) (simp_all add: network_step_weaken)
  then show ?thesis using rest l by (simp add: validateCompleteCleanupEvidence_def)
qed

subsection \<open>The end of the producer\<close>

lemma CompareVerdicts_refl:
  "(\<And>s. mv_results v s \<noteq> Some None) \<Longrightarrow> CompareVerdicts v v = Some []"
  by (simp add: CompareVerdicts_Nil check_diffs_Nil split: option.split)

lemma declarations_contract:
  assumes "length (mx_runs manifest) = 3" "declarations_fault 0 [] (mx_runs manifest) = None" "declared_schemas manifest"
  shows "validateMatrixManifestContract manifest = None"
proof -
  obtain a b c where r: "mx_runs manifest = [a, b, c]" using assms(1) by (auto simp: numeral_3_eq_3 length_Suc_conv)
  show ?thesis using assms(2,3) unfolding r
    by (auto simp: validateMatrixManifestContract_def declared_schemas_def SupportedMatrixSchemaVersions_def r declaration_fault_def
        upt_rec numeral_3_eq_3 Let_def split: option.splits)
qed

lemma matrix_spec_gone: "matrix_spec bound cleanup \<Longrightarrow> list_all2 objects_gone bound (ce_runs cleanup)"
  unfolding matrix_spec_def Let_def by (elim conjE)

lemma judge_produced:
  assumes "ValidateCleanupBinding manifest runs cleanup = None" "bound = map2 bind_run runs (ce_runs cleanup)"
    and "matrix_spec bound cleanup" "\<forall>run \<in> set bound. vr_start run > 0"
    and "ReconstructMatrixVerdict manifest bound cleanup = Some (Inr v)"
  shows "\<exists>res. judge_matrix manifest v cleanup bound = Some (Inr res) \<and> mr_manifest res = manifest \<and> mr_runs res = bound
    \<and> mr_children_verified res \<and> mr_cleanup_valid res \<and> mr_stored res = v \<and> mr_reconstructed res = v"
proof -
  have "validateCompleteCleanupEvidence manifest bound cleanup = None"
    by (rule bound_cleanup_complete[OF assms(1,2) matrix_spec_gone[OF assms(3)] assms(4)])
  moreover have "mv_valid v" using ReconstructMatrixVerdict_valid[OF assms(5)] assms(3) by blast
  moreover have "CompareVerdicts v v = Some []"
    using ReconstructMatrixVerdict_Inr[OF assms(5)] by (intro CompareVerdicts_refl) (metis option.map_disc_iff option.distinct(1) map_option_eq_Some)
  ultimately show ?thesis using assms(5) unfolding judge_matrix_Inr by simp
qed

text \<open>The documents in their places, and nothing else beside the runs.\<close>

definition documents_written ::
  "matrix_encoder \<Rightarrow> file_system \<Rightarrow> string \<Rightarrow> matrix_manifest \<Rightarrow> cleanup_evidence \<Rightarrow> matrix_verdict \<Rightarrow> bool" where
  "documents_written enc fs d manifest cleanup v \<longleftrightarrow>
     fs_file fs (path_Join [d, ''matrix-manifest.json'']) = Some (enc_manifest enc manifest)
     \<and> fs_file fs (path_Join [d, ''matrix-cleanup.json'']) = Some (enc_cleanup enc cleanup)
     \<and> fs_file fs (path_Join [d, ''matrix-verdict.json'']) = Some (enc_verdict enc v)"

definition write_documents ::
  "matrix_encoder \<Rightarrow> string \<Rightarrow> matrix_manifest \<Rightarrow> cleanup_evidence \<Rightarrow> matrix_verdict \<Rightarrow> file_system \<Rightarrow> file_system" where
  "write_documents enc d manifest cleanup v fs =
     write_file d ''matrix-verdict.json'' (enc_verdict enc v) (write_file d ''matrix-cleanup.json'' (enc_cleanup enc cleanup)
       (write_file d ''matrix-manifest.json'' (enc_manifest enc manifest) fs))"

lemma document_names: "n \<in> {''matrix-manifest.json'', ''matrix-cleanup.json'', ''matrix-verdict.json'', ''matrix-checksums.txt''} \<Longrightarrow> plain_name n"
  using matrix_name_plain[of n] by (auto simp: matrix_files_def canonicalMatrixArtifactInventory_def matrix_checksums_name_def)

lemma write_documents_written:
  assumes "dirs \<noteq> []" "list_all plain_name dirs"
  shows "documents_written enc (write_documents enc (abs_path dirs) manifest cleanup v fs) (abs_path dirs) manifest cleanup v"
    "same_below dirs (write_documents enc (abs_path dirs) manifest cleanup v fs) fs"
proof -
  have "path_Join [abs_path dirs, n] \<noteq> path_Join [abs_path dirs, m]" if "n \<noteq> m" "n \<in> set canonicalMatrixArtifactInventory" "m \<in> set canonicalMatrixArtifactInventory" for n m
    using path_Join_inject[OF assms, of n m] that matrix_name_plain matrix_names(3) by blast
  then show "documents_written enc (write_documents enc (abs_path dirs) manifest cleanup v fs) (abs_path dirs) manifest cleanup v"
    by (simp add: documents_written_def write_documents_def write_file_def canonicalMatrixArtifactInventory_def)
  show "same_below dirs (write_documents enc (abs_path dirs) manifest cleanup v fs) fs"
    unfolding write_documents_def by (intro same_below_trans[OF same_below_write[OF assms]] same_below_write[OF assms]) (simp_all add: document_names)
qed

lemma write_file_dir:
  "fs_dir fs d = Some es \<Longrightarrow> n \<notin> fst ` set es \<Longrightarrow> fs_dir (write_file d n data fs) d = Some (es @ [(n, False)])"
  "d' \<noteq> d \<Longrightarrow> fs_dir (write_file d n data fs) d' = fs_dir fs d'"
  by (auto simp: write_file_def split: option.split)

text \<open>A fresh directory of a matrix: the runs, and three of them.\<close>

definition fresh_matrix :: "file_system \<Rightarrow> string list \<Rightarrow> bool" where
  "fresh_matrix fs dirs \<longleftrightarrow> dirs \<noteq> [] \<and> list_all plain_name dirs \<and> fs_dir fs (abs_path dirs) = Some [(''runs'', True)]
     \<and> (\<exists>rs. fs_dir fs (path_Join [abs_path dirs, ''runs'']) = Some rs \<and> length rs = 3)"

lemma produced_geometry:
  assumes "fresh_matrix fs dirs"
  shows "ValidateMatrixRootGeometry (write_file (abs_path dirs) matrix_checksums_name body
    (write_documents enc (abs_path dirs) manifest cleanup v fs)) (abs_path dirs) = None"
proof -
  let ?d = "abs_path dirs"
  have d: "dirs \<noteq> []" "list_all plain_name dirs" and l: "fs_dir fs ?d = Some [(''runs'', True)]"
    using assms by (simp_all add: fresh_matrix_def)
  obtain rs where rs: "fs_dir fs (path_Join [?d, ''runs'']) = Some rs" "length rs = 3"
    using assms unfolding fresh_matrix_def by blast
  let ?fs = "write_file ?d matrix_checksums_name body (write_documents enc ?d manifest cleanup v fs)"
  have "path_Join [?d, ''runs''] \<noteq> ?d"
    using path_Join_abs[of dirs "[''runs'']"] abs_path_inject[of "dirs @ [''runs'']" dirs] d plain_runs by simp
  then have "fs_dir ?fs (path_Join [?d, ''runs'']) = Some rs" by (simp add: write_documents_def write_file_dir(2) rs(1))
  moreover have "fs_dir ?fs ?d = Some [(''runs'', True), (''matrix-manifest.json'', False), (''matrix-cleanup.json'', False),
      (''matrix-verdict.json'', False), (''matrix-checksums.txt'', False)]"
    unfolding write_documents_def by (simp add: write_file_dir(1) l matrix_checksums_name_def)
  ultimately show ?thesis
    by (simp add: ValidateMatrixRootGeometry_def matrix_files_def matrix_checksums_name_def canonicalMatrixArtifactInventory_def rs(2))
qed

lemma write_checksums_file_Inr:
  "\<forall>n \<in> set canonicalMatrixArtifactInventory. fs_file fs (path_Join [d, n]) \<noteq> None \<Longrightarrow>
   \<exists>body. write_checksums_file sha d fs = Inr (write_file d matrix_checksums_name body fs)"
  by (auto simp: write_checksums_file_def and_then_def ComputeMatrixChecksums_Inr)

lemma read_written:
  "fs_file fs (path_Join [d, n]) = Some data \<Longrightarrow> decode data = Some x \<Longrightarrow> read_document fs d n decode = Inr x"
  by (simp add: read_document_def)

text \<open>The children of the directory were verified, their objects are gone, and the matrix is what it should be.\<close>

definition ready_matrix ::
  "(string \<Rightarrow> string) \<Rightarrow> matrix_codec \<Rightarrow> matrix_encoder \<Rightarrow> file_system \<Rightarrow> string \<Rightarrow> matrix_manifest \<Rightarrow> verified_run list \<Rightarrow> cleanup_evidence \<Rightarrow> bool" where
  "ready_matrix sha codec enc fs d manifest runs cleanup \<longleftrightarrow>
     declared_schemas manifest \<and> plain_run_ids manifest
     \<and> VerifyDeclaredChildBundles d manifest (default_child_verifier sha codec fs) = Inr runs
     \<and> ValidateCleanupBinding manifest runs cleanup = None
     \<and> matrix_spec (map2 bind_run runs (ce_runs cleanup)) cleanup
     \<and> dec_manifest codec (enc_manifest enc manifest) = Some manifest
     \<and> dec_cleanup codec (enc_cleanup enc cleanup) = Some cleanup
     \<and> (\<forall>v. ReconstructMatrixVerdict manifest (map2 bind_run runs (ce_runs cleanup)) cleanup = Some (Inr v)
            \<longrightarrow> dec_verdict codec (enc_verdict enc v) = Some v)"

lemma shown_started: "list_all2 (shows_child verifyChild d) decls runs \<Longrightarrow> \<forall>run \<in> set runs. vr_start run > 0"
  by (induction rule: list_all2_induct) (auto simp: shows_child_def)

definition accepted_result :: "matrix_result \<Rightarrow> matrix_manifest \<Rightarrow> matrix_verdict \<Rightarrow> bool" where
  "accepted_result res manifest v \<longleftrightarrow> mr_manifest res = manifest \<and> mr_stored res = v \<and> mr_reconstructed res = v
     \<and> mr_children_verified res \<and> mr_cleanup_valid res"

lemma ready_verifies:
  assumes f: "fresh_matrix fs dirs" and sha: "\<And>data. checksum_text (sha data)"
    and r: "ready_matrix sha codec enc fs (abs_path dirs) manifest runs cleanup"
    and v: "ReconstructMatrixVerdict manifest (map2 bind_run runs (ce_runs cleanup)) cleanup = Some (Inr v)"
    and w: "write_checksums_file sha (abs_path dirs) (write_documents enc (abs_path dirs) manifest cleanup v fs) = Inr fs'"
  shows "\<exists>res. VerifyMatrixBundle sha codec fs' (abs_path dirs) (default_child_verifier sha codec fs') = Some (Inr res)
    \<and> accepted_result res manifest v"
proof -
  let ?d = "abs_path dirs" and ?docs = "write_documents enc (abs_path dirs) manifest cleanup v fs" and ?bound = "map2 bind_run runs (ce_runs cleanup)"
  have d: "dirs \<noteq> []" "list_all plain_name dirs" using f by (simp_all add: fresh_matrix_def)
  have b: "VerifyDeclaredChildBundles ?d manifest (default_child_verifier sha codec fs) = Inr runs"
    and c: "ValidateCleanupBinding manifest runs cleanup = None" and spec: "matrix_spec ?bound cleanup" and ids: "plain_run_ids manifest"
    using r by (simp_all add: ready_matrix_def)
  note docs = write_documents_written(1)[OF d, of enc manifest cleanup v fs]
  have n: "\<forall>n \<in> set canonicalMatrixArtifactInventory. fs_file ?docs (path_Join [?d, n]) \<noteq> None"
    using docs by (simp add: documents_written_def canonicalMatrixArtifactInventory_def)
  obtain body where fs': "fs' = write_file ?d matrix_checksums_name body ?docs" using write_checksums_file_Inr[OF n, of sha] w by auto
  have same: "same_below dirs fs' fs"
    unfolding fs' by (rule same_below_trans[OF same_below_write[OF d] write_documents_written(2)[OF d]])
      (simp add: document_names matrix_checksums_name_def)
  have keep: "fs_file fs' (path_Join [?d, n]) = fs_file ?docs (path_Join [?d, n])" if "n \<in> set canonicalMatrixArtifactInventory" for n
    using that matrix_name_plain matrix_names(2) unfolding fs' by (intro write_file_other[OF d]) (auto simp: matrix_files_def)
  have run_docs: "read_document fs' ?d ''matrix-manifest.json'' (dec_manifest codec) = Inr manifest"
    "read_document fs' ?d ''matrix-cleanup.json'' (dec_cleanup codec) = Inr cleanup" "read_document fs' ?d ''matrix-verdict.json'' (dec_verdict codec) = Inr v"
    using docs r v by (auto simp: documents_written_def keep canonicalMatrixArtifactInventory_def ready_matrix_def intro!: read_written)
  have kids: "VerifyDeclaredChildBundles ?d manifest (default_child_verifier sha codec fs') = Inr runs"
    using child_bundles_local[OF same d ids] b by simp
  note k = declared_children[OF kids]
  have bind: "VerifyDeclaredChildRuns ?d manifest cleanup (default_child_verifier sha codec fs') = Inr ?bound"
    using kids c by (simp add: VerifyDeclaredChildRuns_def and_then_def BindVerifiedRunsToCleanup_Inr[THEN iffD2])
  from bound_children[OF bind] have "list_all2 (shows_child (default_child_verifier sha codec fs') (path_Join [?d, ''runs''])) (mx_runs manifest) ?bound" by metis
  then have start: "\<forall>run \<in> set ?bound. vr_start run > 0" by (rule shown_started)
  have "validateMatrixManifestContract manifest = None"
    using k(1,2,5) r by (intro declarations_contract) (simp_all add: list_all2_lengthD ready_matrix_def)
  moreover obtain res where "judge_matrix manifest v cleanup ?bound = Some (Inr res)" "accepted_result res manifest v"
    using judge_produced[OF c refl spec start v] by (auto simp: accepted_result_def)
  ultimately show ?thesis
    using produced_geometry[OF f] matrix_checksums_valid[OF d sha n w] run_docs bind unfolding VerifyMatrixBundle_Inr fs' by blast
qed

lemma accepted_command:
  assumes "VerifyMatrixBundle sha codec fs d (default_child_verifier sha codec fs) = Some (Inr res)" "accepted_result res manifest v" "mv_valid v"
    and "ReconstructMatrixVerdict manifest runs cleanup = Some (Inr v)"
  shows "verifyMatrixCommand sha codec fs d = Some (Inr ())"
proof -
  have "CompareVerdicts v v = Some []"
    using ReconstructMatrixVerdict_Inr[OF assms(4)] by (intro CompareVerdicts_refl) (metis option.map_disc_iff option.distinct(1) map_option_eq_Some)
  then show ?thesis using assms(1-3) by (simp add: verifyMatrixCommand_def accepted_result_def)
qed

text \<open>The whole end of the producer.\<close>

lemma produced_verifies:
  assumes "fresh_matrix fs dirs" "\<And>data. checksum_text (sha data)"
    and "ready_matrix sha codec enc fs (abs_path dirs) manifest runs cleanup"
    and "produceObservedCleanupEvidence (mx_id manifest) manifest runs observe now = Some (Inr cleanup)"
  shows "\<exists>fs'. finish_matrix sha codec enc observe now (abs_path dirs) manifest fs = (fs', Some (Inr ()))
    \<and> verifyMatrixCommand sha codec fs' (abs_path dirs) = Some (Inr ())"
proof -
  let ?d = "abs_path dirs" and ?bound = "map2 bind_run runs (ce_runs cleanup)"
  have d: "dirs \<noteq> []" "list_all plain_name dirs" using assms(1) by (simp_all add: fresh_matrix_def)
  have b: "VerifyDeclaredChildBundles ?d manifest (default_child_verifier sha codec fs) = Inr runs"
    and c: "ValidateCleanupBinding manifest runs cleanup = None" and spec: "matrix_spec ?bound cleanup" and ids: "plain_run_ids manifest"
    and s: "declared_schemas manifest" using assms(3) by (simp_all add: ready_matrix_def)
  let ?fs1 = "write_file ?d ''matrix-manifest.json'' (enc_manifest enc manifest) fs"
  have kids: "VerifyDeclaredChildBundles ?d manifest (default_child_verifier sha codec ?fs1) = Inr runs"
    using child_bundles_local[OF same_below_write[OF d] d ids] b document_names by simp
  obtain v where v: "ReconstructMatrixVerdict manifest ?bound cleanup = Some (Inr v)"
    using ReconstructMatrixVerdict_returns[OF s matrix_spec_runs[OF spec]] .
  have valid: "mv_valid v" using ReconstructMatrixVerdict_valid[OF v] spec by blast
  let ?docs = "write_documents enc ?d manifest cleanup v fs"
  have "\<forall>n \<in> set canonicalMatrixArtifactInventory. fs_file ?docs (path_Join [?d, n]) \<noteq> None"
    using write_documents_written(1)[OF d, of enc manifest cleanup v fs] by (simp add: documents_written_def canonicalMatrixArtifactInventory_def)
  then obtain fs' where w: "write_checksums_file sha ?d ?docs = Inr fs'" using write_checksums_file_Inr by blast
  obtain res where res: "VerifyMatrixBundle sha codec fs' ?d (default_child_verifier sha codec fs') = Some (Inr res)" "accepted_result res manifest v"
    using ready_verifies[OF assms(1-3) v w] by blast
  have "conclude_matrix sha codec enc ?d v (write_file ?d ''matrix-cleanup.json'' (enc_cleanup enc cleanup) ?fs1) = (fs', Some (Inr ()))"
    using res valid w by (simp add: conclude_matrix_def write_documents_def accepted_result_def)
  then have "finish_matrix sha codec enc observe now ?d manifest fs = (fs', Some (Inr ()))"
    using kids v assms(4) c by (simp add: finish_matrix_def BindVerifiedRunsToCleanup_Inr[THEN iffD2])
  with accepted_command[OF res valid v] show ?thesis by blast
qed

end
