(* ===== verification/Lab_Matrix_Child.thy ===== *)
theory Lab_Matrix_Child
  imports Lab_Matrix_Produced
begin

section \<open>The directory of a run, as the matrix reads it\<close>

text \<open>
  The sample file of a run names its process: the reader of the matrix finds the same process in it that the samples
  have. The directory itself, as \<open>run\<close> leaves it, is not one that the matrix accepts.
\<close>

subsection \<open>The process in the sample file\<close>

lemma written_rows:
  assumes "csv_valid samples" "list_all (csv_writable fmt parse_time) samples"
  shows "list_all (csv_row 41) (CSVHeaders # map (SampleForCSV fmt) samples)"
proof -
  have "amount (mm_seq s)" if s: "s \<in> set samples" for s
  proof -
    obtain i where "i < length samples" "s = samples ! i" using s by (metis in_set_conv_nth)
    then show ?thesis using assms(1) csv_valid_amounts[OF assms(1), of i] by (simp add: amount_def csv_valid_def)
  qed
  then show ?thesis using assms header_row row_writable[of _ fmt parse_time] unfolding csv_valid_def list_all_iff by simp
qed

lemma read_records_Inr: "read_records (map Inr rows) = Inr rows"
  by (induction rows) (simp_all add: and_then_def)

lemma scan_header_other:
  "map TrimSpace cells = cells \<Longrightarrow> ''process_pid'' \<notin> set cells \<Longrightarrow> ''process_start_time'' \<notin> set cells \<Longrightarrow> scan_header i p q cells = Inr (p, q)"
  by (induction cells arbitrary: i) (auto simp: Let_def)

lemma scan_header_append:
  "map TrimSpace cells = cells \<Longrightarrow> ''process_pid'' \<notin> set cells \<Longrightarrow> ''process_start_time'' \<notin> set cells \<Longrightarrow>
   scan_header i p q (cells @ others) = scan_header (i + length cells) p q others"
  by (induction cells arbitrary: i) (auto simp: Let_def)

lemma scan_CSVHeaders: "scan_header 0 None None CSVHeaders = Inr (Some 2, Some 3)"
proof -
  have s: "CSVHeaders = take 2 CSVHeaders @ ''process_pid'' # ''process_start_time'' # drop 4 CSVHeaders" by (simp add: CSVHeaders_def)
  have t: "map TrimSpace (take 2 CSVHeaders) = take 2 CSVHeaders" "map TrimSpace (drop 4 CSVHeaders) = drop 4 CSVHeaders"
    using header_facts(2) by (metis take_map, metis drop_map)
  have "TrimSpace ''process_pid'' = ''process_pid''" "TrimSpace ''process_start_time'' = ''process_start_time''"
    by (simp_all add: TrimSpace_plain csv_plain_def)
  moreover have "''process_pid'' \<notin> set (take 2 CSVHeaders)" "''process_start_time'' \<notin> set (take 2 CSVHeaders)"
    "''process_pid'' \<notin> set (drop 4 CSVHeaders)" "''process_start_time'' \<notin> set (drop 4 CSVHeaders)"
    by (simp_all add: CSVHeaders_def)
  moreover have "length (take 2 CSVHeaders) = 2" by (simp add: CSVHeaders_def)
  ultimately show ?thesis
    using scan_header_append[OF t(1), of 0 None None "''process_pid'' # ''process_start_time'' # drop 4 CSVHeaders"]
      scan_header_other[OF t(2), of "Suc (Suc (Suc (Suc 0)))" "Some (Suc (Suc 0))" "Some (Suc (Suc (Suc 0)))"]
    by (subst s) (simp add: Let_def numeral_2_eq_2 numeral_3_eq_3)
qed

definition same_process :: "int \<Rightarrow> nat \<Rightarrow> mem_sample \<Rightarrow> bool" where
  "same_process pid start s \<longleftrightarrow> mm_pid s = pid \<and> mm_start s = start"

lemma identity_row:
  assumes "row_valid s" "same_process pid start s" "known = None \<or> known = Some (pid, start)"
  shows "identity_rows 41 2 3 line known (SampleForCSV fmt s # rows) = identity_rows 41 2 3 (Suc line) (Some (pid, start)) rows"
proof -
  have v: "0 \<le> pid" "pid < 2 ^ 63" "start < 2 ^ 64" using assms(1,2) by (auto simp: row_valid_def same_process_def)
  have c: "SampleForCSV fmt s ! 2 = show_int pid" "SampleForCSV fmt s ! 3 = show_nat start" "length (SampleForCSV fmt s) = 41"
    using assms(2) by (simp_all add: SampleForCSV_def same_process_def del: show_nat.simps)
  have t: "TrimSpace (show_int pid) = show_int pid" "TrimSpace (show_nat start) = show_nat start"
    using csv_plain_show_int[OF v(1)] csv_plain_show_nat by (simp_all add: TrimSpace_plain del: show_nat.simps)
  have n: "show_int pid \<noteq> []" "show_nat start \<noteq> []" using csv_plain_show_int[OF v(1)] show_nat_nonempty by (simp_all del: show_nat.simps)
  show ?thesis unfolding identity_rows.simps c t Let_def
    using assms(3) n by (elim disjE) (simp_all add: Atoi_show_int[OF v(1,2)] ParseUint_show[OF v(3)] del: show_nat.simps)
qed

lemma identity_rows_written:
  "\<forall>s \<in> set samples. row_valid s \<and> same_process pid start s \<Longrightarrow> known = None \<or> known = Some (pid, start) \<Longrightarrow>
   identity_rows 41 2 3 line known (map (SampleForCSV fmt) samples) = Inr (if samples = [] then known else Some (pid, start))"
proof (induction samples arbitrary: line known)
  case (Cons s samples)
  have "row_valid s" "same_process pid start s" using Cons.prems(1) by simp_all
  from identity_row[OF this Cons.prems(2)] show ?case using Cons.IH[of "Some (pid, start)"] Cons.prems(1) by simp
qed simp

lemma one_process: "csv_valid samples \<Longrightarrow> \<forall>s \<in> set samples. same_process (mm_pid (hd samples)) (mm_start (hd samples)) s"
  by (cases samples) (auto simp: csv_valid_def row_before_def same_process_def)

lemma written_identity:
  assumes "csv_valid samples" "list_all (csv_writable fmt parse_time) samples"
  shows "sample_identity (WriteSamplesCSV fmt samples) = Inr (mm_pid (hd samples), mm_start (hd samples))"
proof -
  let ?rows = "CSVHeaders # map (SampleForCSV fmt) samples"
  have "csv_records False False None (WriteSamplesCSV fmt samples) = map Inr ?rows"
    using csv_records_lines[OF written_rows[OF assms], of False None False] by (simp add: WriteSamplesCSV_def comp_def)
  then have r: "read_records (csv_records False False None (WriteSamplesCSV fmt samples)) = Inr ?rows" by (simp only: read_records_Inr)
  have n: "samples \<noteq> []" and v: "\<forall>s \<in> set samples. row_valid s \<and> same_process (mm_pid (hd samples)) (mm_start (hd samples)) s"
    using assms(1) one_process[OF assms(1)] by (auto simp: csv_valid_def list_all_iff)
  have "0 < mm_pid (hd samples)" "0 < mm_start (hd samples)" using n v by (simp_all add: row_valid_def)
  then show ?thesis unfolding sample_identity_def r
    using n identity_rows_written[OF v, of None] header_facts(1) by (cases samples) (simp_all add: scan_CSVHeaders and_then_def)
qed

text \<open>C33. The process the matrix reads from a sample file is the process of the samples: from the file \<open>WriteSamplesCSV\<close> writes for valid
  samples, \<open>extractProcessIdentity\<close> gets the process id and the start time they all share.\<close>

theorem written_samples_identity:
  assumes "csv_valid samples" "list_all (csv_writable fmt parse_time) samples"
  shows "sample_identity (WriteSamplesCSV fmt samples) = Inr (mm_pid (hd samples), mm_start (hd samples))"
  by (rule written_identity[OF assms])

lemma written_samples_identity_witness: "sample_identity (WriteSamplesCSV show_int csv_example) = Inr (42, 7)"
  using written_samples_identity[OF csv_example_facts] by (simp add: csv_example_def blank_sample_def)

subsection \<open>The directory of a run\<close>

text \<open>The inventory \<open>run\<close> declares in the manifest it writes last.\<close>

definition run_inventory :: "string list" where
  "run_inventory = [''manifest.json'', ''verdict.json'', ''samples.csv'', ''events.jsonl'', ''container-inspect.json'', ''container-logs.txt'',
     ''initial-canary-state.json'', ''final-canary-state.json'', ''workload-result.json'', ''qualified-execution-evidence.json'', ''checksums.txt'']"

lemma run_inventory_proper: "proper_inventory run_inventory"
  by code_simp

lemma listed_no_child:
  assumes "verify_inventory sha fs d run_inventory = None"
  shows "verifyChildRunBundle sha codec fs d = Inl (MissingChildFiles [''network-identity.json''])"
proof -
  obtain entries where e: "fs_dir fs d = Some entries" and l: "listing_fault entries run_inventory = None"
    using assms by (auto simp: verify_inventory_def split: option.splits)
  have d: "\<forall>e \<in> set entries. \<not> snd e" and i: "set run_inventory \<subseteq> fst ` set entries"
    and o: "fst ` set entries \<subseteq> insert provenance_sidecar (set run_inventory)" using l unfolding listing_fault_None by blast+
  have f: "(n, False) \<in> set entries \<longleftrightarrow> n \<in> fst ` set entries" for n
  proof
    assume "n \<in> fst ` set entries"
    then obtain e where "e \<in> set entries" "n = fst e" by blast
    with bspec[OF d this(1)] show "(n, False) \<in> set entries" by (cases e) simp
  qed (rule image_eqI[of _ _ "(n, False)"], simp_all)
  have "filter (\<lambda>n. n \<notin> set run_inventory) child_files = [''network-identity.json'']" by code_simp
  moreover have "(n, False) \<notin> set entries \<longleftrightarrow> n \<notin> set run_inventory" if "n \<in> set child_files" for n
  proof -
    have "provenance_sidecar \<notin> set child_files" by code_simp
    then have "n \<noteq> provenance_sidecar" using that by metis
    then show ?thesis using subsetD[OF i, of n] subsetD[OF o, of n] unfolding f[of n] insert_iff by metis
  qed
  ultimately have "filter (\<lambda>n. (n, False) \<notin> set entries) child_files = [''network-identity.json'']"
    by (simp cong: filter_cong)
  then show ?thesis by (simp add: verifyChildRunBundle_def validateChildGeometry_def e pass_def fault_if_def)
qed

subsection \<open>Examples\<close>

text \<open>A directory with the files of the inventory, each with its path as its content, and a checksum that is constant.\<close>

definition run_directory_example :: file_system where
  "run_directory_example = \<lparr>fs_file = (\<lambda>p. Some p), fs_dir = [''/r'' \<mapsto> map (\<lambda>n. (n, False)) run_inventory]\<rparr>"

definition zero_sum :: "string \<Rightarrow> string" where "zero_sum data = replicate 64 CHR ''0''"

lemma zero_sum_text: "checksum_text (zero_sum data)"
  by (simp add: checksum_text_def lower_hex_def zero_sum_def)

lemma root_path: "abs_path [''r''] = ''/r''" "list_all plain_name [''r'']"
  by code_simp+

lemma run_directory_example_holds: "holds_inventory run_directory_example ''/r'' run_inventory"
  by (auto simp: holds_inventory_def run_directory_example_def image_image run_inventory_def checksums_name_def)

lemma run_directory_example_written:
  obtains fs where "WriteChecksumsForInventory zero_sum ''/r'' run_inventory run_directory_example = Inr fs"
    "verify_inventory zero_sum fs ''/r'' run_inventory = None"
proof -
  have "\<exists>es. checksum_entries zero_sum run_directory_example ''/r'' run_inventory = Inr es"
    by (simp add: checksum_entries_Inr run_directory_example_def)
  then obtain fs where w: "WriteChecksumsForInventory zero_sum ''/r'' run_inventory run_directory_example = Inr fs"
    by (auto simp: WriteChecksumsForInventory_def GenerateChecksumsForInventory_def and_then_def)
  note h = written_directory_ok[of zero_sum "[''r'']", unfolded root_path]
  have "verify_inventory zero_sum fs ''/r'' run_inventory = None"
    by (rule h[OF w run_inventory_proper run_directory_example_holds zero_sum_text]) (use root_path(2) in simp_all)
  with w that show thesis by blast
qed

subsection \<open>The guarantees\<close>

text \<open>C21. The checksum file written for an inventory is accepted: after \<open>WriteChecksumsForInventory\<close> on a directory with the files of a proper
  inventory, the inventory and checksum rules of \<open>verify\<close> find nothing to refuse.\<close>

theorem written_checksums_verify:
  assumes "WriteChecksumsForInventory sha (abs_path dirs) inventory fs = Inr fs'"
    and "proper_inventory inventory" "holds_inventory fs (abs_path dirs) inventory" "\<And>data. checksum_text (sha data)"
    and "dirs \<noteq> []" "list_all plain_name dirs"
  shows "verify_inventory sha fs' (abs_path dirs) inventory = None"
  by (rule written_directory_ok[OF assms])

lemma written_checksums_verify_witness:
  "\<exists>fs'. WriteChecksumsForInventory zero_sum ''/r'' run_inventory run_directory_example = Inr fs' \<and> verify_inventory zero_sum fs' ''/r'' run_inventory = None"
proof -
  obtain fs' where w: "WriteChecksumsForInventory zero_sum (abs_path [''r'']) run_inventory run_directory_example = Inr fs'"
    using run_directory_example_written unfolding root_path by metis
  have "verify_inventory zero_sum fs' (abs_path [''r'']) run_inventory = None"
    by (rule written_checksums_verify[OF w run_inventory_proper _ zero_sum_text])
      (use root_path run_directory_example_holds in simp_all)
  with w show ?thesis unfolding root_path by blast
qed

text \<open>C24. A change of a listed file shows: if two states of a directory are both accepted and have the same checksum file, every listed file
  exists in both and has the same checksum.\<close>

theorem tampering_shows:
  assumes "verify_inventory sha fs d inventory = None" "verify_inventory sha fs' d inventory = None"
    and "fs_file fs' (path_Join [d, checksums_name]) = fs_file fs (path_Join [d, checksums_name])"
    and "name \<in> set inventory" "name \<noteq> checksums_name"
  shows "\<exists>data data'. fs_file fs (path_Join [d, name]) = Some data \<and> fs_file fs' (path_Join [d, name]) = Some data' \<and> sha data = sha data'"
  by (rule recorded_twice[OF assms])

lemma tampering_shows_witness:
  "\<exists>fs. verify_inventory zero_sum fs ''/r'' run_inventory = None \<and> (\<exists>data. fs_file fs (path_Join [''/r'', ''samples.csv'']) = Some data)"
proof -
  obtain fs where v: "verify_inventory zero_sum fs ''/r'' run_inventory = None" using run_directory_example_written .
  show ?thesis using v tampering_shows[OF v v refl, of "''samples.csv''"] by (auto simp: run_inventory_def checksums_name_def)
qed

text \<open>C26. No directory of a run is a child of a matrix: a directory \<open>verify\<close> accepts with the inventory that \<open>run\<close> declares is refused by the
  verifier of children, which misses \<open>network-identity.json\<close>.\<close>

theorem run_directory_no_child:
  assumes "verify_inventory sha fs d run_inventory = None"
  shows "verifyChildRunBundle sha codec fs d = Inl (MissingChildFiles [''network-identity.json''])"
  by (rule listed_no_child[OF assms])

lemma run_directory_no_child_witness:
  "\<exists>fs. verify_inventory zero_sum fs ''/r'' run_inventory = None
     \<and> (\<forall>codec. verifyChildRunBundle zero_sum codec fs ''/r'' = Inl (MissingChildFiles [''network-identity.json'']))"
  using run_directory_example_written run_directory_no_child by metis

end
