(* ===== verification/Lab_Matrix_Example.thy ===== *)
theory Lab_Matrix_Example
  imports Lab_Matrix_Child
begin

section \<open>A matrix that is produced and accepted\<close>

text \<open>
  One concrete directory with three runs. A decoder knows the contents it is shown; the checksum function is
  constant, and every command of the Docker client reports that the object is missing.
\<close>

definition ex_subject :: subject_identity where
  "ex_subject = \<lparr>si_commit = ''c'', si_tree = ''t'', si_format = ''sha1'', si_version = ''1'', si_image_id = ''i'', si_image_digest = ''d'',
     si_controller_path = ''p'', si_controller_sha = ''s'', si_exec_hash = ''e'', si_config_hash = ''h''\<rparr>"

definition ex_image :: image_identity where
  "ex_image = \<lparr>im_reference = ''r'', im_id = ''i'', im_digests = [], im_digest_status = [], im_commit = ''c'', im_tree = ''t'', im_subtree = ''u'',
     im_prebuild_sha = ''b'', im_extracted_sha = ''b'', im_revision_label = ''c'', im_tree_label = ''t'', im_subtree_label = ''u'',
     im_sha_label = ''b'', im_container_image = ''i''\<rparr>"

definition ex_manifest :: "string \<Rightarrow> string \<Rightarrow> time \<Rightarrow> run_manifest" where
  "ex_manifest run scenario start = \<lparr>rm_schema = ''1.1.0'', rm_run_id = run, rm_scenario = scenario, rm_started = start, rm_finished = start + 1,
     rm_subject = Some ex_subject, rm_controller = ''5'', rm_host = Some \<lparr>hi_release = ''6'', hi_version = ''v'', hi_cgroup = ''v2'', hi_status = []\<rparr>,
     rm_docker = Some \<lparr>dk_engine = ''27'', dk_api = ''1''\<rparr>, rm_config = Some \<lparr>lc_limits = ''l'', lc_phases = ''p'', lc_thresholds = ''t''\<rparr>,
     rm_inventory = [], rm_image = Some ex_image, rm_metadata_path = []\<rparr>"

definition ex_verdict :: "string \<Rightarrow> string \<Rightarrow> string \<Rightarrow> string \<Rightarrow> child_verdict" where
  "ex_verdict scenario overall memory resource = \<lparr>cv_overall = overall, cv_scenario = scenario, cv_scenario_valid = True,
     cv_canaries_valid = True, cv_memory = memory, cv_resource = resource, cv_semantic = ''stable'', cv_signals = [],
     cv_provenance_valid = True, cv_provenance_error = []\<rparr>"

definition ex_pid :: "string \<Rightarrow> int" where
  "ex_pid run = (if run = ''a'' then 7 else if run = ''b'' then 8 else 9)"

definition ex_samples :: "string \<Rightarrow> mem_sample list" where
  "ex_samples run = [blank_sample 0 5 (ex_pid run) PhaseStartup False\<lparr>mm_start := 5\<rparr>]"

definition ex_content :: "string \<Rightarrow> string \<Rightarrow> string" where
  "ex_content run name = (if name = ''checksums.txt'' then [] else if name = ''samples.csv'' then WriteSamplesCSV show_int (ex_samples run)
     else run @ name)"

definition ex_file :: "string \<Rightarrow> string option" where
  "ex_file p = (case split_on CHR ''/'' p of
     [r, m, runs, run, name] \<Rightarrow> if name \<in> set child_files \<and> run \<in> set [''a'', ''b'', ''c''] then Some (ex_content run name) else None
   | _ \<Rightarrow> None)"

definition ex_fs :: file_system where
  "ex_fs = \<lparr>fs_file = ex_file,
     fs_dir = map_of ([(''/m'', [(''runs'', True)]), (''/m/runs'', [(''a'', True), (''b'', True), (''c'', True)])]
       @ map (\<lambda>run. (''/m/runs/'' @ run, map (\<lambda>name. (name, False)) child_files)) [''a'', ''b'', ''c''])\<rparr>"

definition ex_matrix :: matrix_manifest where
  "ex_matrix = \<lparr>mx_schema = ''1.0.0'', mx_id = ''m1'', mx_started = 1, mx_finished = 9, mx_identity = Some \<lparr>xi_commit = ''c'', xi_tree = ''t'',
     xi_format = ''sha1'', xi_controller_pid = 5, xi_controller_sha = ''s'', xi_run_schema = ''1.1.0'', xi_image_reference = ''r'', xi_image_id = ''i'',
     xi_digests = [], xi_digest_status = [], xi_canary_commit = ''c'', xi_canary_tree = ''t'', xi_canary_subtree = ''u'', xi_canary_sha = ''b'',
     xi_canary_sha_label = ''b'', xi_revision_label = ''c'', xi_tree_label = ''t'', xi_subtree_label = ''u'', xi_kernel_release = ''6'',
     xi_kernel_version = ''v'', xi_cgroup = ''v2'', xi_docker_version = ''27'', xi_docker_api = ''1'', xi_thresholds = None, xi_phases = ''p''\<rparr>,
     mx_runs = [\<lparr>rd_index = 1, rd_scenario = ''canary-growing'', rd_run_id = ''a'', rd_path = ''runs/a'', rd_checksums = []\<rparr>,
       \<lparr>rd_index = 2, rd_scenario = ''canary-bounded'', rd_run_id = ''b'', rd_path = ''runs/b'', rd_checksums = []\<rparr>,
       \<lparr>rd_index = 3, rd_scenario = ''canary-descriptor'', rd_run_id = ''c'', rd_path = ''runs/c'', rd_checksums = []\<rparr>]\<rparr>"

definition ex_codec :: matrix_codec where
  "ex_codec = \<lparr>dec_manifest = (\<lambda>s. if s = ''M'' then Some ex_matrix else None), dec_verdict = (\<lambda>s. None), dec_cleanup = (\<lambda>s. None),
     dec_run_manifest = (\<lambda>s. if s = ''amanifest.json'' then Some (ex_manifest ''a'' ''canary-growing'' 1)
       else if s = ''bmanifest.json'' then Some (ex_manifest ''b'' ''canary-bounded'' 3)
       else if s = ''cmanifest.json'' then Some (ex_manifest ''c'' ''canary-descriptor'' 5) else None),
     dec_run_verdict = (\<lambda>s. if s = ''averdict.json'' then Some (ex_verdict ''canary-growing'' ''growing'' ''growing'' ''stable'')
       else if s = ''bverdict.json'' then Some (ex_verdict ''canary-bounded'' ''stable'' ''stable'' ''stable'')
       else if s = ''cverdict.json'' then Some (ex_verdict ''canary-descriptor'' ''resource_growth'' ''stable'' ''resource_growth'') else None),
     dec_inspect = (\<lambda>s. Some (take 1 s)),
     dec_network = (\<lambda>s. Some \<lparr>ni_schema = ''1.0.0'', ni_id = CHR ''n'' # take 1 s, ni_name = ''net''\<rparr>)\<rparr>"

definition ex_docker :: docker_runner where
  "ex_docker args = Some \<lparr>dr_stdout = [], dr_stderr = ''Error: No such '' @ hd args @ '': '' @ last args, dr_exit = 1, dr_timed_out = False,
     dr_wait_expired = False, dr_stdout_overflow = False, dr_stderr_overflow = False\<rparr>"

definition ex_observe :: cleanup_observer where "ex_observe = ObserveDeclaredRunCleanup ex_docker (\<lambda>_. StatMissing)"

lemma ex_samples_valid: "csv_valid (ex_samples run)" "list_all (csv_writable show_int Atoi) (ex_samples run)"
proof -
  show "csv_valid (ex_samples run)"
    by (simp add: csv_valid_def ex_samples_def ex_pid_def blank_sample_def row_before_def row_valid_def sample_phase_def amounts_def amount_def flagged_def)
  show "list_all (csv_writable show_int Atoi) (ex_samples run)"
    by (simp add: ex_samples_def csv_writable_def time_text_def blank_sample_def csv_plain_show_int Atoi_show_int)
qed

lemma ex_identity: "sample_identity (ex_content run ''samples.csv'') = Inr (ex_pid run, 5)"
  using written_identity[OF ex_samples_valid] by (simp add: ex_content_def) (simp add: ex_samples_def blank_sample_def)

lemma ex_paths:
  "list_all (\<lambda>run. list_all (\<lambda>name. split_on CHR ''/'' (path_Join [''/m/runs/'' @ run, name]) = [[], ''m'', ''runs'', run, name]) child_files)
     [''a'', ''b'', ''c'']"
  by code_simp

lemma ex_file_at: "run \<in> set [''a'', ''b'', ''c''] \<Longrightarrow> name \<in> set child_files \<Longrightarrow>
  fs_file ex_fs (path_Join [''/m/runs/'' @ run, name]) = Some (ex_content run name)"
proof -
  assume r: "run \<in> set [''a'', ''b'', ''c'']" and n: "name \<in> set child_files"
  have "split_on CHR ''/'' (path_Join [''/m/runs/'' @ run, name]) = [[], ''m'', ''runs'', run, name]"
    using ex_paths r n unfolding list_all_iff by blast
  with r n show ?thesis by (simp only: ex_fs_def file_system.simps ex_file_def list.case) (simp only: simp_thms if_True)
qed

lemma ex_geometry: "list_all (\<lambda>run. validateChildGeometry ex_fs (''/m/runs/'' @ run) = None) [''a'', ''b'', ''c'']"
  by code_simp

lemma ex_runs_set: "''a'' \<in> set [''a'', ''b'', ''c'']" "''b'' \<in> set [''a'', ''b'', ''c'']" "''c'' \<in> set [''a'', ''b'', ''c'']"
  by simp_all

lemma ex_checksums: "run \<in> set [''a'', ''b'', ''c''] \<Longrightarrow> verifyChildChecksums zero_sum ex_fs (''/m/runs/'' @ run) = None"
proof -
  assume r: "run \<in> set [''a'', ''b'', ''c'']"
  have "checksums_name \<in> set child_files" by code_simp
  from ex_file_at[OF r this] show ?thesis
    by (simp add: verifyChildChecksums_def ex_content_def checksums_name_def ParseChecksumsFile_def splitLines_def)
qed

lemma ex_child:
  assumes r: "run \<in> set [''a'', ''b'', ''c'']"
    and m: "dec_run_manifest ex_codec (run @ ''manifest.json'') = Some manifest"
    and v: "dec_run_verdict ex_codec (run @ ''verdict.json'') = Some verdict"
    and s: "rm_scenario manifest = cv_scenario verdict" "validateChildVerdictContract verdict = None"
  shows "verifyChildRunBundle zero_sum ex_codec ex_fs (''/m/runs/'' @ run) = Inr \<lparr>cb_manifest = Some manifest, cb_verdict = Some verdict,
    cb_container_id = take 1 run, cb_container_name = [], cb_network_id = CHR ''n'' # take 1 run, cb_network_name = ''net'',
    cb_pid = ex_pid run, cb_start = 5, cb_verified = True\<rparr>"
proof -
  let ?d = "''/m/runs/'' @ run"
  have f: "fs_file ex_fs (path_Join [?d, name]) = Some (ex_content run name)" if "name \<in> set child_files" for name
    by (rule ex_file_at[OF r that])
  have n: "run \<noteq> []" using r by auto
  have g: "validateChildGeometry ex_fs ?d = None" using ex_geometry r unfolding list_all_iff by blast
  have "read_document ex_fs ?d ''manifest.json'' (dec_run_manifest ex_codec) = Inr manifest"
    using f[of "''manifest.json''"] m by (simp add: read_document_def child_files_def ex_content_def)
  moreover have "read_document ex_fs ?d ''verdict.json'' (dec_run_verdict ex_codec) = Inr verdict"
    using f[of "''verdict.json''"] v by (simp add: read_document_def child_files_def ex_content_def)
  moreover have "read_document ex_fs ?d ''container-inspect.json'' (dec_inspect ex_codec) = Inr (take 1 run)"
    using f[of "''container-inspect.json''"] n by (cases run) (simp_all add: read_document_def child_files_def ex_content_def ex_codec_def)
  moreover have "extractProcessIdentity ex_fs (path_Join [?d, ''samples.csv'']) = Inr (ex_pid run, 5)"
    using f[of "''samples.csv''"] ex_identity by (simp add: extractProcessIdentity_def child_files_def)
  moreover have "ReadNetworkIdentity (dec_network ex_codec) ex_fs ?d = Inr (CHR ''n'' # take 1 run, ''net'')"
    using f[of network_identity_name] n
    by (cases run) (simp_all add: ReadNetworkIdentity_def child_files_def ex_content_def ex_codec_def network_identity_name_def)
  ultimately show ?thesis
    using g ex_checksums[OF r] s unfolding verifyChildRunBundle_def
    by (simp only: pass_def child_document_def ensure_def sum.case option.case option.map prod.case simp_thms if_True)
qed

text \<open>The verified runs of the example, and the record of their cleanup.\<close>

definition ex_run :: "int \<Rightarrow> string \<Rightarrow> run_manifest \<Rightarrow> child_verdict \<Rightarrow> verified_run" where
  "ex_run i run manifest verdict = \<lparr>vr_run_id = run, vr_scenario = rm_scenario manifest, vr_index = i, vr_manifest = manifest, vr_verdict = verdict,
     vr_container_id = run, vr_container_name = [], vr_network_id = CHR ''n'' # run, vr_network_name = ''net'', vr_pid = ex_pid run, vr_start = 5,
     vr_process = ProcessGone, vr_child_verified = True, vr_cleanup_loaded = False, vr_cleanup_valid = False\<rparr>"

definition ex_runs :: "verified_run list" where
  "ex_runs = [ex_run 0 ''a'' (ex_manifest ''a'' ''canary-growing'' 1) (ex_verdict ''canary-growing'' ''growing'' ''growing'' ''stable''),
     ex_run 1 ''b'' (ex_manifest ''b'' ''canary-bounded'' 3) (ex_verdict ''canary-bounded'' ''stable'' ''stable'' ''stable''),
     ex_run 2 ''c'' (ex_manifest ''c'' ''canary-descriptor'' 5) (ex_verdict ''canary-descriptor'' ''resource_growth'' ''stable'' ''resource_growth'')]"

definition ex_record :: "int \<Rightarrow> string \<Rightarrow> string \<Rightarrow> cleanup_record" where
  "ex_record i scenario run = \<lparr>cl_index = i, cl_scenario = scenario, cl_run_id = run,
     cl_container = \<lparr>cr_id = run, cr_name = [], cr_status = ''gone''\<rparr>, cl_network = \<lparr>nr_id = CHR ''n'' # run, nr_name = [], nr_status = ''gone''\<rparr>,
     cl_process = \<lparr>pc_pid = ex_pid run, pc_start = 5, pc_status = ''gone''\<rparr>\<rparr>"

definition ex_cleanup :: cleanup_evidence where
  "ex_cleanup = \<lparr>ce_schema = ''1.0.0'', ce_matrix_id = ''m1'', ce_observed = 20, ce_ownership = ''per_run'',
     ce_runs = [ex_record 0 ''canary-growing'' ''a'', ex_record 1 ''canary-bounded'' ''b'', ex_record 2 ''canary-descriptor'' ''c'']\<rparr>"

lemma to_lower_simps: "to_lower [] = []" "to_lower (c # s) = lower_char c # to_lower s"
  by (simp_all add: to_lower_def)

lemma ex_trim: "run \<in> set [''a'', ''b'', ''c''] \<Longrightarrow> TrimSpace run = run" "run \<in> set [''a'', ''b'', ''c''] \<Longrightarrow> TrimSpace (CHR ''n'' # run) = CHR ''n'' # run"
  by (rule TrimSpace_plain, auto simp: csv_plain_def)+

lemma char_110: "char_of (110 :: nat) = CHR ''n''"
  by code_simp

lemma ex_container_gone: "run \<in> set [''a'', ''b'', ''c''] \<Longrightarrow>
  inspect_status classifyContainerInspectAbsence run (ex_docker [''container'', ''inspect'', ''--format={{.Id}}'', run]) = ''gone''"
  using ex_trim[of run]
  by (auto simp: inspect_status_def ex_docker_def classifyContainerInspectAbsence_def classify_absence_def names_absent_def third_part_def
      to_lower_simps lower_char_def has_prefix_def char_110)

lemma ex_network_gone: "run \<in> set [''a'', ''b'', ''c''] \<Longrightarrow>
  inspect_status classifyNetworkInspectAbsence (CHR ''n'' # run) (ex_docker [''network'', ''inspect'', ''--format={{.Id}}'', CHR ''n'' # run]) = ''gone''"
  using ex_trim[of run]
  by (auto simp: inspect_status_def ex_docker_def classifyNetworkInspectAbsence_def classify_absence_def names_absent_def third_part_def
      to_lower_simps lower_char_def has_prefix_def char_110)

definition ex_observation :: "string \<Rightarrow> string \<Rightarrow> cleanup_observation" where
  "ex_observation scenario run = \<lparr>co_run_id = run, co_scenario = scenario, co_container = \<lparr>cr_id = run, cr_name = [], cr_status = ''gone''\<rparr>,
     co_network = \<lparr>nr_id = CHR ''n'' # run, nr_name = [], nr_status = ''gone''\<rparr>, co_process = \<lparr>pc_pid = ex_pid run, pc_start = 5, pc_status = ''gone''\<rparr>\<rparr>"

definition ex_observations :: "cleanup_observation list" where
  "ex_observations = [ex_observation ''canary-growing'' ''a'', ex_observation ''canary-bounded'' ''b'', ex_observation ''canary-descriptor'' ''c'']"

lemma ex_observed: "ObserveDeclaredRunCleanup ex_docker (\<lambda>_. StatMissing) ex_runs = Some (Inr ex_observations)"
proof -
  have o: "observe_run ex_docker (\<lambda>_. StatMissing) i (ex_run j run manifest verdict) = Some (Inr (ex_observation (rm_scenario manifest) run))"
    if "run \<in> set [''a'', ''b'', ''c'']" "rm_scenario manifest = CanonicalScenarioOrder ! i" for i j run manifest verdict
  proof -
    have "run \<noteq> []" "0 < ex_pid run" using that(1) by (auto simp: ex_pid_def)
    then show ?thesis using that(2) ex_container_gone[OF that(1)] ex_network_gone[OF that(1)]
      by (simp add: observe_run_def ex_run_def ObserveContainerCleanup_def ObserveNetworkCleanup_def ObserveProcessCleanup_def process_status_def
          ex_observation_def)
  qed
  show ?thesis
    by (simp add: ObserveDeclaredRunCleanup_def ex_runs_def CanonicalScenarioOrder_def o ex_manifest_def ex_observations_def and_then_def)
qed

lemma ex_built: "BuildObservedMatrixCleanupEvidence ''m1'' ''per_run'' ex_observations 20 = Inr ex_cleanup"
  by code_simp

lemma ex_validated: "ValidateCleanupEvidence ex_cleanup ex_matrix = None"
  by code_simp

lemma ex_bound: "ValidateCleanupBinding ex_matrix ex_runs ex_cleanup = None"
  by code_simp

lemma ex_produced: "produceObservedCleanupEvidence (mx_id ex_matrix) ex_matrix ex_runs ex_observe 20 = Some (Inr ex_cleanup)"
proof -
  have "mx_id ex_matrix = ''m1''" by (simp add: ex_matrix_def)
  then show ?thesis using ex_observed ex_built ex_validated by (simp add: produceObservedCleanupEvidence_def ex_observe_def check_def)
qed

definition ex_bundle :: "string \<Rightarrow> run_manifest \<Rightarrow> child_verdict \<Rightarrow> child_bundle" where
  "ex_bundle run manifest verdict = \<lparr>cb_manifest = Some manifest, cb_verdict = Some verdict, cb_container_id = take 1 run, cb_container_name = [],
     cb_network_id = CHR ''n'' # take 1 run, cb_network_name = ''net'', cb_pid = ex_pid run, cb_start = 5, cb_verified = True\<rparr>"

lemma ex_contents:
  "dec_run_manifest ex_codec (''a'' @ ''manifest.json'') = Some (ex_manifest ''a'' ''canary-growing'' 1)"
  "dec_run_manifest ex_codec (''b'' @ ''manifest.json'') = Some (ex_manifest ''b'' ''canary-bounded'' 3)"
  "dec_run_manifest ex_codec (''c'' @ ''manifest.json'') = Some (ex_manifest ''c'' ''canary-descriptor'' 5)"
  "dec_run_verdict ex_codec (''a'' @ ''verdict.json'') = Some (ex_verdict ''canary-growing'' ''growing'' ''growing'' ''stable'')"
  "dec_run_verdict ex_codec (''b'' @ ''verdict.json'') = Some (ex_verdict ''canary-bounded'' ''stable'' ''stable'' ''stable'')"
  "dec_run_verdict ex_codec (''c'' @ ''verdict.json'') = Some (ex_verdict ''canary-descriptor'' ''resource_growth'' ''stable'' ''resource_growth'')"
  by (simp_all add: ex_codec_def)

lemma ex_scenarios: "rm_scenario (ex_manifest run scenario t) = scenario" "cv_scenario (ex_verdict scenario o1 m r) = scenario"
  "rm_run_id (ex_manifest run scenario t) = run" "validateChildVerdictContract (ex_verdict scenario o1 m r) = None"
  by (simp_all add: ex_manifest_def ex_verdict_def validateChildVerdictContract_def)

lemma ex_bundles:
  "verifyChildRunBundle zero_sum ex_codec ex_fs ''/m/runs/a'' = Inr (ex_bundle ''a'' (ex_manifest ''a'' ''canary-growing'' 1)
     (ex_verdict ''canary-growing'' ''growing'' ''growing'' ''stable''))"
  "verifyChildRunBundle zero_sum ex_codec ex_fs ''/m/runs/b'' = Inr (ex_bundle ''b'' (ex_manifest ''b'' ''canary-bounded'' 3)
     (ex_verdict ''canary-bounded'' ''stable'' ''stable'' ''stable''))"
  "verifyChildRunBundle zero_sum ex_codec ex_fs ''/m/runs/c'' = Inr (ex_bundle ''c'' (ex_manifest ''c'' ''canary-descriptor'' 5)
     (ex_verdict ''canary-descriptor'' ''resource_growth'' ''stable'' ''resource_growth''))"
  using ex_child[OF ex_runs_set(1) ex_contents(1,4)] ex_child[OF ex_runs_set(2) ex_contents(2,5)] ex_child[OF ex_runs_set(3) ex_contents(3,6)]
  by (simp_all add: ex_scenarios ex_bundle_def)

lemma ex_bundle_run:
  assumes "run \<noteq> []" "length run = 1" "ex_pid run > 0" "rd_run_id decl = run" "rd_scenario decl = scenario"
  shows "bundle_run_fault decl (ex_bundle run (ex_manifest run scenario t) (ex_verdict scenario o1 m r)) = None"
    "run_of_bundle i decl (ex_bundle run (ex_manifest run scenario t) (ex_verdict scenario o1 m r))
     = ex_run (int i) run (ex_manifest run scenario t) (ex_verdict scenario o1 m r)"
  using assms by (simp_all add: bundle_run_fault_def ex_bundle_def ex_scenarios run_of_bundle_def ex_run_def)

lemma ex_run_paths: "path_Join [''/m'', ''runs''] = ''/m/runs''" "path_Join [''/m/runs'', ''a''] = ''/m/runs/a''"
  "path_Join [''/m/runs'', ''b''] = ''/m/runs/b''" "path_Join [''/m/runs'', ''c''] = ''/m/runs/c''"
  by code_simp+

lemma ex_declarations: "declarations_fault 0 [] (mx_runs ex_matrix) = None"
  by code_simp

lemma ex_children: "VerifyDeclaredChildBundles ''/m'' ex_matrix (default_child_verifier zero_sum ex_codec ex_fs) = Inr ex_runs"
proof -
  have "verify_each (default_child_verifier zero_sum ex_codec ex_fs) ''/m/runs'' 0 (mx_runs ex_matrix) = Inr ex_runs"
    by (simp add: ex_matrix_def verify_declared_def default_child_verifier_def ex_run_paths ex_bundles ex_bundle_run ex_pid_def
        and_then_def ex_runs_def)
  moreover have "length (mx_runs ex_matrix) = length CanonicalScenarioOrder" by (simp add: ex_matrix_def CanonicalScenarioOrder_def)
  ultimately show ?thesis using ex_declarations by (simp add: VerifyDeclaredChildBundles_def ex_run_paths pass_def)
qed

definition ex_all_bound :: "verified_run list" where
  "ex_all_bound = map2 bind_run ex_runs (ce_runs ex_cleanup)"

lemma ex_declared: "declared_schemas ex_matrix"
  by (simp add: declared_schemas_def ex_matrix_def)

lemma ex_valid: "(case ReconstructMatrixVerdict ex_matrix ex_all_bound ex_cleanup of Some (Inr v) \<Rightarrow> mv_valid v | _ \<Rightarrow> False)"
  by code_simp

lemma ex_spec: "matrix_spec ex_all_bound ex_cleanup"
proof -
  obtain v where "ReconstructMatrixVerdict ex_matrix ex_all_bound ex_cleanup = Some (Inr v)" "mv_valid v"
    using ex_valid by (auto split: option.splits sum.splits)
  then show ?thesis using ReconstructMatrixVerdict_valid by blast
qed

text \<open>The encodings of the three documents.\<close>

definition ex_codec_all :: matrix_codec where
  "ex_codec_all = ex_codec\<lparr>dec_cleanup := (\<lambda>s. if s = ''C'' then Some ex_cleanup else None),
     dec_verdict := (\<lambda>s. case ReconstructMatrixVerdict ex_matrix ex_all_bound ex_cleanup of Some (Inr v) \<Rightarrow> Some v | _ \<Rightarrow> None)\<rparr>"

definition ex_enc :: matrix_encoder where
  "ex_enc = \<lparr>enc_manifest = (\<lambda>_. ''M''), enc_verdict = (\<lambda>_. ''V''), enc_cleanup = (\<lambda>_. ''C'')\<rparr>"

lemma ex_fresh: "fresh_matrix ex_fs [''m'']"
proof -
  have "abs_path [''m''] = ''/m''" "list_all plain_name [''m'']" by code_simp+
  then show ?thesis by (simp add: fresh_matrix_def ex_run_paths) (simp add: ex_fs_def)
qed

end
