(* ===== verification/Lab_Matrix_Accepted.thy ===== *)
theory Lab_Matrix_Accepted
  imports Lab_Matrix_Example
begin

section \<open>Accepted matrices\<close>

text \<open>
  The two sides of the verifier: what it accepts is a matrix in the sense of the specification, and what the producer
  concludes is accepted. Both are shown on the example.
\<close>

subsection \<open>The example is ready\<close>

lemma ex_codec_children:
  "default_child_verifier zero_sum ex_codec_all ex_fs = default_child_verifier zero_sum ex_codec ex_fs"
proof -
  have c: "dec_run_manifest ex_codec_all = dec_run_manifest ex_codec" "dec_run_verdict ex_codec_all = dec_run_verdict ex_codec"
    "dec_inspect ex_codec_all = dec_inspect ex_codec" "dec_network ex_codec_all = dec_network ex_codec"
    by (simp_all add: ex_codec_all_def)
  show ?thesis unfolding default_child_verifier_def verifyChildRunBundle_def c ..
qed

lemma ex_root: "abs_path [''m''] = ''/m''"
  by code_simp

lemma ex_ready: "ready_matrix zero_sum ex_codec_all ex_enc ex_fs (abs_path [''m'']) ex_matrix ex_runs ex_cleanup"
  unfolding ready_matrix_def ex_root ex_all_bound_def[symmetric]
proof (intro conjI allI impI)
  show "plain_run_ids ex_matrix" by code_simp
  show "dec_verdict ex_codec_all (enc_verdict ex_enc v) = Some v"
    if "ReconstructMatrixVerdict ex_matrix ex_all_bound ex_cleanup = Some (Inr v)" for v
    using that by (simp add: ex_codec_all_def)
  show "dec_manifest ex_codec_all (enc_manifest ex_enc ex_matrix) = Some ex_matrix" by (simp add: ex_codec_all_def ex_codec_def ex_enc_def)
  show "dec_cleanup ex_codec_all (enc_cleanup ex_enc ex_cleanup) = Some ex_cleanup" by (simp add: ex_codec_all_def ex_enc_def)
qed (simp_all add: ex_declared ex_codec_children ex_children ex_bound ex_spec)

subsection \<open>The guarantees\<close>

text \<open>C8. What the producer concludes, the verifier accepts. In a fresh directory, with children that verify, objects observed gone and a
  matrix that meets the specification, \<open>finish_matrix\<close> ends without an error and \<open>verify-matrix\<close> accepts the directory it left. The
  encoders need to be read back on the three documents that are written, and the checksum function gives 64 lower-case hexadecimal digits.\<close>

theorem produced_matrix_accepted:
  assumes "fresh_matrix fs dirs" "\<And>data. checksum_text (sha data)"
    and "ready_matrix sha codec enc fs (abs_path dirs) manifest runs cleanup"
    and "produceObservedCleanupEvidence (mx_id manifest) manifest runs observe now = Some (Inr cleanup)"
  shows "\<exists>fs'. finish_matrix sha codec enc observe now (abs_path dirs) manifest fs = (fs', Some (Inr ()))
    \<and> verifyMatrixCommand sha codec fs' (abs_path dirs) = Some (Inr ())"
  by (rule produced_verifies[OF assms])

lemma produced_matrix_accepted_witness:
  "\<exists>fs'. finish_matrix zero_sum ex_codec_all ex_enc ex_observe 20 (abs_path [''m'']) ex_matrix ex_fs = (fs', Some (Inr ()))
    \<and> verifyMatrixCommand zero_sum ex_codec_all fs' (abs_path [''m'']) = Some (Inr ())"
  by (rule produced_matrix_accepted[OF ex_fresh zero_sum_text ex_ready ex_produced])

text \<open>C3. A matrix directory that \<open>VerifyMatrixBundle\<close> accepts is a valid matrix: its runs meet \<open>matrix_spec\<close> together with the cleanup record,
  each run shows what the verifier of children found in the directory the manifest declares for it, the cleanup was observed after the end
  of the matrix, the stored verdict says valid, and the three documents have the checksums on record.\<close>

theorem accepted_matrix_sound:
  assumes "VerifyMatrixBundle sha codec fs d verifyChild = Some (Inr res)"
  shows "matrix_spec (mr_runs res) (mr_cleanup res)
    \<and> list_all2 (shows_child verifyChild (path_Join [d, ''runs''])) (mx_runs (mr_manifest res)) (mr_runs res)
    \<and> mx_finished (mr_manifest res) \<le> ce_observed (mr_cleanup res)
    \<and> mv_valid (mr_stored res) \<and> documents_recorded sha fs d"
  by (rule accepted_shows[OF assms])

lemma accepted_matrix_sound_witness:
  "\<exists>fs' res. VerifyMatrixBundle zero_sum ex_codec_all fs' ''/m'' (default_child_verifier zero_sum ex_codec_all fs') = Some (Inr res)
     \<and> matrix_spec (mr_runs res) (mr_cleanup res) \<and> documents_recorded zero_sum fs' ''/m''"
proof -
  obtain fs' where "verifyMatrixCommand zero_sum ex_codec_all fs' ''/m'' = Some (Inr ())"
    using produced_verifies[OF ex_fresh zero_sum_text ex_ready ex_produced] unfolding ex_root by blast
  then obtain res where "VerifyMatrixBundle zero_sum ex_codec_all fs' ''/m'' (default_child_verifier zero_sum ex_codec_all fs') = Some (Inr res)"
    by (auto simp: verifyMatrixCommand_def split: option.splits sum.splits)
  with accepted_matrix_sound[OF this] show ?thesis by blast
qed

end
