(* ===== verification/Lab_Cleanup_Observed.thy ===== *)
theory Lab_Cleanup_Observed
  imports Lab_Matrix_Example
begin

section \<open>What an observed cleanup shows\<close>

text \<open>
  An object is recorded as gone only where the Docker client or \<open>/proc\<close> said so: the client failed without a timeout
  or a truncated output, and a line of its complaint names the very object.
\<close>

subsection \<open>Lines of a text\<close>

lemma line_contains: "line \<in> set (split_on d s) \<Longrightarrow> str_contains (to_lower line) t \<Longrightarrow> str_contains (to_lower s) t"
  unfolding str_contains_iff to_lower_def using split_on_piece[of line d s] by (metis append.assoc map_append)

subsection \<open>Absence\<close>

text \<open>A complaint of the client about this very object, and a call that ended by itself.\<close>

definition reports_absent :: "string \<Rightarrow> string \<Rightarrow> docker_result \<Rightarrow> bool" where
  "reports_absent phrase objectID result \<longleftrightarrow>
     dr_exit result \<noteq> 0 \<and> \<not> dr_timed_out result \<and> \<not> dr_wait_expired result \<and> \<not> dr_stdout_overflow result \<and> \<not> dr_stderr_overflow result
     \<and> (\<exists>line \<in> set (split_on CHR 0x0A (dr_stderr result)). str_contains (to_lower line) phrase
          \<and> (\<exists>c. third_part line = Some c \<and> TrimSpace c = objectID))"

lemma classify_absence_iff:
  "classify_absence phrase objectID result \<longleftrightarrow>
     (\<exists>line \<in> set (split_on CHR 0x0A (dr_stderr result)). str_contains (to_lower line) phrase
        \<and> (\<exists>c. third_part line = Some c \<and> TrimSpace c = objectID))"
  using line_contains[of _ "CHR 0x0A" "dr_stderr result" phrase]
  by (auto simp: classify_absence_def names_absent_def list_ex_iff)

lemma inspect_gone:
  "inspect_status (classify_absence phrase) objectID reply = ObjectGone \<longleftrightarrow>
     (\<exists>result. reply = Some result \<and> reports_absent phrase objectID result)"
  by (auto simp: inspect_status_def reports_absent_def classify_absence_iff split: option.split)

definition container_query :: "string \<Rightarrow> string list" where
  "container_query objectID = [''container'', ''inspect'', ''--format={{.Id}}'', objectID]"

definition network_query :: "string \<Rightarrow> string list" where
  "network_query objectID = [''network'', ''inspect'', ''--format={{.Id}}'', objectID]"

definition reuses :: "(int \<Rightarrow> stat_read) \<Rightarrow> verified_run \<Rightarrow> bool" where
  "reuses stat run \<longleftrightarrow> (\<exists>data n. stat (vr_pid run) = StatData data \<and> parseProcStatStartTime data = StatStart n \<and> n \<noteq> vr_start run)"

text \<open>What a record of a run says, against what the client and \<open>/proc\<close> said.\<close>

definition truthful :: "docker_runner \<Rightarrow> (int \<Rightarrow> stat_read) \<Rightarrow> verified_run \<Rightarrow> cleanup_observation \<Rightarrow> bool" where
  "truthful docker stat run obs \<longleftrightarrow>
     co_run_id obs = vr_run_id run \<and> cr_id (co_container obs) = vr_container_id run \<and> nr_id (co_network obs) = vr_network_id run
     \<and> pc_pid (co_process obs) = vr_pid run
     \<and> (cr_status (co_container obs) = ObjectGone \<longleftrightarrow>
          (\<exists>result. docker (container_query (vr_container_id run)) = Some result \<and> reports_absent ''no such container'' (vr_container_id run) result))
     \<and> (nr_status (co_network obs) = ObjectGone \<longleftrightarrow>
          (\<exists>result. docker (network_query (vr_network_id run)) = Some result \<and> reports_absent ''no such network'' (vr_network_id run) result))
     \<and> (pc_status (co_process obs) = ProcessGoneCode \<longleftrightarrow> stat (vr_pid run) = StatMissing)
     \<and> (pc_status (co_process obs) = ProcessPIDReusedCode \<longleftrightarrow> reuses stat run)"

lemma process_truthful:
  assumes "ObserveProcessCleanup stat (vr_pid run) (vr_start run) = Some p" "0 < vr_pid run"
  shows "pc_pid p = vr_pid run" "pc_status p = ProcessGoneCode \<longleftrightarrow> stat (vr_pid run) = StatMissing"
    "pc_status p = ProcessPIDReusedCode \<longleftrightarrow> reuses stat run"
  using assms by (auto simp: ObserveProcessCleanup_def process_status_def reuses_def split: stat_read.splits stat_start.splits if_splits)

lemma observe_run_truthful:
  assumes "observe_run docker stat i run = Some (Inr obs)"
  shows "truthful docker stat run obs"
proof -
  have c: "vr_container_id run \<noteq> []" "0 < vr_pid run" "vr_network_id run \<noteq> []"
    using assms by (auto simp: observe_run_def ObserveNetworkCleanup_def split: if_splits option.splits)
  obtain p where p: "ObserveProcessCleanup stat (vr_pid run) (vr_start run) = Some p"
    and o: "obs = \<lparr>co_run_id = vr_run_id run, co_scenario = vr_scenario run,
      co_container = \<lparr>cr_id = vr_container_id run, cr_name = [],
        cr_status = inspect_status classifyContainerInspectAbsence (vr_container_id run) (docker (container_query (vr_container_id run)))\<rparr>,
      co_network = \<lparr>nr_id = vr_network_id run, nr_name = [],
        nr_status = inspect_status classifyNetworkInspectAbsence (vr_network_id run) (docker (network_query (vr_network_id run)))\<rparr>,
      co_process = p\<rparr>"
    using assms c unfolding observe_run_def ObserveContainerCleanup_def ObserveNetworkCleanup_def container_query_def network_query_def
    by (auto split: if_splits option.splits)
  show ?thesis unfolding truthful_def o classifyContainerInspectAbsence_def classifyNetworkInspectAbsence_def
    using process_truthful[OF p c(2)] by (simp only: cleanup_observation.simps container_record.simps network_record.simps inspect_gone simp_thms)
qed

lemma observe_from_truthful:
  "observe_from docker stat i runs = Some (Inr os) \<Longrightarrow> list_all2 (truthful docker stat) runs os"
proof (induction runs arbitrary: i os)
  case (Cons run runs)
  then obtain obs rest where "observe_run docker stat i run = Some (Inr obs)" "observe_from docker stat (Suc i) runs = Some (Inr rest)" "os = obs # rest"
    by (auto simp: and_then_Inr split: option.splits sum.splits)
  then show ?case using Cons.IH observe_run_truthful by simp
qed simp

text \<open>C20. An observed cleanup is truthful: for every run the record names the objects of the run; the container and the network are called gone
  exactly when the Docker client ended by itself with a complaint that names that object; the process is called gone exactly when \<open>/proc\<close> has no
  such process, and reused exactly when another start time is read there.\<close>

theorem observed_cleanup_truthful:
  assumes "ObserveDeclaredRunCleanup docker stat runs = Some (Inr os)"
  shows "list_all2 (truthful docker stat) runs os"
  using assms observe_from_truthful by (auto simp: ObserveDeclaredRunCleanup_def split: if_splits)

lemma observed_cleanup_truthful_witness:
  "ObserveDeclaredRunCleanup ex_docker (\<lambda>_. StatMissing) ex_runs = Some (Inr ex_observations)
   \<and> list_all2 (truthful ex_docker (\<lambda>_. StatMissing)) ex_runs ex_observations"
  using ex_observed observed_cleanup_truthful[OF ex_observed] by simp

end
