(* ===== verification/Lab_Matrix_Command.thy ===== *)
theory Lab_Matrix_Command
  imports Lab_Matrix_Verify
begin

section \<open>The matrix command\<close>

text \<open>
  Models the loop of \<open>matrixCommandWithDeps\<close> in \<open>matrix_cmd.go\<close> over the three scenarios, with the checks it makes after
  each of them, and the comparisons of \<open>matrix.go\<close>, \<open>matrix_cmd.go\<close> and \<open>container_identity.go\<close> that only tests call.

  Running a scenario is an argument: it changes the file system and succeeds or fails. The lenient decoder of
  \<open>json.Unmarshal\<close>, the names of the containers on the host, \<open>/proc\<close> and the clock are arguments too. The identity of
  the execution, acquired from git, Docker and the host before the loop, is given.
\<close>

subsection \<open>The contract of a scenario\<close>

datatype contract_fault = UnknownScenario string | WorkloadCounts | RetainedBlocks int | RetainedBytes int | ModeChanged
  | CapacityChanged | FDGrowth int | SignalSampleCount int | SignalAvailable int | SignalMissing int | SignalDelta int
  | SignalNotPrimary | SignalCount nat | OverallClass string | MemoryClass string | ResourceClass string | SemanticClass string
  | NotScenarioValid | NotCanariesValid | NotProvenanceValid string

definition workload_is :: "int \<Rightarrow> workload_result \<Rightarrow> bool" where
  "workload_is n w \<longleftrightarrow> wr_requested w = n \<and> wr_attempted w = n \<and> wr_completed w = n \<and> wr_failed w = 0 \<and> wr_returned w = n"

definition descriptor_signal_name :: string where "descriptor_signal_name = ''descriptor_state_invariant''"

definition signal_faults :: "signal_summary \<Rightarrow> contract_fault list" where
  "signal_faults sig =
     errors_if (sg_samples sig \<noteq> 2) (SignalSampleCount (sg_samples sig))
     @ errors_if (sg_available sig \<noteq> 2) (SignalAvailable (sg_available sig))
     @ errors_if (sg_missing sig \<noteq> 0) (SignalMissing (sg_missing sig))
     @ errors_if (sg_delta sig \<noteq> 200) (SignalDelta (sg_delta sig))
     @ errors_if (\<not> sg_primary sig) SignalNotPrimary"

definition scenario_faults :: "string \<Rightarrow> workload_result \<Rightarrow> canary_state \<Rightarrow> canary_state \<Rightarrow> child_verdict \<Rightarrow> contract_fault list" where
  "scenario_faults scenario w initial final v =
     (if scenario = ''canary-growing'' then
        errors_if (\<not> workload_is 32 w) WorkloadCounts
        @ errors_if (cy_blocks final \<noteq> 32) (RetainedBlocks (cy_blocks final))
        @ errors_if (cy_bytes final \<noteq> 33554432) (RetainedBytes (cy_bytes final))
        @ errors_if (cy_mode initial \<noteq> ''growing'' \<or> cy_mode final \<noteq> ''growing'') ModeChanged
      else if scenario = ''canary-bounded'' then
        errors_if (\<not> workload_is 100 w) WorkloadCounts
        @ errors_if (cy_buffer initial \<noteq> cy_buffer final) CapacityChanged
        @ errors_if (cy_blocks final \<noteq> 0 \<or> cy_bytes final \<noteq> 0) (RetainedBlocks (cy_blocks final))
        @ errors_if (cy_mode initial \<noteq> ''bounded'' \<or> cy_mode final \<noteq> ''bounded'') ModeChanged
      else if scenario = ''canary-descriptor'' then
        (let fdDelta = wrap64 (cy_fd final - cy_fd initial); found = filter (\<lambda>sig. sg_name sig = descriptor_signal_name) (cv_signals v)
         in errors_if (\<not> workload_is 100 w) WorkloadCounts
          @ errors_if (fdDelta \<noteq> 200) (FDGrowth fdDelta)
          @ errors_if (cy_blocks final \<noteq> 0 \<or> cy_bytes final \<noteq> 0) (RetainedBlocks (cy_blocks final))
          @ errors_if (cy_mode initial \<noteq> ''descriptor'' \<or> cy_mode final \<noteq> ''descriptor'') ModeChanged
          @ concat (map signal_faults found)
          @ errors_if (length found \<noteq> 1) (SignalCount (length found)))
      else [])"

definition ValidateScenarioContract ::
  "string \<Rightarrow> workload_result \<Rightarrow> canary_state \<Rightarrow> canary_state \<Rightarrow> child_verdict \<Rightarrow> contract_fault list" where
  "ValidateScenarioContract scenario w initial final v =
     (case map_of ExpectedScenarioClassifications scenario of
        None \<Rightarrow> [UnknownScenario scenario]
      | Some (overall, memory, resource, semantic) \<Rightarrow>
          scenario_faults scenario w initial final v
          @ errors_if (cv_overall v \<noteq> overall) (OverallClass (cv_overall v))
          @ errors_if (cv_memory v \<noteq> memory) (MemoryClass (cv_memory v))
          @ errors_if (cv_resource v \<noteq> resource) (ResourceClass (cv_resource v))
          @ errors_if (cv_semantic v \<noteq> semantic) (SemanticClass (cv_semantic v))
          @ errors_if (\<not> cv_scenario_valid v) NotScenarioValid
          @ errors_if (\<not> cv_canaries_valid v) NotCanariesValid
          @ errors_if (\<not> cv_provenance_valid v) (NotProvenanceValid (cv_provenance_error v)))"

subsection \<open>The checks after a scenario\<close>

record loose_codec =
  lx_manifest :: "string \<Rightarrow> run_manifest option"
  lx_verdict :: "string \<Rightarrow> child_verdict option"
  lx_workload :: "string \<Rightarrow> workload_result option"
  lx_state :: "string \<Rightarrow> canary_state option"

datatype scenario_error = ScenarioFailed string | ChildFile matrix_fault | ContractViolations "contract_fault list" | ChildSchemaVersion string
  | ChildChecksumError checksum_fault | IdentityUnknown identity_fault | ProcessNotGone process_cleanup | ContainerListFailed
  | ContainerExists string

definition need :: "matrix_fault + 'd \<Rightarrow> ('d \<Rightarrow> scenario_error option) \<Rightarrow> scenario_error option" where
  "need doc k = (case doc of Inl e \<Rightarrow> Some (ChildFile e) | Inr x \<Rightarrow> k x)"

definition verifyChildRun :: "(string \<Rightarrow> string) \<Rightarrow> loose_codec \<Rightarrow> file_system \<Rightarrow> string \<Rightarrow> string \<Rightarrow> scenario_error option" where
  "verifyChildRun sha loose fs runPath scenario =
     need (read_document fs runPath ''manifest.json'' (lx_manifest loose)) (\<lambda>manifest.
     need (read_document fs runPath ''verdict.json'' (lx_verdict loose)) (\<lambda>verdict.
     need (read_document fs runPath ''workload-result.json'' (lx_workload loose)) (\<lambda>workload.
     need (read_document fs runPath ''initial-canary-state.json'' (lx_state loose)) (\<lambda>initial.
     need (read_document fs runPath ''final-canary-state.json'' (lx_state loose)) (\<lambda>final.
       let faults = ValidateScenarioContract scenario workload initial final verdict
       in if faults \<noteq> [] then Some (ContractViolations faults)
          else if rm_schema manifest \<noteq> ''1.1.0'' then Some (ChildSchemaVersion (rm_schema manifest))
          else map_option ChildChecksumError (verifyChildChecksums sha fs runPath))))))"

text \<open>The first container whose name has the run id or the prefix of the subjects in it.\<close>

definition surviving_container :: "string \<Rightarrow> string list \<Rightarrow> string option" where
  "surviving_container runID names = find (\<lambda>name. str_contains name runID \<or> str_contains name ''tovarisch-subject-'') names"

definition verifyContainerCleanup ::
  "file_system \<Rightarrow> (int \<Rightarrow> stat_read) \<Rightarrow> string list option \<Rightarrow> string \<Rightarrow> string \<Rightarrow> scenario_error option option" where
  "verifyContainerCleanup fs stat containers runID runPath =
     (case extractProcessIdentity fs (path_Join [runPath, ''samples.csv'']) of
        Inl e \<Rightarrow> Some (Some (IdentityUnknown e))
      | Inr (pid, startTime) \<Rightarrow>
          (case inspectProcessGone stat pid startTime of
             None \<Rightarrow> None
           | Some status \<Rightarrow> Some
               (if status \<noteq> ProcessGone \<and> status \<noteq> ProcessPIDReused then Some (ProcessNotGone status)
                else case containers of
                  None \<Rightarrow> Some ContainerListFailed
                | Some names \<Rightarrow> map_option ContainerExists (surviving_container runID names))))"

subsection \<open>The loop\<close>

text \<open>\<open>os.MkdirAll\<close> of one more directory.\<close>

definition make_dir :: "string \<Rightarrow> string \<Rightarrow> file_system \<Rightarrow> file_system" where
  "make_dir d name fs =
     (let p = path_Join [d, name]; listed = (case fs_dir fs d of None \<Rightarrow> [] | Some es \<Rightarrow> es)
      in fs\<lparr>fs_dir := ((fs_dir fs)(d \<mapsto> if name \<in> fst ` set listed then listed else listed @ [(name, True)]))
                       (p \<mapsto> case fs_dir fs p of None \<Rightarrow> [] | Some es \<Rightarrow> es)\<rparr>)"

text \<open>What the command meets at the run with a given index: its scenario, the clock, the containers and \<open>/proc\<close>.\<close>

record matrix_env =
  me_run :: "string \<Rightarrow> string \<Rightarrow> file_system \<Rightarrow> bool \<times> file_system"
  me_nanos :: "nat \<Rightarrow> int"
  me_containers :: "nat \<Rightarrow> string list option"
  me_stat :: "nat \<Rightarrow> int \<Rightarrow> stat_read"
  me_loose :: loose_codec

text \<open>The files, the declarations so far, and the errors collected.\<close>

type_synonym loop_state = "file_system \<times> run_declaration list \<times> scenario_error list"

definition declare_run ::
  "(string \<Rightarrow> string) \<Rightarrow> loose_codec \<Rightarrow> file_system \<Rightarrow> string \<Rightarrow> nat \<Rightarrow> string \<Rightarrow> string \<Rightarrow> bundle_fault + run_declaration" where
  "declare_run sha loose fs runPath i scenario runID =
     (case fs_file fs (path_Join [runPath, checksums_name]) of
        None \<Rightarrow> Inl (Matrix (UnreadableDocument checksums_name))
      | Some data \<Rightarrow>
          (case read_document fs runPath ''manifest.json'' (lx_manifest loose) of
             Inl e \<Rightarrow> Inl (Matrix e)
           | Inr manifest \<Rightarrow> Inr \<lparr>rd_index = int i + 1, rd_scenario = scenario, rd_run_id = runID,
               rd_path = path_Join [''runs'', runID], rd_checksums = sha data\<rparr>))"

definition scenario_step ::
  "(string \<Rightarrow> string) \<Rightarrow> matrix_env \<Rightarrow> string \<Rightarrow> nat \<Rightarrow> string \<Rightarrow> loop_state \<Rightarrow> (bundle_fault + loop_state) option" where
  "scenario_step sha env runsDir i scenario st =
     (let (fs, declared, errors) = st; runID = scenario @ ''-'' @ show_int (me_nanos env i); runPath = path_Join [runsDir, runID];
          (ok, fs1) = me_run env scenario runPath (make_dir runsDir runID fs);
          outcome = (if \<not> ok then Inr (declared, errors @ [ScenarioFailed scenario])
            else case declare_run sha (me_loose env) fs1 runPath i scenario runID of
              Inl e \<Rightarrow> Inl e
            | Inr decl \<Rightarrow> Inr (declared @ [decl],
                errors @ (case verifyChildRun sha (me_loose env) fs1 runPath scenario of None \<Rightarrow> [] | Some e \<Rightarrow> [e])))
      in case outcome of
           Inl e \<Rightarrow> Some (Inl e)
         | Inr (declared', errors') \<Rightarrow>
             map_option (\<lambda>c. Inr (fs1, declared', errors' @ (case c of None \<Rightarrow> [] | Some e \<Rightarrow> [e])))
               (verifyContainerCleanup fs1 (me_stat env i) (me_containers env i) runID runPath))"

fun scenario_loop ::
  "(string \<Rightarrow> string) \<Rightarrow> matrix_env \<Rightarrow> string \<Rightarrow> nat \<Rightarrow> string list \<Rightarrow> loop_state \<Rightarrow> (bundle_fault + loop_state) option" where
  "scenario_loop sha env runsDir i [] st = Some (Inr st)"
| "scenario_loop sha env runsDir i (scenario # scenarios) st =
     (case scenario_step sha env runsDir i scenario st of
        None \<Rightarrow> None
      | Some (Inl e) \<Rightarrow> Some (Inl e)
      | Some (Inr st') \<Rightarrow> scenario_loop sha env runsDir (Suc i) scenarios st')"

text \<open>The command from the creation of its directory on. The collected errors are not looked at.\<close>

definition matrixCommandWithDeps ::
  "(string \<Rightarrow> string) \<Rightarrow> matrix_codec \<Rightarrow> matrix_encoder \<Rightarrow> matrix_env \<Rightarrow> cleanup_observer \<Rightarrow> execution_identity
   \<Rightarrow> time \<Rightarrow> time \<Rightarrow> time \<Rightarrow> string \<Rightarrow> string \<Rightarrow> file_system \<Rightarrow> (bundle_fault + unit) option" where
  "matrixCommandWithDeps sha codec enc env observe identity started finished now artifactsDir matrixID fs =
     (let matrixDir = path_Join [artifactsDir, matrixID]; fs0 = make_dir matrixDir ''runs'' (make_dir artifactsDir matrixID fs)
      in case scenario_loop sha env (path_Join [matrixDir, ''runs'']) 0 CanonicalScenarioOrder (fs0, [], []) of
           None \<Rightarrow> None
         | Some (Inl e) \<Rightarrow> Some (Inl e)
         | Some (Inr (fs1, declared, errors)) \<Rightarrow>
             snd (finish_matrix sha codec enc observe now matrixDir
               \<lparr>mx_schema = ''1.0.0'', mx_id = matrixID, mx_started = started, mx_finished = finished, mx_identity = Some identity,
                mx_runs = declared\<rparr> fs1))"

subsection \<open>Comparisons without a caller\<close>

text \<open>Floats are compared as IEEE does: NaN differs from itself.\<close>

definition feq :: "f64 \<Rightarrow> f64 \<Rightarrow> bool" where
  "feq x y \<longleftrightarrow> x = y \<and> x \<noteq> NaN"

definition thresholdsEqual :: "thresholds \<Rightarrow> thresholds \<Rightarrow> bool" where
  "thresholdsEqual a b \<longleftrightarrow>
     th_memory_kib a = th_memory_kib b \<and> feq (th_memory_percent a) (th_memory_percent b) \<and> th_resource a = th_resource b
     \<and> th_corroboration a = th_corroboration b \<and> th_sample_min a = th_sample_min b \<and> th_window_min a = th_window_min b"

text \<open>The fields that are compared one by one; a missing threshold is a panic.\<close>

definition identity_texts :: "execution_identity \<Rightarrow> (string \<times> string) list" where
  "identity_texts x = [(''implementation_commit_oid'', xi_commit x), (''implementation_tree_oid'', xi_tree x), (''git_object_format'', xi_format x),
     (''controller_pid'', show_int (xi_controller_pid x)), (''controller_executable_sha256'', xi_controller_sha x),
     (''run_manifest_schema_version'', xi_run_schema x), (''image_reference'', xi_image_reference x), (''image_id'', xi_image_id x)]"

definition identity_more :: "execution_identity \<Rightarrow> (string \<times> string) list" where
  "identity_more x = [(''repo_digest_status'', xi_digest_status x), (''canary_source_commit_oid'', xi_canary_commit x),
     (''canary_repository_tree_oid'', xi_canary_tree x), (''canary_source_subtree_oid'', xi_canary_subtree x), (''canary_binary_sha256'', xi_canary_sha x),
     (''canary_binary_sha256_label'', xi_canary_sha_label x), (''canary_revision_label'', xi_revision_label x), (''canary_tree_label'', xi_tree_label x),
     (''canary_subtree_label'', xi_subtree_label x), (''host_kernel_release'', xi_kernel_release x), (''host_kernel_version'', xi_kernel_version x),
     (''host_cgroup_mode'', xi_cgroup x), (''docker_engine_version'', xi_docker_version x), (''docker_api_version'', xi_docker_api x)]"

definition changed_texts :: "(string \<times> string) list \<Rightarrow> (string \<times> string) list \<Rightarrow> string list" where
  "changed_texts xs ys = concat (map2 (\<lambda>x y. errors_if (snd x \<noteq> snd y) (fst x @ '' differs'')) xs ys)"

definition CompareExecutionIdentity :: "execution_identity \<Rightarrow> execution_identity \<Rightarrow> string list option" where
  "CompareExecutionIdentity a b =
     (case (xi_thresholds a, xi_thresholds b) of
        (Some s, Some t) \<Rightarrow> Some
          (changed_texts (identity_texts a) (identity_texts b)
           @ errors_if (xi_digests a \<noteq> xi_digests b) ''repo_digests differs''
           @ changed_texts (identity_more a) (identity_more b)
           @ errors_if (\<not> thresholdsEqual s t) ''thresholds differ'')
      | _ \<Rightarrow> None)"

text \<open>The older check of the manifests leaves out what it has no evidence for; a fourth manifest is a panic.\<close>

definition verifyCrossRunIdentity :: "run_manifest list \<Rightarrow> cross_run_checks option" where
  "verifyCrossRunIdentity manifests =
     (let no_checks = \<lparr>xc_commit_tree = False, xc_controller_pid = False, xc_controller_hash = False, xc_schema = False, xc_thresholds = False,
            xc_phases = False, xc_host = False, xc_docker = False, xc_image = False, xc_binary = False, xc_run_ids = False, xc_processes = False,
            xc_containers = False, xc_order = False, xc_disjoint = False, xc_cleanup = False, xc_passed = 0\<rparr>;
          ref = hd manifests; scenarios = map rm_scenario manifests;
          checks = no_checks\<lparr>
            xc_commit_tree := same_as ref (\<lambda>m. map_option (\<lambda>s. (si_commit s, si_tree s)) (rm_subject m)) (tl manifests),
            xc_controller_pid := list_all (\<lambda>m. rm_controller m = rm_controller ref) manifests,
            xc_controller_hash := same_as ref (\<lambda>m. map_option si_controller_sha (rm_subject m)) manifests,
            xc_schema := list_all (\<lambda>m. rm_schema m = rm_schema ref) manifests \<and> rm_schema ref = ''1.1.0'',
            xc_thresholds := same_as ref (\<lambda>m. map_option lc_thresholds (rm_config m)) manifests,
            xc_run_ids := distinct (map rm_run_id manifests), xc_processes := True,
            xc_order := (take 3 scenarios = CanonicalScenarioOrder), xc_disjoint := in_sequence manifests, xc_cleanup := True\<rparr>
      in if length manifests < 3 then Some no_checks
         else if length manifests > 3 \<and> take 3 scenarios = CanonicalScenarioOrder then None
         else Some (checks\<lparr>xc_passed := int (length (filter snd (CanonicalMatrixChecks checks)))\<rparr>))"

definition countTrueFields :: "cross_run_checks \<Rightarrow> int" where
  "countTrueFields c = int (length (filter snd (CanonicalMatrixChecks c)))"

definition AllTrue :: "cross_run_checks \<Rightarrow> bool" where
  "AllTrue c \<longleftrightarrow> list_all snd (CanonicalMatrixChecks c)"

text \<open>The declared checksums of the children, their scenarios and their files.\<close>

definition declared_artifacts :: "string list" where
  "declared_artifacts = [''manifest.json'', ''verdict.json'', ''samples.csv'', ''events.jsonl'', ''container-inspect.json'', ''container-logs.txt'',
     ''initial-canary-state.json'', ''final-canary-state.json'', ''workload-result.json'', ''checksums.txt'']"

datatype declared_fault = DeclaredFile matrix_fault | DeclaredHash string | DeclaredScenario string | DeclaredName string
  | DeclaredDirectory string | DeclaredExtra string | DeclaredMissing string

definition declared_checksum_fault ::
  "(string \<Rightarrow> string) \<Rightarrow> (string \<Rightarrow> run_manifest option) \<Rightarrow> file_system \<Rightarrow> string \<Rightarrow> run_declaration \<Rightarrow> declared_fault option" where
  "declared_checksum_fault sha decode fs runsDir decl =
     (let runPath = path_Join [runsDir, rd_run_id decl]
      in case fs_file fs (path_Join [runPath, checksums_name]) of
           None \<Rightarrow> Some (DeclaredFile (UnreadableDocument checksums_name))
         | Some data \<Rightarrow>
             if sha data \<noteq> rd_checksums decl then Some (DeclaredHash (rd_run_id decl))
             else (case read_document fs runPath ''manifest.json'' decode of
               Inl e \<Rightarrow> Some (DeclaredFile e)
             | Inr manifest \<Rightarrow>
                 if rm_scenario manifest \<noteq> rd_scenario decl then Some (DeclaredScenario (rm_scenario manifest))
                 else if path_Base runPath \<noteq> rd_run_id decl then Some (DeclaredName (path_Base runPath))
                 else case fs_dir fs runPath of
                   None \<Rightarrow> Some (DeclaredFile NoMatrixDirectory)
                 | Some entries \<Rightarrow>
                     (case find (\<lambda>e. snd e \<or> fst e \<notin> set declared_artifacts) entries of
                        Some e \<Rightarrow> Some (if snd e then DeclaredDirectory (fst e) else DeclaredExtra (fst e))
                      | None \<Rightarrow> map_option DeclaredMissing (find (\<lambda>n. n \<notin> fst ` set entries) declared_artifacts))))"

definition ValidateChildChecksums ::
  "(string \<Rightarrow> string) \<Rightarrow> (string \<Rightarrow> run_manifest option) \<Rightarrow> file_system \<Rightarrow> string \<Rightarrow> matrix_manifest \<Rightarrow> declared_fault option" where
  "ValidateChildChecksums sha decode fs matrixDir manifest =
     first_fault (map (declared_checksum_fault sha decode fs (path_Join [matrixDir, ''runs''])) (mx_runs manifest))"

definition validateRunCleanupRecord :: "cleanup_record \<Rightarrow> verified_run \<Rightarrow> bool" where
  "validateRunCleanupRecord rec run \<longleftrightarrow>
     cl_run_id rec = vr_run_id run \<and> cl_scenario rec = vr_scenario run \<and> cr_id (cl_container rec) = vr_container_id run
     \<and> pc_pid (cl_process rec) = vr_pid run \<and> pc_start (cl_process rec) = vr_start run
     \<and> (vr_network_id run \<noteq> [] \<longrightarrow> nr_id (cl_network rec) = vr_network_id run)"

subsection \<open>The identity of a container\<close>

record container_identity =
  ct_schema :: string
  ct_id :: string
  ct_name :: string

datatype identity_document_fault = EmptyDocument | Undecodable | NoElements | NoID | NoSchemaVersion | UnsupportedSchema string
  | UnreadableIdentity

definition container_identity_name :: string where "container_identity_name = ''container-identity.json''"

definition SupportedContainerIdentityVersions :: "string list" where "SupportedContainerIdentityVersions = [''1.0.0'']"

text \<open>An element of the output of \<open>docker inspect\<close>: its fields \<open>Id\<close> and \<open>Name\<close>, where they are strings.\<close>

definition ProjectContainerIdentity ::
  "(string \<Rightarrow> (string option \<times> string option) list option) \<Rightarrow> string \<Rightarrow> identity_document_fault + container_identity" where
  "ProjectContainerIdentity decode data =
     (if data = [] then Inl EmptyDocument
      else case decode data of
        None \<Rightarrow> Inl Undecodable
      | Some [] \<Rightarrow> Inl NoElements
      | Some ((containerID, name) # _) \<Rightarrow>
          if containerID = None \<or> containerID = Some [] then Inl NoID
          else Inr \<lparr>ct_schema = ''1.0.0'', ct_id = the containerID, ct_name = trim_prefix (case name of None \<Rightarrow> [] | Some n \<Rightarrow> n) ''/''\<rparr>)"

definition WriteContainerIdentity :: "(container_identity \<Rightarrow> string) \<Rightarrow> string \<Rightarrow> string \<Rightarrow> string \<Rightarrow> file_system \<Rightarrow> file_system" where
  "WriteContainerIdentity encode runDir containerID containerName =
     write_file runDir container_identity_name (encode \<lparr>ct_schema = ''1.0.0'', ct_id = containerID, ct_name = containerName\<rparr>)"

definition ParseContainerIdentity :: "(string \<Rightarrow> container_identity option) \<Rightarrow> string \<Rightarrow> identity_document_fault + container_identity" where
  "ParseContainerIdentity decode data =
     (if data = [] then Inl EmptyDocument
      else case decode data of
        None \<Rightarrow> Inl Undecodable
      | Some identity \<Rightarrow>
          if ct_schema identity = [] then Inl NoSchemaVersion
          else if ct_schema identity \<notin> set SupportedContainerIdentityVersions then Inl (UnsupportedSchema (ct_schema identity))
          else if ct_id identity = [] then Inl NoID
          else Inr identity)"

definition ReadContainerIdentity :: "(string \<Rightarrow> container_identity option) \<Rightarrow> file_system \<Rightarrow> string \<Rightarrow> identity_document_fault + container_identity" where
  "ReadContainerIdentity decode fs runDir =
     (case fs_file fs (path_Join [runDir, container_identity_name]) of
        None \<Rightarrow> Inl UnreadableIdentity
      | Some data \<Rightarrow> ParseContainerIdentity decode data)"

end
