(* ===== verification/Lab_Matrix_Contract.thy ===== *)
theory Lab_Matrix_Contract
  imports Lab_Matrix_Command Lab_Matrix_Example
begin

section \<open>What the matrix command checks, and what it does with it\<close>

text \<open>
  A child that passes the checks of the loop meets the contract of its scenario; but the command goes on whether it
  does or not, because nothing reads the errors it collects. The comparisons without a caller are shown for what they are.
\<close>

subsection \<open>The contract\<close>

text \<open>The operations of a scenario, and what the canary kept of them.\<close>

definition contract_state :: "string \<Rightarrow> workload_result \<Rightarrow> canary_state \<Rightarrow> canary_state \<Rightarrow> bool" where
  "contract_state scenario w initial final \<longleftrightarrow>
     (scenario = ''canary-growing'' \<and> workload_is 32 w \<and> cy_blocks final = 32 \<and> cy_bytes final = 32 * 2 ^ 20
        \<and> cy_mode initial = ''growing'' \<and> cy_mode final = ''growing'')
     \<or> (scenario = ''canary-bounded'' \<and> workload_is 100 w \<and> cy_blocks final = 0 \<and> cy_bytes final = 0 \<and> cy_buffer initial = cy_buffer final
        \<and> cy_mode initial = ''bounded'' \<and> cy_mode final = ''bounded'')
     \<or> (scenario = ''canary-descriptor'' \<and> workload_is 100 w \<and> cy_blocks final = 0 \<and> cy_bytes final = 0
        \<and> wrap64 (cy_fd final - cy_fd initial) = 200 \<and> cy_mode initial = ''descriptor'' \<and> cy_mode final = ''descriptor'')"

text \<open>The descriptor canary carries its growth in one signal.\<close>

definition contract_signals :: "string \<Rightarrow> child_verdict \<Rightarrow> bool" where
  "contract_signals scenario v \<longleftrightarrow> (scenario = ''canary-descriptor'' \<longrightarrow>
     (\<exists>sig. filter (\<lambda>sig. sg_name sig = descriptor_signal_name) (cv_signals v) = [sig]
        \<and> (sg_samples sig, sg_available sig, sg_missing sig, sg_delta sig) = (2, 2, 0, 200) \<and> sg_primary sig))"

definition contract_verdict :: "string \<Rightarrow> child_verdict \<Rightarrow> bool" where
  "contract_verdict scenario v \<longleftrightarrow>
     (scenario, cv_overall v, cv_memory v, cv_resource v, cv_semantic v) \<in> set ExpectedScenarioClassifications
     \<and> cv_scenario_valid v \<and> cv_canaries_valid v \<and> cv_provenance_valid v"

lemma expected_row: "map_of ExpectedScenarioClassifications scenario = Some row \<longleftrightarrow> (scenario, row) \<in> set ExpectedScenarioClassifications"
  by (rule map_of_eq_Some_iff) (simp add: ExpectedScenarioClassifications_def)

lemma expected_scenarios:
  "(scenario, row) \<in> set ExpectedScenarioClassifications \<Longrightarrow> scenario = ''canary-growing'' \<or> scenario = ''canary-bounded'' \<or> scenario = ''canary-descriptor''"
  by (auto simp: ExpectedScenarioClassifications_def)

lemma signals_once:
  "concat (map signal_faults found) @ errors_if (length found \<noteq> 1) (SignalCount (length found)) = [] \<longleftrightarrow>
     (\<exists>sig. found = [sig] \<and> (sg_samples sig, sg_available sig, sg_missing sig, sg_delta sig) = (2, 2, 0, 200) \<and> sg_primary sig)"
  by (cases found; cases "tl found") (auto simp: signal_faults_def)

lemma scenario_faults_Nil:
  assumes "scenario = ''canary-growing'' \<or> scenario = ''canary-bounded'' \<or> scenario = ''canary-descriptor''"
  shows "scenario_faults scenario w initial final v = [] \<longleftrightarrow> contract_state scenario w initial final \<and> contract_signals scenario v"
  using assms
proof (elim disjE)
  assume "scenario = ''canary-descriptor''"
  then show ?thesis
    using signals_once[of "filter (\<lambda>sig. sg_name sig = descriptor_signal_name) (cv_signals v)"]
    by (auto simp: scenario_faults_def contract_state_def contract_signals_def Let_def)
qed (auto simp: scenario_faults_def contract_state_def contract_signals_def)

lemma ValidateScenarioContract_Nil:
  "ValidateScenarioContract scenario w initial final v = [] \<longleftrightarrow>
     contract_verdict scenario v \<and> contract_state scenario w initial final \<and> contract_signals scenario v"
proof (cases "map_of ExpectedScenarioClassifications scenario")
  case None
  then have "(scenario, row) \<notin> set ExpectedScenarioClassifications" for row using expected_row by (metis option.distinct(1))
  then show ?thesis by (simp add: ValidateScenarioContract_def None contract_verdict_def)
next
  case (Some row)
  then have r: "(scenario, row) \<in> set ExpectedScenarioClassifications" by (simp only: expected_row)
  obtain a b c d where row: "row = (a, b, c, d)" by (cases row)
  have "(scenario, row') \<in> set ExpectedScenarioClassifications \<longleftrightarrow> row' = row" for row' using Some by (auto simp: expected_row[symmetric])
  then show ?thesis using scenario_faults_Nil[OF expected_scenarios[OF r], of w initial final v]
    by (auto simp: ValidateScenarioContract_def Some row contract_verdict_def)
qed

lemma need_None: "need doc k = None \<longleftrightarrow> (\<exists>x. doc = Inr x \<and> k x = None)"
  by (cases doc) (simp_all add: need_def)

lemma read_document_Inr:
  "read_document fs d name decode = Inr x \<longleftrightarrow> (\<exists>data. fs_file fs (path_Join [d, name]) = Some data \<and> decode data = Some x)"
  by (auto simp: read_document_def split: option.splits)

text \<open>What the check of a child after its scenario shows.\<close>

definition contract_met :: "(string \<Rightarrow> string) \<Rightarrow> loose_codec \<Rightarrow> file_system \<Rightarrow> string \<Rightarrow> string \<Rightarrow> bool" where
  "contract_met sha loose fs d scenario \<longleftrightarrow>
     (\<exists>manifest v w initial final.
        read_document fs d ''manifest.json'' (lx_manifest loose) = Inr manifest \<and> rm_schema manifest = ''1.1.0''
        \<and> read_document fs d ''verdict.json'' (lx_verdict loose) = Inr v
        \<and> read_document fs d ''workload-result.json'' (lx_workload loose) = Inr w
        \<and> read_document fs d ''initial-canary-state.json'' (lx_state loose) = Inr initial
        \<and> read_document fs d ''final-canary-state.json'' (lx_state loose) = Inr final
        \<and> contract_verdict scenario v \<and> contract_state scenario w initial final \<and> contract_signals scenario v)
     \<and> (\<exists>data entries. fs_file fs (path_Join [d, checksums_name]) = Some data \<and> ParseChecksumsFile data = Inr entries
        \<and> (\<forall>(name, hash) \<in> set entries. map_option sha (fs_file fs (path_Join [d, name])) = Some hash))"

lemma entry_fault_None: "entry_fault sha fs d e = None \<longleftrightarrow> map_option sha (fs_file fs (path_Join [d, fst e])) = Some (snd e)"
  by (simp add: entry_fault_def split: option.split)

lemma verifyChildChecksums_None:
  "verifyChildChecksums sha fs d = None \<longleftrightarrow>
     (\<exists>data entries. fs_file fs (path_Join [d, checksums_name]) = Some data \<and> ParseChecksumsFile data = Inr entries
        \<and> (\<forall>(name, hash) \<in> set entries. map_option sha (fs_file fs (path_Join [d, name])) = Some hash))"
  by (auto simp: verifyChildChecksums_def first_fault_None entry_fault_None split: option.split sum.split)

lemma if_Some_None: "(if b then Some x else k) = None \<longleftrightarrow> \<not> b \<and> k = None"
  by simp

text \<open>C28. The check of a child after its scenario passes exactly when the contract of the scenario is met: its documents can be read, the operations,
  the final state and the classes are those of the scenario, the descriptor signal is there once, and every entry of the checksum file holds.\<close>

theorem child_check_exact:
  "verifyChildRun sha loose fs d scenario = None \<longleftrightarrow> contract_met sha loose fs d scenario"
  unfolding verifyChildRun_def need_None contract_met_def verifyChildChecksums_None[symmetric] Let_def
    if_Some_None not_not ValidateScenarioContract_Nil option.map_disc_iff by blast

subsection \<open>The errors nobody reads\<close>

text \<open>Two hosts on which the scenarios do the same; the containers, and what the checks decode, may differ.\<close>

definition same_scenarios :: "matrix_env \<Rightarrow> matrix_env \<Rightarrow> bool" where
  "same_scenarios env env' \<longleftrightarrow> me_run env = me_run env' \<and> me_nanos env = me_nanos env' \<and> me_stat env = me_stat env'
     \<and> (\<forall>data. lx_manifest (me_loose env) data = None \<longleftrightarrow> lx_manifest (me_loose env') data = None)"

definition same_but_errors :: "(bundle_fault + loop_state) option \<Rightarrow> (bundle_fault + loop_state) option \<Rightarrow> bool" where
  "same_but_errors = rel_option (rel_sum (=) (\<lambda>(fs, ds, _) (fs', ds', _). fs = fs' \<and> ds = ds'))"

lemma declare_run_same:
  "same_scenarios env env' \<Longrightarrow> declare_run sha (me_loose env) fs d i scenario runID = declare_run sha (me_loose env') fs d i scenario runID"
  by (auto simp: declare_run_def read_document_def same_scenarios_def split: option.splits sum.splits) (metis option.distinct(1))+

lemma cleanup_panics:
  "verifyContainerCleanup fs stat containers runID d = None \<longleftrightarrow> verifyContainerCleanup fs stat containers' runID d = None"
  by (simp add: verifyContainerCleanup_def split: sum.split option.split prod.split)

lemma step_same:
  assumes "same_scenarios env env'"
  shows "same_but_errors (scenario_step sha env d i scenario (fs, ds, es)) (scenario_step sha env' d i scenario (fs, ds, es'))"
proof -
  have s: "me_run env' = me_run env" "me_nanos env' = me_nanos env" "me_stat env' = me_stat env" using assms by (simp_all add: same_scenarios_def)
  let ?id = "scenario @ ''-'' @ show_int (me_nanos env i)"
  let ?p = "path_Join [d, ?id]"
  obtain ok fs1 where r: "me_run env scenario ?p (make_dir d ?id fs) = (ok, fs1)" by (cases "me_run env scenario ?p (make_dir d ?id fs)")
  have p: "verifyContainerCleanup fs1 (me_stat env i) (me_containers env i) ?id ?p = None
    \<longleftrightarrow> verifyContainerCleanup fs1 (me_stat env i) (me_containers env' i) ?id ?p = None" by (rule cleanup_panics)
  show ?thesis
    unfolding scenario_step_def Let_def s prod.case r declare_run_same[OF assms, symmetric] same_but_errors_def
    using p by (cases "declare_run sha (me_loose env) fs1 ?p i scenario ?id"; cases ok;
      cases "verifyContainerCleanup fs1 (me_stat env i) (me_containers env i) ?id ?p";
      cases "verifyContainerCleanup fs1 (me_stat env i) (me_containers env' i) ?id ?p") simp_all
qed

lemma loop_same:
  assumes "same_scenarios env env'"
  shows "same_but_errors (scenario_loop sha env d i scenarios (fs, ds, es)) (scenario_loop sha env' d i scenarios (fs, ds, es'))"
proof (induction scenarios arbitrary: i fs ds es es')
  case (Cons scenario scenarios)
  note s = step_same[OF assms, of sha d i scenario fs ds es es', unfolded same_but_errors_def]
  show ?case
  proof (cases "scenario_step sha env d i scenario (fs, ds, es)")
    case None
    then have "scenario_step sha env' d i scenario (fs, ds, es') = None" using s by simp
    with None show ?thesis by (simp add: same_but_errors_def)
  next
    case (Some r)
    then obtain r' where r': "scenario_step sha env' d i scenario (fs, ds, es') = Some r'"
      "rel_sum (=) (\<lambda>(fs, ds, _) (fs', ds', _). fs = fs' \<and> ds = ds') r r'"
      using s by (auto simp: option_rel_Some1)
    show ?thesis
    proof (cases r)
      case (Inl e)
      with r' Some show ?thesis by (cases r') (simp_all add: same_but_errors_def)
    next
      case (Inr st)
      obtain fs1 ds1 es1 where st: "st = (fs1, ds1, es1)" by (cases st)
      with r'(2) Inr obtain es2 where "r' = Inr (fs1, ds1, es2)" by (cases r') auto
      with r'(1) Some Inr st show ?thesis using Cons.IH by simp
    qed
  qed
qed (simp add: same_but_errors_def)

lemma command_same:
  assumes "same_scenarios env env'"
  shows "matrixCommandWithDeps sha codec enc env observe identity started finished now dir matrixID fs
       = matrixCommandWithDeps sha codec enc env' observe identity started finished now dir matrixID fs"
proof -
  let ?d = "path_Join [path_Join [dir, matrixID], ''runs'']" and ?fs = "make_dir (path_Join [dir, matrixID]) ''runs'' (make_dir dir matrixID fs)"
  note l = loop_same[OF assms, of sha ?d 0 CanonicalScenarioOrder ?fs "[]" "[]" "[]", unfolded same_but_errors_def]
  show ?thesis
  proof (cases "scenario_loop sha env ?d 0 CanonicalScenarioOrder (?fs, [], [])")
    case None
    then have "scenario_loop sha env' ?d 0 CanonicalScenarioOrder (?fs, [], []) = None" using l by simp
    then show ?thesis by (simp add: matrixCommandWithDeps_def Let_def None)
  next
    case (Some r)
    then obtain r' where r': "scenario_loop sha env' ?d 0 CanonicalScenarioOrder (?fs, [], []) = Some r'"
      "rel_sum (=) (\<lambda>(fs, ds, _) (fs', ds', _). fs = fs' \<and> ds = ds') r r'" using l by (auto simp: option_rel_Some1)
    then show ?thesis by (cases r; cases r') (auto simp: matrixCommandWithDeps_def Let_def Some)
  qed
qed

text \<open>C25. The errors the loop collects are not read: on two hosts where the scenarios do the same, the command ends the same way, whatever
  containers survive and whatever the lenient checks of the children find.\<close>

theorem run_errors_unread:
  assumes "same_scenarios env env'"
  shows "matrixCommandWithDeps sha codec enc env observe identity started finished now dir matrixID fs
       = matrixCommandWithDeps sha codec enc env' observe identity started finished now dir matrixID fs"
  by (rule command_same[OF assms])

definition ex_env :: "string list \<Rightarrow> matrix_env" where
  "ex_env names = \<lparr>me_run = (\<lambda>_ _ _. (True, ex_fs)), me_nanos = int, me_containers = (\<lambda>_. Some names), me_stat = (\<lambda>_ _. StatMissing),
     me_loose = \<lparr>lx_manifest = dec_run_manifest ex_codec, lx_verdict = dec_run_verdict ex_codec, lx_workload = (\<lambda>_. None), lx_state = (\<lambda>_. None)\<rparr>\<rparr>"

lemma ex_survivor: "verifyContainerCleanup ex_fs (\<lambda>_. StatMissing) (Some [''tovarisch-subject-1'']) ''a'' ''/m/runs/a'' = Some (Some (ContainerExists ''tovarisch-subject-1''))"
proof -
  have "fs_file ex_fs (path_Join [''/m/runs/a'', ''samples.csv'']) = Some (ex_content ''a'' ''samples.csv'')"
    using ex_file_at[of "''a''" "''samples.csv''"] by (simp add: child_files_def)
  moreover have "ex_pid ''a'' = 7" by (simp add: ex_pid_def)
  ultimately show ?thesis
    using ex_identity[of "''a''"]
    by (simp add: verifyContainerCleanup_def extractProcessIdentity_def inspectProcessGone_def surviving_container_def has_prefix_def)
qed

lemma run_errors_unread_witness:
  "verifyContainerCleanup ex_fs (\<lambda>_. StatMissing) (me_containers (ex_env [''tovarisch-subject-1'']) 0) ''a'' ''/m/runs/a'' \<noteq> Some None
   \<and> matrixCommandWithDeps zero_sum ex_codec_all ex_enc (ex_env []) ex_observe (the (mx_identity ex_matrix)) 1 9 20 ''/m'' ''m1'' ex_fs
     = matrixCommandWithDeps zero_sum ex_codec_all ex_enc (ex_env [''tovarisch-subject-1'']) ex_observe (the (mx_identity ex_matrix)) 1 9 20 ''/m'' ''m1'' ex_fs"
proof
  show "verifyContainerCleanup ex_fs (\<lambda>_. StatMissing) (me_containers (ex_env [''tovarisch-subject-1'']) 0) ''a'' ''/m/runs/a'' \<noteq> Some None"
    by (simp add: ex_env_def ex_survivor)
qed (rule run_errors_unread, simp add: same_scenarios_def ex_env_def)

subsection \<open>The comparisons without a caller\<close>

text \<open>The older check never finds all its fields true, because six of them are never set.\<close>

lemma older_check_never_true: "verifyCrossRunIdentity ms = Some c \<Longrightarrow> \<not> AllTrue c"
proof -
  assume c: "verifyCrossRunIdentity ms = Some c"
  have "map_option xc_phases (verifyCrossRunIdentity ms) \<in> {None, Some False}"
    by (simp add: verifyCrossRunIdentity_def Let_def if_distrib[of "map_option xc_phases"])
  with c have "\<not> xc_phases c" by simp
  moreover have "AllTrue c \<Longrightarrow> xc_phases c" by (simp add: AllTrue_def CanonicalMatrixChecks_def)
  ultimately show ?thesis by blast
qed

lemma AllTrue_counts: "AllTrue c \<longleftrightarrow> countTrueFields c = 16"
proof -
  have "length (CanonicalMatrixChecks c) = 16" by (simp add: CanonicalMatrixChecks_def)
  then show ?thesis using filter_all[of snd "CanonicalMatrixChecks c"] by (simp add: AllTrue_def countTrueFields_def)
qed

text \<open>The comparison of two identities does not look at the phases.\<close>

lemma changed_texts_same: "changed_texts xs xs = []"
  by (induction xs) (simp_all add: changed_texts_def)

lemma CompareExecutionIdentity_phases:
  assumes "xi_thresholds a = Some t" "th_memory_percent t \<noteq> NaN"
  shows "CompareExecutionIdentity a (a\<lparr>xi_phases := p\<rparr>) = Some []"
proof -
  have "identity_texts (a\<lparr>xi_phases := p\<rparr>) = identity_texts a" "identity_more (a\<lparr>xi_phases := p\<rparr>) = identity_more a"
    by (simp_all add: identity_texts_def identity_more_def)
  then show ?thesis using assms
    by (simp add: CompareExecutionIdentity_def changed_texts_same thresholdsEqual_def feq_def)
qed

lemma validateRunCleanupRecord_confirms: "cleanup_confirms rec run \<Longrightarrow> validateRunCleanupRecord rec run"
  by (simp add: cleanup_confirms_def validateRunCleanupRecord_def)

subsection \<open>Identities that are written and read back\<close>

lemma container_identity_read:
  assumes "decode (encode \<lparr>ct_schema = ''1.0.0'', ct_id = i, ct_name = n\<rparr>) = Some \<lparr>ct_schema = ''1.0.0'', ct_id = i, ct_name = n\<rparr>"
    and "encode \<lparr>ct_schema = ''1.0.0'', ct_id = i, ct_name = n\<rparr> \<noteq> []" "i \<noteq> []"
  shows "ReadContainerIdentity decode (WriteContainerIdentity encode d i n fs) d = Inr \<lparr>ct_schema = ''1.0.0'', ct_id = i, ct_name = n\<rparr>"
  using assms by (simp add: ReadContainerIdentity_def WriteContainerIdentity_def write_file_def ParseContainerIdentity_def
      SupportedContainerIdentityVersions_def)

lemma network_identity_read:
  assumes "decode (encode \<lparr>ni_schema = ''1.0.0'', ni_id = i, ni_name = n\<rparr>) = Some \<lparr>ni_schema = ''1.0.0'', ni_id = i, ni_name = n\<rparr>" "i \<noteq> []"
  shows "ReadNetworkIdentity decode (WriteNetworkIdentity encode d i n fs) d = Inr (i, n)"
  using assms by (simp add: ReadNetworkIdentity_def WriteNetworkIdentity_def write_file_def)

end
